(* ===== verification/CW_Prelude.thy ===== *)
theory CW_Prelude
  imports Main "HOL-Library.AList" "HOL-Library.Word" "HOL-Library.Char_ord"
    "HOL-Library.List_Lexorder"
begin

text \<open>
  The vocabulary the component theories share.

  \<^item> Go strings are byte sequences: \<open>string\<close>, a list of 8-bit characters, ordered
    bytewise (\<open>sort.Strings\<close>).  \<open>[]byte\<close> values are lists of \<open>8 word\<close>.  The case and
    white-space functions of package strings are given on ASCII, which is the whole alphabet of
    the names, commands and option values the program compares; bytes above 127 are left alone.
  \<^item> Go maps are association lists with distinct keys (\<open>gm_ok\<close>).  The list order is the
    order of a \<open>range\<close> loop, which Go leaves open; results that must not depend on it are
    proved to be the same for every order.
  \<^item> \<open>time.Time\<close> and \<open>time.Duration\<close> values are nanoseconds (\<open>int\<close>), with
    \<open>0\<close> for the zero time.
  \<^item> A function that returns \<open>(value, error)\<close> returns \<open>error + value\<close>.
  \<^item> \<open>step_system\<close> is the interface of a state machine with an invariant; every
    component that is a step relation is an interpretation of it.
\<close>

unbundle bit_operations_syntax

named_theorems gomap_simps \<open>lookups, updates and deletions of Go maps\<close>
named_theorems bytes_simps \<open>conversions between strings, bytes and little-endian integers\<close>

section \<open>Types shared by the components\<close>

type_synonym byte = "8 word"
type_synonym uint64 = "64 word"
type_synonym int64 = "64 word"
type_synonym ('k, 'v) gomap = "('k \<times> 'v) list"
type_synonym gotime = int

abbreviation second_ns :: gotime where "second_ns \<equiv> 1000000000"
abbreviation minute_ns :: gotime where "minute_ns \<equiv> 60 * second_ns"
abbreviation hour_ns :: gotime where "hour_ns \<equiv> 60 * minute_ns"

text \<open>The zero value of \<open>time.Time\<close>, and \<open>Time.IsZero\<close>.\<close>

abbreviation zero_time :: gotime where "zero_time \<equiv> 0"

text \<open>The name of the generator made from a map exchange string (constants/consts.go).\<close>

definition CustomMapGeneratorName :: string where "CustomMapGeneratorName = ''custom''"

section \<open>Go maps\<close>

definition gm_get :: "('k, 'v) gomap \<Rightarrow> 'k \<Rightarrow> 'v option" where
  "gm_get m k = map_of m k"

definition gm_put :: "('k, 'v) gomap \<Rightarrow> 'k \<Rightarrow> 'v \<Rightarrow> ('k, 'v) gomap" where
  "gm_put m k v = AList.update k v m"

definition gm_del :: "('k, 'v) gomap \<Rightarrow> 'k \<Rightarrow> ('k, 'v) gomap" where
  "gm_del m k = AList.delete k m"

definition gm_keys :: "('k, 'v) gomap \<Rightarrow> 'k list" where
  "gm_keys m = map fst m"

definition gm_ok :: "('k, 'v) gomap \<Rightarrow> bool" where
  "gm_ok m \<longleftrightarrow> distinct (gm_keys m)"

text \<open>The range loop that deletes every entry satisfying a condition.\<close>

definition gm_prune :: "('k \<Rightarrow> 'v \<Rightarrow> bool) \<Rightarrow> ('k, 'v) gomap \<Rightarrow> ('k, 'v) gomap" where
  "gm_prune p m = filter (\<lambda>(k, v). \<not> p k v) m"

lemma gm_get_Nil [simp, gomap_simps]: "gm_get [] k = None"
  by (simp add: gm_get_def)

lemma gm_get_put [simp, gomap_simps]:
  "gm_get (gm_put m k v) k' = (if k' = k then Some v else gm_get m k')"
  by (simp add: gm_get_def gm_put_def update_conv')

lemma gm_get_del [simp, gomap_simps]:
  "gm_get (gm_del m k) k' = (if k' = k then None else gm_get m k')"
  by (simp add: gm_get_def gm_del_def delete_conv')

lemma gm_ok_Nil [simp, gomap_simps]: "gm_ok []"
  by (simp add: gm_ok_def gm_keys_def)

lemma gm_ok_put [simp, gomap_simps]: "gm_ok m \<Longrightarrow> gm_ok (gm_put m k v)"
  by (simp add: gm_ok_def gm_keys_def gm_put_def distinct_update)

lemma gm_ok_del [simp, gomap_simps]: "gm_ok m \<Longrightarrow> gm_ok (gm_del m k)"
  by (simp add: gm_ok_def gm_keys_def gm_del_def distinct_delete)

lemma gm_ok_prune [simp, gomap_simps]: "gm_ok m \<Longrightarrow> gm_ok (gm_prune p m)"
  unfolding gm_ok_def gm_keys_def gm_prune_def by (rule distinct_map_filter)

lemma gm_get_Some_mem: "gm_get m k = Some v \<Longrightarrow> (k, v) \<in> set m"
  by (simp add: gm_get_def map_of_SomeD)

lemma gm_get_iff: "gm_ok m \<Longrightarrow> gm_get m k = Some v \<longleftrightarrow> (k, v) \<in> set m"
  by (simp add: gm_get_def gm_ok_def gm_keys_def)

lemma gm_get_None_iff: "gm_get m k = None \<longleftrightarrow> k \<notin> set (gm_keys m)"
  by (simp add: gm_get_def gm_keys_def map_of_eq_None_iff)

lemma gm_get_prune:
  assumes "gm_ok m"
  shows "gm_get (gm_prune p m) k =
    (case gm_get m k of None \<Rightarrow> None | Some v \<Rightarrow> if p k v then None else Some v)"
proof (cases "gm_get m k")
  case None
  then have "gm_get (gm_prune p m) k = None"
    by (auto simp: gm_get_None_iff gm_keys_def gm_prune_def)
  with None show ?thesis by simp
next
  case (Some v)
  with assms have mem: "(k, v') \<in> set m \<longleftrightarrow> v' = v" for v'
    by (metis gm_get_iff option.inject)
  show ?thesis
  proof (cases "p k v")
    case True
    have "gm_get (gm_prune p m) k = None"
      using True mem by (auto simp: gm_get_None_iff gm_keys_def gm_prune_def)
    with Some True show ?thesis by simp
  next
    case False
    have "(k, v) \<in> set (gm_prune p m)"
      using False mem by (auto simp: gm_prune_def)
    with assms have "gm_get (gm_prune p m) k = Some v"
      by (simp add: gm_get_iff)
    with Some False show ?thesis by simp
  qed
qed

lemma gm_prune_subset: "(k, v) \<in> set (gm_prune p m) \<Longrightarrow> (k, v) \<in> set m \<and> \<not> p k v"
  by (auto simp: gm_prune_def)

lemma gm_prune_get_Some:
  "gm_ok m \<Longrightarrow> gm_get (gm_prune p m) k = Some v \<longleftrightarrow> gm_get m k = Some v \<and> \<not> p k v"
  by (auto simp: gm_get_prune split: option.splits)

lemma gm_ok_perm: "gm_ok m \<Longrightarrow> gm_ok n \<Longrightarrow> set m = set n \<Longrightarrow> gm_get m = gm_get n"
  by (rule ext) (metis gm_get_iff option.exhaust)

subsection \<open>The interface of a store\<close>

text \<open>
  What the client of a key-value store relies on: the Go maps of this development provide it,
  and the facts about repeated updates are proved once, here.
\<close>

locale kv_store =
  fixes get :: "'m \<Rightarrow> 'k \<Rightarrow> 'v option"
    and put :: "'m \<Rightarrow> 'k \<Rightarrow> 'v \<Rightarrow> 'm"
    and del :: "'m \<Rightarrow> 'k \<Rightarrow> 'm"
    and ok :: "'m \<Rightarrow> bool"
  assumes get_put: "get (put m k v) k' = (if k' = k then Some v else get m k')"
    and get_del: "get (del m k) k' = (if k' = k then None else get m k')"
    and ok_put: "ok m \<Longrightarrow> ok (put m k v)"
    and ok_del: "ok m \<Longrightarrow> ok (del m k)"
begin

text \<open>Applying one change: \<open>None\<close> deletes the key, \<open>Some v\<close> stores \<open>v\<close>.\<close>

definition change :: "'m \<Rightarrow> 'k \<times> 'v option \<Rightarrow> 'm" where
  "change m c = (case snd c of None \<Rightarrow> del m (fst c) | Some v \<Rightarrow> put m (fst c) v)"

definition changes :: "'m \<Rightarrow> ('k \<times> 'v option) list \<Rightarrow> 'm" where
  "changes m cs = foldl change m cs"

lemma get_change: "get (change m (k, c)) k' = (if k' = k then c else get m k')"
  by (auto simp: change_def get_put get_del split: option.splits)

lemma ok_changes: "ok m \<Longrightarrow> ok (changes m cs)"
  by (induction cs arbitrary: m)
    (auto simp: changes_def change_def ok_put ok_del split: option.splits)

lemma get_changes:
  "distinct (map fst cs) \<Longrightarrow>
   get (changes m cs) k = (case map_of cs k of None \<Rightarrow> get m k | Some c \<Rightarrow> c)"
proof (induction cs arbitrary: m)
  case Nil
  then show ?case by (simp add: changes_def)
next
  case (Cons a cs)
  obtain k0 c0 where a: "a = (k0, c0)" by (cases a)
  have "get (changes m (a # cs)) k = get (changes (change m (k0, c0)) cs) k"
    by (simp add: changes_def a)
  also have "\<dots> = (case map_of cs k of None \<Rightarrow> get (change m (k0, c0)) k | Some c \<Rightarrow> c)"
    using Cons by simp
  also have "\<dots> = (case map_of (a # cs) k of None \<Rightarrow> get m k | Some c \<Rightarrow> c)"
  proof (cases "k = k0")
    case True
    with Cons.prems a have "map_of cs k = None"
      by (simp add: map_of_eq_None_iff)
    with True a show ?thesis by (simp add: get_change)
  next
    case False
    with a show ?thesis by (simp add: get_change split: option.split)
  qed
  finally show ?case .
qed

end

interpretation gm: kv_store gm_get gm_put gm_del gm_ok
  by unfold_locales auto

section \<open>Strings\<close>

definition to_lower_char :: "char \<Rightarrow> char" where
  "to_lower_char c = (let n = (of_char c :: nat) in
     if 65 \<le> n \<and> n \<le> 90 then char_of (n + 32) else c)"

text \<open>\<open>strings.ToLower\<close>, \<open>strings.EqualFold\<close> and \<open>strings.TrimSpace\<close> on ASCII.\<close>

definition to_lower :: "string \<Rightarrow> string" where
  "to_lower s = map to_lower_char s"

definition equal_fold :: "string \<Rightarrow> string \<Rightarrow> bool" where
  "equal_fold a b \<longleftrightarrow> to_lower a = to_lower b"

definition is_space :: "char \<Rightarrow> bool" where
  "is_space c \<longleftrightarrow> (let n = (of_char c :: nat) in n = 32 \<or> (9 \<le> n \<and> n \<le> 13))"

definition trim_space :: "string \<Rightarrow> string" where
  "trim_space s = rev (dropWhile is_space (rev (dropWhile is_space s)))"

text \<open>\<open>strings.HasPrefix\<close>, \<open>strings.HasSuffix\<close> and \<open>strings.Contains\<close>.\<close>

definition has_prefix :: "string \<Rightarrow> string \<Rightarrow> bool" where
  "has_prefix s p \<longleftrightarrow> take (length p) s = p"

definition has_suffix :: "string \<Rightarrow> string \<Rightarrow> bool" where
  "has_suffix s p \<longleftrightarrow> has_prefix (rev s) (rev p)"

fun contains_str :: "string \<Rightarrow> string \<Rightarrow> bool" where
  "contains_str [] p = (p = [])"
| "contains_str (c # s) p = (has_prefix (c # s) p \<or> contains_str s p)"

text \<open>\<open>strconv.Itoa\<close> and the verb \<open>%d\<close>.\<close>

definition digit_char :: "nat \<Rightarrow> char" where
  "digit_char d = char_of (48 + d)"

fun itoa :: "nat \<Rightarrow> string" where
  "itoa n = (if n < 10 then [digit_char n] else itoa (n div 10) @ [digit_char (n mod 10)])"

declare itoa.simps [simp del]

lemma to_lower_char_idem [simp]: "to_lower_char (to_lower_char c) = to_lower_char c"
  by (simp add: to_lower_char_def Let_def)

lemma to_lower_idem [simp]: "to_lower (to_lower s) = to_lower s"
  by (simp add: to_lower_def)

lemma to_lower_Nil_iff [simp]: "to_lower s = [] \<longleftrightarrow> s = []"
  by (simp add: to_lower_def)

lemma Nil_to_lower_iff [simp]: "[] = to_lower s \<longleftrightarrow> s = []"
  by (auto simp: to_lower_def)

lemma length_to_lower [simp]: "length (to_lower s) = length s"
  by (simp add: to_lower_def)

lemma is_space_to_lower [simp]: "is_space (to_lower_char c) = is_space c"
  by (auto simp: is_space_def to_lower_char_def Let_def)

lemma trim_to_lower: "trim_space (to_lower s) = to_lower (trim_space s)"
  by (simp add: trim_space_def to_lower_def dropWhile_map rev_map o_def)

lemma dropWhile_snoc_no: "\<not> P x \<Longrightarrow> dropWhile P (xs @ [x]) \<noteq> []"
  by (induction xs) auto

lemma trim_space_idem [simp]: "trim_space (trim_space s) = trim_space s"
proof -
  define t where "t = dropWhile is_space s"
  define u where "u = dropWhile is_space (rev t)"
  have ts: "trim_space s = rev u" by (simp add: trim_space_def t_def u_def)
  have "dropWhile is_space (rev u) = rev u"
  proof (cases "rev u")
    case (Cons a v)
    have "u = v' @ [a] \<Longrightarrow> \<not> is_space a" for v'
    proof -
      assume "u = v' @ [a]"
      then have "\<exists>w. rev t = w @ v' @ [a]"
        unfolding u_def by (metis takeWhile_dropWhile_id)
      then have "\<exists>w. t = a # w" by (metis append.assoc rev_eq_Cons_iff rev_rev_ident)
      then show "\<not> is_space a"
        unfolding t_def by (metis hd_dropWhile list.discI list.sel(1))
    qed
    with Cons show ?thesis by (metis dropWhile.simps(2) rev_eq_Cons_iff)
  qed simp
  moreover have "dropWhile is_space u = u"
    by (simp add: u_def)
  ultimately show ?thesis
    unfolding ts by (simp add: trim_space_def)
qed

section \<open>Bytes\<close>

definition bytes_of :: "string \<Rightarrow> byte list" where
  "bytes_of s = map (\<lambda>c. of_char c) s"

definition str_of :: "byte list \<Rightarrow> string" where
  "str_of bs = map (\<lambda>b. char_of (unat b)) bs"

lemma unat_of_char [simp, bytes_simps]: "unat (of_char c :: byte) = of_char c"
proof -
  have "(of_char c :: byte) = of_nat (of_char c)"
    by (simp add: of_nat_of_char)
  then have "unat (of_char c :: byte) = (of_char c :: nat) mod 256"
    by (simp add: unat_of_nat)
  then show ?thesis by simp
qed

lemma str_of_bytes_of [simp, bytes_simps]: "str_of (bytes_of s) = s"
  by (induction s) (simp_all add: str_of_def bytes_of_def)

lemma length_bytes_of [simp, bytes_simps]: "length (bytes_of s) = length s"
  by (simp add: bytes_of_def)

lemma length_str_of [simp, bytes_simps]: "length (str_of bs) = length bs"
  by (simp add: str_of_def)

lemma bytes_of_Nil_iff [simp, bytes_simps]: "bytes_of s = [] \<longleftrightarrow> s = []"
  by (simp add: bytes_of_def)

text \<open>\<open>binary.LittleEndian\<close>: the low \<open>n\<close> bytes of a number, and back.\<close>

fun le_put :: "nat \<Rightarrow> nat \<Rightarrow> byte list" where
  "le_put 0 x = []"
| "le_put (Suc n) x = of_nat x # le_put n (x div 256)"

fun le_get :: "byte list \<Rightarrow> nat" where
  "le_get [] = 0"
| "le_get (b # bs) = unat b + 256 * le_get bs"

lemma length_le_put [simp, bytes_simps]: "length (le_put n x) = n"
  by (induction n arbitrary: x) simp_all

lemma le_get_put: "le_get (le_put n x) = x mod 256 ^ n"
proof (induction n arbitrary: x)
  case 0
  then show ?case by simp
next
  case (Suc n)
  have "le_get (le_put (Suc n) x) = x mod 256 + 256 * (x div 256 mod 256 ^ n)"
    by (simp add: Suc unat_of_nat)
  also have "\<dots> = x mod (256 * 256 ^ n)"
    by (simp add: mod_mult2_eq)
  finally show ?case by simp
qed

lemma le_get_less: "le_get bs < 256 ^ length bs"
proof (induction bs)
  case Nil
  then show ?case by simp
next
  case (Cons b bs)
  have "unat b < 2 ^ LENGTH(8)" by (rule unsigned_less)
  then have "unat b < 256" by simp
  with Cons show ?case by simp
qed

section \<open>Integers\<close>

text \<open>Go's \<open>/\<close> truncates towards zero.\<close>

definition go_div :: "int \<Rightarrow> int \<Rightarrow> int" where
  "go_div a b = (let q = \<bar>a\<bar> div \<bar>b\<bar> in if (a < 0) = (b < 0) then q else - q)"

text \<open>\<open>strconv.ParseUint(s, 10, 64)\<close>: \<open>None\<close> is an error.\<close>

definition is_digit :: "char \<Rightarrow> bool" where
  "is_digit c \<longleftrightarrow> (let n = (of_char c :: nat) in 48 \<le> n \<and> n \<le> 57)"

definition is_alpha :: "char \<Rightarrow> bool" where
  "is_alpha c \<longleftrightarrow> (let n = (of_char c :: nat) in 65 \<le> n \<and> n \<le> 90 \<or> 97 \<le> n \<and> n \<le> 122)"

text \<open>Letters, digits, the minus and the underscore.\<close>

definition is_token_char :: "char \<Rightarrow> bool" where
  "is_token_char c \<longleftrightarrow> is_alpha c \<or> is_digit c \<or> c \<in> {CHR ''-'', CHR ''_''}"

definition digits_value :: "string \<Rightarrow> nat" where
  "digits_value s = foldl (\<lambda>acc c. 10 * acc + (of_char c - 48)) 0 s"

definition parse_uint64 :: "string \<Rightarrow> nat option" where
  "parse_uint64 s =
     (if s = '''' \<or> \<not> list_all is_digit s then None
      else if digits_value s < 2 ^ 64 then Some (digits_value s) else None)"

section \<open>Splitting strings\<close>

text \<open>\<open>strings.Split\<close> with a one-byte separator.\<close>

fun split_on :: "char \<Rightarrow> string \<Rightarrow> string list" where
  "split_on c [] = [[]]"
| "split_on c (x # xs) = (if x = c then [] # split_on c xs
     else case split_on c xs of p # ps \<Rightarrow> (x # p) # ps | [] \<Rightarrow> [[x]])"

section \<open>State machines\<close>

text \<open>
  A machine with a start predicate and a step relation, and an invariant that holds at the
  start and is kept by every step.  Reachability and the induction over it are done once.
\<close>

inductive reachable_from :: "('s \<Rightarrow> bool) \<Rightarrow> ('s \<Rightarrow> 's \<Rightarrow> bool) \<Rightarrow> 's \<Rightarrow> bool"
  for start :: "'s \<Rightarrow> bool" and step :: "'s \<Rightarrow> 's \<Rightarrow> bool" where
  reach_start: "start s \<Longrightarrow> reachable_from start step s"
| reach_step: "reachable_from start step s \<Longrightarrow> step s t \<Longrightarrow> reachable_from start step t"

locale step_system =
  fixes start :: "'s \<Rightarrow> bool"
    and step :: "'s \<Rightarrow> 's \<Rightarrow> bool"
    and inv :: "'s \<Rightarrow> bool"
  assumes inv_start: "start s \<Longrightarrow> inv s"
    and inv_step: "inv s \<Longrightarrow> step s t \<Longrightarrow> inv t"
begin

lemma inv_reachable: "reachable_from start step s \<Longrightarrow> inv s"
  by (induction rule: reachable_from.induct) (auto intro: inv_start inv_step)

text \<open>A relation between a state and its successors that every single step satisfies and that
  is transitive holds along every run.\<close>

lemma run_induct:
  assumes "step\<^sup>*\<^sup>* s t" and "inv s"
    and "\<And>x. R x x"
    and "\<And>x y. inv x \<Longrightarrow> step x y \<Longrightarrow> R x y"
    and "\<And>x y z. R x y \<Longrightarrow> R y z \<Longrightarrow> R x z"
  shows "R s t \<and> inv t"
  using assms(1)
proof (induction rule: rtranclp_induct)
  case base
  then show ?case using assms by simp
next
  case (step y z)
  then show ?case using assms inv_step by blast
qed

end

end
