(* ===== verification/Go_Std.thy ===== *)
theory Go_Std
  imports CW_Prelude
begin

text \<open>
  The parts of Go's standard library the components use that are algorithms of their own:
  \<open>hash/crc32\<close> (table driven, reflected polynomials) and the variable-length integers of
  \<open>encoding/binary\<close> (\<open>AppendUvarint\<close>, \<open>Uvarint\<close>, \<open>AppendVarint\<close>,
  \<open>Varint\<close>).  The lemmas give the round trip of the variable-length integers and how
  far they read.
\<close>

section \<open>hash/crc32\<close>

definition crc_step :: "32 word \<Rightarrow> 32 word \<Rightarrow> 32 word" where
  "crc_step poly c = (if bit c 0 then drop_bit 1 c XOR poly else drop_bit 1 c)"

definition crc_table :: "32 word \<Rightarrow> byte \<Rightarrow> 32 word" where
  "crc_table poly i = (crc_step poly ^^ 8) (ucast i)"

definition crc_byte :: "32 word \<Rightarrow> 32 word \<Rightarrow> byte \<Rightarrow> 32 word" where
  "crc_byte poly c b = crc_table poly (ucast c XOR b) XOR drop_bit 8 c"

definition crc_checksum :: "32 word \<Rightarrow> byte list \<Rightarrow> 32 word" where
  "crc_checksum poly p = NOT (foldl (crc_byte poly) (NOT 0) p)"

abbreviation castagnoli :: "32 word" where "castagnoli \<equiv> 0x82f63b78"
abbreviation ieee :: "32 word" where "ieee \<equiv> 0xedb88320"

section \<open>encoding/binary: unsigned variable-length integers\<close>

lemma unat_drop_bit7: "unat (drop_bit 7 (x :: uint64)) = unat x div 128"
proof -
  have "unat (drop_bit 7 x) = drop_bit 7 (unat x)" by (rule unat_drop_bit_eq)
  then show ?thesis by (simp add: drop_bit_eq_div)
qed

function put_uvarint :: "uint64 \<Rightarrow> byte list" where
  "put_uvarint x =
     (if x < 0x80 then [ucast x] else (ucast x OR 0x80) # put_uvarint (drop_bit 7 x))"
  by pat_completeness auto
termination
proof (relation "measure unat", goal_cases)
  case 1
  then show ?case by simp
next
  case (2 x)
  then have "0x80 \<le> unat x" by (simp add: word_less_nat_alt)
  then show ?case by (simp add: unat_drop_bit7)
qed

declare put_uvarint.simps [simp del]

text \<open>
  \<open>binary.Uvarint\<close>: the value and the number of bytes read; \<open>0\<close> bytes for a
  truncated buffer, a negative count for an overflow.  The shift of byte \<open>i\<close> is
  \<open>7 * i\<close>.
\<close>

fun uvarint_loop :: "nat \<Rightarrow> uint64 \<Rightarrow> byte list \<Rightarrow> uint64 \<times> int" where
  "uvarint_loop i x [] = (0, 0)"
| "uvarint_loop i x (b # bs) =
     (if i = 10 then (0, - (int i + 1))
      else if b < 0x80 then
        (if i = 9 \<and> 1 < b then (0, - (int i + 1))
         else (x OR push_bit (7 * i) (ucast b), int i + 1))
      else uvarint_loop (Suc i) (x OR push_bit (7 * i) (ucast (b AND 0x7f))) bs)"

definition go_uvarint :: "byte list \<Rightarrow> uint64 \<times> int" where
  "go_uvarint buf = uvarint_loop 0 0 buf"

lemma put_uvarint_nonempty [simp]: "put_uvarint x \<noteq> []"
  by (subst put_uvarint.simps) simp

lemma length_put_uvarint_pos: "1 \<le> length (put_uvarint x)"
  using put_uvarint_nonempty [of x] by (cases "put_uvarint x") auto

lemma length_put_uvarint: "unat x < 128 ^ Suc k \<Longrightarrow> length (put_uvarint x) \<le> Suc k"
proof (induction k arbitrary: x)
  case 0
  then have "x < 0x80" by (simp add: word_less_nat_alt)
  then show ?case by (subst put_uvarint.simps) simp
next
  case (Suc k)
  show ?case
  proof (cases "x < 0x80")
    case True
    then show ?thesis by (subst put_uvarint.simps) simp
  next
    case False
    have "unat (drop_bit 7 x) < 128 ^ Suc k"
      using Suc.prems by (simp add: unat_drop_bit7 less_mult_imp_div_less mult.commute)
    then have "length (put_uvarint (drop_bit 7 x)) \<le> Suc k" by (rule Suc.IH)
    with False show ?thesis by (subst put_uvarint.simps) simp
  qed
qed

lemma length_put_uvarint_le_10: "length (put_uvarint x) \<le> 10"
proof -
  have "unat x < 2 ^ LENGTH(64)" by (rule unsigned_less)
  then have "unat x < 128 ^ Suc 9" by simp
  from length_put_uvarint [OF this] show ?thesis by simp
qed

text \<open>Splitting a 64-bit value into its low seven bits and the rest.\<close>

lemma mask7_64: "(0x7f :: uint64) = mask 7"
  by (simp add: mask_numeral)

lemma mask7_8: "(0x7f :: byte) = mask 7"
  by (simp add: mask_numeral)

lemma bit_0x80: "bit (0x80 :: byte) n \<longleftrightarrow> n = 7"
proof -
  have a: "(0x80 :: byte) = push_bit 7 1" by simp
  show ?thesis unfolding a bit_push_bit_iff bit_1_iff by auto
qed

lemma low7_of_byte:
  "ucast ((ucast (x :: uint64) OR 0x80 :: byte) AND 0x7f) = x AND 0x7f"
proof (rule bit_word_eqI)
  fix n assume "n < LENGTH(64)"
  then show "bit (ucast ((ucast x OR 0x80 :: byte) AND 0x7f) :: uint64) n = bit (x AND 0x7f) n"
    unfolding mask7_64 mask7_8 bit_ucast_iff bit_and_iff bit_or_iff bit_mask_iff bit_0x80
    by auto
qed

lemma split7: "(x :: uint64) = (x AND 0x7f) OR push_bit 7 (drop_bit 7 x)"
  unfolding mask7_64
proof (rule bit_word_eqI)
  fix n assume "n < LENGTH(64)"
  moreover have "n < 7 \<or> 7 + (n - 7) = n" by arith
  ultimately show "bit x n = bit ((x AND mask 7) OR push_bit 7 (drop_bit 7 x)) n"
    by (auto simp: bit_simps)
qed

lemma push_split7:
  "push_bit n (x :: uint64) =
     push_bit n (x AND 0x7f) OR push_bit (7 + n) (drop_bit 7 x)"
proof -
  have "push_bit n x = push_bit n ((x AND 0x7f) OR push_bit 7 (drop_bit 7 x))"
    by (subst split7 [of x]) simp
  then show ?thesis by (simp add: push_bit_or add.commute)
qed

lemma byte_cont: "\<not> (ucast (x :: uint64) OR 0x80 :: byte) < 0x80"
proof -
  have "0x80 \<le> (0x80 :: byte) OR ucast x" by (rule le_word_or2)
  then show ?thesis by (simp add: or.commute not_less)
qed

lemma small_byte:
  assumes "(x :: uint64) < 0x80"
  shows "(ucast x :: byte) < 0x80" and "ucast (ucast x :: byte) = x"
proof -
  from assms have x: "unat x < 128" by (simp add: word_less_nat_alt)
  then show "(ucast x :: byte) < 0x80"
    by (simp add: word_less_nat_alt unsigned_ucast_eq take_bit_eq_mod)
  have "unat (ucast x :: byte) = unat x"
    unfolding unsigned_ucast_eq take_bit_eq_mod using x by simp
  moreover have "unat (ucast (ucast x :: byte) :: uint64) = unat (ucast x :: byte) mod 2 ^ 64"
    unfolding unsigned_ucast_eq [of "ucast x :: byte"] take_bit_eq_mod by simp
  ultimately have "unat (ucast (ucast x :: byte) :: uint64) = unat x"
    using x by simp
  then show "ucast (ucast x :: byte) = x" by (rule unsigned_word_eqI)
qed

text \<open>
  The loop of \<open>Uvarint\<close> on an encoded value: with \<open>i\<close> bytes already read, the value
  is placed at bit \<open>7 * i\<close>; the bound says that it fits into the 64 bits above that.
\<close>

lemma uvarint_loop_put:
  "unat x < 2 ^ (64 - 7 * i) \<Longrightarrow> i \<le> 9 \<Longrightarrow>
   uvarint_loop i acc (put_uvarint x @ rest) =
     (acc OR push_bit (7 * i) x, int i + int (length (put_uvarint x)))"
proof (induction x arbitrary: i acc rule: put_uvarint.induct)
  case (1 x)
  show ?case
  proof (cases "x < 0x80")
    case True
    have ok: "\<not> (i = 9 \<and> 1 < (ucast x :: byte))"
    proof
      assume a: "i = 9 \<and> 1 < (ucast x :: byte)"
      with "1.prems" have "unat x < 2" by simp
      then have "unat (ucast x :: byte) < 2" by (simp add: unsigned_ucast_eq take_bit_eq_mod)
      with a show False by (simp add: word_less_nat_alt)
    qed
    with True "1.prems" small_byte [OF True] show ?thesis
      by (subst (1 2) put_uvarint.simps) auto
  next
    case False
    then have ge: "128 \<le> unat x" by (simp add: word_less_nat_alt)
    have i: "i < 9"
    proof (rule ccontr)
      assume "\<not> i < 9"
      with "1.prems" have "unat x < 2" by (simp add: le_antisym)
      with ge show False by simp
    qed
    have "unat x < 2 ^ 7 * 2 ^ (64 - 7 * Suc i)"
    proof -
      have "64 - 7 * i = 7 + (64 - 7 * Suc i)" using i by simp
      then have "(2::nat) ^ (64 - 7 * i) = 2 ^ 7 * 2 ^ (64 - 7 * Suc i)"
        by (simp only: power_add)
      with "1.prems" show ?thesis by simp
    qed
    then have "unat (drop_bit 7 x) < 2 ^ (64 - 7 * Suc i)"
      unfolding unat_drop_bit7 by (intro less_mult_imp_div_less) (simp add: mult.commute)
    with "1.IH" [OF False] i
    have "uvarint_loop (Suc i) (acc OR push_bit (7 * i) (x AND 0x7f))
            (put_uvarint (drop_bit 7 x) @ rest) =
          ((acc OR push_bit (7 * i) (x AND 0x7f)) OR push_bit (7 * Suc i) (drop_bit 7 x),
           int (Suc i) + int (length (put_uvarint (drop_bit 7 x))))"
      by simp
    then have rec: "uvarint_loop (Suc i) (acc OR push_bit (7 * i) (x AND 0x7f))
            (put_uvarint (drop_bit 7 x) @ rest) =
          (acc OR push_bit (7 * i) x, int (Suc i) + int (length (put_uvarint (drop_bit 7 x))))"
      by (simp only: or.assoc push_split7 [of "7 * i" x, symmetric] mult_Suc_right)
    have "put_uvarint x = (ucast x OR 0x80) # put_uvarint (drop_bit 7 x)"
      using False by (subst put_uvarint.simps) simp
    then show ?thesis
      using i byte_cont [of x] rec by (simp only: append_Cons uvarint_loop.simps low7_of_byte) simp
  qed
qed

theorem go_uvarint_put:
  "go_uvarint (put_uvarint x @ rest) = (x, int (length (put_uvarint x)))"
proof -
  have "unat x < 2 ^ LENGTH(64)" by (rule unsigned_less)
  then show ?thesis
    using uvarint_loop_put [of x 0 0 rest] by (simp add: go_uvarint_def)
qed

text \<open>Whatever the buffer holds, a positive count stays inside it.\<close>

lemma uvarint_loop_bound:
  "uvarint_loop i x buf = (v, n) \<Longrightarrow> 0 < n \<Longrightarrow> int i < n \<and> n \<le> int i + int (length buf)"
proof (induction i x buf arbitrary: v n rule: uvarint_loop.induct)
  case (1 i x)
  then show ?case by simp
next
  case (2 i x b bs)
  then show ?case by (fastforce split: if_splits)
qed

lemma go_uvarint_bound: "go_uvarint buf = (v, n) \<Longrightarrow> 0 < n \<Longrightarrow> n \<le> int (length buf)"
  using uvarint_loop_bound [of 0 0 buf v n] by (simp add: go_uvarint_def)

section \<open>encoding/binary: signed variable-length integers\<close>

definition zigzag :: "int64 \<Rightarrow> uint64" where
  "zigzag x = (let ux = push_bit 1 x in if sint x < 0 then NOT ux else ux)"

definition unzigzag :: "uint64 \<Rightarrow> int64" where
  "unzigzag ux = (let x = drop_bit 1 ux in if ux AND 1 \<noteq> 0 then NOT x else x)"

definition put_varint :: "int64 \<Rightarrow> byte list" where
  "put_varint x = put_uvarint (zigzag x)"

definition go_varint :: "byte list \<Rightarrow> int64 \<times> int" where
  "go_varint buf = (let (ux, n) = go_uvarint buf in (unzigzag ux, n))"

lemma sint_neg_bit: "sint (x :: int64) < 0 \<longleftrightarrow> bit x 63"
  using bit_last_iff [of x] by simp

lemma unzigzag_zigzag [simp]: "unzigzag (zigzag x) = x"
proof -
  show ?thesis
  proof (rule bit_word_eqI)
    fix n assume n: "n < LENGTH(64)"
    have low: "zigzag x AND 1 \<noteq> 0 \<longleftrightarrow> bit x 63"
      by (simp add: zigzag_def sint_neg_bit Let_def and_one_eq mod_2_eq_odd)
    have "bit (zigzag x) (Suc n) \<longleftrightarrow> n < 63 \<and> bit x n \<noteq> bit x 63"
      unfolding zigzag_def Let_def sint_neg_bit
      by (simp only: if_distrib [where f = "\<lambda>w. bit w (Suc n)"] bit_not_iff bit_push_bit_iff)
        (auto split: if_splits)
    with n low show "bit (unzigzag (zigzag x)) n = bit x n"
      unfolding unzigzag_def Let_def
      by (cases "n = 63") (auto simp: bit_drop_bit_eq bit_not_iff)
  qed
qed

theorem go_varint_put:
  "go_varint (put_varint x @ rest) = (x, int (length (put_varint x)))"
  by (simp add: go_varint_def put_varint_def go_uvarint_put)

lemma go_varint_bound: "go_varint buf = (v, n) \<Longrightarrow> 0 < n \<Longrightarrow> n \<le> int (length buf)"
  by (auto simp: go_varint_def split: prod.splits dest: go_uvarint_bound)

lemma length_put_varint_pos: "1 \<le> length (put_varint x)"
  unfolding put_varint_def by (rule length_put_uvarint_pos)

lemma put_varint_nonempty [simp]: "put_varint x \<noteq> []"
  by (simp add: put_varint_def)

end
