(* ===== verification/PlayerDB_Codec.thy ===== *)
theory PlayerDB_Codec
  imports Go_Std
begin

text \<open>
  The player record (glob/struct.go) and the player database file format
  (fact/playerdb_codec.go): the versioned envelope around a Zstandard-compressed payload, and
  the payload's length-prefixed records.

  The compressor and the JSON library are third-party packages and stay parameters, collected in
  \<open>db_libs\<close>.  A nil \<open>*PlayerData\<close> is \<open>None\<close> in the map's values.  The
  encoder's result is proved independent of the map's iteration order, and decoding is proved to
  give back every persisted field.
\<close>

section \<open>Data\<close>

record player_data =
  p_name :: string
  p_level :: int64
  p_id :: string
  p_ban_reason :: string
  p_creation :: int64
  p_last_seen :: int64
  p_minutes :: int64
  p_sus_score :: int64
  p_already_banned :: bool
  p_spam_score :: int64

type_synonym players = "(string, player_data option) gomap"

text \<open>A composite literal that leaves every other field at its zero value.\<close>

definition zero_player :: player_data where
  "zero_player = \<lparr>p_name = '''', p_level = 0, p_id = '''', p_ban_reason = '''',
     p_creation = 0, p_last_seen = 0, p_minutes = 0, p_sus_score = 0,
     p_already_banned = False, p_spam_score = 0\<rparr>"

text \<open>What reaches the disk: the fields without the JSON tag \<open>-\<close>.\<close>

definition persisted :: "player_data \<Rightarrow> player_data" where
  "persisted p = p\<lparr>p_name := '''', p_already_banned := False, p_spam_score := 0\<rparr>"

datatype db_format = FormatBinary | FormatJSON

datatype read_error =
    UnexpectedEnd
  | IntegerOverflow
  | StringTooLong nat
  | StringPastEnd

datatype player_field = FName | FLevel | FID | FBanReason | FCreation | FLastSeen | FMinutes | FSusScore

datatype codec_error =
    UnsupportedFormat string
  | JSONError
  | NullPlayer string
  | TooManyRecords nat
  | EncodeField string player_field read_error
  | PayloadTooLarge
  | CodecInit string
  | HeaderTruncated
  | BadVersion nat
  | BadCodec byte
  | BadFlags byte
  | PayloadSizeLimit nat
  | Decompress
  | SizeMismatch nat nat
  | ChecksumMismatch "32 word" "32 word"
  | DecodeCount read_error
  | CountExceedsPlatform nat
  | CountCannotFit nat nat
  | DecodeName nat read_error
  | EmptyName nat
  | DuplicateName nat string
  | DecodeField string player_field read_error
  | TrailingBytes nat

record db_libs =
  zstd_init :: "string option"
  zstd_encode_all :: "byte list \<Rightarrow> byte list"
  zstd_decode_all :: "byte list \<Rightarrow> byte list option"
  sonic_marshal :: "players \<Rightarrow> byte list option"
  sonic_unmarshal :: "byte list \<Rightarrow> players option"

definition playerDBMagic :: "byte list" where
  "playerDBMagic = bytes_of ''CWPLAYER''"

definition playerDBBinaryVersion :: nat where "playerDBBinaryVersion = 1"
definition playerDBCodecZstd :: byte where "playerDBCodecZstd = 1"
definition playerDBHeaderSize :: nat where "playerDBHeaderSize = 24"
definition maxPlayerDBPayload :: nat where "maxPlayerDBPayload = 512 * 2 ^ 20"
definition maxPlayerDBRecords :: nat where "maxPlayerDBRecords = 5000000"
definition maxPlayerDBString :: nat where "maxPlayerDBString = 16 * 2 ^ 20"

lemmas db_limits = playerDBBinaryVersion_def playerDBCodecZstd_def playerDBHeaderSize_def
  maxPlayerDBPayload_def maxPlayerDBRecords_def maxPlayerDBString_def

definition normalizePlayerDBFormat :: "string \<Rightarrow> codec_error + db_format" where
  "normalizePlayerDBFormat format =
     (let f = to_lower (trim_space format) in
      if f = '''' \<or> f = ''binary'' then Inr FormatBinary
      else if f = ''json'' then Inr FormatJSON
      else Inl (UnsupportedFormat format))"

section \<open>Encoding\<close>

definition appendPlayerDBString :: "byte list \<Rightarrow> string \<Rightarrow> read_error + byte list" where
  "appendPlayerDBString dst value =
     (if maxPlayerDBString < length value then Inl (StringTooLong (length value))
      else Inr (dst @ put_uvarint (of_nat (length value)) @ bytes_of value))"

text \<open>One turn of the loop over the sorted keys.\<close>

definition encode_record :: "byte list \<Rightarrow> string \<Rightarrow> player_data \<Rightarrow> codec_error + byte list" where
  "encode_record payload name player =
     (case appendPlayerDBString payload name of
        Inl e \<Rightarrow> Inl (EncodeField name FName e)
      | Inr payload \<Rightarrow>
     (case appendPlayerDBString (payload @ put_varint (p_level player)) (p_id player) of
        Inl e \<Rightarrow> Inl (EncodeField name FID e)
      | Inr payload \<Rightarrow>
     (case appendPlayerDBString payload (p_ban_reason player) of
        Inl e \<Rightarrow> Inl (EncodeField name FBanReason e)
      | Inr payload \<Rightarrow>
     (let payload = payload @ put_varint (p_creation player) @ put_varint (p_last_seen player)
                      @ put_varint (p_minutes player) @ put_varint (p_sus_score player)
      in if maxPlayerDBPayload < length payload then Inl PayloadTooLarge else Inr payload))))"

fun encode_records :: "players \<Rightarrow> string list \<Rightarrow> byte list \<Rightarrow> codec_error + byte list" where
  "encode_records players [] payload = Inr payload"
| "encode_records players (name # names) payload =
     (case gm_get players name of
        Some (Some player) \<Rightarrow>
          (case encode_record payload name player of
             Inl e \<Rightarrow> Inl e
           | Inr payload \<Rightarrow> encode_records players names payload)
      | _ \<Rightarrow> Inl (NullPlayer name))"

text \<open>The first nil player in iteration order.\<close>

fun first_null :: "players \<Rightarrow> string option" where
  "first_null [] = None"
| "first_null ((name, player) # rest) = (if player = None then Some name else first_null rest)"

definition encode_payload :: "players \<Rightarrow> codec_error + byte list" where
  "encode_payload players =
     (if maxPlayerDBRecords < length players then Inl (TooManyRecords (length players))
      else case first_null players of
        Some name \<Rightarrow> Inl (NullPlayer name)
      | None \<Rightarrow>
          (let keys = sort (gm_keys players)
           in encode_records players keys (put_uvarint (of_nat (length keys)))))"

definition encode_envelope :: "db_libs \<Rightarrow> byte list \<Rightarrow> byte list" where
  "encode_envelope L payload =
     playerDBMagic @ le_put 2 playerDBBinaryVersion @ [playerDBCodecZstd] @ [0]
       @ le_put 8 (length payload) @ le_put 4 (unat (crc_checksum castagnoli payload))
       @ zstd_encode_all L payload"

definition encodeBinaryPlayerDatabase :: "db_libs \<Rightarrow> players \<Rightarrow> codec_error + byte list" where
  "encodeBinaryPlayerDatabase L players =
     (case encode_payload players of
        Inl e \<Rightarrow> Inl e
      | Inr payload \<Rightarrow>
          (case zstd_init L of
             Some e \<Rightarrow> Inl (CodecInit e)
           | None \<Rightarrow> Inr (encode_envelope L payload)))"

definition encodePlayerDatabase :: "db_libs \<Rightarrow> players \<Rightarrow> string \<Rightarrow> codec_error + byte list" where
  "encodePlayerDatabase L players format =
     (case normalizePlayerDBFormat format of
        Inl e \<Rightarrow> Inl e
      | Inr FormatJSON \<Rightarrow>
          (case sonic_marshal L players of None \<Rightarrow> Inl JSONError | Some data \<Rightarrow> Inr data)
      | Inr FormatBinary \<Rightarrow> encodeBinaryPlayerDatabase L players)"

section \<open>Decoding\<close>

record db_reader =
  r_data :: "byte list"
  r_off :: nat

definition remaining :: "db_reader \<Rightarrow> byte list" where
  "remaining r = drop (r_off r) (r_data r)"

definition advance :: "nat \<Rightarrow> db_reader \<Rightarrow> db_reader" where
  "advance n r = r\<lparr>r_off := r_off r + n\<rparr>"

definition reader_uvarint :: "db_reader \<Rightarrow> read_error + uint64 \<times> db_reader" where
  "reader_uvarint r =
     (case go_uvarint (remaining r) of (value, sz) \<Rightarrow>
        if sz = 0 then Inl UnexpectedEnd
        else if sz < 0 then Inl IntegerOverflow
        else Inr (value, advance (nat sz) r))"

definition reader_varint :: "db_reader \<Rightarrow> read_error + int64 \<times> db_reader" where
  "reader_varint r =
     (case go_varint (remaining r) of (value, sz) \<Rightarrow>
        if sz = 0 then Inl UnexpectedEnd
        else if sz < 0 then Inl IntegerOverflow
        else Inr (value, advance (nat sz) r))"

definition reader_string :: "db_reader \<Rightarrow> read_error + string \<times> db_reader" where
  "reader_string r =
     (case reader_uvarint r of
        Inl e \<Rightarrow> Inl e
      | Inr (sz, r) \<Rightarrow>
          if maxPlayerDBString < unat sz then Inl (StringTooLong (unat sz))
          else if length (r_data r) - r_off r < unat sz then Inl StringPastEnd
          else Inr (str_of (take (unat sz) (remaining r)), advance (unat sz) r))"

text \<open>
  One turn of the record loop.  \<open>int\<close> has 64 bits on the platforms the server runs on, so
  the level's range test compares a value with itself and is left out.
\<close>

definition decode_record ::
  "nat \<Rightarrow> players \<Rightarrow> db_reader \<Rightarrow> codec_error + players \<times> db_reader" where
  "decode_record i players r =
     (case reader_string r of Inl e \<Rightarrow> Inl (DecodeName i e) | Inr (name, r) \<Rightarrow>
      if name = '''' then Inl (EmptyName i)
      else if gm_get players name \<noteq> None then Inl (DuplicateName i name)
      else
     (case reader_varint r of Inl e \<Rightarrow> Inl (DecodeField name FLevel e) | Inr (level, r) \<Rightarrow>
     (case reader_string r of Inl e \<Rightarrow> Inl (DecodeField name FID e) | Inr (discID, r) \<Rightarrow>
     (case reader_string r of Inl e \<Rightarrow> Inl (DecodeField name FBanReason e) | Inr (banReason, r) \<Rightarrow>
     (case reader_varint r of Inl e \<Rightarrow> Inl (DecodeField name FCreation e) | Inr (creation, r) \<Rightarrow>
     (case reader_varint r of Inl e \<Rightarrow> Inl (DecodeField name FLastSeen e) | Inr (lastSeen, r) \<Rightarrow>
     (case reader_varint r of Inl e \<Rightarrow> Inl (DecodeField name FMinutes e) | Inr (minutes, r) \<Rightarrow>
     (case reader_varint r of Inl e \<Rightarrow> Inl (DecodeField name FSusScore e) | Inr (susScore, r) \<Rightarrow>
        Inr (gm_put players name (Some (zero_player
               \<lparr>p_level := level, p_id := discID, p_ban_reason := banReason,
                p_creation := creation, p_last_seen := lastSeen,
                p_minutes := minutes, p_sus_score := susScore\<rparr>)), r)))))))))"

fun decode_records ::
  "nat \<Rightarrow> nat \<Rightarrow> players \<Rightarrow> db_reader \<Rightarrow> codec_error + players \<times> db_reader" where
  "decode_records 0 i players r = Inr (players, r)"
| "decode_records (Suc n) i players r =
     (case decode_record i players r of
        Inl e \<Rightarrow> Inl e
      | Inr (players, r) \<Rightarrow> decode_records n (Suc i) players r)"

definition minimumRecordSize :: nat where "minimumRecordSize = 9"

definition decodePlayerDBPayload :: "byte list \<Rightarrow> codec_error + players" where
  "decodePlayerDBPayload payload =
     (case reader_uvarint \<lparr>r_data = payload, r_off = 0\<rparr> of
        Inl e \<Rightarrow> Inl (DecodeCount e)
      | Inr (count, r) \<Rightarrow>
          if maxPlayerDBRecords < unat count then Inl (TooManyRecords (unat count))
          else if 2 ^ 63 - 1 < unat count then Inl (CountExceedsPlatform (unat count))
          else if (length payload - r_off r) div minimumRecordSize < unat count then
            Inl (CountCannotFit (unat count) (length payload - r_off r))
          else
            (case decode_records (unat count) 0 [] r of
               Inl e \<Rightarrow> Inl e
             | Inr (players, r) \<Rightarrow>
                 if r_off r \<noteq> length payload then Inl (TrailingBytes (length payload - r_off r))
                 else Inr players))"

definition slice :: "byte list \<Rightarrow> nat \<Rightarrow> nat \<Rightarrow> byte list" where
  "slice data a b = take (b - a) (drop a data)"

definition decodeBinaryPlayerDatabase :: "db_libs \<Rightarrow> byte list \<Rightarrow> codec_error + players" where
  "decodeBinaryPlayerDatabase L data =
     (if length data < playerDBHeaderSize then Inl HeaderTruncated
      else if le_get (slice data 8 10) \<noteq> playerDBBinaryVersion then
        Inl (BadVersion (le_get (slice data 8 10)))
      else if data ! 10 \<noteq> playerDBCodecZstd then Inl (BadCodec (data ! 10))
      else if data ! 11 \<noteq> 0 then Inl (BadFlags (data ! 11))
      else
        (let expectedSize = le_get (slice data 12 20) in
         if maxPlayerDBPayload < expectedSize then Inl (PayloadSizeLimit expectedSize)
         else case zstd_init L of
           Some e \<Rightarrow> Inl (CodecInit e)
         | None \<Rightarrow>
             (case zstd_decode_all L (drop playerDBHeaderSize data) of
                None \<Rightarrow> Inl Decompress
              | Some payload \<Rightarrow>
                  if length payload \<noteq> expectedSize then
                    Inl (SizeMismatch (length payload) expectedSize)
                  else
                    (let got = crc_checksum castagnoli payload;
                         want = of_nat (le_get (slice data 20 24))
                     in if got \<noteq> want then Inl (ChecksumMismatch got want)
                        else decodePlayerDBPayload payload))))"

definition decodePlayerDatabase ::
  "db_libs \<Rightarrow> byte list \<Rightarrow> codec_error + players \<times> db_format option" where
  "decodePlayerDatabase L data =
     (if data = [] then Inr ([], None)
      else if length playerDBMagic \<le> length data \<and> take (length playerDBMagic) data = playerDBMagic then
        (case decodeBinaryPlayerDatabase L data of
           Inl e \<Rightarrow> Inl e
         | Inr players \<Rightarrow> Inr (players, Some FormatBinary))
      else
        (case sonic_unmarshal L data of
           None \<Rightarrow> Inl JSONError
         | Some players \<Rightarrow>
             (case first_null players of
                Some name \<Rightarrow> Inl (NullPlayer name)
              | None \<Rightarrow> Inr (players, Some FormatJSON))))"

section \<open>Readers of one value\<close>

definition reader_ok :: "db_reader \<Rightarrow> bool" where
  "reader_ok r \<longleftrightarrow> r_off r \<le> length (r_data r)"

lemma advance_simps [simp]:
  "r_data (advance n r) = r_data r"
  "r_off (advance n r) = r_off r + n"
  "remaining (advance n r) = drop n (remaining r)"
  by (simp_all add: advance_def remaining_def add.commute)

lemma advance_advance: "advance m (advance n r) = advance (n + m) r"
  by (simp add: advance_def add.assoc)

lemma reader_ok_advance:
  "reader_ok r \<Longrightarrow> n \<le> length (remaining r) \<Longrightarrow> reader_ok (advance n r)"
  by (simp add: reader_ok_def remaining_def)

lemma reader_ok_start [simp]: "reader_ok \<lparr>r_data = d, r_off = 0\<rparr>"
  by (simp add: reader_ok_def)

lemma remaining_start [simp]: "remaining \<lparr>r_data = d, r_off = 0\<rparr> = d"
  by (simp add: remaining_def)

text \<open>
  The contract of a reader of one value: on the value's encoding followed by anything, it gives
  the value back and stops right after it; and whatever it reads, it stays inside the payload.
\<close>

locale prefix_codec =
  fixes enc :: "'a \<Rightarrow> byte list"
    and dec :: "db_reader \<Rightarrow> 'e + 'a \<times> db_reader"
    and ok :: "'a \<Rightarrow> bool"
  assumes dec_enc:
      "ok x \<Longrightarrow> remaining r = enc x @ rest \<Longrightarrow> dec r = Inr (x, advance (length (enc x)) r)"
    and dec_step:
      "dec r = Inr (x, r') \<Longrightarrow> \<exists>n. r' = advance n r \<and> n \<le> length (remaining r)"
begin

lemma reads:
  assumes "ok x" and "remaining r = enc x @ rest" and "reader_ok r"
  obtains r' where "dec r = Inr (x, r')" "remaining r' = rest" "r_data r' = r_data r"
    "reader_ok r'"
proof
  show "dec r = Inr (x, advance (length (enc x)) r)"
    using assms(1,2) by (rule dec_enc)
qed (use assms in \<open>simp_all add: reader_ok_advance\<close>)

lemma stays: "dec r = Inr (x, r') \<Longrightarrow> reader_ok r \<Longrightarrow> reader_ok r' \<and> r_data r' = r_data r"
  by (auto dest!: dec_step simp: reader_ok_advance)

end

lemma reader_uvarint_step:
  "reader_uvarint r = Inr (x, r') \<Longrightarrow> \<exists>n. r' = advance n r \<and> n \<le> length (remaining r)"
  using go_uvarint_bound [of "remaining r"]
  by (fastforce simp: reader_uvarint_def split: prod.splits if_splits)

interpretation uv: prefix_codec put_uvarint reader_uvarint "\<lambda>_. True"
proof unfold_locales
  fix x r rest
  assume "remaining r = put_uvarint x @ rest"
  then show "reader_uvarint r = Inr (x, advance (length (put_uvarint x)) r)"
    by (simp add: reader_uvarint_def go_uvarint_put)
qed (rule reader_uvarint_step)

interpretation vi: prefix_codec put_varint reader_varint "\<lambda>_. True"
proof unfold_locales
  fix x r rest
  assume "remaining r = put_varint x @ rest"
  then show "reader_varint r = Inr (x, advance (length (put_varint x)) r)"
    by (simp add: reader_varint_def go_varint_put)
next
  fix r x r'
  assume "reader_varint r = Inr (x, r')"
  then show "\<exists>n. r' = advance n r \<and> n \<le> length (remaining r)"
    using go_varint_bound [of "remaining r"]
    by (fastforce simp: reader_varint_def split: prod.splits if_splits)
qed

definition string_bytes :: "string \<Rightarrow> byte list" where
  "string_bytes s = put_uvarint (of_nat (length s)) @ bytes_of s"

abbreviation string_fits :: "string \<Rightarrow> bool" where
  "string_fits s \<equiv> length s \<le> maxPlayerDBString"

lemma appendPlayerDBString_alt:
  "appendPlayerDBString dst s =
     (if string_fits s then Inr (dst @ string_bytes s) else Inl (StringTooLong (length s)))"
  by (simp add: appendPlayerDBString_def string_bytes_def)

lemma unat_of_nat_fits: "n \<le> maxPlayerDBPayload \<Longrightarrow> unat (of_nat n :: uint64) = n"
  by (simp add: unat_of_nat db_limits)

interpretation st: prefix_codec string_bytes reader_string string_fits
proof unfold_locales
  fix x r rest
  assume fits: "string_fits x" and rem: "remaining r = string_bytes x @ rest"
  let ?n = "length (put_uvarint (of_nat (length x)))"
  have len: "unat (of_nat (length x) :: uint64) = length x"
    using fits by (intro unat_of_nat_fits) (simp add: db_limits)
  have u: "reader_uvarint r = Inr (of_nat (length x), advance ?n r)"
    using rem by (intro uv.dec_enc [where rest = "bytes_of x @ rest"])
      (simp_all add: string_bytes_def)
  have after: "drop ?n (remaining r) = bytes_of x @ rest"
    using rem by (simp add: string_bytes_def)
  have "length (r_data r) - (r_off r + ?n) = length (drop ?n (remaining r))"
    by (simp add: remaining_def)
  then have "length x \<le> length (r_data r) - (r_off r + ?n)"
    by (simp add: after)
  with u len fits show "reader_string r = Inr (x, advance (length (string_bytes x)) r)"
    by (simp add: reader_string_def after string_bytes_def advance_advance)
next
  fix r x r'
  assume d: "reader_string r = Inr (x, r')"
  then obtain v r1 where u: "reader_uvarint r = Inr (v, r1)"
    by (auto simp: reader_string_def split: sum.splits)
  from reader_uvarint_step [OF u] obtain n where
    n: "r1 = advance n r" "n \<le> length (remaining r)" by blast
  from d u n have r': "r' = advance (n + unat v) r"
    and v: "unat v \<le> length (r_data r) - (r_off r + n)"
    by (auto simp: reader_string_def advance_def add.assoc split: if_splits)
  from v have "unat v \<le> length (remaining r) - n"
    by (simp add: remaining_def)
  with n(2) have "n + unat v \<le> length (remaining r)" by simp
  with r' show "\<exists>n. r' = advance n r \<and> n \<le> length (remaining r)" by blast
qed

section \<open>Round trip of a record\<close>

definition record_bytes :: "string \<Rightarrow> player_data \<Rightarrow> byte list" where
  "record_bytes name p =
     string_bytes name @ put_varint (p_level p) @ string_bytes (p_id p)
       @ string_bytes (p_ban_reason p) @ put_varint (p_creation p) @ put_varint (p_last_seen p)
       @ put_varint (p_minutes p) @ put_varint (p_sus_score p)"

lemma encode_record_Inr:
  "encode_record payload name p = Inr q \<longleftrightarrow>
     string_fits name \<and> string_fits (p_id p) \<and> string_fits (p_ban_reason p) \<and>
     q = payload @ record_bytes name p \<and> length q \<le> maxPlayerDBPayload"
  by (auto simp: encode_record_def appendPlayerDBString_alt record_bytes_def Let_def not_less
      split: if_splits)

lemma string_bytes_pos: "1 + length s \<le> length (string_bytes s)"
  using length_put_uvarint_pos [of "of_nat (length s)"]
  by (simp add: string_bytes_def)

lemma record_bytes_min: "name \<noteq> '''' \<Longrightarrow> minimumRecordSize \<le> length (record_bytes name p)"
proof -
  assume "name \<noteq> ''''"
  then have "1 \<le> length name" by (cases name) auto
  then have "2 \<le> length (string_bytes name)"
    using string_bytes_pos [of name] by linarith
  moreover have "1 \<le> length (string_bytes (p_id p))" "1 \<le> length (string_bytes (p_ban_reason p))"
    using string_bytes_pos [of "p_id p"] string_bytes_pos [of "p_ban_reason p"] by linarith+
  ultimately show ?thesis
    using length_put_varint_pos [of "p_level p"] length_put_varint_pos [of "p_creation p"]
      length_put_varint_pos [of "p_last_seen p"] length_put_varint_pos [of "p_minutes p"]
      length_put_varint_pos [of "p_sus_score p"]
    by (simp add: record_bytes_def minimumRecordSize_def)
qed

lemma persisted_alt:
  "persisted p = zero_player
     \<lparr>p_level := p_level p, p_id := p_id p, p_ban_reason := p_ban_reason p,
      p_creation := p_creation p, p_last_seen := p_last_seen p,
      p_minutes := p_minutes p, p_sus_score := p_sus_score p\<rparr>"
  by (cases p) (simp add: persisted_def zero_player_def)

lemma decode_record_encoded:
  assumes fits: "string_fits name" "string_fits (p_id p)" "string_fits (p_ban_reason p)"
    and rem: "remaining r = record_bytes name p @ rest" and ok: "reader_ok r"
    and name: "name \<noteq> ''''" "gm_get players name = None"
  obtains r' where
    "decode_record i players r = Inr (gm_put players name (Some (persisted p)), r')"
    "remaining r' = rest" "r_data r' = r_data r" "reader_ok r'"
proof -
  note rem' = rem [unfolded record_bytes_def append_assoc]
  obtain r1 where 1: "reader_string r = Inr (name, r1)" "r_data r1 = r_data r" "reader_ok r1"
    and r1: "remaining r1 = put_varint (p_level p) @ string_bytes (p_id p)
       @ string_bytes (p_ban_reason p) @ put_varint (p_creation p) @ put_varint (p_last_seen p)
       @ put_varint (p_minutes p) @ put_varint (p_sus_score p) @ rest"
    using st.reads [OF fits(1) rem' ok] by blast
  obtain r2 where 2: "reader_varint r1 = Inr (p_level p, r2)" "r_data r2 = r_data r1" "reader_ok r2"
    and r2: "remaining r2 = string_bytes (p_id p)
       @ string_bytes (p_ban_reason p) @ put_varint (p_creation p) @ put_varint (p_last_seen p)
       @ put_varint (p_minutes p) @ put_varint (p_sus_score p) @ rest"
    using vi.reads [OF TrueI r1 1(3)] by blast
  obtain r3 where 3: "reader_string r2 = Inr (p_id p, r3)" "r_data r3 = r_data r2" "reader_ok r3"
    and r3: "remaining r3 = string_bytes (p_ban_reason p)
       @ put_varint (p_creation p) @ put_varint (p_last_seen p)
       @ put_varint (p_minutes p) @ put_varint (p_sus_score p) @ rest"
    using st.reads [OF fits(2) r2 2(3)] by blast
  obtain r4 where 4: "reader_string r3 = Inr (p_ban_reason p, r4)" "r_data r4 = r_data r3"
    "reader_ok r4"
    and r4: "remaining r4 = put_varint (p_creation p) @ put_varint (p_last_seen p)
       @ put_varint (p_minutes p) @ put_varint (p_sus_score p) @ rest"
    using st.reads [OF fits(3) r3 3(3)] by blast
  obtain r5 where 5: "reader_varint r4 = Inr (p_creation p, r5)" "r_data r5 = r_data r4" "reader_ok r5"
    and r5: "remaining r5 = put_varint (p_last_seen p)
       @ put_varint (p_minutes p) @ put_varint (p_sus_score p) @ rest"
    using vi.reads [OF TrueI r4 4(3)] by blast
  obtain r6 where 6: "reader_varint r5 = Inr (p_last_seen p, r6)" "r_data r6 = r_data r5" "reader_ok r6"
    and r6: "remaining r6 = put_varint (p_minutes p) @ put_varint (p_sus_score p) @ rest"
    using vi.reads [OF TrueI r5 5(3)] by blast
  obtain r7 where 7: "reader_varint r6 = Inr (p_minutes p, r7)" "r_data r7 = r_data r6" "reader_ok r7"
    and r7: "remaining r7 = put_varint (p_sus_score p) @ rest"
    using vi.reads [OF TrueI r6 6(3)] by blast
  obtain r8 where 8: "reader_varint r7 = Inr (p_sus_score p, r8)" "r_data r8 = r_data r7"
    "reader_ok r8" and r8: "remaining r8 = rest"
    using vi.reads [OF TrueI r7 7(3)] by blast
  show thesis
  proof (rule that)
    show "decode_record i players r = Inr (gm_put players name (Some (persisted p)), r8)"
      using 1 2 3 4 5 6 7 8 name
      by (simp add: decode_record_def persisted_alt)
  qed (use 1 2 3 4 5 6 7 8 r8 in simp_all)
qed

section \<open>Round trip of the payload\<close>

definition encoded_of :: "players \<Rightarrow> string list \<Rightarrow> byte list" where
  "encoded_of players names =
     concat (map (\<lambda>n. record_bytes n (the (the (gm_get players n)))) names)"

lemma encode_records_bytes:
  "encode_records players names payload = Inr q \<Longrightarrow> q = payload @ encoded_of players names"
proof (induction names arbitrary: payload)
  case Nil
  then show ?case by (simp add: encoded_of_def)
next
  case (Cons n ns)
  from Cons.prems obtain p q1 where p: "gm_get players n = Some (Some p)"
    and q1: "encode_record payload n p = Inr q1" and "encode_records players ns q1 = Inr q"
    by (auto split: option.splits sum.splits)
  then have "q = q1 @ encoded_of players ns" by (simp add: Cons.IH)
  with p q1 show ?case by (simp add: encoded_of_def encode_record_Inr)
qed

text \<open>What a successful run of the record loop says about the records.\<close>

lemma encode_records_fits:
  "encode_records players names payload = Inr q \<Longrightarrow> n \<in> set names \<Longrightarrow>
   \<exists>p. gm_get players n = Some (Some p) \<and> string_fits n \<and> string_fits (p_id p)
     \<and> string_fits (p_ban_reason p)"
proof (induction names arbitrary: payload)
  case (Cons a ns)
  from Cons.prems(1) obtain p q1 where p: "gm_get players a = Some (Some p)"
    and q1: "encode_record payload a p = Inr q1" and ns: "encode_records players ns q1 = Inr q"
    by (auto split: option.splits sum.splits)
  show ?case
  proof (cases "n = a")
    case True
    with p q1 show ?thesis by (auto simp: encode_record_Inr)
  next
    case False
    with Cons.prems(2) Cons.IH [OF ns] show ?thesis by auto
  qed
qed simp

lemma encode_records_bound:
  "encode_records players names payload = Inr q \<Longrightarrow> length payload \<le> maxPlayerDBPayload \<Longrightarrow>
   length q \<le> maxPlayerDBPayload"
  by (induction names arbitrary: payload)
    (auto simp: encode_record_Inr split: option.splits sum.splits)

lemma encoded_of_min:
  "'''' \<notin> set names \<Longrightarrow> minimumRecordSize * length names \<le> length (encoded_of players names)"
proof (induction names)
  case (Cons n ns)
  then have "minimumRecordSize \<le> length (record_bytes n (the (the (gm_get players n))))"
    by (intro record_bytes_min) auto
  with Cons show ?case by (simp add: encoded_of_def)
qed simp

lemma decode_records_encoded:
  assumes "\<And>n. n \<in> set names \<Longrightarrow> \<exists>p. gm_get players n = Some (Some p) \<and> string_fits n
      \<and> string_fits (p_id p) \<and> string_fits (p_ban_reason p)"
    and "distinct names" and "'''' \<notin> set names"
    and "remaining r = encoded_of players names @ rest" and "reader_ok r"
    and "\<And>n. n \<in> set names \<Longrightarrow> gm_get acc n = None" and "gm_ok acc"
  shows "\<exists>acc' r'. decode_records (length names) i acc r = Inr (acc', r') \<and> remaining r' = rest \<and>
      r_data r' = r_data r \<and> reader_ok r' \<and> gm_ok acc' \<and>
      (\<forall>k. gm_get acc' k = (if k \<in> set names
         then map_option (map_option persisted) (gm_get players k) else gm_get acc k))"
  using assms
proof (induction names arbitrary: r acc i)
  case Nil
  then show ?case by (simp add: encoded_of_def)
next
  case (Cons n ns)
  obtain p where p: "gm_get players n = Some (Some p)" and fits: "string_fits n"
    "string_fits (p_id p)" "string_fits (p_ban_reason p)"
    using Cons.prems(1) [of n] by auto
  have "remaining r = record_bytes n p @ (encoded_of players ns @ rest)"
    using Cons.prems(4) p by (simp add: encoded_of_def)
  moreover have "n \<noteq> ''''" "gm_get acc n = None" using Cons.prems(3,6) by auto
  ultimately obtain r1 where r1:
    "decode_record i acc r = Inr (gm_put acc n (Some (persisted p)), r1)"
    "remaining r1 = encoded_of players ns @ rest" "r_data r1 = r_data r" "reader_ok r1"
    using decode_record_encoded [OF fits _ Cons.prems(5)] by metis
  have "\<exists>acc' r'. decode_records (length ns) (Suc i) (gm_put acc n (Some (persisted p))) r1
      = Inr (acc', r') \<and> remaining r' = rest \<and> r_data r' = r_data r1 \<and> reader_ok r' \<and> gm_ok acc' \<and>
      (\<forall>k. gm_get acc' k = (if k \<in> set ns then map_option (map_option persisted) (gm_get players k)
         else gm_get (gm_put acc n (Some (persisted p))) k))"
  proof (rule Cons.IH)
    show "gm_get (gm_put acc n (Some (persisted p))) k = None" if "k \<in> set ns" for k
      using that Cons.prems(2,6) by auto
  qed (use Cons.prems r1 in auto)
  then obtain acc' r' where
    "decode_records (length ns) (Suc i) (gm_put acc n (Some (persisted p))) r1 = Inr (acc', r')"
    "remaining r' = rest" "r_data r' = r_data r1" "reader_ok r'" "gm_ok acc'"
    "\<forall>k. gm_get acc' k = (if k \<in> set ns then map_option (map_option persisted) (gm_get players k)
         else gm_get (gm_put acc n (Some (persisted p))) k)"
    by blast
  with r1 p show ?case by (intro exI [of _ acc'] exI [of _ r']) auto
qed

lemma encode_payload_Inr:
  assumes "encode_payload players = Inr q"
  shows "length players \<le> maxPlayerDBRecords" and "first_null players = None"
    and "encode_records players (sort (gm_keys players))
           (put_uvarint (of_nat (length players))) = Inr q"
  using assms
  by (auto simp: encode_payload_def Let_def gm_keys_def split: if_splits option.splits)

lemma encode_payload_bound:
  assumes "encode_payload players = Inr q"
  shows "length q \<le> maxPlayerDBPayload"
proof (rule encode_records_bound [OF encode_payload_Inr(3) [OF assms]])
  show "length (put_uvarint (of_nat (length players))) \<le> maxPlayerDBPayload"
    using length_put_uvarint_le_10 [of "of_nat (length players)"] by (simp add: db_limits)
qed

text \<open>The count at the head of an encoded payload.\<close>

lemma encode_payload_count:
  assumes "encode_payload players = Inr q"
  obtains r where "reader_uvarint \<lparr>r_data = q, r_off = 0\<rparr> = Inr (of_nat (length players), r)"
    "remaining r = encoded_of players (sort (gm_keys players))" "reader_ok r" "r_data r = q"
    "unat (of_nat (length players) :: uint64) = length players"
proof -
  have q: "q = put_uvarint (of_nat (length players)) @ encoded_of players (sort (gm_keys players))"
    by (rule encode_records_bytes [OF encode_payload_Inr(3) [OF assms]])
  have "unat (of_nat (length players) :: uint64) = length players"
    using encode_payload_Inr(1) [OF assms] by (intro unat_of_nat_fits) (simp add: db_limits)
  then show thesis
    using uv.reads [OF TrueI, of "\<lparr>r_data = q, r_off = 0\<rparr>" "of_nat (length players)"] that q
    by (metis db_reader.select_convs(1) reader_ok_start remaining_start)
qed

lemma payload_roundtrip:
  assumes enc: "encode_payload players = Inr q" and ok: "gm_ok players"
    and names: "gm_get players '''' = None"
  shows "\<exists>decoded. decodePlayerDBPayload q = Inr decoded \<and> gm_ok decoded \<and>
    (\<forall>k. gm_get decoded k = map_option (map_option persisted) (gm_get players k))"
proof -
  let ?keys = "sort (gm_keys players)"
  obtain r where r: "reader_uvarint \<lparr>r_data = q, r_off = 0\<rparr> = Inr (of_nat (length players), r)"
    "remaining r = encoded_of players ?keys" "reader_ok r" "r_data r = q"
    and count: "unat (of_nat (length players) :: uint64) = length players"
    by (rule encode_payload_count [OF enc])
  have no_empty: "'''' \<notin> set ?keys" using names by (simp add: gm_get_None_iff)
  have len: "length ?keys = length players" by (simp add: gm_keys_def)
  have "length q - r_off r = length (encoded_of players ?keys)"
    using r by (metis length_drop remaining_def)
  then have cap: "\<not> (length q - r_off r) div minimumRecordSize < length players"
    using encoded_of_min [OF no_empty, of players] len
    by (simp add: minimumRecordSize_def less_eq_div_iff_mult_less_eq)
  obtain acc' r' where d: "decode_records (length ?keys) 0 [] r = Inr (acc', r')"
    "remaining r' = []" "r_data r' = q" "reader_ok r'" "gm_ok acc'"
    and get: "\<And>k. gm_get acc' k = (if k \<in> set ?keys
         then map_option (map_option persisted) (gm_get players k) else None)"
  proof -
    have "\<exists>acc' r'. decode_records (length ?keys) 0 [] r = Inr (acc', r') \<and> remaining r' = [] \<and>
      r_data r' = r_data r \<and> reader_ok r' \<and> gm_ok acc' \<and>
      (\<forall>k. gm_get acc' k = (if k \<in> set ?keys
         then map_option (map_option persisted) (gm_get players k) else gm_get [] k))"
    proof (rule decode_records_encoded)
      show "\<exists>p. gm_get players n = Some (Some p) \<and> string_fits n \<and> string_fits (p_id p)
          \<and> string_fits (p_ban_reason p)" if "n \<in> set ?keys" for n
        using encode_records_fits [OF encode_payload_Inr(3) [OF enc] that] .
      show "distinct ?keys" using ok by (simp add: gm_ok_def)
    qed (use r no_empty in auto)
    with r(4) that show thesis by auto
  qed
  have "r_off r' = length q"
    using d(2-4) by (simp add: remaining_def reader_ok_def)
  moreover have "gm_get acc' k = map_option (map_option persisted) (gm_get players k)" for k
    using get [of k] gm_get_None_iff [of players k] by (auto split: if_splits)
  moreover have "\<not> maxPlayerDBRecords < length players" "\<not> 2 ^ 63 - 1 < length players"
    using encode_payload_Inr(1) [OF enc] by (simp_all add: db_limits)
  ultimately show ?thesis
    using r(1) count cap d len
    by (simp add: decodePlayerDBPayload_def)
qed

section \<open>The envelope\<close>

lemma envelope_fields:
  "length (encode_envelope L p) = 24 + length (zstd_encode_all L p)"
  "slice (encode_envelope L p) 8 10 = le_put 2 playerDBBinaryVersion"
  "encode_envelope L p ! 10 = playerDBCodecZstd"
  "encode_envelope L p ! 11 = 0"
  "slice (encode_envelope L p) 12 20 = le_put 8 (length p)"
  "slice (encode_envelope L p) 20 24 = le_put 4 (unat (crc_checksum castagnoli p))"
  "drop playerDBHeaderSize (encode_envelope L p) = zstd_encode_all L p"
  by (simp_all add: encode_envelope_def playerDBMagic_def slice_def nth_append
      playerDBHeaderSize_def)

lemma crc_le: "of_nat (le_get (le_put 4 (unat (c :: 32 word)))) = c"
proof -
  have "unat c < 2 ^ LENGTH(32)" by (rule unsigned_less)
  then have "unat c mod 256 ^ 4 = unat c" by simp
  then show ?thesis by (simp add: le_get_put del: le_put.simps)
qed

lemma decode_envelope:
  assumes "zstd_decode_all L (zstd_encode_all L p) = Some p" and "zstd_init L = None"
    and "length p \<le> maxPlayerDBPayload"
  shows "decodeBinaryPlayerDatabase L (encode_envelope L p) = decodePlayerDBPayload p"
proof -
  have "length p < 256 ^ 8" using assms(3) by (simp add: db_limits)
  then have "le_get (le_put 8 (length p)) = length p"
    by (simp add: le_get_put del: le_put.simps)
  moreover have "le_get (le_put 2 playerDBBinaryVersion) = playerDBBinaryVersion"
    by (simp add: le_get_put db_limits del: le_put.simps)
  moreover have "\<not> length (encode_envelope L p) < playerDBHeaderSize"
    by (simp add: envelope_fields playerDBHeaderSize_def)
  ultimately show ?thesis
    using assms crc_le
    by (simp add: decodeBinaryPlayerDatabase_def envelope_fields Let_def del: le_put.simps)
qed

section \<open>What decoding accepts\<close>

lemma decode_record_safe:
  assumes "decode_record i players r = Inr (players', r')"
  shows "\<exists>name p. name \<noteq> '''' \<and> gm_get players name = None \<and>
    players' = gm_put players name (Some p)"
proof -
  obtain name r1 where 1: "reader_string r = Inr (name, r1)"
    using assms by (cases "reader_string r") (auto simp: decode_record_def)
  have n: "name \<noteq> ''''" "gm_get players name = None"
    using assms 1 by (auto simp: decode_record_def split: if_splits)
  have "\<exists>p. players' = gm_put players name (Some p)"
    using assms 1 n
    by (simp add: decode_record_def split: sum.splits prod.splits) blast
  with n show ?thesis by blast
qed

definition no_nil :: "players \<Rightarrow> bool" where
  "no_nil players \<longleftrightarrow> (\<forall>p \<in> set players. snd p \<noteq> None)"

lemma no_nil_put: "no_nil m \<Longrightarrow> no_nil (gm_put m k (Some v))"
  unfolding no_nil_def gm_put_def by (induction m) auto

lemma length_put_fresh: "gm_get m k = None \<Longrightarrow> length (gm_put m k v) = Suc (length m)"
  unfolding gm_put_def gm_get_def by (induction m) (auto split: if_splits)

lemma decode_records_safe:
  "decode_records n i acc r = Inr (acc', r') \<Longrightarrow> gm_ok acc \<Longrightarrow> no_nil acc \<Longrightarrow>
   gm_get acc '''' = None \<Longrightarrow>
   gm_ok acc' \<and> no_nil acc' \<and> gm_get acc' '''' = None \<and> length acc' = length acc + n"
proof (induction n arbitrary: i acc r)
  case (Suc n)
  from Suc.prems(1) obtain acc1 r1 where d: "decode_record i acc r = Inr (acc1, r1)"
    and rec: "decode_records n (Suc i) acc1 r1 = Inr (acc', r')"
    by (auto split: sum.splits)
  from decode_record_safe [OF d] obtain name p where
    "name \<noteq> ''''" "gm_get acc name = None" "acc1 = gm_put acc name (Some p)" by blast
  with Suc.prems(2-4) have "gm_ok acc1" "no_nil acc1" "gm_get acc1 '''' = None"
    "length acc1 = Suc (length acc)"
    by (auto simp: no_nil_put length_put_fresh)
  with Suc.IH [OF rec] show ?case by simp
qed simp

lemma encode_records_cong:
  assumes "\<And>n. gm_get players n = gm_get players' n"
  shows "encode_records players names payload = encode_records players' names payload"
  using assms
  by (induction names arbitrary: payload) (simp_all split: option.split sum.split)

lemma first_null_None: "first_null players = None \<longleftrightarrow> no_nil players"
  by (induction players rule: first_null.induct) (auto simp: no_nil_def)

lemma sort_keys_perm:
  assumes "gm_ok m" and "gm_ok n" and "set m = set n"
  shows "sort (gm_keys m) = sort (gm_keys n)" and "length m = length n"
proof -
  have "set (gm_keys m) = set (gm_keys n)"
    using assms(3) by (simp add: gm_keys_def)
  with assms(1,2) show "sort (gm_keys m) = sort (gm_keys n)"
    by (intro sorted_distinct_set_unique) (simp_all add: gm_ok_def)
  then have "length (sort (gm_keys m)) = length (sort (gm_keys n))" by simp
  then show "length m = length n" by (simp add: gm_keys_def)
qed

section \<open>Properties\<close>

lemma encoded_database_reads_back:
  assumes "encodeBinaryPlayerDatabase L players = Inr data"
    and "gm_ok players" and "gm_get players '''' = None"
    and "\<And>p. zstd_decode_all L (zstd_encode_all L p) = Some p"
  shows "\<exists>decoded. decodePlayerDatabase L data = Inr (decoded, Some FormatBinary) \<and> gm_ok decoded \<and>
    (\<forall>name. gm_get decoded name = map_option (map_option persisted) (gm_get players name))"
proof -
  from assms(1) obtain q where q: "encode_payload players = Inr q" and "zstd_init L = None"
    and data: "data = encode_envelope L q"
    by (auto simp: encodeBinaryPlayerDatabase_def split: sum.splits option.splits)
  then have "decodeBinaryPlayerDatabase L data = decodePlayerDBPayload q"
    using assms(4) decode_envelope encode_payload_bound by blast
  moreover have "take (length playerDBMagic) data = playerDBMagic" "data \<noteq> []"
    "length playerDBMagic \<le> length data"
    by (simp_all add: data encode_envelope_def playerDBMagic_def)
  ultimately show ?thesis
    using payload_roundtrip [OF q assms(2,3)] by (auto simp: decodePlayerDatabase_def)
qed

text \<open>
  C6.  A database without a player of empty name, written in the binary format, is read back
  complete: every player comes back under its name with every persisted field, and no other player
  appears.  (A nameless player makes the file unreadable: \<open>playerdb_empty_name_unreadable\<close>.)  The
  compressor is the third-party Zstandard package; the one thing assumed of it is that decompressing
  what it compressed gives the input back.
\<close>

theorem playerdb_roundtrip:
  assumes "encodeBinaryPlayerDatabase L players = Inr data"
    and "gm_ok players" and "gm_get players '''' = None"
    and "\<And>p. zstd_decode_all L (zstd_encode_all L p) = Some p"
  shows "\<exists>decoded. decodePlayerDatabase L data = Inr (decoded, Some FormatBinary) \<and> gm_ok decoded \<and>
    (\<forall>name. gm_get decoded name = map_option (map_option persisted) (gm_get players name))"
  using encoded_database_reads_back [OF assms] .

definition example_libs :: db_libs where
  "example_libs = \<lparr>zstd_init = None, zstd_encode_all = rev, zstd_decode_all = Some \<circ> rev,
     sonic_marshal = (\<lambda>_. None), sonic_unmarshal = (\<lambda>_. None)\<rparr>"

definition example_players :: players where
  "example_players = [(''bob'', Some (zero_player\<lparr>p_level := 2, p_minutes := 300\<rparr>)),
     (''alice'', Some (zero_player\<lparr>p_level := - 1, p_ban_reason := ''spam''\<rparr>))]"

lemma encode_records_small:
  assumes "\<And>n. n \<in> set names \<Longrightarrow> \<exists>p. gm_get players n = Some (Some p) \<and> string_fits n
      \<and> string_fits (p_id p) \<and> string_fits (p_ban_reason p)"
    and "length payload + length (encoded_of players names) \<le> maxPlayerDBPayload"
  shows "encode_records players names payload = Inr (payload @ encoded_of players names)"
  using assms
proof (induction names arbitrary: payload)
  case (Cons n ns)
  obtain p where p: "gm_get players n = Some (Some p)" "string_fits n"
    "string_fits (p_id p)" "string_fits (p_ban_reason p)"
    using Cons.prems(1) [of n] by auto
  let ?q = "payload @ record_bytes n p"
  have "encode_record payload n p = Inr ?q"
    using p Cons.prems(2) by (simp add: encode_record_Inr encoded_of_def)
  moreover have "encode_records players ns ?q = Inr (?q @ encoded_of players ns)"
    using p Cons.prems by (intro Cons.IH) (simp_all add: encoded_of_def)
  ultimately show ?case using p by (simp add: encoded_of_def)
qed (simp add: encoded_of_def)

lemma length_record_bytes_le:
  "length (record_bytes n p) \<le> 80 + length n + length (p_id p) + length (p_ban_reason p)"
  using length_put_uvarint_le_10 [of "of_nat (length n)"]
    length_put_uvarint_le_10 [of "of_nat (length (p_id p))"]
    length_put_uvarint_le_10 [of "of_nat (length (p_ban_reason p))"]
    length_put_uvarint_le_10 [of "zigzag (p_level p)"]
    length_put_uvarint_le_10 [of "zigzag (p_creation p)"]
    length_put_uvarint_le_10 [of "zigzag (p_last_seen p)"]
    length_put_uvarint_le_10 [of "zigzag (p_minutes p)"]
    length_put_uvarint_le_10 [of "zigzag (p_sus_score p)"]
  by (simp add: record_bytes_def string_bytes_def put_varint_def)

lemma example_payload: "\<not> isl (encode_payload example_players)"
proof -
  have keys: "sort (gm_keys example_players) = [''alice'', ''bob'']"
    by (simp add: example_players_def gm_keys_def)
  have "encode_records example_players [''alice'', ''bob''] (put_uvarint 2) =
      Inr (put_uvarint 2 @ encoded_of example_players [''alice'', ''bob''])"
  proof (rule encode_records_small)
    show "length (put_uvarint 2) + length (encoded_of example_players [''alice'', ''bob''])
        \<le> maxPlayerDBPayload"
      using length_put_uvarint_le_10 [of 2]
        length_record_bytes_le [of "''alice''" "the (the (gm_get example_players ''alice''))"]
        length_record_bytes_le [of "''bob''" "the (the (gm_get example_players ''bob''))"]
      by (simp add: encoded_of_def db_limits example_players_def gm_get_def zero_player_def)
  qed (auto simp: example_players_def gm_get_def zero_player_def db_limits)
  moreover have "length example_players = 2" "first_null example_players = None"
    by (simp_all add: example_players_def)
  ultimately show ?thesis
    using keys by (simp add: encode_payload_def Let_def db_limits del: encode_records.simps)
qed

lemma example_encodes: "\<exists>data. encodeBinaryPlayerDatabase example_libs example_players = Inr data"
  using example_payload
  by (auto simp: encodeBinaryPlayerDatabase_def example_libs_def split: sum.splits)

lemma example_libs_inverse: "zstd_decode_all example_libs (zstd_encode_all example_libs p) = Some p"
  by (simp add: example_libs_def)

lemma example_players_simps:
  "gm_ok example_players" "gm_get example_players '''' = None"
  "gm_get example_players ''bob'' = Some (Some (zero_player\<lparr>p_level := 2, p_minutes := 300\<rparr>))"
  by (simp_all add: example_players_def gm_ok_def gm_keys_def gm_get_def)

theorem playerdb_roundtrip_witness:
  "\<exists>data decoded. encodeBinaryPlayerDatabase example_libs example_players = Inr data \<and>
    decodePlayerDatabase example_libs data = Inr (decoded, Some FormatBinary) \<and>
    gm_get decoded ''bob'' = Some (Some (zero_player\<lparr>p_level := 2, p_minutes := 300\<rparr>))"
proof -
  obtain data where data: "encodeBinaryPlayerDatabase example_libs example_players = Inr data"
    using example_encodes by blast
  show ?thesis
    using playerdb_roundtrip [OF data example_players_simps(1,2) example_libs_inverse] data
    by (auto simp: example_players_simps persisted_def zero_player_def)
qed

text \<open>
  The bytes written do not depend on the order in which Go happens to iterate over the
  player map: two maps with the same entries are encoded identically.
\<close>

theorem playerdb_encode_deterministic:
  assumes "gm_ok players" and "gm_ok players'" and "set players = set players'"
    and "no_nil players"
  shows "encodeBinaryPlayerDatabase L players = encodeBinaryPlayerDatabase L players'"
proof -
  note same = sort_keys_perm [OF assms(1-3)]
  have "no_nil players'" using assms(3,4) by (simp add: no_nil_def)
  then have "first_null players = None" "first_null players' = None"
    using assms(4) by (simp_all add: first_null_None)
  moreover have "encode_records players names p = encode_records players' names p" for names p
    by (rule encode_records_cong) (simp add: gm_ok_perm [OF assms(1-3)])
  ultimately have "encode_payload players = encode_payload players'"
    using same by (simp add: encode_payload_def Let_def gm_keys_def)
  then show ?thesis by (simp add: encodeBinaryPlayerDatabase_def)
qed

theorem playerdb_encode_deterministic_witness:
  "encodeBinaryPlayerDatabase example_libs example_players =
   encodeBinaryPlayerDatabase example_libs (rev example_players)"
  by (rule playerdb_encode_deterministic)
    (simp_all add: example_players_def gm_ok_def gm_keys_def no_nil_def insert_commute)

text \<open>
  C24.  Whatever bytes a file holds, a decoded binary database is well formed: the header carries
  the supported version, codec and flags, the payload has the declared size and checksum, no
  player is nameless or nil, the payload announces exactly as many records as there are players
  (so no two of its records have the same name, where the later one would have replaced the
  earlier), and the record count is within the limit and within the number of minimum-size records
  the payload can hold.
\<close>

theorem playerdb_decode_safe:
  assumes "decodeBinaryPlayerDatabase L data = Inr players"
  shows "gm_ok players \<and> no_nil players \<and> gm_get players '''' = None \<and>
    length players \<le> maxPlayerDBRecords \<and>
    slice data 8 12 = [1, 0, 1, 0] \<and>
    (\<exists>payload. zstd_decode_all L (drop playerDBHeaderSize data) = Some payload \<and>
       length payload = le_get (slice data 12 20) \<and> length payload \<le> maxPlayerDBPayload \<and>
       crc_checksum castagnoli payload = of_nat (le_get (slice data 20 24)) \<and>
       (\<exists>count r. reader_uvarint \<lparr>r_data = payload, r_off = 0\<rparr> = Inr (count, r) \<and>
          length players = unat count) \<and>
       minimumRecordSize * length players \<le> length payload)"
proof -
  from assms obtain payload where
    len: "\<not> length data < playerDBHeaderSize" and
    hdr: "le_get (slice data 8 10) = playerDBBinaryVersion" "data ! 10 = playerDBCodecZstd"
      "data ! 11 = 0" and
    payload: "zstd_decode_all L (drop playerDBHeaderSize data) = Some payload"
      "length payload = le_get (slice data 12 20)" "length payload \<le> maxPlayerDBPayload"
      "crc_checksum castagnoli payload = of_nat (le_get (slice data 20 24))" and
    dec: "decodePlayerDBPayload payload = Inr players"
    by (auto simp: decodeBinaryPlayerDatabase_def Let_def not_less
        split: if_splits option.splits)
  from dec obtain count r r' where
    read: "reader_uvarint \<lparr>r_data = payload, r_off = 0\<rparr> = Inr (count, r)" and
    count: "unat (count :: uint64) \<le> maxPlayerDBRecords"
      "unat count \<le> (length payload - r_off r) div minimumRecordSize" and
    recs: "decode_records (unat count) 0 [] r = Inr (players, r')"
    by (auto simp: decodePlayerDBPayload_def not_less split: if_splits sum.splits)
  have "gm_ok players" "no_nil players" "gm_get players '''' = None"
    and n: "length players = unat count"
    using decode_records_safe [OF recs] by (simp_all add: no_nil_def)
  moreover have "minimumRecordSize * length players \<le> length payload"
    using count(2) n by (simp add: minimumRecordSize_def less_eq_div_iff_mult_less_eq)
  moreover have "slice data 8 12 = [1, 0, 1, 0]"
  proof -
    define a b where ab: "a = data ! 8" "b = data ! 9"
    have "24 \<le> length data" using len by (simp add: playerDBHeaderSize_def)
    then have "drop 8 data = a # b # data ! 10 # data ! 11 # drop 12 data"
      using Cons_nth_drop_Suc [of 8 data] Cons_nth_drop_Suc [of 9 data]
        Cons_nth_drop_Suc [of 10 data] Cons_nth_drop_Suc [of 11 data] by (simp add: ab)
    then have sl: "slice data 8 10 = [a, b]" "slice data 8 12 = [a, b, data ! 10, data ! 11]"
      by (simp_all add: slice_def)
    with hdr(1) have "unat a + 256 * unat b = 1" by (simp add: db_limits)
    moreover have "x = 1 \<and> y = 0" if "x + 256 * y = 1" for x y :: nat
      using that by presburger
    ultimately have "unat a = unat (1 :: byte)" "unat b = unat (0 :: byte)"
      by simp_all
    then have "a = 1" "b = 0" by (blast intro: unsigned_word_eqI)+
    with sl hdr(2,3) show ?thesis by (simp add: db_limits)
  qed
  moreover have "\<exists>count r. reader_uvarint \<lparr>r_data = payload, r_off = 0\<rparr> = Inr (count, r) \<and> length players = unat count"
    using read n by blast
  ultimately show ?thesis using payload count(1) by auto
qed

theorem playerdb_decode_safe_witness:
  "\<exists>data players. decodeBinaryPlayerDatabase example_libs data = Inr players \<and>
    gm_ok players \<and> slice data 8 12 = [1, 0, 1, 0]"
proof -
  obtain q where q: "encode_payload example_players = Inr q"
    using example_payload by (cases "encode_payload example_players") auto
  let ?data = "encode_envelope example_libs q"
  have "decodeBinaryPlayerDatabase example_libs ?data = decodePlayerDBPayload q"
    by (rule decode_envelope) (simp_all add: example_libs_def encode_payload_bound [OF q])
  then obtain players where "decodeBinaryPlayerDatabase example_libs ?data = Inr players"
    using payload_roundtrip [OF q example_players_simps(1,2)] by auto
  from this playerdb_decode_safe [OF this] show ?thesis by blast
qed

text \<open>
  The writer and the reader disagree on the empty name: a database with a nameless player is
  written without complaint, and the file it leaves can never be read again.
\<close>

theorem playerdb_empty_name_unreadable:
  assumes "encodeBinaryPlayerDatabase L players = Inr data"
    and "gm_ok players" and "gm_get players '''' \<noteq> None"
    and "\<And>p. zstd_decode_all L (zstd_encode_all L p) = Some p"
  shows "\<exists>e. decodePlayerDatabase L data = Inl e"
proof -
  let ?keys = "sort (gm_keys players)"
  from assms(1) obtain q where q: "encode_payload players = Inr q" and "zstd_init L = None"
    and data: "data = encode_envelope L q"
    by (auto simp: encodeBinaryPlayerDatabase_def split: sum.splits option.splits)
  then have dec: "decodeBinaryPlayerDatabase L data = decodePlayerDBPayload q"
    using assms(4) decode_envelope encode_payload_bound by blast
  have "'''' \<in> set ?keys" using assms(3) by (simp add: gm_get_None_iff)
  moreover have "sorted ?keys" by simp
  ultimately obtain ks where keys: "?keys = '''' # ks"
    by (cases ?keys) auto
  obtain r where r: "reader_uvarint \<lparr>r_data = q, r_off = 0\<rparr> = Inr (of_nat (length players), r)"
    "remaining r = encoded_of players ?keys" "reader_ok r"
    and count: "unat (of_nat (length players) :: uint64) = length players"
    by (rule encode_payload_count [OF q])
  have "remaining r = string_bytes '''' @
      (drop (length (string_bytes '''')) (record_bytes '''' (the (the (gm_get players ''''))))
       @ encoded_of players ks)"
    using r(2) by (simp add: keys encoded_of_def record_bytes_def)
  then obtain r1 where "reader_string r = Inr ('''', r1)"
    using st.reads [of "''''" r] r(3) by (auto simp: db_limits)
  then have "decode_record 0 [] r = Inl (EmptyName 0)" by (simp add: decode_record_def)
  moreover have "length players = Suc (length ks)"
    using keys by (metis gm_keys_def length_Cons length_map length_sort)
  ultimately have "\<exists>e. decodePlayerDBPayload q = Inl e"
    using r(1) count by (simp add: decodePlayerDBPayload_def)
  moreover have "take (length playerDBMagic) data = playerDBMagic" "data \<noteq> []"
    "length playerDBMagic \<le> length data"
    by (simp_all add: data encode_envelope_def playerDBMagic_def)
  ultimately show ?thesis using dec by (auto simp: decodePlayerDatabase_def)
qed

theorem playerdb_empty_name_unreadable_witness:
  "\<exists>data e. encodeBinaryPlayerDatabase example_libs [('''', Some zero_player)] = Inr data \<and>
    decodePlayerDatabase example_libs data = Inl e"
proof -
  let ?m = "[('''', Some zero_player)] :: players"
  have "encode_records ?m [''''] (put_uvarint 1) = Inr (put_uvarint 1 @ encoded_of ?m [''''])"
    using length_put_uvarint_le_10 [of 1] length_record_bytes_le [of "''''" zero_player]
    by (intro encode_records_small) (auto simp: encoded_of_def db_limits gm_get_def zero_player_def)
  then have "\<not> isl (encode_payload ?m)"
    by (simp add: encode_payload_def Let_def db_limits gm_keys_def)
  then obtain data where d:
    "encodeBinaryPlayerDatabase example_libs [('''', Some zero_player)] = Inr data"
    by (cases "encode_payload ?m") (auto simp: encodeBinaryPlayerDatabase_def example_libs_def)
  have "gm_ok [('''', Some zero_player)]" "gm_get [('''', Some zero_player)] '''' \<noteq> None"
    by (simp_all add: gm_ok_def gm_keys_def gm_get_def)
  from playerdb_empty_name_unreadable [OF d this example_libs_inverse] d show ?thesis by blast
qed

end
