(* ===== verification/Player_DB.thy ===== *)
theory Player_DB
  imports PlayerDB_Codec
begin

text \<open>
  The in-memory player database of one ChatWire instance (fact/playerDB.go), the moderation entry
  point (fact/moderation.go) and the access lists written before a launch (fact/util.go).

  Several instances share one database file.  Each keeps the players in memory together with the
  set of changed names, every one with the version of its last change; a write merges exactly the
  changed records into what the file holds at that moment.  \<open>glob.PlayerListLock\<close> makes
  each operation one atomic step.  The clock is an argument in Unix seconds, the server switches
  are \<open>server_env\<close>, and what the code hands to \<open>WriteFact\<close> and to the SoftMod
  channel is kept in \<open>sent\<close>, in order.
\<close>

section \<open>State\<close>

datatype fact_out = Command string | SoftModLevel string int64 | RoleAdd string string

record player_state =
  player_list :: players
  change_next :: uint64
  change_versions :: "(string, uint64) gomap"
  list_dirty :: bool
  list_dirty_signal :: bool
  stats_dirty :: bool
  last_ban_name :: string
  sent :: "fact_out list"

text \<open>
  \<open>FactorioBooted \<and> FactIsRunning\<close>, the whitelist options of the local config, the players
  online, and the Discord guild with the configured role names; \<open>guild_roles\<close> lists the
  name and the id of every role, \<open>None\<close> when no guild is connected.
\<close>

record server_env =
  factorio_up :: bool
  opt_custom_whitelist :: bool
  opt_regulars_only :: bool
  opt_members_only :: bool
  online_players :: "string list"
  guild_roles :: "(string \<times> string) list option"
  role_new :: string
  role_member :: string
  role_regular :: string
  role_veteran :: string
  role_moderator :: string

definition MaxNameLength :: nat where "MaxNameLength = 64"
definition MaxBanReasonLength :: nat where "MaxBanReasonLength = 1024"
definition SeenEpoch :: int where "SeenEpoch = 1546326000"
definition SeenDivisor :: int where "SeenDivisor = 60"
definition VeteranThresh :: int where "VeteranThresh = 60 * 24 * 3"
definition MaxWhitelist :: nat where "MaxWhitelist = 1500"

definition compactNow :: "int \<Rightarrow> int64" where
  "compactNow now = word_of_int (go_div (now - SeenEpoch) SeenDivisor)"

definition ExpandTime :: "int64 \<Rightarrow> int" where
  "ExpandTime input = sint (input * word_of_int SeenDivisor + word_of_int SeenEpoch)"

section \<open>Commands to the server\<close>

definition write_fact :: "string \<Rightarrow> player_state \<Rightarrow> player_state" where
  "write_fact s st = st\<lparr>sent := sent st @ [Command s]\<rparr>"

definition doBan :: "string \<Rightarrow> string \<Rightarrow> player_state \<Rightarrow> player_state" where
  "doBan name outString st =
     write_fact (''/purge '' @ name)
       (write_fact (''/ban '' @ outString) (st\<lparr>last_ban_name := name\<rparr>))"

definition WriteBan :: "string \<Rightarrow> string \<Rightarrow> player_state \<Rightarrow> player_state" where
  "WriteBan name reason st = doBan name (name @ '' '' @ reason) st"

definition WriteUnban :: "string \<Rightarrow> player_state \<Rightarrow> player_state" where
  "WriteUnban name st =
     write_fact (''/unban '' @ name)
       (if equal_fold (last_ban_name st) name then st\<lparr>last_ban_name := ''''\<rparr> else st)"

definition WhitelistPlayer :: "server_env \<Rightarrow> string \<Rightarrow> int64 \<Rightarrow> player_state \<Rightarrow> player_state" where
  "WhitelistPlayer env pname level st =
     (if \<not> factorio_up env then st
      else if opt_custom_whitelist env then
        (if 254 \<le> sint level then write_fact (''/whitelist add '' @ pname) st else st)
      else
        (let requiredLevel = (if opt_regulars_only env then 2
                              else if opt_members_only env then 1 else (0 :: int)) in
         if requiredLevel = 0 then st
         else if requiredLevel \<le> sint level then write_fact (''/whitelist add '' @ pname) st
         else write_fact (''/whitelist remove '' @ pname) st))"

definition syncPlayerAdminAccess ::
  "server_env \<Rightarrow> string \<Rightarrow> int64 \<Rightarrow> int64 \<Rightarrow> player_state \<Rightarrow> player_state" where
  "syncPlayerAdminAccess env name previousLevel level st =
     (if \<not> factorio_up env \<or> (254 \<le> sint previousLevel) = (254 \<le> sint level) then st
      else if 254 \<le> sint level then write_fact (''/promote '' @ name) st
      else write_fact (''/demote '' @ name) st)"

definition applyPlayerLevelInGame ::
  "string \<Rightarrow> int64 \<Rightarrow> int64 \<Rightarrow> player_state \<Rightarrow> player_state" where
  "applyPlayerLevelInGame pname previousLevel level st =
     (if sint level < 0 \<or> (level = 0 \<and> previousLevel = 0) then st
      else st\<lparr>sent := sent st @ [SoftModLevel pname level]\<rparr>)"

definition onlinePlayerName :: "server_env \<Rightarrow> string \<Rightarrow> string option" where
  "onlinePlayerName env who =
     (if who = '''' then None else find (\<lambda>n. equal_fold n who) (online_players env))"

definition syncOnlinePlayerLevel ::
  "server_env \<Rightarrow> string \<Rightarrow> int64 \<Rightarrow> int64 \<Rightarrow> player_state \<Rightarrow> player_state" where
  "syncOnlinePlayerLevel env pname previousLevel level st =
     (case onlinePlayerName env pname of
        None \<Rightarrow> st
      | Some onlineName \<Rightarrow> applyPlayerLevelInGame onlineName previousLevel level st)"

section \<open>Marking changes\<close>

definition markPlayerDirty :: "string \<Rightarrow> player_state \<Rightarrow> player_state" where
  "markPlayerDirty pname st =
     (let n = to_lower (trim_space pname) in
      if n = '''' then st
      else let next = change_next st + 1 in
        st\<lparr>change_next := next, change_versions := gm_put (change_versions st) n next\<rparr>)"

definition playerChangePending :: "string \<Rightarrow> player_state \<Rightarrow> bool" where
  "playerChangePending pname st \<longleftrightarrow> gm_get (change_versions st) (to_lower pname) \<noteq> None"

definition signalPlayerListDirty :: "player_state \<Rightarrow> player_state" where
  "signalPlayerListDirty st = st\<lparr>list_dirty := True, list_dirty_signal := True\<rparr>"

definition SetPlayerListDirty :: "string \<Rightarrow> player_state \<Rightarrow> player_state" where
  "SetPlayerListDirty pname st = signalPlayerListDirty (markPlayerDirty pname st)"

definition SetPlayerStatsDirty :: "string \<Rightarrow> player_state \<Rightarrow> player_state" where
  "SetPlayerStatsDirty pname st = (markPlayerDirty pname st)\<lparr>stats_dirty := True\<rparr>"

section \<open>Operations on one player\<close>

definition lookup_player :: "player_state \<Rightarrow> string \<Rightarrow> player_data option" where
  "lookup_player st n = (case gm_get (player_list st) n of Some (Some p) \<Rightarrow> Some p | _ \<Rightarrow> None)"

definition set_player :: "string \<Rightarrow> player_data \<Rightarrow> player_state \<Rightarrow> player_state" where
  "set_player n p st = st\<lparr>player_list := gm_put (player_list st) n (Some p)\<rparr>"

definition PlayerSetBanReason ::
  "int \<Rightarrow> string \<Rightarrow> string \<Rightarrow> bool \<Rightarrow> player_state \<Rightarrow> bool \<times> player_state" where
  "PlayerSetBanReason now pname reason doban st =
     (if pname = '''' \<or> MaxNameLength < length pname \<or> MaxBanReasonLength < length reason
      then (False, st)
      else let n = to_lower pname in
        case lookup_player st n of
          Some p \<Rightarrow>
            (let st = (if doban \<and> \<not> p_already_banned p then WriteBan n reason st else st);
                 p = p\<lparr>p_level := - 1,
                       p_ban_reason := (if reason \<noteq> '''' then reason else p_ban_reason p),
                       p_last_seen := 0, p_creation := 0, p_already_banned := True\<rparr>
             in (True, SetPlayerListDirty n (set_player n p st)))
        | None \<Rightarrow>
            (let p = zero_player\<lparr>p_name := n, p_level := - 1, p_ban_reason := reason,
                       p_already_banned := True, p_last_seen := compactNow now,
                       p_creation := compactNow now\<rparr>;
                 st = set_player n p st;
                 st = (if doban then WriteBan n reason st else st)
             in (False, SetPlayerListDirty n st)))"

definition PlayerSetID ::
  "server_env \<Rightarrow> int \<Rightarrow> string \<Rightarrow> string \<Rightarrow> int64 \<Rightarrow> player_state \<Rightarrow> bool \<times> player_state" where
  "PlayerSetID env now pname discID level st =
     (if discID = '''' \<or> pname = '''' \<or> MaxNameLength < length pname then (False, st)
      else let n = to_lower pname in
        case lookup_player st n of
          Some p \<Rightarrow>
            (let st = syncPlayerAdminAccess env n (p_level p) level st;
                 st = WhitelistPlayer env n level st;
                 p = p\<lparr>p_id := discID, p_level := level, p_last_seen := compactNow now\<rparr>
             in (True, SetPlayerListDirty n (set_player n p st)))
        | None \<Rightarrow>
            (let p = zero_player\<lparr>p_name := n, p_level := level, p_id := discID,
                       p_last_seen := compactNow now, p_creation := compactNow now\<rparr>;
                 st = SetPlayerListDirty n (set_player n p st);
                 st = syncPlayerAdminAccess env n 0 level st
             in (False, WhitelistPlayer env n level st)))"

definition UpdateSeen :: "int \<Rightarrow> string \<Rightarrow> player_state \<Rightarrow> player_state" where
  "UpdateSeen now pname st =
     (if pname = '''' \<or> MaxNameLength < length pname then st
      else let n = to_lower pname in
        case lookup_player st n of
          Some p \<Rightarrow> SetPlayerStatsDirty n (set_player n (p\<lparr>p_last_seen := compactNow now\<rparr>) st)
        | None \<Rightarrow> st)"

definition playerLevelSet ::
  "server_env \<Rightarrow> int \<Rightarrow> string \<Rightarrow> int64 \<Rightarrow> bool \<Rightarrow> bool \<Rightarrow> player_state \<Rightarrow> bool \<times> player_state" where
  "playerLevelSet env now pname level modifyOnly touchUnchanged st =
     (if pname = '''' \<or> MaxNameLength < length pname then (False, st)
      else let n = to_lower pname in
        case lookup_player st n of
          Some p \<Rightarrow>
            (let (p, st) =
               (if p_level p \<noteq> level then
                  (let st = syncPlayerAdminAccess env n (p_level p) level st;
                       p = p\<lparr>p_last_seen := compactNow now, p_level := level\<rparr>;
                       st = SetPlayerListDirty n st
                   in (p, WhitelistPlayer env n level st))
                else if touchUnchanged then
                  (p\<lparr>p_last_seen := compactNow now\<rparr>, SetPlayerStatsDirty n st)
                else (p, st));
               p = (if sint level \<le> - 255 then p\<lparr>p_id := ''0''\<rparr> else p)
             in (True, set_player n p st))
        | None \<Rightarrow>
            if modifyOnly then (False, st)
            else
              (let p = zero_player\<lparr>p_name := n, p_level := level,
                         p_last_seen := compactNow now, p_creation := compactNow now\<rparr>;
                   st = SetPlayerListDirty n (set_player n p st);
                   st = syncPlayerAdminAccess env n 0 level st
               in (False, WhitelistPlayer env n level st)))"

definition PlayerLevelSet ::
  "server_env \<Rightarrow> int \<Rightarrow> string \<Rightarrow> int64 \<Rightarrow> bool \<Rightarrow> player_state \<Rightarrow> bool \<times> player_state" where
  "PlayerLevelSet env now pname level modifyOnly st =
     playerLevelSet env now pname level modifyOnly True st"

definition PlayerLevelSetFromGame ::
  "server_env \<Rightarrow> int \<Rightarrow> string \<Rightarrow> int64 \<Rightarrow> player_state \<Rightarrow> bool \<times> player_state" where
  "PlayerLevelSetFromGame env now pname level st =
     playerLevelSet env now pname level False False st"

definition PlayerLevelGet ::
  "int \<Rightarrow> string \<Rightarrow> bool \<Rightarrow> player_state \<Rightarrow> int64 \<times> player_state" where
  "PlayerLevelGet now pname modifyOnly st =
     (if pname = '''' \<or> MaxNameLength < length pname then (0, st)
      else let n = to_lower pname in
        case lookup_player st n of
          Some p \<Rightarrow>
            (p_level p, SetPlayerStatsDirty n (set_player n (p\<lparr>p_last_seen := compactNow now\<rparr>) st))
        | None \<Rightarrow>
            if modifyOnly then (0, st)
            else
              (let p = zero_player\<lparr>p_name := n, p_last_seen := compactNow now,
                         p_creation := compactNow now\<rparr>
               in (0, SetPlayerListDirty n (set_player n p st))))"

text \<open>One record of the file, merged into memory; the result says whether a ban was issued.\<close>

definition add_ban_step ::
  "string \<Rightarrow> player_data \<Rightarrow> bool \<Rightarrow> player_data \<times> player_state \<Rightarrow> bool \<times> player_data \<times> player_state"
where
  "add_ban_step n d allowBan = (\<lambda>(p, st).
     (if sint (p_level d) \<le> - 254 then (False, p\<lparr>p_id := ''0''\<rparr>, st)
      else if p_level d = - 1 \<and> 0 \<le> sint (p_level p) \<and> allowBan then
        (True, p, WriteBan n (p_ban_reason d) st)
      else if 0 \<le> sint (p_level d) \<and> p_level p = - 1 then (False, p, WriteUnban n st)
      else (False, p, st)))"

definition add_level_step ::
  "server_env \<Rightarrow> string \<Rightarrow> player_data \<Rightarrow> player_data \<times> player_state \<Rightarrow> player_data \<times> player_state"
where
  "add_level_step env n d = (\<lambda>(p, st).
     (if p_level d \<noteq> p_level p then
        (p\<lparr>p_level := p_level d\<rparr>,
         WhitelistPlayer env n (p_level d)
           (syncPlayerAdminAccess env n (p_level p) (p_level d) st))
      else (p, st)))"

definition add_seen_step ::
  "server_env \<Rightarrow> string \<Rightarrow> player_data \<Rightarrow> player_data \<times> player_state \<Rightarrow> player_data \<times> player_state"
where
  "add_seen_step env n d = (\<lambda>(p, st).
     (let p = (if 0 < sint (p_creation d) then p\<lparr>p_creation := p_creation d\<rparr> else p) in
      if sint (p_last_seen p) < sint (p_last_seen d) then
        (p\<lparr>p_last_seen := p_last_seen d\<rparr>, WhitelistPlayer env n (p_level d) st)
      else (p, st)))"

definition add_stats :: "player_data \<Rightarrow> player_data \<Rightarrow> player_data" where
  "add_stats d p =
     (let level = p_level d;
          p = (if 0 \<le> sint level \<and> p_id d \<noteq> '''' then p\<lparr>p_id := p_id d\<rparr> else p);
          p = (if sint level < 2 \<and> 0 \<le> sint level \<and> p_sus_score d \<noteq> 0
               then p\<lparr>p_sus_score := p_sus_score d\<rparr> else p)
      in if 0 \<le> sint level \<and> 0 < sint (p_minutes d) \<and> sint (p_minutes p) < sint (p_minutes d)
         then p\<lparr>p_minutes := p_minutes d\<rparr> else p)"

definition addPlayer ::
  "server_env \<Rightarrow> string \<Rightarrow> player_data \<Rightarrow> bool \<Rightarrow> player_state \<Rightarrow> bool \<times> player_state" where
  "addPlayer env iname d allowBan st =
     (if iname = '''' \<or> MaxNameLength < length iname then (False, st)
      else let n = to_lower iname in
        case lookup_player st n of
          Some p \<Rightarrow>
            (let (didBan, p, st) = add_ban_step n d allowBan (p, st);
                 (p, st) = add_seen_step env n d (add_level_step env n d (p, st))
             in (didBan, set_player n (add_stats d p) st))
        | None \<Rightarrow>
            (let p = zero_player\<lparr>p_name := n, p_level := p_level d, p_id := p_id d,
                       p_ban_reason := p_ban_reason d, p_last_seen := p_last_seen d,
                       p_creation := p_creation d, p_minutes := p_minutes d,
                       p_sus_score := p_sus_score d\<rparr>;
                 st = set_player n p st;
                 didBan = (p_level d = - 1 \<and> allowBan);
                 st = (if didBan then WriteBan n (p_ban_reason d) st else st);
                 st = syncPlayerAdminAccess env n 0 (p_level d) st
             in (didBan, WhitelistPlayer env n (p_level d) st)))"

section \<open>Promotion in the game and on Discord\<close>

text \<open>\<open>disc.GetDiscordIDFromFactorioName\<close>, \<open>disc.GetFactorioNameFromDiscordID\<close> and
  \<open>disc.RoleExists\<close>.\<close>

definition GetDiscordIDFromFactorioName :: "string \<Rightarrow> player_state \<Rightarrow> string" where
  "GetDiscordIDFromFactorioName input st =
     (let n = to_lower input in
      if n = '''' then ''''
      else case lookup_player st n of
        Some p \<Rightarrow> if 0 < sint (p_level p) then p_id p else ''''
      | None \<Rightarrow> '''')"

definition GetFactorioNameFromDiscordID :: "string \<Rightarrow> player_state \<Rightarrow> string" where
  "GetFactorioNameFromDiscordID discid st =
     (if discid = '''' then ''''
      else case find (\<lambda>p. equal_fold (p_id p) discid \<and> 0 < sint (p_level p))
                  (List.map_filter snd (player_list st)) of
        Some p \<Rightarrow> p_name p
      | None \<Rightarrow> '''')"

definition RoleExists :: "(string \<times> string) list option \<Rightarrow> string \<Rightarrow> string option" where
  "RoleExists g name =
     (case g of
        None \<Rightarrow> None
      | Some roles \<Rightarrow>
          if name = '''' then None
          else map_option snd (find (\<lambda>(role, rid). \<not> equal_fold role ''@everyone''
                 \<and> equal_fold role (to_lower name)) roles))"

definition newrole :: "server_env \<Rightarrow> int64 \<Rightarrow> string" where
  "newrole env plevel =
     (if plevel = 0 then role_new env
      else if plevel = 1 then role_member env
      else if plevel = 2 then role_regular env
      else if plevel = 3 then role_veteran env
      else if plevel = 255 then role_moderator env
      else '''')"

definition roleName :: "int64 \<Rightarrow> string" where
  "roleName plevel =
     (if sint plevel \<le> - 254 then '' **(Deleted Player)** ''
      else if plevel = - 1 then '' **(Banned)**''
      else if plevel = 1 then '' *(Member)*''
      else if plevel = 2 then '' *(Regular)*''
      else if plevel = 3 then '' *(Veteran)*''
      else if plevel = 255 then '' *(Moderator)*''
      else '' *(New Player)* '')"

definition assignRole :: "server_env \<Rightarrow> string \<Rightarrow> int64 \<Rightarrow> player_state \<Rightarrow> player_state" where
  "assignRole env pname plevel st =
     (let discid = GetDiscordIDFromFactorioName pname st;
          factname = GetFactorioNameFromDiscordID discid st in
      if equal_fold factname pname \<and> discid \<noteq> '''' then
        (case RoleExists (guild_roles env) (newrole env plevel) of
           None \<Rightarrow> st
         | Some rid \<Rightarrow> st\<lparr>sent := sent st @ [RoleAdd discid rid]\<rparr>)
      else st)"

definition autoPromote ::
  "server_env \<Rightarrow> int \<Rightarrow> string \<Rightarrow> bool \<Rightarrow> bool \<Rightarrow> int64 option \<Rightarrow> player_state \<Rightarrow> string \<times> player_state"
where
  "autoPromote env now pname bootMode allowBan given st =
     (if pname = '''' then ('' *(New Player)* '', st)
      else
        (let (plevel, st) = PlayerLevelGet now pname False st;
             previousLevel = (case given of None \<Rightarrow> plevel | Some l \<Rightarrow> l);
             playerName = (if bootMode then '' *(New Player)* '' else roleName plevel);
             st = (if \<not> bootMode \<and> plevel = - 1 \<and> allowBan then
                     (case lookup_player st (to_lower pname) of
                        Some p \<Rightarrow> WriteBan (to_lower pname) (p_ban_reason p) st
                      | None \<Rightarrow> st)
                   else st);
             st = (if bootMode then st else applyPlayerLevelInGame pname previousLevel plevel st)
         in (playerName, assignRole env pname plevel st)))"

definition AutoPromote ::
  "server_env \<Rightarrow> int \<Rightarrow> string \<Rightarrow> bool \<Rightarrow> bool \<Rightarrow> player_state \<Rightarrow> string \<times> player_state" where
  "AutoPromote env now pname bootMode allowBan st =
     autoPromote env now pname bootMode allowBan None st"

definition AutoPromoteFromLevel ::
  "server_env \<Rightarrow> int \<Rightarrow> string \<Rightarrow> bool \<Rightarrow> bool \<Rightarrow> int64 \<Rightarrow> player_state \<Rightarrow> string \<times> player_state"
where
  "AutoPromoteFromLevel env now pname bootMode allowBan previousLevel st =
     autoPromote env now pname bootMode allowBan (Some previousLevel) st"

section \<open>Access lists\<close>

definition LevelToString :: "int64 \<Rightarrow> string" where
  "LevelToString level =
     (if sint level \<le> - 254 then ''Deleted''
      else if level = - 1 then ''Banned''
      else if level = 0 then ''New''
      else if level = 1 then ''Member''
      else if level = 2 then ''Regular''
      else if level = 3 then ''Veteran''
      else if 255 \<le> sint level then ''Moderator''
      else ''Invalid'')"

definition StringToLevel :: "string \<Rightarrow> int64" where
  "StringToLevel s =
     (let input = to_lower s in
      if has_prefix input ''new'' then 0
      else if has_prefix input ''members'' then 1
      else if has_prefix input ''regulars'' then 2
      else if has_prefix input ''veterans'' then 3
      else if has_prefix input ''banished'' then 0
      else if has_prefix input ''moderator'' then 255
      else 0)"

text \<open>The players of the map that are not nil, in iteration order.\<close>

definition players_in :: "player_state \<Rightarrow> player_data list" where
  "players_in st = List.map_filter snd (player_list st)"

text \<open>
  The lists the three writers put into their files.  \<open>sort.Slice\<close> is not stable: players
  with the same last-seen minute may come in any order, and the model takes them in iteration
  order; the facts proved do not depend on that choice.
\<close>

definition admin_names :: "player_state \<Rightarrow> string list" where
  "admin_names st = sort (map p_name (filter (\<lambda>p. 254 \<le> sint (p_level p)) (players_in st)))"

definition whitelist_candidates :: "server_env \<Rightarrow> player_state \<Rightarrow> player_data list" where
  "whitelist_candidates env st =
     sort_key (\<lambda>p. sint (p_last_seen p))
       (filter (\<lambda>p. if opt_regulars_only env then 1 < sint (p_level p) else 0 < sint (p_level p))
         (players_in st))"

fun add_until_full :: "nat \<Rightarrow> string list \<Rightarrow> player_data list \<Rightarrow> string list" where
  "add_until_full cap names [] = names"
| "add_until_full cap names (p # ps) =
     (if cap \<le> length names then names
      else if sint (p_level p) < 3 then add_until_full cap (names @ [p_name p]) ps
      else add_until_full cap names ps)"

definition whitelist_names :: "server_env \<Rightarrow> player_state \<Rightarrow> string list" where
  "whitelist_names env st =
     (let latest = rev (whitelist_candidates env st);
          names = map p_name (filter (\<lambda>p. 3 \<le> sint (p_level p)) latest)
      in add_until_full MaxWhitelist names latest)"

fun missing_admins :: "string list \<Rightarrow> player_data list \<Rightarrow> string list" where
  "missing_admins seen [] = []"
| "missing_admins seen (p # ps) =
     (if 254 \<le> sint (p_level p) \<and> to_lower (p_name p) \<notin> set seen
      then p_name p # missing_admins (to_lower (p_name p) # seen) ps
      else missing_admins seen ps)"

datatype whitelist_file = WhitelistMissing | WhitelistUnreadable | WhitelistNames "string list option"

text \<open>What is done with the list file: kept, removed or written (\<open>json.Unmarshal\<close> failing on an
  existing file is \<open>WhitelistNames None\<close>).  The second component is the value returned.\<close>

datatype list_write = KeepFile | RemoveFile | WriteNames "string list"

definition WriteAdminlist :: "bool \<Rightarrow> player_state \<Rightarrow> list_write \<times> int" where
  "WriteAdminlist writeOk st =
     (let admins = admin_names st in
      if \<not> writeOk then (KeepFile, - 1) else (WriteNames admins, int (length admins)))"

definition writeCustomWhitelist :: "bool \<Rightarrow> whitelist_file \<Rightarrow> player_state \<Rightarrow> list_write \<times> int" where
  "writeCustomWhitelist writeOk file st =
     (let merged = (\<lambda>invited.
            (let names = invited @ sort (missing_admins (map to_lower invited) (players_in st)) in
             if writeOk then (WriteNames names, int (length names)) else (KeepFile, - 1)))
      in case file of
        WhitelistUnreadable \<Rightarrow> (KeepFile, - 1)
      | WhitelistMissing \<Rightarrow> merged []
      | WhitelistNames None \<Rightarrow> (KeepFile, - 1)
      | WhitelistNames (Some invited) \<Rightarrow> merged invited)"

definition WriteWhitelist ::
  "server_env \<Rightarrow> bool \<Rightarrow> whitelist_file \<Rightarrow> player_state \<Rightarrow> list_write \<times> int" where
  "WriteWhitelist env writeOk file st =
     (if opt_custom_whitelist env then writeCustomWhitelist writeOk file st
      else if opt_members_only env \<or> opt_regulars_only env then
        (let names = whitelist_names env st in
         if writeOk then (WriteNames names, int (length names)) else (KeepFile, - 1))
      else (RemoveFile, 0))"

end
