(* ===== verification/Player_Persistence.thy ===== *)
theory Player_Persistence
  imports Player_DB
begin

text \<open>
  Loading and saving the shared player database (\<open>LoadPlayers\<close>, \<open>WritePlayers\<close> of
  fact/playerDB.go) and the moderation entry point (fact/moderation.go).

  The file is its bytes, or \<open>None\<close> while it does not exist; several instances read and
  write it.  \<open>WritePlayers\<close> takes a snapshot of the changed records, waits for the file lock,
  merges the snapshot into what the file holds and only then drops the changes it has written:
  \<open>other\<close> is whatever the rest of the program does to the in-memory players in the meantime.
\<close>

section \<open>Writing\<close>

text \<open>\<open>snapshotPlayerChanges\<close>: the changed records (\<open>None\<close> for a deleted player) and the version
  of each.\<close>

definition snapshotPlayerChanges ::
  "player_state \<Rightarrow> (string \<times> player_data option) list \<times> (string, uint64) gomap" where
  "snapshotPlayerChanges st =
     (map (\<lambda>(pname, version). (pname, lookup_player st pname)) (change_versions st),
      change_versions st)"

fun completePlayerChanges :: "(string \<times> uint64) list \<Rightarrow> player_state \<Rightarrow> player_state" where
  "completePlayerChanges [] st = st"
| "completePlayerChanges ((pname, version) # rest) st =
     completePlayerChanges rest
       (if gm_get (change_versions st) pname = Some version
        then st\<lparr>change_versions := gm_del (change_versions st) pname\<rparr> else st)"

fun mergePlayerChanges :: "players \<Rightarrow> (string \<times> player_data option) list \<Rightarrow> players" where
  "mergePlayerChanges players [] = players"
| "mergePlayerChanges players ((pname, player) # rest) =
     (case player of
        None \<Rightarrow> mergePlayerChanges (gm_del players pname) rest
      | Some p \<Rightarrow> mergePlayerChanges (gm_put players pname (Some p)) rest)"

text \<open>The outcome of the file operations of one write.\<close>

record write_io =
  lock_acquired :: bool
  read_ok :: bool
  write_ok :: bool

datatype write_error = LockTimeout | ReadFailed | DecodeFailed codec_error
  | EncodeFailed codec_error | WriteFailed

definition write_database ::
  "db_libs \<Rightarrow> string \<Rightarrow> write_io \<Rightarrow> (string \<times> player_data option) list \<Rightarrow> byte list option
    \<Rightarrow> write_error + byte list" where
  "write_database L format io changes file =
     (if \<not> lock_acquired io then Inl LockTimeout
      else if file \<noteq> None \<and> \<not> read_ok io then Inl ReadFailed
      else
        (let filedata = (case file of None \<Rightarrow> [] | Some d \<Rightarrow> d) in
         case (if filedata = [] then Inr ([], None) else decodePlayerDatabase L filedata) of
           Inl e \<Rightarrow> Inl (DecodeFailed e)
         | Inr (players, _) \<Rightarrow>
             (case encodePlayerDatabase L (mergePlayerChanges players changes) format of
                Inl e \<Rightarrow> Inl (EncodeFailed e)
              | Inr data \<Rightarrow> if write_ok io then Inr data else Inl WriteFailed)))"

definition WritePlayers ::
  "db_libs \<Rightarrow> string \<Rightarrow> write_io \<Rightarrow> (player_state \<Rightarrow> player_state) \<Rightarrow>
   player_state \<times> byte list option \<Rightarrow> player_state \<times> byte list option" where
  "WritePlayers L format io other = (\<lambda>(st, file).
     (let (changes, versions) = snapshotPlayerChanges st in
      if changes = [] then (other st, file)
      else case write_database L format io changes file of
        Inl e \<Rightarrow> (signalPlayerListDirty (other st), file)
      | Inr data \<Rightarrow> (completePlayerChanges versions (other st), Some data)))"

section \<open>Play time\<close>

text \<open>
  One turn of \<open>startPlayerTimeLoop\<close> (support/mainLoops_players.go): under the lock of the players everyone
  seen within the last minute gets a minute; the names are then marked one by one, each on its own.  A nil
  record, on which the loop would panic, is left as it is.
\<close>

definition seen_lately :: "gotime \<Rightarrow> player_data \<Rightarrow> bool" where
  "seen_lately now p \<longleftrightarrow> now - ExpandTime (p_last_seen p) * second_ns \<le> minute_ns"

definition count_minutes :: "gotime \<Rightarrow> player_state \<Rightarrow> string list \<times> player_state" where
  "count_minutes now st =
     ([p_name p. (n, Some p) \<leftarrow> player_list st, seen_lately now p],
      st\<lparr>player_list := map (\<lambda>(n, v). (n, map_option (\<lambda>p. if seen_lately now p
          then p\<lparr>p_minutes := p_minutes p + 1\<rparr> else p) v)) (player_list st)\<rparr>)"

section \<open>Loading\<close>

record load_state =
  l_temp :: players
  l_st :: player_state
  l_ban_count :: nat
  l_do_ban :: bool
  l_changed :: "string list"
  l_levels :: "(string, int64) gomap"

definition note_changed :: "string \<Rightarrow> load_state \<Rightarrow> load_state" where
  "note_changed pname ls =
     (if pname \<in> set (l_changed ls) then ls else ls\<lparr>l_changed := l_changed ls @ [pname]\<rparr>)"

definition remove_loaded :: "string \<Rightarrow> load_state \<Rightarrow> load_state" where
  "remove_loaded pname ls =
     note_changed pname
       (ls\<lparr>l_temp := gm_del (l_temp ls) pname,
           l_st := (l_st ls)\<lparr>player_list := gm_del (player_list (l_st ls)) pname\<rparr>\<rparr>)"

text \<open>The record clean-up of \<open>-cleanDB\<close>.\<close>

definition minimize_record :: "player_data \<Rightarrow> player_data" where
  "minimize_record d =
     (let d = (if 0 < sint (p_level d)
               then d\<lparr>p_sus_score := 0, p_ban_reason := '''', p_spam_score := 0\<rparr> else d);
          d = (case parse_uint64 (p_id d) of
                 None \<Rightarrow> d\<lparr>p_ban_reason := p_id d, p_id := ''''\<rparr>
               | Some n \<Rightarrow> if n = 0 then d\<lparr>p_ban_reason := p_id d, p_id := ''''\<rparr> else d)
      in if p_id d = ''0'' then d\<lparr>p_id := ''''\<rparr> else d)"

definition load_kept ::
  "server_env \<Rightarrow> bool \<Rightarrow> bool \<Rightarrow> bool \<Rightarrow> string \<Rightarrow> player_data \<Rightarrow> player_data option \<Rightarrow> load_state \<Rightarrow> load_state"
where
  "load_kept env bootMode minimize clearBans pname d previousPlayer ls =
     (let ls = (if 5 < l_ban_count ls then ls\<lparr>l_do_ban := False\<rparr> else ls);
          veteran = (p_level d = 2 \<and> VeteranThresh < sint (p_minutes d));
          d = (if veteran then d\<lparr>p_level := 3\<rparr> else d);
          ls = (if veteran then note_changed pname ls else ls);
          previousLevel = (case previousPlayer of None \<Rightarrow> 0 | Some p \<Rightarrow> p_level p);
          ls = (if \<not> bootMode \<and> \<not> minimize \<and> \<not> clearBans
                   \<and> (previousPlayer = None \<or> previousLevel \<noteq> p_level d)
                then ls\<lparr>l_levels := gm_put (l_levels ls) pname previousLevel\<rparr> else ls);
          (didBan, st) = addPlayer env pname d (if bootMode then False else l_do_ban ls) (l_st ls)
      in ls\<lparr>l_temp := gm_put (l_temp ls) pname (Some d), l_st := st,
            l_ban_count := (if didBan then Suc (l_ban_count ls) else l_ban_count ls)\<rparr>)"

text \<open>One turn of the loop over the decoded file, which holds no nil record.\<close>

definition load_player ::
  "server_env \<Rightarrow> bool \<Rightarrow> bool \<Rightarrow> bool \<Rightarrow> string \<Rightarrow> load_state \<Rightarrow> load_state" where
  "load_player env bootMode minimize clearBans pname ls =
     (case gm_get (l_temp ls) pname of
        Some (Some d) \<Rightarrow>
          if \<not> bootMode \<and> \<not> minimize \<and> \<not> clearBans \<and> playerChangePending pname (l_st ls) then ls
          else
            (let previousPlayer = lookup_player (l_st ls) pname in
             if clearBans \<and> sint (p_level d) < 0 then remove_loaded pname ls
             else if minimize \<and> (p_level d = 0 \<or> p_level d = - 255) then remove_loaded pname ls
             else if minimize then
               load_kept env bootMode minimize clearBans pname (minimize_record d) previousPlayer
                 (note_changed pname ls)
             else load_kept env bootMode minimize clearBans pname d previousPlayer ls)
      | _ \<Rightarrow> ls)"

definition sync_loaded :: "server_env \<Rightarrow> players \<Rightarrow> string \<times> int64 \<Rightarrow> player_state \<Rightarrow> player_state" where
  "sync_loaded env temp = (\<lambda>(pname, previousLevel) st.
     case gm_get temp pname of
       Some (Some d) \<Rightarrow> syncOnlinePlayerLevel env pname previousLevel (p_level d) st
     | _ \<Rightarrow> st)"

definition LoadPlayers ::
  "db_libs \<Rightarrow> server_env \<Rightarrow> bool \<Rightarrow> bool \<Rightarrow> bool \<Rightarrow> byte list option \<Rightarrow> player_state \<Rightarrow> player_state" where
  "LoadPlayers L env bootMode minimize clearBans file st =
     (case file of
        None \<Rightarrow> st
      | Some filedata \<Rightarrow>
          (case decodePlayerDatabase L filedata of
             Inl e \<Rightarrow> st
           | Inr (tempData, _) \<Rightarrow>
               (let ls = fold (load_player env bootMode minimize clearBans) (gm_keys tempData)
                           \<lparr>l_temp = tempData, l_st = st, l_ban_count = 0, l_do_ban = True,
                            l_changed = [], l_levels = []\<rparr>;
                    st = fold (sync_loaded env (l_temp ls)) (l_levels ls) (l_st ls)
                in fold SetPlayerListDirty (l_changed ls) st)))"

section \<open>Moderation\<close>

datatype moderation_error = InvalidLevel | ReasonTooLong | NameRequired | PlayerNotFound

text \<open>\<open>today\<close> is the formatted date.  The write that ends the handler is the last argument.\<close>

definition SetPlayerLevelByModerator ::
  "server_env \<Rightarrow> int \<Rightarrow> string \<Rightarrow> string \<Rightarrow> int64 \<Rightarrow> string \<Rightarrow> string \<Rightarrow>
   (player_state \<Rightarrow> player_state) \<Rightarrow> player_state \<Rightarrow> (moderation_error + unit) \<times> player_state" where
  "SetPlayerLevelByModerator env now today name level reason actor write st =
     (if level \<notin> {- 255, - 1, 0, 1, 2, 3, 255} then (Inl InvalidLevel, st)
      else if 500 < length reason then (Inl ReasonTooLong, st)
      else
        (let reason = (if reason = '''' then ''No reason given'' else reason);
             name = to_lower (trim_space name) in
         if name = '''' then (Inl NameRequired, st)
         else
           (let (old, st) = PlayerLevelGet now name False st;
                playerName = (case lookup_player st name of Some p \<Rightarrow> p_name p | None \<Rightarrow> '''') in
            if playerName = '''' then (Inl PlayerNotFound, st)
            else
              (let st = (if 0 \<le> sint level \<and> old = - 1 then WriteUnban name st else st);
                   st = (if level = - 1 \<and> old \<noteq> - 1 then
                           (let reason = reason @ '' -- '' @ actor @ '' '' @ today;
                                st = WriteBan name reason st in
                            case lookup_player st name of
                              Some p \<Rightarrow> set_player name (p\<lparr>p_ban_reason := reason\<rparr>) st
                            | None \<Rightarrow> st)
                         else st);
                   st = snd (PlayerLevelSet env now playerName level True st);
                   st = snd (AutoPromoteFromLevel env now playerName False False old st)
               in (Inr (), write st)))))"

end
