(* ===== verification/Player_Facts.thy ===== *)
theory Player_Facts
  imports Player_Persistence
begin

text \<open>
  What is proved of the player database: the invariant of the in-memory map under every
  operation, that every persisted change is entered into the change set, what a write leaves in
  the shared file, that a change made while a write is under way is not lost, and that a reload
  does not overwrite a pending change.
\<close>

named_theorems send_simps \<open>sending a command leaves the database and the change set alone\<close>

section \<open>What the operations leave alone\<close>

text \<open>The change counter and the change set.\<close>

definition changes_of :: "player_state \<Rightarrow> uint64 \<times> (string, uint64) gomap" where
  "changes_of st = (change_next st, change_versions st)"

definition db_part :: "player_state \<Rightarrow> players \<times> uint64 \<times> (string, uint64) gomap" where
  "db_part st = (player_list st, changes_of st)"

lemma db_part_iff:
  "db_part a = db_part b \<longleftrightarrow> player_list a = player_list b \<and> change_next a = change_next b
     \<and> change_versions a = change_versions b"
  by (auto simp: db_part_def changes_of_def)

lemma db_part_write_fact [send_simps, simp]: "db_part (write_fact s st) = db_part st"
  by (simp add: db_part_iff write_fact_def)

lemma db_part_WriteBan [send_simps, simp]: "db_part (WriteBan n r st) = db_part st"
  by (simp add: WriteBan_def doBan_def db_part_iff write_fact_def)

lemma db_part_WriteUnban [send_simps, simp]: "db_part (WriteUnban n st) = db_part st"
  by (simp add: WriteUnban_def db_part_iff write_fact_def)

lemma db_part_WhitelistPlayer [send_simps, simp]: "db_part (WhitelistPlayer env n l st) = db_part st"
  by (simp add: WhitelistPlayer_def Let_def)

lemma db_part_sync_admin [send_simps, simp]:
  "db_part (syncPlayerAdminAccess env n a b st) = db_part st"
  by (simp add: syncPlayerAdminAccess_def)

lemma db_part_apply [send_simps, simp]: "db_part (applyPlayerLevelInGame n a b st) = db_part st"
  by (simp add: applyPlayerLevelInGame_def db_part_iff)

lemma db_part_sync_online [send_simps, simp]:
  "db_part (syncOnlinePlayerLevel env n a b st) = db_part st"
  by (simp add: syncOnlinePlayerLevel_def split: option.split)

lemma db_part_assignRole [send_simps, simp]: "db_part (assignRole env n l st) = db_part st"
  by (simp add: assignRole_def Let_def db_part_iff split: option.split)

lemma db_part_signal [send_simps, simp]: "db_part (signalPlayerListDirty st) = db_part st"
  by (simp add: signalPlayerListDirty_def db_part_iff)

lemma db_part_sync_loaded [send_simps, simp]: "db_part (sync_loaded env temp c st) = db_part st"
  by (cases c) (simp add: sync_loaded_def split: option.split)

lemma db_part_sync_all [send_simps, simp]: "db_part (fold (sync_loaded env temp) cs st) = db_part st"
  by (induction cs arbitrary: st) simp_all

lemma db_part_fields:
  assumes "db_part a = db_part b"
  shows "player_list a = player_list b" "changes_of a = changes_of b"
    "change_versions a = change_versions b"
  using assms by (simp_all add: db_part_iff changes_of_def)

lemmas sends_keep [simp] =
  db_part_fields [OF db_part_write_fact] db_part_fields [OF db_part_WriteBan]
  db_part_fields [OF db_part_WriteUnban] db_part_fields [OF db_part_WhitelistPlayer]
  db_part_fields [OF db_part_sync_admin] db_part_fields [OF db_part_apply]
  db_part_fields [OF db_part_sync_online] db_part_fields [OF db_part_assignRole]
  db_part_fields [OF db_part_signal] db_part_fields [OF db_part_sync_all]

text \<open>Marking leaves the players alone, and storing a player leaves the change set alone.\<close>

lemma player_list_mark [simp]: "player_list (markPlayerDirty n st) = player_list st"
  by (simp add: markPlayerDirty_def Let_def)

lemma player_list_SetListDirty [simp]: "player_list (SetPlayerListDirty n st) = player_list st"
  by (simp add: SetPlayerListDirty_def)

lemma player_list_SetStatsDirty [simp]: "player_list (SetPlayerStatsDirty n st) = player_list st"
  by (simp add: SetPlayerStatsDirty_def)

lemma player_list_set_player [simp]:
  "player_list (set_player n p st) = gm_put (player_list st) n (Some p)"
  by (simp add: set_player_def)

lemma changes_set_player [simp]: "changes_of (set_player n p st) = changes_of st"
  by (simp add: set_player_def changes_of_def)

lemma lookup_player_eq:
  "lookup_player st n = (case gm_get (player_list st) n of Some (Some p) \<Rightarrow> Some p | _ \<Rightarrow> None)"
  by (simp add: lookup_player_def)

lemma lookup_cong: "player_list a = player_list b \<Longrightarrow> lookup_player a = lookup_player b"
  by (rule ext) (simp add: lookup_player_eq)

lemma lookup_set_player [simp]:
  "lookup_player (set_player n p st) k = (if k = n then Some p else lookup_player st k)"
  by (simp add: lookup_player_eq)

lemmas lookup_keep [simp] =
  lookup_cong [OF sends_keep(1)] lookup_cong [OF sends_keep(4)] lookup_cong [OF sends_keep(7)]
  lookup_cong [OF sends_keep(10)] lookup_cong [OF sends_keep(13)] lookup_cong [OF sends_keep(16)]
  lookup_cong [OF sends_keep(19)] lookup_cong [OF sends_keep(22)] lookup_cong [OF sends_keep(25)]
  lookup_cong [OF sends_keep(28)]
  lookup_cong [OF player_list_mark] lookup_cong [OF player_list_SetListDirty]
  lookup_cong [OF player_list_SetStatsDirty]

section \<open>The change set\<close>

definition mark_change ::
  "string \<Rightarrow> uint64 \<times> (string, uint64) gomap \<Rightarrow> uint64 \<times> (string, uint64) gomap" where
  "mark_change pname c =
     (let n = to_lower (trim_space pname) in
      if n = '''' then c else (fst c + 1, gm_put (snd c) n (fst c + 1)))"

lemma changes_mark [simp]: "changes_of (markPlayerDirty n st) = mark_change n (changes_of st)"
  by (simp add: markPlayerDirty_def mark_change_def changes_of_def Let_def)

lemma changes_SetListDirty [simp]:
  "changes_of (SetPlayerListDirty n st) = mark_change n (changes_of st)"
  by (simp add: SetPlayerListDirty_def)

lemma changes_SetStatsDirty [simp]:
  "changes_of (SetPlayerStatsDirty n st) = mark_change n (changes_of st)"
proof -
  have "changes_of (SetPlayerStatsDirty n st) = changes_of (markPlayerDirty n st)"
    by (simp add: SetPlayerStatsDirty_def changes_of_def)
  then show ?thesis by simp
qed

text \<open>The names marked between two states, in order.\<close>

definition marked :: "string list \<Rightarrow> player_state \<Rightarrow> player_state \<Rightarrow> bool" where
  "marked ms st st' \<longleftrightarrow> changes_of st' = fold mark_change ms (changes_of st)"

lemma marked_trans: "marked ms a b \<Longrightarrow> marked ns b c \<Longrightarrow> marked (ms @ ns) a c"
  by (simp add: marked_def)

lemma change_versions_snd: "change_versions st = snd (changes_of st)"
  by (simp add: changes_of_def)

text \<open>The state of one marked name: its version, \<open>None\<close> when it is not pending.\<close>

lemma mark_change_get:
  "gm_get (snd (mark_change m c)) n =
     (if n \<noteq> '''' \<and> n = to_lower (trim_space m) then Some (fst c + 1) else gm_get (snd c) n)"
  by (auto simp: mark_change_def Let_def)

lemma fold_mark_pending_mono:
  "gm_get (snd c) n \<noteq> None \<Longrightarrow> gm_get (snd (fold mark_change ms c)) n \<noteq> None"
  by (induction ms arbitrary: c) (simp_all add: mark_change_get)

lemma fold_mark_pending:
  assumes "m \<in> set ms" "n = to_lower (trim_space m)" "n \<noteq> ''''"
  shows "gm_get (snd (fold mark_change ms c)) n \<noteq> None"
  using assms
proof (induction ms arbitrary: c)
  case (Cons a ms)
  show ?case
  proof (cases "m = a")
    case True
    with Cons.prems have "gm_get (snd (mark_change a c)) n \<noteq> None"
      by (simp add: mark_change_get)
    then show ?thesis by (simp add: fold_mark_pending_mono del: option.exhaust_sel)
  next
    case False
    with Cons show ?thesis by simp
  qed
qed simp

lemma fold_mark_ok: "gm_ok (snd c) \<Longrightarrow> gm_ok (snd (fold mark_change ms c))"
  by (induction ms arbitrary: c) (simp_all add: mark_change_def Let_def)

text \<open>Versions never exceed the counter, as long as the counter does not wrap.\<close>

definition versions_bounded :: "uint64 \<times> (string, uint64) gomap \<Rightarrow> bool" where
  "versions_bounded c \<longleftrightarrow> (\<forall>(n, v) \<in> set (snd c). v \<le> fst c)"

lemma mark_change_counter:
  assumes "unat (fst c) + 1 < 2 ^ 64"
  shows "unat (fst (mark_change m c)) \<le> unat (fst c) + 1" "fst c \<le> fst (mark_change m c)"
proof -
  have "unat (fst c + 1) = unat (fst c) + 1"
    using assms by (simp add: unat_word_ariths)
  then show "unat (fst (mark_change m c)) \<le> unat (fst c) + 1" "fst c \<le> fst (mark_change m c)"
    by (auto simp: mark_change_def Let_def word_le_nat_alt)
qed

lemma counter_next: "unat (c :: uint64) + 1 < 2 ^ 64 \<Longrightarrow> c < c + 1"
  by (simp add: word_less_nat_alt unat_word_ariths)

lemma fold_mark_counter:
  assumes "unat (fst c) + length ms < 2 ^ 64"
  shows "fst c \<le> fst (fold mark_change ms c)"
  using assms
proof (induction ms arbitrary: c)
  case (Cons m ms)
  have small: "unat (fst c) + 1 < 2 ^ 64" using Cons.prems by simp
  note step = mark_change_counter [OF small, of m] counter_next [OF small]
  have "unat (fst (mark_change m c)) + length ms < 2 ^ 64" using step(1) Cons.prems by simp
  from Cons.IH [OF this] step(2) show ?case by simp
qed simp

lemma fold_mark_newer:
  assumes "unat (fst c) + length ms < 2 ^ 64" and "gm_get (snd c) n = Some v" and "k < v" and "k < fst c"
  shows "\<exists>v'. gm_get (snd (fold mark_change ms c)) n = Some v' \<and> k < v'"
  using assms
proof (induction ms arbitrary: c v)
  case (Cons m ms)
  have small: "unat (fst c) + 1 < 2 ^ 64" using Cons.prems by simp
  note step = mark_change_counter [OF small, of m] counter_next [OF small]
  have room: "unat (fst (mark_change m c)) + length ms < 2 ^ 64" using step(1) Cons.prems by simp
  have grown: "k < fst (mark_change m c)" using step(2) Cons.prems by simp
  have "\<exists>v1. gm_get (snd (mark_change m c)) n = Some v1 \<and> k < v1"
    using Cons.prems step(3) by (auto simp: mark_change_get)
  with Cons.IH [OF room _ _ grown] show ?case by auto
qed auto

lemma fold_mark_fresh:
  assumes "unat (fst c) + length ms < 2 ^ 64" "m \<in> set ms" "n = to_lower (trim_space m)" "n \<noteq> ''''"
  shows "\<exists>v. gm_get (snd (fold mark_change ms c)) n = Some v \<and> fst c < v"
  using assms
proof (induction ms arbitrary: c)
  case (Cons a ms)
  have small: "unat (fst c) + 1 < 2 ^ 64" using Cons.prems by simp
  note step = mark_change_counter [OF small, of a] counter_next [OF small]
  have room: "unat (fst (mark_change a c)) + length ms < 2 ^ 64" using step(1) Cons.prems by simp
  show ?case
  proof (cases "m = a")
    case True
    with Cons.prems have "gm_get (snd (mark_change a c)) n = Some (fst c + 1)"
      "fst (mark_change a c) = fst c + 1"
      by (simp_all add: mark_change_get) (simp add: mark_change_def Let_def)
    with fold_mark_newer [OF room, of n "fst c + 1" "fst c"] step(3) show ?thesis by simp
  next
    case False
    with Cons.prems have "m \<in> set ms" by simp
    from Cons.IH [OF room this Cons.prems(3,4)] step(2) show ?thesis by auto
  qed
qed simp

section \<open>The operations as one type\<close>

text \<open>
  Every operation of the running program on the database: the calls of the chat handlers, the
  Discord commands, the web panel and the background loops.  \<open>OpLoad\<close> and \<open>OpWrite\<close> carry the
  file they find.
\<close>

datatype player_op =
    OpBan int string string bool
  | OpID int string string int64
  | OpSeen int string
  | OpLevel int string int64 bool
  | OpGameLevel int string int64
  | OpGet int string bool
  | OpPromote int string bool bool "int64 option"
  | OpModerate int string string int64 string string
  | OpLoad bool bool bool "byte list option"
  | OpWrite string write_io "byte list option"
  | OpMinutes gotime
  | OpMark string bool

fun do_op :: "db_libs \<Rightarrow> server_env \<Rightarrow> player_op \<Rightarrow> player_state \<Rightarrow> player_state" where
  "do_op L env (OpBan now n reason ban) st = snd (PlayerSetBanReason now n reason ban st)"
| "do_op L env (OpID now n discid level) st = snd (PlayerSetID env now n discid level st)"
| "do_op L env (OpSeen now n) st = UpdateSeen now n st"
| "do_op L env (OpLevel now n level only) st = snd (PlayerLevelSet env now n level only st)"
| "do_op L env (OpGameLevel now n level) st = snd (PlayerLevelSetFromGame env now n level st)"
| "do_op L env (OpGet now n only) st = snd (PlayerLevelGet now n only st)"
| "do_op L env (OpPromote now n boot ban prev) st = snd (autoPromote env now n boot ban prev st)"
| "do_op L env (OpModerate now today n level reason actor) st =
     snd (SetPlayerLevelByModerator env now today n level reason actor id st)"
| "do_op L env (OpLoad boot minim clear file) st = LoadPlayers L env boot minim clear file st"
| "do_op L env (OpWrite format io file) st = fst (WritePlayers L format io id (st, file))"
| "do_op L env (OpMinutes now) st = snd (count_minutes now st)"
| "do_op L env (OpMark n stats) st = (if stats then SetPlayerStatsDirty n st else SetPlayerListDirty n st)"

section \<open>The invariant\<close>

definition player_ok :: "string \<Rightarrow> player_data \<Rightarrow> bool" where
  "player_ok n p \<longleftrightarrow> p_name p = n \<and> to_lower n = n \<and> n \<noteq> '''' \<and> length n \<le> MaxNameLength"

definition list_inv :: "players \<Rightarrow> bool" where
  "list_inv ps \<longleftrightarrow> gm_ok ps \<and> (\<forall>n v. gm_get ps n = Some v \<longrightarrow> (\<exists>p. v = Some p \<and> player_ok n p))"

definition changes_inv :: "uint64 \<times> (string, uint64) gomap \<Rightarrow> bool" where
  "changes_inv c \<longleftrightarrow> gm_ok (snd c) \<and>
     (\<forall>n. gm_get (snd c) n \<noteq> None \<longrightarrow> n \<noteq> '''' \<and> to_lower n = n \<and> trim_space n = n)"

definition db_inv :: "player_state \<Rightarrow> bool" where
  "db_inv st \<longleftrightarrow> list_inv (player_list st) \<and> changes_inv (changes_of st)"

lemma changes_inv_mark [simp]: "changes_inv c \<Longrightarrow> changes_inv (mark_change n c)"
  by (auto simp: changes_inv_def mark_change_get trim_to_lower)
     (simp add: mark_change_def Let_def)

lemma changes_inv_fold [simp]: "changes_inv c \<Longrightarrow> changes_inv (fold mark_change ns c)"
  by (induction ns arbitrary: c) simp_all

lemma list_inv_put [simp]: "list_inv ps \<Longrightarrow> player_ok n p \<Longrightarrow> list_inv (gm_put ps n (Some p))"
  by (auto simp: list_inv_def)

lemma list_inv_del [simp]: "list_inv ps \<Longrightarrow> list_inv (gm_del ps n)"
  by (auto simp: list_inv_def)

lemma list_inv_lookup: "list_inv (player_list st) \<Longrightarrow> lookup_player st n = Some p \<Longrightarrow> player_ok n p"
  by (fastforce simp: list_inv_def lookup_player_eq split: option.splits)

lemma list_inv_nil: "list_inv ps \<Longrightarrow> gm_get ps n \<noteq> Some None"
  by (auto simp: list_inv_def)

lemma player_ok_update [simp]:
  "player_ok n (p\<lparr>p_level := l\<rparr>) = player_ok n p"
  "player_ok n (p\<lparr>p_id := s\<rparr>) = player_ok n p"
  "player_ok n (p\<lparr>p_ban_reason := s\<rparr>) = player_ok n p"
  "player_ok n (p\<lparr>p_creation := l\<rparr>) = player_ok n p"
  "player_ok n (p\<lparr>p_last_seen := l\<rparr>) = player_ok n p"
  "player_ok n (p\<lparr>p_minutes := l\<rparr>) = player_ok n p"
  "player_ok n (p\<lparr>p_sus_score := l\<rparr>) = player_ok n p"
  "player_ok n (p\<lparr>p_already_banned := b\<rparr>) = player_ok n p"
  by (simp_all add: player_ok_def)

lemma player_ok_add_stats [simp]: "player_ok n (add_stats d p) = player_ok n p"
  by (simp add: add_stats_def Let_def)

lemma add_ban_step_keep [simp]:
  "add_ban_step m d b (p, st) = (x, p', st') \<Longrightarrow> db_part st' = db_part st"
  "add_ban_step m d b (p, st) = (x, p', st') \<Longrightarrow> player_ok n p' = player_ok n p"
  by (auto simp: add_ban_step_def split: if_splits)

lemma add_level_step_keep [simp]:
  "add_level_step env m d (p, st) = (p', st') \<Longrightarrow> db_part st' = db_part st"
  "add_level_step env m d (p, st) = (p', st') \<Longrightarrow> player_ok n p' = player_ok n p"
  by (auto simp: add_level_step_def split: if_splits)

lemma add_seen_step_keep [simp]:
  "add_seen_step env m d (p, st) = (p', st') \<Longrightarrow> db_part st' = db_part st"
  "add_seen_step env m d (p, st) = (p', st') \<Longrightarrow> player_ok n p' = player_ok n p"
  by (auto simp: add_seen_step_def Let_def split: if_splits)

lemma player_ok_new [simp]:
  "player_ok n (zero_player\<lparr>p_name := n\<rparr>) \<longleftrightarrow> to_lower n = n \<and> n \<noteq> '''' \<and> length n \<le> MaxNameLength"
  by (simp add: player_ok_def)

lemma db_invD: "db_inv st \<Longrightarrow> list_inv (player_list st)" "db_inv st \<Longrightarrow> changes_inv (changes_of st)"
  by (simp_all add: db_inv_def)

text \<open>One lemma per operation: it keeps the invariant.\<close>

lemmas split_op = option.splits if_splits prod.splits

lemma inv_PlayerSetBanReason: "db_inv st \<Longrightarrow> db_inv (snd (PlayerSetBanReason now n reason ban st))"
  by (auto simp: PlayerSetBanReason_def Let_def db_inv_def list_inv_lookup split: option.split)

lemma inv_PlayerSetID: "db_inv st \<Longrightarrow> db_inv (snd (PlayerSetID env now n d l st))"
  by (auto simp: PlayerSetID_def Let_def db_inv_def list_inv_lookup split: option.split)

lemma inv_UpdateSeen: "db_inv st \<Longrightarrow> db_inv (UpdateSeen now n st)"
  by (auto simp: UpdateSeen_def Let_def db_inv_def list_inv_lookup split: option.split)

lemma inv_playerLevelSet: "db_inv st \<Longrightarrow> db_inv (snd (playerLevelSet env now n l m t st))"
  by (auto simp: playerLevelSet_def Let_def db_inv_def list_inv_lookup split: option.split)

lemma inv_PlayerLevelGet: "db_inv st \<Longrightarrow> db_inv (snd (PlayerLevelGet now n m st))"
  by (auto simp: PlayerLevelGet_def Let_def db_inv_def list_inv_lookup split: option.split)

text \<open>\<open>addPlayer\<close> stores an acceptable record under the lower-case name, or does nothing.\<close>

lemma addPlayer_cases:
  assumes "list_inv (player_list st)"
  shows "db_part (snd (addPlayer env n d b st)) = db_part st \<or>
    (\<exists>p. n \<noteq> '''' \<and> length n \<le> MaxNameLength \<and> player_ok (to_lower n) p \<and>
       db_part (snd (addPlayer env n d b st)) = db_part (set_player (to_lower n) p st))"
proof (cases "n = '''' \<or> MaxNameLength < length n")
  case True
  then show ?thesis by (simp add: addPlayer_def)
next
  case False
  let ?n = "to_lower n"
  show ?thesis
  proof (cases "lookup_player st ?n")
    case None
    with False show ?thesis
      by (intro disjI2 exI [of _ "zero_player\<lparr>p_name := ?n, p_level := p_level d, p_id := p_id d,
            p_ban_reason := p_ban_reason d, p_last_seen := p_last_seen d,
            p_creation := p_creation d, p_minutes := p_minutes d, p_sus_score := p_sus_score d\<rparr>"])
        (simp add: addPlayer_def Let_def player_ok_def)
  next
    case (Some p)
    obtain x p1 s1 where 1: "add_ban_step ?n d b (p, st) = (x, p1, s1)" by (cases "add_ban_step ?n d b (p, st)")
    obtain p2 s2 where 2: "add_level_step env ?n d (p1, s1) = (p2, s2)" by (cases "add_level_step env ?n d (p1, s1)")
    obtain p3 s3 where 3: "add_seen_step env ?n d (p2, s2) = (p3, s3)" by (cases "add_seen_step env ?n d (p2, s2)")
    have "db_part s3 = db_part st" using 1 2 3 by (metis add_ban_step_keep(1) add_level_step_keep(1) add_seen_step_keep(1))
    then have "db_part (set_player ?n (add_stats d p3) s3) = db_part (set_player ?n (add_stats d p3) st)"
      by (simp add: db_part_iff set_player_def)
    moreover have "player_ok ?n (add_stats d p3)"
      using list_inv_lookup [OF assms Some] 1 2 3
      by (metis add_ban_step_keep(2) add_level_step_keep(2) add_seen_step_keep(2) player_ok_add_stats)
    moreover have "snd (addPlayer env n d b st) = set_player ?n (add_stats d p3) s3"
      using False Some 1 2 3 by (simp add: addPlayer_def)
    ultimately show ?thesis
      using False by (intro disjI2 exI [of _ "add_stats d p3"]) simp
  qed
qed

lemma db_inv_cong: "db_part a = db_part b \<Longrightarrow> db_inv a = db_inv b"
  by (simp add: db_inv_def db_part_def)

lemma inv_addPlayer: "db_inv st \<Longrightarrow> db_inv (snd (addPlayer env n d b st))"
proof -
  assume inv: "db_inv st"
  from addPlayer_cases [OF db_invD(1) [OF inv], of env n d b] show ?thesis
  proof (elim disjE exE conjE)
    assume "db_part (snd (addPlayer env n d b st)) = db_part st"
    from db_inv_cong [OF this] inv show ?thesis by simp
  next
    fix p
    assume p: "player_ok (to_lower n) p"
      and same: "db_part (snd (addPlayer env n d b st)) = db_part (set_player (to_lower n) p st)"
    from p inv have "db_inv (set_player (to_lower n) p st)" by (simp add: db_inv_def)
    with db_inv_cong [OF same] show ?thesis by simp
  qed
qed

section \<open>Every change is tracked\<close>

text \<open>
  What the file would hold of a player, and the relation between the states around an operation:
  the operation marks at most \<open>k\<close> names, and a player whose persisted record it changes is
  among them or in \<open>X\<close>.
\<close>

definition persisted_at :: "player_state \<Rightarrow> string \<Rightarrow> player_data option" where
  "persisted_at st n = map_option persisted (lookup_player st n)"

definition tracks :: "nat \<Rightarrow> string set \<Rightarrow> player_state \<Rightarrow> player_state \<Rightarrow> bool" where
  "tracks k X st st' \<longleftrightarrow> (\<exists>ms. length ms \<le> k \<and> marked ms st st' \<and>
     (\<forall>n. persisted_at st' n \<noteq> persisted_at st n \<longrightarrow> n \<in> set ms \<union> X))"

lemma tracksI:
  assumes "changes_of st' = fold mark_change ms (changes_of st)" "length ms \<le> k"
    and "\<And>n. n \<notin> set ms \<Longrightarrow> n \<notin> X \<Longrightarrow> lookup_player st' n = lookup_player st n"
  shows "tracks k X st st'"
proof -
  have "n \<in> set ms \<union> X" if "persisted_at st' n \<noteq> persisted_at st n" for n
    using that assms(3) [of n] unfolding persisted_at_def by fastforce
  with assms(1,2) show ?thesis unfolding tracks_def marked_def by blast
qed

lemma tracks_one:
  "changes_of st' = mark_change n (changes_of st) \<Longrightarrow>
   (\<And>k. k \<noteq> n \<Longrightarrow> lookup_player st' k = lookup_player st k) \<Longrightarrow> tracks 1 {} st st'"
  by (rule tracksI [where ms = "[n]"]) simp_all

lemma tracks_trans: "tracks j X a b \<Longrightarrow> tracks k X b c \<Longrightarrow> tracks (j + k) X a c"
proof -
  assume "tracks j X a b" "tracks k X b c"
  then obtain ms ns where "length ms \<le> j" "marked ms a b" "length ns \<le> k" "marked ns b c"
    and ms: "\<And>n. persisted_at b n \<noteq> persisted_at a n \<Longrightarrow> n \<in> set ms \<union> X"
    and ns: "\<And>n. persisted_at c n \<noteq> persisted_at b n \<Longrightarrow> n \<in> set ns \<union> X"
    unfolding tracks_def by metis
  moreover have "n \<in> set (ms @ ns) \<union> X" if "persisted_at c n \<noteq> persisted_at a n" for n
    using that ms [of n] ns [of n] by (cases "persisted_at b n = persisted_at a n") auto
  ultimately show ?thesis
    unfolding tracks_def by (intro exI [of _ "ms @ ns"]) (auto intro: marked_trans)
qed

text \<open>A name marked first covers what the rest does to that player.\<close>

lemma tracks_marked_first:
  assumes "changes_of b = mark_change n (changes_of a)"
    and "\<And>m. m \<noteq> n \<Longrightarrow> lookup_player b m = lookup_player a m" and "tracks k {n} b c"
  shows "tracks (Suc k) {} a c"
proof -
  obtain ms where ms: "length ms \<le> k" "marked ms b c"
    "\<And>m. persisted_at c m \<noteq> persisted_at b m \<Longrightarrow> m \<in> set ms \<union> {n}"
    using assms(3) unfolding tracks_def by metis
  have "m \<in> set (n # ms) \<union> {}" if "persisted_at c m \<noteq> persisted_at a m" for m
    using that ms(3) [of m] assms(2) [of m] by (cases "m = n") (auto simp: persisted_at_def)
  with ms assms(1) show ?thesis
    unfolding tracks_def by (intro exI [of _ "n # ms"]) (auto simp: marked_def)
qed

lemma tracks_weaken: "tracks k X a b \<Longrightarrow> k \<le> k' \<Longrightarrow> X \<subseteq> X' \<Longrightarrow> tracks k' X' a b"
proof -
  assume k: "k \<le> k'" and X: "X \<subseteq> X'" and "tracks k X a b"
  then obtain ms where ms: "length ms \<le> k" "marked ms a b"
    "\<forall>n. persisted_at b n \<noteq> persisted_at a n \<longrightarrow> n \<in> set ms \<union> X"
    unfolding tracks_def by auto
  from ms(1) k have "length ms \<le> k'" by simp
  with ms(2,3) X show ?thesis unfolding tracks_def by blast
qed

lemma tracks_refl [simp]: "tracks k X st st"
  by (rule tracksI [where ms = "[]"]) simp_all

lemma tracks_cong: "db_part b = db_part b' \<Longrightarrow> tracks k X a b = tracks k X a b'"
  using lookup_cong [of b b'] by (simp add: tracks_def marked_def persisted_at_def db_part_def)

lemma tracks_db_part: "db_part b = db_part a \<Longrightarrow> tracks k X a b"
  using tracks_cong [of b a] by simp

lemma tracks_PlayerSetBanReason: "tracks 1 {} st (snd (PlayerSetBanReason now n reason ban st))"
proof (cases "n = '''' \<or> MaxNameLength < length n \<or> MaxBanReasonLength < length reason")
  case True
  then show ?thesis by (simp add: PlayerSetBanReason_def)
next
  case False
  then show ?thesis
    by (intro tracks_one [where n = "to_lower n"])
      (simp_all add: PlayerSetBanReason_def Let_def split: option.split)
qed

lemma tracks_PlayerSetID: "tracks 1 {} st (snd (PlayerSetID env now n d l st))"
proof (cases "d = '''' \<or> n = '''' \<or> MaxNameLength < length n")
  case True
  then show ?thesis by (simp add: PlayerSetID_def)
next
  case False
  then show ?thesis
    by (intro tracks_one [where n = "to_lower n"])
      (simp_all add: PlayerSetID_def Let_def split: option.split)
qed

lemma tracks_UpdateSeen: "tracks 1 {} st (UpdateSeen now n st)"
proof (cases "n = '''' \<or> MaxNameLength < length n \<or> lookup_player st (to_lower n) = None")
  case True
  then show ?thesis by (auto simp: UpdateSeen_def)
next
  case False
  then show ?thesis
    by (intro tracks_one [where n = "to_lower n"]) (auto simp: UpdateSeen_def Let_def)
qed

lemma tracks_playerLevelSet:
  assumes "touch \<or> - 255 < sint l"
  shows "tracks 1 {} st (snd (playerLevelSet env now n l m touch st))"
proof (cases "n = '''' \<or> MaxNameLength < length n \<or> lookup_player st (to_lower n) = None \<and> m")
  case True
  then show ?thesis by (auto simp: playerLevelSet_def)
next
  case ok: False
  show ?thesis
  proof (cases "\<exists>p. lookup_player st (to_lower n) = Some p \<and> p_level p = l \<and> \<not> touch")
    case True
    then show ?thesis using ok assms
      by (intro tracksI [where ms = "[]"]) (auto simp: playerLevelSet_def Let_def)
  next
    case False
    with ok show ?thesis
      by (intro tracksI [where ms = "[to_lower n]"])
        (auto simp: playerLevelSet_def Let_def split: option.split)
  qed
qed

lemma PlayerLevelGet_marks:
  assumes "n \<noteq> ''''" "length n \<le> MaxNameLength" "lookup_player st (to_lower n) \<noteq> None \<or> \<not> m"
  shows "changes_of (snd (PlayerLevelGet now n m st)) = mark_change (to_lower n) (changes_of st)"
    and "k \<noteq> to_lower n \<Longrightarrow> lookup_player (snd (PlayerLevelGet now n m st)) k = lookup_player st k"
  using assms by (auto simp: PlayerLevelGet_def Let_def split: option.split)

lemma tracks_PlayerLevelGet: "tracks 1 {} st (snd (PlayerLevelGet now n m st))"
proof (cases "n = '''' \<or> MaxNameLength < length n \<or> lookup_player st (to_lower n) = None \<and> m")
  case True
  then show ?thesis by (auto simp: PlayerLevelGet_def)
next
  case False
  then show ?thesis
    by (intro tracks_one [where n = "to_lower n"] PlayerLevelGet_marks) auto
qed

text \<open>Promotion reads the level, which marks the player, and otherwise only sends.\<close>

lemma autoPromote_db_part:
  "n \<noteq> '''' \<Longrightarrow> db_part (snd (autoPromote env now n boot ban prev st)) =
     db_part (snd (PlayerLevelGet now n False st))"
  by (cases "PlayerLevelGet now n False st")
    (simp add: autoPromote_def Let_def split: option.split)

lemma autoPromote_empty [simp]: "snd (autoPromote env now '''' boot ban prev st) = st"
  by (simp add: autoPromote_def)

lemma tracks_autoPromote: "tracks 1 {} st (snd (autoPromote env now n boot ban prev st))"
proof (cases "n = ''''")
  case False
  then show ?thesis
    using tracks_cong [OF autoPromote_db_part] tracks_PlayerLevelGet by blast
qed simp

text \<open>The moderator's request, after the level was read: the ban reason, the level, the promotion.\<close>

definition moderate_rest ::
  "server_env \<Rightarrow> int \<Rightarrow> string \<Rightarrow> string \<Rightarrow> int64 \<Rightarrow> int64 \<Rightarrow> string \<Rightarrow> string \<Rightarrow> player_state \<Rightarrow> player_state"
where
  "moderate_rest env now today name level old reason actor st =
     (let reason = (if reason = '''' then ''No reason given'' else reason);
          playerName = (case lookup_player st name of Some p \<Rightarrow> p_name p | None \<Rightarrow> '''');
          st = (if 0 \<le> sint level \<and> old = - 1 then WriteUnban name st else st);
          st = (if level = - 1 \<and> old \<noteq> - 1 then
                  (let reason = reason @ '' -- '' @ actor @ '' '' @ today;
                       st = WriteBan name reason st in
                   case lookup_player st name of
                     Some p \<Rightarrow> set_player name (p\<lparr>p_ban_reason := reason\<rparr>) st
                   | None \<Rightarrow> st)
                else st);
          st = snd (PlayerLevelSet env now playerName level True st)
      in snd (AutoPromoteFromLevel env now playerName False False old st))"

text \<open>The three outcomes of a request with acceptable arguments.\<close>

lemma moderator_rejects:
  assumes "level \<notin> {- 255, - 1, 0, 1, 2, 3, 255} \<or> 500 < length reason \<or> trim_space n = ''''"
  shows "\<exists>e. SetPlayerLevelByModerator env now today n level reason actor w st = (Inl e, st)"
  using assms by (auto simp: SetPlayerLevelByModerator_def Let_def)

lemma moderator_too_long:
  assumes "level \<in> {- 255, - 1, 0, 1, 2, 3, 255}" "length reason \<le> 500"
    "MaxNameLength < length (trim_space n)"
    "list_inv (player_list st)"
  shows "SetPlayerLevelByModerator env now today n level reason actor w st = (Inl PlayerNotFound, st)"
proof -
  let ?n = "to_lower (trim_space n)"
  have "trim_space n \<noteq> []" using assms(3) by auto
  moreover have "PlayerLevelGet now ?n False st = (0, st)"
    using assms(3) by (simp add: PlayerLevelGet_def)
  moreover have "lookup_player st ?n = None"
    using list_inv_lookup [OF assms(4), of ?n] assms(3)
    by (cases "lookup_player st ?n") (auto simp: player_ok_def)
  ultimately show ?thesis
    using assms(1,2) by (simp add: SetPlayerLevelByModerator_def Let_def del: insert_iff)
qed

lemma PlayerLevelGet_finds:
  assumes "n \<noteq> ''''" "length n \<le> MaxNameLength" "to_lower n = n" "list_inv (player_list st)"
  shows "\<exists>p. lookup_player (snd (PlayerLevelGet now n False st)) n = Some p \<and> p_name p = n"
  using assms list_inv_lookup [OF assms(4), of n]
  by (auto simp: PlayerLevelGet_def Let_def player_ok_def split: option.split)

lemma moderator_accepts:
  assumes "level \<in> {- 255, - 1, 0, 1, 2, 3, 255}" "length reason \<le> 500"
    "trim_space n \<noteq> ''''" "length (trim_space n) \<le> MaxNameLength"
    "list_inv (player_list st)"
  shows "SetPlayerLevelByModerator env now today n level reason actor w st =
    (let name = to_lower (trim_space n); (old, st1) = PlayerLevelGet now name False st
     in (Inr (), w (moderate_rest env now today name level old reason actor st1)))"
proof -
  let ?n = "to_lower (trim_space n)"
  obtain old st1 where get: "PlayerLevelGet now ?n False st = (old, st1)" by (cases "PlayerLevelGet now ?n False st")
  obtain p where "lookup_player st1 ?n = Some p" "p_name p = ?n"
    using PlayerLevelGet_finds [of ?n st now] assms(3-5) get by auto
  with assms get show ?thesis
    by (simp add: SetPlayerLevelByModerator_def moderate_rest_def Let_def del: insert_iff)
qed

definition moderate_ban ::
  "string \<Rightarrow> string \<Rightarrow> int64 \<Rightarrow> int64 \<Rightarrow> string \<Rightarrow> string \<Rightarrow> player_state \<Rightarrow> player_state" where
  "moderate_ban today name level old reason actor st =
     (let reason = (if reason = '''' then ''No reason given'' else reason);
          st = (if 0 \<le> sint level \<and> old = - 1 then WriteUnban name st else st)
      in if level = - 1 \<and> old \<noteq> - 1 then
           (let reason = reason @ '' -- '' @ actor @ '' '' @ today;
                st = WriteBan name reason st in
            case lookup_player st name of
              Some p \<Rightarrow> set_player name (p\<lparr>p_ban_reason := reason\<rparr>) st
            | None \<Rightarrow> st)
         else st)"

lemma moderate_rest_eq:
  "moderate_rest env now today name level old reason actor st =
    (let playerName = (case lookup_player st name of Some p \<Rightarrow> p_name p | None \<Rightarrow> '''')
     in snd (autoPromote env now playerName False False (Some old)
          (snd (playerLevelSet env now playerName level True True
            (moderate_ban today name level old reason actor st)))))"
  by (simp add: moderate_rest_def moderate_ban_def Let_def PlayerLevelSet_def AutoPromoteFromLevel_def)

lemma moderate_ban_changes [simp]:
  "changes_of (moderate_ban today name level old reason actor st) = changes_of st"
  by (simp add: moderate_ban_def Let_def split: option.split)

lemma tracks_moderate_ban: "tracks 0 {name} st (moderate_ban today name level old reason actor st)"
  by (rule tracksI [where ms = "[]"])
    (simp_all add: moderate_ban_def Let_def split: option.split)

lemma inv_moderate_ban: "db_inv st \<Longrightarrow> db_inv (moderate_ban today name level old reason actor st)"
  by (auto simp: db_inv_def moderate_ban_def Let_def list_inv_lookup split: option.split)

lemma inv_autoPromote: "db_inv st \<Longrightarrow> db_inv (snd (autoPromote env now n boot ban prev st))"
  by (cases "n = ''''") (simp_all add: db_inv_cong [OF autoPromote_db_part] inv_PlayerLevelGet)

lemma tracks_moderate_rest:
  "tracks 2 {name} st (moderate_rest env now today name level old reason actor st)"
proof -
  let ?a = "moderate_ban today name level old reason actor st"
  let ?who = "case lookup_player st name of Some p \<Rightarrow> p_name p | None \<Rightarrow> ''''"
  let ?b = "snd (playerLevelSet env now ?who level True True ?a)"
  let ?c = "snd (autoPromote env now ?who False False (Some old) ?b)"
  have "tracks 1 {name} ?a ?b" "tracks 1 {name} ?b ?c"
    by (rule tracks_weaken [OF tracks_playerLevelSet], simp_all)
      (rule tracks_weaken [OF tracks_autoPromote], simp_all)
  from tracks_trans [OF tracks_moderate_ban [of name st] tracks_trans [OF this]]
  show ?thesis by (simp add: moderate_rest_eq Let_def numeral_2_eq_2)
qed

lemma inv_moderate_rest:
  "db_inv st \<Longrightarrow> db_inv (moderate_rest env now today name level old reason actor st)"
  unfolding moderate_rest_eq Let_def
  by (intro inv_autoPromote inv_playerLevelSet inv_moderate_ban)

lemma inv_moderator:
  assumes "db_inv st"
  shows "db_inv (snd (SetPlayerLevelByModerator env now today n level reason actor id st))"
proof -
  consider (reject) "level \<notin> {- 255, - 1, 0, 1, 2, 3, 255} \<or> 500 < length reason \<or> trim_space n = ''''"
    | (long) "level \<in> {- 255, - 1, 0, 1, 2, 3, 255}" "length reason \<le> 500" "MaxNameLength < length (trim_space n)"
    | (accept) "level \<in> {- 255, - 1, 0, 1, 2, 3, 255}" "length reason \<le> 500" "trim_space n \<noteq> ''''"
        "length (trim_space n) \<le> MaxNameLength" by linarith
  then show ?thesis
  proof cases
    case reject
    with moderator_rejects [OF this] assms show ?thesis by (metis snd_conv)
  next
    case long
    with moderator_too_long [OF this db_invD(1)] assms show ?thesis by simp
  next
    case accept
    with moderator_accepts [OF this db_invD(1)] assms show ?thesis
      using inv_PlayerLevelGet [OF assms, of now "to_lower (trim_space n)" False]
      by (simp add: Let_def split_def inv_moderate_rest)
  qed
qed

lemma tracks_moderator:
  assumes "db_inv st"
  shows "tracks 3 {} st (snd (SetPlayerLevelByModerator env now today n level reason actor id st))"
proof -
  consider (reject) "level \<notin> {- 255, - 1, 0, 1, 2, 3, 255} \<or> 500 < length reason \<or> trim_space n = ''''"
    | (long) "level \<in> {- 255, - 1, 0, 1, 2, 3, 255}" "length reason \<le> 500" "MaxNameLength < length (trim_space n)"
    | (accept) "level \<in> {- 255, - 1, 0, 1, 2, 3, 255}" "length reason \<le> 500" "trim_space n \<noteq> ''''"
        "length (trim_space n) \<le> MaxNameLength" by linarith
  then show ?thesis
  proof cases
    case reject
    with moderator_rejects [OF this] show ?thesis by (metis snd_conv tracks_refl)
  next
    case long
    with moderator_too_long [OF this db_invD(1)] assms show ?thesis by simp
  next
    case accept
    let ?n = "to_lower (trim_space n)"
    have "tracks (Suc 2) {} st (moderate_rest env now today ?n level
        (fst (PlayerLevelGet now ?n False st)) reason actor (snd (PlayerLevelGet now ?n False st)))"
      using accept(3,4)
      by (intro tracks_marked_first [OF _ _ tracks_moderate_rest]) (simp_all add: PlayerLevelGet_marks)
    with moderator_accepts [OF accept db_invD(1)] assms show ?thesis
      by (simp add: Let_def split_def numeral_3_eq_3 numeral_2_eq_2)
  qed
qed

section \<open>Loading\<close>

text \<open>One turn of the loop, in terms of the two things it can do to the memory.\<close>

lemma load_kept_st:
  "\<exists>d' b. l_st (load_kept env boot minim clear pname d prev ls) = snd (addPlayer env pname d' b (l_st ls))"
  by (auto simp: load_kept_def Let_def note_changed_def split_def)

lemma load_player_st:
  "l_st (load_player env boot minim clear pname ls) = l_st ls \<or>
   db_part (l_st (load_player env boot minim clear pname ls)) =
     db_part ((l_st ls)\<lparr>player_list := gm_del (player_list (l_st ls)) pname\<rparr>) \<or>
   (\<exists>d b. l_st (load_player env boot minim clear pname ls) = snd (addPlayer env pname d b (l_st ls)))"
proof -
  have "l_st (note_changed pname ls) = l_st ls" by (simp add: note_changed_def)
  then show ?thesis
    using load_kept_st [of env boot minim clear pname _ _ ls]
      load_kept_st [of env boot minim clear pname _ _ "note_changed pname ls"]
    by (auto simp: load_player_def Let_def remove_loaded_def note_changed_def
        split: option.split)
qed

lemma addPlayer_frame:
  assumes "list_inv (player_list st)"
  shows "changes_of (snd (addPlayer env n d b st)) = changes_of st"
    and "k \<noteq> to_lower n \<Longrightarrow> lookup_player (snd (addPlayer env n d b st)) k = lookup_player st k"
proof -
  let ?st = "snd (addPlayer env n d b st)"
  have same: "changes_of s = changes_of t \<and> lookup_player s = lookup_player t"
    if "db_part s = db_part t" for s t
    using db_part_fields(2) [OF that] lookup_cong [OF db_part_fields(1) [OF that]] by (rule conjI)
  from addPlayer_cases [OF assms, of env n d b]
  have "changes_of ?st = changes_of st \<and> (k \<noteq> to_lower n \<longrightarrow> lookup_player ?st k = lookup_player st k)"
  proof (elim disjE exE conjE)
    assume "db_part ?st = db_part st"
    from same [OF this] show ?thesis by simp
  next
    fix p
    assume "db_part ?st = db_part (set_player (to_lower n) p st)"
    from same [OF this] show ?thesis by simp
  qed
  then show "changes_of ?st = changes_of st"
    "k \<noteq> to_lower n \<Longrightarrow> lookup_player ?st k = lookup_player st k" by blast+
qed

lemma load_player_frame:
  assumes "db_inv (l_st ls)"
  shows "db_inv (l_st (load_player env boot minim clear pname ls))"
    and "changes_of (l_st (load_player env boot minim clear pname ls)) = changes_of (l_st ls)"
proof -
  let ?ls = "load_player env boot minim clear pname ls"
  let ?del = "(l_st ls)\<lparr>player_list := gm_del (player_list (l_st ls)) pname\<rparr>"
  have del: "db_inv ?del" "changes_of ?del = changes_of (l_st ls)"
    using assms by (simp_all add: db_inv_def changes_of_def)
  from load_player_st [of env boot minim clear pname ls]
  have "db_inv (l_st ?ls) \<and> changes_of (l_st ?ls) = changes_of (l_st ls)"
  proof (elim disjE exE)
    assume "db_part (l_st ?ls) = db_part ?del"
    then show ?thesis using del db_inv_cong db_part_fields(2) by metis
  qed (use assms inv_addPlayer addPlayer_frame(1) [OF db_invD(1) [OF assms]] in auto)
  then show "db_inv (l_st ?ls)" "changes_of (l_st ?ls) = changes_of (l_st ls)" by blast+
qed

lemma load_loop_frame:
  assumes "db_inv (l_st ls)"
  shows "db_inv (l_st (fold (load_player env boot minim clear) ns ls)) \<and>
    changes_of (l_st (fold (load_player env boot minim clear) ns ls)) = changes_of (l_st ls)"
  using assms
proof (induction ns arbitrary: ls)
  case (Cons n ns)
  from load_player_frame [OF Cons.prems] Cons.IH [of "load_player env boot minim clear n ls"]
  show ?case by simp
qed simp

lemma fold_dirty:
  "player_list (fold SetPlayerListDirty ns st) = player_list st"
  "changes_of (fold SetPlayerListDirty ns st) = fold mark_change ns (changes_of st)"
  by (induction ns arbitrary: st) simp_all

lemma inv_fold_dirty: "db_inv st \<Longrightarrow> db_inv (fold SetPlayerListDirty ns st)"
  by (simp add: db_inv_def fold_dirty)

lemma inv_LoadPlayers: "db_inv st \<Longrightarrow> db_inv (LoadPlayers L env boot minim clear file st)"
proof -
  assume inv: "db_inv st"
  have "db_inv (fold SetPlayerListDirty ms (fold (sync_loaded env temp) cs
      (l_st (fold (load_player env boot minim clear) ns
        \<lparr>l_temp = t, l_st = st, l_ban_count = 0, l_do_ban = True, l_changed = [], l_levels = []\<rparr>))))"
    for ms temp cs ns t
    using load_loop_frame [of "\<lparr>l_temp = t, l_st = st, l_ban_count = 0, l_do_ban = True,
        l_changed = [], l_levels = []\<rparr>"] inv
    by (intro inv_fold_dirty) (simp add: db_inv_cong [OF db_part_sync_all])
  with inv show ?thesis
    by (simp add: LoadPlayers_def Let_def split_def split: option.split sum.split)
qed

text \<open>A live reload passes over the pending names.\<close>

lemma load_player_pending:
  assumes "db_inv (l_st ls)" and "playerChangePending n (l_st ls)" and "to_lower n = n"
  shows "lookup_player (l_st (load_player env False False False pname ls)) n = lookup_player (l_st ls) n"
proof (cases "to_lower pname = n")
  case True
  with assms(2,3) have "playerChangePending pname (l_st ls)"
    by (simp add: playerChangePending_def)
  then show ?thesis by (simp add: load_player_def split: option.split)
next
  case False
  have "\<exists>d b. l_st (load_player env False False False pname ls) = snd (addPlayer env pname d b (l_st ls))
      \<or> l_st (load_player env False False False pname ls) = l_st ls"
    using load_kept_st [of env False False False pname _ _ ls]
    by (auto simp: load_player_def Let_def split: option.split)
  then show ?thesis
    using addPlayer_frame(2) [OF db_invD(1) [OF assms(1)]] False by metis
qed

lemma load_loop_pending:
  assumes "db_inv (l_st ls)" and "playerChangePending n (l_st ls)" and "to_lower n = n"
  shows "lookup_player (l_st (fold (load_player env False False False) ns ls)) n = lookup_player (l_st ls) n"
  using assms
proof (induction ns arbitrary: ls)
  case (Cons m ns)
  let ?ls = "load_player env False False False m ls"
  have "db_inv (l_st ?ls)" by (rule load_player_frame(1) [OF Cons.prems(1)])
  moreover have "playerChangePending n (l_st ?ls)"
    using Cons.prems load_player_frame(2) [OF Cons.prems(1)]
    by (simp add: playerChangePending_def change_versions_snd)
  ultimately show ?case
    using Cons.IH [of ?ls] load_player_pending [OF Cons.prems] Cons.prems(3) by simp
qed simp

section \<open>Writing\<close>

lemma completePlayerChanges_list [simp]: "player_list (completePlayerChanges vs st) = player_list st"
  by (induction vs st rule: completePlayerChanges.induct) simp_all

lemma completePlayerChanges_get:
  "distinct (map fst vs) \<Longrightarrow> gm_get (change_versions (completePlayerChanges vs st)) n =
     (if map_of vs n = gm_get (change_versions st) n then None
      else gm_get (change_versions st) n)"
proof (induction vs st rule: completePlayerChanges.induct)
  case (2 pname version rest st)
  then have "map_of rest pname = None" by (simp add: map_of_eq_None_iff)
  with 2 show ?case by auto
qed auto

lemma completePlayerChanges_ok:
  "gm_ok (change_versions st) \<Longrightarrow> gm_ok (change_versions (completePlayerChanges vs st))"
  by (induction vs st rule: completePlayerChanges.induct) simp_all

lemma inv_complete:
  assumes "db_inv st" "distinct (map fst vs)"
  shows "db_inv (completePlayerChanges vs st)"
  using assms completePlayerChanges_get [OF assms(2), of st] completePlayerChanges_ok [of st vs]
  by (auto simp: db_inv_def changes_inv_def changes_of_def split: if_splits)

lemma inv_WritePlayers: "db_inv st \<Longrightarrow> db_inv (fst (WritePlayers L format io id (st, file)))"
  using inv_complete [of st "change_versions st"] db_inv_cong [OF db_part_signal, of st]
  by (auto simp: WritePlayers_def snapshotPlayerChanges_def db_inv_def changes_inv_def gm_ok_def
      gm_keys_def changes_of_def split: sum.split)

lemma count_minutes_get:
  "gm_get (player_list (snd (count_minutes now st))) n = map_option (map_option (\<lambda>p. if seen_lately now p
     then p\<lparr>p_minutes := p_minutes p + 1\<rparr> else p)) (gm_get (player_list st) n)"
proof -
  have "map_of (map (\<lambda>(k, v). (k, f v)) xs) n = map_option f (map_of xs n)" for f :: "player_data option \<Rightarrow> player_data option" and xs
    by (induction xs) auto
  then show ?thesis by (simp add: count_minutes_def gm_get_def)
qed

lemma inv_count_minutes: "db_inv st \<Longrightarrow> db_inv (snd (count_minutes now st))"
proof -
  assume inv: "db_inv st"
  have "gm_keys (player_list (snd (count_minutes now st))) = gm_keys (player_list st)"
    by (simp add: count_minutes_def gm_keys_def split_def comp_def)
  then have "gm_ok (player_list (snd (count_minutes now st)))" using inv by (simp add: db_inv_def list_inv_def gm_ok_def)
  moreover have "\<exists>p. v = Some p \<and> player_ok n p" if "gm_get (player_list (snd (count_minutes now st))) n = Some v" for n v
  proof -
    from that obtain w where w: "gm_get (player_list st) n = Some w"
      "v = map_option (\<lambda>p. if seen_lately now p then p\<lparr>p_minutes := p_minutes p + 1\<rparr> else p) w"
      by (auto simp: count_minutes_get)
    then obtain p where "w = Some p" "player_ok n p" using inv by (auto simp: db_inv_def list_inv_def)
    then show ?thesis using w(2) by (auto simp: player_ok_def)
  qed
  moreover have "changes_of (snd (count_minutes now st)) = changes_of st" by (simp add: count_minutes_def changes_of_def)
  ultimately show ?thesis using inv by (simp add: db_inv_def list_inv_def)
qed

lemma inv_mark: "db_inv st \<Longrightarrow> db_inv (SetPlayerStatsDirty n st) \<and> db_inv (SetPlayerListDirty n st)"
  by (simp add: db_inv_def)

lemma inv_do_op: "db_inv st \<Longrightarrow> db_inv (do_op L env op st)"
  by (cases op) (simp_all add: inv_PlayerSetBanReason inv_PlayerSetID inv_UpdateSeen
      PlayerLevelSet_def PlayerLevelSetFromGame_def inv_playerLevelSet inv_PlayerLevelGet
      inv_autoPromote inv_moderator inv_LoadPlayers inv_WritePlayers inv_count_minutes inv_mark)

end
