(* ===== verification/Player_Properties.thy ===== *)
theory Player_Properties
  imports Player_Facts
begin

text \<open>
  The properties of the player database, with the runs that witness them.
\<close>

section \<open>Reachable states\<close>

text \<open>An instance starts with no players and no changes; every operation of \<open>do_op\<close>, under any
  server state, is a step.\<close>

definition db_start :: "player_state \<Rightarrow> bool" where
  "db_start st \<longleftrightarrow> player_list st = [] \<and> change_versions st = []"

inductive db_step :: "db_libs \<Rightarrow> player_state \<Rightarrow> player_state \<Rightarrow> bool" for L :: db_libs where
  db_step_op: "db_step L st (do_op L env op st)"

inductive_cases db_stepE: "db_step L st st'"

interpretation player_db: step_system db_start "db_step L" db_inv for L
proof unfold_locales
  show "db_inv st" if "db_start st" for st
    using that by (simp add: db_start_def db_inv_def list_inv_def changes_inv_def changes_of_def)
  show "db_inv st'" if "db_inv st" "db_step L st st'" for st st'
    using that by (auto elim: db_stepE intro: inv_do_op)
qed

text \<open>
  C2.  In every reachable state the database is well formed: names are distinct, there is no nil
  record, every record is stored under its own name, which is lower-case, not empty and, when it
  consists of ASCII characters, at most 64 bytes long; and the pending changes have distinct,
  non-empty, trimmed and lower-case names.  (Lower-casing is modelled for ASCII; outside it Go's
  function can lengthen a name, so that the bound says nothing there.)
\<close>

theorem player_db_invariant:
  assumes "reachable_from db_start (db_step L) st"
  shows "gm_ok (player_list st) \<and>
    (\<forall>n v. gm_get (player_list st) n = Some v \<longrightarrow> (\<exists>p. v = Some p \<and> p_name p = n \<and>
       to_lower n = n \<and> n \<noteq> '''' \<and>
       ((\<forall>c\<in>set n. (of_char c :: nat) < 128) \<longrightarrow> length n \<le> MaxNameLength))) \<and>
    distinct (gm_keys (change_versions st)) \<and>
    (\<forall>n\<in>set (gm_keys (change_versions st)). n \<noteq> '''' \<and> trim_space n = n \<and> to_lower n = n)"
proof -
  have inv: "db_inv st" by (rule player_db.inv_reachable [OF assms])
  have "n \<noteq> '''' \<and> to_lower n = n \<and> trim_space n = n" if "n \<in> set (gm_keys (change_versions st))" for n
    using inv that gm_get_None_iff [of "change_versions st" n]
    by (auto simp: db_inv_def changes_inv_def changes_of_def)
  moreover have "gm_ok (player_list st)" "gm_ok (change_versions st)"
    using inv by (simp_all add: db_inv_def list_inv_def changes_inv_def changes_of_def)
  moreover have "\<exists>p. v = Some p \<and> player_ok n p" if "gm_get (player_list st) n = Some v" for n v
    using inv that by (simp add: db_inv_def list_inv_def)
  ultimately show ?thesis unfolding gm_ok_def player_ok_def by blast
qed

definition empty_state :: player_state where
  "empty_state = \<lparr>player_list = [], change_next = 0, change_versions = [], list_dirty = False,
     list_dirty_signal = False, stats_dirty = False, last_ban_name = '''', sent = []\<rparr>"

definition quiet_env :: server_env where
  "quiet_env = \<lparr>factorio_up = True, opt_custom_whitelist = False, opt_regulars_only = True,
     opt_members_only = False, online_players = [''Bob''], guild_roles = None, role_new = '''',
     role_member = '''', role_regular = '''', role_veteran = '''', role_moderator = ''''\<rparr>"

definition bob_joined :: player_state where
  "bob_joined = do_op example_libs quiet_env (OpLevel 1600000000 ''Bob'' 2 False) empty_state"

lemma bob_reachable: "reachable_from db_start (db_step example_libs) bob_joined"
proof -
  have "reachable_from db_start (db_step example_libs) empty_state"
    by (rule reach_start) (simp add: db_start_def empty_state_def)
  then show ?thesis
    unfolding bob_joined_def by (rule reach_step) (rule db_step_op)
qed

lemma eval_lower: "to_lower ''Bob'' = ''bob''" "to_lower ''bob'' = ''bob''"
  by (simp_all add: to_lower_def to_lower_char_def Let_def char_of_def bit_0)

lemma eval_trim: "trim_space ''bob'' = ''bob''"
  by (simp add: trim_space_def is_space_def Let_def)

lemmas eval_names = eval_lower eval_trim

lemmas eval_ops = eval_names MaxNameLength_def Let_def

lemma bob_joined_lookup:
  "gm_get (player_list bob_joined) ''bob'' \<noteq> None"
  by (simp add: bob_joined_def PlayerLevelSet_def playerLevelSet_def empty_state_def lookup_player_def
      eval_ops)

lemma bob_joined_pending: "gm_keys (change_versions bob_joined) \<noteq> []"
  by (simp add: bob_joined_def PlayerLevelSet_def playerLevelSet_def empty_state_def lookup_player_def
      gm_keys_def gm_put_def SetPlayerListDirty_def signalPlayerListDirty_def markPlayerDirty_def set_player_def eval_ops)

theorem player_db_invariant_witness:
  "(\<exists>p. gm_get (player_list bob_joined) ''bob'' = Some (Some p) \<and> p_name p = ''bob'') \<and>
    (\<exists>n. n \<in> set (gm_keys (change_versions bob_joined)) \<and> to_lower n = n)"
proof -
  note P = player_db_invariant [OF bob_reachable]
  have "\<exists>p. gm_get (player_list bob_joined) ''bob'' = Some (Some p) \<and> p_name p = ''bob''"
    using P bob_joined_lookup by blast
  moreover obtain n where "n \<in> set (gm_keys (change_versions bob_joined))"
    using bob_joined_pending by (cases "gm_keys (change_versions bob_joined)") auto
  ultimately show ?thesis using P by blast
qed

section \<open>Changes are saved\<close>

text \<open>The operations that change a player on behalf of the game, a user or a moderator.  A level at
  or below -255 from the game is left out: it clears the Discord id of an unchanged player
  without a mark.  So are the minutes of play time, which are marked in a step of their own.\<close>

fun edits_players :: "player_op \<Rightarrow> bool" where
  "edits_players (OpLoad boot minim clear file) = False"
| "edits_players (OpWrite format io file) = False"
| "edits_players (OpMinutes now) = False"
| "edits_players (OpGameLevel now n level) = (- 255 < sint level)"
| "edits_players _ = True"

lemma tracks_mark: "tracks 1 {} st (SetPlayerStatsDirty n st)" "tracks 1 {} st (SetPlayerListDirty n st)"
  by (rule tracks_one [where n = n]; simp)+

lemma tracks_edit:
  assumes "edits_players op" "db_inv st"
  shows "tracks 3 {} st (do_op L env op st)"
proof -
  note w = tracks_weaken [where k = 1 and k' = 3 and X = "{}" and X' = "{}"]
  show ?thesis
    using assms
    by (cases op) (simp_all add: tracks_moderator PlayerLevelSet_def PlayerLevelSetFromGame_def
        w [OF tracks_PlayerSetBanReason] w [OF tracks_PlayerSetID] w [OF tracks_UpdateSeen]
        w [OF tracks_playerLevelSet] w [OF tracks_PlayerLevelGet] w [OF tracks_autoPromote]
        w [OF tracks_mark(1)] w [OF tracks_mark(2)])
qed

text \<open>The counter has not wrapped: no version is above it.\<close>

definition no_wrap :: "player_state \<Rightarrow> bool" where
  "no_wrap st \<longleftrightarrow> (\<forall>n v. gm_get (change_versions st) n = Some v \<longrightarrow> v \<le> change_next st)
     \<and> unat (change_next st) + 3 < 2 ^ 64"

lemma tracked_version:
  assumes "tracks 3 {} st st'" "no_wrap st" "persisted_at st' n \<noteq> persisted_at st n"
    "n \<noteq> ''''" "to_lower n = n" "trim_space n = n"
  shows "\<exists>v. gm_get (change_versions st') n = Some v \<and> change_next st < v"
proof -
  obtain ms where ms: "length ms \<le> 3" "marked ms st st'" "n \<in> set ms"
    using assms(1,3) unfolding tracks_def by auto
  have "unat (fst (changes_of st)) + length ms < 2 ^ 64"
    using ms(1) assms(2) by (simp add: no_wrap_def changes_of_def)
  from fold_mark_fresh [OF this ms(3), of n] assms(4-6)
  have "\<exists>v. gm_get (snd (fold mark_change ms (changes_of st))) n = Some v \<and> fst (changes_of st) < v"
    by simp
  then show ?thesis
    unfolding ms(2) [unfolded marked_def, symmetric] by (simp add: changes_of_def)
qed

text \<open>
  Nothing that changes what would be saved about a player goes unnoticed: after any
  operation of the game, the chat or a moderator, a player whose persisted record differs is in
  the change set with a fresh version.
\<close>

theorem change_is_marked:
  assumes "edits_players op" and "db_inv st" and "no_wrap st"
    and "n \<noteq> ''''" and "to_lower n = n" and "trim_space n = n"
    and "persisted_at (do_op L env op st) n \<noteq> persisted_at st n"
  shows "playerChangePending n (do_op L env op st) \<and>
    (\<exists>v. gm_get (change_versions (do_op L env op st)) n = Some v \<and> change_next st < v)"
  using tracked_version [OF tracks_edit [OF assms(1,2)] assms(3) assms(7,4-6)] assms(5)
  by (auto simp: playerChangePending_def)

lemma empty_state_inv: "db_inv empty_state" "no_wrap empty_state"
  by (simp_all add: empty_state_def db_inv_def list_inv_def changes_inv_def changes_of_def no_wrap_def)

lemma bob_changed: "persisted_at (do_op L quiet_env (OpLevel 1600000000 ''Bob'' 2 False) empty_state) ''bob''
    \<noteq> persisted_at empty_state ''bob''"
  by (simp add: PlayerLevelSet_def playerLevelSet_def empty_state_def lookup_player_def
      persisted_at_def eval_ops)

theorem change_is_marked_witness: "playerChangePending ''bob''
    (do_op example_libs quiet_env (OpLevel 1600000000 ''Bob'' 2 False) empty_state)"
  using change_is_marked [OF _ empty_state_inv _ _ _ bob_changed] by (simp add: eval_names)

text \<open>
  C22.  No edit is lost to a concurrent write: when one of the operations of \<open>edits_players\<close>
  changes the saved part of a player after the snapshot of a write was taken, the player is still
  pending when that write has finished, whether the write succeeds or fails.  The operations are
  those of chat, moderators and the game, without the load, the write itself, the minutes of play
  time (marked in a later step) and a level of -255 or below sent by the game; the player's name is not empty, trimmed and lower-case, and the
  64-bit version counter is not about to wrap.
\<close>

theorem concurrent_change_survives_write:
  assumes "edits_players op" and "db_inv st" and "no_wrap st"
    and "n \<noteq> ''''" and "to_lower n = n" and "trim_space n = n"
    and "persisted_at (do_op L env op st) n \<noteq> persisted_at st n"
  shows "playerChangePending n (fst (WritePlayers L format io (do_op L env op) (st, file)))"
proof -
  obtain v where v: "gm_get (change_versions (do_op L env op st)) n = Some v" "change_next st < v"
    using tracked_version [OF tracks_edit [OF assms(1,2)] assms(3) assms(7,4-6)] by blast
  have old: "map_of (change_versions st) n \<noteq> Some v"
    using assms(3) v(2) unfolding no_wrap_def gm_get_def by (metis linorder_not_less)
  have "distinct (map fst (change_versions st))"
    using assms(2) by (simp add: db_inv_def changes_inv_def changes_of_def gm_ok_def gm_keys_def)
  from completePlayerChanges_get [OF this, of "do_op L env op st" n] v(1) old
  have "gm_get (change_versions (completePlayerChanges (change_versions st) (do_op L env op st))) n = Some v"
    by simp
  with v(1) assms(5) show ?thesis
    by (auto simp: WritePlayers_def snapshotPlayerChanges_def playerChangePending_def split: sum.split)
qed


theorem concurrent_change_survives_write_witness:
  "playerChangePending ''bob'' (fst (WritePlayers example_libs ''binary''
     \<lparr>lock_acquired = True, read_ok = True, write_ok = True\<rparr>
     (do_op example_libs quiet_env (OpLevel 1600000000 ''Bob'' 2 False)) (empty_state, None)))"
  using concurrent_change_survives_write [OF _ empty_state_inv _ _ _ bob_changed]
  by (simp add: eval_names)

section \<open>What a write leaves in the file\<close>

lemma merge_as_changes:
  "mergePlayerChanges players cs = gm.changes players (map (\<lambda>(n, p). (n, map_option Some p)) cs)"
proof (induction players cs rule: mergePlayerChanges.induct)
  case (2 players pname player rest)
  then show ?case by (cases player) (simp_all add: gm.changes_def gm.change_def)
qed (simp add: gm.changes_def)

lemma map_of_map_key: "map_of (map (\<lambda>(k, v). (k, f k v)) xs) n = map_option (f n) (map_of xs n)"
  by (induction xs) auto

text \<open>The merged map: the pending players as they are in memory, all others as in the file.\<close>

lemma merge_get:
  assumes "gm_ok (change_versions st)"
  shows "gm_get (mergePlayerChanges players (fst (snapshotPlayerChanges st))) n =
    (if gm_get (change_versions st) n \<noteq> None then map_option Some (lookup_player st n)
     else gm_get players n)"
proof -
  let ?cs = "map (\<lambda>(n, p). (n, map_option Some p)) (fst (snapshotPlayerChanges st))"
  have cs: "?cs = map (\<lambda>(n, v). (n, map_option Some (lookup_player st n))) (change_versions st)"
    by (simp add: snapshotPlayerChanges_def split_def)
  then have keys: "map fst ?cs = gm_keys (change_versions st)"
    by (simp add: gm_keys_def split_def)
  then have "distinct (map fst ?cs)" using assms by (simp add: gm_ok_def)
  from gm.get_changes [OF this, of players n]
  have "gm_get (mergePlayerChanges players (fst (snapshotPlayerChanges st))) n =
      (case map_of ?cs n of None \<Rightarrow> gm_get players n | Some c \<Rightarrow> c)"
    by (simp add: merge_as_changes)
  moreover have "map_of ?cs n = map_option (\<lambda>v. map_option Some (lookup_player st n))
      (gm_get (change_versions st) n)"
    unfolding cs gm_get_def by (rule map_of_map_key)
  ultimately show ?thesis by (simp split: option.split)
qed

lemma merge_ok: "gm_ok players \<Longrightarrow> gm_ok (mergePlayerChanges players cs)"
  by (simp add: merge_as_changes gm.ok_changes)

text \<open>
  C5.  A write in the binary format merges: when it succeeds and the file it read had no player of
  empty name, the new file holds, for every player pending at the snapshot, the saved part of the
  record in memory (or no record if the player was removed), and for every other player exactly
  what the file held before, whichever instance wrote it.  The compressor is assumed to be undone
  by its decompressor.
\<close>

theorem write_merges_changes:
  assumes "db_inv st" and "change_versions st \<noteq> []"
    and "(case file of None \<Rightarrow> Inr ([], None) | Some d \<Rightarrow> decodePlayerDatabase L d) = Inr (players, fmt)"
    and "gm_ok players" and "gm_get players '''' = None"
    and "write_database L format io (fst (snapshotPlayerChanges st)) file = Inr data"
    and "normalizePlayerDBFormat format = Inr FormatBinary"
    and "\<And>p. zstd_decode_all L (zstd_encode_all L p) = Some p"
  shows "snd (WritePlayers L format io other (st, file)) = Some data \<and>
    (\<exists>saved. decodePlayerDatabase L data = Inr (saved, Some FormatBinary) \<and>
      (\<forall>n. gm_get saved n =
        (if gm_get (change_versions st) n \<noteq> None then map_option Some (persisted_at st n)
         else map_option (map_option persisted) (gm_get players n))))"
proof -
  let ?merged = "mergePlayerChanges players (fst (snapshotPlayerChanges st))"
  have inv: "gm_ok (change_versions st)" "gm_get (change_versions st) '''' = None"
    using assms(1) by (auto simp: db_inv_def changes_inv_def changes_of_def)
  note get = merge_get [OF inv(1), of players]
  have "encodeBinaryPlayerDatabase L ?merged = Inr data"
    using assms(3,6,7) by (auto simp: write_database_def encodePlayerDatabase_def
        decodePlayerDatabase_def split: if_splits sum.splits option.splits)
  then obtain saved where "decodePlayerDatabase L data = Inr (saved, Some FormatBinary)"
    "\<forall>n. gm_get saved n = map_option (map_option persisted) (gm_get ?merged n)"
    using encoded_database_reads_back [OF _ merge_ok [OF assms(4)] _ assms(8)] get inv(2) assms(5)
    by force
  moreover have "map_option (map_option persisted) (map_option Some (lookup_player st n)) =
      map_option Some (persisted_at st n)" for n
    by (cases "lookup_player st n") (simp_all add: persisted_at_def)
  moreover have "snd (WritePlayers L format io other (st, file)) = Some data"
    using assms(2,6) by (simp add: WritePlayers_def snapshotPlayerChanges_def)
  ultimately show ?thesis by (auto simp: get)
qed

text \<open>A shared file in the JSON format with two players, and bob's pending promotion.\<close>

definition shared_libs :: db_libs where
  "shared_libs = example_libs\<lparr>sonic_unmarshal := (\<lambda>_. Some
     [(''bob'', Some (zero_player\<lparr>p_level := 1\<rparr>)), (''alice'', Some (zero_player\<lparr>p_level := 3\<rparr>))])\<rparr>"

definition shared_file :: "byte list" where "shared_file = [123, 125]"

definition bob_pending :: player_state where
  "bob_pending = empty_state\<lparr>
     player_list := [(''bob'', Some (zero_player\<lparr>p_name := ''bob'', p_level := 2\<rparr>))],
     change_next := 1, change_versions := [(''bob'', 1)]\<rparr>"

lemma shared_decode:
  "decodePlayerDatabase shared_libs shared_file = Inr
     ([(''bob'', Some (zero_player\<lparr>p_level := 1\<rparr>)), (''alice'', Some (zero_player\<lparr>p_level := 3\<rparr>))],
      Some FormatJSON)"
  by (simp add: decodePlayerDatabase_def shared_file_def shared_libs_def playerDBMagic_def)

lemma bob_pending_inv: "db_inv bob_pending" "no_wrap bob_pending"
  by (simp_all add: bob_pending_def empty_state_def db_inv_def list_inv_def changes_inv_def
      changes_of_def no_wrap_def gm_get_def gm_ok_def gm_keys_def player_ok_def zero_player_def eval_ops)

lemma shared_merge: "mergePlayerChanges
    [(''bob'', Some (zero_player\<lparr>p_level := 1\<rparr>)), (''alice'', Some (zero_player\<lparr>p_level := 3\<rparr>))]
    (fst (snapshotPlayerChanges bob_pending)) =
  [(''bob'', Some (zero_player\<lparr>p_name := ''bob'', p_level := 2\<rparr>)), (''alice'', Some (zero_player\<lparr>p_level := 3\<rparr>))]"
  by (simp add: snapshotPlayerChanges_def bob_pending_def lookup_player_def gm_get_def gm_put_def)

lemma shared_encodes: "\<exists>data. encodeBinaryPlayerDatabase shared_libs
  [(''bob'', Some (zero_player\<lparr>p_name := ''bob'', p_level := 2\<rparr>)), (''alice'', Some (zero_player\<lparr>p_level := 3\<rparr>))]
  = Inr data"
proof -
  let ?m = "[(''bob'', Some (zero_player\<lparr>p_name := ''bob'', p_level := 2\<rparr>)),
    (''alice'', Some (zero_player\<lparr>p_level := 3\<rparr>))]"
  have keys: "sort (gm_keys ?m) = [''alice'', ''bob'']" by (simp add: gm_keys_def)
  have "encode_records ?m [''alice'', ''bob''] (put_uvarint 2) =
      Inr (put_uvarint 2 @ encoded_of ?m [''alice'', ''bob''])"
  proof (rule encode_records_small)
    show "length (put_uvarint 2) + length (encoded_of ?m [''alice'', ''bob'']) \<le> maxPlayerDBPayload"
      using length_put_uvarint_le_10 [of 2]
        length_record_bytes_le [of "''alice''" "the (the (gm_get ?m ''alice''))"]
        length_record_bytes_le [of "''bob''" "the (the (gm_get ?m ''bob''))"]
      by (simp add: encoded_of_def db_limits gm_get_def zero_player_def)
  qed (auto simp: gm_get_def zero_player_def db_limits)
  then have "\<not> isl (encode_payload ?m)"
    using keys by (simp add: encode_payload_def Let_def db_limits del: encode_records.simps)
  then show ?thesis
    by (auto simp: encodeBinaryPlayerDatabase_def shared_libs_def example_libs_def split: sum.splits)
qed

lemma binary_format: "normalizePlayerDBFormat '''' = Inr FormatBinary"
  by (simp add: normalizePlayerDBFormat_def trim_space_def to_lower_def Let_def)

theorem write_merges_changes_witness:
  "\<exists>data saved. decodePlayerDatabase shared_libs data = Inr (saved, Some FormatBinary) \<and>
    gm_get saved ''bob'' = Some (Some (zero_player\<lparr>p_level := 2\<rparr>)) \<and>
    gm_get saved ''alice'' = Some (Some (zero_player\<lparr>p_level := 3\<rparr>))"
proof -
  let ?io = "\<lparr>lock_acquired = True, read_ok = True, write_ok = True\<rparr>"
  let ?players = "[(''bob'', Some (zero_player\<lparr>p_level := 1\<rparr>)), (''alice'', Some (zero_player\<lparr>p_level := 3\<rparr>))]"
  obtain data where data: "write_database shared_libs '''' ?io
      (fst (snapshotPlayerChanges bob_pending)) (Some shared_file) = Inr data"
    using shared_encodes
    by (auto simp: write_database_def shared_file_def shared_decode [unfolded shared_file_def]
        shared_merge encodePlayerDatabase_def binary_format)
  have base: "(case Some shared_file of None \<Rightarrow> Inr ([], None)
      | Some d \<Rightarrow> decodePlayerDatabase shared_libs d) = Inr (?players, Some FormatJSON)"
    by (simp add: shared_decode)
  have fine: "change_versions bob_pending \<noteq> []" "gm_ok ?players" "gm_get ?players '''' = None"
    by (simp_all add: bob_pending_def gm_ok_def gm_keys_def gm_get_def)
  have inverse: "zstd_decode_all shared_libs (zstd_encode_all shared_libs p) = Some p" for p
    by (simp add: shared_libs_def example_libs_def)
  obtain saved where decoded: "decodePlayerDatabase shared_libs data = Inr (saved, Some FormatBinary)"
    and get: "\<forall>n. gm_get saved n =
        (if gm_get (change_versions bob_pending) n \<noteq> None then map_option Some (persisted_at bob_pending n)
         else map_option (map_option persisted) (gm_get ?players n))"
    using write_merges_changes [OF bob_pending_inv(1) fine(1) base fine(2,3) data binary_format inverse]
    by blast
  have "gm_get saved ''bob'' = Some (Some (zero_player\<lparr>p_level := 2\<rparr>))"
    "gm_get saved ''alice'' = Some (Some (zero_player\<lparr>p_level := 3\<rparr>))"
    using get [rule_format, of "''bob''"] get [rule_format, of "''alice''"]
    by (simp_all add: bob_pending_def persisted_at_def lookup_player_def gm_get_def persisted_def
        zero_player_def)
  with decoded show ?thesis by blast
qed

text \<open>
  A write that fails at any stage -- the lock, the read, an undecodable file, the encoding or
  the replacement -- leaves the file as it was, keeps every pending change and asks for another
  attempt.
\<close>

theorem failed_write_retries:
  assumes "write_database L format io (fst (snapshotPlayerChanges st)) file = Inl e"
    and "change_versions st \<noteq> []"
  shows "WritePlayers L format io id (st, file) = (signalPlayerListDirty st, file) \<and>
    change_versions (fst (WritePlayers L format io id (st, file))) = change_versions st \<and>
    list_dirty_signal (fst (WritePlayers L format io id (st, file)))"
  using assms
  by (simp add: WritePlayers_def snapshotPlayerChanges_def signalPlayerListDirty_def)

theorem failed_write_retries_witness:
  "WritePlayers shared_libs '''' \<lparr>lock_acquired = False, read_ok = True, write_ok = True\<rparr> id
     (bob_pending, Some shared_file) = (signalPlayerListDirty bob_pending, Some shared_file)"
  using failed_write_retries [of shared_libs "''''" "\<lparr>lock_acquired = False, read_ok = True, write_ok = True\<rparr>"
      bob_pending "Some shared_file" LockTimeout]
  by (simp add: write_database_def bob_pending_def)

section \<open>Reloading\<close>

text \<open>
  A live reload never overwrites a player whose change is not saved yet.
\<close>

theorem reload_keeps_pending:
  assumes "db_inv st" and "playerChangePending n st" and "to_lower n = n"
  shows "lookup_player (LoadPlayers L env False False False file st) n = lookup_player st n"
proof -
  have "lookup_player (fold SetPlayerListDirty ms (fold (sync_loaded env temp) cs
      (l_st (fold (load_player env False False False) ns
        \<lparr>l_temp = t, l_st = st, l_ban_count = 0, l_do_ban = True, l_changed = [], l_levels = []\<rparr>)))) n
      = lookup_player st n" for ms temp cs ns t
    using load_loop_pending [of "\<lparr>l_temp = t, l_st = st, l_ban_count = 0, l_do_ban = True,
        l_changed = [], l_levels = []\<rparr>" n env ns] assms
    by (simp add: lookup_cong [OF fold_dirty(1)])
  then show ?thesis
    by (simp add: LoadPlayers_def Let_def split_def split: option.split sum.split)
qed

theorem reload_keeps_pending_witness:
  "lookup_player (LoadPlayers shared_libs quiet_env False False False (Some shared_file) bob_pending) ''bob''
     = Some (zero_player\<lparr>p_name := ''bob'', p_level := 2\<rparr>)"
  using reload_keeps_pending [OF bob_pending_inv(1), of "''bob''" shared_libs quiet_env "Some shared_file"]
  by (simp add: playerChangePending_def eval_ops) (simp add: bob_pending_def gm_get_def lookup_player_def)

lemma sent_WhitelistPlayer_app: "\<exists>x. sent (WhitelistPlayer env n l st) = sent st @ x"
  by (simp add: WhitelistPlayer_def Let_def write_fact_def)

lemma sent_sync_admin_app: "\<exists>x. sent (syncPlayerAdminAccess env n a b st) = sent st @ x"
  by (simp add: syncPlayerAdminAccess_def write_fact_def)

lemma sent_WhitelistPlayer: "set (sent st) \<subseteq> set (sent (WhitelistPlayer env n l st))"
  using sent_WhitelistPlayer_app [of env n l st] by auto

lemma sent_sync_admin: "set (sent st) \<subseteq> set (sent (syncPlayerAdminAccess env n a b st))"
  using sent_sync_admin_app [of env n a b st] by auto

text \<open>
  The boot-mode load, which the Discord loop also runs on a live server once the guild is
  linked, does overwrite pending changes: a ban that is not saved yet is lifted again by the
  level the file still holds, and the name stays pending, so the next write saves the lifted
  level.
\<close>

theorem boot_reload_reverts_pending_ban:
  assumes "decodePlayerDatabase L data = Inr ([(n, Some d)], fmt)"
    and "lookup_player st n = Some p" and "p_level p = - 1"
    and "0 \<le> sint (p_level d)" and "p_level d \<noteq> 2"
    and "n \<noteq> ''''" and "length n \<le> MaxNameLength" and "to_lower n = n"
    and "playerChangePending n st"
  shows "\<exists>q. lookup_player (LoadPlayers L env True False False (Some data) st) n = Some q
    \<and> p_level q = p_level d \<and> playerChangePending n (LoadPlayers L env True False False (Some data) st)
    \<and> (\<exists>pre. sent (LoadPlayers L env True False False (Some data) st) = sent st @ pre
         \<and> Command (''/unban '' @ n) \<in> set pre)"
proof -
  let ?st1 = "WriteUnban n st"
  let ?st2 = "WhitelistPlayer env n (p_level d) (syncPlayerAdminAccess env n (- 1) (p_level d) ?st1)"
  obtain q s3 where 3: "add_seen_step env n d (p\<lparr>p_level := p_level d\<rparr>, ?st2) = (q, s3)"
    by (cases "add_seen_step env n d (p\<lparr>p_level := p_level d\<rparr>, ?st2)")
  have level: "p_level d \<noteq> - 1" using assms(4) by auto
  have load: "LoadPlayers L env True False False (Some data) st = set_player n (add_stats d q) s3"
    using assms 3 level
    by (simp add: LoadPlayers_def gm_keys_def load_player_def gm_get_def load_kept_def Let_def
        addPlayer_def add_ban_step_def add_level_step_def)
  have "p_level q = p_level d"
    using 3 by (auto simp: add_seen_step_def Let_def split: if_splits)
  moreover have "\<exists>pre. sent s3 = sent st @ pre \<and> Command (''/unban '' @ n) \<in> set pre"
  proof -
    obtain x y where "sent ?st2 = sent ?st1 @ x @ y"
      using sent_WhitelistPlayer_app sent_sync_admin_app by (metis append.assoc)
    moreover obtain z where "sent s3 = sent ?st2 @ z"
      using 3 sent_WhitelistPlayer_app [of env n "p_level d" ?st2]
      by (auto simp: add_seen_step_def Let_def split: if_splits)
    ultimately show ?thesis
      by (simp add: WriteUnban_def write_fact_def)
  qed
  moreover have "change_versions s3 = change_versions st"
    using 3 sends_keep by (auto simp: add_seen_step_def Let_def split: if_splits)
  ultimately show ?thesis
    using assms(9) by (simp add: load playerChangePending_def set_player_def lookup_player_def add_stats_def Let_def)
qed

definition stale_libs :: db_libs where
  "stale_libs = example_libs\<lparr>sonic_unmarshal := (\<lambda>_. Some [(''bob'', Some (zero_player\<lparr>p_level := 1\<rparr>))])\<rparr>"

definition bob_banned :: player_state where
  "bob_banned = bob_pending\<lparr>player_list := [(''bob'', Some (zero_player\<lparr>p_name := ''bob'', p_level := - 1\<rparr>))]\<rparr>"

theorem boot_reload_reverts_pending_ban_witness:
  "\<exists>q. lookup_player (LoadPlayers stale_libs quiet_env True False False (Some shared_file) bob_banned) ''bob''
     = Some q \<and> p_level q = 1"
proof -
  have "decodePlayerDatabase stale_libs shared_file =
      Inr ([(''bob'', Some (zero_player\<lparr>p_level := 1\<rparr>))], Some FormatJSON)"
    by (simp add: decodePlayerDatabase_def shared_file_def stale_libs_def playerDBMagic_def)
  moreover have "lookup_player bob_banned ''bob'' = Some (zero_player\<lparr>p_name := ''bob'', p_level := - 1\<rparr>)"
    "playerChangePending ''bob'' bob_banned"
    by (simp_all add: bob_banned_def bob_pending_def lookup_player_def gm_get_def
        playerChangePending_def eval_ops)
  ultimately show ?thesis
    using boot_reload_reverts_pending_ban [of stale_libs shared_file "''bob''" _ _ bob_banned]
    by (fastforce simp: eval_ops)
qed

section \<open>Moderation\<close>

lemma sent_set_player [simp]: "sent (set_player n p st) = sent st"
  by (simp add: set_player_def)

lemma sent_dirty [simp]: "sent (SetPlayerListDirty n st) = sent st" "sent (SetPlayerStatsDirty n st) = sent st"
  by (simp_all add: SetPlayerListDirty_def SetPlayerStatsDirty_def signalPlayerListDirty_def
      markPlayerDirty_def Let_def)

lemma sent_playerLevelSet:
  "x \<in> set (sent st) \<Longrightarrow> x \<in> set (sent (snd (playerLevelSet env now n l m t st)))"
proof -
  assume x: "x \<in> set (sent st)"
  have w: "x \<in> set (sent (WhitelistPlayer env k l (syncPlayerAdminAccess env k a l s)))"
    "x \<in> set (sent (WhitelistPlayer env k l (SetPlayerListDirty k (syncPlayerAdminAccess env k a l s))))"
    if "sent s = sent st" for k a s
    using x that sent_WhitelistPlayer sent_sync_admin by (metis in_mono sent_dirty(1))+
  show ?thesis
    using x by (simp add: playerLevelSet_def Let_def w split: option.split)
qed

lemma sent_PlayerLevelGet [simp]: "sent (snd (PlayerLevelGet now n m st)) = sent st"
  by (simp add: PlayerLevelGet_def Let_def split: option.split)

lemma sent_autoPromote:
  "x \<in> set (sent st) \<Longrightarrow> x \<in> set (sent (snd (autoPromote env now n True b prev st)))"
  "x \<in> set (sent st) \<Longrightarrow> x \<in> set (sent (snd (autoPromote env now n boot False prev st)))"
proof -
  obtain l s where get: "PlayerLevelGet now n False st = (l, s)" by (cases "PlayerLevelGet now n False st")
  then have "sent s = sent st" using sent_PlayerLevelGet [of now n False st] by simp
  then show "x \<in> set (sent st) \<Longrightarrow> x \<in> set (sent (snd (autoPromote env now n True b prev st)))"
    "x \<in> set (sent st) \<Longrightarrow> x \<in> set (sent (snd (autoPromote env now n boot False prev st)))"
    using get by (auto simp: autoPromote_def Let_def assignRole_def applyPlayerLevelInGame_def
        split: option.split)
qed

lemma lookup_autoPromote:
  assumes "n \<noteq> ''''" "length n \<le> MaxNameLength" "to_lower n = n" "lookup_player st n = Some p"
  shows "\<exists>q. lookup_player (snd (autoPromote env now n boot ban prev st)) n = Some q \<and>
    p_level q = p_level p \<and> p_ban_reason q = p_ban_reason p \<and> p_id q = p_id p"
  using assms lookup_cong [OF db_part_fields(1) [OF autoPromote_db_part [OF assms(1), of env now boot ban prev st]]]
  by (simp add: PlayerLevelGet_def)

lemma lookup_playerLevelSet:
  assumes "n \<noteq> ''''" "length n \<le> MaxNameLength" "to_lower n = n" "lookup_player st n = Some p"
  shows "\<exists>q. lookup_player (snd (playerLevelSet env now n l m t st)) n = Some q \<and>
    p_level q = l \<and> p_ban_reason q = p_ban_reason p \<and>
    p_id q = (if sint l \<le> - 255 then ''0'' else p_id p)"
  using assms by (simp add: playerLevelSet_def Let_def)

lemma sent_WriteBan: "sent (WriteBan n r st) = sent st @ [Command (''/ban '' @ n @ '' '' @ r), Command (''/purge '' @ n)]"
  by (simp add: WriteBan_def doBan_def write_fact_def)

lemma sent_moderate_ban:
  "level = - 1 \<and> old \<noteq> - 1 \<Longrightarrow> sent (moderate_ban today n level old reason actor st) = sent st @
     [Command (''/ban '' @ n @ '' '' @ (if reason = '''' then ''No reason given'' else reason)
        @ '' -- '' @ actor @ '' '' @ today), Command (''/purge '' @ n)]"
  unfolding moderate_ban_def Let_def by (simp add: sent_WriteBan split: option.split)

lemma lookup_moderate_ban:
  "lookup_player (moderate_ban today n level old reason actor st) n =
    map_option (\<lambda>p. if level = - 1 \<and> old \<noteq> - 1
      then p\<lparr>p_ban_reason := (if reason = '''' then ''No reason given'' else reason) @ '' -- '' @ actor @ '' '' @ today\<rparr>
      else p) (lookup_player st n)"
  unfolding moderate_ban_def Let_def by (cases "lookup_player st n") simp_all

text \<open>
  A moderator's request with an allowed level for a usable name succeeds: the player then
  has that level (the Discord id is cleared for a deleted one) and is pending, a new ban carries
  the reason with the moderator and the date in the record and in the \<open>/ban\<close> command, and lifting
  a ban sends \<open>/unban\<close>.
\<close>

theorem moderator_sets_level:
  assumes "db_inv st" and "level \<in> {- 255, - 1, 0, 1, 2, 3, 255}" and "length reason \<le> 500"
    and "trim_space who \<noteq> ''''" and "length (trim_space who) \<le> MaxNameLength"
    and "n = to_lower (trim_space who)"
    and "old = fst (PlayerLevelGet now n False st)"
    and "why = (if reason = '''' then ''No reason given'' else reason) @ '' -- '' @ actor @ '' '' @ today"
  shows "\<exists>st' p. SetPlayerLevelByModerator env now today who level reason actor id st = (Inr (), st')
    \<and> lookup_player st' n = Some p \<and> p_level p = level
    \<and> (level = - 255 \<longrightarrow> p_id p = ''0'')
    \<and> (level = - 1 \<and> old \<noteq> - 1 \<longrightarrow> p_ban_reason p = why
         \<and> Command (''/ban '' @ n @ '' '' @ why) \<in> set (sent st'))
    \<and> (0 \<le> sint level \<and> old = - 1 \<longrightarrow> Command (''/unban '' @ n) \<in> set (sent st'))"
proof -
  obtain st1 where get: "PlayerLevelGet now n False st = (old, st1)"
    using assms(7) by (metis prod.collapse)
  have n: "n \<noteq> ''''" "length n \<le> MaxNameLength" "to_lower n = n" using assms(4-6) by simp_all
  obtain p where p: "lookup_player st1 n = Some p" "p_name p = n"
    using PlayerLevelGet_finds [OF n db_invD(1) [OF assms(1)], of now] get by auto
  let ?st2 = "moderate_ban today n level old reason actor st1"
  let ?st3 = "snd (playerLevelSet env now n level True True ?st2)"
  let ?st4 = "snd (autoPromote env now n False False (Some old) ?st3)"
  have run: "SetPlayerLevelByModerator env now today who level reason actor id st = (Inr (), ?st4)"
    using moderator_accepts [OF assms(2-5) db_invD(1) [OF assms(1)]] get p assms(6)
    by (simp add: moderate_rest_eq Let_def)
  obtain p2 where p2: "lookup_player ?st2 n = Some p2"
    "level = - 1 \<and> old \<noteq> - 1 \<longrightarrow> p_ban_reason p2 = why"
    using lookup_moderate_ban [of today n level old reason actor st1] p(1) unfolding assms(8) by auto
  obtain q where q: "lookup_player ?st4 n = Some q" "p_level q = level" "p_ban_reason q = p_ban_reason p2"
    "p_id q = (if sint level \<le> - 255 then ''0'' else p_id p2)"
    using lookup_playerLevelSet [OF n p2(1), of env now level True True] lookup_autoPromote [OF n] by metis
  have keep: "x \<in> set (sent ?st2) \<Longrightarrow> x \<in> set (sent ?st4)" for x
    by (intro sent_autoPromote(2) sent_playerLevelSet)
  have "level = - 1 \<and> old \<noteq> - 1 \<Longrightarrow> Command (''/ban '' @ n @ '' '' @ why) \<in> set (sent ?st2)"
    unfolding assms(8) sent_moderate_ban by simp
  moreover have "0 \<le> sint level \<and> old = - 1 \<Longrightarrow> Command (''/unban '' @ n) \<in> set (sent ?st2)"
    by (simp add: moderate_ban_def Let_def WriteUnban_def write_fact_def)
  ultimately show ?thesis
    using run q p2(2) keep by (intro exI [of _ ?st4] exI [of _ q]) auto
qed

theorem moderator_sets_level_witness:
  "\<exists>st' p. SetPlayerLevelByModerator quiet_env 1600000000 ''01-02-2026'' ''Bob'' (- 1) ''spam'' ''mod'' id bob_pending
      = (Inr (), st') \<and> lookup_player st' ''bob'' = Some p \<and> p_level p = - 1
      \<and> Command ''/ban bob spam -- mod 01-02-2026'' \<in> set (sent st')"
  using moderator_sets_level [OF bob_pending_inv(1) _ _ _ _ refl refl refl,
      of "- 1" "''spam''" "''Bob''" quiet_env 1600000000 "''01-02-2026''" "''mod''"]
  by (auto simp: trim_space_def is_space_def eval_ops bob_pending_def empty_state_def
      PlayerLevelGet_def lookup_player_def gm_get_def zero_player_def)

text \<open>
  A ban reported twice is sent once: banning a known player sends the \<open>/ban\<close> and \<open>/purge\<close>
  commands exactly when the player is not marked as already banned, and afterwards the player is
  marked, so that a second report sends nothing.
\<close>

theorem ban_is_sent_once:
  assumes "lookup_player st (to_lower who) = Some p" and "who \<noteq> ''''"
    and "length who \<le> MaxNameLength" and "length reason \<le> MaxBanReasonLength"
    and "PlayerSetBanReason now who reason True st = (found, st')"
  shows "found \<and> sent st' = sent st @ (if p_already_banned p then []
      else [Command (''/ban '' @ to_lower who @ '' '' @ reason), Command (''/purge '' @ to_lower who)])
    \<and> (\<exists>q. lookup_player st' (to_lower who) = Some q \<and> p_level q = - 1 \<and> p_already_banned q)
    \<and> sent (snd (PlayerSetBanReason later who reason True st')) = sent st'"
  using assms by (auto simp: PlayerSetBanReason_def Let_def WriteBan_def doBan_def write_fact_def)

theorem ban_is_sent_once_witness:
  "sent (snd (PlayerSetBanReason 1600000001 ''Bob'' ''spam'' True
      (snd (PlayerSetBanReason 1600000000 ''Bob'' ''spam'' True bob_pending))))
    = [Command ''/ban bob spam'', Command ''/purge bob'']"
proof -
  obtain found st' where ban: "PlayerSetBanReason 1600000000 ''Bob'' ''spam'' True bob_pending = (found, st')"
    by (cases "PlayerSetBanReason 1600000000 ''Bob'' ''spam'' True bob_pending")
  have "lookup_player bob_pending (to_lower ''Bob'') = Some (zero_player\<lparr>p_name := ''bob'', p_level := 2\<rparr>)"
    by (simp add: bob_pending_def lookup_player_def gm_get_def eval_ops)
  from ban_is_sent_once [OF this _ _ _ ban, of 1600000001] ban show ?thesis
    by (simp add: eval_ops MaxBanReasonLength_def bob_pending_def empty_state_def zero_player_def)
qed

section \<open>The whitelist\<close>

lemma add_until_full_alt:
  "add_until_full cap names ps =
     names @ map p_name (take (cap - length names) (filter (\<lambda>p. sint (p_level p) < 3) ps))"
proof (induction cap names ps rule: add_until_full.induct)
  case (2 cap names p ps)
  then show ?case
  proof (cases "cap \<le> length names")
    case False
    then have "cap - length names = Suc (cap - Suc (length names))" by simp
    with 2 False show ?thesis by simp
  qed simp
qed simp

text \<open>The players the whitelist is for, the most recently seen first.\<close>

lemma set_candidates: "set (whitelist_candidates env st) =
    {p \<in> set (players_in st). (if opt_regulars_only env then 1 else 0) < sint (p_level p)}"
  by (auto simp: whitelist_candidates_def)

lemma sorted_rev_candidates:
  "sorted_wrt (\<lambda>p q. sint (p_last_seen q) \<le> sint (p_last_seen p)) (rev (whitelist_candidates env st))"
proof -
  have "sorted (map (\<lambda>p. sint (p_last_seen p)) (whitelist_candidates env st))"
    by (simp add: whitelist_candidates_def)
  then show ?thesis by (simp add: sorted_map sorted_wrt_rev)
qed

lemma sorted_wrt_take_drop:
  assumes "sorted_wrt R xs" "x \<in> set (take k xs)" "y \<in> set xs" "y \<notin> set (take k xs)"
  shows "R x y \<and> k < length xs"
proof -
  have "y \<in> set (drop k xs)" using assms(3,4) by (metis Un_iff append_take_drop_id set_append)
  moreover have "sorted_wrt R (take k xs @ drop k xs)" using assms(1) by simp
  ultimately show ?thesis
    using assms(2) unfolding sorted_wrt_append by (metis drop_eq_Nil empty_iff empty_set not_less)
qed

lemma players_in_names:
  assumes "list_inv (player_list st)" "p \<in> set (players_in st)" "q \<in> set (players_in st)" "p_name p = p_name q"
  shows "p = q"
proof -
  have "gm_get (player_list st) (p_name r) = Some (Some r)" if r: "r \<in> set (players_in st)" for r
  proof -
    obtain n where n: "(n, Some r) \<in> set (player_list st)"
      using r by (auto simp: players_in_def List.map_filter_def)
    then have "gm_get (player_list st) n = Some (Some r)"
      using assms(1) gm_get_iff by (fastforce simp: list_inv_def)
    moreover from this assms(1) have "p_name r = n" by (auto simp: list_inv_def player_ok_def)
    ultimately show ?thesis by simp
  qed
  from this [OF assms(2)] this [OF assms(3)] assms(4) show ?thesis by (metis option.inject)
qed

text \<open>
  The whitelist of a members-only or regulars-only server lists only players of a
  sufficient level, and every veteran, moderator and admin among them whatever the cap; the
  others fill it up to 1500 names by the time they were last seen: one is left out only when the
  list is full and everyone taken was seen no earlier.
\<close>

theorem whitelist_priority:
  assumes "db_inv st" and "\<not> opt_custom_whitelist env"
    and "opt_members_only env \<or> opt_regulars_only env"
    and "WriteWhitelist env True file st = (WriteNames names, k)"
    and "eligible = {p \<in> set (players_in st). (if opt_regulars_only env then 1 else 0) < sint (p_level p)}"
  shows "k = int (length names) \<and> set names \<subseteq> p_name ` eligible
    \<and> (\<forall>p \<in> eligible. 3 \<le> sint (p_level p) \<longrightarrow> p_name p \<in> set names)
    \<and> (\<forall>p \<in> eligible. p_name p \<notin> set names \<longrightarrow> MaxWhitelist \<le> length names
         \<and> (\<forall>q \<in> eligible. sint (p_level q) < 3 \<and> p_name q \<in> set names
              \<longrightarrow> sint (p_last_seen p) \<le> sint (p_last_seen q)))"
proof -
  let ?all = "rev (whitelist_candidates env st)"
  let ?staff = "filter (\<lambda>p. 3 \<le> sint (p_level p)) ?all"
  let ?rest = "filter (\<lambda>p. sint (p_level p) < 3) ?all"
  let ?room = "MaxWhitelist - length ?staff"
  have names: "names = map p_name ?staff @ map p_name (take ?room ?rest)" "k = int (length names)"
    using assms(2-4) by (auto simp: WriteWhitelist_def whitelist_names_def Let_def add_until_full_alt)
  have el: "set ?all = eligible" by (simp add: set_candidates assms(5))
  have "set names \<subseteq> p_name ` eligible"
    using el set_take_subset [of ?room ?rest] by (auto simp: names)
  moreover have "p_name p \<in> set names" if "p \<in> eligible" "3 \<le> sint (p_level p)" for p
    using that el by (auto simp: names)
  moreover have "MaxWhitelist \<le> length names \<and> (\<forall>q \<in> eligible. sint (p_level q) < 3 \<and> p_name q \<in> set names
              \<longrightarrow> sint (p_last_seen p) \<le> sint (p_last_seen q))"
    if p: "p \<in> eligible" "p_name p \<notin> set names" for p
  proof -
    have rest: "p \<in> set ?rest" "p \<notin> set (take ?room ?rest)"
      using p el by (auto simp: names)
    then have "?room < length ?rest" by (metis not_le take_all)
    then have "MaxWhitelist \<le> length names" by (simp add: names)
    moreover have "sint (p_last_seen p) \<le> sint (p_last_seen q)"
      if q: "q \<in> eligible" "sint (p_level q) < 3" "p_name q \<in> set names" for q
    proof -
      have "p_name q \<in> p_name ` (set ?staff \<union> set (take ?room ?rest))"
        using q(3) unfolding names(1) by (simp only: set_append set_map image_Un)
      then obtain r where "r \<in> set ?staff \<union> set (take ?room ?rest)" "p_name r = p_name q"
        by (elim imageE) (rule that, simp_all only:)
      moreover from this(1) have "r \<in> set (players_in st)" "q \<in> set (players_in st)"
        using q(1) el assms(5) by (auto dest: in_set_takeD)
      ultimately have "q \<in> set ?staff \<union> set (take ?room ?rest)"
        using players_in_names [OF db_invD(1) [OF assms(1)]] by metis
      then have taken: "q \<in> set (take ?room ?rest)" using q(2) by auto
      show ?thesis
        by (rule sorted_wrt_take_drop [OF sorted_wrt_filter [OF sorted_rev_candidates] taken rest,
              THEN conjunct1])
    qed
    ultimately show ?thesis by blast
  qed
  ultimately show ?thesis using names(2) by blast
qed

theorem whitelist_priority_witness:
  "WriteWhitelist quiet_env True WhitelistMissing bob_pending = (WriteNames [''bob''], 1) \<and>
   p_name (zero_player\<lparr>p_name := ''bob'', p_level := 2\<rparr>) \<in> set [''bob'']"
proof -
  have run: "WriteWhitelist quiet_env True WhitelistMissing bob_pending = (WriteNames [''bob''], 1)"
    by (simp add: WriteWhitelist_def quiet_env_def whitelist_names_def whitelist_candidates_def
        players_in_def bob_pending_def List.map_filter_def MaxWhitelist_def Let_def zero_player_def)
  with whitelist_priority [OF bob_pending_inv(1) _ _ run refl]
  show ?thesis by (auto simp: quiet_env_def)
qed

section \<open>Cleaning\<close>

text \<open>
  The clean-up of \<open>-cleanDB\<close> erases the ban reason of every banned player without a Discord
  id: an empty id does not parse as a number, and is then moved into the reason.
\<close>

theorem clean_db_erases_ban_reason:
  assumes "decodePlayerDatabase L data = Inr ([(n, Some d)], fmt)"
    and "p_level d = - 1" and "p_id d = ''''"
    and "lookup_player st n = None"
    and "n \<noteq> ''''" and "length n \<le> MaxNameLength" and "to_lower n = n"
  shows "\<exists>p. lookup_player (LoadPlayers L env False True False (Some data) st) n = Some p
    \<and> p_level p = - 1 \<and> p_ban_reason p = ''''
    \<and> Command (''/ban '' @ n @ '' '') \<in> set (sent (LoadPlayers L env False True False (Some data) st))"
proof -
  have clean: "minimize_record d = d\<lparr>p_ban_reason := '''', p_id := ''''\<rparr>"
    using assms(2,3) by (simp add: minimize_record_def Let_def parse_uint64_def)
  let ?p = "zero_player\<lparr>p_name := n, p_level := - 1, p_creation := p_creation d,
    p_last_seen := p_last_seen d, p_minutes := p_minutes d, p_sus_score := p_sus_score d\<rparr>"
  let ?st = "WhitelistPlayer env n (- 1) (syncPlayerAdminAccess env n 0 (- 1)
    (WriteBan n '''' (set_player n ?p st)))"
  have "snd (addPlayer env n (d\<lparr>p_ban_reason := '''', p_id := ''''\<rparr>) True st) = ?st"
    using assms by (simp add: addPlayer_def Let_def zero_player_def)
  moreover have "LoadPlayers L env False True False (Some data) st = SetPlayerListDirty n
      (snd (addPlayer env n (d\<lparr>p_ban_reason := '''', p_id := ''''\<rparr>) True st))"
    using assms clean by (simp add: LoadPlayers_def gm_keys_def load_player_def gm_get_def Let_def
        load_kept_def note_changed_def split_def)
  ultimately have load: "LoadPlayers L env False True False (Some data) st = SetPlayerListDirty n ?st"
    by simp
  have "Command (''/ban '' @ n @ '' '') \<in> set (sent ?st)"
    using sent_WhitelistPlayer sent_sync_admin by (fastforce simp: WriteBan_def doBan_def write_fact_def)
  then show ?thesis by (simp add: load zero_player_def)
qed

definition banned_libs :: db_libs where
  "banned_libs = example_libs\<lparr>sonic_unmarshal := (\<lambda>_. Some
     [(''bob'', Some (zero_player\<lparr>p_level := - 1, p_ban_reason := ''griefing''\<rparr>))])\<rparr>"

theorem clean_db_erases_ban_reason_witness:
  "\<exists>p. lookup_player (LoadPlayers banned_libs quiet_env False True False (Some shared_file) empty_state) ''bob''
     = Some p \<and> p_level p = - 1 \<and> p_ban_reason p = ''''"
proof -
  have "decodePlayerDatabase banned_libs shared_file =
      Inr ([(''bob'', Some (zero_player\<lparr>p_level := - 1, p_ban_reason := ''griefing''\<rparr>))], Some FormatJSON)"
    by (simp add: decodePlayerDatabase_def shared_file_def banned_libs_def playerDBMagic_def)
  from clean_db_erases_ban_reason [OF this, of empty_state quiet_env] show ?thesis
    by (force simp: eval_ops zero_player_def empty_state_def lookup_player_def)
qed

end
