(* ===== verification/Vote_Map.thy ===== *)
theory Vote_Map
  imports CW_Prelude
begin

text \<open>
  The map vote (fact/voteMap.go): the vote box, casting and changing a vote, the tally and the
  vote file.  \<open>glob.VoteBoxLock\<close> makes one call of \<open>CheckVote\<close> one step.  What Discord and the
  file system say of the voter and the save is the record \<open>vote_env\<close>; the answer to the voter and
  the map change that follows are the result.
\<close>

section \<open>Data\<close>

record map_vote =
  mv_name :: string
  mv_disc_id :: string
  mv_moderator :: bool
  mv_supporter :: bool
  mv_veteran :: bool
  mv_total_votes :: int
  mv_selection :: string
  mv_num_changes :: int
  mv_time :: gotime
  mv_voided :: bool
  mv_expired :: bool

record vote_box =
  vb_votes :: "map_vote list"
  vb_tally :: "(string \<times> int) list"
  vb_last_change :: gotime
  vb_num_changes :: int

definition VotesNeeded :: int where "VotesNeeded = 2"
definition MapCooldown :: gotime where "MapCooldown = 1 * minute_ns"
definition VoteCooldown :: gotime where "VoteCooldown = 5 * minute_ns"
definition VoteExpire :: gotime where "VoteExpire = 6 * hour_ns"
definition MaxVoteChanges :: int where "MaxVoteChanges = 2"
definition MaxVotesPerMap :: int where "MaxVotesPerMap = 10"

text \<open>The voter with the roles Discord reports, the save that was named, and the server.\<close>

record vote_env =
  ve_now :: gotime
  ve_up :: bool
  ve_name :: string
  ve_id :: string
  ve_regular :: bool
  ve_veteran :: bool
  ve_moderator :: bool
  ve_admin :: bool
  ve_supporter :: bool
  ve_missing :: bool
  ve_save_good :: bool
  ve_server_name :: string

datatype vote_result = VoteIgnored | NotRunning | NotAllowed | NoSuchSave | InvalidSave | MapOnCooldown
  | NoMoreChanges | MustWait | OutOfVotes | VoteCounted | VotePassed string

section \<open>The tally\<close>

definition vote_points :: "map_vote \<Rightarrow> int" where
  "vote_points v = (if mv_moderator v \<or> mv_supporter v \<or> mv_veteran v then 2 else 1)"

text \<open>The first loop: the votes with their marks, and the number of valid points.\<close>

fun mark_votes :: "gotime \<Rightarrow> map_vote list \<Rightarrow> map_vote list \<times> int" where
  "mark_votes now [] = ([], 0)"
| "mark_votes now (v # vs) =
     (let (vs', n) = mark_votes now vs in
      if mv_voided v then (v\<lparr>mv_num_changes := 0\<rparr> # vs', n)
      else if (VoteExpire < now - mv_time v \<or> mv_expired v) \<and> \<not> mv_voided v
      then (v\<lparr>mv_expired := True, mv_num_changes := 0\<rparr> # vs', n)
      else if \<not> mv_voided v \<and> \<not> mv_expired v then (v # vs', n + vote_points v)
      else (v # vs', n))"

text \<open>The inner loop of the recount: every entry of the same selection gets the points; the flag
  says whether there was one.\<close>

fun add_points :: "string \<Rightarrow> int \<Rightarrow> (string \<times> int) list \<Rightarrow> bool \<times> (string \<times> int) list" where
  "add_points s p [] = (False, [])"
| "add_points s p ((a, c) # ts) =
     (let (found, ts') = add_points s p ts in
      if s = a then (True, (a, c + p) # ts') else (found, (a, c) # ts'))"

fun count_votes :: "map_vote list \<Rightarrow> (string \<times> int) list \<Rightarrow> (string \<times> int) list" where
  "count_votes [] tally = tally"
| "count_votes (v # vs) tally =
     (if \<not> mv_voided v \<and> \<not> mv_expired v then
        (let (skipAdd, tally') = add_points (mv_selection v) (vote_points v) tally in
         count_votes vs (if skipAdd then tally' else tally' @ [(mv_selection v, vote_points v)]))
      else count_votes vs tally)"

definition TallyMapVotes :: "gotime \<Rightarrow> vote_box \<Rightarrow> int \<times> vote_box" where
  "TallyMapVotes now box =
     (let (votes, valid) = mark_votes now (vb_votes box)
      in (valid, box\<lparr>vb_votes := votes, vb_tally := count_votes votes []\<rparr>))"

definition VoidAllVotes :: "vote_box \<Rightarrow> vote_box" where
  "VoidAllVotes box = box\<lparr>vb_votes := [], vb_tally := []\<rparr>"

section \<open>Voting\<close>

definition same_voter :: "vote_env \<Rightarrow> map_vote \<Rightarrow> bool" where
  "same_voter env v \<longleftrightarrow> equal_fold (mv_disc_id v) (ve_id env) \<and> equal_fold (mv_name v) (ve_name env)"

definition new_vote :: "vote_env \<Rightarrow> string \<Rightarrow> map_vote" where
  "new_vote env arg = \<lparr>mv_name = ve_name env, mv_disc_id = ve_id env, mv_moderator = ve_moderator env,
     mv_supporter = ve_supporter env, mv_veteran = ve_veteran env, mv_total_votes = 0,
     mv_selection = arg, mv_num_changes = 0, mv_time = ve_now env, mv_voided = False, mv_expired = False\<rparr>"

fun find_vote :: "vote_env \<Rightarrow> map_vote list \<Rightarrow> nat option" where
  "find_vote env [] = None"
| "find_vote env (v # vs) = (if same_voter env v then Some 0 else map_option Suc (find_vote env vs))"

text \<open>The guards at the start of \<open>CheckVote\<close>: \<open>None\<close> when the vote may be handled.\<close>

definition vote_guard :: "vote_env \<Rightarrow> string \<Rightarrow> vote_box \<Rightarrow> vote_result option" where
  "vote_guard env arg box =
     (let file = arg @ ''.zip'';
          notfound = (ve_missing env \<or> (\<not> has_suffix file ''.zip'' \<and> has_suffix file ''tmp.zip''
            \<and> has_suffix file (ve_server_name env @ ''_new.zip'')))
      in if equal_fold arg ''already-skipped'' then Some VoteIgnored
      else if \<not> ve_up env then Some NotRunning
      else if \<not> ve_veteran env \<and> \<not> ve_regular env \<and> \<not> ve_moderator env \<and> \<not> ve_admin env
      then Some NotAllowed
      else if \<not> equal_fold arg ''new-map'' \<and> \<not> equal_fold arg ''skip-reset'' \<and> notfound
      then Some NoSuchSave
      else if \<not> equal_fold arg ''new-map'' \<and> \<not> equal_fold arg ''skip-reset'' \<and> \<not> ve_save_good env
      then Some InvalidSave
      else if vb_last_change box \<noteq> zero_time \<and> ve_now env - vb_last_change box < MapCooldown
      then Some MapOnCooldown
      else None)"

text \<open>The part that enters the vote into the (already tallied) box, or refuses it.\<close>

definition enter_vote :: "vote_env \<Rightarrow> string \<Rightarrow> vote_box \<Rightarrow> vote_result + vote_box" where
  "enter_vote env arg box =
     (case find_vote env (vb_votes box) of
        None \<Rightarrow> Inr (box\<lparr>vb_votes := vb_votes box @ [new_vote env arg]\<rparr>)
      | Some i \<Rightarrow>
          (let v = vb_votes box ! i; left = VoteCooldown - (ve_now env - mv_time v) in
           if mv_selection v \<noteq> arg \<and> \<not> mv_voided v \<and> mv_num_changes v < MaxVoteChanges then
             Inr (box\<lparr>vb_votes := (vb_votes box)[i := v\<lparr>mv_selection := arg, mv_time := ve_now env,
                 mv_voided := False, mv_expired := False, mv_num_changes := mv_num_changes v + 1,
                 mv_total_votes := mv_total_votes v + 1\<rparr>]\<rparr>)
           else if MaxVoteChanges \<le> mv_num_changes v then Inl NoMoreChanges
           else if 0 < left then Inl MustWait
           else if \<not> ve_moderator env \<and> MaxVotesPerMap \<le> mv_total_votes v then Inl OutOfVotes
           else Inr (box\<lparr>vb_votes := (vb_votes box)[i := (new_vote env arg)\<lparr>mv_total_votes := 1\<rparr>]\<rparr>)))"

text \<open>\<open>Time.Round(time.Second)\<close> of a time after the epoch.\<close>

definition round_second :: "gotime \<Rightarrow> gotime" where
  "round_second t = (t + second_ns div 2) div second_ns * second_ns"

text \<open>Everything \<open>CheckVote\<close> does to the box.\<close>

definition decide_vote :: "vote_env \<Rightarrow> string \<Rightarrow> vote_box \<Rightarrow> vote_result \<times> vote_box" where
  "decide_vote env arg box =
     (case vote_guard env arg box of
        Some r \<Rightarrow> (r, box)
      | None \<Rightarrow>
          (let box = snd (TallyMapVotes (ve_now env) box) in
           case enter_vote env arg box of
             Inl r \<Rightarrow> (r, box)
           | Inr box \<Rightarrow>
               (let box = snd (TallyMapVotes (ve_now env) box) in
                case find (\<lambda>(s, n). VotesNeeded \<le> n) (vb_tally box) of
                  None \<Rightarrow> (VoteCounted, box)
                | Some (chosen, n) \<Rightarrow>
                    (VotePassed chosen,
                     VoidAllVotes (box\<lparr>vb_last_change := round_second (ve_now env),
                       vb_num_changes := vb_num_changes box + 1\<rparr>)))))"

section \<open>The vote file\<close>

text \<open>What is saved: the version, the votes and the number of changes.  \<open>WriteVotes\<close> with the
  outcome of the atomic write; \<open>ReadVotes\<close> on a file that is missing, unreadable, malformed or
  decoded.\<close>

datatype vote_file = VoteFileMissing | VoteFileUnreadable | VoteFileMalformed | VoteFile "map_vote list" int

definition WriteVotes :: "bool \<Rightarrow> vote_box \<Rightarrow> vote_file \<Rightarrow> bool \<times> vote_file" where
  "WriteVotes ok box file = (if ok then (True, VoteFile (vb_votes box) (vb_num_changes box)) else (False, file))"

definition createVoteContainer :: "gotime \<Rightarrow> vote_box" where
  "createVoteContainer now = \<lparr>vb_votes = [], vb_tally = [], vb_last_change = round_second now, vb_num_changes = 0\<rparr>"

definition ReadVotes :: "gotime \<Rightarrow> vote_file \<Rightarrow> vote_box \<Rightarrow> bool \<times> vote_box" where
  "ReadVotes now file box =
     (case file of
        VoteFileMissing \<Rightarrow> (True, box)
      | VoteFileUnreadable \<Rightarrow> (False, box)
      | VoteFileMalformed \<Rightarrow> (False, box)
      | VoteFile votes n \<Rightarrow> (True, (createVoteContainer now)\<lparr>vb_votes := votes, vb_num_changes := n\<rparr>))"

text \<open>The whole handler: a vote that passes also saves the emptied box, before the map change.\<close>

definition CheckVote :: "vote_env \<Rightarrow> bool \<Rightarrow> string \<Rightarrow> vote_box \<Rightarrow> vote_file \<Rightarrow> vote_result \<times> vote_box \<times> vote_file" where
  "CheckVote env ok arg box file =
     (let (r, box) = decide_vote env arg box in
      case r of VotePassed chosen \<Rightarrow> (r, box, snd (WriteVotes ok box file))
      | _ \<Rightarrow> (r, box, file))"

section \<open>Facts about the tally\<close>

definition live_vote :: "map_vote \<Rightarrow> bool" where
  "live_vote v \<longleftrightarrow> \<not> mv_voided v \<and> \<not> mv_expired v"

text \<open>The points of a selection, counted directly.\<close>

definition points_for :: "string \<Rightarrow> map_vote list \<Rightarrow> int" where
  "points_for s vs = sum_list (map vote_points (filter (\<lambda>v. live_vote v \<and> mv_selection v = s) vs))"

lemma vote_points_pos: "0 < vote_points v"
  by (simp add: vote_points_def)

lemma points_for_nonneg: "0 \<le> points_for s vs"
  unfolding points_for_def by (rule sum_list_nonneg) (auto simp: vote_points_def)

lemma add_points_spec:
  assumes "distinct (map fst ts)" "add_points s p ts = (found, ts')"
  shows "found = (s \<in> fst ` set ts)" "map fst ts' = map fst ts"
    "map_of ts' = (if found then (map_of ts)(s \<mapsto> the (map_of ts s) + p) else map_of ts)"
  using assms
proof (induction s p ts arbitrary: found ts' rule: add_points.induct)
  case (2 s p a c ts)
  obtain f t where ft: "add_points s p ts = (f, t)" by (cases "add_points s p ts")
  note IH = "2.IH" [OF _ ft]
  {
    case 1
    then show ?case using IH ft by (auto split: if_splits)
  next
    case 2
    then show ?case using IH ft by (auto split: if_splits)
  next
    case 3
    show ?case
    proof (cases "s = a")
      case True
      with 3 have "s \<notin> fst ` set ts" by auto
      with IH 3 have "\<not> f" "map_of t = map_of ts" by auto
      with True 3 ft show ?thesis by (auto simp: fun_eq_iff)
    next
      case False
      with 3 ft have eq: "found = f" "ts' = (a, c) # t" by (auto split: if_splits)
      from 3 have "distinct (map fst ts)" by simp
      note IH3 = IH(3) [OF this]
      show ?thesis using False by (cases f) (simp_all add: eq IH3 fun_eq_iff)
    qed
  }
qed simp_all

lemma count_votes_spec:
  assumes "distinct (map fst ts)"
  shows "distinct (map fst (count_votes vs ts)) \<and>
    (\<forall>s. map_of (count_votes vs ts) s =
      (if s \<in> fst ` set ts \<or> (\<exists>v \<in> set vs. live_vote v \<and> mv_selection v = s)
       then Some ((case map_of ts s of None \<Rightarrow> 0 | Some c \<Rightarrow> c) + points_for s vs) else None))"
  using assms
proof (induction vs ts rule: count_votes.induct)
  case (1 tally)
  then show ?case
    by (auto simp: points_for_def map_of_eq_None_iff split: option.splits)
next
  case (2 v vs tally)
  show ?case
  proof (cases "live_vote v")
    case False
    then have "count_votes (v # vs) tally = count_votes vs tally" by (auto simp: live_vote_def)
    moreover have "points_for s (v # vs) = points_for s vs" for s
      using False by (simp add: points_for_def)
    ultimately show ?thesis using 2 False by (auto simp: live_vote_def)
  next
    case True
    obtain found t where ft: "add_points (mv_selection v) (vote_points v) tally = (found, t)"
      by (cases "add_points (mv_selection v) (vote_points v) tally")
    note spec = add_points_spec [OF "2.prems" ft]
    let ?t = "if found then t else t @ [(mv_selection v, vote_points v)]"
    have step: "count_votes (v # vs) tally = count_votes vs ?t"
      using True ft by (simp add: live_vote_def)
    have keys: "fst ` set t = fst ` set tally" using spec(2) by (metis set_map)
    have dist: "distinct (map fst ?t)"
      using "2.prems" spec(1,2) keys by auto
    have keys': "fst ` set ?t = insert (mv_selection v) (fst ` set tally)"
      using spec(1) keys by auto
    have worth: "(case map_of ?t s of None \<Rightarrow> 0 | Some c \<Rightarrow> c) =
        (case map_of tally s of None \<Rightarrow> 0 | Some c \<Rightarrow> c) + (if s = mv_selection v then vote_points v else 0)" for s
    proof (cases found)
      case True
      then obtain c where "map_of tally (mv_selection v) = Some c"
        using spec(1) by (metis map_of_eq_None_iff not_None_eq)
      with True spec(3) show ?thesis by auto
    next
      case False
      then have "map_of tally (mv_selection v) = None"
        using spec(1) by (simp add: map_of_eq_None_iff)
      with False spec(3) show ?thesis by (auto simp: map_add_def split: option.splits)
    qed
    have IH: "distinct (map fst (count_votes vs ?t))"
      "map_of (count_votes vs ?t) s = (if s \<in> fst ` set ?t \<or> (\<exists>v \<in> set vs. live_vote v \<and> mv_selection v = s)
       then Some ((case map_of ?t s of None \<Rightarrow> 0 | Some c \<Rightarrow> c) + points_for s vs) else None)" for s
      using "2.IH"(1) [OF _ ft [symmetric] refl] True dist by (auto simp: live_vote_def)
    have points: "points_for s (v # vs) = (if s = mv_selection v then vote_points v else 0) + points_for s vs" for s
      using True by (simp add: points_for_def)
    have "map_of (count_votes (v # vs) tally) s =
      (if s \<in> fst ` set tally \<or> (\<exists>w \<in> set (v # vs). live_vote w \<and> mv_selection w = s)
       then Some ((case map_of tally s of None \<Rightarrow> 0 | Some c \<Rightarrow> c) + points_for s (v # vs)) else None)" for s
      unfolding step IH(2) keys' worth points using True by auto
    with IH(1) show ?thesis unfolding step by blast
  qed
qed


lemma mark_votes_spec:
  "mark_votes now vs = (vs', n) \<Longrightarrow> n = sum_list (map vote_points (filter live_vote vs')) \<and>
    length vs' = length vs \<and>
    (\<forall>v' \<in> set vs'. live_vote v' \<longrightarrow> v' \<in> set vs \<and> now - mv_time v' \<le> VoteExpire)"
proof (induction now vs arbitrary: vs' n rule: mark_votes.induct)
  case (2 now v vs)
  obtain ws k where ws: "mark_votes now vs = (ws, k)" by (cases "mark_votes now vs")
  from "2.IH" [OF ws] "2.prems" ws show ?case
    by (auto simp: live_vote_def Let_def split: if_splits)
qed simp

lemma tally_facts:
  assumes "TallyMapVotes now box = (valid, box')"
  shows "distinct (map fst (vb_tally box'))"
    "(s, n) \<in> set (vb_tally box') \<longleftrightarrow>
       (\<exists>v \<in> set (vb_votes box'). live_vote v \<and> mv_selection v = s) \<and> n = points_for s (vb_votes box')"
    "valid = sum_list (map vote_points (filter live_vote (vb_votes box')))"
    "\<forall>v \<in> set (vb_votes box'). live_vote v \<longrightarrow> now - mv_time v \<le> VoteExpire"
proof -
  obtain votes k where m: "mark_votes now (vb_votes box) = (votes, k)" by (cases "mark_votes now (vb_votes box)")
  then have box': "valid = k" "vb_votes box' = votes" "vb_tally box' = count_votes votes []"
    using assms by (auto simp: TallyMapVotes_def)
  have count: "distinct (map fst (vb_tally box'))"
    "map_of (vb_tally box') s = (if \<exists>v \<in> set votes. live_vote v \<and> mv_selection v = s
       then Some (points_for s votes) else None)" for s
    using count_votes_spec [of "[]" votes] by (auto simp: box')
  show "distinct (map fst (vb_tally box'))" by (rule count(1))
  have "(s, n) \<in> set (vb_tally box') \<longleftrightarrow> map_of (vb_tally box') s = Some n"
    using count(1) by (simp add: map_of_eq_Some_iff)
  then show "(s, n) \<in> set (vb_tally box') \<longleftrightarrow>
       (\<exists>v \<in> set (vb_votes box'). live_vote v \<and> mv_selection v = s) \<and> n = points_for s (vb_votes box')"
    using count(2) [of s] by (auto simp: box'(2))
  show "valid = sum_list (map vote_points (filter live_vote (vb_votes box')))"
    "\<forall>v \<in> set (vb_votes box'). live_vote v \<longrightarrow> now - mv_time v \<le> VoteExpire"
    using mark_votes_spec [OF m] by (auto simp: box')
qed

text \<open>
  C30.  The tally is exact: after a tally every selection with a live vote has one entry holding
  the sum of the points of its live votes (two for moderators, supporters and veterans, one for
  the others), no other selection has one, and the total reported is the sum over all live votes;
  a vote older than six hours is not live.
\<close>

theorem tally_is_exact:
  assumes "TallyMapVotes now box = (valid, box')"
  shows "distinct (map fst (vb_tally box')) \<and>
    (\<forall>s n. (s, n) \<in> set (vb_tally box') \<longleftrightarrow>
       (\<exists>v \<in> set (vb_votes box'). live_vote v \<and> mv_selection v = s) \<and> n = points_for s (vb_votes box')) \<and>
    valid = sum_list (map vote_points (filter live_vote (vb_votes box'))) \<and>
    (\<forall>v \<in> set (vb_votes box'). live_vote v \<longrightarrow> now - mv_time v \<le> VoteExpire)"
  using tally_facts [OF assms] by blast

definition ann_vote :: map_vote where
  "ann_vote = \<lparr>mv_name = ''ann'', mv_disc_id = ''1'', mv_moderator = False, mv_supporter = False, mv_veteran = False,
     mv_total_votes = 0, mv_selection = ''new-map'', mv_num_changes = 0, mv_time = 0, mv_voided = False,
     mv_expired = False\<rparr>"

definition ann_box :: vote_box where
  "ann_box = \<lparr>vb_votes = [ann_vote], vb_tally = [], vb_last_change = 0, vb_num_changes = 0\<rparr>"

theorem tally_is_exact_witness:
  "(''new-map'', 1) \<in> set (vb_tally (snd (TallyMapVotes second_ns ann_box)))"
proof -
  obtain valid box' where t: "TallyMapVotes second_ns ann_box = (valid, box')"
    by (cases "TallyMapVotes second_ns ann_box")
  then have "vb_votes box' = [ann_vote]"
    by (auto simp: TallyMapVotes_def ann_box_def ann_vote_def VoteExpire_def Let_def split: prod.splits if_splits)
  with tally_is_exact [OF t] t show ?thesis
    by (simp add: points_for_def ann_vote_def live_vote_def vote_points_def)
qed

section \<open>Deciding\<close>

lemma decide_vote_cases:
  assumes "decide_vote env arg box = (r, box')"
  obtains (refused) "vote_guard env arg box = Some r" "box' = box"
  | (rejected) "vote_guard env arg box = None" "enter_vote env arg (snd (TallyMapVotes (ve_now env) box)) = Inl r"
      "box' = snd (TallyMapVotes (ve_now env) box)"
  | (entered) box1 where "vote_guard env arg box = None"
      "enter_vote env arg (snd (TallyMapVotes (ve_now env) box)) = Inr box1"
      "case find (\<lambda>(s, n). VotesNeeded \<le> n) (vb_tally (snd (TallyMapVotes (ve_now env) box1))) of
         None \<Rightarrow> r = VoteCounted \<and> box' = snd (TallyMapVotes (ve_now env) box1)
       | Some (chosen, n) \<Rightarrow> r = VotePassed chosen \<and> box' = VoidAllVotes
           ((snd (TallyMapVotes (ve_now env) box1))\<lparr>vb_last_change := round_second (ve_now env),
             vb_num_changes := vb_num_changes (snd (TallyMapVotes (ve_now env) box1)) + 1\<rparr>)"
  using assms
  by (auto simp: decide_vote_def Let_def split: option.splits sum.splits)

lemma guard_not_passed: "vote_guard env arg box \<noteq> Some (VotePassed s)" "vote_guard env arg box \<noteq> Some VoteCounted"
  by (auto simp: vote_guard_def Let_def)

lemma enter_not_passed: "enter_vote env arg box \<noteq> Inl (VotePassed s)" "enter_vote env arg box \<noteq> Inl VoteCounted"
  by (auto simp: enter_vote_def Let_def split: option.splits)

lemma CheckVote_decides:
  "fst (CheckVote env ok arg box file) = fst (decide_vote env arg box)"
  "fst (snd (CheckVote env ok arg box file)) = snd (decide_vote env arg box)"
  by (auto simp: CheckVote_def split: prod.splits vote_result.splits)

text \<open>A selection is found by the search of the tally exactly if its live votes reach the threshold.\<close>

lemma find_tally:
  assumes "TallyMapVotes now box = (valid, box')"
  shows "find (\<lambda>(s, n). VotesNeeded \<le> n) (vb_tally box') = Some (chosen, n)
      \<Longrightarrow> n = points_for chosen (vb_votes box') \<and> VotesNeeded \<le> n"
    and "find (\<lambda>(s, n). VotesNeeded \<le> n) (vb_tally box') = None
      \<Longrightarrow> points_for s (vb_votes box') < VotesNeeded"
proof -
  note exact = tally_facts [OF assms]
  show "n = points_for chosen (vb_votes box') \<and> VotesNeeded \<le> n"
    if "find (\<lambda>(s, n). VotesNeeded \<le> n) (vb_tally box') = Some (chosen, n)"
    using that exact(2) by (metis (mono_tags, lifting) case_prodD find_Some_iff nth_mem)
  assume none: "find (\<lambda>(s, n). VotesNeeded \<le> n) (vb_tally box') = None"
  show "points_for s (vb_votes box') < VotesNeeded"
  proof (cases "\<exists>v \<in> set (vb_votes box'). live_vote v \<and> mv_selection v = s")
    case True
    with exact(2) have "(s, points_for s (vb_votes box')) \<in> set (vb_tally box')" by simp
    with none show ?thesis by (force simp: find_None_iff not_le)
  next
    case False
    then have "filter (\<lambda>v. live_vote v \<and> mv_selection v = s) (vb_votes box') = []"
      by (auto simp: filter_empty_conv)
    then show ?thesis by (simp add: points_for_def VotesNeeded_def)
  qed
qed

text \<open>
  A vote decides by points: when the vote of a caller is entered, the map changes to a
  selection only if the live votes for it in the box at that moment are worth two points, and it
  changes to none only if no selection reached two points.
\<close>

theorem vote_is_decided_by_points:
  assumes "vote_guard env arg box = None"
    and "enter_vote env arg (snd (TallyMapVotes (ve_now env) box)) = Inr box1"
    and "TallyMapVotes (ve_now env) box1 = (valid, box2)"
  shows "(\<exists>chosen. fst (CheckVote env ok arg box file) = VotePassed chosen
             \<and> VotesNeeded \<le> points_for chosen (vb_votes box2))
    \<or> fst (CheckVote env ok arg box file) = VoteCounted \<and> fst (snd (CheckVote env ok arg box file)) = box2
        \<and> (\<forall>s. points_for s (vb_votes box2) < VotesNeeded)"
proof (cases "find (\<lambda>(s, n). VotesNeeded \<le> n) (vb_tally box2)")
  case None
  with assms find_tally(2) [OF assms(3) None] show ?thesis
    by (simp add: CheckVote_decides decide_vote_def)
next
  case (Some p)
  obtain chosen n where p: "p = (chosen, n)" by (cases p)
  with assms Some find_tally(1) [OF assms(3) Some [unfolded p]] show ?thesis
    by (auto simp: CheckVote_decides decide_vote_def)
qed

text \<open>
  After a vote has passed the box is empty, also in the saved file if the write succeeds, and
  the cooldown has begun: the caller had a role that may vote and the server was running, and
  whatever is asked within the next minute is refused and leaves box and file alone.
\<close>

theorem passed_vote_starts_cooldown:
  assumes "CheckVote env ok arg box file = (VotePassed chosen, box', file')"
  shows "(ve_regular env \<or> ve_veteran env \<or> ve_moderator env \<or> ve_admin env) \<and> ve_up env
    \<and> vb_votes box' = [] \<and> vb_tally box' = [] \<and> vb_last_change box' = round_second (ve_now env)
    \<and> vb_num_changes box' = vb_num_changes box + 1
    \<and> file' = (if ok then VoteFile [] (vb_num_changes box') else file)
    \<and> (\<forall>env2 ok2 arg2. vb_last_change box' \<noteq> zero_time \<and> ve_now env2 - vb_last_change box' < MapCooldown \<longrightarrow>
         snd (CheckVote env2 ok2 arg2 box' file') = (box', file')
         \<and> fst (CheckVote env2 ok2 arg2 box' file') \<in>
             {VoteIgnored, NotRunning, NotAllowed, NoSuchSave, InvalidSave, MapOnCooldown})"
proof -
  have d: "decide_vote env arg box = (VotePassed chosen, box')" and f: "file' = snd (WriteVotes ok box' file)"
    using assms by (auto simp: CheckVote_def split: prod.splits vote_result.splits)
  have quiet: "snd (CheckVote env2 ok2 arg2 box' file') = (box', file')
      \<and> fst (CheckVote env2 ok2 arg2 box' file') \<in> {VoteIgnored, NotRunning, NotAllowed, NoSuchSave, InvalidSave, MapOnCooldown}"
    if "vb_last_change box' \<noteq> zero_time \<and> ve_now env2 - vb_last_change box' < MapCooldown" for env2 ok2 arg2
    using that by (auto simp: CheckVote_def decide_vote_def vote_guard_def Let_def)
  from d show ?thesis
  proof (cases rule: decide_vote_cases)
    case (entered box1)
    obtain valid box2 where t: "TallyMapVotes (ve_now env) box1 = (valid, box2)"
      by (cases "TallyMapVotes (ve_now env) box1")
    have same: "vb_num_changes (snd (TallyMapVotes now b)) = vb_num_changes b" for now b
      by (simp add: TallyMapVotes_def split_def Let_def)
    have "vb_num_changes box1 = vb_num_changes box"
      using entered(2) same by (auto simp: enter_vote_def Let_def split: option.splits if_splits)
    then have n: "vb_num_changes box2 = vb_num_changes box" using same [of "ve_now env" box1] t by simp
    from entered(3) t have
      box': "box' = VoidAllVotes (box2\<lparr>vb_last_change := round_second (ve_now env), vb_num_changes := vb_num_changes box2 + 1\<rparr>)"
      by (auto split: option.splits)
    have "ve_up env \<and> (ve_regular env \<or> ve_veteran env \<or> ve_moderator env \<or> ve_admin env)"
      using entered(1) by (auto simp: vote_guard_def Let_def split: if_splits)
    then have "(ve_regular env \<or> ve_veteran env \<or> ve_moderator env \<or> ve_admin env)" "ve_up env" by auto
    moreover have "vb_votes box' = []" "vb_tally box' = []" "vb_last_change box' = round_second (ve_now env)"
      "vb_num_changes box' = vb_num_changes box + 1"
      by (simp_all add: box' VoidAllVotes_def n)
    moreover from this have "file' = (if ok then VoteFile [] (vb_num_changes box') else file)"
      by (simp add: f WriteVotes_def)
    ultimately show ?thesis using quiet by blast
  qed (use guard_not_passed enter_not_passed in auto)
qed

definition bea :: vote_env where
  "bea = \<lparr>ve_now = 100 * second_ns, ve_up = True, ve_name = ''bea'', ve_id = ''2'', ve_regular = True, ve_veteran = False,
     ve_moderator = False, ve_admin = False, ve_supporter = False, ve_missing = False, ve_save_good = True,
     ve_server_name = ''m45''\<rparr>"

lemma bea_folds: "\<not> equal_fold ''new-map'' ''already-skipped''" "\<not> equal_fold ''1'' ''2''" "equal_fold s s"
  by (simp_all add: equal_fold_def to_lower_def to_lower_char_def Let_def char_of_def bit_0)

lemmas vote_eval = vote_guard_def bea_def ann_box_def ann_vote_def bea_folds TallyMapVotes_def
  VoteExpire_def enter_vote_def same_voter_def new_vote_def vote_points_def VotesNeeded_def MapCooldown_def

lemma bea_steps:
  "vote_guard bea ''new-map'' ann_box = None"
  "enter_vote bea ''new-map'' (snd (TallyMapVotes (ve_now bea) ann_box))
     = Inr \<lparr>vb_votes = [ann_vote, new_vote bea ''new-map''], vb_tally = [(''new-map'', 1)], vb_last_change = 0, vb_num_changes = 0\<rparr>"
  "TallyMapVotes (ve_now bea) \<lparr>vb_votes = [ann_vote, new_vote bea ''new-map''], vb_tally = [(''new-map'', 1)], vb_last_change = 0, vb_num_changes = 0\<rparr>
     = (2, \<lparr>vb_votes = [ann_vote, new_vote bea ''new-map''], vb_tally = [(''new-map'', 2)], vb_last_change = 0, vb_num_changes = 0\<rparr>)"
  by (simp_all add: vote_eval Let_def)

theorem vote_is_decided_by_points_witness:
  "\<exists>chosen. fst (CheckVote bea True ''new-map'' ann_box VoteFileMissing) = VotePassed chosen"
  using vote_is_decided_by_points [OF bea_steps, of True VoteFileMissing]
  by (auto simp: points_for_def live_vote_def vote_points_def VotesNeeded_def ann_vote_def new_vote_def bea_def
      dest: spec [of _ "''new-map''"])

lemma bea_passes: "fst (CheckVote bea True ''new-map'' ann_box VoteFileMissing) = VotePassed ''new-map''"
  by (simp add: CheckVote_decides decide_vote_def bea_steps VotesNeeded_def)

theorem passed_vote_starts_cooldown_witness:
  "\<exists>box' file'. CheckVote bea True ''new-map'' ann_box VoteFileMissing = (VotePassed ''new-map'', box', file')
     \<and> vb_votes box' = [] \<and> file' = VoteFile [] 1"
proof -
  obtain box' file' where run: "CheckVote bea True ''new-map'' ann_box VoteFileMissing = (VotePassed ''new-map'', box', file')"
    using bea_passes by (cases "CheckVote bea True ''new-map'' ann_box VoteFileMissing") auto
  with passed_vote_starts_cooldown [OF run] show ?thesis by (simp add: ann_box_def)
qed

section \<open>One vote per voter\<close>

definition voter_of :: "map_vote \<Rightarrow> string \<times> string" where
  "voter_of v = (to_lower (mv_disc_id v), to_lower (mv_name v))"

definition box_ok :: "vote_box \<Rightarrow> bool" where
  "box_ok box \<longleftrightarrow> distinct (map voter_of (vb_votes box)) \<and>
     (\<forall>v \<in> set (vb_votes box). 0 \<le> mv_num_changes v \<and> mv_num_changes v \<le> MaxVoteChanges)"

lemma mark_votes_voters:
  "map voter_of (fst (mark_votes now vs)) = map voter_of vs"
  by (induction now vs rule: mark_votes.induct) (auto simp: voter_of_def Let_def split_def)

lemma mark_votes_changes:
  "(\<forall>v \<in> set vs. 0 \<le> mv_num_changes v \<and> mv_num_changes v \<le> MaxVoteChanges) \<Longrightarrow>
   v' \<in> set (fst (mark_votes now vs)) \<Longrightarrow> 0 \<le> mv_num_changes v' \<and> mv_num_changes v' \<le> MaxVoteChanges"
  by (induction now vs rule: mark_votes.induct)
    (auto simp: Let_def split_def MaxVoteChanges_def split: if_splits)

lemma box_ok_tally: "box_ok box \<Longrightarrow> box_ok (snd (TallyMapVotes now box))"
  using mark_votes_voters [of now "vb_votes box"] mark_votes_changes [of "vb_votes box" _ now]
  by (auto simp: box_ok_def TallyMapVotes_def Let_def split_def)

lemma find_vote_spec:
  "find_vote env vs = Some i \<Longrightarrow> i < length vs \<and> same_voter env (vs ! i)"
  "find_vote env vs = None \<Longrightarrow> \<forall>v \<in> set vs. \<not> same_voter env v"
  by (induction vs arbitrary: i) (auto split: if_splits)

lemma same_voter_iff: "same_voter env v \<longleftrightarrow> voter_of v = (to_lower (ve_id env), to_lower (ve_name env))"
  by (auto simp: same_voter_def voter_of_def equal_fold_def)

lemma voter_update: "i < length vs \<Longrightarrow> voter_of v = voter_of (vs ! i) \<Longrightarrow> map voter_of (vs[i := v]) = map voter_of vs"
  by (simp add: map_update list_update_same_conv)

lemma box_ok_enter:
  assumes "box_ok box" "enter_vote env arg box = Inr box'"
  shows "box_ok box'"
proof (cases "find_vote env (vb_votes box)")
  case None
  have "voter_of (new_vote env arg) = (to_lower (ve_id env), to_lower (ve_name env))"
    by (simp add: voter_of_def new_vote_def)
  with find_vote_spec(2) [OF None] have "voter_of (new_vote env arg) \<notin> voter_of ` set (vb_votes box)"
    by (auto simp: same_voter_iff)
  with None assms show ?thesis
    by (auto simp: enter_vote_def box_ok_def new_vote_def MaxVoteChanges_def)
next
  case (Some i)
  note i = find_vote_spec(1) [OF Some]
  let ?v = "vb_votes box ! i"
  have v: "0 \<le> mv_num_changes ?v" using assms(1) i by (simp add: box_ok_def)
  have keep: "box_ok (box\<lparr>vb_votes := (vb_votes box)[i := w]\<rparr>)"
    if "voter_of w = voter_of ?v" "0 \<le> mv_num_changes w" "mv_num_changes w \<le> MaxVoteChanges" for w
    using assms(1) i that voter_update [of i "vb_votes box" w]
    by (auto simp: box_ok_def dest!: set_update_subset_insert [THEN subsetD])
  have "voter_of (new_vote env arg\<lparr>mv_total_votes := 1\<rparr>) = voter_of ?v"
    using i by (simp add: same_voter_iff) (simp add: voter_of_def new_vote_def)
  with assms(2) Some v show ?thesis
    by (auto simp: enter_vote_def Let_def MaxVoteChanges_def voter_of_def new_vote_def
        split: if_splits intro!: keep)
qed

text \<open>
  A member of the guild has one vote: starting from a box in which the voters are distinct
  and nobody has changed a vote more than twice, every call of \<open>CheckVote\<close> and every tally leaves
  such a box, whatever its outcome.
\<close>

theorem one_vote_per_voter:
  assumes "box_ok box"
  shows "box_ok (fst (snd (CheckVote env ok arg box file))) \<and> box_ok (snd (TallyMapVotes now box))"
proof -
  obtain r box' where run: "decide_vote env arg box = (r, box')" by (cases "decide_vote env arg box")
  then have "box_ok box'"
  proof (cases rule: decide_vote_cases)
    case (entered box1)
    have "box_ok (snd (TallyMapVotes (ve_now env) box1))"
      by (intro box_ok_tally box_ok_enter [OF _ entered(2)] box_ok_tally assms)
    moreover have "box_ok (VoidAllVotes b)" for b by (simp add: VoidAllVotes_def box_ok_def)
    ultimately show ?thesis using entered(3) by (auto split: option.splits)
  qed (use assms box_ok_tally in auto)
  with run box_ok_tally [OF assms] show ?thesis by (simp add: CheckVote_decides)
qed

theorem one_vote_per_voter_witness: "box_ok (fst (snd (CheckVote bea True ''new-map'' ann_box VoteFileMissing)))"
  using one_vote_per_voter [of ann_box bea True "''new-map''" VoteFileMissing]
  by (simp add: box_ok_def ann_box_def ann_vote_def MaxVoteChanges_def)

lemma find_vote_update:
  assumes "find_vote env vs = Some i" "same_voter env w"
    and "ve_id later = ve_id env" "ve_name later = ve_name env"
  shows "find_vote later (vs[i := w]) = Some i"
proof -
  have same: "same_voter later v = same_voter env v" for v
    using assms(3,4) by (simp add: same_voter_def)
  show ?thesis using assms(1,2)
    by (induction vs arbitrary: i) (auto simp: same split: if_splits)
qed

text \<open>
  The limit on votes per map does not limit repeated votes: each accepted repetition of a
  vote starts the count at one again, so a voter who repeats the same choice after every cooldown
  is accepted again, with the count still at one.
\<close>

theorem repeated_vote_is_never_limited:
  assumes "find_vote env (vb_votes box) = Some i" and "mv_selection (vb_votes box ! i) = arg"
    and "mv_num_changes (vb_votes box ! i) < MaxVoteChanges"
    and "mv_total_votes (vb_votes box ! i) < MaxVotesPerMap"
    and "VoteCooldown \<le> ve_now env - mv_time (vb_votes box ! i)"
  shows "\<exists>box1 box2. enter_vote env arg box = Inr box1 \<and> mv_total_votes (vb_votes box1 ! i) = 1
    \<and> enter_vote (env\<lparr>ve_now := ve_now env + VoteCooldown\<rparr>) arg box1 = Inr box2
    \<and> mv_total_votes (vb_votes box2 ! i) = 1"
proof -
  let ?later = "env\<lparr>ve_now := ve_now env + VoteCooldown\<rparr>"
  note i = find_vote_spec(1) [OF assms(1)]
  let ?w = "(new_vote env arg)\<lparr>mv_total_votes := 1\<rparr>"
  let ?box1 = "box\<lparr>vb_votes := (vb_votes box)[i := ?w]\<rparr>"
  have 1: "enter_vote env arg box = Inr ?box1"
    using assms by (simp add: enter_vote_def Let_def)
  have "same_voter env ?w" by (simp add: same_voter_def new_vote_def equal_fold_def)
  then have "find_vote ?later (vb_votes ?box1) = Some i"
    using find_vote_update [OF assms(1)] by simp
  then have "enter_vote ?later arg ?box1
      = Inr (?box1\<lparr>vb_votes := (vb_votes ?box1)[i := (new_vote ?later arg)\<lparr>mv_total_votes := 1\<rparr>]\<rparr>)"
    using i by (simp add: enter_vote_def Let_def new_vote_def MaxVoteChanges_def MaxVotesPerMap_def)
  with 1 i show ?thesis by auto
qed

definition ann :: vote_env where
  "ann = bea\<lparr>ve_name := ''ann'', ve_id := ''1'', ve_now := VoteCooldown\<rparr>"

theorem repeated_vote_is_never_limited_witness:
  "\<exists>box1. enter_vote ann ''new-map'' ann_box = Inr box1 \<and> mv_total_votes (vb_votes box1 ! 0) = 1"
  using repeated_vote_is_never_limited [of ann ann_box 0 "''new-map''"]
  by (auto simp: ann_def bea_def ann_box_def ann_vote_def same_voter_def bea_folds MaxVoteChanges_def MaxVotesPerMap_def)

section \<open>Saving and restoring\<close>

text \<open>
  A saved vote box reads back: after a successful write the file restores the votes and the
  number of changes whatever the box was in the meantime, and a failed write keeps the old file.
  The restored box starts a cooldown of its own: within a minute of the reading every request is
  refused.
\<close>

theorem vote_file_roundtrip:
  assumes "round_second now \<noteq> zero_time"
  shows "(let (ok, box') = ReadVotes now (snd (WriteVotes True box file)) other in
      ok \<and> vb_votes box' = vb_votes box \<and> vb_num_changes box' = vb_num_changes box
      \<and> (\<forall>env ok2 arg file2. ve_now env - round_second now < MapCooldown \<longrightarrow>
           snd (CheckVote env ok2 arg box' file2) = (box', file2)))
    \<and> WriteVotes False box file = (False, file)"
  using assms
  by (auto simp: ReadVotes_def WriteVotes_def createVoteContainer_def CheckVote_def decide_vote_def
      vote_guard_def Let_def)

theorem vote_file_roundtrip_witness:
  "vb_votes (snd (ReadVotes second_ns (snd (WriteVotes True ann_box VoteFileMissing)) ann_box)) = [ann_vote]"
  using vote_file_roundtrip [of second_ns ann_box VoteFileMissing ann_box]
  by (simp add: round_second_def Let_def split_def ann_box_def)

end
