(* ===== verification/Go_Base64.thy ===== *)
theory Go_Base64
  imports CW_Prelude
begin

text \<open>
  \<open>encoding/base64\<close>: \<open>StdEncoding\<close> and \<open>RawStdEncoding\<close>, and \<open>RawURLEncoding\<close> as the unpadded
  encoding with two characters exchanged.
\<close>

section \<open>Decoding and encoding\<close>

definition b64_alphabet :: string where
  "b64_alphabet = ''ABCDEFGHIJKLMNOPQRSTUVWXYZabcdefghijklmnopqrstuvwxyz0123456789+/''"

fun index_in :: "char \<Rightarrow> string \<Rightarrow> nat option" where
  "index_in c [] = None"
| "index_in c (d # ds) = (if c = d then Some 0 else map_option Suc (index_in c ds))"

definition sextet :: "char \<Rightarrow> nat option" where
  "sextet c = index_in c b64_alphabet"

definition quantum2 :: "nat \<Rightarrow> nat \<Rightarrow> byte list" where
  "quantum2 a b = [of_nat (a * 4 + b div 16)]"

definition quantum3 :: "nat \<Rightarrow> nat \<Rightarrow> nat \<Rightarrow> byte list" where
  "quantum3 a b c = quantum2 a b @ [of_nat (b mod 16 * 16 + c div 4)]"

definition quantum4 :: "nat \<Rightarrow> nat \<Rightarrow> nat \<Rightarrow> nat \<Rightarrow> byte list" where
  "quantum4 a b c d = quantum3 a b c @ [of_nat (c mod 4 * 64 + d)]"

text \<open>\<open>DecodeString\<close> of \<open>StdEncoding\<close> (with padding) and \<open>RawStdEncoding\<close> (without): line ends
  are skipped, the last quantum may be short, bits beyond the last byte are ignored.\<close>

fun b64_quanta :: "bool \<Rightarrow> string \<Rightarrow> byte list option" where
  "b64_quanta pad [] = Some []"
| "b64_quanta pad [_] = None"
| "b64_quanta pad [a, b] = (case (sextet a, sextet b) of
     (Some a, Some b) \<Rightarrow> if pad then None else Some (quantum2 a b) | _ \<Rightarrow> None)"
| "b64_quanta pad [a, b, c] = (case (sextet a, sextet b, sextet c) of
     (Some a, Some b, Some c) \<Rightarrow> if pad then None else Some (quantum3 a b c) | _ \<Rightarrow> None)"
| "b64_quanta pad (a # b # c # d # rest) =
     (case (sextet a, sextet b) of
        (Some a, Some b) \<Rightarrow>
          (if pad \<and> c = CHR ''='' then (if d = CHR ''='' \<and> rest = [] then Some (quantum2 a b) else None)
           else case sextet c of
             None \<Rightarrow> None
           | Some c \<Rightarrow>
               (if pad \<and> d = CHR ''='' then (if rest = [] then Some (quantum3 a b c) else None)
                else case sextet d of
                  None \<Rightarrow> None
                | Some d \<Rightarrow> map_option (\<lambda>bs. quantum4 a b c d @ bs) (b64_quanta pad rest)))
      | _ \<Rightarrow> None)"

definition base64_DecodeString :: "bool \<Rightarrow> string \<Rightarrow> byte list option" where
  "base64_DecodeString pad s = b64_quanta pad (filter (\<lambda>c. c \<noteq> CHR 0x0A \<and> c \<noteq> CHR 0x0D) s)"

text \<open>\<open>EncodeToString\<close>, with and without padding.\<close>

definition b64_char :: "nat \<Rightarrow> char" where
  "b64_char n = b64_alphabet ! n"

fun b64_encode :: "bool \<Rightarrow> byte list \<Rightarrow> string" where
  "b64_encode pad [] = []"
| "b64_encode pad [x] = [b64_char (unat x div 4), b64_char (unat x mod 4 * 16)] @ (if pad then ''=='' else [])"
| "b64_encode pad [x, y] = [b64_char (unat x div 4), b64_char (unat x mod 4 * 16 + unat y div 16),
     b64_char (unat y mod 16 * 4)] @ (if pad then ''='' else [])"
| "b64_encode pad (x # y # z # bs) = [b64_char (unat x div 4), b64_char (unat x mod 4 * 16 + unat y div 16),
     b64_char (unat y mod 16 * 4 + unat z div 64), b64_char (unat z mod 64)] @ b64_encode pad bs"

text \<open>\<open>RawURLEncoding\<close>: minus and underscore in place of plus and slash.\<close>

definition url_to_std :: "char \<Rightarrow> char" where
  "url_to_std c = (if c = CHR ''-'' then CHR ''+'' else if c = CHR ''_'' then CHR ''/''
     else if c = CHR ''+'' \<or> c = CHR ''/'' then CHR ''!'' else c)"

definition std_to_url :: "char \<Rightarrow> char" where
  "std_to_url c = (if c = CHR ''+'' then CHR ''-'' else if c = CHR ''/'' then CHR ''_'' else c)"

definition rawurl_DecodeString :: "string \<Rightarrow> byte list option" where
  "rawurl_DecodeString s = base64_DecodeString False (map url_to_std s)"

definition rawurl_EncodeToString :: "byte list \<Rightarrow> string" where
  "rawurl_EncodeToString bs = map std_to_url (b64_encode False bs)"

section \<open>Facts\<close>

lemma index_in_nth: "distinct xs \<Longrightarrow> n < length xs \<Longrightarrow> index_in (xs ! n) xs = Some n"
  by (induction xs arbitrary: n) (auto simp: nth_Cons split: nat.splits)

lemma alphabet_distinct: "distinct b64_alphabet" "length b64_alphabet = 64"
  unfolding b64_alphabet_def by code_simp+

lemma sextet_char [simp]: "n < 64 \<Longrightarrow> sextet (b64_char n) = Some n"
  unfolding sextet_def b64_char_def by (rule index_in_nth) (simp_all add: alphabet_distinct)

lemma alphabet_clean: "c \<in> set b64_alphabet \<Longrightarrow> \<not> is_space c \<and> c \<notin> {CHR ''='', CHR ''<'', CHR ''>''}"
proof -
  have "list_all (\<lambda>c. \<not> is_space c \<and> c \<notin> {CHR ''='', CHR ''<'', CHR ''>''}) b64_alphabet"
    unfolding b64_alphabet_def by code_simp
  then show "c \<in> set b64_alphabet \<Longrightarrow> \<not> is_space c \<and> c \<notin> {CHR ''='', CHR ''<'', CHR ''>''}"
    by (simp add: list_all_iff)
qed

lemma b64_char_clean [simp]: "n < 64 \<Longrightarrow> \<not> is_space (b64_char n)" "n < 64 \<Longrightarrow> b64_char n \<noteq> CHR ''=''"
  "n < 64 \<Longrightarrow> b64_char n \<noteq> CHR ''<''"
  using alphabet_clean [of "b64_char n"] nth_mem [of n b64_alphabet]
  by (auto simp: b64_char_def alphabet_distinct)

lemma unat_byte: "unat (x :: byte) < 256"
proof -
  have "unat x < 2 ^ LENGTH(8)" by (rule unsigned_less)
  then show ?thesis by simp
qed

lemma sextet_bounds [simp]:
  fixes x y :: byte
  shows "unat x div 4 < 64" "unat x mod 4 * 16 < 64" "unat x mod 4 * 16 + unat y div 16 < 64"
    "unat x mod 16 * 4 < 64" "unat x mod 16 * 4 + unat y div 64 < 64" "unat x mod 64 < 64"
  using unat_byte [of x] unat_byte [of y] by auto

lemma quanta [simp]:
  fixes x y z :: byte
  shows "quantum2 (unat x div 4) (unat x mod 4 * 16) = [x]"
    "quantum3 (unat x div 4) (unat x mod 4 * 16 + unat y div 16) (unat y mod 16 * 4) = [x, y]"
    "quantum4 (unat x div 4) (unat x mod 4 * 16 + unat y div 16) (unat y mod 16 * 4 + unat z div 64) (unat z mod 64) = [x, y, z]"
proof -
  have 1: "unat x div 4 * 4 + (unat x mod 4 * 16 + n) div 16 = unat x" if "n < 16" for n using that by simp
  have 2: "(unat x mod 4 * 16 + unat y div 16) mod 16 * 16 + (unat y mod 16 * 4 + n) div 4 = unat y" if "n < 4" for n
    using that unat_byte [of y] by simp
  have 3: "(unat y mod 16 * 4 + unat z div 64) mod 4 * 64 + unat z mod 64 = unat z"
    using unat_byte [of z] by simp
  have b: "unat y div 16 < 16" "unat z div 64 < 4" using unat_byte [of y] unat_byte [of z] by simp_all
  show "quantum2 (unat x div 4) (unat x mod 4 * 16) = [x]"
    using 1 [of 0] by (simp add: quantum2_def del: of_nat_add of_nat_mult)
  show "quantum3 (unat x div 4) (unat x mod 4 * 16 + unat y div 16) (unat y mod 16 * 4) = [x, y]"
    using 1 [OF b(1)] 2 [of 0] by (simp add: quantum3_def quantum2_def del: of_nat_add of_nat_mult)
  show "quantum4 (unat x div 4) (unat x mod 4 * 16 + unat y div 16) (unat y mod 16 * 4 + unat z div 64) (unat z mod 64) = [x, y, z]"
    using 1 [OF b(1)] 2 [OF b(2)] 3
    by (simp add: quantum4_def quantum3_def quantum2_def del: of_nat_add of_nat_mult)
qed

lemma b64_roundtrip: "b64_quanta pad (b64_encode pad bs) = Some bs"
  by (induction pad bs rule: b64_encode.induct) auto

lemma b64_unpadded_rejected: "b64_quanta True (b64_encode False bs) = (if length bs mod 3 = 0 then Some bs else None)"
  by (induction False bs rule: b64_encode.induct) (auto simp: mod_Suc)

lemma b64_unpadded_length:
  "b64_encode True bs = b64_encode False bs @ (if length bs mod 3 = 1 then ''=='' else if length bs mod 3 = 2 then ''='' else [])"
  "length (b64_encode False bs) mod 4 = (if length bs mod 3 = 1 then 2 else if length bs mod 3 = 2 then 3 else 0)"
  by (induction False bs rule: b64_encode.induct) (auto simp: mod_Suc)

lemma equals_not_space [simp]: "\<not> is_space (CHR ''='')"
  by (simp add: is_space_def)

lemma b64_encode_chars: "c \<in> set (b64_encode pad bs) \<Longrightarrow> \<not> is_space c"
  by (induction pad bs rule: b64_encode.induct) (auto split: if_splits)

lemma DecodeString_clean: "(\<And>c. c \<in> set s \<Longrightarrow> \<not> is_space c) \<Longrightarrow> base64_DecodeString pad s = b64_quanta pad s"
proof -
  assume a: "\<And>c. c \<in> set s \<Longrightarrow> \<not> is_space c"
  have "is_space (CHR 0x0A)" "is_space (CHR 0x0D)" by (simp_all add: is_space_def)
  with a have "filter (\<lambda>c. c \<noteq> CHR 0x0A \<and> c \<noteq> CHR 0x0D) s = s" by (auto simp: filter_id_conv)
  then show ?thesis by (simp add: base64_DecodeString_def)
qed

lemma b64_encode_alphabet: "c \<in> set (b64_encode False bs) \<Longrightarrow> c \<in> set b64_alphabet"
  by (induction False bs rule: b64_encode.induct) (auto simp: b64_char_def alphabet_distinct)

lemma rawurl_roundtrip: "rawurl_DecodeString (rawurl_EncodeToString bs) = Some bs"
proof -
  have "list_all (\<lambda>c. url_to_std (std_to_url c) = c) b64_alphabet" unfolding b64_alphabet_def by code_simp
  then have "map (url_to_std \<circ> std_to_url) (b64_encode False bs) = b64_encode False bs"
    using b64_encode_alphabet [of _ bs] by (intro map_idI) (auto simp: list_all_iff)
  then show ?thesis
    using b64_roundtrip [of False bs] b64_encode_chars
    by (simp add: rawurl_DecodeString_def rawurl_EncodeToString_def DecodeString_clean)
qed

end
