(* ===== verification/Map_Exchange.thy ===== *)
theory Map_Exchange
  imports Go_Std Go_Base64 "HOL-Library.State_Monad"
begin

text \<open>
  The parser of Factorio map exchange strings (fact/mapExchange.go) and the files it writes.
  The parser object is the record \<open>px\<close>; its methods are computations of the state monad, with
  the sticky error of \<open>setErr\<close>: after the first error nothing more is read.  The Go type
  \<open>interface{}\<close> is \<open>px_value\<close>.  Floating-point numbers keep their bits; the coordinates of a
  position, which the code computes as \<open>float64\<close> multiples of 1/256 far below 53 bits, are
  integers in units of 1/256.  The zlib decompression and the JSON decoder are arguments.
\<close>

section \<open>The parser object\<close>

datatype px_value = PNil | PBool bool | PUint nat | PInt int | PFloat "32 word" | PDouble "64 word"
  | PCoord int | PNumber string | PString string | PArray "px_value list" | PMap "(string \<times> px_value) list"

datatype px_error = EndedUnexpectedly nat | StringTooLong "32 word" | ArrayTooLarge "32 word"
  | DictionaryTooLarge "32 word" | InvalidResearchQueue nat

record px =
  px_data :: "byte list"
  px_pos :: nat
  px_err :: "px_error option"
  px_last :: "int \<times> int"

type_synonym 'a reader = "(px, 'a) state"

abbreviation ret :: "'a \<Rightarrow> 'a reader" where "ret \<equiv> State_Monad.return"

definition newMapExchangeParser :: "byte list \<Rightarrow> px" where
  "newMapExchangeParser data = \<lparr>px_data = data, px_pos = 0, px_err = None, px_last = (0, 0)\<rparr>"

definition setErr :: "px_error \<Rightarrow> unit reader" where
  "setErr e = State (\<lambda>p. ((), if px_err p = None then p\<lparr>px_err := Some e\<rparr> else p))"

definition has_err :: "bool reader" where
  "has_err = State (\<lambda>p. (px_err p \<noteq> None, p))"

definition bytes_left :: "32 word reader" where
  "bytes_left = State (\<lambda>p. (word_of_int (int (length (px_data p)) - int (px_pos p)), p))"

definition readBytes :: "int \<Rightarrow> byte list option reader" where
  "readBytes n = State (\<lambda>p.
     if px_err p \<noteq> None then (None, p)
     else if n < 0 \<or> int (length (px_data p)) < int (px_pos p) + n
     then (None, p\<lparr>px_err := Some (EndedUnexpectedly (px_pos p))\<rparr>)
     else (Some (take (nat n) (drop (px_pos p) (px_data p))), p\<lparr>px_pos := px_pos p + nat n\<rparr>))"

section \<open>Numbers and strings\<close>

definition readUint8 :: "byte reader" where
  "readUint8 = do { b \<leftarrow> readBytes 1; ret (case b of None \<Rightarrow> 0 | Some b \<Rightarrow> hd b) }"

definition readBool :: "bool reader" where
  "readBool = do { x \<leftarrow> readUint8; ret (x \<noteq> 0) }"

definition readUint16 :: "16 word reader" where
  "readUint16 = do { b \<leftarrow> readBytes 2; ret (case b of None \<Rightarrow> 0 | Some b \<Rightarrow> of_nat (le_get b)) }"

definition readInt16 :: "int reader" where
  "readInt16 = do { b \<leftarrow> readBytes 2;
     ret (case b of None \<Rightarrow> 0 | Some b \<Rightarrow> sint (of_nat (le_get b) :: 16 word)) }"

definition readUint32 :: "32 word reader" where
  "readUint32 = do { b \<leftarrow> readBytes 4; ret (case b of None \<Rightarrow> 0 | Some b \<Rightarrow> of_nat (le_get b)) }"

definition readInt32 :: "int reader" where
  "readInt32 = do { b \<leftarrow> readBytes 4;
     ret (case b of None \<Rightarrow> 0 | Some b \<Rightarrow> sint (of_nat (le_get b) :: 32 word)) }"

definition readUint32SO :: "32 word reader" where
  "readUint32SO = do { x \<leftarrow> readUint8; if x = 0xff then readUint32 else ret (ucast x) }"

text \<open>\<open>readFloat\<close> and \<open>readDouble\<close> give the bits that \<open>math.Float32frombits\<close> and
  \<open>math.Float64frombits\<close> interpret.\<close>

definition readFloat :: "32 word reader" where
  "readFloat = readUint32"

definition readDouble :: "64 word reader" where
  "readDouble = do { b \<leftarrow> readBytes 8; ret (case b of None \<Rightarrow> 0 | Some b \<Rightarrow> of_nat (le_get b)) }"

definition readString :: "string reader" where
  "readString = do {
     n \<leftarrow> readUint32SO;
     left \<leftarrow> bytes_left;
     if left < n then do { setErr (StringTooLong n); ret [] }
     else do { b \<leftarrow> readBytes (uint n); ret (case b of None \<Rightarrow> [] | Some b \<Rightarrow> str_of b) } }"

section \<open>The version\<close>

datatype version = Version "16 word" "16 word" "16 word" "16 word"

primrec version_parts :: "version \<Rightarrow> 16 word list" where
  "version_parts (Version a b c d) = [a, b, c, d]"

definition readVersion :: "version reader" where
  "readVersion = do { a \<leftarrow> readUint16; b \<leftarrow> readUint16; c \<leftarrow> readUint16; d \<leftarrow> readUint16; ret (Version a b c d) }"

fun at_least_loop :: "16 word list \<Rightarrow> 16 word list \<Rightarrow> bool" where
  "at_least_loop (v # vs) (t # ts) = (if t < v then True else if v < t then False else at_least_loop vs ts)"
| "at_least_loop _ _ = True"

definition versionAtLeast :: "version \<Rightarrow> 16 word \<Rightarrow> 16 word \<Rightarrow> 16 word \<Rightarrow> 16 word \<Rightarrow> bool" where
  "versionAtLeast v major minor patch dev = at_least_loop (version_parts v) [major, minor, patch, dev]"

section \<open>Combinators\<close>

text \<open>The conversions of a result to \<open>interface{}\<close>.\<close>

definition any_bool :: "px_value reader" where "any_bool = do { x \<leftarrow> readBool; ret (PBool x) }"
definition any_uint8 :: "px_value reader" where "any_uint8 = do { x \<leftarrow> readUint8; ret (PUint (unat x)) }"
definition any_uint32 :: "px_value reader" where "any_uint32 = do { x \<leftarrow> readUint32; ret (PUint (unat x)) }"
definition any_int16 :: "px_value reader" where "any_int16 = do { x \<leftarrow> readInt16; ret (PInt x) }"
definition any_int32 :: "px_value reader" where "any_int32 = do { x \<leftarrow> readInt32; ret (PInt x) }"
definition any_float :: "px_value reader" where "any_float = do { x \<leftarrow> readFloat; ret (PFloat x) }"
definition any_double :: "px_value reader" where "any_double = do { x \<leftarrow> readDouble; ret (PDouble x) }"
definition any_string :: "px_value reader" where "any_string = do { x \<leftarrow> readString; ret (PString x) }"

definition readOptional :: "px_value reader \<Rightarrow> px_value reader" where
  "readOptional readValue = do { b \<leftarrow> readBool; if \<not> b then ret PNil else readValue }"

text \<open>The loops of \<open>readArray\<close> and \<open>readStringDict\<close>, left when an error has occurred.\<close>

primrec read_items :: "px_value reader \<Rightarrow> nat \<Rightarrow> px_value list reader" where
  "read_items readItem 0 = ret []"
| "read_items readItem (Suc n) = do { e \<leftarrow> has_err; if e then ret []
     else do { x \<leftarrow> readItem; xs \<leftarrow> read_items readItem n; ret (x # xs) } }"

definition readArray :: "px_value reader \<Rightarrow> px_value list reader" where
  "readArray readItem = do { n \<leftarrow> readUint32SO;
     if 100000 < n then do { setErr (ArrayTooLarge n); ret [] } else read_items readItem (unat n) }"

primrec read_entries :: "px_value reader \<Rightarrow> nat \<Rightarrow> (string, px_value) gomap \<Rightarrow> (string, px_value) gomap reader" where
  "read_entries readValue 0 out = ret out"
| "read_entries readValue (Suc n) out = do { e \<leftarrow> has_err; if e then ret out
     else do { key \<leftarrow> readString; v \<leftarrow> readValue; read_entries readValue n (gm_put out key v) } }"

definition readStringDict :: "px_value reader \<Rightarrow> (string, px_value) gomap reader" where
  "readStringDict readValue = do { n \<leftarrow> readUint32SO;
     if 100000 < n then do { setErr (DictionaryTooLarge n); ret [] } else read_entries readValue (unat n) [] }"

definition any_array :: "px_value reader \<Rightarrow> px_value reader" where
  "any_array readItem = do { xs \<leftarrow> readArray readItem; ret (PArray xs) }"
definition any_dict :: "px_value reader \<Rightarrow> px_value reader" where
  "any_dict readValue = do { m \<leftarrow> readStringDict readValue; ret (PMap m) }"

definition readStringArray :: "px_value list reader" where
  "readStringArray = readArray any_string"

text \<open>A composite literal \<open>map[string]interface{}{...}\<close>: its calls are made in order.\<close>

fun read_literal :: "(string \<times> px_value reader) list \<Rightarrow> (string, px_value) gomap reader" where
  "read_literal [] = ret []"
| "read_literal ((k, r) # fs) = do { v \<leftarrow> r; m \<leftarrow> read_literal fs; ret ((k, v) # m) }"

definition read_map :: "(string \<times> px_value reader) list \<Rightarrow> px_value reader" where
  "read_map fs = do { m \<leftarrow> read_literal fs; ret (PMap m) }"

section \<open>Map generation settings\<close>

definition readFrequencySizeRichness :: "px_value reader" where
  "readFrequencySizeRichness = read_map [(''frequency'', any_float), (''size'', any_float), (''richness'', any_float)]"

definition readAutoplaceSetting :: "px_value reader" where
  "readAutoplaceSetting = read_map [(''treat_missing_as_default'', any_bool),
     (''settings'', any_dict readFrequencySizeRichness)]"

definition readMapPosition :: "px_value reader" where
  "readMapPosition = do {
     xDiff \<leftarrow> readInt16;
     (x, y) \<leftarrow> (if xDiff = 0x7fff then do { x \<leftarrow> readInt32; y \<leftarrow> readInt32; ret (x, y) }
       else do { yDiff \<leftarrow> readInt16; p \<leftarrow> State_Monad.get;
         ret (fst (px_last p) + xDiff, snd (px_last p) + yDiff) });
     _ \<leftarrow> State_Monad.update (\<lambda>p. p\<lparr>px_last := (x, y)\<rparr>);
     ret (PMap [(''x'', PCoord x), (''y'', PCoord y)]) }"

definition readBoundingBox :: "px_value reader" where
  "readBoundingBox = read_map [(''left_top'', readMapPosition), (''right_bottom'', readMapPosition),
     (''orientation'', read_map [(''x'', any_int16), (''y'', any_int16)])]"

definition readCliffSettings :: "bool \<Rightarrow> px_value reader" where
  "readCliffSettings atLeastV2 = do {
     name \<leftarrow> any_string;
     _ \<leftarrow> (if atLeastV2 then readUint8 else ret 0);
     e0 \<leftarrow> any_float; interval \<leftarrow> any_float; richness \<leftarrow> any_float;
     smoothing \<leftarrow> (if atLeastV2 then do { s \<leftarrow> any_float; ret [(''cliff_smoothing'', s)] } else ret []);
     ret (PMap ([(''name'', name), (''cliff_elevation_0'', e0), (''cliff_elevation_interval'', interval),
       (''richness'', richness)] @ smoothing)) }"

definition readTerritorySettings :: "px_value reader" where
  "readTerritorySettings = read_map [
     (''units'', do { xs \<leftarrow> readStringArray; ret (PArray xs) }),
     (''territory_index_expression'', any_string),
     (''territory_variation_expression'', any_string),
     (''minimum_territory_size'', any_uint32)]"

definition readMapGenSettings :: "bool \<Rightarrow> (string, px_value) gomap reader" where
  "readMapGenSettings atLeastV2 = do {
     (terrainSegmentation, water) \<leftarrow> (if \<not> atLeastV2 then do { t \<leftarrow> any_float; w \<leftarrow> any_float; ret (t, w) }
       else ret (PFloat 0, PFloat 0));
     settings \<leftarrow> read_literal [
       (''autoplace_controls'', any_dict readFrequencySizeRichness),
       (''autoplace_settings'', any_dict readAutoplaceSetting),
       (''default_enable_all_autoplace_controls'', any_bool),
       (''seed'', any_uint32), (''width'', any_uint32), (''height'', any_uint32),
       (''area_to_generate_at_start'', readBoundingBox),
       (''starting_area'', any_float),
       (''peaceful_mode'', any_bool),
       (''starting_points'', ret PNil), (''property_expression_names'', ret PNil), (''cliff_settings'', ret PNil)];
     settings \<leftarrow> (if atLeastV2 then do { b \<leftarrow> any_bool; ret (gm_put settings ''no_enemies_mode'' b) } else ret settings);
     points \<leftarrow> any_array readMapPosition;
     settings \<leftarrow> ret (gm_put settings ''starting_points'' points);
     names \<leftarrow> any_dict any_string;
     settings \<leftarrow> ret (gm_put settings ''property_expression_names'' names);
     cliffs \<leftarrow> readCliffSettings atLeastV2;
     settings \<leftarrow> ret (gm_put settings ''cliff_settings'' cliffs);
     if atLeastV2 then do {
       t \<leftarrow> readOptional readTerritorySettings;
       ret (if t \<noteq> PNil then gm_put settings ''territory_settings'' t else settings) }
     else ret (gm_put (gm_put settings ''terrain_segmentation'' terrainSegmentation) ''water'' water) }"

section \<open>Map settings\<close>

definition readPollution :: "px_value reader" where
  "readPollution = read_map [
     (''enabled'', readOptional any_bool),
     (''diffusion_ratio'', readOptional any_double),
     (''min_to_diffuse'', readOptional any_double),
     (''ageing'', readOptional any_double),
     (''expected_max_per_chunk'', readOptional any_double),
     (''min_to_show_per_chunk'', readOptional any_double),
     (''min_pollution_to_damage_trees'', readOptional any_double),
     (''pollution_with_max_forest_damage'', readOptional any_double),
     (''pollution_per_tree_damage'', readOptional any_double),
     (''pollution_restored_per_tree_damage'', readOptional any_double),
     (''max_pollution_to_restore_trees'', readOptional any_double),
     (''enemy_attack_pollution_consumption_modifier'', readOptional any_double)]"

definition readRealSteering :: "px_value reader" where
  "readRealSteering = read_map [
     (''radius'', readOptional any_double),
     (''separation_factor'', readOptional any_double),
     (''separation_force'', readOptional any_double),
     (''force_unit_fuzzy_goto_behavior'', readOptional any_bool)]"

definition readSteering :: "px_value reader" where
  "readSteering = read_map [(''default'', readRealSteering), (''moving'', readRealSteering)]"

definition readEnemyEvolution :: "px_value reader" where
  "readEnemyEvolution = read_map [
     (''enabled'', readOptional any_bool),
     (''time_factor'', readOptional any_double),
     (''destroy_factor'', readOptional any_double),
     (''pollution_factor'', readOptional any_double)]"

definition readEnemyExpansion :: "bool \<Rightarrow> px_value reader" where
  "readEnemyExpansion atLeastV21 = read_map (
     [(''enabled'', readOptional any_bool), (''max_expansion_distance'', readOptional any_uint32)] @
     (if atLeastV21 then [(''min_expansion_distance'', readOptional any_uint32)] else []) @
     [(''friendly_base_influence_radius'', readOptional any_uint32),
      (''enemy_building_influence_radius'', readOptional any_uint32),
      (''building_coefficient'', readOptional any_double),
      (''other_base_coefficient'', readOptional any_double),
      (''neighbouring_chunk_coefficient'', readOptional any_double),
      (''neighbouring_base_chunk_coefficient'', readOptional any_double),
      (''max_colliding_tiles_coefficient'', readOptional any_double),
      (''settler_group_min_size'', readOptional any_uint32),
      (''settler_group_max_size'', readOptional any_uint32)] @
     (if atLeastV21 then [(''evolution_group_size_factor'', readOptional any_double)] else []) @
     [(''min_expansion_cooldown'', readOptional any_uint32),
      (''max_expansion_cooldown'', readOptional any_uint32)])"

definition readUnitGroup :: "px_value reader" where
  "readUnitGroup = read_map [
     (''min_group_gathering_time'', readOptional any_uint32),
     (''max_group_gathering_time'', readOptional any_uint32),
     (''max_wait_time_for_late_members'', readOptional any_uint32),
     (''max_group_radius'', readOptional any_double),
     (''min_group_radius'', readOptional any_double),
     (''max_member_speedup_when_behind'', readOptional any_double),
     (''max_member_slowdown_when_ahead'', readOptional any_double),
     (''max_group_slowdown_factor'', readOptional any_double),
     (''max_group_member_fallback_factor'', readOptional any_double),
     (''member_disown_distance'', readOptional any_double),
     (''tick_tolerance_when_member_arrives'', readOptional any_uint32),
     (''max_gathering_unit_groups'', readOptional any_uint32),
     (''max_unit_group_size'', readOptional any_uint32)]"

definition readPathFinder :: "px_value reader" where
  "readPathFinder = read_map [
     (''fwd2bwd_ratio'', readOptional any_int32),
     (''goal_pressure_ratio'', readOptional any_double),
     (''use_path_cache'', readOptional any_bool),
     (''max_steps_worked_per_tick'', readOptional any_double),
     (''max_work_done_per_tick'', readOptional any_uint32),
     (''short_cache_size'', readOptional any_uint32),
     (''long_cache_size'', readOptional any_uint32),
     (''short_cache_min_cacheable_distance'', readOptional any_double),
     (''short_cache_min_algo_steps_to_cache'', readOptional any_uint32),
     (''long_cache_min_cacheable_distance'', readOptional any_double),
     (''cache_max_connect_to_cache_steps_multiplier'', readOptional any_uint32),
     (''cache_accept_path_start_distance_ratio'', readOptional any_double),
     (''cache_accept_path_end_distance_ratio'', readOptional any_double),
     (''negative_cache_accept_path_start_distance_ratio'', readOptional any_double),
     (''negative_cache_accept_path_end_distance_ratio'', readOptional any_double),
     (''cache_path_start_distance_rating_multiplier'', readOptional any_double),
     (''cache_path_end_distance_rating_multiplier'', readOptional any_double),
     (''stale_enemy_with_same_destination_collision_penalty'', readOptional any_double),
     (''ignore_moving_enemy_collision_distance'', readOptional any_double),
     (''enemy_with_different_destination_collision_penalty'', readOptional any_double),
     (''general_entity_collision_penalty'', readOptional any_double),
     (''general_entity_subsequent_collision_penalty'', readOptional any_double),
     (''extended_collision_penalty'', readOptional any_double),
     (''max_clients_to_accept_any_new_request'', readOptional any_uint32),
     (''max_clients_to_accept_short_new_request'', readOptional any_uint32),
     (''direct_distance_to_consider_short_request'', readOptional any_uint32),
     (''short_request_max_steps'', readOptional any_uint32),
     (''short_request_ratio'', readOptional any_double),
     (''min_steps_to_check_path_find_termination'', readOptional any_uint32),
     (''start_to_goal_cost_multiplier_to_terminate_path_find'', readOptional any_double),
     (''overload_levels'', readOptional (any_array any_uint32)),
     (''overload_multipliers'', readOptional (any_array any_double)),
     (''negative_path_cache_delay_interval'', readOptional any_uint32)]"

definition researchQueue :: "string list" where
  "researchQueue = [''always'', ''after-victory'', ''never'']"

definition read_queue :: "px_value reader" where
  "read_queue = do { i \<leftarrow> readUint8;
     if unat i < length researchQueue then ret (PString (researchQueue ! unat i))
     else do { setErr (InvalidResearchQueue (unat i)); ret (PString []) } }"

definition readDifficultySettings :: "bool \<Rightarrow> px_value reader" where
  "readDifficultySettings atLeastV2 =
     (if atLeastV2 then read_map [(''technology_price_multiplier'', any_double), (''spoil_time_modifier'', any_double)]
      else read_map [(''recipe_difficulty'', any_uint8), (''technology_difficulty'', any_uint8),
        (''technology_price_multiplier'', any_double), (''research_queue_setting'', read_queue)])"

definition readAsteroidsSettings :: "px_value reader" where
  "readAsteroidsSettings = read_map [
     (''spawning_rate'', readOptional any_double),
     (''max_ray_portals_expanded_per_tick'', readOptional any_uint32)]"

definition readMapSettings :: "bool \<Rightarrow> bool \<Rightarrow> (string, px_value) gomap reader" where
  "readMapSettings atLeastV2 atLeastV21 = read_literal (
     [(''pollution'', readPollution)] @
     (if \<not> atLeastV21 then [(''steering'', readSteering)] else []) @
     [(''enemy_evolution'', readEnemyEvolution),
      (''enemy_expansion'', readEnemyExpansion atLeastV21),
      (''unit_group'', readUnitGroup),
      (''path_finder'', readPathFinder),
      (''max_failed_behavior_count'', any_uint32),
      (''difficulty_settings'', readDifficultySettings atLeastV2)] @
     (if atLeastV2 then [(''asteroids'', readAsteroidsSettings)] else []))"

section \<open>Base64\<close>

definition decodeMapExchangeBase64 :: "string \<Rightarrow> byte list option" where
  "decodeMapExchangeBase64 encoded =
     (case base64_DecodeString True encoded of
        Some decoded \<Rightarrow> Some decoded
      | None \<Rightarrow>
          (let padded = (if length encoded mod 4 = 2 then encoded @ ''==''
             else if length encoded mod 4 = 3 then encoded @ ''='' else encoded)
           in case (if padded \<noteq> encoded then base64_DecodeString True padded else None) of
                Some decoded \<Rightarrow> Some decoded
              | None \<Rightarrow> base64_DecodeString False encoded))"

section \<open>Exchange strings\<close>

record map_exchange_data =
  med_version :: version
  med_gen :: "(string, px_value) gomap"
  med_set :: "(string, px_value) gomap"
  med_checksum :: "32 word"
  med_checksum_ok :: bool

datatype zlib_error = NewReaderFailed | ReadAllFailed | CloseFailed

datatype exchange_error = InvalidExchangeString | InvalidBase64 | BadCompression zlib_error | DataTooShort
  | BadPayload px_error | UnexpectedData nat | InvalidJSON | MissingSettings

definition read_exchange :: "(version \<times> (string, px_value) gomap \<times> (string, px_value) gomap \<times> 32 word) reader" where
  "read_exchange = do {
     version \<leftarrow> readVersion;
     _ \<leftarrow> readUint8;
     gen \<leftarrow> readMapGenSettings (versionAtLeast version 2 0 0 0);
     sett \<leftarrow> readMapSettings (versionAtLeast version 2 0 0 0) (versionAtLeast version 2 1 0 0);
     checksum \<leftarrow> readUint32;
     ret (version, gen, sett, checksum) }"

text \<open>The part of \<open>ParseMapExchangeString\<close> after the decompression.\<close>

definition parse_payload :: "byte list \<Rightarrow> exchange_error + map_exchange_data" where
  "parse_payload raw =
     (if length raw < 4 then Inl DataTooShort
      else let ((version, gen, sett, checksum), p) = run_state read_exchange (newMapExchangeParser raw) in
        case px_err p of
          Some e \<Rightarrow> Inl (BadPayload e)
        | None \<Rightarrow>
            (if px_pos p \<noteq> length raw then Inl (UnexpectedData (length raw - px_pos p))
             else let crcIndex = length raw - 4;
                      actual = of_nat (le_get (drop crcIndex raw));
                      expected = crc_checksum ieee (take crcIndex raw)
                  in Inr \<lparr>med_version = version, med_gen = gen, med_set = sett, med_checksum = checksum,
                       med_checksum_ok = (actual = expected)\<rparr>))"

text \<open>What the JSON decoder leaves in the four fields of the struct; \<open>None\<close> is a nil map.\<close>

record parsed_json =
  pj_map_settings :: "(string, px_value) gomap option"
  pj_map_gen_settings :: "(string, px_value) gomap option"
  pj_map_settings_camel :: "(string, px_value) gomap option"
  pj_map_gen_settings_camel :: "(string, px_value) gomap option"

definition parseMapExchangeJSON :: "(string \<Rightarrow> parsed_json option) \<Rightarrow> string \<Rightarrow> exchange_error + map_exchange_data" where
  "parseMapExchangeJSON json input =
     (case json input of
        None \<Rightarrow> Inl InvalidJSON
      | Some parsed \<Rightarrow>
          (let sett = (case pj_map_settings parsed of None \<Rightarrow> pj_map_settings_camel parsed | Some m \<Rightarrow> Some m);
               gen = (case pj_map_gen_settings parsed of None \<Rightarrow> pj_map_gen_settings_camel parsed | Some m \<Rightarrow> Some m)
           in case (sett, gen) of
                (Some sett, Some gen) \<Rightarrow> Inr \<lparr>med_version = Version 0 0 0 0, med_gen = gen, med_set = sett,
                   med_checksum = 0, med_checksum_ok = True\<rparr>
              | _ \<Rightarrow> Inl MissingSettings))"

definition trim_prefix :: "string \<Rightarrow> string \<Rightarrow> string" where
  "trim_prefix s p = (if has_prefix s p then drop (length p) s else s)"

definition trim_suffix :: "string \<Rightarrow> string \<Rightarrow> string" where
  "trim_suffix s p = (if has_suffix s p then take (length s - length p) s else s)"

definition ParseMapExchangeString :: "(byte list \<Rightarrow> zlib_error + byte list) \<Rightarrow> (string \<Rightarrow> parsed_json option) \<Rightarrow>
    string \<Rightarrow> exchange_error + map_exchange_data" where
  "ParseMapExchangeString inflate json input =
     (let trimmed = trim_space input in
      if has_prefix trimmed ''{'' then parseMapExchangeJSON json trimmed
      else let compact = filter (\<lambda>c. \<not> is_space c) trimmed in
        if \<not> has_prefix compact ''>>>'' \<or> \<not> has_suffix compact ''<<<'' then Inl InvalidExchangeString
        else case decodeMapExchangeBase64 (trim_suffix (trim_prefix compact ''>>>'') ''<<<'') of
            None \<Rightarrow> Inl InvalidBase64
          | Some decoded \<Rightarrow>
              (case inflate decoded of Inl e \<Rightarrow> Inl (BadCompression e) | Inr raw \<Rightarrow> parse_payload raw))"

section \<open>The custom map generator\<close>

text \<open>\<open>json.Encoder\<close> refuses numbers that are not finite.\<close>

fun json_encodable :: "px_value \<Rightarrow> bool" where
  "json_encodable (PFloat w) = (drop_bit 23 w AND 0xff \<noteq> 0xff)"
| "json_encodable (PDouble w) = (drop_bit 52 w AND 0x7ff \<noteq> 0x7ff)"
| "json_encodable (PArray xs) = list_all json_encodable xs"
| "json_encodable (PMap m) = list_all (\<lambda>kv. json_encodable (snd kv)) m"
| "json_encodable _ = True"

text \<open>The two settings files, the generator chosen in cw-local and its saved copy; \<open>we_*\<close> say
  whether the file system obliges.\<close>

record custom_map =
  cm_gen :: "(string, px_value) gomap option"
  cm_set :: "(string, px_value) gomap option"
  cm_generator :: string
  cm_saved_generator :: string

record write_env =
  we_mkdir :: bool
  we_gen :: bool
  we_set :: bool
  we_cfg :: bool

datatype custom_error = NotParsed exchange_error | NoDirectory | GenNotWritten | SetNotWritten
  | ConfigNotSaved | NotGenerated

definition WriteCustomMapExchangeFiles :: "(byte list \<Rightarrow> zlib_error + byte list) \<Rightarrow> (string \<Rightarrow> parsed_json option) \<Rightarrow>
    write_env \<Rightarrow> string \<Rightarrow> custom_map \<Rightarrow> custom_error option \<times> custom_map" where
  "WriteCustomMapExchangeFiles inflate json we exchangeString st =
     (case ParseMapExchangeString inflate json exchangeString of
        Inl e \<Rightarrow> (Some (NotParsed e), st)
      | Inr data \<Rightarrow>
          (if \<not> we_mkdir we then (Some NoDirectory, st)
           else if \<not> (json_encodable (PMap (med_gen data)) \<and> we_gen we) then (Some GenNotWritten, st)
           else let st = st\<lparr>cm_gen := Some (med_gen data)\<rparr> in
             if \<not> (json_encodable (PMap (med_set data)) \<and> we_set we) then (Some SetNotWritten, st)
             else (None, st\<lparr>cm_set := Some (med_set data)\<rparr>)))"

definition GenCustomMapFromExchange :: "(byte list \<Rightarrow> zlib_error + byte list) \<Rightarrow> (string \<Rightarrow> parsed_json option) \<Rightarrow>
    write_env \<Rightarrow> (custom_map \<Rightarrow> string option) \<Rightarrow> string \<Rightarrow> custom_map \<Rightarrow> (custom_error + string) \<times> custom_map" where
  "GenCustomMapFromExchange inflate json we genNewMap exchangeString st =
     (case WriteCustomMapExchangeFiles inflate json we exchangeString st of
        (Some e, st) \<Rightarrow> (Inl e, st)
      | (None, st) \<Rightarrow>
          (let st = st\<lparr>cm_generator := CustomMapGeneratorName\<rparr> in
           if \<not> we_cfg we then (Inl ConfigNotSaved, st)
           else let st = st\<lparr>cm_saved_generator := cm_generator st\<rparr> in
             (case genNewMap st of None \<Rightarrow> Inl NotGenerated | Some f \<Rightarrow> Inr f, st)))"

end
