(* ===== verification/Map_Exchange_Format.thy ===== *)
theory Map_Exchange_Format
  imports Map_Exchange
begin

text \<open>
  The format of map exchange payloads as a grammar, and the proof that the parser reads exactly
  this grammar.  A \<open>grammar\<close> relates the last position before, the bytes, the value and the last
  position after; \<open>parses r S\<close> says that a reader accepts the words of \<open>S\<close> with their values, reads
  nothing beyond them, and succeeds on nothing else.  \<open>parses\<close> is kept by the combinators of the
  monad, so each method of the parser is one composition.
\<close>

section \<open>Grammars and readers\<close>

type_synonym 'v grammar = "int \<times> int \<Rightarrow> byte list \<Rightarrow> 'v \<Rightarrow> int \<times> int \<Rightarrow> bool"

definition px_ok :: "px \<Rightarrow> bool" where
  "px_ok p \<longleftrightarrow> px_pos p \<le> length (px_data p) \<and> length (px_data p) < 2 ^ 32"

lemma px_ok_err [simp]: "px_ok (p\<lparr>px_err := e\<rparr>) = px_ok p"
  by (simp add: px_ok_def)

definition px_advance :: "nat \<Rightarrow> int \<times> int \<Rightarrow> px \<Rightarrow> px" where
  "px_advance n l p = p\<lparr>px_pos := px_pos p + n, px_last := l\<rparr>"

definition accepts :: "'v reader \<Rightarrow> 'v grammar \<Rightarrow> bool" where
  "accepts r S \<longleftrightarrow> (\<forall>p bs v l' rest. px_ok p \<longrightarrow> px_err p = None \<longrightarrow>
     drop (px_pos p) (px_data p) = bs @ rest \<longrightarrow> S (px_last p) bs v l' \<longrightarrow>
     run_state r p = (v, px_advance (length bs) l' p))"

definition only :: "'v reader \<Rightarrow> 'v grammar \<Rightarrow> bool" where
  "only r S \<longleftrightarrow> (\<forall>p v p'. px_ok p \<longrightarrow> run_state r p = (v, p') \<longrightarrow> px_err p' = None \<longrightarrow>
     px_err p = None \<and> (\<exists>bs rest. drop (px_pos p) (px_data p) = bs @ rest \<and>
       S (px_last p) bs v (px_last p') \<and> p' = px_advance (length bs) (px_last p') p))"

text \<open>A reader never loses an error and never moves out of its data, whether it succeeds or not.\<close>

definition stable :: "'v reader \<Rightarrow> bool" where
  "stable r \<longleftrightarrow> (\<forall>p. px_ok p \<longrightarrow> px_ok (snd (run_state r p)) \<and> px_data (snd (run_state r p)) = px_data p \<and>
     px_pos p \<le> px_pos (snd (run_state r p)) \<and>
     (px_err p \<noteq> None \<longrightarrow> px_err (snd (run_state r p)) = px_err p \<and> px_pos (snd (run_state r p)) = px_pos p))"

definition parses :: "'v reader \<Rightarrow> 'v grammar \<Rightarrow> bool" where
  "parses r S \<longleftrightarrow> accepts r S \<and> only r S \<and> stable r"

lemma parses_run:
  "parses r S \<Longrightarrow> px_ok p \<Longrightarrow> px_err p = None \<Longrightarrow> drop (px_pos p) (px_data p) = bs @ rest \<Longrightarrow>
   S (px_last p) bs v l' \<Longrightarrow> run_state r p = (v, px_advance (length bs) l' p)"
  unfolding parses_def accepts_def by blast

named_theorems parse_intros \<open>one rule for every combinator and primitive reader\<close>

definition eps :: "'v \<Rightarrow> 'v grammar" where
  "eps x = (\<lambda>l bs v l'. bs = [] \<and> v = x \<and> l' = l)"

definition seq :: "'a grammar \<Rightarrow> ('a \<Rightarrow> 'b grammar) \<Rightarrow> 'b grammar" where
  "seq S T = (\<lambda>l bs w l'. \<exists>b1 b2 v l1. bs = b1 @ b2 \<and> S l b1 v l1 \<and> T v l1 b2 w l')"

definition nothing :: "'v grammar" where "nothing = (\<lambda>l bs v l'. False)"

lemma seq_eps [simp]: "seq (eps x) T = T x"
  by (auto simp: seq_def eps_def fun_eq_iff)

lemma seq_assoc [simp]: "seq (seq S T) U = seq S (\<lambda>v. seq (T v) U)"
  by (auto simp: seq_def fun_eq_iff) (metis append.assoc)+

lemma seq_nothing [simp]: "seq nothing T = nothing"
  by (auto simp: seq_def nothing_def fun_eq_iff)

lemma px_advance_simps [simp]:
  "px_err (px_advance n l p) = px_err p" "px_data (px_advance n l p) = px_data p"
  "px_last (px_advance n l p) = l" "px_pos (px_advance n l p) = px_pos p + n"
  "px_advance 0 (px_last p) p = p" "px_advance m k (px_advance n l p) = px_advance (n + m) k p"
  by (simp_all add: px_advance_def)

lemma px_ok_px_advance:
  assumes "px_ok p" "drop (px_pos p) (px_data p) = bs @ rest"
  shows "px_ok (px_advance (length bs) l p)"
proof -
  have "length (drop (px_pos p) (px_data p)) = length bs + length rest" using assms(2) by simp
  with assms(1) show ?thesis by (auto simp: px_ok_def)
qed

lemma parses_ret [parse_intros]: "parses (ret x) (eps x)"
  by (auto simp: parses_def accepts_def only_def stable_def eps_def)

lemma accepts_bind:
  assumes "accepts r S" and "\<And>v. accepts (f v) (T v)"
  shows "accepts (State_Monad.bind r f) (seq S T)"
  unfolding accepts_def
proof (intro allI impI)
  fix p bs v l' rest
  assume p: "px_ok p" "px_err p = None" and d: "drop (px_pos p) (px_data p) = bs @ rest"
    and s: "seq S T (px_last p) bs v l'"
  from s obtain b1 b2 u l1 where bs: "bs = b1 @ b2" and S: "S (px_last p) b1 u l1" and T: "T u l1 b2 v l'"
    by (auto simp: seq_def)
  from d bs have d1: "drop (px_pos p) (px_data p) = b1 @ (b2 @ rest)" by simp
  let ?q = "px_advance (length b1) l1 p"
  have 1: "run_state r p = (u, ?q)" using assms(1) p d1 S unfolding accepts_def by blast
  have "drop (px_pos ?q) (px_data ?q) = drop (length b1) (drop (px_pos p) (px_data p))"
    by (simp add: add.commute)
  then have d2: "drop (px_pos ?q) (px_data ?q) = b2 @ rest" unfolding d1 by simp
  have "px_ok ?q" "px_err ?q = None" using px_ok_px_advance [OF p(1) d1] p(2) by simp_all
  then have "run_state (f u) ?q = (v, px_advance (length b2) l' ?q)"
    using assms(2) [of u] d2 T unfolding accepts_def by (metis px_advance_simps(3))
  with 1 show "run_state (State_Monad.bind r f) p = (v, px_advance (length bs) l' p)"
    by (simp add: bs)
qed

lemma only_bind:
  assumes "only r S" and "stable r" and "\<And>v. only (f v) (T v)"
  shows "only (State_Monad.bind r f) (seq S T)"
  unfolding only_def
proof (intro allI impI)
  fix p v p'
  assume p: "px_ok p" and run: "run_state (State_Monad.bind r f) p = (v, p')" and e: "px_err p' = None"
  obtain u q where 1: "run_state r p = (u, q)" by (cases "run_state r p")
  with run have 2: "run_state (f u) q = (v, p')" by simp
  from assms(2) p 1 have q: "px_ok q" unfolding stable_def by (metis snd_conv)
  from assms(3) [of u] q 2 e obtain b2 r2 where q0: "px_err q = None" and d2: "drop (px_pos q) (px_data q) = b2 @ r2"
    and T: "T u (px_last q) b2 v (px_last p')" and p': "p' = px_advance (length b2) (px_last p') q"
    unfolding only_def by blast
  from assms(1) p 1 q0 obtain b1 r1 where p0: "px_err p = None" and d1: "drop (px_pos p) (px_data p) = b1 @ r1"
    and S: "S (px_last p) b1 u (px_last q)" and q': "q = px_advance (length b1) (px_last q) p"
    unfolding only_def by blast
  have "drop (px_pos q) (px_data q) = drop (length b1) (drop (px_pos p) (px_data p))"
    by (subst q', subst (2) q') (simp add: add.commute)
  with d2 d1 have r1: "r1 = b2 @ r2" by simp
  have "drop (px_pos p) (px_data p) = (b1 @ b2) @ r2" by (simp add: d1 r1)
  moreover have "seq S T (px_last p) (b1 @ b2) v (px_last p')" using S T unfolding seq_def by blast
  moreover have "p' = px_advance (length (b1 @ b2)) (px_last p') p"
    by (subst p', subst q') simp
  ultimately show "px_err p = None \<and> (\<exists>bs rest. drop (px_pos p) (px_data p) = bs @ rest \<and>
       seq S T (px_last p) bs v (px_last p') \<and> p' = px_advance (length bs) (px_last p') p)"
    using p0 by blast
qed

lemma stable_bind:
  assumes "stable r" and "\<And>v. stable (f v)"
  shows "stable (State_Monad.bind r f)"
  unfolding stable_def
proof (intro allI impI)
  fix p assume p: "px_ok p"
  obtain u q where 1: "run_state r p = (u, q)" by (cases "run_state r p")
  have q: "px_ok q" "px_data q = px_data p" "px_pos p \<le> px_pos q"
    "px_err p \<noteq> None \<longrightarrow> px_err q = px_err p \<and> px_pos q = px_pos p"
    using assms(1) p 1 unfolding stable_def by (metis snd_conv)+
  with assms(2) [of u] 1
  show "px_ok (snd (run_state (State_Monad.bind r f) p)) \<and>
     px_data (snd (run_state (State_Monad.bind r f) p)) = px_data p \<and>
     px_pos p \<le> px_pos (snd (run_state (State_Monad.bind r f) p)) \<and>
     (px_err p \<noteq> None \<longrightarrow> px_err (snd (run_state (State_Monad.bind r f) p)) = px_err p \<and>
        px_pos (snd (run_state (State_Monad.bind r f) p)) = px_pos p)"
    unfolding stable_def by auto
qed

lemma parses_bind [parse_intros]:
  assumes "parses r S" and "\<And>v. parses (f v) (T v)"
  shows "parses (State_Monad.bind r f) (seq S T)"
  using assms accepts_bind [of r S f T] only_bind [of r S f T] stable_bind [of r f]
  by (simp add: parses_def)

lemma parses_if [parse_intros]:
  "parses r S \<Longrightarrow> parses r' S' \<Longrightarrow> parses (if c then r else r') (if c then S else S')"
  by simp

lemma parses_setErr [parse_intros]: "parses (setErr e) nothing"
  by (auto simp: parses_def accepts_def only_def stable_def nothing_def setErr_def px_ok_def)

lemma parses_has_err [parse_intros]: "parses has_err (eps False)"
  by (auto simp: parses_def accepts_def only_def stable_def eps_def has_err_def)

definition word_of_length :: "int \<Rightarrow> byte list option grammar" where
  "word_of_length n = (\<lambda>l bs v l'. int (length bs) = n \<and> v = Some bs \<and> l' = l)"

lemma parses_readBytes [parse_intros]: "parses (readBytes n) (word_of_length n)"
proof -
  have "accepts (readBytes n) (word_of_length n)"
    unfolding accepts_def
  proof (intro allI impI)
    fix p bs v l' rest
    assume p: "px_ok p" "px_err p = None" and d: "drop (px_pos p) (px_data p) = bs @ rest"
      and s: "word_of_length n (px_last p) bs v l'"
    from s have n: "n = int (length bs)" and v: "v = Some bs" "l' = px_last p" by (auto simp: word_of_length_def)
    have "length (px_data p) = px_pos p + length bs + length rest"
      using arg_cong [OF d, of length] p(1) by (auto simp: px_ok_def)
    then have len: "\<not> int (length (px_data p)) < int (px_pos p) + n" by (simp add: n)
    show "run_state (readBytes n) p = (v, px_advance (length bs) l' p)"
      using p(2) len by (simp add: readBytes_def n v d px_advance_def)
  qed
  moreover have "only (readBytes n) (word_of_length n)"
    unfolding only_def
  proof (intro allI impI)
    fix p v p'
    assume p: "px_ok p" and run: "run_state (readBytes n) p = (v, p')" and e: "px_err p' = None"
    from run e have ok: "px_err p = None" "\<not> (n < 0 \<or> int (length (px_data p)) < int (px_pos p) + n)"
      and v: "v = Some (take (nat n) (drop (px_pos p) (px_data p)))" "p' = p\<lparr>px_pos := px_pos p + nat n\<rparr>"
      by (auto simp: readBytes_def split: if_splits)
    let ?bs = "take (nat n) (drop (px_pos p) (px_data p))"
    have len: "length ?bs = nat n" using ok(2) by auto
    have "drop (px_pos p) (px_data p) = ?bs @ drop (nat n) (drop (px_pos p) (px_data p))"
      by (rule append_take_drop_id [symmetric])
    moreover have "word_of_length n (px_last p) ?bs v (px_last p')"
      unfolding word_of_length_def len using ok(2) by (simp add: v)
    moreover have "p' = px_advance (length ?bs) (px_last p') p"
      unfolding len by (simp add: v px_advance_def)
    ultimately show "px_err p = None \<and> (\<exists>bs rest. drop (px_pos p) (px_data p) = bs @ rest \<and>
       word_of_length n (px_last p) bs v (px_last p') \<and> p' = px_advance (length bs) (px_last p') p)"
      using ok(1) by blast
  qed
  moreover have "stable (readBytes n)"
    by (auto simp: stable_def readBytes_def px_ok_def)
  ultimately show ?thesis by (simp add: parses_def)
qed

lemma parses_eq: "parses r S \<Longrightarrow> (\<And>l bs v l'. S l bs v l' = S' l bs v l') \<Longrightarrow> parses r S'"
  by (subgoal_tac "S = S'") (auto intro!: ext)

section \<open>Numbers and strings\<close>

lemma le_put_get: "length bs = n \<Longrightarrow> le_put n (le_get bs) = bs"
proof (induction bs arbitrary: n)
  case (Cons b bs)
  have "unat b < 2 ^ LENGTH(8)" by (rule unsigned_less)
  then have b: "unat b < 256" by simp
  then have d: "(unat b + 256 * le_get bs) div 256 = le_get bs" by simp
  have "(of_nat (unat b + 256 * le_get bs) :: byte) = of_nat (unat b) + of_nat 256 * of_nat (le_get bs)"
    by (simp only: of_nat_add of_nat_mult)
  also have "\<dots> = b"
  proof -
    have "(of_nat 256 :: byte) = 0" by simp
    then show ?thesis by (simp only: mult_zero_left) simp
  qed
  finally have "(of_nat (unat b + 256 * le_get bs) :: byte) = b" .
  with Cons d show ?case by (cases n) (simp_all del: of_nat_add of_nat_mult)
qed simp

lemma le_word_ex:
  assumes "length bs = n" "256 ^ n = (2 :: nat) ^ LENGTH('a)"
  shows "bs = le_put n (unat (of_nat (le_get bs) :: 'a::len word))"
proof -
  have "le_get bs < 2 ^ LENGTH('a)" using le_get_less [of bs] assms by simp
  then have "unat (of_nat (le_get bs) :: 'a word) = le_get bs" by (simp add: unat_of_nat take_bit_eq_mod)
  with le_put_get [OF assms(1)] show ?thesis by simp
qed

lemma le_word_get:
  assumes "256 ^ n = (2 :: nat) ^ LENGTH('a)"
  shows "of_nat (le_get (le_put n (unat w))) = (w :: 'a::len word)"
proof -
  have "unat w < 2 ^ LENGTH('a)" by (rule unsigned_less)
  then have "le_get (le_put n (unat w)) = unat w" by (simp add: le_get_put assms)
  then show ?thesis by simp
qed

definition g_byte :: "byte grammar" where
  "g_byte = (\<lambda>l bs v l'. bs = [v] \<and> l' = l)"

definition g_word :: "nat \<Rightarrow> 'a::len word grammar" where
  "g_word n = (\<lambda>l bs w l'. bs = le_put n (unat w) \<and> l' = l)"

definition g_signed :: "nat \<Rightarrow> 'a::len itself \<Rightarrow> int grammar" where
  "g_signed n t = (\<lambda>l bs x l'. \<exists>w :: 'a word. bs = le_put n (unat w) \<and> x = sint w \<and> l' = l)"

lemma seq_byte: "seq g_byte T l bs w l' \<longleftrightarrow> (\<exists>x b2. bs = x # b2 \<and> T x l b2 w l')"
  by (auto simp: seq_def g_byte_def) (metis append_Cons append_Nil)

lemma parses_readUint8 [parse_intros]: "parses readUint8 g_byte"
  unfolding readUint8_def
  by (rule parses_eq, (rule parse_intros)+)
    (auto simp: seq_def word_of_length_def eps_def g_byte_def length_Suc_conv)

lemma parses_word:
  assumes "256 ^ n = (2 :: nat) ^ LENGTH('a::len)"
  shows "parses (do { b \<leftarrow> readBytes (int n); ret (case b of None \<Rightarrow> 0 | Some b \<Rightarrow> of_nat (le_get b)) })
    (g_word n :: 'a word grammar)"
  by (rule parses_eq, (rule parse_intros)+)
    (use assms le_word_get [OF assms] in \<open>auto simp: seq_def word_of_length_def eps_def g_word_def
      intro: le_word_ex [OF refl]\<close>)

lemma parses_signed:
  assumes "256 ^ n = (2 :: nat) ^ LENGTH('a::len)"
  shows "parses (do { b \<leftarrow> readBytes (int n); ret (case b of None \<Rightarrow> 0 | Some b \<Rightarrow> sint (of_nat (le_get b) :: 'a word)) })
    (g_signed n TYPE('a))"
  by (rule parses_eq, (rule parse_intros)+)
    (use assms le_word_get [OF assms] in \<open>auto simp: seq_def word_of_length_def eps_def g_signed_def
      intro: le_word_ex [OF refl]\<close>)

lemma parses_numbers [parse_intros]:
  "parses readUint16 (g_word 2)" "parses readUint32 (g_word 4)" "parses readFloat (g_word 4)"
  "parses readDouble (g_word 8)" "parses readInt16 (g_signed 2 TYPE(16))" "parses readInt32 (g_signed 4 TYPE(32))"
  using parses_word [of 2, where 'a = 16] parses_word [of 4, where 'a = 32] parses_word [of 8, where 'a = 64]
    parses_signed [of 2, where 'a = 16] parses_signed [of 4, where 'a = 32]
  by (simp_all add: readUint16_def readUint32_def readFloat_def readDouble_def readInt16_def readInt32_def)

lemma seq_signed: "seq (g_signed n (TYPE('a::len))) T l bs v l' \<longleftrightarrow>
    (\<exists>(w :: 'a word) b2. bs = le_put n (unat w) @ b2 \<and> T (sint w) l b2 v l')"
proof
  assume "seq (g_signed n (TYPE('a))) T l bs v l'"
  then show "\<exists>(w :: 'a word) b2. bs = le_put n (unat w) @ b2 \<and> T (sint w) l b2 v l'"
    by (auto simp: seq_def g_signed_def)
next
  assume "\<exists>(w :: 'a word) b2. bs = le_put n (unat w) @ b2 \<and> T (sint w) l b2 v l'"
  then obtain w :: "'a word" and b2 where "bs = le_put n (unat w) @ b2" "T (sint w) l b2 v l'" by blast
  moreover have "g_signed n TYPE('a) l (le_put n (unat w)) (sint w) l" unfolding g_signed_def by blast
  ultimately show "seq (g_signed n (TYPE('a))) T l bs v l'" unfolding seq_def by blast
qed

text \<open>A length: one byte below 255, or the byte 255 and four bytes.\<close>

definition g_length :: "32 word grammar" where
  "g_length = (\<lambda>l bs n l'. (n < 0xff \<and> bs = [ucast n] \<or> bs = 0xff # le_put 4 (unat n)) \<and> l' = l)"

lemma ucast_byte_32: "(ucast (ucast (b :: byte) :: 32 word) :: byte) = b"
  by (rule bit_word_eqI) (simp add: bit_ucast_iff)

lemma parses_readUint32SO [parse_intros]: "parses readUint32SO g_length"
  unfolding readUint32SO_def
proof (rule parses_eq, (rule parse_intros)+)
  fix l bs and v :: "32 word" and l'
  have small: "(\<exists>x :: byte. bs = [x] \<and> x \<noteq> 0xff \<and> v = ucast x) \<longleftrightarrow> v < 0xff \<and> bs = [ucast v]"
  proof
    assume "\<exists>x :: byte. bs = [x] \<and> x \<noteq> 0xff \<and> v = ucast x"
    then obtain x :: byte where x: "bs = [x]" "x \<noteq> 0xff" "v = ucast x" by blast
    have "unat x < 2 ^ LENGTH(8)" by (rule unsigned_less)
    moreover have "unat x \<noteq> 255" using x(2) unsigned_word_eqI [of x "0xff"] by auto
    ultimately have "unat v < 255" using x(3) by (simp add: unsigned_ucast_eq take_bit_eq_mod)
    then show "v < 0xff \<and> bs = [ucast v]" using x by (simp add: word_less_nat_alt ucast_byte_32)
  next
    assume a: "v < 0xff \<and> bs = [ucast v]"
    then have v: "unat v < 255" by (simp add: word_less_nat_alt)
    then have u: "unat (ucast v :: byte) = unat v" by (simp add: unsigned_ucast_eq take_bit_eq_mod)
    have "unat (ucast (ucast v :: byte) :: 32 word) = unat v mod 2 ^ 32"
      unfolding unsigned_ucast_eq [of "ucast v :: byte"] take_bit_eq_mod u by simp
    then have "unat v = unat (ucast (ucast v :: byte) :: 32 word)" using v by simp
    then have "v = ucast (ucast v :: byte)" by (rule unsigned_word_eqI)
    moreover have "(ucast v :: byte) \<noteq> 0xff" using u v by auto
    ultimately show "\<exists>x :: byte. bs = [x] \<and> x \<noteq> 0xff \<and> v = ucast x" using a by blast
  qed
  have "seq g_byte (\<lambda>x. if x = 0xff then g_word 4 else eps (ucast x)) l bs v l'
      \<longleftrightarrow> ((\<exists>x :: byte. bs = [x] \<and> x \<noteq> 0xff \<and> v = ucast x) \<or> bs = 0xff # le_put 4 (unat v)) \<and> l' = l"
    by (auto simp: seq_byte g_word_def eps_def split: if_splits)
  also have "\<dots> \<longleftrightarrow> g_length l bs v l'" unfolding small g_length_def by (rule refl)
  finally show "seq g_byte (\<lambda>x. if x = 0xff then g_word 4 else eps (ucast x)) l bs v l' = g_length l bs v l'" .
qed

text \<open>A string: its length and its bytes.\<close>

definition g_string :: "string grammar" where
  "g_string = seq g_length (\<lambda>n l bs s l'. bs = bytes_of s \<and> length s = unat n \<and> l' = l)"

lemma bytes_of_str_of [simp]: "bytes_of (str_of bs) = bs"
proof -
  have "(of_char (char_of (unat b) :: char) :: byte) = b" for b :: byte
  proof -
    have "unat b < 2 ^ LENGTH(8)" by (rule unsigned_less)
    then have "unat (of_char (char_of (unat b) :: char) :: byte) = unat b" by (simp add: of_char_of)
    then show ?thesis by (rule unsigned_word_eqI)
  qed
  then show ?thesis by (simp add: bytes_of_def str_of_def o_def)
qed

definition read_str :: "32 word \<Rightarrow> string reader" where
  "read_str n = do { left \<leftarrow> bytes_left;
     if left < n then do { setErr (StringTooLong n); ret [] }
     else do { b \<leftarrow> readBytes (uint n); ret (case b of None \<Rightarrow> [] | Some b \<Rightarrow> str_of b) } }"

lemma run_bytes_left:
  assumes "px_ok p"
  obtains w where "run_state bytes_left p = (w, p)" "unat w = length (px_data p) - px_pos p"
proof
  let ?n = "length (px_data p) - px_pos p"
  have "int (length (px_data p)) - int (px_pos p) = int ?n" using assms by (simp add: px_ok_def)
  then show "run_state bytes_left p = (of_nat ?n, p)"
    by (simp only: bytes_left_def state.sel of_int_of_nat_eq)
  show "unat (of_nat ?n :: 32 word) = ?n"
    unfolding unat_of_nat by (rule mod_less) (use assms in \<open>auto simp: px_ok_def\<close>)
qed

text \<open>A check that only sets the error leaves the grammar as it is if no word fails the check.\<close>

lemma parses_guard:
  assumes r: "parses r S"
    and run: "\<And>p. px_ok p \<Longrightarrow> run_state r' p =
      (if c p then (x, if px_err p = None then p\<lparr>px_err := Some e\<rparr> else p) else run_state r p)"
    and c: "\<And>p bs rest v l'. drop (px_pos p) (px_data p) = bs @ rest \<Longrightarrow> S (px_last p) bs v l' \<Longrightarrow> \<not> c p"
  shows "parses r' S"
proof -
  have "accepts r' S"
    unfolding accepts_def
  proof (intro allI impI)
    fix p bs v l' rest
    assume p: "px_ok p" "px_err p = None" "drop (px_pos p) (px_data p) = bs @ rest" "S (px_last p) bs v l'"
    with c have "run_state r' p = run_state r p" by (simp add: run)
    with parses_run [OF r p] show "run_state r' p = (v, px_advance (length bs) l' p)" by simp
  qed
  moreover have "only r' S"
    unfolding only_def
  proof (intro allI impI)
    fix p v p'
    assume p: "px_ok p" and v: "run_state r' p = (v, p')" "px_err p' = None"
    with run [OF p] have "run_state r p = (v, p')" by (auto split: if_splits)
    with r p v(2) show "px_err p = None \<and> (\<exists>bs rest. drop (px_pos p) (px_data p) = bs @ rest \<and>
       S (px_last p) bs v (px_last p') \<and> p' = px_advance (length bs) (px_last p') p)"
      unfolding parses_def only_def by blast
  qed
  moreover have "stable r'"
    using r run unfolding parses_def stable_def by simp
  ultimately show ?thesis by (simp add: parses_def)
qed

lemma int_eq_uint: "int k = uint n \<longleftrightarrow> k = unat n"
  unfolding uint_nat by (rule of_nat_eq_iff)

lemma parses_read_str: "parses (read_str n) (\<lambda>l bs s l'. bs = bytes_of s \<and> length s = unat n \<and> l' = l)"
proof -
  have run: "run_state (read_str n) p =
     (if length (px_data p) - px_pos p < unat n then ([], if px_err p = None then p\<lparr>px_err := Some (StringTooLong n)\<rparr> else p)
      else run_state (do { b \<leftarrow> readBytes (int (unat n)); ret (case b of None \<Rightarrow> [] | Some b \<Rightarrow> str_of b) }) p)"
    if ok: "px_ok p" for p
  proof -
    obtain w where w: "run_state bytes_left p = (w, p)" "unat w = length (px_data p) - px_pos p"
      using run_bytes_left [OF ok] .
    have u: "uint n = int (unat n)" by (rule uint_nat)
    show ?thesis unfolding read_str_def u by (simp add: w setErr_def word_less_nat_alt)
  qed
  let ?r = "do { b \<leftarrow> readBytes (int (unat n)); ret (case b of None \<Rightarrow> [] | Some b \<Rightarrow> str_of b) }"
  let ?S = "\<lambda>l bs s l'. bs = bytes_of s \<and> length s = unat n \<and> l' = l"
  have r: "parses ?r ?S"
    by (rule parses_eq, (rule parse_intros)+) (auto simp: seq_def word_of_length_def eps_def int_eq_uint)
  show ?thesis
  proof (rule parses_guard [OF r run])
    fix p bs rest s l'
    assume "drop (px_pos p) (px_data p) = bs @ rest" and s: "?S (px_last p) bs s l'"
    from arg_cong [OF this(1), of length] have "length (px_data p) - px_pos p = length bs + length rest" by simp
    with s show "\<not> length (px_data p) - px_pos p < unat n" by simp
  qed
qed

lemma parses_readString [parse_intros]: "parses readString g_string"
  unfolding g_string_def readString_def
  by (rule parses_bind) (rule parses_readUint32SO, rule parses_read_str [unfolded read_str_def])

section \<open>Positions, arrays and dictionaries\<close>

text \<open>A position: the mark 7fff and two absolute coordinates, or two differences to the last position.\<close>

definition g_position :: "px_value grammar" where
  "g_position = (\<lambda>l bs v l'. \<exists>x y. v = PMap [(''x'', PCoord x), (''y'', PCoord y)] \<and> l' = (x, y) \<and>
     ((\<exists>(a :: 32 word) (b :: 32 word). bs = le_put 2 0x7fff @ le_put 4 (unat a) @ le_put 4 (unat b) \<and> x = sint a \<and> y = sint b) \<or>
      (\<exists>(a :: 16 word) (b :: 16 word). a \<noteq> 0x7fff \<and> bs = le_put 2 (unat a) @ le_put 2 (unat b) \<and> x = fst l + sint a \<and> y = snd l + sint b)))"

lemma parses_get_last: "parses (State_Monad.bind State_Monad.get (\<lambda>p. ret (f (px_last p))))
    (\<lambda>l bs v l'. bs = [] \<and> v = f l \<and> l' = l)"
  by (auto simp: parses_def accepts_def only_def stable_def)

lemma parses_set_last:
  "parses (State_Monad.update (\<lambda>p. p\<lparr>px_last := q\<rparr>)) (\<lambda>l bs v l'. bs = [] \<and> v = () \<and> l' = q)"
  by (auto simp: parses_def accepts_def only_def stable_def State_Monad.update_def px_ok_def px_advance_def)

lemma sint16_mark: "sint (a :: 16 word) = 0x7fff \<longleftrightarrow> a = 0x7fff"
proof -
  have "sint (0x7fff :: 16 word) = 0x7fff" by simp
  then show ?thesis by (metis signed_word_eqI)
qed

lemma parses_readMapPosition [parse_intros]: "parses readMapPosition g_position"
  unfolding readMapPosition_def
proof (rule parses_eq)
  let ?rest = "\<lambda>xDiff. if xDiff = 0x7fff
     then seq (g_signed 4 TYPE(32)) (\<lambda>x. seq (g_signed 4 TYPE(32)) (\<lambda>y. eps (x, y)))
     else seq (g_signed 2 TYPE(16)) (\<lambda>yDiff l bs v l'. bs = [] \<and> v = (fst l + xDiff, snd l + yDiff) \<and> l' = l)"
  let ?fin = "\<lambda>xy. seq (\<lambda>l bs v l'. bs = [] \<and> v = () \<and> l' = (fst xy, snd xy))
     (\<lambda>_. eps (PMap [(''x'', PCoord (fst xy)), (''y'', PCoord (snd xy))]))"
  show "parses (do {
     xDiff \<leftarrow> readInt16;
     (x, y) \<leftarrow> (if xDiff = 0x7fff then do { x \<leftarrow> readInt32; y \<leftarrow> readInt32; ret (x, y) }
       else do { yDiff \<leftarrow> readInt16; p \<leftarrow> State_Monad.get;
         ret (fst (px_last p) + xDiff, snd (px_last p) + yDiff) });
     _ \<leftarrow> State_Monad.update (\<lambda>p. p\<lparr>px_last := (x, y)\<rparr>);
     ret (PMap [(''x'', PCoord x), (''y'', PCoord y)]) })
     (seq (g_signed 2 TYPE(16)) (\<lambda>xDiff. seq (?rest xDiff) ?fin))"
    unfolding split_def
    by (intro parse_intros parses_set_last parses_get_last)
  fix l bs v l'
  have rest: "seq (?rest (sint w)) ?fin l b v l' \<longleftrightarrow>
     (\<exists>x y. v = PMap [(''x'', PCoord x), (''y'', PCoord y)] \<and> l' = (x, y) \<and>
       (if w = 0x7fff then \<exists>(c :: 32 word) (d :: 32 word). b = le_put 4 (unat c) @ le_put 4 (unat d) \<and> x = sint c \<and> y = sint d
        else \<exists>d :: 16 word. b = le_put 2 (unat d) \<and> x = fst l + sint w \<and> y = snd l + sint d))"
    for b and w :: "16 word"
  proof (cases "w = 0x7fff")
    case True
    then have "?rest (sint w) = seq (g_signed 4 TYPE(32)) (\<lambda>x. seq (g_signed 4 TYPE(32)) (\<lambda>y. eps (x, y)))"
      by (simp add: sint16_mark)
    with True show ?thesis by (auto simp: seq_signed) (auto simp: seq_def eps_def)
  next
    case False
    then have "?rest (sint w) = seq (g_signed 2 TYPE(16)) (\<lambda>yDiff l bs v l'. bs = [] \<and> v = (fst l + sint w, snd l + yDiff) \<and> l' = l)"
      by (simp add: sint16_mark)
    with False show ?thesis by (auto simp: seq_signed) (auto simp: seq_def eps_def)
  qed
  have "le_put 2 0x7fff = le_put 2 (unat (0x7fff :: 16 word))" by simp
  then show "seq (g_signed 2 TYPE(16)) (\<lambda>xDiff. seq (?rest xDiff) ?fin) l bs v l' = g_position l bs v l'"
    unfolding seq_signed rest g_position_def by (auto split: if_splits; metis)
qed

inductive items :: "'v grammar \<Rightarrow> nat \<Rightarrow> 'v list grammar" for S :: "'v grammar" where
  items_0: "items S 0 l [] [] l"
| items_Suc: "S l b x l1 \<Longrightarrow> items S n l1 bs xs l2 \<Longrightarrow> items S (Suc n) l (b @ bs) (x # xs) l2"

inductive_simps items_0_iff: "items S 0 l bs xs l'"
inductive_simps items_Suc_iff: "items S (Suc n) l bs xs l'"

lemma items_0_seq: "seq (items S 0) T = T []"
  by (auto simp: seq_def fun_eq_iff items_0_iff)

lemma items_Suc_seq: "items S (Suc n) = seq S (\<lambda>x. seq (items S n) (\<lambda>xs. eps (x # xs)))"
  by (intro ext) (auto simp: items_Suc_iff seq_def eps_def; blast)

lemma parses_read_items:
  assumes "parses r S"
  shows "parses (read_items r n) (items S n)"
proof (induction n)
  case 0
  have "items S 0 = eps []" by (intro ext) (auto simp: eps_def items_0_iff)
  then show ?case by (simp add: parses_ret)
next
  case (Suc n)
  have "parses (read_items r (Suc n)) (seq (eps False) (\<lambda>e. if e then eps [] else
     seq S (\<lambda>x. seq (items S n) (\<lambda>xs. eps (x # xs)))))"
    unfolding read_items.simps by (intro parse_intros assms Suc)
  then show ?case by (simp add: items_Suc_seq)
qed

definition g_array :: "'v grammar \<Rightarrow> 'v list grammar" where
  "g_array S = seq g_length (\<lambda>n. if 100000 < n then nothing else items S (unat n))"

lemma parses_readArray [parse_intros]:
  assumes "parses r S"
  shows "parses (readArray r) (g_array S)"
proof -
  have "parses (readArray r) (seq g_length (\<lambda>n. if 100000 < n then seq (nothing :: unit grammar) (\<lambda>_. eps []) else items S (unat n)))"
    unfolding readArray_def by (intro parse_intros parses_read_items assms)
  then show ?thesis unfolding g_array_def seq_nothing .
qed

definition g_entry :: "'v grammar \<Rightarrow> (string \<times> 'v) grammar" where
  "g_entry S = seq g_string (\<lambda>k. seq S (\<lambda>v. eps (k, v)))"

definition put_entries :: "(string, 'v) gomap \<Rightarrow> (string \<times> 'v) list \<Rightarrow> (string, 'v) gomap" where
  "put_entries = foldl (\<lambda>m (k, v). gm_put m k v)"

text \<open>A dictionary: a later entry of the same key replaces the earlier one.\<close>

definition g_dict :: "px_value grammar \<Rightarrow> (string, px_value) gomap grammar" where
  "g_dict S = seq g_length (\<lambda>n. if 100000 < n then nothing
     else seq (items (g_entry S) (unat n)) (\<lambda>es. eps (put_entries [] es)))"

lemma parses_read_entries:
  assumes "parses r S"
  shows "parses (read_entries r n out) (seq (items (g_entry S) n) (\<lambda>es. eps (put_entries out es)))"
proof (induction n arbitrary: out)
  case 0
  show ?case unfolding items_0_seq by (simp add: put_entries_def parses_ret)
next
  case (Suc n)
  have "parses (read_entries r (Suc n) out) (seq (eps False) (\<lambda>e. if e then eps out else
     seq g_string (\<lambda>k. seq S (\<lambda>v. seq (items (g_entry S) n) (\<lambda>es. eps (put_entries (gm_put out k v) es))))))"
    unfolding read_entries.simps by (intro parse_intros assms Suc)
  then show ?case
    by (simp add: items_Suc_seq g_entry_def put_entries_def)
qed

lemma parses_readStringDict [parse_intros]:
  assumes "parses r S"
  shows "parses (readStringDict r) (g_dict S)"
proof -
  have "parses (readStringDict r) (seq g_length (\<lambda>n. if 100000 < n then seq (nothing :: unit grammar) (\<lambda>_. eps [])
     else seq (items (g_entry S) (unat n)) (\<lambda>es. eps (put_entries [] es))))"
    unfolding readStringDict_def by (intro parse_intros parses_read_entries assms)
  then show ?thesis unfolding g_dict_def seq_nothing .
qed

section \<open>Formats\<close>

text \<open>The format of a value, and of the entries of a settings table in the order of the bytes;
  \<open>RUnused\<close> is a byte without an entry.\<close>

datatype fmt = FBool | FUint8 | FUint32 | FInt16 | FInt32 | FFloat | FDouble | FString | FPosition
  | FQueue | FOptional fmt | FArray fmt | FDict fmt | FMap rows
and rows = REnd | RField string fmt rows | RUnused rows

primrec lang :: "fmt \<Rightarrow> px_value grammar" and lang_rows :: "rows \<Rightarrow> (string, px_value) gomap grammar" where
  "lang FBool = seq g_byte (\<lambda>x. eps (PBool (x \<noteq> 0)))"
| "lang FUint8 = seq g_byte (\<lambda>x. eps (PUint (unat x)))"
| "lang FUint32 = seq (g_word 4) (\<lambda>w :: 32 word. eps (PUint (unat w)))"
| "lang FInt16 = seq (g_signed 2 TYPE(16)) (\<lambda>x. eps (PInt x))"
| "lang FInt32 = seq (g_signed 4 TYPE(32)) (\<lambda>x. eps (PInt x))"
| "lang FFloat = seq (g_word 4) (\<lambda>w. eps (PFloat w))"
| "lang FDouble = seq (g_word 8) (\<lambda>w. eps (PDouble w))"
| "lang FString = seq g_string (\<lambda>s. eps (PString s))"
| "lang FPosition = g_position"
| "lang FQueue = seq g_byte (\<lambda>i. if unat i < length researchQueue
     then eps (PString (researchQueue ! unat i)) else nothing)"
| "lang (FOptional f) = seq g_byte (\<lambda>x. if x = 0 then eps PNil else lang f)"
| "lang (FArray f) = seq (g_array (lang f)) (\<lambda>xs. eps (PArray xs))"
| "lang (FDict f) = seq (g_dict (lang f)) (\<lambda>m. eps (PMap m))"
| "lang (FMap rs) = seq (lang_rows rs) (\<lambda>m. eps (PMap m))"
| "lang_rows REnd = eps []"
| "lang_rows (RField k f rs) = seq (lang f) (\<lambda>v. seq (lang_rows rs) (\<lambda>m. eps ((k, v) # m)))"
| "lang_rows (RUnused rs) = seq g_byte (\<lambda>_. lang_rows rs)"

fun fields :: "(string \<times> fmt) list \<Rightarrow> rows \<Rightarrow> rows" where
  "fields [] rs = rs"
| "fields ((k, f) # fs) rs = RField k f (fields fs rs)"

definition fmt_frequency :: fmt where
  "fmt_frequency = FMap (fields [(''frequency'', FFloat), (''size'', FFloat), (''richness'', FFloat)] REnd)"

definition fmt_autoplace :: fmt where
  "fmt_autoplace = FMap (fields [(''treat_missing_as_default'', FBool), (''settings'', FDict fmt_frequency)] REnd)"

definition fmt_box :: fmt where
  "fmt_box = FMap (fields [(''left_top'', FPosition), (''right_bottom'', FPosition),
     (''orientation'', FMap (fields [(''x'', FInt16), (''y'', FInt16)] REnd))] REnd)"

definition fmt_cliffs :: "bool \<Rightarrow> fmt" where
  "fmt_cliffs v2 = FMap (RField ''name'' FString ((if v2 then RUnused else id)
     (fields ([(''cliff_elevation_0'', FFloat), (''cliff_elevation_interval'', FFloat), (''richness'', FFloat)]
       @ (if v2 then [(''cliff_smoothing'', FFloat)] else [])) REnd)))"

definition fmt_territory :: fmt where
  "fmt_territory = FMap (fields [(''units'', FArray FString), (''territory_index_expression'', FString),
     (''territory_variation_expression'', FString), (''minimum_territory_size'', FUint32)] REnd)"

definition gen_fields :: "bool \<Rightarrow> (string \<times> fmt) list" where
  "gen_fields v2 = (if v2 then [] else [(''terrain_segmentation'', FFloat), (''water'', FFloat)]) @
    [(''autoplace_controls'', FDict fmt_frequency), (''autoplace_settings'', FDict fmt_autoplace),
     (''default_enable_all_autoplace_controls'', FBool), (''seed'', FUint32), (''width'', FUint32),
     (''height'', FUint32), (''area_to_generate_at_start'', fmt_box), (''starting_area'', FFloat),
     (''peaceful_mode'', FBool)] @
    (if v2 then [(''no_enemies_mode'', FBool)] else []) @
    [(''starting_points'', FArray FPosition), (''property_expression_names'', FDict FString),
     (''cliff_settings'', fmt_cliffs v2)]"

definition fmt_pollution :: fmt where
  "fmt_pollution = FMap (fields [
     (''enabled'', FOptional FBool),
     (''diffusion_ratio'', FOptional FDouble),
     (''min_to_diffuse'', FOptional FDouble),
     (''ageing'', FOptional FDouble),
     (''expected_max_per_chunk'', FOptional FDouble),
     (''min_to_show_per_chunk'', FOptional FDouble),
     (''min_pollution_to_damage_trees'', FOptional FDouble),
     (''pollution_with_max_forest_damage'', FOptional FDouble),
     (''pollution_per_tree_damage'', FOptional FDouble),
     (''pollution_restored_per_tree_damage'', FOptional FDouble),
     (''max_pollution_to_restore_trees'', FOptional FDouble),
     (''enemy_attack_pollution_consumption_modifier'', FOptional FDouble)] REnd)"

definition fmt_real_steering :: fmt where
  "fmt_real_steering = FMap (fields [
     (''radius'', FOptional FDouble),
     (''separation_factor'', FOptional FDouble),
     (''separation_force'', FOptional FDouble),
     (''force_unit_fuzzy_goto_behavior'', FOptional FBool)] REnd)"

definition fmt_enemy_evolution :: fmt where
  "fmt_enemy_evolution = FMap (fields [
     (''enabled'', FOptional FBool),
     (''time_factor'', FOptional FDouble),
     (''destroy_factor'', FOptional FDouble),
     (''pollution_factor'', FOptional FDouble)] REnd)"

definition fmt_unit_group :: fmt where
  "fmt_unit_group = FMap (fields [
     (''min_group_gathering_time'', FOptional FUint32),
     (''max_group_gathering_time'', FOptional FUint32),
     (''max_wait_time_for_late_members'', FOptional FUint32),
     (''max_group_radius'', FOptional FDouble),
     (''min_group_radius'', FOptional FDouble),
     (''max_member_speedup_when_behind'', FOptional FDouble),
     (''max_member_slowdown_when_ahead'', FOptional FDouble),
     (''max_group_slowdown_factor'', FOptional FDouble),
     (''max_group_member_fallback_factor'', FOptional FDouble),
     (''member_disown_distance'', FOptional FDouble),
     (''tick_tolerance_when_member_arrives'', FOptional FUint32),
     (''max_gathering_unit_groups'', FOptional FUint32),
     (''max_unit_group_size'', FOptional FUint32)] REnd)"

definition fmt_path_finder :: fmt where
  "fmt_path_finder = FMap (fields [
     (''fwd2bwd_ratio'', FOptional FInt32),
     (''goal_pressure_ratio'', FOptional FDouble),
     (''use_path_cache'', FOptional FBool),
     (''max_steps_worked_per_tick'', FOptional FDouble),
     (''max_work_done_per_tick'', FOptional FUint32),
     (''short_cache_size'', FOptional FUint32),
     (''long_cache_size'', FOptional FUint32),
     (''short_cache_min_cacheable_distance'', FOptional FDouble),
     (''short_cache_min_algo_steps_to_cache'', FOptional FUint32),
     (''long_cache_min_cacheable_distance'', FOptional FDouble),
     (''cache_max_connect_to_cache_steps_multiplier'', FOptional FUint32),
     (''cache_accept_path_start_distance_ratio'', FOptional FDouble),
     (''cache_accept_path_end_distance_ratio'', FOptional FDouble),
     (''negative_cache_accept_path_start_distance_ratio'', FOptional FDouble),
     (''negative_cache_accept_path_end_distance_ratio'', FOptional FDouble),
     (''cache_path_start_distance_rating_multiplier'', FOptional FDouble),
     (''cache_path_end_distance_rating_multiplier'', FOptional FDouble),
     (''stale_enemy_with_same_destination_collision_penalty'', FOptional FDouble),
     (''ignore_moving_enemy_collision_distance'', FOptional FDouble),
     (''enemy_with_different_destination_collision_penalty'', FOptional FDouble),
     (''general_entity_collision_penalty'', FOptional FDouble),
     (''general_entity_subsequent_collision_penalty'', FOptional FDouble),
     (''extended_collision_penalty'', FOptional FDouble),
     (''max_clients_to_accept_any_new_request'', FOptional FUint32),
     (''max_clients_to_accept_short_new_request'', FOptional FUint32),
     (''direct_distance_to_consider_short_request'', FOptional FUint32),
     (''short_request_max_steps'', FOptional FUint32),
     (''short_request_ratio'', FOptional FDouble),
     (''min_steps_to_check_path_find_termination'', FOptional FUint32),
     (''start_to_goal_cost_multiplier_to_terminate_path_find'', FOptional FDouble),
     (''overload_levels'', FOptional (FArray FUint32)),
     (''overload_multipliers'', FOptional (FArray FDouble)),
     (''negative_path_cache_delay_interval'', FOptional FUint32)] REnd)"

definition fmt_asteroids :: fmt where
  "fmt_asteroids = FMap (fields [
     (''spawning_rate'', FOptional FDouble),
     (''max_ray_portals_expanded_per_tick'', FOptional FUint32)] REnd)"

definition fmt_enemy_expansion :: "bool \<Rightarrow> fmt" where
  "fmt_enemy_expansion v21 = FMap (fields (
     [(''enabled'', FOptional FBool), (''max_expansion_distance'', FOptional FUint32)] @
     (if v21 then [(''min_expansion_distance'', FOptional FUint32)] else []) @
     [(''friendly_base_influence_radius'', FOptional FUint32), (''enemy_building_influence_radius'', FOptional FUint32),
      (''building_coefficient'', FOptional FDouble), (''other_base_coefficient'', FOptional FDouble),
      (''neighbouring_chunk_coefficient'', FOptional FDouble), (''neighbouring_base_chunk_coefficient'', FOptional FDouble),
      (''max_colliding_tiles_coefficient'', FOptional FDouble), (''settler_group_min_size'', FOptional FUint32),
      (''settler_group_max_size'', FOptional FUint32)] @
     (if v21 then [(''evolution_group_size_factor'', FOptional FDouble)] else []) @
     [(''min_expansion_cooldown'', FOptional FUint32), (''max_expansion_cooldown'', FOptional FUint32)]) REnd)"

definition fmt_difficulty :: "bool \<Rightarrow> fmt" where
  "fmt_difficulty v2 = FMap (fields (if v2
     then [(''technology_price_multiplier'', FDouble), (''spoil_time_modifier'', FDouble)]
     else [(''recipe_difficulty'', FUint8), (''technology_difficulty'', FUint8),
       (''technology_price_multiplier'', FDouble), (''research_queue_setting'', FQueue)]) REnd)"

definition set_fields :: "bool \<Rightarrow> bool \<Rightarrow> (string \<times> fmt) list" where
  "set_fields v2 v21 = [(''pollution'', fmt_pollution)] @
     (if v21 then [] else [(''steering'', FMap (fields [(''default'', fmt_real_steering), (''moving'', fmt_real_steering)] REnd))]) @
     [(''enemy_evolution'', fmt_enemy_evolution), (''enemy_expansion'', fmt_enemy_expansion v21),
      (''unit_group'', fmt_unit_group), (''path_finder'', fmt_path_finder),
      (''max_failed_behavior_count'', FUint32), (''difficulty_settings'', fmt_difficulty v2)] @
     (if v2 then [(''asteroids'', fmt_asteroids)] else [])"

section \<open>The readers of the settings read their formats\<close>

lemma parses_any [parse_intros]:
  "parses any_bool (lang FBool)" "parses any_uint8 (lang FUint8)" "parses any_uint32 (lang FUint32)"
  "parses any_int16 (lang FInt16)" "parses any_int32 (lang FInt32)" "parses any_float (lang FFloat)"
  "parses any_double (lang FDouble)" "parses any_string (lang FString)" "parses readMapPosition (lang FPosition)"
  unfolding lang.simps any_bool_def any_uint8_def any_uint32_def any_int16_def any_int32_def any_float_def
    any_double_def any_string_def readBool_def bind_assoc bind_left_identity
  by (intro parse_intros)+

lemma parses_any_array [parse_intros]:
  "parses r (lang f) \<Longrightarrow> parses (any_array r) (lang (FArray f))"
  "parses r (lang f) \<Longrightarrow> parses (do { xs \<leftarrow> readArray r; ret (PArray xs) }) (lang (FArray f))"
  "parses r (lang f) \<Longrightarrow> parses (any_dict r) (lang (FDict f))"
  unfolding any_array_def any_dict_def lang.simps by (intro parse_intros, assumption)+

lemma parses_readOptional [parse_intros]:
  assumes "parses r (lang f)"
  shows "parses (readOptional r) (lang (FOptional f))"
proof -
  have "parses (readOptional r) (seq g_byte (\<lambda>x. if \<not> x \<noteq> 0 then eps PNil else lang f))"
    unfolding readOptional_def readBool_def bind_assoc bind_left_identity by (intro parse_intros assms)
  then show ?thesis by simp
qed

lemma parses_read_queue [parse_intros]: "parses read_queue (lang FQueue)"
proof -
  have "parses read_queue (seq g_byte (\<lambda>i. if unat i < length researchQueue
      then eps (PString (researchQueue ! unat i)) else seq (nothing :: unit grammar) (\<lambda>_. eps (PString []))))"
    unfolding read_queue_def by (intro parse_intros)
  then show ?thesis unfolding seq_nothing lang.simps .
qed

lemma parses_literal [parse_intros]:
  "parses (read_literal []) (lang_rows (fields [] REnd))"
  "parses r (lang f) \<Longrightarrow> parses (read_literal fs) (lang_rows (fields gs REnd)) \<Longrightarrow>
   parses (read_literal ((k, r) # fs)) (lang_rows (fields ((k, f) # gs) REnd))"
  by (simp_all add: parse_intros)

lemma parses_read_map [parse_intros]:
  "parses (read_literal fs) (lang_rows rs) \<Longrightarrow> parses (read_map fs) (lang (FMap rs))"
  unfolding read_map_def lang.simps by (intro parse_intros)

lemmas gen_reader_defs = readFrequencySizeRichness_def fmt_frequency_def readAutoplaceSetting_def fmt_autoplace_def
  readBoundingBox_def fmt_box_def readTerritorySettings_def fmt_territory_def readStringArray_def

lemma parses_gen_parts [parse_intros]:
  "parses readFrequencySizeRichness (lang fmt_frequency)"
  "parses readAutoplaceSetting (lang fmt_autoplace)"
  "parses readBoundingBox (lang fmt_box)"
  "parses readTerritorySettings (lang fmt_territory)"
  unfolding gen_reader_defs by (intro parse_intros)+

lemma parses_readPollution [parse_intros]: "parses readPollution (lang fmt_pollution)"
  unfolding readPollution_def fmt_pollution_def by (intro parse_intros)

lemma parses_readRealSteering [parse_intros]: "parses readRealSteering (lang fmt_real_steering)"
  unfolding readRealSteering_def fmt_real_steering_def by (intro parse_intros)

lemma parses_readEnemyEvolution [parse_intros]: "parses readEnemyEvolution (lang fmt_enemy_evolution)"
  unfolding readEnemyEvolution_def fmt_enemy_evolution_def by (intro parse_intros)

lemma parses_readUnitGroup [parse_intros]: "parses readUnitGroup (lang fmt_unit_group)"
  unfolding readUnitGroup_def fmt_unit_group_def by (intro parse_intros)

lemma parses_readPathFinder [parse_intros]: "parses readPathFinder (lang fmt_path_finder)"
  unfolding readPathFinder_def fmt_path_finder_def by (intro parse_intros)

lemma parses_readAsteroidsSettings [parse_intros]: "parses readAsteroidsSettings (lang fmt_asteroids)"
  unfolding readAsteroidsSettings_def fmt_asteroids_def by (intro parse_intros)

lemma parses_readEnemyExpansion [parse_intros]: "parses (readEnemyExpansion v21) (lang (fmt_enemy_expansion v21))"
  unfolding readEnemyExpansion_def fmt_enemy_expansion_def
  by (cases v21) (simp_all only: if_True if_False append.simps, (intro parse_intros)+)

lemma parses_readDifficultySettings [parse_intros]: "parses (readDifficultySettings v2) (lang (fmt_difficulty v2))"
  unfolding readDifficultySettings_def fmt_difficulty_def
  by (cases v2) (simp_all only: if_True if_False, (intro parse_intros)+)

lemma parses_readSteering [parse_intros]:
  "parses readSteering (lang (FMap (fields [(''default'', fmt_real_steering), (''moving'', fmt_real_steering)] REnd)))"
  unfolding readSteering_def by (intro parse_intros)

lemma parses_readMapSettings [parse_intros]:
  "parses (readMapSettings v2 v21) (lang_rows (fields (set_fields v2 v21) REnd))"
  unfolding readMapSettings_def set_fields_def
  by (cases v2; cases v21) (simp_all only: if_True if_False not_True_eq_False not_False_eq_True append.simps,
    (intro parse_intros)+)

lemma readCliffSettings_literal:
  "readCliffSettings True = do { name \<leftarrow> any_string; _ \<leftarrow> readUint8;
     m \<leftarrow> read_literal [(''cliff_elevation_0'', any_float), (''cliff_elevation_interval'', any_float),
       (''richness'', any_float), (''cliff_smoothing'', any_float)]; ret (PMap ((''name'', name) # m)) }"
  "readCliffSettings False = read_map [(''name'', any_string), (''cliff_elevation_0'', any_float),
     (''cliff_elevation_interval'', any_float), (''richness'', any_float)]"
  by (simp_all add: readCliffSettings_def read_map_def)

lemma parses_readCliffSettings [parse_intros]: "parses (readCliffSettings v2) (lang (fmt_cliffs v2))"
proof (cases v2)
  case True
  have "parses (readCliffSettings True) (seq (lang FString) (\<lambda>v. seq g_byte (\<lambda>_.
     seq (lang_rows (fields [(''cliff_elevation_0'', FFloat), (''cliff_elevation_interval'', FFloat), (''richness'', FFloat),
       (''cliff_smoothing'', FFloat)] REnd)) (\<lambda>m. eps (PMap ((''name'', v) # m))))))"
    unfolding readCliffSettings_literal by (intro parse_intros)
  with True show ?thesis by (simp add: fmt_cliffs_def)
next
  case False
  have "parses (readCliffSettings False) (lang (FMap (fields [(''name'', FString), (''cliff_elevation_0'', FFloat),
     (''cliff_elevation_interval'', FFloat), (''richness'', FFloat)] REnd)))"
    unfolding readCliffSettings_literal by (intro parse_intros)
  with False show ?thesis by (simp add: fmt_cliffs_def)
qed

text \<open>The map generation settings: \<open>built\<close> is the table the code builds from the entries in the
  order of the bytes.  The table has the same entries.\<close>

definition built :: "bool \<Rightarrow> (string, px_value) gomap \<Rightarrow> (string, px_value) gomap" where
  "built v2 w = (let early = (if v2 then [] else take 2 w); later = (if v2 then w else drop 2 w) in
     put_entries (take 9 later @ [(''starting_points'', PNil), (''property_expression_names'', PNil), (''cliff_settings'', PNil)])
       (drop 9 later @ early))"

definition g_gen :: "bool \<Rightarrow> (string, px_value) gomap grammar" where
  "g_gen v2 = seq (lang_rows (fields (gen_fields v2) REnd)) (\<lambda>w.
     if v2 then seq (lang (FOptional fmt_territory)) (\<lambda>t.
       eps (if t \<noteq> PNil then built True (w @ [(''territory_settings'', t)]) else built True w))
     else eps (built False w))"

lemma readMapGenSettings_literal:
  "readMapGenSettings True = do {
     w \<leftarrow> read_literal [(''autoplace_controls'', any_dict readFrequencySizeRichness),
       (''autoplace_settings'', any_dict readAutoplaceSetting), (''default_enable_all_autoplace_controls'', any_bool),
       (''seed'', any_uint32), (''width'', any_uint32), (''height'', any_uint32),
       (''area_to_generate_at_start'', readBoundingBox), (''starting_area'', any_float), (''peaceful_mode'', any_bool),
       (''no_enemies_mode'', any_bool), (''starting_points'', any_array readMapPosition),
       (''property_expression_names'', any_dict any_string), (''cliff_settings'', readCliffSettings True)];
     t \<leftarrow> readOptional readTerritorySettings;
     ret (if t \<noteq> PNil then built True (w @ [(''territory_settings'', t)]) else built True w) }"
  by (simp add: readMapGenSettings_def built_def put_entries_def gm_put_def cong: if_cong)

lemma readMapGenSettings_literal_old:
  "readMapGenSettings False = do {
     w \<leftarrow> read_literal [(''terrain_segmentation'', any_float), (''water'', any_float),
       (''autoplace_controls'', any_dict readFrequencySizeRichness),
       (''autoplace_settings'', any_dict readAutoplaceSetting), (''default_enable_all_autoplace_controls'', any_bool),
       (''seed'', any_uint32), (''width'', any_uint32), (''height'', any_uint32),
       (''area_to_generate_at_start'', readBoundingBox), (''starting_area'', any_float), (''peaceful_mode'', any_bool),
       (''starting_points'', any_array readMapPosition),
       (''property_expression_names'', any_dict any_string), (''cliff_settings'', readCliffSettings False)];
     ret (built False w) }"
  by (simp add: readMapGenSettings_def built_def put_entries_def gm_put_def)

lemma parses_readMapGenSettings [parse_intros]: "parses (readMapGenSettings v2) (g_gen v2)"
  unfolding g_gen_def gen_fields_def
  by (cases v2) (simp_all only: if_True if_False append.simps readMapGenSettings_literal readMapGenSettings_literal_old,
    (intro parse_intros)+)

definition g_version :: "version grammar" where
  "g_version = seq (g_word 2) (\<lambda>a. seq (g_word 2) (\<lambda>b. seq (g_word 2) (\<lambda>c. seq (g_word 2) (\<lambda>d. eps (Version a b c d)))))"

text \<open>The whole payload: version, an unused byte, the two tables and the checksum.\<close>

definition g_exchange :: "(version \<times> (string, px_value) gomap \<times> (string, px_value) gomap \<times> 32 word) grammar" where
  "g_exchange = seq g_version (\<lambda>v. seq g_byte (\<lambda>_.
     seq (g_gen (versionAtLeast v 2 0 0 0)) (\<lambda>gen.
     seq (lang_rows (fields (set_fields (versionAtLeast v 2 0 0 0) (versionAtLeast v 2 1 0 0)) REnd)) (\<lambda>sett.
     seq (g_word 4) (\<lambda>checksum. eps (v, gen, sett, checksum))))))"

lemma parses_read_exchange: "parses read_exchange g_exchange"
  unfolding read_exchange_def readVersion_def g_exchange_def g_version_def by (intro parse_intros)

end
