(* ===== verification/Map_Exchange_Properties.thy ===== *)
theory Map_Exchange_Properties
  imports Map_Exchange_Format
begin

text \<open>
  What the parser of map exchange strings promises: it accepts exactly the payloads of the grammar,
  rejects every truncated or extended payload, stays inside its data, and builds tables with the
  entries the version asks for; the base64 decoder takes padded and unpadded text; a string that
  cannot be used leaves the chosen map generator alone.
\<close>

section \<open>The order of versions\<close>

instantiation version :: linorder
begin

definition less_eq_version :: "version \<Rightarrow> version \<Rightarrow> bool" where
  "less_eq_version v w \<longleftrightarrow> version_parts v \<le> version_parts w"

definition less_version :: "version \<Rightarrow> version \<Rightarrow> bool" where
  "less_version v w \<longleftrightarrow> version_parts v < version_parts w"

instance
proof
  fix u v w :: version
  show "v < w \<longleftrightarrow> v \<le> w \<and> \<not> w \<le> v" by (auto simp: less_version_def less_eq_version_def)
  show "v \<le> v" by (simp add: less_eq_version_def)
  show "u \<le> v \<Longrightarrow> v \<le> w \<Longrightarrow> u \<le> w" by (simp add: less_eq_version_def)
  show "v \<le> w \<Longrightarrow> w \<le> v \<Longrightarrow> v = w"
    by (cases v; cases w) (auto simp: less_eq_version_def)
  show "v \<le> w \<or> w \<le> v" unfolding less_eq_version_def by (rule linear)
qed

end

lemma at_least_loop_iff: "length vs = length ts \<Longrightarrow> at_least_loop vs ts \<longleftrightarrow> ts \<le> vs"
  by (induction vs ts rule: at_least_loop.induct) auto

lemma versionAtLeast_iff: "versionAtLeast v a b c d \<longleftrightarrow> Version a b c d \<le> v"
  by (cases v) (simp add: versionAtLeast_def less_eq_version_def at_least_loop_iff del: at_least_loop.simps)

section \<open>Exact readers\<close>

lemma only_run:
  assumes "parses r S" "px_ok p" "run_state r p = (v, p')" "px_err p' = None"
  shows "\<exists>bs rest. drop (px_pos p) (px_data p) = bs @ rest \<and> S (px_last p) bs v (px_last p') \<and>
    p' = px_advance (length bs) (px_last p') p"
  using assms unfolding parses_def only_def by blast

locale exact_reader =
  fixes r :: "'v reader" and S :: "'v grammar"
  assumes exact: "parses r S"
begin

definition whole :: "byte list \<Rightarrow> 'v \<Rightarrow> bool" where
  "whole raw v \<longleftrightarrow> (\<exists>l'. S (0, 0) raw v l')"

lemma new_ok: "length raw < 2 ^ 32 \<Longrightarrow> px_ok (newMapExchangeParser raw)"
  by (simp add: px_ok_def newMapExchangeParser_def)

lemma reads_prefix:
  assumes "S (0, 0) bs v l'" "length (bs @ rest) < 2 ^ 32"
  shows "\<exists>p. run_state r (newMapExchangeParser (bs @ rest)) = (v, p) \<and> px_err p = None \<and> px_pos p = length bs"
proof -
  let ?p = "newMapExchangeParser (bs @ rest)"
  have "run_state r ?p = (v, px_advance (length bs) l' ?p)"
    by (rule parses_run [OF exact new_ok [OF assms(2)]]) (use assms(1) in \<open>simp_all add: newMapExchangeParser_def\<close>)
  then show ?thesis by (simp add: newMapExchangeParser_def)
qed

text \<open>Success with all bytes consumed is membership in the grammar.\<close>

lemma reads_whole:
  assumes "length raw < 2 ^ 32"
  shows "whole raw v \<longleftrightarrow>
    (\<exists>p. run_state r (newMapExchangeParser raw) = (v, p) \<and> px_err p = None \<and> px_pos p = length raw)"
proof
  assume "whole raw v"
  then show "\<exists>p. run_state r (newMapExchangeParser raw) = (v, p) \<and> px_err p = None \<and> px_pos p = length raw"
    using reads_prefix [of raw v _ "[]"] assms by (auto simp: whole_def)
next
  assume "\<exists>p. run_state r (newMapExchangeParser raw) = (v, p) \<and> px_err p = None \<and> px_pos p = length raw"
  then obtain p where p: "run_state r (newMapExchangeParser raw) = (v, p)" "px_err p = None" "px_pos p = length raw"
    by blast
  then obtain bs rest where raw: "raw = bs @ rest" and S: "S (0, 0) bs v (px_last p)"
    and a: "p = px_advance (length bs) (px_last p) (newMapExchangeParser raw)"
    using only_run [OF exact new_ok [OF assms] p(1,2)] by (auto simp: newMapExchangeParser_def)
  have "px_pos p = length bs" by (subst a) (simp add: newMapExchangeParser_def)
  with p(3) raw have "rest = []" by simp
  with raw S have "S (0, 0) raw v (px_last p)" by simp
  then show "whole raw v" unfolding whole_def by blast
qed

lemma prefix_free:
  assumes "whole raw v" "whole (raw @ ext) w" "length (raw @ ext) < 2 ^ 32"
  shows "ext = [] \<and> w = v"
proof -
  from assms(1) obtain l' where l': "S (0, 0) raw v l'" by (auto simp: whole_def)
  obtain p where 1: "run_state r (newMapExchangeParser (raw @ ext)) = (v, p)" "px_pos p = length raw"
    using reads_prefix [OF l' assms(3)] by blast
  obtain q where 2: "run_state r (newMapExchangeParser (raw @ ext)) = (w, q)" "px_pos q = length (raw @ ext)"
    using assms(2) reads_whole [OF assms(3)] by blast
  from 1 2 show ?thesis by auto
qed

lemma in_bounds:
  assumes "length raw < 2 ^ 32" "run_state r (newMapExchangeParser raw) = (v, p)"
  shows "px_data p = raw" "px_pos p \<le> length raw"
  using exact new_ok [OF assms(1)] assms(2) unfolding parses_def stable_def px_ok_def
  by (fastforce simp: newMapExchangeParser_def)+

end

interpretation exchange: exact_reader read_exchange g_exchange
  by unfold_locales (rule parses_read_exchange)

section \<open>Payloads\<close>

definition payload :: "byte list \<Rightarrow> map_exchange_data \<Rightarrow> bool" where
  "payload raw d \<longleftrightarrow> exchange.whole raw (med_version d, med_gen d, med_set d, med_checksum d) \<and>
     med_checksum_ok d = (med_checksum d = crc_checksum ieee (take (length raw - 4) raw))"

lemma seq_suffix:
  "seq S (\<lambda>v. T v) l bs w l' \<Longrightarrow> (\<And>v l1 b. T v l1 b w l' \<Longrightarrow> \<exists>pre. b = pre @ suf) \<Longrightarrow> \<exists>pre. bs = pre @ suf"
  unfolding seq_def by (metis append.assoc)

lemma payload_checksum:
  assumes "g_exchange l raw (v, gen, sett, ck) l'"
  shows "\<exists>pre. raw = pre @ le_put 4 (unat ck)"
proof -
  have "\<exists>pre. b = pre @ le_put 4 (unat ck)"
    if "seq (g_word 4) (\<lambda>checksum. eps (a, x, y, checksum)) l1 b (v, gen, sett, ck) l'"
    for a x y l1 b
    using that by (auto simp: seq_def g_word_def eps_def)
  note last = this
  show ?thesis
    by (rule seq_suffix [OF assms [unfolded g_exchange_def]], erule seq_suffix, erule seq_suffix, erule seq_suffix, rule last)
qed

lemma checksum_read:
  assumes "g_exchange l raw (v, gen, sett, ck) l'"
  shows "4 \<le> length raw" "of_nat (le_get (drop (length raw - 4) raw)) = ck"
proof -
  obtain pre where raw: "raw = pre @ le_put 4 (unat ck)" using payload_checksum [OF assms] by blast
  then show "4 \<le> length raw" by simp
  have "of_nat (le_get (le_put 4 (unat ck))) = ck" by (rule le_word_get) simp
  with raw show "of_nat (le_get (drop (length raw - 4) raw)) = ck" by simp
qed

lemma parse_payload_run:
  "parse_payload raw = Inr d \<longleftrightarrow> 4 \<le> length raw \<and>
    (\<exists>p. run_state read_exchange (newMapExchangeParser raw) = ((med_version d, med_gen d, med_set d, med_checksum d), p)
      \<and> px_err p = None \<and> px_pos p = length raw) \<and>
    med_checksum_ok d = (of_nat (le_get (drop (length raw - 4) raw)) = crc_checksum ieee (take (length raw - 4) raw))"
proof -
  obtain x p where "run_state read_exchange (newMapExchangeParser raw) = (x, p)" by fastforce
  moreover obtain v gen sett ck where "x = (v, gen, sett, ck)" by (cases x)
  ultimately have run: "run_state read_exchange (newMapExchangeParser raw) = ((v, gen, sett, ck), p)" by simp
  show ?thesis
  proof (cases "px_err p")
    case None
    then show ?thesis by (cases d) (auto simp: parse_payload_def run Let_def not_less)
  next
    case (Some e)
    then show ?thesis by (auto simp: parse_payload_def run)
  qed
qed

lemma parse_payload_iff:
  assumes "length raw < 2 ^ 32"
  shows "parse_payload raw = Inr d \<longleftrightarrow> payload raw d"
proof -
  have "payload raw d \<longleftrightarrow> (\<exists>l'. g_exchange (0, 0) raw (med_version d, med_gen d, med_set d, med_checksum d) l') \<and>
      4 \<le> length raw \<and> med_checksum_ok d =
        (of_nat (le_get (drop (length raw - 4) raw)) = crc_checksum ieee (take (length raw - 4) raw))"
    unfolding payload_def exchange.whole_def using checksum_read by (metis (no_types, lifting))
  then show ?thesis
    unfolding parse_payload_run exchange.reads_whole [OF assms, symmetric] exchange.whole_def by blast
qed

text \<open>The smallest payload of Factorio 2.1: after the version all bytes are zero.\<close>

primrec zlen :: "fmt \<Rightarrow> nat" and zlen_rows :: "rows \<Rightarrow> nat" where
  "zlen FBool = 1" | "zlen FUint8 = 1" | "zlen FUint32 = 4" | "zlen FInt16 = 2" | "zlen FInt32 = 4"
| "zlen FFloat = 4" | "zlen FDouble = 8" | "zlen FString = 1" | "zlen FPosition = 4" | "zlen FQueue = 1"
| "zlen (FOptional f) = 1" | "zlen (FArray f) = 1" | "zlen (FDict f) = 1" | "zlen (FMap rs) = zlen_rows rs"
| "zlen_rows REnd = 0" | "zlen_rows (RField k f rs) = zlen f + zlen_rows rs" | "zlen_rows (RUnused rs) = Suc (zlen_rows rs)"

lemma le_put_zero: "le_put n 0 = replicate n 0"
  by (induction n) simp_all

lemma seqI: "S l b1 v l1 \<Longrightarrow> T v l1 b2 w l' \<Longrightarrow> seq S T l (b1 @ b2) w l'"
  unfolding seq_def by blast

lemma seqE:
  assumes "seq S T l bs w l'"
  obtains b1 b2 v l1 where "bs = b1 @ b2" "S l b1 v l1" "T v l1 b2 w l'"
  using assms unfolding seq_def by blast

lemma seq_zero: "S l (replicate m 0) v l \<Longrightarrow> T v l (replicate n 0) w l \<Longrightarrow> seq S T l (replicate (m + n) 0) w l"
  using seqI [of S l "replicate m 0" v l T "replicate n 0" w l] by (simp add: replicate_add)

lemma seq_word_zero: "T 0 l [] w l \<Longrightarrow> seq (g_word n) T l (replicate n 0) w l"
  using seqI [of "g_word n" l "replicate n 0" 0 l T "[]" w l] by (simp add: g_word_def le_put_zero)

lemma seq_length_zero: "T 0 l [] w l \<Longrightarrow> seq g_length T l [0] w l"
  using seqI [of g_length l "[0]" 0 l T "[]" w l] by (simp add: g_length_def)

lemma lang_zero: "\<exists>v. lang f l (replicate (zlen f) 0) v l"
  and lang_rows_zero: "\<exists>m. lang_rows rs l (replicate (zlen_rows rs) 0) m l"
proof (induction f and rs)
  case FUint32
  show ?case by (rule exI, simp, rule seq_word_zero) (simp add: eps_def)
next
  case FFloat
  show ?case by (rule exI, simp, rule seq_word_zero) (simp add: eps_def)
next
  case FDouble
  show ?case by (rule exI, simp, rule seq_word_zero) (simp add: eps_def)
next
  case FInt16
  show ?case unfolding lang.simps seq_signed by (rule exI, rule exI [of _ 0]) (simp add: le_put_zero eps_def)
next
  case FInt32
  show ?case unfolding lang.simps seq_signed by (rule exI, rule exI [of _ 0]) (simp add: le_put_zero eps_def)
next
  case FPosition
  have "replicate 4 0 = le_put 2 (unat (0 :: 16 word)) @ le_put 2 (unat (0 :: 16 word))"
    by (simp add: numeral_eq_Suc le_put_zero)
  moreover have "(0 :: 16 word) \<noteq> 0x7fff" "l = (fst l + sint (0 :: 16 word), snd l + sint (0 :: 16 word))" by simp_all
  ultimately have "g_position l (replicate 4 0) (PMap [(''x'', PCoord (fst l + sint (0 :: 16 word))),
      (''y'', PCoord (snd l + sint (0 :: 16 word)))]) l"
    unfolding g_position_def by blast
  then show ?case unfolding lang.simps zlen.simps by blast
next
  case (RField k f rs)
  then obtain v m where "lang f l (replicate (zlen f) 0) v l" "lang_rows rs l (replicate (zlen_rows rs) 0) m l" by blast
  then have "lang_rows (RField k f rs) l (replicate (zlen f + (zlen_rows rs + 0)) 0) ((k, v) # m) l"
    unfolding lang_rows.simps by (intro seq_zero) (simp_all add: eps_def)
  then show ?case by auto
next
  case FString
  show ?case unfolding lang.simps g_string_def seq_assoc
    by (simp add: numeral_eq_Suc, rule exI, rule seq_length_zero) (auto simp: seq_def eps_def bytes_of_def)
next
  case (FArray f)
  have "seq (items (lang f) 0) (\<lambda>xs. eps (PArray xs)) l [] (PArray []) l"
    unfolding items_0_seq by (simp add: eps_def)
  then show ?case unfolding lang.simps g_array_def seq_assoc
    by (intro exI) (simp, rule seq_length_zero, simp)
next
  case (FDict f)
  have "seq (items (g_entry (lang f)) 0) (\<lambda>es. eps (PMap (put_entries [] es))) l [] (PMap []) l"
    unfolding items_0_seq by (simp add: eps_def put_entries_def)
  then show ?case unfolding lang.simps g_dict_def seq_assoc
    by (intro exI) (simp, rule seq_length_zero, simp)
next
  case (FMap rs)
  then obtain m where "lang_rows rs l (replicate (zlen_rows rs) 0) m l" by blast
  then have "lang (FMap rs) l (replicate (zlen_rows rs + 0) 0) (PMap m) l"
    unfolding lang.simps by (rule seq_zero) (simp add: eps_def)
  then show ?case by auto
qed (auto simp: seq_byte eps_def researchQueue_def)

definition zero_payload :: "byte list" where
  "zero_payload = [2, 0, 1, 0, 0, 0, 0, 0] @ replicate (1 + (zlen_rows (fields (gen_fields True) REnd) + (1 + 0) +
     (zlen_rows (fields (set_fields True True) REnd) + 4))) 0"

lemma version_2_1: "versionAtLeast (Version 2 1 0 0) 2 0 0 0" "versionAtLeast (Version 2 1 0 0) 2 1 0 0"
  by (simp_all add: versionAtLeast_def)

lemma le_put_2: "le_put 2 n = [of_nat n, of_nat (n div 256)]"
  by (simp add: numeral_2_eq_2)

lemma zero_payload_in_grammar: "\<exists>gen sett. g_exchange l zero_payload (Version 2 1 0 0, gen, sett, 0) l"
proof -
  have v: "g_version l ([2, 0] @ [1, 0] @ [0, 0] @ [0, 0] @ []) (Version 2 1 0 0) l"
    unfolding g_version_def
    by (rule seqI [where v = 2], simp add: g_word_def le_put_2, rule seqI [where v = 1], simp add: g_word_def le_put_2,
      rule seqI [where v = 0], simp add: g_word_def le_put_2, rule seqI [where v = 0], simp add: g_word_def le_put_2)
      (simp add: eps_def)
  obtain w where w: "lang_rows (fields (gen_fields True) REnd) l (replicate (zlen_rows (fields (gen_fields True) REnd)) 0) w l"
    using lang_rows_zero by blast
  have t: "lang (FOptional fmt_territory) l (replicate 1 0) PNil l"
    by (simp add: seq_byte eps_def)
  have "g_gen True l (replicate (zlen_rows (fields (gen_fields True) REnd) + (1 + 0)) 0) (built True w) l"
    unfolding g_gen_def if_True by (rule seq_zero, rule w, rule seq_zero, rule t) (simp add: eps_def)
  note gen = this
  obtain sett where s: "lang_rows (fields (set_fields True True) REnd) l (replicate (zlen_rows (fields (set_fields True True) REnd)) 0) sett l"
    using lang_rows_zero by blast
  have b: "g_byte l (replicate 1 0) 0 l" by (simp add: g_byte_def)
  let ?fin = "\<lambda>gen sett. seq (g_word 4) (\<lambda>ck. eps (Version 2 1 0 0, gen, sett, ck))"
  let ?set = "\<lambda>gen. seq (lang_rows (fields (set_fields True True) REnd)) (?fin gen)"
  let ?v = "(Version 2 1 0 0, built True w, sett, 0)"
  have "?fin (built True w) sett l (replicate 4 0) ?v l"
    by (rule seq_word_zero) (simp add: eps_def)
  then have "?set (built True w) l (replicate (zlen_rows (fields (set_fields True True) REnd) + 4) 0) ?v l"
    by (intro seq_zero [where S = "lang_rows _", OF s])
  then have "seq (g_gen True) ?set l (replicate (zlen_rows (fields (gen_fields True) REnd) + (1 + 0) +
      (zlen_rows (fields (set_fields True True) REnd) + 4)) 0) ?v l"
    by (intro seq_zero [where S = "g_gen True", OF gen])
  then have tail: "seq g_byte (\<lambda>_. seq (g_gen True) ?set) l (replicate (1 + (zlen_rows (fields (gen_fields True) REnd) + (1 + 0) +
      (zlen_rows (fields (set_fields True True) REnd) + 4))) 0) ?v l"
    by (intro seq_zero [where S = g_byte, OF b])
  have "g_exchange l (([2, 0] @ [1, 0] @ [0, 0] @ [0, 0] @ []) @ replicate (1 + (zlen_rows (fields (gen_fields True) REnd) + (1 + 0) +
     (zlen_rows (fields (set_fields True True) REnd) + 4))) 0) (Version 2 1 0 0, built True w, sett, 0) l"
    unfolding g_exchange_def by (rule seqI, rule v) (use tail in \<open>simp only: version_2_1\<close>)
  then show ?thesis unfolding zero_payload_def by auto
qed

lemma zero_payload_length: "length zero_payload < 2 ^ 32"
  by (simp add: zero_payload_def gen_fields_def set_fields_def fmt_box_def fmt_cliffs_def fmt_pollution_def
      fmt_enemy_evolution_def fmt_enemy_expansion_def fmt_unit_group_def fmt_path_finder_def fmt_difficulty_def
      fmt_asteroids_def)

lemma zero_payload_parses: "\<exists>d. parse_payload zero_payload = Inr d \<and> med_version d = Version 2 1 0 0"
proof -
  obtain gen sett where "g_exchange (0, 0) zero_payload (Version 2 1 0 0, gen, sett, 0) (0, 0)"
    using zero_payload_in_grammar by blast
  then have "payload zero_payload \<lparr>med_version = Version 2 1 0 0, med_gen = gen, med_set = sett, med_checksum = 0,
      med_checksum_ok = (0 = crc_checksum ieee (take (length zero_payload - 4) zero_payload))\<rparr>"
    unfolding payload_def exchange.whole_def by auto
  then show ?thesis unfolding parse_payload_iff [OF zero_payload_length, symmetric] by auto
qed

text \<open>
  C7.  The parser accepts exactly the format: for data below 4 GiB, parsing a decompressed payload
  succeeds with a result if and only if the bytes are a word of the grammar with that version, those
  tables and that checksum; the result then says whether the checksum is the CRC-32 of the bytes before it.
\<close>

theorem exchange_parser_exact:
  assumes "length raw < 2 ^ 32"
  shows "parse_payload raw = Inr d \<longleftrightarrow>
    (\<exists>l'. g_exchange (0, 0) raw (med_version d, med_gen d, med_set d, med_checksum d) l') \<and>
    med_checksum_ok d = (med_checksum d = crc_checksum ieee (take (length raw - 4) raw))"
  using parse_payload_iff [OF assms] by (simp add: payload_def exchange.whole_def)

theorem exchange_parser_exact_witness:
  "\<exists>gen sett ck l'. g_exchange (0, 0) zero_payload (Version 2 1 0 0, gen, sett, ck) l'"
proof -
  obtain d where d: "parse_payload zero_payload = Inr d" "med_version d = Version 2 1 0 0"
    using zero_payload_parses by blast
  with exchange_parser_exact [OF zero_payload_length, of d] show ?thesis by (metis (no_types))
qed

text \<open>
  A damaged length is always noticed: if a payload parses, every payload cut short and every
  payload with bytes appended is rejected.
\<close>

theorem exchange_truncation_rejected:
  assumes "parse_payload raw = Inr d" "length (raw @ ext) < 2 ^ 32"
  shows "(\<forall>k < length raw. \<exists>e. parse_payload (take k raw) = Inl e) \<and>
    (ext \<noteq> [] \<longrightarrow> (\<exists>e. parse_payload (raw @ ext) = Inl e))"
proof -
  have whole: "exchange.whole raw (med_version d, med_gen d, med_set d, med_checksum d)"
    using assms parse_payload_iff [of raw d] by (simp add: payload_def)
  have no: "\<exists>e. parse_payload b = Inl e" if "\<And>c. \<not> payload b c" "length b < 2 ^ 32" for b
    using that parse_payload_iff [of b] by (cases "parse_payload b") auto
  have "\<exists>e. parse_payload (take k raw) = Inl e" if "k < length raw" for k
  proof (rule no)
    fix c
    show "\<not> payload (take k raw) c"
    proof
      assume "payload (take k raw) c"
      then have "exchange.whole (take k raw) (med_version c, med_gen c, med_set c, med_checksum c)"
        by (simp add: payload_def)
      from exchange.prefix_free [OF this, of "drop k raw"] whole assms(2) have "drop k raw = []" by simp
      with that show False by simp
    qed
  qed (use assms(2) in simp)
  moreover have "\<exists>e. parse_payload (raw @ ext) = Inl e" if "ext \<noteq> []"
  proof (rule no)
    fix c
    show "\<not> payload (raw @ ext) c"
      using exchange.prefix_free [OF whole _ assms(2)] that by (auto simp: payload_def)
  qed (use assms(2) in simp)
  ultimately show ?thesis by blast
qed

theorem exchange_truncation_rejected_witness: "\<exists>e. parse_payload (take 100 zero_payload) = Inl e"
proof -
  obtain d where d: "parse_payload zero_payload = Inr d" using zero_payload_parses by blast
  have "100 < length zero_payload" by (simp add: zero_payload_def gen_fields_def set_fields_def fmt_box_def
    fmt_cliffs_def fmt_pollution_def fmt_enemy_evolution_def fmt_enemy_expansion_def fmt_unit_group_def
    fmt_path_finder_def fmt_difficulty_def fmt_asteroids_def)
  with exchange_truncation_rejected [OF d, of "[]"] zero_payload_length show ?thesis by simp
qed

text \<open>
  The parser stays inside its data, whatever the bytes are: no read moves the position past the
  end or backwards, the data are never changed, and once an error is recorded nothing more is read
  and the error stays the first one.
\<close>

theorem exchange_reads_in_bounds:
  assumes "px_pos p \<le> length (px_data p)" "length (px_data p) < 2 ^ 32"
  shows "(let q = snd (run_state read_exchange p) in
    px_data q = px_data p \<and> px_pos p \<le> px_pos q \<and> px_pos q \<le> length (px_data p) \<and>
    (px_err p \<noteq> None \<longrightarrow> px_err q = px_err p \<and> px_pos q = px_pos p))"
  using exchange.exact assms unfolding parses_def stable_def px_ok_def Let_def by metis

theorem exchange_reads_in_bounds_witness:
  "px_pos (snd (run_state read_exchange (newMapExchangeParser [2, 0]))) \<le> 2"
  using exchange_reads_in_bounds [of "newMapExchangeParser [2, 0]"]
  by (simp add: newMapExchangeParser_def Let_def)

section \<open>The tables\<close>

primrec row_keys :: "rows \<Rightarrow> string list" where
  "row_keys REnd = []" | "row_keys (RField k f rs) = k # row_keys rs" | "row_keys (RUnused rs) = row_keys rs"

lemma row_keys_fields: "row_keys (fields fs REnd) = map fst fs"
  by (induction fs) auto

lemma lang_rows_keys: "lang_rows rs l bs m l' \<Longrightarrow> gm_keys m = row_keys rs"
  by (induction rs arbitrary: l bs m rule: rows.induct [where ?P1.0 = "\<lambda>_. True"])
    (auto simp: seq_def eps_def gm_keys_def)

lemma put_entries_facts:
  "gm_ok m \<Longrightarrow> gm_ok (put_entries m es)"
  "set (gm_keys (put_entries m es)) = set (gm_keys m) \<union> fst ` set es"
proof -
  have "set (gm_keys (gm_put m k v)) = insert k (set (gm_keys m))" for m :: "(string, 'a) gomap" and k v
    by (induction m) (auto simp: gm_keys_def gm_put_def)
  then show "set (gm_keys (put_entries m es)) = set (gm_keys m) \<union> fst ` set es"
    by (induction es arbitrary: m) (auto simp: put_entries_def)
  show "gm_ok m \<Longrightarrow> gm_ok (put_entries m es)"
    by (induction es arbitrary: m) (auto simp: put_entries_def)
qed

lemma built_keys:
  assumes "gm_keys w = map fst (gen_fields v2) @ ks"
  shows "gm_ok (built v2 w)" "set (gm_keys (built v2 w)) = set (map fst (gen_fields v2)) \<union> set ks"
proof -
  let ?late = "if v2 then w else drop 2 w" and ?early = "if v2 then [] else take 2 w"
  let ?holes = "[(''starting_points'', PNil), (''property_expression_names'', PNil), (''cliff_settings'', PNil)]"
  have first: "gm_keys (take 9 ?late @ ?holes) = [''autoplace_controls'', ''autoplace_settings'',
      ''default_enable_all_autoplace_controls'', ''seed'', ''width'', ''height'', ''area_to_generate_at_start'',
      ''starting_area'', ''peaceful_mode'', ''starting_points'', ''property_expression_names'', ''cliff_settings'']"
    using assms by (cases v2) (simp_all add: gm_keys_def gen_fields_def take_map [symmetric] drop_map [symmetric])
  have rest: "map fst (drop 9 ?late @ ?early) = (if v2 then [''no_enemies_mode''] else []) @
      [''starting_points'', ''property_expression_names'', ''cliff_settings''] @ ks @
      (if v2 then [] else [''terrain_segmentation'', ''water''])"
    using assms by (cases v2) (simp_all add: gm_keys_def gen_fields_def take_map [symmetric] drop_map [symmetric])
  have built: "built v2 w = put_entries (take 9 ?late @ ?holes) (drop 9 ?late @ ?early)"
    by (simp add: built_def Let_def)
  show "gm_ok (built v2 w)"
    unfolding built by (rule put_entries_facts(1)) (simp only: gm_ok_def first, simp)
  have "set (gm_keys (built v2 w)) = set (gm_keys (take 9 ?late @ ?holes)) \<union> set (map fst (drop 9 ?late @ ?early))"
    unfolding built put_entries_facts(2) by auto
  also have "\<dots> = set (map fst (gen_fields v2)) \<union> set ks"
    unfolding first rest by (cases v2) (auto simp: gen_fields_def)
  finally show "set (gm_keys (built v2 w)) = set (map fst (gen_fields v2)) \<union> set ks" .
qed

lemma g_gen_keys:
  assumes "g_gen v2 l bs gen l'"
  shows "gm_ok gen \<and> (set (gm_keys gen) = set (map fst (gen_fields v2)) \<or>
    v2 \<and> set (gm_keys gen) = insert ''territory_settings'' (set (map fst (gen_fields v2))))"
proof -
  from assms obtain w b b2 l1 where w: "lang_rows (fields (gen_fields v2) REnd) l b w l1"
    and last: "(if v2 then seq (lang (FOptional fmt_territory)) (\<lambda>t.
       eps (if t \<noteq> PNil then built True (w @ [(''territory_settings'', t)]) else built True w))
     else eps (built False w)) l1 b2 gen l'"
    unfolding g_gen_def by (rule seqE)
  have gen: "gen = built v2 w \<or> v2 \<and> (\<exists>t. gen = built v2 (w @ [(''territory_settings'', t)]))"
  proof (cases v2)
    case True
    with last obtain t where "gen = (if t \<noteq> PNil then built True (w @ [(''territory_settings'', t)]) else built True w)"
      by (auto simp: eps_def elim!: seqE)
    with True show ?thesis by (auto split: if_splits)
  next
    case False
    with last show ?thesis by (simp add: eps_def)
  qed
  have k: "gm_keys w = map fst (gen_fields v2)" using lang_rows_keys [OF w] by (simp add: row_keys_fields)
  from gen show ?thesis
  proof
    assume "gen = built v2 w"
    with built_keys [of w v2 "[]"] k show ?thesis by simp
  next
    assume "v2 \<and> (\<exists>t. gen = built v2 (w @ [(''territory_settings'', t)]))"
    then obtain t where "v2" "gen = built v2 (w @ [(''territory_settings'', t)])" by blast
    with built_keys [of "w @ [(''territory_settings'', t)]" v2 "[''territory_settings'']"] k show ?thesis
      by (simp add: gm_keys_def)
  qed
qed

text \<open>
  C40.  The tables are complete: whenever a payload parses, the map generation settings and the map
  settings are maps with exactly the entries that the version of the payload has (a territory entry
  may be added from Factorio 2.0 on), none missing and none twice.
\<close>

theorem exchange_tables_complete:
  assumes "parse_payload raw = Inr d" "length raw < 2 ^ 32"
  shows "gm_ok (med_gen d) \<and> gm_ok (med_set d) \<and>
    (set (gm_keys (med_gen d)) = set (map fst (gen_fields (Version 2 0 0 0 \<le> med_version d))) \<or>
     Version 2 0 0 0 \<le> med_version d \<and>
       set (gm_keys (med_gen d)) = insert ''territory_settings'' (set (map fst (gen_fields True)))) \<and>
    gm_keys (med_set d) = map fst (set_fields (Version 2 0 0 0 \<le> med_version d) (Version 2 1 0 0 \<le> med_version d))"
proof -
  from assms obtain l' where "g_exchange (0, 0) raw (med_version d, med_gen d, med_set d, med_checksum d) l'"
    using parse_payload_iff by (auto simp: payload_def exchange.whole_def)
  then obtain l1 b1 l2 b2 l3 where gen: "g_gen (Version 2 0 0 0 \<le> med_version d) l1 b1 (med_gen d) l2"
    and sett: "lang_rows (fields (set_fields (Version 2 0 0 0 \<le> med_version d) (Version 2 1 0 0 \<le> med_version d)) REnd)
      l2 b2 (med_set d) l3"
    unfolding g_exchange_def by (elim seqE) (auto simp: versionAtLeast_iff eps_def)
  have keys: "gm_keys (med_set d) = map fst (set_fields (Version 2 0 0 0 \<le> med_version d) (Version 2 1 0 0 \<le> med_version d))"
    using lang_rows_keys [OF sett] by (simp add: row_keys_fields)
  then have "gm_ok (med_set d)" by (auto simp: gm_ok_def set_fields_def)
  with g_gen_keys [OF gen] keys show ?thesis by (cases "Version 2 0 0 0 \<le> med_version d") simp_all
qed

theorem exchange_tables_complete_witness:
  "\<exists>d. parse_payload zero_payload = Inr d \<and> ''asteroids'' \<in> set (gm_keys (med_set d))"
proof -
  obtain d where d: "parse_payload zero_payload = Inr d" "med_version d = Version 2 1 0 0"
    using zero_payload_parses by blast
  have "Version 2 0 0 0 \<le> med_version d" using d(2) version_2_1 by (simp add: versionAtLeast_iff)
  with d exchange_tables_complete [OF d(1) zero_payload_length] show ?thesis
    by (auto simp: set_fields_def)
qed

section \<open>The envelope\<close>

lemma decodes_padded_and_unpadded: "decodeMapExchangeBase64 (b64_encode pad bs) = Some bs"
proof (cases "pad \<or> length bs mod 3 = 0")
  case True
  then have "base64_DecodeString True (b64_encode pad bs) = Some bs"
    using b64_roundtrip [of True bs] b64_unpadded_rejected [of bs] b64_encode_chars
    by (cases pad) (simp_all add: DecodeString_clean)
  then show ?thesis by (simp add: decodeMapExchangeBase64_def)
next
  case False
  then have pad: "pad = False" and m: "length bs mod 3 = 1 \<or> length bs mod 3 = 2" by auto
  have 1: "base64_DecodeString True (b64_encode False bs) = None"
    using m b64_unpadded_rejected [of bs] b64_encode_chars by (auto simp: DecodeString_clean)
  have 2: "base64_DecodeString True (b64_encode True bs) = Some bs"
    using b64_roundtrip b64_encode_chars by (simp add: DecodeString_clean)
  from m show ?thesis unfolding pad decodeMapExchangeBase64_def 1
    using 2 b64_unpadded_length [of bs] by auto
qed

lemma filter_dropWhile: "filter (\<lambda>x. \<not> P x) (dropWhile P xs) = filter (\<lambda>x. \<not> P x) xs"
  by (induction xs) auto

lemma filter_trim: "filter (\<lambda>c. \<not> is_space c) (trim_space s) = filter (\<lambda>c. \<not> is_space c) s"
  by (simp add: trim_space_def rev_filter [symmetric] filter_dropWhile)

text \<open>
  The envelope is transparent: if the text without its white space is \<open>>>>\<close>, the base64
  encoding of some bytes, padded or not, and \<open><<<\<close>, and these bytes decompress to a payload, then
  parsing the text is parsing the payload.
\<close>

theorem exchange_envelope:
  assumes "filter (\<lambda>c. \<not> is_space c) input = ''>>>'' @ b64_encode pad bs @ ''<<<''" and "inflate bs = Inr raw"
  shows "ParseMapExchangeString inflate json input = parse_payload raw"
proof -
  note compact = filter_trim [of input, unfolded assms(1)]
  have "\<not> has_prefix (trim_space input) ''{''"
  proof
    assume "has_prefix (trim_space input) ''{''"
    then obtain t where "trim_space input = CHR ''{'' # t"
      by (cases "trim_space input") (auto simp: has_prefix_def)
    with compact show False by (simp add: is_space_def)
  qed
  moreover have "trim_suffix (trim_prefix (''>>>'' @ b64_encode pad bs @ ''<<<'') ''>>>'') ''<<<'' = b64_encode pad bs"
    by (simp add: trim_prefix_def trim_suffix_def has_prefix_def has_suffix_def)
  moreover have "has_prefix (''>>>'' @ b64_encode pad bs @ ''<<<'') ''>>>''" "has_suffix (''>>>'' @ b64_encode pad bs @ ''<<<'') ''<<<''"
    by (simp_all add: has_prefix_def has_suffix_def)
  ultimately show ?thesis
    unfolding ParseMapExchangeString_def Let_def compact by (simp only: decodes_padded_and_unpadded assms(2) if_False
      not_True_eq_False simp_thms option.case sum.case)
qed

theorem exchange_envelope_witness:
  "\<exists>d. ParseMapExchangeString (\<lambda>bs. Inr zero_payload) (\<lambda>_. None) '' >>> AQ <<<'' = Inr d"
proof -
  have "filter (\<lambda>c. \<not> is_space c) '' >>> AQ <<<'' = ''>>>'' @ b64_encode False [1] @ ''<<<''"
    by (simp add: is_space_def b64_char_def b64_alphabet_def)
  from exchange_envelope [OF this, of "\<lambda>bs. Inr zero_payload" zero_payload "\<lambda>_. None"] zero_payload_parses
  show ?thesis by auto
qed

section \<open>Choosing the custom generator\<close>

text \<open>
  A string that cannot be used leaves the configuration alone: unless the string parses, nothing
  changes at all; the generator is switched to \<open>custom\<close> only after both files hold the settings of
  the string; and if the map is generated, files, configuration and saved configuration agree.  If
  only the second file cannot be written the pair of files mixes two strings, and the generator keeps.
\<close>

theorem custom_generator_switch:
  assumes "GenCustomMapFromExchange inflate json we genNewMap input st = (r, st')"
  shows "(\<forall>e. ParseMapExchangeString inflate json input = Inl e \<longrightarrow> r = Inl (NotParsed e) \<and> st' = st)
    \<and> (\<forall>d. ParseMapExchangeString inflate json input = Inr d \<longrightarrow>
         (cm_generator st' \<noteq> cm_generator st \<or> r = Inl ConfigNotSaved \<or> r = Inl NotGenerated \<or> (\<exists>f. r = Inr f) \<longrightarrow>
            cm_gen st' = Some (med_gen d) \<and> cm_set st' = Some (med_set d) \<and> cm_generator st' = CustomMapGeneratorName)
         \<and> ((\<exists>f. r = Inr f) \<longrightarrow> cm_saved_generator st' = CustomMapGeneratorName)
         \<and> (r = Inl SetNotWritten \<longrightarrow> st' = st\<lparr>cm_gen := Some (med_gen d)\<rparr>))"
  using assms
  by (cases "ParseMapExchangeString inflate json input")
    (auto simp: GenCustomMapFromExchange_def WriteCustomMapExchangeFiles_def Let_def split: if_splits option.splits)

theorem custom_generator_switch_witness:
  "snd (GenCustomMapFromExchange (\<lambda>bs. Inr []) (\<lambda>_. None) \<lparr>we_mkdir = True, we_gen = True, we_set = True, we_cfg = True\<rparr>
     (\<lambda>_. Some ''map'') ''nonsense'' \<lparr>cm_gen = None, cm_set = None, cm_generator = ''none'', cm_saved_generator = ''none''\<rparr>)
   = \<lparr>cm_gen = None, cm_set = None, cm_generator = ''none'', cm_saved_generator = ''none''\<rparr>"
proof -
  have "ParseMapExchangeString (\<lambda>bs. Inr []) (\<lambda>_. None) ''nonsense'' = Inl InvalidExchangeString"
    by (simp add: ParseMapExchangeString_def trim_space_def is_space_def has_prefix_def)
  with custom_generator_switch [OF prod.collapse [symmetric], of "\<lambda>bs. Inr []" "\<lambda>_. None"] show ?thesis by metis
qed

end
