(* ===== verification/Operation_Status.thy ===== *)
theory Operation_Status
  imports CW_Prelude
begin

text \<open>
  The announcement of one long-running operation in the chat channel (fact/operation_status.go).

  An operation has a token.  Quick operations stay silent: nothing is posted in the first three
  seconds unless the caller forces it.  Goroutines that sleep before they post are entries of
  \<open>timers\<close>; firing one is a step of its own, so that it may find the operation replaced,
  finished or changed.  \<open>posts\<close> is what reached the channel, \<open>deleted\<close> what was removed from it.
  The token is passed in: the code derives it from the clock (\<open>op-<UnixNano>\<close>).
\<close>

section \<open>State\<close>

type_synonym message_ref = "string \<times> string"

record operation_status =
  op_token :: string
  op_title :: string
  op_description :: string
  op_started_at :: gotime
  op_last_key :: string
  op_last_update_at :: gotime
  op_announced :: bool
  op_suppress :: bool
  op_delay_id :: uint64
  op_optional :: "message_ref list"

definition no_operation :: operation_status where
  "no_operation = \<lparr>op_token = '''', op_title = '''', op_description = '''', op_started_at = 0,
     op_last_key = '''', op_last_update_at = 0, op_announced = False, op_suppress = False,
     op_delay_id = 0, op_optional = []\<rparr>"

datatype op_timer =
    AnnounceTimer string gotime
  | ProgressTimer string string string uint64 gotime
  | CleanupTimer message_ref gotime

record op_world =
  op :: operation_status
  posts :: "string list"
  deleted :: "message_ref list"
  update_message :: "message_ref option"
  timers :: "op_timer list"

definition operationAnnounceDelay :: gotime where "operationAnnounceDelay = 3 * second_ns"
definition operationProgressThrottle :: gotime where "operationProgressThrottle = 10 * second_ns"
definition operationOptionalTTL :: gotime where "operationOptionalTTL = 60 * second_ns"

section \<open>Messages\<close>

text \<open>\<open>CMS\<close> and \<open>glob.ResetUpdateMessage\<close>; the flag says whether a chat channel is configured.\<close>

definition post_description :: "bool \<Rightarrow> string \<Rightarrow> op_world \<Rightarrow> op_world" where
  "post_description chan description w =
     (if chan then w\<lparr>posts := posts w @ [description], update_message := None\<rparr> else w)"

definition resetUpdateMessageIfMatches :: "message_ref \<Rightarrow> op_world \<Rightarrow> op_world" where
  "resetUpdateMessageIfMatches ref w =
     (if update_message w = Some ref then w\<lparr>update_message := None\<rparr> else w)"

text \<open>\<open>del\<close> is \<open>operationDeleteMessage\<close>: whether Discord deleted the message.\<close>

fun deleteOperationMessages ::
  "(message_ref \<Rightarrow> bool) \<Rightarrow> message_ref list \<Rightarrow> op_world \<Rightarrow> op_world" where
  "deleteOperationMessages del [] w = w"
| "deleteOperationMessages del (msg # msgs) w =
     (if fst msg = '''' \<or> snd msg = '''' then deleteOperationMessages del msgs w
      else if \<not> del msg then deleteOperationMessages del msgs w
      else deleteOperationMessages del msgs
        (resetUpdateMessageIfMatches msg (w\<lparr>deleted := deleted w @ [msg]\<rparr>)))"

definition clearTrackedOptionalMessagesLocked :: "op_world \<Rightarrow> message_ref list \<times> op_world" where
  "clearTrackedOptionalMessagesLocked w =
     (op_optional (op w), w\<lparr>op := (op w)\<lparr>op_optional := []\<rparr>\<rparr>)"

definition trackOptionalOperationMessage ::
  "message_ref option \<Rightarrow> op_world \<Rightarrow> message_ref option \<times> op_world" where
  "trackOptionalOperationMessage msg w =
     (case msg of
        None \<Rightarrow> (None, w)
      | Some ref \<Rightarrow>
          if fst ref = '''' \<or> snd ref = '''' then (None, w)
          else (Some ref, w\<lparr>op := (op w)\<lparr>op_optional := op_optional (op w) @ [ref]\<rparr>\<rparr>))"

definition scheduleOptionalOperationCleanup :: "gotime \<Rightarrow> message_ref \<Rightarrow> op_world \<Rightarrow> op_world" where
  "scheduleOptionalOperationCleanup now ref w =
     (if fst ref = '''' \<or> snd ref = '''' then w
      else w\<lparr>timers := timers w @ [CleanupTimer ref (now + operationOptionalTTL)]\<rparr>)"

text \<open>What the clean-up goroutine does when it wakes.\<close>

definition cleanup_optional :: "(message_ref \<Rightarrow> bool) \<Rightarrow> message_ref \<Rightarrow> op_world \<Rightarrow> op_world" where
  "cleanup_optional del ref w =
     (if ref \<notin> set (op_optional (op w)) then w
      else
        (let w = w\<lparr>op := (op w)\<lparr>op_optional := remove1 ref (op_optional (op w))\<rparr>\<rparr> in
         if \<not> del ref then w
         else resetUpdateMessageIfMatches ref (w\<lparr>deleted := deleted w @ [ref]\<rparr>)))"

section \<open>Operations\<close>

definition BeginOperation ::
  "gotime \<Rightarrow> string \<Rightarrow> string \<Rightarrow> string \<Rightarrow> op_world \<Rightarrow> string \<times> op_world" where
  "BeginOperation now token title description w =
     (let title = trim_space title; description = trim_space description in
      if title = '''' \<or> description = '''' then ('''', w)
      else (token, w\<lparr>op := no_operation\<lparr>op_token := token, op_title := title,
                           op_description := description, op_started_at := now\<rparr>,
                     timers := timers w @ [AnnounceTimer token (now + operationAnnounceDelay)]\<rparr>))"

definition SuppressPendingOperationAnnouncement :: "string \<Rightarrow> op_world \<Rightarrow> op_world" where
  "SuppressPendingOperationAnnouncement token w =
     (if token = '''' \<or> token \<noteq> op_token (op w) then w
      else w\<lparr>op := (op w)\<lparr>op_suppress := True\<rparr>\<rparr>)"

definition AnnouncePendingOperation :: "gotime \<Rightarrow> bool \<Rightarrow> string \<Rightarrow> op_world \<Rightarrow> op_world" where
  "AnnouncePendingOperation now chan token w =
     (if token = '''' then w
      else if token \<noteq> op_token (op w) \<or> op_announced (op w) \<or> op_suppress (op w) then w
      else if now - op_started_at (op w) < operationAnnounceDelay then w
      else post_description chan (op_description (op w)) (w\<lparr>op := (op w)\<lparr>op_announced := True\<rparr>\<rparr>))"

definition updateOperation ::
  "gotime \<Rightarrow> bool \<Rightarrow> (message_ref \<Rightarrow> bool) \<Rightarrow> string \<Rightarrow> string \<Rightarrow> string \<Rightarrow> bool \<Rightarrow> bool \<Rightarrow> op_world \<Rightarrow> op_world"
where
  "updateOperation now chan del token title description throttled force w =
     (let title = trim_space title; description = trim_space description in
      if token = '''' \<or> title = '''' \<or> description = '''' then w
      else if token \<noteq> op_token (op w) then w
      else
        (let w = w\<lparr>op := (op w)\<lparr>op_delay_id := op_delay_id (op w) + 1\<rparr>\<rparr> in
         if \<not> force \<and> \<not> op_announced (op w) \<and> now - op_started_at (op w) < operationAnnounceDelay
         then w\<lparr>op := (op w)\<lparr>op_title := title, op_description := description\<rparr>\<rparr>
         else
           (let key = title @ ''
'' @ description in
            if throttled \<and> key = op_last_key (op w)
               \<and> now - op_last_update_at (op w) < operationProgressThrottle then w
            else
              (let w = (if throttled then w\<lparr>op := (op w)\<lparr>op_last_key := key, op_last_update_at := now\<rparr>\<rparr> else w);
                   (old, w) = clearTrackedOptionalMessagesLocked w;
                   w = w\<lparr>op := (op w)\<lparr>op_title := title, op_description := description,
                           op_announced := True\<rparr>\<rparr>
               in post_description chan description (deleteOperationMessages del old w)))))"

definition UpdateOperation where
  "UpdateOperation now chan del token title description w =
     updateOperation now chan del token title description False False w"

definition AnnounceOperationNow where
  "AnnounceOperationNow now chan del token title description w =
     updateOperation now chan del token title description False True w"

definition UpdateOperationProgress where
  "UpdateOperationProgress now chan del token title description w =
     updateOperation now chan del token title description True False w"

definition nextOptionalProgressDelay :: "gotime \<Rightarrow> gotime \<Rightarrow> bool \<Rightarrow> gotime \<Rightarrow> gotime" where
  "nextOptionalProgressDelay now startedAt announced delay =
     (if delay \<le> 0 then 0
      else if announced then delay
      else
        (let elapsed = max 0 (now - startedAt) in
         if elapsed < operationAnnounceDelay then delay + (operationAnnounceDelay - elapsed)
         else delay))"

definition UpdateOperationProgressDelayedWithReminder ::
  "gotime \<Rightarrow> bool \<Rightarrow> (message_ref \<Rightarrow> bool) \<Rightarrow> string \<Rightarrow> string \<Rightarrow> string \<Rightarrow> string \<Rightarrow> gotime \<Rightarrow> op_world \<Rightarrow> op_world"
where
  "UpdateOperationProgressDelayedWithReminder now chan del token title description reminder delay w =
     (let title = trim_space title; description = trim_space description in
      if token = '''' \<or> title = '''' \<or> description = '''' then w
      else if delay \<le> 0 then UpdateOperationProgress now chan del token title description w
      else if token \<noteq> op_token (op w) then w
      else
        (let firstWait = nextOptionalProgressDelay now (op_started_at (op w)) (op_announced (op w)) delay;
             delayID = op_delay_id (op w) + 1
         in w\<lparr>op := (op w)\<lparr>op_delay_id := delayID\<rparr>,
              timers := timers w @ [ProgressTimer token title description delayID (now + firstWait)]\<rparr>))"

definition UpdateOperationProgressDelayed where
  "UpdateOperationProgressDelayed now chan del token title description delay w =
     UpdateOperationProgressDelayedWithReminder now chan del token title description description delay w"

definition emitScheduledOperationProgress ::
  "gotime \<Rightarrow> bool \<Rightarrow> string \<Rightarrow> string \<Rightarrow> string \<Rightarrow> uint64 \<Rightarrow> op_world \<Rightarrow> bool \<times> op_world" where
  "emitScheduledOperationProgress now chan token title description delayID w =
     (if token \<noteq> op_token (op w) \<or> delayID \<noteq> op_delay_id (op w) then (False, w)
      else
        (let key = title @ ''
'' @ description in
         if key = op_last_key (op w) \<and> now - op_last_update_at (op w) < operationProgressThrottle
         then (True, w)
         else (True, post_description chan description
                 (w\<lparr>op := (op w)\<lparr>op_title := title, op_description := description,
                        op_last_key := key, op_last_update_at := now, op_announced := True\<rparr>\<rparr>))))"

definition CancelOperationDelayedProgress :: "string \<Rightarrow> op_world \<Rightarrow> op_world" where
  "CancelOperationDelayedProgress token w =
     (if token = '''' \<or> token \<noteq> op_token (op w) then w
      else w\<lparr>op := (op w)\<lparr>op_delay_id := op_delay_id (op w) + 1\<rparr>\<rparr>)"

definition finalizeOperation ::
  "gotime \<Rightarrow> bool \<Rightarrow> (message_ref \<Rightarrow> bool) \<Rightarrow> string \<Rightarrow> string \<Rightarrow> string \<Rightarrow> op_world \<Rightarrow> op_world" where
  "finalizeOperation now chan del token title description w =
     (let title = trim_space title; description = trim_space description in
      if token = '''' \<or> token \<noteq> op_token (op w) then w
      else
        (let announced = (op_announced (op w) \<or> operationAnnounceDelay \<le> now - op_started_at (op w));
             old = op_optional (op w);
             w = deleteOperationMessages del old (w\<lparr>op := no_operation\<rparr>)
         in if \<not> announced \<or> title = '''' \<or> description = '''' then w
            else post_description chan description w))"

definition CompleteOperation where
  "CompleteOperation now chan del token title description w =
     finalizeOperation now chan del token title description w"

definition FailOperation where
  "FailOperation now chan del token title description w =
     finalizeOperation now chan del token title description w"

definition CancelOperation where
  "CancelOperation now chan del token w = finalizeOperation now chan del token '''' '''' w"

section \<open>Calls and timers\<close>

text \<open>The calls that carry a token, as one type, and the firing of a timer.\<close>

datatype op_call =
    CallSuppress | CallAnnouncePending | CallUpdate string string | CallAnnounceNow string string
  | CallProgress string string | CallDelayed string string string gotime | CallCancelDelayed
  | CallFinish string string | CallEmit string string uint64

fun do_call :: "gotime \<Rightarrow> bool \<Rightarrow> (message_ref \<Rightarrow> bool) \<Rightarrow> string \<Rightarrow> op_call \<Rightarrow> op_world \<Rightarrow> op_world" where
  "do_call now chan del token CallSuppress w = SuppressPendingOperationAnnouncement token w"
| "do_call now chan del token CallAnnouncePending w = AnnouncePendingOperation now chan token w"
| "do_call now chan del token (CallUpdate t d) w = UpdateOperation now chan del token t d w"
| "do_call now chan del token (CallAnnounceNow t d) w = AnnounceOperationNow now chan del token t d w"
| "do_call now chan del token (CallProgress t d) w = UpdateOperationProgress now chan del token t d w"
| "do_call now chan del token (CallDelayed t d r delay) w =
     UpdateOperationProgressDelayedWithReminder now chan del token t d r delay w"
| "do_call now chan del token CallCancelDelayed w = CancelOperationDelayedProgress token w"
| "do_call now chan del token (CallFinish t d) w = finalizeOperation now chan del token t d w"
| "do_call now chan del token (CallEmit t d delayID) w =
     snd (emitScheduledOperationProgress now chan token t d delayID w)"

fun fire_timer :: "gotime \<Rightarrow> bool \<Rightarrow> (message_ref \<Rightarrow> bool) \<Rightarrow> op_timer \<Rightarrow> op_world \<Rightarrow> op_world" where
  "fire_timer now chan del (AnnounceTimer token at) w = do_call now chan del token CallAnnouncePending w"
| "fire_timer now chan del (ProgressTimer token t d delayID at) w =
     do_call now chan del token (CallEmit t d delayID) w"
| "fire_timer now chan del (CleanupTimer ref at) w = cleanup_optional del ref w"

fun timer_at :: "op_timer \<Rightarrow> gotime" where
  "timer_at (AnnounceTimer token at) = at"
| "timer_at (ProgressTimer token t d delayID at) = at"
| "timer_at (CleanupTimer ref at) = at"

section \<open>Runs\<close>

datatype op_event =
    EvBegin gotime string string string
  | EvCall gotime string op_call
  | EvTimer gotime op_timer

fun op_step :: "bool \<Rightarrow> (message_ref \<Rightarrow> bool) \<Rightarrow> op_event \<Rightarrow> op_world \<Rightarrow> op_world" where
  "op_step chan del (EvBegin now token t d) w = snd (BeginOperation now token t d w)"
| "op_step chan del (EvCall now token c) w = do_call now chan del token c w"
| "op_step chan del (EvTimer now t) w = fire_timer now chan del t w"

definition op_run :: "bool \<Rightarrow> (message_ref \<Rightarrow> bool) \<Rightarrow> op_event list \<Rightarrow> op_world \<Rightarrow> op_world" where
  "op_run chan del es w = fold (op_step chan del) es w"

fun begins :: "op_event \<Rightarrow> string option" where
  "begins (EvBegin now token t d) = Some token"
| "begins _ = None"

section \<open>Facts about single calls\<close>

lemma post_description_op [simp]: "op (post_description chan d w) = op w"
  by (simp add: post_description_def)

lemma reset_update_keep [simp]:
  "op (resetUpdateMessageIfMatches ref w) = op w" "posts (resetUpdateMessageIfMatches ref w) = posts w"
  by (simp_all add: resetUpdateMessageIfMatches_def)

lemma delete_messages_keep [simp]:
  "op (deleteOperationMessages del msgs w) = op w"
  "posts (deleteOperationMessages del msgs w) = posts w"
  by (induction del msgs w rule: deleteOperationMessages.induct) simp_all

lemma cleanup_keep [simp]:
  "op_token (op (cleanup_optional del ref w)) = op_token (op w)"
  "op_announced (op (cleanup_optional del ref w)) = op_announced (op w)"
  "op_started_at (op (cleanup_optional del ref w)) = op_started_at (op w)"
  "op_delay_id (op (cleanup_optional del ref w)) = op_delay_id (op w)"
  "posts (cleanup_optional del ref w) = posts w"
  by (simp_all add: cleanup_optional_def Let_def)

lemmas call_defs = SuppressPendingOperationAnnouncement_def AnnouncePendingOperation_def
  UpdateOperation_def AnnounceOperationNow_def UpdateOperationProgress_def updateOperation_def
  UpdateOperationProgressDelayedWithReminder_def CancelOperationDelayedProgress_def
  finalizeOperation_def emitScheduledOperationProgress_def clearTrackedOptionalMessagesLocked_def

lemma stale_call: "token \<noteq> op_token (op w) \<Longrightarrow> do_call now chan del token c w = w"
  by (cases c) (simp_all add: call_defs Let_def)

text \<open>A call on the current operation keeps its token, or ends the operation.\<close>

lemma call_token:
  "op_token (op (do_call now chan del token c w)) = op_token (op w) \<or>
   op_token (op (do_call now chan del token c w)) = ''''"
  by (cases c) (auto simp: call_defs Let_def no_operation_def)

lemma step_token:
  assumes "T \<noteq> ''''" "op_token (op w) \<noteq> T" "begins e \<noteq> Some T"
  shows "op_token (op (op_step chan del e w)) \<noteq> T"
proof (cases e)
  case (EvBegin now token t d)
  then show ?thesis using assms by (simp add: BeginOperation_def Let_def)
next
  case (EvCall now token c)
  then show ?thesis using assms call_token [of now chan del token c w] by auto
next
  case (EvTimer now t)
  have call: "op_token (op (do_call now chan del token c w)) \<noteq> T" for token c
    using assms(1,2) call_token [of now chan del token c w] by auto
  from EvTimer show ?thesis
    using assms(2) call by (cases t) (simp_all del: do_call.simps)
qed

lemma run_token:
  assumes "T \<noteq> ''''" "op_token (op w) \<noteq> T" "Some T \<notin> begins ` set es"
  shows "op_token (op (op_run chan del es w)) \<noteq> T"
  using assms unfolding op_run_def
proof (induction es arbitrary: w)
  case (Cons e es)
  then have "op_token (op (op_step chan del e w)) \<noteq> T" by (intro step_token) auto
  with Cons show ?case by simp
qed simp

lemma finalize_token: "token \<noteq> '''' \<Longrightarrow> op_token (op (finalizeOperation now chan del token t d w)) \<noteq> token"
  by (auto simp: finalizeOperation_def Let_def no_operation_def)

text \<open>
  Once an operation has finished, nothing done later in its name has an effect: whatever
  happens in the meantime -- other operations included, as long as the token is not given out
  again -- its sleeping announcements and late progress reports leave the world unchanged.
\<close>

theorem finished_operation_is_inert:
  assumes "token \<noteq> ''''"
    and "w' = op_run chan del es (finalizeOperation now chan del token title description w)"
    and "Some token \<notin> begins ` set es"
  shows "do_call later chan del token c w' = w' \<and>
    fire_timer later chan del (AnnounceTimer token at) w' = w' \<and>
    fire_timer later chan del (ProgressTimer token t d delayID at) w' = w'"
proof -
  have "op_token (op w') \<noteq> token"
    unfolding assms(2) by (rule run_token [OF assms(1) finalize_token [OF assms(1)] assms(3)])
  then show ?thesis by (simp add: stale_call del: do_call.simps)
qed

definition quiet_world :: op_world where
  "quiet_world = \<lparr>op = no_operation, posts = [], deleted = [], update_message = None, timers = []\<rparr>"

theorem finished_operation_is_inert_witness:
  "let w = snd (BeginOperation 0 ''op-1'' ''Restarting'' ''Restarting Factorio.'' quiet_world);
       w' = op_run True (\<lambda>_. True) [EvBegin second_ns ''op-2'' ''Stopping'' ''Stopping Factorio.'']
              (finalizeOperation second_ns True (\<lambda>_. True) ''op-1'' '''' '''' w)
   in fire_timer (3 * second_ns) True (\<lambda>_. True) (AnnounceTimer ''op-1'' (3 * second_ns)) w' = w'"
  unfolding Let_def
  by (rule finished_operation_is_inert [OF _ refl, THEN conjunct2, THEN conjunct1]) simp_all

section \<open>Quick operations are silent\<close>

fun quiet_call :: "op_call \<Rightarrow> bool" where
  "quiet_call (CallAnnounceNow t d) = False"
| "quiet_call (CallEmit t d delayID) = False"
| "quiet_call _ = True"

text \<open>The events of a quick operation: before the announcement is due, nothing forced, and no
  other operation begun.  The announcement goroutine itself may wake at any of these times.\<close>

fun quick_event :: "gotime \<Rightarrow> op_event \<Rightarrow> bool" where
  "quick_event t0 (EvBegin now token t d) = False"
| "quick_event t0 (EvCall now token c) = (now - t0 < operationAnnounceDelay \<and> quiet_call c)"
| "quick_event t0 (EvTimer now (AnnounceTimer token at)) = (now - t0 < operationAnnounceDelay)"
| "quick_event t0 (EvTimer now (ProgressTimer token t d delayID at)) = False"
| "quick_event t0 (EvTimer now (CleanupTimer ref at)) = True"

definition still_quiet :: "gotime \<Rightarrow> op_world \<Rightarrow> bool" where
  "still_quiet t0 w \<longleftrightarrow> op_token (op w) = '''' \<or> (\<not> op_announced (op w) \<and> op_started_at (op w) = t0)"

lemma quick_call:
  assumes "still_quiet t0 w" "now - t0 < operationAnnounceDelay" "quiet_call c"
  shows "still_quiet t0 (do_call now chan del token c w) \<and> posts (do_call now chan del token c w) = posts w"
  using assms
  by (cases "op_token (op w) = ''''"; cases c)
    (auto simp: call_defs Let_def still_quiet_def no_operation_def)

lemma quick_step:
  assumes "still_quiet t0 w" "quick_event t0 e"
  shows "still_quiet t0 (op_step chan del e w) \<and> posts (op_step chan del e w) = posts w"
  using assms
proof (cases "(t0, e)" rule: quick_event.cases)
  case (5 t0' now ref at)
  with assms show ?thesis by (auto simp: still_quiet_def)
qed (use quick_call in \<open>auto simp del: do_call.simps\<close>)

lemma quick_run:
  assumes "still_quiet t0 w" "list_all (quick_event t0) es"
  shows "still_quiet t0 (op_run chan del es w) \<and> posts (op_run chan del es w) = posts w"
  using assms unfolding op_run_def
proof (induction es arbitrary: w)
  case (Cons e es)
  with quick_step [of t0 w e chan del] show ?case by simp
qed simp

text \<open>
  An operation that is over within three seconds posts nothing: no sequence of updates,
  progress reports, waking announcements and its completion or failure, all before the
  announcement is due and none of them forced, reaches the channel.
\<close>

theorem quick_operation_is_silent:
  assumes "list_all (quick_event t0) es"
  shows "posts (op_run chan del es (snd (BeginOperation t0 token title description w))) = posts w
    \<or> (trim_space title = '''' \<or> trim_space description = '''')"
proof (cases "trim_space title = '''' \<or> trim_space description = ''''")
  case False
  let ?w = "snd (BeginOperation t0 token title description w)"
  have "still_quiet t0 ?w" "posts ?w = posts w"
    using False by (simp_all add: BeginOperation_def Let_def still_quiet_def no_operation_def)
  with quick_run [OF _ assms, of ?w chan del] show ?thesis by simp
qed simp

theorem quick_operation_is_silent_witness:
  "posts (op_run True (\<lambda>_. True)
     [EvCall second_ns ''op-1'' (CallProgress ''Restarting'' ''Saving.''),
      EvCall (2 * second_ns) ''op-1'' (CallFinish ''Restarting'' ''Done.'')]
     (snd (BeginOperation 0 ''op-1'' ''Restarting'' ''Restarting Factorio.'' quiet_world))) = []"
proof -
  have "trim_space ''Restarting'' \<noteq> ''''" "trim_space ''Restarting Factorio.'' \<noteq> ''''"
    by (simp_all add: trim_space_def is_space_def Let_def)
  with quick_operation_is_silent [of 0 "[EvCall second_ns ''op-1'' (CallProgress ''Restarting'' ''Saving.''),
      EvCall (2 * second_ns) ''op-1'' (CallFinish ''Restarting'' ''Done.'')]" True "\<lambda>_. True" "''op-1''"
      "''Restarting''" "''Restarting Factorio.''" quiet_world]
  show ?thesis by (simp add: operationAnnounceDelay_def quiet_world_def)
qed

text \<open>
  A delayed progress report is dropped when the operation has moved on: if any update,
  progress report, further delayed report or cancellation for the operation comes first, waking
  the sleeper posts nothing and changes nothing.
\<close>

theorem delayed_progress_superseded:
  assumes "token \<noteq> ''''" and "token = op_token (op w)" and "0 < delay"
    and "trim_space t \<noteq> ''''" and "trim_space d \<noteq> ''''"
    and "w1 = UpdateOperationProgressDelayedWithReminder now chan del token t d r delay w"
    and "c \<in> {CallUpdate t2 d2, CallAnnounceNow t2 d2, CallProgress t2 d2, CallDelayed t2 d2 r2 delay2,
           CallCancelDelayed}"
    and "trim_space t2 \<noteq> ''''" and "trim_space d2 \<noteq> ''''"
    and "w2 = do_call later chan del token c w1"
  shows "\<exists>delayID at. timers w1 = timers w @ [ProgressTimer token (trim_space t) (trim_space d) delayID at]
    \<and> now < at
    \<and> fire_timer wake chan del (ProgressTimer token (trim_space t) (trim_space d) delayID at) w2 = w2"
proof -
  let ?id = "op_delay_id (op w) + 1"
  let ?at = "now + nextOptionalProgressDelay now (op_started_at (op w)) (op_announced (op w)) delay"
  have w1: "w1 = w\<lparr>op := (op w)\<lparr>op_delay_id := ?id\<rparr>,
      timers := timers w @ [ProgressTimer token (trim_space t) (trim_space d) ?id ?at]\<rparr>"
    using assms by (simp add: UpdateOperationProgressDelayedWithReminder_def Let_def)
  have "op_delay_id (op w2) = ?id + 1"
    using assms(1,2,7-10) w1 by (auto simp: call_defs Let_def)
  then have "?id \<noteq> op_delay_id (op w2)" by simp
  then have "fire_timer wake chan del (ProgressTimer token (trim_space t) (trim_space d) ?id ?at) w2 = w2"
    by (simp add: emitScheduledOperationProgress_def)
  moreover have "now < ?at" using assms(3) by (auto simp: nextOptionalProgressDelay_def Let_def)
  ultimately show ?thesis using w1 by auto
qed

theorem delayed_progress_superseded_witness:
  "let w = snd (BeginOperation 0 ''op-1'' ''Restarting'' ''Restarting Factorio.'' quiet_world);
       w1 = UpdateOperationProgressDelayedWithReminder second_ns True (\<lambda>_. True) ''op-1'' ''A'' ''B'' ''C''
              (5 * second_ns) w;
       w2 = do_call (2 * second_ns) True (\<lambda>_. True) ''op-1'' CallCancelDelayed w1
   in \<exists>delayID at. ProgressTimer ''op-1'' ''A'' ''B'' delayID at \<in> set (timers w1) \<and>
        fire_timer (9 * second_ns) True (\<lambda>_. True) (ProgressTimer ''op-1'' ''A'' ''B'' delayID at) w2 = w2"
proof -
  have t: "trim_space ''A'' = ''A''" "trim_space ''B'' = ''B''" "trim_space ''Restarting'' \<noteq> ''''"
    "trim_space ''Restarting Factorio.'' \<noteq> ''''"
    by (simp_all add: trim_space_def is_space_def Let_def)
  let ?w = "snd (BeginOperation 0 ''op-1'' ''Restarting'' ''Restarting Factorio.'' quiet_world)"
  have "''op-1'' = op_token (op ?w)" using t by (simp add: BeginOperation_def Let_def)
  from delayed_progress_superseded [OF _ this, of "5 * second_ns" "''A''" "''B''", OF _ _ _ _ refl,
      of CallCancelDelayed "''A''" "''B''" "''C''" 0, OF _ _ _ _ _ _ _ refl,
      of second_ns True "\<lambda>_. True" "''C''" "9 * second_ns" "2 * second_ns"]
  obtain delayID at where
    "timers (UpdateOperationProgressDelayedWithReminder second_ns True (\<lambda>_. True) ''op-1'' ''A'' ''B'' ''C''
       (5 * second_ns) ?w) = timers ?w @ [ProgressTimer ''op-1'' ''A'' ''B'' delayID at]"
    "fire_timer (9 * second_ns) True (\<lambda>_. True) (ProgressTimer ''op-1'' ''A'' ''B'' delayID at)
       (do_call (2 * second_ns) True (\<lambda>_. True) ''op-1'' CallCancelDelayed
         (UpdateOperationProgressDelayedWithReminder second_ns True (\<lambda>_. True) ''op-1'' ''A'' ''B'' ''C''
           (5 * second_ns) ?w)) =
     do_call (2 * second_ns) True (\<lambda>_. True) ''op-1'' CallCancelDelayed
       (UpdateOperationProgressDelayedWithReminder second_ns True (\<lambda>_. True) ''op-1'' ''A'' ''B'' ''C''
         (5 * second_ns) ?w)"
    unfolding t by (auto simp del: do_call.simps fire_timer.simps)
  then show ?thesis unfolding Let_def by (intro exI [of _ delayID] exI [of _ at]) simp
qed

end
