(* ===== verification/Lifecycle.thy ===== *)
theory Lifecycle
  imports Operation_Status
begin

text \<open>
  The lifecycle manager of the Factorio process (fact/lifecycle.go): a single goroutine owns the
  phase of the server, takes one request at a time from a queue and reacts to events of the
  process.

  Each method is a function on the record \<open>lifecycle\<close>, which also holds the globals the
  methods change.  Everything they read from outside (the clock, whether the process lives,
  whether an update runs, what a hook returns) is the record \<open>lc_env\<close>.  The channels carry
  events from other goroutines and drop them when full; an event is therefore an input that
  may come at any time, or never.  What the manager does to the outside is appended to
  \<open>lm_trace\<close>.

  \<open>waitForStop\<close> polls; one iteration of its loop is one element of a list of polls, and a list
  that ends before the loop does gives \<open>None\<close>, still waiting.
\<close>

section \<open>Requests and state\<close>

datatype phase = Stopped | Starting | Running | Stopping

datatype action_kind = ActionStart | ActionStop | ActionRestartFactorio | ActionRestartChatWire
  | ActionChangeMap | ActionMapReset | ActionUnknown string

record request =
  r_kind :: action_kind
  r_reason :: string
  r_save_name :: string
  r_force_exit :: bool
  r_id :: string
  r_when_empty :: bool
  r_wait :: bool
  r_snapshot :: string

datatype lc_effect =
    Launch uint64 string
  | LaunchFailed uint64
  | Exited uint64
  | SendQuit
  | InterruptProcess
  | KillProcess
  | GameChat string
  | ExitChatWire bool
  | Reply string "string option"
  | RemoveSnapshot string
  | ReportOnline
  | ReportOffline
  | ReportCrashLoop

record lifecycle =
  lm_phase :: phase
  lm_phase_since :: gotime
  lm_booted :: bool
  lm_pid :: int
  lm_generation :: uint64
  lm_action :: string
  lm_last_error :: string
  lm_started_at :: gotime
  lm_ready_at :: gotime
  lm_queue :: "request list"
  lm_shutdown :: bool
  lm_health_queued :: bool
  lm_softmod_detected :: bool
  lm_softmod_recovery :: bool
  lm_op_token :: string
  lm_op_kind :: "action_kind option"
  lm_op_save :: string
  lm_progress_at :: gotime
  lm_progress_kind :: string
  g_fact_running :: bool
  g_fact_booted :: bool
  g_booted_at :: gotime
  g_players :: int
  g_queue_reboot :: bool
  g_queue_fact_reboot :: bool
  g_do_reboot_cw :: bool
  g_autostart :: bool
  g_update_pending :: bool
  g_crash_loops :: nat
  g_cfg_autostart :: bool
  g_pending_save :: string
  g_new_map :: bool
  g_relaunch_throttle :: int
  g_no_response :: int
  g_pipe :: bool
  lm_ops :: op_world
  lm_trace :: "lc_effect list"

text \<open>
  What the code reads from outside.  \<open>e_launch\<close> is the result of \<open>hooks.LaunchFactorio\<close>: an
  error, or the process id if the command has one; \<open>e_prepare\<close> that of \<open>doChangeMapAfterStop\<close>;
  \<open>e_reset\<close> that of \<open>mapResetAfterStop\<close>; \<open>e_stage\<close> that of \<open>stageMapChange\<close>;
  \<open>e_before_exit\<close> that of the request's \<open>BeforeExit\<close> (\<open>None\<close> also when there is none).
  \<open>e_chan\<close> and \<open>e_delete\<close> are the inputs of the operation status.
\<close>

record lc_env =
  e_now :: gotime
  e_update :: bool
  e_modop :: bool
  e_within_hours :: bool
  e_inject :: bool
  e_alive :: bool
  e_launch :: "string + int option"
  e_prepare :: "string option"
  e_reset :: "string + string"
  e_stage :: "string + string"
  e_before_exit :: "string option"
  e_exit_hook :: bool
  e_new_save :: string
  e_token :: string
  e_chan :: bool
  e_delete :: "message_ref \<Rightarrow> bool"

definition lifecycleStopGraceTimeout :: gotime where "lifecycleStopGraceTimeout = 45 * second_ns"
definition lifecycleStopIdleTimeout :: gotime where "lifecycleStopIdleTimeout = 20 * second_ns"
definition lifecycleStopSaveTimeout :: gotime where "lifecycleStopSaveTimeout = 3 * minute_ns"
definition lifecycleStopInterruptTimeout :: gotime where "lifecycleStopInterruptTimeout = 20 * second_ns"
definition lifecycleStopKillTimeout :: gotime where "lifecycleStopKillTimeout = 5 * second_ns"
definition lifecycleStartupIdleTimeout :: gotime where "lifecycleStartupIdleTimeout = 2 * minute_ns"
definition lifecycleStartupHardTimeout :: gotime where "lifecycleStartupHardTimeout = 15 * minute_ns"
definition softModUpdateStartupGrace :: gotime where "softModUpdateStartupGrace = 30 * second_ns"
definition lifecycleOptionalProgressDelay :: gotime where "lifecycleOptionalProgressDelay = 5 * second_ns"

definition emit :: "lc_effect \<Rightarrow> lifecycle \<Rightarrow> lifecycle" where
  "emit e lm = lm\<lparr>lm_trace := lm_trace lm @ [e]\<rparr>"

fun action_name :: "action_kind \<Rightarrow> string" where
  "action_name ActionStart = ''start''"
| "action_name ActionStop = ''stop''"
| "action_name ActionRestartFactorio = ''restart-factorio''"
| "action_name ActionRestartChatWire = ''restart-chatwire''"
| "action_name ActionChangeMap = ''change-map''"
| "action_name ActionMapReset = ''map-reset''"
| "action_name (ActionUnknown s) = s"

definition syncCompatibilityLocked :: "lifecycle \<Rightarrow> lifecycle" where
  "syncCompatibilityLocked lm =
     lm\<lparr>g_fact_running := (lm_phase lm = Starting \<or> lm_phase lm = Running \<or> lm_phase lm = Stopping),
        g_fact_booted := lm_booted lm,
        g_booted_at := (if lm_phase lm = Stopped then zero_time
                        else if lm_started_at lm \<noteq> zero_time then lm_started_at lm
                        else g_booted_at lm),
        g_players := (if lm_phase lm = Stopped then 0 else g_players lm),
        g_queue_reboot := list_ex (\<lambda>r. r_kind r = ActionRestartChatWire \<and> r_when_empty r) (lm_queue lm),
        g_queue_fact_reboot := list_ex (\<lambda>r. r_kind r = ActionRestartFactorio \<and> r_when_empty r) (lm_queue lm),
        g_do_reboot_cw := list_ex (\<lambda>r. r_kind r = ActionRestartChatWire) (lm_queue lm)\<rparr>"

text \<open>\<open>SetAutolaunch\<close> changes the flag only when it differs.\<close>

definition SetAutolaunch :: "bool \<Rightarrow> lifecycle \<Rightarrow> lifecycle" where
  "SetAutolaunch autolaunch lm =
     (if \<not> autolaunch \<and> g_autostart lm then lm\<lparr>g_autostart := False\<rparr>
      else if autolaunch \<and> \<not> g_autostart lm then lm\<lparr>g_autostart := True\<rparr>
      else lm)"

section \<open>The operation status\<close>

definition lifecycleOperationTitle :: "action_kind option \<Rightarrow> string" where
  "lifecycleOperationTitle k =
     (case k of
        Some ActionStart \<Rightarrow> ''Starting Factorio''
      | Some ActionStop \<Rightarrow> ''Stopping Factorio''
      | Some ActionRestartFactorio \<Rightarrow> ''Restarting Factorio''
      | Some ActionRestartChatWire \<Rightarrow> ''Restarting ChatWire''
      | Some ActionChangeMap \<Rightarrow> ''Changing Map''
      | Some ActionMapReset \<Rightarrow> ''Resetting Map''
      | _ \<Rightarrow> ''Operation'')"

definition lifecycleOperationDescriptionForKind :: "action_kind \<Rightarrow> string \<Rightarrow> string" where
  "lifecycleOperationDescriptionForKind k saveName =
     (case k of
        ActionStart \<Rightarrow> ''Starting Factorio.''
      | ActionStop \<Rightarrow> ''Stopping Factorio.''
      | ActionRestartFactorio \<Rightarrow> ''Restarting Factorio.''
      | ActionRestartChatWire \<Rightarrow> ''Restarting ChatWire.''
      | ActionChangeMap \<Rightarrow> if saveName \<noteq> '''' then ''Changing map to '' @ saveName @ ''.'' else ''Changing map.''
      | ActionMapReset \<Rightarrow> ''Resetting map.''
      | ActionUnknown s \<Rightarrow> ''Operation in progress.'')"

definition beginOperation :: "lc_env \<Rightarrow> request \<Rightarrow> lifecycle \<Rightarrow> lifecycle" where
  "beginOperation env req lm =
     (let title = lifecycleOperationTitle (Some (r_kind req));
          description = lifecycleOperationDescriptionForKind (r_kind req) (r_save_name req);
          (token, w) = BeginOperation (e_now env) (e_token env) title description (lm_ops lm);
          lm = lm\<lparr>lm_op_token := token, lm_op_kind := Some (r_kind req), lm_op_save := r_save_name req\<rparr>
      in lm\<lparr>lm_ops := AnnounceOperationNow (e_now env) (e_chan env) (e_delete env) token title description w\<rparr>)"

definition clear_op :: "lifecycle \<Rightarrow> lifecycle" where
  "clear_op lm = lm\<lparr>lm_op_token := '''', lm_op_kind := None, lm_op_save := ''''\<rparr>"

definition finishOperationError :: "lc_env \<Rightarrow> string \<Rightarrow> lifecycle \<Rightarrow> lifecycle" where
  "finishOperationError env err lm =
     (clear_op lm)\<lparr>lm_ops := FailOperation (e_now env) (e_chan env) (e_delete env) (lm_op_token lm)
        (lifecycleOperationTitle (lm_op_kind lm)) err (lm_ops lm)\<rparr>"

definition updateOperationProgress :: "lc_env \<Rightarrow> string \<Rightarrow> lifecycle \<Rightarrow> lifecycle" where
  "updateOperationProgress env description lm =
     lm\<lparr>lm_ops := UpdateOperationProgress (e_now env) (e_chan env) (e_delete env) (lm_op_token lm)
        (lifecycleOperationTitle (lm_op_kind lm)) description (lm_ops lm)\<rparr>"

definition updateOperationProgressDelayedWithReminder ::
  "lc_env \<Rightarrow> string \<Rightarrow> string \<Rightarrow> gotime \<Rightarrow> lifecycle \<Rightarrow> lifecycle" where
  "updateOperationProgressDelayedWithReminder env description reminder delay lm =
     lm\<lparr>lm_ops := UpdateOperationProgressDelayedWithReminder (e_now env) (e_chan env) (e_delete env)
        (lm_op_token lm) (lifecycleOperationTitle (lm_op_kind lm)) description reminder delay (lm_ops lm)\<rparr>"

section \<open>The end of a process\<close>

definition shouldReportOfflineStatus :: "action_kind option \<Rightarrow> string option \<Rightarrow> bool" where
  "shouldReportOfflineStatus opKind exitErr \<longleftrightarrow>
     exitErr \<noteq> None \<or>
     opKind \<notin> {Some ActionRestartFactorio, Some ActionRestartChatWire, Some ActionChangeMap, Some ActionMapReset}"

text \<open>The crash counter of a process that ended before it was ready.\<close>

definition count_crash :: "lc_env \<Rightarrow> gotime \<Rightarrow> lifecycle \<Rightarrow> lifecycle" where
  "count_crash env startedAt lm =
     (let lm = lm\<lparr>g_crash_loops :=
            (if startedAt \<noteq> zero_time \<and> e_now env - startedAt < 2 * minute_ns
             then Suc (g_crash_loops lm) else 0)\<rparr>
      in if 3 \<le> g_crash_loops lm
         then emit ReportCrashLoop ((SetAutolaunch False lm)\<lparr>g_cfg_autostart := False\<rparr>)
         else lm)"

text \<open>What is told about the operation that was under way.\<close>

definition settle_operation ::
  "lc_env \<Rightarrow> string \<Rightarrow> action_kind option \<Rightarrow> string \<Rightarrow> bool \<Rightarrow> bool \<Rightarrow> string option \<Rightarrow> op_world \<Rightarrow> op_world"
where
  "settle_operation env opToken opKind opSaveName wasStarting continuing exitErr w =
     (if opToken = '''' then w
      else
        (let w = CancelOperationDelayedProgress opToken w;
             w = (if exitErr = None \<and> opKind = Some ActionStop
                  then CancelOperation (e_now env) (e_chan env) (e_delete env) opToken w else w)
         in if \<not> continuing \<and> (wasStarting \<or> exitErr \<noteq> None) then
              (let desc = (if wasStarting then ''Factorio stopped before startup completed.''
                           else ''Factorio stopped unexpectedly.'');
                   desc = (case exitErr of
                             Some e \<Rightarrow> if contains_str e ''signal: killed'' then desc else e
                           | None \<Rightarrow> desc);
                   desc = (if opKind = Some ActionChangeMap \<and> opSaveName \<noteq> '''' \<and> wasStarting
                           then ''Map change to '' @ opSaveName @ '' did not complete.'' else desc)
               in FailOperation (e_now env) (e_chan env) (e_delete env) opToken
                    (lifecycleOperationTitle opKind) desc w)
            else w))"

text \<open>The fields set under the lock when the process is gone.\<close>

definition mark_stopped :: "lc_env \<Rightarrow> bool \<Rightarrow> string option \<Rightarrow> lifecycle \<Rightarrow> lifecycle" where
  "mark_stopped env continuing exitErr lm =
     (let lm = lm\<lparr>lm_phase := Stopped, lm_phase_since := e_now env, lm_booted := False,
                 lm_started_at := zero_time, lm_ready_at := zero_time, lm_progress_at := zero_time,
                 lm_progress_kind := '''', lm_health_queued := False,
                 g_update_pending := (g_update_pending lm \<or> lm_softmod_recovery lm),
                 lm_softmod_recovery := False\<rparr>;
          lm = (if continuing then lm else clear_op lm);
          lm = lm\<lparr>lm_pid := 0, lm_action := '''',
                 lm_last_error := (case exitErr of
                    Some e \<Rightarrow> if contains_str e ''signal: killed'' then lm_last_error lm else e
                  | None \<Rightarrow> lm_last_error lm)\<rparr>
      in (syncCompatibilityLocked lm)\<lparr>g_pipe := False\<rparr>)"

definition finalizeStopped ::
  "lc_env \<Rightarrow> uint64 \<Rightarrow> string option \<Rightarrow> bool \<Rightarrow> lifecycle \<Rightarrow> lifecycle" where
  "finalizeStopped env generation exitErr report lm =
     (if generation \<noteq> lm_generation lm \<and> generation \<noteq> 0 then lm
      else if lm_phase lm = Stopped then lm
      else
        (let wasStarting = (lm_phase lm = Starting);
             wasRunning = (lm_phase lm = Running \<or> lm_booted lm);
             startedAt = lm_started_at lm;
             opToken = lm_op_token lm; opKind = lm_op_kind lm; opSaveName = lm_op_save lm;
             continuing = (lm_phase lm = Stopping \<and> opKind \<in> {Some ActionRestartFactorio,
               Some ActionRestartChatWire, Some ActionChangeMap, Some ActionMapReset});
             gen = lm_generation lm;
             lm = emit (Exited gen) (mark_stopped env continuing exitErr lm);
             lm = (if report \<and> wasRunning \<and> shouldReportOfflineStatus opKind exitErr
                   then emit ReportOffline lm else lm);
             lm = (if wasStarting then count_crash env startedAt lm else lm)
         in lm\<lparr>lm_ops := settle_operation env opToken opKind opSaveName wasStarting continuing exitErr (lm_ops lm)\<rparr>))"

section \<open>Events\<close>

definition handleExitEvent :: "lc_env \<Rightarrow> uint64 \<Rightarrow> string option \<Rightarrow> lifecycle \<Rightarrow> lifecycle" where
  "handleExitEvent env generation err lm =
     (if generation = 0 then lm else finalizeStopped env generation err True lm)"

definition handleGoodbyeEvent :: "uint64 \<Rightarrow> lifecycle \<Rightarrow> lifecycle" where
  "handleGoodbyeEvent generation lm = lm"

definition status_loading_mods :: "string \<Rightarrow> string \<times> string" where
  "status_loading_mods detail =
     (if detail \<noteq> '''' then (''Factorio is loading mod '' @ detail @ ''.'',
                             ''Factorio is continuing to load mod '' @ detail @ ''.'')
      else (''Factorio is loading mods.'', ''Factorio is continuing to load mods.''))"

definition status_loading_map :: "string \<Rightarrow> string \<times> string" where
  "status_loading_map saveName =
     (if saveName \<noteq> '''' then (''Factorio is loading map '' @ saveName @ ''.'',
                               ''Factorio is still loading map '' @ saveName @ ''.'')
      else (''Factorio is loading the map.'', ''Factorio is still loading the map.''))"

definition handleProgressEvent ::
  "lc_env \<Rightarrow> uint64 \<Rightarrow> string \<Rightarrow> string \<Rightarrow> gotime \<Rightarrow> lifecycle \<Rightarrow> lifecycle" where
  "handleProgressEvent env generation kind detail at lm =
     (if generation \<noteq> lm_generation lm \<or> generation = 0 then lm
      else
        (let lm = lm\<lparr>lm_progress_at := at, lm_progress_kind := kind\<rparr>;
             tell = (\<lambda>(d, r). updateOperationProgressDelayedWithReminder env d r
                        lifecycleOptionalProgressDelay lm)
         in if kind = ''mod-load'' then tell (status_loading_mods detail)
            else if kind = ''map-load'' then
              tell (status_loading_map (if lm_op_kind lm = Some ActionChangeMap then lm_op_save lm else ''''))
            else if kind = ''save'' then
              tell (''Factorio is saving the map.'', ''Factorio is still saving the map.'')
            else if kind = ''rcon-ready'' then
              tell (''Factorio is bringing the server online.'', ''Factorio is bringing the server online.'')
            else lm))"

text \<open>A request the manager makes itself: nobody waits for it.\<close>

definition own_request :: "action_kind \<Rightarrow> string \<Rightarrow> string \<Rightarrow> request" where
  "own_request kind reason rid = \<lparr>r_kind = kind, r_reason = reason, r_save_name = '''',
     r_force_exit = False, r_id = rid, r_when_empty = False, r_wait = False, r_snapshot = ''''\<rparr>"

definition enqueue :: "request \<Rightarrow> lifecycle \<Rightarrow> lifecycle" where
  "enqueue r lm = lm\<lparr>lm_queue := lm_queue lm @ [r]\<rparr>"

definition handleHealthEvent ::
  "lc_env \<Rightarrow> uint64 \<Rightarrow> string \<Rightarrow> string \<Rightarrow> lifecycle \<Rightarrow> lifecycle" where
  "handleHealthEvent env generation kind err lm =
     (if generation = 0 \<or> generation \<noteq> lm_generation lm then lm
      else
        (let lm = (if err \<noteq> '''' then lm\<lparr>lm_last_error := err\<rparr> else lm) in
         if lm_phase lm = Stopping \<or> lm_phase lm = Stopped then lm
         else if \<not> e_alive env then
           finalizeStopped env generation (Some kind) True (finishOperationError env kind lm)
         else
           (let lm = (if \<not> lm_health_queued lm then
                   syncCompatibilityLocked
                     ((enqueue (own_request ActionRestartFactorio
                         (''Factorio health issue detected ('' @ kind @ ''): '' @ err)
                         (''health-'' @ itoa (unat generation) @ ''-'' @ kind)) lm)\<lparr>lm_health_queued := True\<rparr>)
                 else lm)
            in updateOperationProgress env (''Detected a Factorio health issue ('' @ kind
                 @ ''). A controlled restart has been queued.'') lm)))"

definition handleReadyEvent :: "lc_env \<Rightarrow> uint64 \<Rightarrow> lifecycle \<Rightarrow> lifecycle" where
  "handleReadyEvent env generation lm =
     (if generation \<noteq> lm_generation lm \<or> lm_phase lm \<noteq> Starting then lm
      else
        (let token = lm_op_token lm; kind = lm_op_kind lm; saveName = lm_op_save lm;
             lm = syncCompatibilityLocked (lm\<lparr>lm_phase := Running, lm_phase_since := e_now env,
                    lm_booted := True, lm_ready_at := e_now env\<rparr>);
             lm = clear_op lm;
             lm = lm\<lparr>g_pending_save := '''', g_new_map := False\<rparr>;
             lm = (emit ReportOnline lm)\<lparr>g_crash_loops := 0\<rparr>;
             complete = (\<lambda>title desc. lm\<lparr>lm_ops := CompleteOperation (e_now env) (e_chan env)
                (e_delete env) token title desc (lm_ops lm)\<rparr>)
         in case kind of
              Some ActionStart \<Rightarrow> complete '''' ''''
            | Some ActionRestartFactorio \<Rightarrow> complete '''' ''''
            | Some ActionChangeMap \<Rightarrow> complete (lifecycleOperationTitle kind)
                (if saveName \<noteq> '''' then ''Map change to '' @ saveName @ '' complete.'' else ''Map change complete.'')
            | Some ActionMapReset \<Rightarrow> complete (lifecycleOperationTitle kind) ''Map reset complete.''
            | _ \<Rightarrow> lm))"

definition NotifySoftModDetected :: "uint64 \<Rightarrow> lifecycle \<Rightarrow> lifecycle" where
  "NotifySoftModDetected generation lm =
     (if generation \<noteq> 0 \<and> generation = lm_generation lm
      then lm\<lparr>lm_softmod_detected := True, lm_softmod_recovery := False\<rparr> else lm)"

definition IsCurrentFactorioGeneration :: "uint64 \<Rightarrow> lifecycle \<Rightarrow> bool" where
  "IsCurrentFactorioGeneration generation lm \<longleftrightarrow> generation \<noteq> 0 \<and> lm_generation lm = generation"

section \<open>Starting\<close>

definition executeStart :: "lc_env \<Rightarrow> string \<Rightarrow> lifecycle \<Rightarrow> string option \<times> lifecycle" where
  "executeStart env saveName lm =
     (if lm_phase lm = Running \<or> lm_phase lm = Starting then (None, lm\<lparr>lm_action := ''''\<rparr>)
      else if lm_phase lm = Stopping then
        (Some ''Factorio is still stopping; refusing to launch another process'', lm)
      else if e_update env \<or> e_modop env then
        (Some ''factorio update or mod operation is in progress'', lm\<lparr>lm_action := ''''\<rparr>)
      else if \<not> e_within_hours env then (Some ''outside allowed play hours'', lm\<lparr>lm_action := ''''\<rparr>)
      else
        (let gen = lm_generation lm + 1;
             lm = lm\<lparr>lm_phase := Starting, lm_phase_since := e_now env, lm_started_at := e_now env,
                 lm_progress_at := e_now env, lm_progress_kind := ''spawn'', lm_ready_at := zero_time,
                 lm_booted := False, lm_softmod_detected := False, lm_softmod_recovery := False,
                 lm_pid := 0, lm_generation := gen\<rparr>;
             lm = emit (Launch gen saveName) (syncCompatibilityLocked lm)
         in case e_launch env of
              Inl err \<Rightarrow>
                (Some err, emit (LaunchFailed gen) (syncCompatibilityLocked
                   (lm\<lparr>lm_phase := Stopped, lm_phase_since := e_now env, lm_started_at := zero_time,
                       lm_pid := 0, lm_booted := False, lm_last_error := err\<rparr>)))
            | Inr pid \<Rightarrow>
                (None, syncCompatibilityLocked
                   (lm\<lparr>lm_softmod_recovery := (g_update_pending lm \<and> e_inject env \<and> \<not> lm_softmod_detected lm),
                       g_update_pending := False,
                       lm_pid := (case pid of Some p \<Rightarrow> p | None \<Rightarrow> lm_pid lm)\<rparr>))))"

definition checkSoftModAfterUpdate :: "lc_env \<Rightarrow> lifecycle \<Rightarrow> lifecycle" where
  "checkSoftModAfterUpdate env lm =
     (if \<not> lm_softmod_recovery lm \<or> lm_softmod_detected lm \<or> \<not> e_inject env
         \<or> lm_phase lm \<noteq> Running \<or> \<not> lm_booted lm \<or> lm_ready_at lm = zero_time
         \<or> e_now env - lm_ready_at lm < softModUpdateStartupGrace
         \<or> e_update env \<or> e_modop env \<or> lm_shutdown lm then lm
      else if list_ex (\<lambda>r. r_kind r \<in> {ActionRestartFactorio, ActionRestartChatWire, ActionStop,
                 ActionChangeMap, ActionMapReset}) (lm_queue lm) then lm
      else syncCompatibilityLocked
        (enqueue (own_request ActionRestartFactorio
            ''SoftMod missing after Factorio update; rebooting to restore it.''
            (''softmod-update-recovery-'' @ itoa (unat (lm_generation lm))))
          (lm\<lparr>lm_softmod_recovery := False\<rparr>)))"

section \<open>Stopping\<close>

datatype wait_event = WExit uint64 "string option" | WGoodbye uint64 | WReady uint64
  | WProgress uint64 string string gotime | WTick

record poll =
  poll_now :: gotime
  poll_alive :: bool
  poll_event :: wait_event

definition shouldExtendStopDeadline :: "string \<Rightarrow> bool" where
  "shouldExtendStopDeadline kind \<longleftrightarrow> kind \<notin> {'''', ''stop-requested'', ''spawn''}"

definition extend_deadline :: "lifecycle \<Rightarrow> gotime \<Rightarrow> gotime" where
  "extend_deadline lm deadline =
     (if lm_progress_kind lm = ''save'' \<and> lm_progress_at lm \<noteq> zero_time
      then max deadline (lm_progress_at lm + lifecycleStopSaveTimeout)
      else if shouldExtendStopDeadline (lm_progress_kind lm) \<and> lm_progress_at lm \<noteq> zero_time
      then max deadline (lm_progress_at lm + lifecycleStopIdleTimeout)
      else deadline)"

text \<open>Whether the process stopped, the time of the last poll, the state and the polls left.\<close>

fun waitForStop ::
  "lc_env \<Rightarrow> uint64 \<Rightarrow> gotime \<Rightarrow> bool \<Rightarrow> bool \<Rightarrow> poll list \<Rightarrow> lifecycle
    \<Rightarrow> (bool \<times> gotime \<times> lifecycle \<times> poll list) option" where
  "waitForStop env generation deadline allowGoodbye goodbyeSeen [] lm = None"
| "waitForStop env generation deadline allowGoodbye goodbyeSeen (p # ps) lm =
     (let deadline = extend_deadline lm deadline; env = env\<lparr>e_now := poll_now p\<rparr> in
      if (allowGoodbye \<and> goodbyeSeen \<and> \<not> poll_alive p) \<or> \<not> poll_alive p then
        Some (True, poll_now p, finalizeStopped env generation None True lm, ps)
      else if deadline < poll_now p then Some (False, poll_now p, lm, ps)
      else case poll_event p of
        WExit gen err \<Rightarrow>
          if gen \<noteq> generation
          then waitForStop env generation deadline allowGoodbye goodbyeSeen ps (handleExitEvent env gen err lm)
          else Some (True, poll_now p, handleExitEvent env gen err lm, ps)
      | WGoodbye gen \<Rightarrow>
          waitForStop env generation deadline allowGoodbye (goodbyeSeen \<or> gen = generation) ps lm
      | WReady gen \<Rightarrow>
          waitForStop env generation deadline allowGoodbye goodbyeSeen ps
            (if gen = generation then handleReadyEvent env gen lm else lm)
      | WProgress gen kind detail at \<Rightarrow>
          waitForStop env generation deadline allowGoodbye goodbyeSeen ps
            (handleProgressEvent env gen kind detail at lm)
      | WTick \<Rightarrow> waitForStop env generation deadline allowGoodbye goodbyeSeen ps lm)"

definition stop_warning :: "string \<Rightarrow> lifecycle \<Rightarrow> lifecycle" where
  "stop_warning reason lm =
     fold (\<lambda>colour lm. emit (GameChat (''[color='' @ colour @ '']'' @ reason @ ''[/color]'')) lm)
       [''red'', ''green'', ''blue'', ''white'', ''black''] lm"

text \<open>The part before the first wait.\<close>

definition begin_stop :: "lc_env \<Rightarrow> string \<Rightarrow> lifecycle \<Rightarrow> lifecycle" where
  "begin_stop env reason lm =
     (let booted = lm_booted lm;
          lm = syncCompatibilityLocked (lm\<lparr>lm_phase := Stopping, lm_phase_since := e_now env,
                 lm_progress_at := e_now env, lm_progress_kind := ''stop-requested''\<rparr>);
          reason = (if reason = '''' then ''Server quitting.'' else reason);
          lm = lm\<lparr>g_relaunch_throttle := 0, g_no_response := 0\<rparr>;
          lm = (if booted \<and> 0 < g_players lm then stop_warning reason lm else lm)
      in if booted \<and> g_fact_running lm then emit SendQuit lm else lm)"

definition executeStop ::
  "lc_env \<Rightarrow> string \<Rightarrow> poll list \<Rightarrow> lifecycle \<Rightarrow> (string option \<times> lifecycle) option" where
  "executeStop env reason polls lm =
     (if lm_phase lm = Stopped then Some (None, syncCompatibilityLocked (lm\<lparr>lm_action := ''''\<rparr>))
      else
        (let gen = lm_generation lm; lm = begin_stop env reason lm in
         case waitForStop env gen (e_now env + lifecycleStopGraceTimeout) False False polls lm of
           None \<Rightarrow> None
         | Some (True, t, lm, ps) \<Rightarrow> Some (None, lm)
         | Some (False, t, lm, ps) \<Rightarrow>
             (case waitForStop env gen (t + lifecycleStopInterruptTimeout) True False ps (emit InterruptProcess lm) of
                None \<Rightarrow> None
              | Some (True, t, lm, ps) \<Rightarrow> Some (None, lm)
              | Some (False, t, lm, ps) \<Rightarrow>
                  (case waitForStop env gen (t + lifecycleStopKillTimeout) True False ps (emit KillProcess lm) of
                     None \<Rightarrow> None
                   | Some (True, t, lm, ps) \<Rightarrow> Some (None, lm)
                   | Some (False, t, lm, ps) \<Rightarrow>
                       Some (Some ''Factorio stop timed out'',
                             lm\<lparr>lm_last_error := ''Factorio stop timed out''\<rparr>)))))"

section \<open>Requests\<close>

definition submitLifecycleRequest :: "lc_env \<Rightarrow> request \<Rightarrow> lifecycle \<Rightarrow> string option \<times> lifecycle" where
  "submitLifecycleRequest env req lm =
     (case (if r_kind req = ActionChangeMap then e_stage env else Inr '''') of
        Inl err \<Rightarrow> (Some err, lm)
      | Inr snapshot \<Rightarrow>
          if lm_shutdown lm then
            (Some ''lifecycle manager is shutting down'',
             if snapshot \<noteq> '''' then emit (RemoveSnapshot snapshot) lm else lm)
          else (None, syncCompatibilityLocked (enqueue (req\<lparr>r_snapshot := snapshot\<rparr>) lm)))"

fun actionPriority :: "action_kind \<Rightarrow> int" where
  "actionPriority ActionRestartChatWire = 50"
| "actionPriority ActionChangeMap = 40"
| "actionPriority ActionMapReset = 40"
| "actionPriority ActionRestartFactorio = 30"
| "actionPriority ActionStop = 20"
| "actionPriority ActionStart = 10"
| "actionPriority (ActionUnknown s) = 0"

definition requestRunnableLocked :: "lc_env \<Rightarrow> lifecycle \<Rightarrow> request \<Rightarrow> bool" where
  "requestRunnableLocked env lm req \<longleftrightarrow>
     (if (e_update env \<or> e_modop env) \<and> r_kind req \<noteq> ActionStop
         \<and> \<not> (r_kind req = ActionRestartChatWire \<and> r_force_exit req) then False
      else if r_when_empty req \<and> lm_phase lm \<noteq> Stopped \<and> 0 < g_players lm then False
      else True)"

text \<open>The scan of the queue: the index and the score of the best runnable request so far.\<close>

fun scan_requests ::
  "lc_env \<Rightarrow> lifecycle \<Rightarrow> nat \<Rightarrow> request list \<Rightarrow> (nat \<times> int) option \<Rightarrow> (nat \<times> int) option" where
  "scan_requests env lm i [] best = best"
| "scan_requests env lm i (req # rs) best =
     scan_requests env lm (Suc i) rs
       (if \<not> requestRunnableLocked env lm req then best
        else let score = actionPriority (r_kind req) in
          case best of
            None \<Rightarrow> Some (i, score)
          | Some (j, bestScore) \<Rightarrow> if bestScore < score then Some (i, score) else best)"

definition nextRequest :: "lc_env \<Rightarrow> lifecycle \<Rightarrow> (request \<times> lifecycle) option" where
  "nextRequest env lm =
     (case scan_requests env lm 0 (lm_queue lm) None of
        None \<Rightarrow> None
      | Some (i, score) \<Rightarrow>
          (let req = lm_queue lm ! i in
           Some (req, syncCompatibilityLocked
             (lm\<lparr>lm_queue := take i (lm_queue lm) @ drop (Suc i) (lm_queue lm),
                 lm_action := action_name (r_kind req)\<rparr>))))"

definition shouldAutoStart :: "lc_env \<Rightarrow> lifecycle \<Rightarrow> bool" where
  "shouldAutoStart env lm \<longleftrightarrow> lm_phase lm = Stopped \<and> g_autostart lm \<and> \<not> e_update env
     \<and> \<not> e_modop env \<and> e_within_hours env"

definition requestNoop :: "lifecycle \<Rightarrow> request \<Rightarrow> bool" where
  "requestNoop lm req \<longleftrightarrow>
     (case r_kind req of
        ActionStart \<Rightarrow> lm_phase lm = Running \<or> lm_phase lm = Starting
      | ActionStop \<Rightarrow> lm_phase lm = Stopped
      | _ \<Rightarrow> False)"

text \<open>\<open>doChangeMapAfterStop\<close>: on success the selected save is installed and remembered.\<close>

definition doChangeMapAfterStop :: "lc_env \<Rightarrow> lifecycle \<Rightarrow> string option \<times> lifecycle" where
  "doChangeMapAfterStop env lm =
     (case e_prepare env of
        Some err \<Rightarrow> (Some err, lm)
      | None \<Rightarrow> (None, lm\<lparr>g_new_map := False, g_pending_save := e_new_save env, g_relaunch_throttle := 0\<rparr>))"

text \<open>
  The body of the switch in \<open>execute\<close>.  The stop part runs under \<open>env\<close>, whatever follows it under
  \<open>after\<close>: an update may have begun while the server was stopping.
\<close>

definition run_action ::
  "lc_env \<Rightarrow> lc_env \<Rightarrow> poll list \<Rightarrow> request \<Rightarrow> lifecycle \<Rightarrow> (string option \<times> lifecycle) option" where
  "run_action env after polls req lm =
     (case r_kind req of
        ActionStart \<Rightarrow> Some (executeStart env '''' lm)
      | ActionStop \<Rightarrow> executeStop env (r_reason req) polls lm
      | ActionRestartFactorio \<Rightarrow>
          (case executeStop env (r_reason req) polls lm of
             None \<Rightarrow> None
           | Some (Some err, lm) \<Rightarrow> Some (Some err, lm)
           | Some (None, lm) \<Rightarrow> Some (executeStart after '''' lm))
      | ActionRestartChatWire \<Rightarrow>
          (case executeStop env (r_reason req) polls lm of
             None \<Rightarrow> None
           | Some (Some err, lm) \<Rightarrow> Some (Some err, lm)
           | Some (None, lm) \<Rightarrow>
               if \<not> e_exit_hook after then Some (None, lm)
               else case e_before_exit after of
                 Some err \<Rightarrow> Some (Some err, lm)
               | None \<Rightarrow> Some (None, emit (ExitChatWire (r_force_exit req)) lm))
      | ActionChangeMap \<Rightarrow>
          (let wasAuto = g_autostart lm in
           case executeStop env (r_reason req) polls (SetAutolaunch False lm) of
             None \<Rightarrow> None
           | Some (Some err, lm) \<Rightarrow> Some (Some err, SetAutolaunch wasAuto lm)
           | Some (None, lm) \<Rightarrow>
               (case doChangeMapAfterStop after lm of
                  (Some err, lm) \<Rightarrow> Some (Some err, SetAutolaunch wasAuto lm)
                | (None, lm) \<Rightarrow> Some (executeStart after (e_new_save after) (SetAutolaunch True lm))))
      | ActionMapReset \<Rightarrow>
          (let wasAuto = g_autostart lm in
           case executeStop env (r_reason req) polls (SetAutolaunch False lm) of
             None \<Rightarrow> None
           | Some (Some err, lm) \<Rightarrow> Some (Some err, SetAutolaunch wasAuto lm)
           | Some (None, lm) \<Rightarrow>
               (case e_reset after of
                  Inl err \<Rightarrow> Some (Some err, SetAutolaunch wasAuto lm)
                | Inr saveName \<Rightarrow> Some (executeStart after saveName (SetAutolaunch True lm))))
      | ActionUnknown s \<Rightarrow> Some (Some (''unknown lifecycle action: '' @ s), lm))"

definition reply :: "request \<Rightarrow> string option \<Rightarrow> lifecycle \<Rightarrow> lifecycle" where
  "reply req err lm = (if r_wait req then emit (Reply (r_id req) err) lm else lm)"

definition execute ::
  "lc_env \<Rightarrow> lc_env \<Rightarrow> poll list \<Rightarrow> request \<Rightarrow> lifecycle \<Rightarrow> lifecycle option" where
  "execute env after polls req lm =
     (case (if r_kind req = ActionChangeMap \<and> r_snapshot req = '''' then e_stage env
            else Inr (r_snapshot req)) of
        Inl err \<Rightarrow> Some (reply req (Some err) (lm\<lparr>lm_action := '''', lm_last_error := err\<rparr>))
      | Inr snapshot \<Rightarrow>
          (let operationStarted = (\<not> requestNoop lm req);
               lm = (if operationStarted then beginOperation env req lm else lm)
           in case run_action env after polls req lm of
                None \<Rightarrow> None
              | Some (err, lm) \<Rightarrow>
                  (let lm = lm\<lparr>lm_action := '''',
                         lm_last_error := (case err of Some e \<Rightarrow> e | None \<Rightarrow> lm_last_error lm)\<rparr>;
                       lm = syncCompatibilityLocked lm;
                       lm = (case err of
                               Some e \<Rightarrow> if operationStarted then finishOperationError after e lm else lm
                             | None \<Rightarrow> lm);
                       lm = reply req err lm
                   in Some (if snapshot \<noteq> '''' then emit (RemoveSnapshot snapshot) lm else lm))))"

section \<open>The loop\<close>

text \<open>\<open>dur\<close> is the rendered duration since the start.\<close>

definition checkStartupTimeout :: "lc_env \<Rightarrow> string \<Rightarrow> string \<Rightarrow> lifecycle \<Rightarrow> lifecycle" where
  "checkStartupTimeout env dur rid lm =
     (if lm_phase lm \<noteq> Starting \<or> lm_started_at lm = zero_time then lm
      else if e_now env - lm_started_at lm \<le> lifecycleStartupHardTimeout
        \<and> e_now env - (if lm_progress_at lm \<noteq> zero_time then lm_progress_at lm else lm_started_at lm)
            \<le> lifecycleStartupIdleTimeout then lm
      else
        (let why = ''Factorio startup timed out after '' @ dur @ '' (last progress: '' @ lm_progress_kind lm @ '')''
         in snd (submitLifecycleRequest env (own_request ActionRestartFactorio (why @ ''; forcing restart.'') rid)
              (finishOperationError env why lm))))"

text \<open>A missing pipe sends a health event to the manager itself; the result says so.\<close>

definition reconcileProcessHealth :: "lc_env \<Rightarrow> lifecycle \<Rightarrow> bool \<times> lifecycle" where
  "reconcileProcessHealth env lm =
     (if lm_phase lm = Stopped \<or> lm_generation lm = 0 then (False, lm)
      else if \<not> e_alive env then
        (False, finalizeStopped env (lm_generation lm) (Some ''factorio process no longer alive'') True lm)
      else ((lm_phase lm = Starting \<or> lm_phase lm = Running) \<and> \<not> g_pipe lm, lm))"

definition cancelPendingRequests :: "lifecycle \<Rightarrow> lifecycle" where
  "cancelPendingRequests lm =
     fold (\<lambda>req lm. reply req (Some ''lifecycle manager stopped before request completed'')
             (if r_snapshot req \<noteq> '''' then emit (RemoveSnapshot (r_snapshot req)) lm else lm))
       (lm_queue lm) (syncCompatibilityLocked (lm\<lparr>lm_queue := []\<rparr>))"

definition auto_request :: "string \<Rightarrow> request" where
  "auto_request rid = own_request ActionStart ''auto-start'' rid"

end
