(* ===== verification/Lifecycle_Facts.thy ===== *)
theory Lifecycle_Facts
  imports Lifecycle "HOL-Library.Multiset"
begin

text \<open>
  The lifecycle manager as a step system: its invariant, and what each method leaves alone.
\<close>

section \<open>The trace of processes\<close>

text \<open>
  The process the manager is responsible for, read off its trace.  Launching while one is live
  and an end without a matching launch are violations: \<open>None\<close>.
\<close>

fun live_process :: "uint64 option \<Rightarrow> lc_effect list \<Rightarrow> uint64 option option" where
  "live_process cur [] = Some cur"
| "live_process cur (Launch g s # es) = (if cur = None then live_process (Some g) es else None)"
| "live_process cur (LaunchFailed g # es) = (if cur = Some g then live_process None es else None)"
| "live_process cur (Exited g # es) = (if cur = Some g then live_process None es else None)"
| "live_process cur (e # es) = live_process cur es"

lemma live_process_append:
  "live_process cur (es @ fs) = (case live_process cur es of None \<Rightarrow> None | Some c \<Rightarrow> live_process c fs)"
  by (induction cur es rule: live_process.induct) simp_all

fun neutral :: "lc_effect \<Rightarrow> bool" where
  "neutral (Launch g s) = False"
| "neutral (LaunchFailed g) = False"
| "neutral (Exited g) = False"
| "neutral e = True"

lemma live_process_neutral: "neutral e \<Longrightarrow> live_process cur [e] = Some cur"
  by (cases e) simp_all

section \<open>The invariant\<close>

definition trace_ok :: "lifecycle \<Rightarrow> bool" where
  "trace_ok lm \<longleftrightarrow> live_process None (lm_trace lm) =
     Some (if lm_phase lm = Stopped then None else Some (lm_generation lm))"

definition phase_ok :: "lifecycle \<Rightarrow> bool" where
  "phase_ok lm \<longleftrightarrow>
     (lm_booted lm \<longrightarrow> lm_phase lm = Running \<or> lm_phase lm = Stopping) \<and>
     (lm_phase lm = Running \<longrightarrow> lm_booted lm) \<and>
     (lm_phase lm = Stopped \<longrightarrow> lm_pid lm = 0 \<and> lm_started_at lm = zero_time \<and> \<not> lm_softmod_recovery lm) \<and>
     (lm_softmod_recovery lm \<longrightarrow> \<not> lm_softmod_detected lm)"

text \<open>The legacy globals say what the manager knows.\<close>

definition sync_ok :: "lifecycle \<Rightarrow> bool" where
  "sync_ok lm \<longleftrightarrow> g_fact_running lm = (lm_phase lm \<noteq> Stopped) \<and> g_fact_booted lm = lm_booted lm \<and>
     g_do_reboot_cw lm = list_ex (\<lambda>r. r_kind r = ActionRestartChatWire) (lm_queue lm) \<and>
     g_queue_reboot lm = list_ex (\<lambda>r. r_kind r = ActionRestartChatWire \<and> r_when_empty r) (lm_queue lm) \<and>
     g_queue_fact_reboot lm = list_ex (\<lambda>r. r_kind r = ActionRestartFactorio \<and> r_when_empty r) (lm_queue lm)"

definition lc_inv :: "lifecycle \<Rightarrow> bool" where
  "lc_inv lm \<longleftrightarrow> trace_ok lm \<and> phase_ok lm \<and> sync_ok lm"

lemma sync_ok_sync [simp]: "sync_ok (syncCompatibilityLocked lm)"
  by (cases "lm_phase lm") (simp_all add: sync_ok_def syncCompatibilityLocked_def)

lemma sync_keep [simp]:
  "trace_ok (syncCompatibilityLocked lm) = trace_ok lm"
  "phase_ok (syncCompatibilityLocked lm) = phase_ok lm"
  by (simp_all add: trace_ok_def phase_ok_def syncCompatibilityLocked_def)

lemma sync_fields [simp]:
  "lm_phase (syncCompatibilityLocked lm) = lm_phase lm"
  "lm_generation (syncCompatibilityLocked lm) = lm_generation lm"
  "lm_booted (syncCompatibilityLocked lm) = lm_booted lm"
  "lm_queue (syncCompatibilityLocked lm) = lm_queue lm"
  "lm_trace (syncCompatibilityLocked lm) = lm_trace lm"
  "lm_softmod_recovery (syncCompatibilityLocked lm) = lm_softmod_recovery lm"
  "lm_softmod_detected (syncCompatibilityLocked lm) = lm_softmod_detected lm"
  "lm_ops (syncCompatibilityLocked lm) = lm_ops lm"
  "g_update_pending (syncCompatibilityLocked lm) = g_update_pending lm"
  "g_autostart (syncCompatibilityLocked lm) = g_autostart lm"
  "g_crash_loops (syncCompatibilityLocked lm) = g_crash_loops lm"
  "lm_progress_at (syncCompatibilityLocked lm) = lm_progress_at lm"
  "lm_progress_kind (syncCompatibilityLocked lm) = lm_progress_kind lm"
  "lm_shutdown (syncCompatibilityLocked lm) = lm_shutdown lm"
  "lm_started_at (syncCompatibilityLocked lm) = lm_started_at lm"
  "lm_pid (syncCompatibilityLocked lm) = lm_pid lm"
  by (simp_all add: syncCompatibilityLocked_def)

lemma emit_neutral [simp]: "neutral e \<Longrightarrow> lc_inv (emit e lm) = lc_inv lm"
  by (auto simp: lc_inv_def trace_ok_def phase_ok_def sync_ok_def emit_def live_process_append
      live_process_neutral split: option.splits)

text \<open>Fields the invariant does not look at.\<close>

lemma lc_inv_irrelevant [simp]:
  "lc_inv (lm\<lparr>lm_ops := w\<rparr>) = lc_inv lm"
  "lc_inv (lm\<lparr>lm_action := s\<rparr>) = lc_inv lm"
  "lc_inv (lm\<lparr>lm_last_error := s\<rparr>) = lc_inv lm"
  "lc_inv (lm\<lparr>lm_op_token := s\<rparr>) = lc_inv lm"
  "lc_inv (lm\<lparr>lm_op_kind := k\<rparr>) = lc_inv lm"
  "lc_inv (lm\<lparr>lm_op_save := s\<rparr>) = lc_inv lm"
  "lc_inv (lm\<lparr>lm_progress_at := t\<rparr>) = lc_inv lm"
  "lc_inv (lm\<lparr>lm_progress_kind := s\<rparr>) = lc_inv lm"
  "lc_inv (lm\<lparr>lm_shutdown := b\<rparr>) = lc_inv lm"
  "lc_inv (lm\<lparr>lm_health_queued := b\<rparr>) = lc_inv lm"
  "lc_inv (lm\<lparr>g_players := n\<rparr>) = lc_inv lm"
  "lc_inv (lm\<lparr>g_autostart := b\<rparr>) = lc_inv lm"
  "lc_inv (lm\<lparr>g_cfg_autostart := b\<rparr>) = lc_inv lm"
  "lc_inv (lm\<lparr>g_update_pending := b\<rparr>) = lc_inv lm"
  "lc_inv (lm\<lparr>g_crash_loops := k'\<rparr>) = lc_inv lm"
  "lc_inv (lm\<lparr>g_pending_save := s\<rparr>) = lc_inv lm"
  "lc_inv (lm\<lparr>g_new_map := b\<rparr>) = lc_inv lm"
  "lc_inv (lm\<lparr>g_relaunch_throttle := n\<rparr>) = lc_inv lm"
  "lc_inv (lm\<lparr>g_no_response := n\<rparr>) = lc_inv lm"
  "lc_inv (lm\<lparr>g_pipe := b\<rparr>) = lc_inv lm"
  by (simp_all add: lc_inv_def trace_ok_def phase_ok_def sync_ok_def)

lemma lc_inv_sync: "trace_ok lm \<Longrightarrow> phase_ok lm \<Longrightarrow> lc_inv (syncCompatibilityLocked lm)"
  by (simp add: lc_inv_def)

lemma lc_inv_sync_same [simp]: "lc_inv lm \<Longrightarrow> lc_inv (syncCompatibilityLocked lm)"
  by (simp add: lc_inv_def)

lemma clear_op_inv [simp]: "lc_inv (clear_op lm) = lc_inv lm"
  by (simp add: clear_op_def)

lemma SetAutolaunch_inv [simp]: "lc_inv (SetAutolaunch b lm) = lc_inv lm"
  by (simp add: SetAutolaunch_def)

lemma enqueue_sync_inv [simp]: "lc_inv lm \<Longrightarrow> lc_inv (syncCompatibilityLocked (enqueue r lm))"
  by (auto simp: lc_inv_def enqueue_def trace_ok_def phase_ok_def)

lemma reply_inv [simp]: "lc_inv (reply req err lm) = lc_inv lm"
  by (simp add: reply_def)

lemma count_crash_inv [simp]: "lc_inv (count_crash env t lm) = lc_inv lm"
  by (simp add: count_crash_def Let_def)

lemma inv_finishOperationError [simp]: "lc_inv (finishOperationError env e lm) = lc_inv lm"
  by (simp add: finishOperationError_def)

lemma inv_updateOperationProgress [simp]: "lc_inv (updateOperationProgress env d lm) = lc_inv lm"
  by (simp add: updateOperationProgress_def)

lemma inv_updateDelayed [simp]:
  "lc_inv (updateOperationProgressDelayedWithReminder env d r t lm) = lc_inv lm"
  by (simp add: updateOperationProgressDelayedWithReminder_def)

lemma inv_beginOperation [simp]: "lc_inv (beginOperation env req lm) = lc_inv lm"
  by (simp add: beginOperation_def Let_def split_def)

section \<open>The methods keep the invariant\<close>

text \<open>The state change at the heart of \<open>finalizeStopped\<close>.\<close>

lemma inv_stopped:
  assumes "lc_inv lm" "lm_phase lm \<noteq> Stopped" "lm_trace lm' = lm_trace lm @ [Exited (lm_generation lm)]"
    "lm_phase lm' = Stopped" "\<not> lm_booted lm'" "lm_pid lm' = 0" "lm_started_at lm' = zero_time"
    "\<not> lm_softmod_recovery lm'" "sync_ok lm'"
  shows "lc_inv lm'"
  using assms by (simp add: lc_inv_def trace_ok_def phase_ok_def live_process_append)

lemma inv_finalizeStopped:
  assumes "lc_inv lm"
  shows "lc_inv (finalizeStopped env g err report lm)"
proof (cases "(g \<noteq> lm_generation lm \<and> g \<noteq> 0) \<or> lm_phase lm = Stopped")
  case True
  then show ?thesis using assms by (auto simp: finalizeStopped_def)
next
  case False
  have "lc_inv (emit (Exited (lm_generation lm)) (mark_stopped env cont err lm))" for cont
    by (rule inv_stopped [OF assms]) (use False in \<open>simp_all add: emit_def mark_stopped_def
      Let_def clear_op_def sync_ok_def syncCompatibilityLocked_def\<close>)
  with assms show ?thesis
    using False by (simp add: finalizeStopped_def Let_def)
qed

lemma inv_handleExitEvent [simp]: "lc_inv lm \<Longrightarrow> lc_inv (handleExitEvent env g err lm)"
  by (simp add: handleExitEvent_def inv_finalizeStopped)

lemma inv_handleProgressEvent [simp]: "lc_inv lm \<Longrightarrow> lc_inv (handleProgressEvent env g k d t lm)"
  by (simp add: handleProgressEvent_def Let_def split_def)

lemma inv_handleReadyEvent [simp]: "lc_inv lm \<Longrightarrow> lc_inv (handleReadyEvent env g lm)"
proof (cases "g \<noteq> lm_generation lm \<or> lm_phase lm \<noteq> Starting")
  case True
  then show "lc_inv lm \<Longrightarrow> ?thesis" by (auto simp: handleReadyEvent_def)
next
  case False
  assume inv: "lc_inv lm"
  have "lc_inv (syncCompatibilityLocked (lm\<lparr>lm_phase := Running, lm_phase_since := e_now env,
                    lm_booted := True, lm_ready_at := e_now env\<rparr>))"
    using inv False by (intro lc_inv_sync) (auto simp: lc_inv_def trace_ok_def phase_ok_def)
  then show ?thesis
    using False by (auto simp: handleReadyEvent_def Let_def split: option.split action_kind.split)
qed

lemma inv_handleHealthEvent [simp]: "lc_inv lm \<Longrightarrow> lc_inv (handleHealthEvent env g k err lm)"
  by (auto simp: handleHealthEvent_def Let_def intro!: inv_finalizeStopped lc_inv_sync)
    (auto simp: lc_inv_def trace_ok_def phase_ok_def enqueue_def)

lemma inv_NotifySoftModDetected [simp]: "lc_inv lm \<Longrightarrow> lc_inv (NotifySoftModDetected g lm)"
  by (auto simp: NotifySoftModDetected_def lc_inv_def trace_ok_def phase_ok_def sync_ok_def)

lemma inv_launched:
  assumes "lc_inv lm" "lm_phase lm = Stopped" "lm_trace lm' = lm_trace lm @ [Launch (lm_generation lm') s]"
    "lm_phase lm' = Starting" "\<not> lm_booted lm'" "lm_softmod_recovery lm' \<longrightarrow> \<not> lm_softmod_detected lm'"
    "sync_ok lm'"
  shows "lc_inv lm'"
  using assms by (simp add: lc_inv_def trace_ok_def phase_ok_def live_process_append)

lemma inv_launch_failed:
  assumes "lc_inv lm" "lm_phase lm = Stopped" "lm_trace lm' = lm_trace lm @ [Launch g s, LaunchFailed g]"
    "lm_phase lm' = Stopped" "\<not> lm_booted lm'" "lm_pid lm' = 0" "lm_started_at lm' = zero_time"
    "\<not> lm_softmod_recovery lm'" "sync_ok lm'"
  shows "lc_inv lm'"
  using assms by (simp add: lc_inv_def trace_ok_def phase_ok_def live_process_append)

lemma sync_ok_emit [simp]: "sync_ok (emit e lm) = sync_ok lm"
  by (simp add: sync_ok_def emit_def)

lemma emit_fields [simp]:
  "lm_trace (emit e lm) = lm_trace lm @ [e]" "lm_phase (emit e lm) = lm_phase lm"
  "lm_booted (emit e lm) = lm_booted lm" "lm_pid (emit e lm) = lm_pid lm"
  "lm_started_at (emit e lm) = lm_started_at lm" "lm_generation (emit e lm) = lm_generation lm"
  "lm_softmod_recovery (emit e lm) = lm_softmod_recovery lm"
  "lm_softmod_detected (emit e lm) = lm_softmod_detected lm" "lm_queue (emit e lm) = lm_queue lm"
  "lm_ops (emit e lm) = lm_ops lm" "g_update_pending (emit e lm) = g_update_pending lm"
  "g_autostart (emit e lm) = g_autostart lm" "g_crash_loops (emit e lm) = g_crash_loops lm"
  "lm_progress_at (emit e lm) = lm_progress_at lm" "lm_progress_kind (emit e lm) = lm_progress_kind lm"
  "lm_shutdown (emit e lm) = lm_shutdown lm"
  by (simp_all add: emit_def)

lemma inv_executeStart:
  assumes "lc_inv lm"
  shows "lc_inv (snd (executeStart env save lm))"
proof (cases "lm_phase lm = Stopped \<and> \<not> e_update env \<and> \<not> e_modop env \<and> e_within_hours env")
  case False
  then show ?thesis using assms by (cases "lm_phase lm") (auto simp: executeStart_def)
next
  case True
  show ?thesis
  proof (cases "e_launch env")
    case (Inl err)
    show ?thesis
      by (rule inv_launch_failed [OF assms, where g = "lm_generation lm + 1" and s = save])
        (use True Inl in \<open>simp_all add: executeStart_def Let_def\<close>)
  next
    case (Inr pid)
    show ?thesis
      by (rule inv_launched [OF assms, where s = save])
        (use True Inr in \<open>simp_all add: executeStart_def Let_def\<close>)
  qed
qed

lemma inv_checkSoftMod [simp]: "lc_inv lm \<Longrightarrow> lc_inv (checkSoftModAfterUpdate env lm)"
  by (auto simp: checkSoftModAfterUpdate_def intro!: enqueue_sync_inv)
    (auto simp: lc_inv_def trace_ok_def phase_ok_def sync_ok_def)

lemma inv_waitForStop:
  assumes "lc_inv lm" "waitForStop env g dl allow seen ps lm = Some (b, t, lm', rest)"
  shows "lc_inv lm'"
  using assms
proof (induction env g dl allow seen ps lm rule: waitForStop.induct)
  case (2 env g dl allow seen p ps lm)
  then show ?case
    by (auto simp: Let_def inv_finalizeStopped split: if_splits wait_event.splits)
qed simp

lemma inv_stop_warning [simp]: "lc_inv (stop_warning r lm) = lc_inv lm"
  by (simp add: stop_warning_def)

lemma inv_begin_stop: "lc_inv lm \<Longrightarrow> lm_phase lm \<noteq> Stopped \<Longrightarrow> lc_inv (begin_stop env r lm)"
  by (auto simp: begin_stop_def Let_def intro!: lc_inv_sync)
    (auto simp: lc_inv_def trace_ok_def phase_ok_def)

lemma inv_executeStop:
  assumes "lc_inv lm" "executeStop env r polls lm = Some (err, lm')"
  shows "lc_inv lm'"
proof (cases "lm_phase lm = Stopped")
  case True
  then show ?thesis using assms by (auto simp: executeStop_def)
next
  case False
  then show ?thesis
    using assms inv_begin_stop [OF assms(1) False, of env r]
    by (auto simp: executeStop_def Let_def split: option.splits bool.splits
        dest!: inv_waitForStop [rotated])
qed

lemma inv_doChangeMap:
  "lc_inv lm \<Longrightarrow> lc_inv (snd (doChangeMapAfterStop env lm))"
  by (simp add: doChangeMapAfterStop_def split: option.split)

lemma inv_run_action:
  assumes "lc_inv lm" "run_action env after polls req lm = Some (err, lm')"
  shows "lc_inv lm'"
proof -
  note stop = inv_executeStop [where polls = polls and r = "r_reason req"]
  have change: "lc_inv lm2" if "doChangeMapAfterStop after lm1 = (e, lm2)" "lc_inv lm1" for lm1 e lm2
    using inv_doChangeMap [OF that(2), of after] that(1) by simp
  have start: "lc_inv lm2" if "executeStart en save lm1 = (e, lm2)" "lc_inv lm1" for en save lm1 e lm2
    using inv_executeStart [OF that(2), of en save] that(1) by simp
  show ?thesis
  proof (cases "r_kind req")
    case ActionStart
    with assms start show ?thesis by (auto simp: run_action_def)
  next
    case ActionStop
    with assms stop show ?thesis by (auto simp: run_action_def)
  next
    case ActionRestartFactorio
    then obtain e1 lm1 where 1: "executeStop env (r_reason req) polls lm = Some (e1, lm1)"
      using assms(2) by (auto simp: run_action_def split: option.splits)
    have inv: "lc_inv lm1" by (rule stop [OF assms(1) 1])
    with ActionRestartFactorio assms(2) 1 inv_executeStart [OF inv, of after] show ?thesis
      by (cases e1) (auto simp: run_action_def, metis snd_conv)
  next
    case ActionRestartChatWire
    with assms stop show ?thesis
      by (auto simp: run_action_def split: option.splits if_splits)
  next
    case ActionChangeMap
    then obtain e1 lm1 where 1: "executeStop env (r_reason req) polls (SetAutolaunch False lm) = Some (e1, lm1)"
      using assms(2) by (auto simp: run_action_def Let_def split: option.splits)
    have inv: "lc_inv lm1" by (rule stop [OF _ 1]) (simp add: assms(1))
    obtain e2 lm2 where 2: "doChangeMapAfterStop after lm1 = (e2, lm2)" by (cases "doChangeMapAfterStop after lm1")
    have "lc_inv lm2" by (rule change [OF 2 inv])
    then have "lc_inv (snd (executeStart after save (SetAutolaunch True lm2)))" for save
      by (intro inv_executeStart) simp
    with ActionChangeMap assms(2) 1 2 inv \<open>lc_inv lm2\<close> show ?thesis
      by (cases e1; cases e2) (auto simp: run_action_def Let_def, metis snd_conv)
  next
    case ActionMapReset
    then obtain e1 lm1 where 1: "executeStop env (r_reason req) polls (SetAutolaunch False lm) = Some (e1, lm1)"
      using assms(2) by (auto simp: run_action_def Let_def split: option.splits)
    have inv: "lc_inv lm1" by (rule stop [OF _ 1]) (simp add: assms(1))
    then have "lc_inv (snd (executeStart after save (SetAutolaunch True lm1)))" for save
      by (intro inv_executeStart) simp
    with ActionMapReset assms(2) 1 inv show ?thesis
      by (cases e1; cases "e_reset after") (auto simp: run_action_def Let_def, metis snd_conv)
  next
    case (ActionUnknown s)
    with assms show ?thesis by (simp add: run_action_def)
  qed
qed

lemma inv_execute:
  assumes "lc_inv lm" "execute env after polls req lm = Some lm'"
  shows "lc_inv lm'"
proof -
  have run: "lc_inv lm2" if "run_action env after polls req lm1 = Some (err, lm2)" "lc_inv lm1" for lm1 err lm2
    using inv_run_action that by blast
  show ?thesis
    using assms
    by (auto simp: execute_def Let_def split: sum.splits option.splits if_splits dest!: run)
qed

lemma inv_nextRequest: "lc_inv lm \<Longrightarrow> nextRequest env lm = Some (req, lm') \<Longrightarrow> lc_inv lm'"
  by (auto simp: nextRequest_def Let_def split: option.splits intro!: lc_inv_sync)
    (auto simp: lc_inv_def trace_ok_def phase_ok_def)

lemma inv_submit [simp]: "lc_inv lm \<Longrightarrow> lc_inv (snd (submitLifecycleRequest env req lm))"
  by (simp add: submitLifecycleRequest_def split: sum.split)

lemma inv_checkStartupTimeout [simp]: "lc_inv lm \<Longrightarrow> lc_inv (checkStartupTimeout env dur rid lm)"
  by (simp add: checkStartupTimeout_def Let_def)

lemma inv_reconcile [simp]: "lc_inv lm \<Longrightarrow> lc_inv (snd (reconcileProcessHealth env lm))"
  by (simp add: reconcileProcessHealth_def inv_finalizeStopped)

lemma inv_cancel_fold:
  "lc_inv (fold (\<lambda>req lm. reply req e
      (if r_snapshot req \<noteq> '''' then emit (RemoveSnapshot (r_snapshot req)) lm else lm)) rs lm) = lc_inv lm"
  by (induction rs arbitrary: lm) simp_all

lemma inv_cancelPendingRequests [simp]: "lc_inv lm \<Longrightarrow> lc_inv (cancelPendingRequests lm)"
  unfolding cancelPendingRequests_def inv_cancel_fold
  by (rule lc_inv_sync) (auto simp: lc_inv_def trace_ok_def phase_ok_def)

section \<open>Steps\<close>

definition lc_start :: "lifecycle \<Rightarrow> bool" where
  "lc_start lm \<longleftrightarrow> lm_phase lm = Stopped \<and> \<not> lm_booted lm \<and> lm_pid lm = 0 \<and> lm_generation lm = 0
     \<and> lm_started_at lm = zero_time \<and> \<not> lm_softmod_recovery lm \<and> lm_queue lm = [] \<and> lm_trace lm = []
     \<and> sync_ok lm"

text \<open>
  What can happen: an event arrives, a part of the loop body runs, a request is submitted or
  executed, the server starts by itself, the manager shuts down, or another part of the program
  changes a global.
\<close>

inductive lc_step :: "lifecycle \<Rightarrow> lifecycle \<Rightarrow> bool" where
  step_exit: "lc_step lm (handleExitEvent env g err lm)"
| step_ready: "lc_step lm (handleReadyEvent env g lm)"
| step_progress: "lc_step lm (handleProgressEvent env g kind detail at lm)"
| step_health: "lc_step lm (handleHealthEvent env g kind msg lm)"
| step_softmod: "lc_step lm (NotifySoftModDetected g lm)"
| step_reconcile: "lc_step lm (snd (reconcileProcessHealth env lm))"
| step_timeout: "lc_step lm (checkStartupTimeout env dur rid lm)"
| step_recovery: "lc_step lm (checkSoftModAfterUpdate env lm)"
| step_submit: "lc_step lm (snd (submitLifecycleRequest env req lm))"
| step_request: "nextRequest env lm = Some (req, lm1) \<Longrightarrow> execute env after polls req lm1 = Some lm' \<Longrightarrow>
    lc_step lm lm'"
| step_auto: "shouldAutoStart env lm \<Longrightarrow> execute env after polls (auto_request rid) lm = Some lm' \<Longrightarrow>
    lc_step lm lm'"
| step_shutdown: "lc_step lm (cancelPendingRequests (lm\<lparr>lm_shutdown := True\<rparr>))"
| step_players: "lc_step lm (lm\<lparr>g_players := n\<rparr>)"
| step_autolaunch: "lc_step lm (SetAutolaunch b lm)"
| step_updated: "lc_step lm (lm\<lparr>g_update_pending := True\<rparr>)"
| step_pipe: "lc_step lm (lm\<lparr>g_pipe := b\<rparr>)"

inductive_cases lc_stepE: "lc_step lm lm'"

lemma inv_step: "lc_step lm lm' \<Longrightarrow> lc_inv lm \<Longrightarrow> lc_inv lm'"
  by (induction rule: lc_step.induct) (auto intro: inv_execute inv_nextRequest)

interpretation manager: step_system lc_start lc_step lc_inv
proof unfold_locales
  show "lc_inv lm" if "lc_start lm" for lm
    using that by (simp add: lc_start_def lc_inv_def trace_ok_def phase_ok_def)
  show "lc_inv lm'" if "lc_inv lm" "lc_step lm lm'" for lm lm'
    using inv_step [OF that(2,1)] .
qed

section \<open>Launches and answers\<close>

fun is_launch :: "lc_effect \<Rightarrow> bool" where
  "is_launch (Launch g s) = True"
| "is_launch e = False"

fun answered :: "lc_effect \<Rightarrow> string list" where
  "answered (Reply rid err) = [rid]"
| "answered e = []"

definition launches :: "lifecycle \<Rightarrow> lc_effect list" where
  "launches lm = filter is_launch (lm_trace lm)"

text \<open>The callers that wait for an answer: those in the queue and those who got one.\<close>

definition waiting :: "lifecycle \<Rightarrow> string multiset" where
  "waiting lm = mset (map r_id (filter r_wait (lm_queue lm)))"

definition replied :: "lifecycle \<Rightarrow> string multiset" where
  "replied lm = mset (concat (map answered (lm_trace lm)))"

definition books :: "lifecycle \<Rightarrow> lc_effect list \<times> string multiset" where
  "books lm = (launches lm, waiting lm + replied lm)"

lemma books_cong: "lm_queue lm = lm_queue lm' \<Longrightarrow> lm_trace lm = lm_trace lm' \<Longrightarrow> books lm = books lm'"
  by (simp add: books_def launches_def waiting_def replied_def)

lemma books_emit [simp]: "\<not> is_launch e \<Longrightarrow> answered e = [] \<Longrightarrow> books (emit e lm) = books lm"
  by (simp add: books_def launches_def waiting_def replied_def)

lemma books_sync [simp]: "books (syncCompatibilityLocked lm) = books lm"
  by (rule books_cong) simp_all

lemma books_fields [simp]:
  "books (lm\<lparr>lm_ops := w\<rparr>) = books lm" "books (lm\<lparr>lm_action := s\<rparr>) = books lm"
  "books (lm\<lparr>lm_last_error := s\<rparr>) = books lm" "books (lm\<lparr>lm_progress_kind := s\<rparr>) = books lm"
  "books (lm\<lparr>lm_progress_at := t\<rparr>) = books lm" "books (lm\<lparr>lm_health_queued := b\<rparr>) = books lm"
  "books (lm\<lparr>lm_softmod_recovery := b\<rparr>) = books lm" "books (lm\<lparr>lm_softmod_detected := b\<rparr>) = books lm"
  "books (lm\<lparr>g_crash_loops := k\<rparr>) = books lm" "books (lm\<lparr>g_pending_save := s\<rparr>) = books lm"
  "books (lm\<lparr>g_new_map := b\<rparr>) = books lm" "books (lm\<lparr>g_relaunch_throttle := n\<rparr>) = books lm"
  "books (lm\<lparr>g_no_response := n\<rparr>) = books lm" "books (lm\<lparr>g_cfg_autostart := b\<rparr>) = books lm"
  "books (lm\<lparr>g_pipe := b\<rparr>) = books lm" "books (lm\<lparr>lm_shutdown := b\<rparr>) = books lm"
  "books (lm\<lparr>g_players := n\<rparr>) = books lm" "books (lm\<lparr>g_update_pending := b\<rparr>) = books lm"
  "books (lm\<lparr>g_autostart := b\<rparr>) = books lm"
  "books (lm\<lparr>lm_phase := p, lm_phase_since := t, lm_booted := b, lm_ready_at := t'\<rparr>) = books lm"
  "books (lm\<lparr>lm_phase := p, lm_phase_since := t\<rparr>) = books lm"
  by (rule books_cong; simp)+

lemma books_ops [simp]:
  "books (clear_op lm) = books lm" "books (SetAutolaunch b lm) = books lm"
  "books (count_crash env t lm) = books lm" "books (finishOperationError env e lm) = books lm"
  "books (updateOperationProgress env d lm) = books lm"
  "books (updateOperationProgressDelayedWithReminder env d r t lm) = books lm"
  "books (mark_stopped env c ee lm) = books lm"
  "books (beginOperation env req lm) = books lm"
proof -
  show "books (clear_op lm) = books lm" "books (SetAutolaunch b lm) = books lm"
    by (rule books_cong; simp add: clear_op_def SetAutolaunch_def)+
  then show "books (count_crash env t lm) = books lm" "books (finishOperationError env e lm) = books lm"
    by (simp_all add: count_crash_def Let_def finishOperationError_def SetAutolaunch_def)
  show "books (updateOperationProgress env d lm) = books lm"
    "books (updateOperationProgressDelayedWithReminder env d r t lm) = books lm"
    by (simp_all add: updateOperationProgress_def updateOperationProgressDelayedWithReminder_def)
  show "books (mark_stopped env c ee lm) = books lm"
    by (rule books_cong; simp add: mark_stopped_def Let_def clear_op_def)
  show "books (beginOperation env req lm) = books lm"
    by (rule books_cong; simp add: beginOperation_def Let_def split_def)
qed

lemma books_finalizeStopped [simp]: "books (finalizeStopped env g err report lm) = books lm"
  by (simp add: finalizeStopped_def Let_def)

lemma books_enqueue: "books (enqueue r lm) =
    (launches lm, waiting lm + replied lm + (if r_wait r then {#r_id r#} else {#}))"
  by (simp add: books_def enqueue_def launches_def waiting_def replied_def)

lemma books_enqueue_own [simp]: "books (enqueue (own_request k r i) lm) = books lm"
  by (simp add: books_enqueue own_request_def) (simp add: books_def)

lemma books_events [simp]:
  "books (handleExitEvent env g err lm) = books lm"
  "books (handleProgressEvent env g k d t lm) = books lm"
  "books (handleReadyEvent env g lm) = books lm"
  "books (handleHealthEvent env g k e lm) = books lm"
  "books (NotifySoftModDetected g lm) = books lm"
  "books (snd (reconcileProcessHealth env lm)) = books lm"
  "books (checkSoftModAfterUpdate env lm) = books lm"
  by (simp_all add: handleExitEvent_def handleProgressEvent_def handleReadyEvent_def Let_def
      handleHealthEvent_def NotifySoftModDetected_def reconcileProcessHealth_def
      checkSoftModAfterUpdate_def split_def split: option.split action_kind.split)

lemma books_waitForStop:
  "waitForStop env g dl allow seen ps lm = Some (b, t, lm', rest) \<Longrightarrow> books lm' = books lm"
proof (induction env g dl allow seen ps lm rule: waitForStop.induct)
  case (2 env g dl allow seen p ps lm)
  then show ?case by (auto simp: Let_def split: if_splits wait_event.splits)
qed simp

lemma books_begin_stop [simp]: "books (begin_stop env r lm) = books lm"
proof -
  have "books (stop_warning r' lm') = books lm'" for r' lm' by (simp add: stop_warning_def)
  then show ?thesis by (simp add: begin_stop_def Let_def)
qed

lemma books_executeStop: "executeStop env r polls lm = Some (err, lm') \<Longrightarrow> books lm' = books lm"
  by (auto simp: executeStop_def Let_def split: if_splits option.splits bool.splits
      dest!: books_waitForStop)

end
