(* ===== verification/Lifecycle_Properties.thy ===== *)
theory Lifecycle_Properties
  imports Lifecycle_Facts
begin

text \<open>
  The properties of the lifecycle manager, with the runs that witness them.
\<close>

section \<open>A first run\<close>

definition idle_manager :: lifecycle where
  "idle_manager = \<lparr>lm_phase = Stopped, lm_phase_since = 0, lm_booted = False, lm_pid = 0,
     lm_generation = 0, lm_action = '''', lm_last_error = '''', lm_started_at = 0, lm_ready_at = 0,
     lm_queue = [], lm_shutdown = False, lm_health_queued = False, lm_softmod_detected = False,
     lm_softmod_recovery = False, lm_op_token = '''', lm_op_kind = None, lm_op_save = '''',
     lm_progress_at = 0, lm_progress_kind = '''', g_fact_running = False, g_fact_booted = False,
     g_booted_at = 0, g_players = 0, g_queue_reboot = False, g_queue_fact_reboot = False,
     g_do_reboot_cw = False, g_autostart = True, g_update_pending = False, g_crash_loops = 0,
     g_cfg_autostart = True, g_pending_save = '''', g_new_map = False, g_relaunch_throttle = 0,
     g_no_response = 0, g_pipe = False, lm_ops = quiet_world, lm_trace = []\<rparr>"

definition calm_env :: lc_env where
  "calm_env = \<lparr>e_now = 1000 * second_ns, e_update = False, e_modop = False, e_within_hours = True,
     e_inject = True, e_alive = True, e_launch = Inr (Some 42), e_prepare = None,
     e_reset = Inr ''new.zip'', e_stage = Inr ''snap.zip'', e_before_exit = None, e_exit_hook = True,
     e_new_save = ''map_new.zip'', e_token = ''op-1'', e_chan = False, e_delete = (\<lambda>_. True)\<rparr>"

lemma idle_start: "lc_start idle_manager"
  by (simp add: lc_start_def idle_manager_def sync_ok_def)

text \<open>The first automatic start.\<close>

definition first_boot :: lifecycle where
  "first_boot = the (execute calm_env calm_env [] (auto_request ''auto-1'') idle_manager)"

lemma first_boot_step: "lc_step idle_manager first_boot"
proof (rule step_auto [of calm_env _ calm_env "[]" "''auto-1''"])
  show "shouldAutoStart calm_env idle_manager"
    by (simp add: shouldAutoStart_def idle_manager_def calm_env_def)
  show "execute calm_env calm_env [] (auto_request ''auto-1'') idle_manager = Some first_boot"
    unfolding first_boot_def
    by (simp add: execute_def auto_request_def own_request_def run_action_def Let_def split_def)
qed

section \<open>Launches are guarded\<close>

lemma books_executeStart:
  assumes "executeStart env save lm = (err, lm')"
  shows "snd (books lm') = snd (books lm) \<and> (launches lm' = launches lm \<or>
    (lm_phase lm = Stopped \<and> \<not> e_update env \<and> \<not> e_modop env \<and> e_within_hours env
     \<and> launches lm' = launches lm @ [Launch (lm_generation lm + 1) save]))"
  using assms
  by (cases "lm_phase lm") (auto simp: executeStart_def Let_def books_def launches_def waiting_def replied_def
      split: if_splits sum.splits)

lemma books_split: "books a = books b \<Longrightarrow> launches a = launches b \<and> snd (books a) = snd (books b)"
  by (simp add: books_def)

lemma books_doChange: "doChangeMapAfterStop env lm = (e, lm') \<Longrightarrow> books lm' = books lm"
  by (auto simp: doChangeMapAfterStop_def split: option.splits)

text \<open>What a request may add to the launches: nothing, or one launch under the guards.\<close>

definition guarded_launch :: "lc_env \<Rightarrow> lifecycle \<Rightarrow> lifecycle \<Rightarrow> bool" where
  "guarded_launch env lm lm' \<longleftrightarrow> snd (books lm') = snd (books lm) \<and>
     (launches lm' = launches lm \<or>
      (\<exists>g s. \<not> e_update env \<and> \<not> e_modop env \<and> e_within_hours env \<and> launches lm' = launches lm @ [Launch g s]))"

lemma guarded_refl: "books lm' = books lm \<Longrightarrow> guarded_launch env lm lm'"
  by (simp add: guarded_launch_def books_def)

lemma guarded_cong: "books a = books b \<Longrightarrow> guarded_launch env a c \<Longrightarrow> guarded_launch env b c"
  using books_split [of a b] by (auto simp: guarded_launch_def)

lemma guarded_start:
  assumes "executeStart env save lm1 = (err, lm')" "books lm1 = books lm"
  shows "guarded_launch env lm lm'"
  using books_executeStart [OF assms(1)] books_split [OF assms(2)] by (auto simp: guarded_launch_def)

lemma run_action_guarded:
  assumes "run_action env after polls req lm = Some (err, lm')"
  shows "guarded_launch (if r_kind req = ActionStart then env else after) lm lm'"
proof -
  have stopped: "books lm1 = books lm0" if "executeStop env r ps lm0 = Some (e, lm1)" for r ps lm0 e lm1
    using books_executeStop that by blast
  show ?thesis
  proof (cases "r_kind req")
    case ActionStart
    with assms guarded_start show ?thesis by (auto simp: run_action_def)
  next
    case ActionStop
    with assms stopped show ?thesis by (auto simp: run_action_def intro!: guarded_refl)
  next
    case ActionRestartFactorio
    then obtain e1 lm1 where 1: "executeStop env (r_reason req) polls lm = Some (e1, lm1)"
      using assms by (auto simp: run_action_def split: option.splits)
    show ?thesis
      using ActionRestartFactorio assms 1 stopped [OF 1]
      by (cases e1) (auto simp: run_action_def intro: guarded_start guarded_refl)
  next
    case ActionRestartChatWire
    then obtain e1 lm1 where 1: "executeStop env (r_reason req) polls lm = Some (e1, lm1)"
      using assms by (auto simp: run_action_def split: option.splits)
    show ?thesis
      using ActionRestartChatWire assms 1 stopped [OF 1]
      by (cases e1) (auto simp: run_action_def intro!: guarded_refl split: if_splits option.splits)
  next
    case ActionChangeMap
    then obtain e1 lm1 where 1: "executeStop env (r_reason req) polls (SetAutolaunch False lm) = Some (e1, lm1)"
      using assms by (auto simp: run_action_def Let_def split: option.splits)
    obtain e2 lm2 where 2: "doChangeMapAfterStop after lm1 = (e2, lm2)" by (cases "doChangeMapAfterStop after lm1")
    show ?thesis
      using ActionChangeMap assms 1 2 stopped [OF 1] books_doChange [OF 2]
      by (cases e1; cases e2) (auto simp: run_action_def Let_def intro: guarded_start guarded_refl)
  next
    case ActionMapReset
    then obtain e1 lm1 where 1: "executeStop env (r_reason req) polls (SetAutolaunch False lm) = Some (e1, lm1)"
      using assms by (auto simp: run_action_def Let_def split: option.splits)
    show ?thesis
      using ActionMapReset assms 1 stopped [OF 1]
      by (cases e1; cases "e_reset after")
        (auto simp: run_action_def Let_def intro: guarded_start guarded_refl)
  next
    case (ActionUnknown s)
    with assms show ?thesis by (simp add: run_action_def guarded_refl)
  qed
qed

lemma books_reply:
  "launches (reply req err lm) = launches lm"
  "waiting (reply req err lm) = waiting lm"
  "replied (reply req err lm) = replied lm + (if r_wait req then {#r_id req#} else {#})"
  by (simp_all add: reply_def launches_def waiting_def replied_def)

lemma books_after_reply:
  "launches (if c then emit (RemoveSnapshot x) lm else lm) = launches lm"
  "snd (books (if c then emit (RemoveSnapshot x) lm else lm)) = snd (books lm)"
  "snd (books (reply req err lm)) = snd (books lm) + (if r_wait req then {#r_id req#} else {#})"
  by (simp_all add: books_def books_reply) (simp_all add: launches_def waiting_def replied_def)

lemma execute_books:
  assumes "execute env after polls req lm = Some lm'"
  shows "\<exists>lm2. guarded_launch (if r_kind req = ActionStart then env else after) lm lm2 \<and>
    launches lm' = launches lm2 \<and>
    snd (books lm') = snd (books lm2) + (if r_wait req then {#r_id req#} else {#})"
proof (cases "if r_kind req = ActionChangeMap \<and> r_snapshot req = '''' then e_stage env else Inr (r_snapshot req)")
  case (Inl err)
  with assms have "lm' = reply req (Some err) (lm\<lparr>lm_action := '''', lm_last_error := err\<rparr>)"
    by (simp add: execute_def)
  then show ?thesis
    by (intro exI [of _ "lm\<lparr>lm_action := '''', lm_last_error := err\<rparr>"])
      (simp add: guarded_refl books_after_reply books_reply(1))
next
  case (Inr snapshot)
  let ?lm1 = "if \<not> requestNoop lm req then beginOperation env req lm else lm"
  obtain err lm2 where run: "run_action env after polls req ?lm1 = Some (err, lm2)"
    using assms Inr by (auto simp: execute_def Let_def split: option.splits)
  let ?lm3 = "syncCompatibilityLocked (lm2\<lparr>lm_action := '''',
    lm_last_error := (case err of Some e \<Rightarrow> e | None \<Rightarrow> lm_last_error lm2)\<rparr>)"
  let ?lm4 = "case err of Some e \<Rightarrow> if \<not> requestNoop lm req then finishOperationError after e ?lm3 else ?lm3
    | None \<Rightarrow> ?lm3"
  have lm': "lm' = (if snapshot \<noteq> '''' then emit (RemoveSnapshot snapshot) (reply req err ?lm4) else reply req err ?lm4)"
    using assms Inr run by (simp add: execute_def Let_def)
  have "books ?lm4 = books lm2" by (cases err) simp_all
  note same = books_split [OF this]
  have "guarded_launch (if r_kind req = ActionStart then env else after) lm lm2"
    by (rule guarded_cong [OF _ run_action_guarded [OF run]]) simp
  then show ?thesis
    using same books_after_reply books_reply(1) unfolding lm' by (intro exI [of _ lm2]) (simp only:)
qed

text \<open>
  C26.  Executing a request launches at most one process, and only while no Factorio update and
  no mod operation is in progress and within the play hours -- for a restart, a map change or a
  reset these are checked again after the old process has stopped.
\<close>

theorem launch_is_guarded:
  assumes "execute env after polls req lm = Some lm'"
    and "launches lm' \<noteq> launches lm"
    and "at_launch = (if r_kind req = ActionStart then env else after)"
  shows "\<not> e_update at_launch \<and> \<not> e_modop at_launch \<and> e_within_hours at_launch
    \<and> (\<exists>g save. launches lm' = launches lm @ [Launch g save])"
  using execute_books [OF assms(1)] assms(2,3) unfolding guarded_launch_def by auto

lemma first_boot_launches: "launches first_boot = [Launch 1 '''']"
  by (simp add: first_boot_def execute_def auto_request_def own_request_def run_action_def Let_def split_def
      requestNoop_def idle_manager_def executeStart_def calm_env_def launches_def reply_def beginOperation_def)

theorem launch_is_guarded_witness:
  "\<not> e_update calm_env \<and> (\<exists>g save. launches first_boot = launches idle_manager @ [Launch g save])"
proof -
  have "execute calm_env calm_env [] (auto_request ''auto-1'') idle_manager = Some first_boot"
    unfolding first_boot_def
    by (simp add: execute_def auto_request_def own_request_def run_action_def Let_def split_def)
  moreover have "launches first_boot \<noteq> launches idle_manager"
    unfolding first_boot_launches by (simp add: launches_def idle_manager_def)
  ultimately show ?thesis using launch_is_guarded by (metis auto_request_def own_request_def request.select_convs(1))
qed

section \<open>Every caller is answered\<close>

text \<open>What the scan finds: the first request of the highest priority among the runnable ones.\<close>

definition best_from :: "lc_env \<Rightarrow> lifecycle \<Rightarrow> request list \<Rightarrow> nat \<Rightarrow> bool" where
  "best_from env lm rs k \<longleftrightarrow> k < length rs \<and> requestRunnableLocked env lm (rs ! k) \<and>
     (\<forall>j < length rs. requestRunnableLocked env lm (rs ! j) \<longrightarrow>
        actionPriority (r_kind (rs ! j)) \<le> actionPriority (r_kind (rs ! k)) \<and>
        (j < k \<longrightarrow> actionPriority (r_kind (rs ! j)) < actionPriority (r_kind (rs ! k))))"

lemma scan_invariant:
  assumes "rs = seen @ rest" "i = length seen"
    "case best of None \<Rightarrow> \<not> list_ex (requestRunnableLocked env lm) seen
      | Some (k, score) \<Rightarrow> best_from env lm seen k \<and> score = actionPriority (r_kind (seen ! k))"
  shows "case scan_requests env lm i rest best of
      None \<Rightarrow> \<not> list_ex (requestRunnableLocked env lm) rs
    | Some (k, score) \<Rightarrow> best_from env lm rs k"
  using assms
proof (induction rest arbitrary: seen i best)
  case Nil
  then show ?case by (auto split: option.splits)
next
  case (Cons r rest)
  let ?best = "if \<not> requestRunnableLocked env lm r then best
        else let score = actionPriority (r_kind r) in
          case best of None \<Rightarrow> Some (i, score)
          | Some (j, bestScore) \<Rightarrow> if bestScore < score then Some (i, score) else best"
  have "case ?best of None \<Rightarrow> \<not> list_ex (requestRunnableLocked env lm) (seen @ [r])
      | Some (k, score) \<Rightarrow> best_from env lm (seen @ [r]) k \<and> score = actionPriority (r_kind ((seen @ [r]) ! k))"
  proof (cases best)
    case None
    with Cons.prems(2,3) show ?thesis
      by (auto simp: best_from_def Let_def nth_append less_Suc_eq list_ex_iff)
  next
    case (Some b)
    then obtain k score where b: "b = (k, score)" "best_from env lm seen k" "score = actionPriority (r_kind (seen ! k))"
      using Cons.prems(3) by (cases b) auto
    then have "k < length seen" by (simp add: best_from_def)
    with b Cons.prems(2) Some show ?thesis
      by (auto simp: best_from_def Let_def nth_append less_Suc_eq)
  qed
  moreover have "rs = (seen @ [r]) @ rest" "Suc i = length (seen @ [r])" using Cons.prems by simp_all
  ultimately show ?case using Cons.IH [of "seen @ [r]" "Suc i" ?best] by (simp only: scan_requests.simps)
qed

lemma scan_queue:
  "case scan_requests env lm 0 rs None of
      None \<Rightarrow> \<not> list_ex (requestRunnableLocked env lm) rs
    | Some (k, score) \<Rightarrow> best_from env lm rs k"
  by (rule scan_invariant [where seen = "[]"]) simp_all

lemma nextRequest_spec:
  assumes "nextRequest env lm = Some (req, lm1)"
  obtains k where "best_from env lm (lm_queue lm) k" "req = lm_queue lm ! k"
    "lm1 = syncCompatibilityLocked (lm\<lparr>lm_queue := take k (lm_queue lm) @ drop (Suc k) (lm_queue lm),
        lm_action := action_name (r_kind req)\<rparr>)"
  using assms scan_queue [of env lm "lm_queue lm"]
  by (auto simp: nextRequest_def Let_def split: option.splits)

text \<open>
  The manager takes the requests in order of importance: whenever some queued request may
  run, one is taken; it is a runnable one of the highest priority, the oldest of these, and the
  others stay queued in their order.
\<close>

theorem next_request_is_best:
  "(nextRequest env lm = None \<longleftrightarrow> (\<forall>r \<in> set (lm_queue lm). \<not> requestRunnableLocked env lm r)) \<and>
   (\<forall>req lm1. nextRequest env lm = Some (req, lm1) \<longrightarrow>
     (\<exists>before after. lm_queue lm = before @ req # after \<and> lm_queue lm1 = before @ after
       \<and> requestRunnableLocked env lm req
       \<and> (\<forall>r \<in> set after. requestRunnableLocked env lm r \<longrightarrow> actionPriority (r_kind r) \<le> actionPriority (r_kind req))
       \<and> (\<forall>r \<in> set before. requestRunnableLocked env lm r \<longrightarrow> actionPriority (r_kind r) < actionPriority (r_kind req))))"
proof (intro conjI allI impI)
  show "nextRequest env lm = None \<longleftrightarrow> (\<forall>r \<in> set (lm_queue lm). \<not> requestRunnableLocked env lm r)"
    using scan_queue [of env lm "lm_queue lm"]
    by (auto simp: nextRequest_def Let_def list_ex_iff best_from_def split: option.splits)
next
  fix req lm1
  assume "nextRequest env lm = Some (req, lm1)"
  then obtain k where k: "best_from env lm (lm_queue lm) k" "req = lm_queue lm ! k"
    "lm1 = syncCompatibilityLocked (lm\<lparr>lm_queue := take k (lm_queue lm) @ drop (Suc k) (lm_queue lm),
        lm_action := action_name (r_kind req)\<rparr>)"
    by (rule nextRequest_spec)
  let ?q = "lm_queue lm"
  have "?q = take k ?q @ req # drop (Suc k) ?q"
    using k(1,2) by (simp add: best_from_def id_take_nth_drop)
  moreover have "actionPriority (r_kind r) \<le> actionPriority (r_kind req)"
    if "r \<in> set (drop (Suc k) ?q)" "requestRunnableLocked env lm r" for r
    using that k(1,2) unfolding best_from_def by (metis in_set_dropD in_set_conv_nth)
  moreover have "actionPriority (r_kind r) < actionPriority (r_kind req)"
    if r: "r \<in> set (take k ?q)" "requestRunnableLocked env lm r" for r
  proof -
    obtain j where "j < k" "j < length ?q" "r = ?q ! j"
      using r(1) by (auto simp: in_set_conv_nth)
    with r(2) k(1,2) show ?thesis unfolding best_from_def by blast
  qed
  ultimately show "\<exists>before after. ?q = before @ req # after \<and> lm_queue lm1 = before @ after
       \<and> requestRunnableLocked env lm req
       \<and> (\<forall>r \<in> set after. requestRunnableLocked env lm r \<longrightarrow> actionPriority (r_kind r) \<le> actionPriority (r_kind req))
       \<and> (\<forall>r \<in> set before. requestRunnableLocked env lm r \<longrightarrow> actionPriority (r_kind r) < actionPriority (r_kind req))"
    using k by (intro exI [of _ "take k ?q"] exI [of _ "drop (Suc k) ?q"]) (auto simp: best_from_def)
qed

definition two_requests :: lifecycle where
  "two_requests = idle_manager\<lparr>lm_queue := [own_request ActionStart ''a'' ''req-1'',
     own_request ActionMapReset ''b'' ''req-2'', own_request ActionChangeMap ''c'' ''req-3'']\<rparr>"

theorem next_request_is_best_witness:
  "\<exists>req lm1 before after. nextRequest calm_env two_requests = Some (req, lm1) \<and> r_id req = ''req-2'' \<and>
    lm_queue two_requests = before @ req # after \<and> lm_queue lm1 = before @ after"
proof -
  obtain req lm1 where run: "nextRequest calm_env two_requests = Some (req, lm1)" "r_id req = ''req-2''"
    by (simp add: nextRequest_def two_requests_def own_request_def requestRunnableLocked_def calm_env_def Let_def)
  with next_request_is_best [THEN conjunct2, rule_format, OF run(1)] show ?thesis by blast
qed

lemma remove_waiting:
  "k < length q \<Longrightarrow> mset (map r_id (filter r_wait (take k q @ drop (Suc k) q)))
     + (if r_wait (q ! k) then {#r_id (q ! k)#} else {#}) = mset (map r_id (filter r_wait q))"
proof -
  assume "k < length q"
  then have "q = take k q @ q ! k # drop (Suc k) q" by (rule id_take_nth_drop)
  then have "mset (map r_id (filter r_wait q)) = mset (map r_id (filter r_wait (take k q @ q ! k # drop (Suc k) q)))"
    by simp
  then show ?thesis by (simp del: append_take_drop_id)
qed

lemma waiting_nextRequest:
  assumes "nextRequest env lm = Some (req, lm1)"
  shows "launches lm1 = launches lm"
    "snd (books lm1) + (if r_wait req then {#r_id req#} else {#}) = snd (books lm)"
proof -
  obtain k where k: "best_from env lm (lm_queue lm) k" "req = lm_queue lm ! k"
    "lm1 = syncCompatibilityLocked (lm\<lparr>lm_queue := take k (lm_queue lm) @ drop (Suc k) (lm_queue lm),
        lm_action := action_name (r_kind req)\<rparr>)"
    by (rule nextRequest_spec [OF assms])
  show "launches lm1 = launches lm" by (simp add: k(3) launches_def)
  have "waiting lm1 + (if r_wait req then {#r_id req#} else {#}) = waiting lm"
    using remove_waiting [of k "lm_queue lm"] k
    by (auto simp: waiting_def best_from_def split: if_splits)
  moreover have "replied lm1 = replied lm" by (simp add: k(3) replied_def)
  ultimately show "snd (books lm1) + (if r_wait req then {#r_id req#} else {#}) = snd (books lm)"
    by (simp add: books_def)
qed

definition cancel_one :: "string \<Rightarrow> request \<Rightarrow> lifecycle \<Rightarrow> lifecycle" where
  "cancel_one e req lm = reply req (Some e)
     (if r_snapshot req \<noteq> '''' then emit (RemoveSnapshot (r_snapshot req)) lm else lm)"

lemma cancel_one_fields:
  "replied (cancel_one e r lm) = replied lm + (if r_wait r then {#r_id r#} else {#})"
  "lm_queue (cancel_one e r lm) = lm_queue lm"
  by (simp_all add: cancel_one_def reply_def replied_def)

lemma cancel_answers: "replied (fold (cancel_one e) rs lm) = replied lm + mset (map r_id (filter r_wait rs))"
  by (induction rs arbitrary: lm) (simp_all add: cancel_one_fields)

lemma cancel_queue: "lm_queue (fold (cancel_one e) rs lm) = lm_queue lm"
  by (induction rs arbitrary: lm) (simp_all add: cancel_one_fields)

lemma cancel_shutdown: "lm_shutdown (fold (cancel_one e) rs lm) = lm_shutdown lm"
proof (induction rs arbitrary: lm)
  case (Cons r rs)
  have "lm_shutdown (cancel_one e r lm) = lm_shutdown lm" by (simp add: cancel_one_def reply_def)
  then show ?case by (simp add: Cons.IH)
qed simp

lemma cancelPendingRequests_alt:
  "cancelPendingRequests lm = fold (cancel_one ''lifecycle manager stopped before request completed'')
     (lm_queue lm) (syncCompatibilityLocked (lm\<lparr>lm_queue := []\<rparr>))"
  by (simp add: cancelPendingRequests_def cancel_one_def [abs_def])

text \<open>The step that submits a request, as seen by its caller.\<close>

definition accepted_wait :: "lc_env \<Rightarrow> request \<Rightarrow> lifecycle \<Rightarrow> string multiset" where
  "accepted_wait env req lm =
     (if fst (submitLifecycleRequest env req lm) = None \<and> r_wait req then {#r_id req#} else {#})"

lemma submit_ledger:
  "snd (books (snd (submitLifecycleRequest env req lm))) = snd (books lm) + accepted_wait env req lm"
proof -
  have own: "snd (books (enqueue (req\<lparr>r_snapshot := s\<rparr>) lm)) = snd (books lm) + (if r_wait req then {#r_id req#} else {#})" for s
    by (simp add: books_enqueue) (simp add: books_def)
  show ?thesis
    by (auto simp: submitLifecycleRequest_def accepted_wait_def own split: sum.split)
qed

lemma checkStartupTimeout_ledger: "snd (books (checkStartupTimeout env dur rid lm)) = snd (books lm)"
  by (simp add: checkStartupTimeout_def Let_def submit_ledger accepted_wait_def own_request_def)

lemma ledger_step:
  assumes "lc_step lm lm'"
  shows "waiting lm' + replied lm' = waiting lm + replied lm \<or>
     (\<exists>env req. lm' = snd (submitLifecycleRequest env req lm) \<and>
        waiting lm' + replied lm' = waiting lm + replied lm + accepted_wait env req lm)"
proof -
  have same: "waiting a + replied a = waiting b + replied b" if "books a = books b" for a b
    using that by (simp add: books_def)
  from assms show ?thesis
  proof (cases rule: lc_step.cases)
    case (step_submit env req)
    then show ?thesis using submit_ledger [of env req lm] by (auto simp: books_def)
  next
    case (step_timeout env dur rid)
    then show ?thesis using checkStartupTimeout_ledger [of env dur rid lm] by (simp add: books_def)
  next
    case (step_request env req lm1 after polls)
    then obtain lm2 where "guarded_launch (if r_kind req = ActionStart then env else after) lm1 lm2"
      "snd (books lm') = snd (books lm2) + (if r_wait req then {#r_id req#} else {#})"
      using execute_books by blast
    then have "snd (books lm') = snd (books lm1) + (if r_wait req then {#r_id req#} else {#})"
      by (simp add: guarded_launch_def)
    with waiting_nextRequest(2) [OF step_request(1)] show ?thesis by (simp add: books_def)
  next
    case (step_auto env after polls rid)
    then obtain lm2 where "guarded_launch (if r_kind (auto_request rid) = ActionStart then env else after) lm lm2"
      "snd (books lm') = snd (books lm2) + (if r_wait (auto_request rid) then {#r_id (auto_request rid)#} else {#})"
      using execute_books by blast
    then show ?thesis by (simp add: guarded_launch_def auto_request_def own_request_def books_def)
  next
    case step_shutdown
    have "replied (syncCompatibilityLocked (lm\<lparr>lm_shutdown := True, lm_queue := []\<rparr>)) = replied lm"
      by (simp add: replied_def)
    with step_shutdown show ?thesis
      by (simp add: cancelPendingRequests_alt cancel_answers cancel_queue waiting_def)
  qed (rule disjI1, rule same, simp)+
qed

text \<open>The callers in the queue change only by a request that is accepted, taken or cancelled.\<close>

definition queued :: "lifecycle \<Rightarrow> bool \<times> request list" where
  "queued lm = (lm_shutdown lm, filter r_wait (lm_queue lm))"

lemma queued_basic [simp]:
  "queued (emit e lm) = queued lm" "queued (syncCompatibilityLocked lm) = queued lm" "queued (clear_op lm) = queued lm"
  "queued (SetAutolaunch b lm) = queued lm" "queued (finishOperationError env err lm) = queued lm"
  "queued (updateOperationProgress env d lm) = queued lm" "queued (updateOperationProgressDelayedWithReminder env d r0 t lm) = queued lm"
  "queued (beginOperation env req lm) = queued lm" "queued (enqueue (own_request ak s i) lm) = queued lm" "queued (reply req er lm) = queued lm"
  "queued (count_crash env t lm) = queued lm" "queued (mark_stopped env c ee lm) = queued lm"
  by (simp_all add: queued_def emit_def clear_op_def SetAutolaunch_def finishOperationError_def updateOperationProgress_def
      updateOperationProgressDelayedWithReminder_def beginOperation_def Let_def split_def enqueue_def own_request_def reply_def
      count_crash_def mark_stopped_def)

lemma queued_fields [simp]:
  "queued (lm\<lparr>lm_ops := w\<rparr>) = queued lm" "queued (lm\<lparr>lm_last_error := s\<rparr>) = queued lm" "queued (lm\<lparr>lm_health_queued := b\<rparr>) = queued lm"
  "queued (lm\<lparr>lm_softmod_recovery := b\<rparr>) = queued lm" "queued (lm\<lparr>lm_softmod_detected := b, lm_softmod_recovery := b'\<rparr>) = queued lm"
  "queued (lm\<lparr>lm_softmod_detected := b\<rparr>) = queued lm" "queued (lm\<lparr>lm_progress_at := t, lm_progress_kind := s\<rparr>) = queued lm" "queued (lm\<lparr>g_crash_loops := n\<rparr>) = queued lm"
  "queued (lm\<lparr>g_pending_save := s, g_new_map := b\<rparr>) = queued lm" "queued (lm\<lparr>lm_action := s\<rparr>) = queued lm"
  "queued (lm\<lparr>lm_action := s, lm_last_error := s'\<rparr>) = queued lm"
  "queued (lm\<lparr>lm_phase := p, lm_phase_since := t, lm_booted := b, lm_ready_at := t'\<rparr>) = queued lm"
  by (simp_all add: queued_def)

lemma queued_events [simp]:
  "queued (finalizeStopped env g err rep lm) = queued lm" "queued (handleExitEvent env g err lm) = queued lm"
  "queued (handleProgressEvent env g k d t lm) = queued lm" "queued (handleReadyEvent env g lm) = queued lm"
  "queued (handleHealthEvent env g k e lm) = queued lm" "queued (NotifySoftModDetected g lm) = queued lm"
  "queued (snd (reconcileProcessHealth env lm)) = queued lm" "queued (checkSoftModAfterUpdate env lm) = queued lm"
  by (simp_all add: finalizeStopped_def handleExitEvent_def handleProgressEvent_def handleReadyEvent_def Let_def handleHealthEvent_def
      NotifySoftModDetected_def reconcileProcessHealth_def checkSoftModAfterUpdate_def split_def split: option.split action_kind.split)

lemma queued_wait: "waitForStop env g dl allow seen ps lm = Some (b, t, lm', rest) \<Longrightarrow> queued lm' = queued lm"
proof (induction env g dl allow seen ps lm rule: waitForStop.induct)
  case (2 env g dl allow seen p ps lm)
  then show ?case by (auto simp: Let_def split: if_splits wait_event.splits)
qed simp

lemma queued_begin_stop [simp]: "queued (begin_stop env r lm) = queued lm"
proof -
  have "queued (stop_warning r' x) = queued x" for r' x by (simp add: stop_warning_def)
  then show ?thesis by (auto simp: begin_stop_def Let_def) (auto simp: queued_def)
qed

lemma queued_stop: "executeStop env r polls lm = Some (err, lm') \<Longrightarrow> queued lm' = queued lm"
  by (auto simp: executeStop_def Let_def split: if_splits option.splits bool.splits dest!: queued_wait)

lemma queued_start: "executeStart env save lm = (err, lm') \<Longrightarrow> queued lm' = queued lm"
  by (cases "lm_phase lm") (auto simp: executeStart_def Let_def queued_def split: if_splits sum.splits)

lemma queued_doChange: "doChangeMapAfterStop env lm = (e, lm') \<Longrightarrow> queued lm' = queued lm"
  by (auto simp: doChangeMapAfterStop_def queued_def split: option.splits)

lemma queued_run_action:
  assumes "run_action env after polls req lm = Some (err, lm')"
  shows "queued lm' = queued lm"
proof (cases "r_kind req")
  case ActionChangeMap
  then obtain e1 lm1 where 1: "executeStop env (r_reason req) polls (SetAutolaunch False lm) = Some (e1, lm1)"
    using assms by (auto simp: run_action_def Let_def split: option.splits)
  obtain e2 lm2 where 2: "doChangeMapAfterStop after lm1 = (e2, lm2)" by (cases "doChangeMapAfterStop after lm1")
  show ?thesis using ActionChangeMap assms 1 2 queued_stop [OF 1] queued_doChange [OF 2]
    by (cases e1; cases e2) (auto simp: run_action_def Let_def dest!: queued_start)
next
  case ActionMapReset
  then obtain e1 lm1 where 1: "executeStop env (r_reason req) polls (SetAutolaunch False lm) = Some (e1, lm1)"
    using assms by (auto simp: run_action_def Let_def split: option.splits)
  show ?thesis using ActionMapReset assms 1 queued_stop [OF 1]
    by (cases e1; cases "e_reset after") (auto simp: run_action_def Let_def dest!: queued_start)
qed (use assms in \<open>auto simp: run_action_def split: option.splits if_splits dest!: queued_start queued_stop\<close>)

lemma queued_execute:
  assumes "execute env after polls req lm = Some lm'"
  shows "queued lm' = queued lm"
  using assms by (auto simp: execute_def Let_def split: sum.splits option.splits if_splits dest!: queued_run_action)

lemma waiting_none: "waiting lm = {#} \<longleftrightarrow> filter r_wait (lm_queue lm) = []"
proof -
  have "waiting lm = mset (map r_id (filter r_wait (lm_queue lm)))" by (simp add: waiting_def)
  then show ?thesis by (metis list.map_disc_iff mset_zero_iff)
qed

definition shut_ok :: "lifecycle \<Rightarrow> bool" where
  "shut_ok lm \<longleftrightarrow> (lm_shutdown lm \<longrightarrow> filter r_wait (lm_queue lm) = [])"

lemma shut_ok_queued: "queued lm' = queued lm \<Longrightarrow> shut_ok lm \<Longrightarrow> shut_ok lm'"
  by (simp add: queued_def shut_ok_def)

lemma shut_ok_next:
  assumes "shut_ok lm" "nextRequest env lm = Some (req, lm1)"
  shows "shut_ok lm1"
proof -
  obtain i score where "scan_requests env lm 0 (lm_queue lm) None = Some (i, score)"
    using assms(2) by (auto simp: nextRequest_def split: option.splits)
  then have lm1: "lm1 = syncCompatibilityLocked (lm\<lparr>lm_queue := take i (lm_queue lm) @ drop (Suc i) (lm_queue lm),
      lm_action := action_name (r_kind (lm_queue lm ! i))\<rparr>)"
    using assms(2) by (auto simp: nextRequest_def Let_def)
  show ?thesis
  proof (cases "lm_shutdown lm")
    case True
    then have none: "\<not> r_wait x" if "x \<in> set (lm_queue lm)" for x
      using assms(1) that by (simp add: shut_ok_def filter_empty_conv)
    have "filter r_wait (take i (lm_queue lm) @ drop (Suc i) (lm_queue lm)) = []"
      by (auto simp: filter_empty_conv dest: none [OF in_set_takeD] none [OF in_set_dropD])
    then show ?thesis by (simp add: lm1 shut_ok_def)
  next
    case False
    then show ?thesis by (simp add: lm1 shut_ok_def)
  qed
qed

lemma shut_ok_submit: "shut_ok lm \<Longrightarrow> shut_ok (snd (submitLifecycleRequest env req lm))"
  by (auto simp: submitLifecycleRequest_def shut_ok_def enqueue_def emit_def split: sum.splits)

lemma shut_ok_step:
  assumes "shut_ok lm" "lc_step lm lm'"
  shows "shut_ok lm'"
  using assms(2)
proof (cases rule: lc_step.cases)
  case (step_submit env req)
  then show ?thesis using shut_ok_submit [OF assms(1)] by simp
next
  case (step_timeout env dur rid)
  have "shut_ok (finishOperationError env x lm)" for x by (rule shut_ok_queued [OF _ assms(1)]) simp
  from shut_ok_submit [OF this] this show ?thesis
    unfolding step_timeout checkStartupTimeout_def Let_def using assms(1) by (simp split: if_split)
next
  case (step_request env req lm1 after polls)
  have "shut_ok lm1"
    using assms(1) step_request(1) by (rule shut_ok_next)
  then show ?thesis using queued_execute [OF step_request(2)] by (rule shut_ok_queued [rotated])
next
  case (step_auto env after polls rid)
  show ?thesis by (rule shut_ok_queued [OF queued_execute [OF step_auto(2)] assms(1)])
next
  case step_shutdown
  then show ?thesis by (simp add: cancelPendingRequests_alt cancel_queue shut_ok_def)
next
  case (step_players n)
  then show ?thesis using assms(1) by (simp add: shut_ok_def)
next
  case step_updated
  then show ?thesis using assms(1) by (simp add: shut_ok_def)
next
  case (step_pipe b)
  then show ?thesis using assms(1) by (simp add: shut_ok_def)
qed (simp_all add: shut_ok_queued [OF _ assms(1)])

interpretation shutdown: step_system lc_start lc_step shut_ok
proof unfold_locales
  show "shut_ok s" if "lc_start s" for s using that by (simp add: lc_start_def shut_ok_def)
  show "shut_ok t" if "shut_ok s" "lc_step s t" for s t using that by (rule shut_ok_step)
qed

text \<open>
  C8.  Nobody who waits for a request is forgotten or answered twice: the callers in the queue together with the answers given
  change only when a request is accepted, by that one caller; and once the manager has shut down nobody is waiting, so that
  everyone who was accepted has been answered.
\<close>

theorem callers_are_answered_once:
  assumes "reachable_from lc_start lc_step lm" "lc_step lm lm'"
  shows "(waiting lm' + replied lm' = waiting lm + replied lm \<or>
     (\<exists>env req. lm' = snd (submitLifecycleRequest env req lm) \<and>
        waiting lm' + replied lm' = waiting lm + replied lm + accepted_wait env req lm)) \<and>
    (lm_shutdown lm' \<longrightarrow> waiting lm' = {#})"
proof -
  have "shut_ok lm'" using shutdown.inv_reachable [OF reach_step [OF assms]] .
  then show ?thesis using ledger_step [OF assms(2)] by (auto simp: shut_ok_def waiting_none)
qed

definition stop_request :: request where
  "stop_request = \<lparr>r_kind = ActionStop, r_reason = ''maintenance'', r_save_name = '''', r_force_exit = False, r_id = ''r1'',
     r_when_empty = False, r_wait = True, r_snapshot = ''''\<rparr>"

definition asked_manager :: lifecycle where
  "asked_manager = snd (submitLifecycleRequest calm_env stop_request idle_manager)"

definition closed_manager :: lifecycle where
  "closed_manager = cancelPendingRequests (asked_manager\<lparr>lm_shutdown := True\<rparr>)"

lemma asked_waits: "waiting asked_manager = {#''r1''#}" "replied asked_manager = {#}"
  by (simp_all add: asked_manager_def submitLifecycleRequest_def stop_request_def idle_manager_def waiting_def replied_def enqueue_def
      syncCompatibilityLocked_def)

theorem callers_are_answered_once_witness:
  "waiting asked_manager = {#''r1''#} \<and> waiting closed_manager = {#} \<and> replied closed_manager = {#''r1''#}"
proof -
  have "reachable_from lc_start lc_step asked_manager"
    unfolding asked_manager_def by (rule reach_step [where step = lc_step, OF reach_start [where start = lc_start, OF idle_start]]) (rule step_submit)
  moreover have "lc_step asked_manager closed_manager" unfolding closed_manager_def by (rule step_shutdown)
  ultimately have c: "(waiting closed_manager + replied closed_manager = waiting asked_manager + replied asked_manager \<or>
     (\<exists>env req. closed_manager = snd (submitLifecycleRequest env req asked_manager) \<and>
        waiting closed_manager + replied closed_manager = waiting asked_manager + replied asked_manager + accepted_wait env req asked_manager)) \<and>
    (lm_shutdown closed_manager \<longrightarrow> waiting closed_manager = {#})" by (rule callers_are_answered_once)
  have s: "lm_shutdown closed_manager" by (simp add: closed_manager_def cancelPendingRequests_alt cancel_shutdown)
  moreover have "accepted_wait env req asked_manager = {#}" if "closed_manager = snd (submitLifecycleRequest env req asked_manager)" for env req
  proof -
    have "\<not> lm_shutdown asked_manager"
      by (simp add: asked_manager_def submitLifecycleRequest_def stop_request_def idle_manager_def enqueue_def syncCompatibilityLocked_def)
    then have "\<not> lm_shutdown (snd (submitLifecycleRequest env req asked_manager))"
      by (simp add: submitLifecycleRequest_def enqueue_def split: sum.split)
    then show ?thesis using s that by simp
  qed
  ultimately show ?thesis using c asked_waits by auto
qed


section \<open>Late events\<close>

text \<open>
  Events of an earlier process are ignored: an exit, a ready, a progress, a health or a
  SoftMod report whose generation is not the current one changes nothing.
\<close>

theorem stale_events_ignored:
  assumes "g \<noteq> lm_generation lm"
  shows "handleExitEvent env g err lm = lm \<and> handleReadyEvent env g lm = lm
    \<and> handleProgressEvent env g kind detail at lm = lm \<and> handleHealthEvent env g kind msg lm = lm
    \<and> NotifySoftModDetected g lm = lm \<and> \<not> IsCurrentFactorioGeneration g lm"
  using assms by (simp add: handleExitEvent_def finalizeStopped_def handleReadyEvent_def
      handleProgressEvent_def handleHealthEvent_def NotifySoftModDetected_def IsCurrentFactorioGeneration_def)

theorem stale_events_ignored_witness: "handleExitEvent calm_env 7 (Some ''crash'') idle_manager = idle_manager"
  using stale_events_ignored [of 7 idle_manager calm_env "Some ''crash''"] by (simp add: idle_manager_def)

section \<open>Stopping comes to an end\<close>

text \<open>The latest deadline the progress reports of a list of polls can lead to.\<close>

fun latest_deadline :: "gotime \<Rightarrow> poll list \<Rightarrow> gotime" where
  "latest_deadline d [] = d"
| "latest_deadline d (p # ps) =
     (case poll_event p of
        WProgress g kind detail at \<Rightarrow> latest_deadline (max d (at + lifecycleStopSaveTimeout)) ps
      | _ \<Rightarrow> latest_deadline d ps)"

lemma latest_deadline_mono: "a \<le> b \<Longrightarrow> latest_deadline a ps \<le> latest_deadline b ps"
  by (induction ps arbitrary: a b) (auto split: wait_event.split)

lemma latest_deadline_ge: "d \<le> latest_deadline d ps"
proof (induction ps arbitrary: d)
  case (Cons p ps)
  have "d \<le> latest_deadline (max d x) ps" for x
    using Cons [of "max d x"] by linarith
  with Cons show ?case by (auto split: wait_event.split)
qed simp

definition due :: "gotime \<Rightarrow> lifecycle \<Rightarrow> gotime" where
  "due d lm = max d (lm_progress_at lm + lifecycleStopSaveTimeout)"

lemma extend_le_due: "extend_deadline lm d \<le> due d lm"
  by (auto simp: extend_deadline_def due_def lifecycleStopSaveTimeout_def lifecycleStopIdleTimeout_def)

lemma progress_at_events [simp]:
  "g' \<noteq> lm_generation lm \<Longrightarrow> lm_progress_at (handleExitEvent env g' err lm) = lm_progress_at lm"
  by (simp add: handleExitEvent_def finalizeStopped_def)

lemma stopping_ready: "lm_phase lm = Stopping \<Longrightarrow> handleReadyEvent env g lm = lm"
  by (simp add: handleReadyEvent_def)

lemma progress_handle:
  "lm_progress_at (handleProgressEvent env g k d t lm) = (if g = lm_generation lm \<and> g \<noteq> 0 then t else lm_progress_at lm)"
  "lm_phase (handleProgressEvent env g k d t lm) = lm_phase lm"
  "lm_generation (handleProgressEvent env g k d t lm) = lm_generation lm"
  by (simp_all add: handleProgressEvent_def Let_def updateOperationProgressDelayedWithReminder_def split_def)

lemma exit_other: "g \<noteq> lm_generation lm \<Longrightarrow> handleExitEvent env g err lm = lm"
  by (simp add: handleExitEvent_def finalizeStopped_def)

lemma waitForStop_ends:
  assumes "lm_phase lm = Stopping" "lm_generation lm = g" "due dl lm \<le> D" "latest_deadline D ps < poll_now p" "p \<in> set ps"
  shows "waitForStop env g dl allow seen ps lm \<noteq> None"
  using assms
proof (induction ps arbitrary: env dl seen lm D)
  case Nil
  then show ?case by simp
next
  case (Cons q ps)
  let ?dl = "extend_deadline lm dl" and ?env = "env\<lparr>e_now := poll_now q\<rparr>"
  have dl: "?dl \<le> D" "due ?dl lm \<le> D"
    using extend_le_due [of lm dl] Cons.prems(3) by (auto simp: due_def)
  show ?case
  proof (cases "poll_alive q \<and> poll_now q \<le> ?dl")
    case False
    then show ?thesis by (auto simp: Let_def)
  next
    case alive: True
    have p: "p \<in> set ps"
    proof (rule ccontr)
      assume "p \<notin> set ps"
      with Cons.prems(5) have "p = q" by simp
      have "latest_deadline D (q # ps) \<ge> D" by (rule latest_deadline_ge)
      with \<open>p = q\<close> alive dl(1) Cons.prems(4) show False by simp
    qed
    have go: "waitForStop ?env g ?dl allow seen' ps lm \<noteq> None" if "latest_deadline D ps < poll_now p" for seen'
      using Cons.IH [OF Cons.prems(1,2) dl(2) that p] .
    show ?thesis
    proof (cases "poll_event q")
      case (WExit g' err)
      with alive go Cons.prems(2,4) exit_other [of g' lm ?env err] show ?thesis
        by (cases "g' = g") (simp_all add: Let_def del: not_None_eq)
    next
      case (WProgress g' k d t)
      let ?D = "max D (t + lifecycleStopSaveTimeout)"
      have "due ?dl (handleProgressEvent ?env g' k d t lm) \<le> ?D"
        using dl by (auto simp: due_def progress_handle)
      moreover have "latest_deadline ?D ps < poll_now p"
        using Cons.prems(4) WProgress by simp
      ultimately show ?thesis
        using alive p WProgress Cons.prems(1,2) Cons.IH
        by (simp add: Let_def progress_handle del: not_None_eq)
    qed (use alive go Cons.prems(1,4) in \<open>simp_all add: Let_def stopping_ready del: not_None_eq\<close>)
  qed
qed

text \<open>
  C39.  A wait for the process to stop ends.  However the process reports progress, the loop has
  returned once a poll comes later than the deadline it was given, than the save deadline of the
  last progress before the wait, and than that of every progress report during the wait.
\<close>

theorem wait_for_stop_ends:
  assumes "lm_phase lm = Stopping" and "lm_generation lm = g"
    and "p \<in> set polls"
    and "latest_deadline (max deadline (lm_progress_at lm + lifecycleStopSaveTimeout)) polls < poll_now p"
  shows "waitForStop env g deadline allow False polls lm \<noteq> None"
  by (rule waitForStop_ends [OF assms(1,2) _ assms(4,3)]) (simp add: due_def)

definition stopping_manager :: lifecycle where
  "stopping_manager = idle_manager\<lparr>lm_phase := Stopping, lm_generation := 1, lm_progress_at := 0\<rparr>"

definition tick_at :: "gotime \<Rightarrow> poll" where
  "tick_at t = \<lparr>poll_now = t, poll_alive = True, poll_event = WTick\<rparr>"

theorem wait_for_stop_ends_witness:
  "waitForStop calm_env 1 (45 * second_ns) False False [tick_at second_ns, tick_at (200 * second_ns)] stopping_manager \<noteq> None"
  by (rule wait_for_stop_ends [of _ _ "tick_at (200 * second_ns)"])
    (simp_all add: stopping_manager_def tick_at_def lifecycleStopSaveTimeout_def)

text \<open>What a wait leaves behind.\<close>

lemma finalize_current:
  assumes "lm_generation lm = g" "lm_phase lm \<noteq> Stopped"
  shows "lm_phase (finalizeStopped env g err report lm) = Stopped"
proof -
  have "lm_phase (count_crash env t x) = lm_phase x" for t x
    by (simp add: count_crash_def Let_def SetAutolaunch_def)
  moreover have "lm_phase (mark_stopped env c err lm) = Stopped" for c
    by (simp add: mark_stopped_def Let_def clear_op_def)
  ultimately show ?thesis using assms by (simp add: finalizeStopped_def Let_def)
qed

lemma waitForStop_result:
  assumes "lm_phase lm = Stopping" "lm_generation lm = g" "g \<noteq> 0"
    "waitForStop env g dl allow seen ps lm = Some (b, t, lm', rest)"
  shows "if b then lm_phase lm' = Stopped
    else lm_phase lm' = Stopping \<and> lm_generation lm' = g \<and> lm_trace lm' = lm_trace lm"
  using assms
proof (induction ps arbitrary: env dl seen lm)
  case (Cons q ps)
  let ?env = "env\<lparr>e_now := poll_now q\<rparr>"
  have progress: "lm_trace (handleProgressEvent ?env h k d t lm) = lm_trace lm" for h k d t
    by (simp add: handleProgressEvent_def Let_def updateOperationProgressDelayedWithReminder_def split_def)
  have exits: "lm_phase (handleExitEvent ?env g err lm) = Stopped" for err
    using Cons.prems(1-3) by (simp add: handleExitEvent_def finalize_current)
  show ?case
  proof (cases "poll_alive q \<and> poll_now q \<le> extend_deadline lm dl")
    case False
    with Cons.prems finalize_current [of lm g ?env None True] show ?thesis
      by (auto simp: Let_def split: if_splits)
  next
    case alive: True
    show ?thesis
    proof (cases "poll_event q")
      case (WExit h err)
      with alive Cons.prems exits [of err] exit_other [of h lm ?env err] Cons.IH [OF Cons.prems(1-3)]
      show ?thesis by (auto simp: Let_def split: if_splits)
    next
      case (WProgress h k d at)
      let ?lm = "handleProgressEvent ?env h k d at lm"
      have run: "waitForStop ?env g (extend_deadline lm dl) allow seen ps ?lm = Some (b, t, lm', rest)"
        using Cons.prems(4) alive WProgress by (simp add: Let_def)
      show ?thesis
        using Cons.IH [OF _ _ Cons.prems(3) run] Cons.prems(1,2) by (simp add: progress_handle progress)
    qed (use alive Cons.prems Cons.IH [OF Cons.prems(1-3)] in \<open>auto simp: Let_def stopping_ready split: if_splits\<close>)
  qed
qed simp


lemma begin_stop_fields:
  "lm_phase (begin_stop env r lm) = Stopping" "lm_generation (begin_stop env r lm) = lm_generation lm"
proof -
  have "lm_phase (stop_warning r' x) = lm_phase x" "lm_generation (stop_warning r' x) = lm_generation x" for r' x
    by (simp_all add: stop_warning_def)
  then show "lm_phase (begin_stop env r lm) = Stopping" "lm_generation (begin_stop env r lm) = lm_generation lm"
    by (simp_all add: begin_stop_def Let_def)
qed

text \<open>
  C21.  Stopping has two outcomes.  On success no process is left.  When even the kill is not
  followed by an exit in time, the error is reported after an interrupt and a kill were sent, and
  the manager stays in the stopping phase of the same process: every later start is refused
  until the exit of that process is seen.
\<close>

theorem stop_outcome:
  assumes "executeStop env reason polls lm = Some (err, lm')"
    and "lm_phase lm \<noteq> Stopped" and "lm_generation lm \<noteq> 0"
  shows "(err = None \<longrightarrow> lm_phase lm' = Stopped) \<and>
    (err \<noteq> None \<longrightarrow> lm_phase lm' = Stopping \<and> lm_generation lm' = lm_generation lm
      \<and> (\<exists>sent. lm_trace lm' = sent @ [InterruptProcess, KillProcess])
      \<and> (\<forall>later save. fst (executeStart later save lm') \<noteq> None \<and> snd (executeStart later save lm') = lm')
      \<and> (\<forall>later e. lm_phase (handleExitEvent later (lm_generation lm) e lm') = Stopped))"
proof -
  let ?g = "lm_generation lm" and ?lm = "begin_stop env reason lm"
  note wait = waitForStop_result [where g = ?g and env = env, OF _ _ assms(3)]
  obtain b1 t1 lm1 ps1 where 1: "waitForStop env ?g (e_now env + lifecycleStopGraceTimeout) False False polls ?lm
      = Some (b1, t1, lm1, ps1)"
    using assms(1,2) by (auto simp: executeStop_def Let_def split: option.splits)
  note r1 = wait [OF begin_stop_fields 1]
  show ?thesis
  proof (cases b1)
    case True
    with assms(1,2) 1 r1 show ?thesis by (simp add: executeStop_def Let_def)
  next
    case False
    then obtain b2 t2 lm2 ps2 where 2: "waitForStop env ?g (t1 + lifecycleStopInterruptTimeout) True False ps1
        (emit InterruptProcess lm1) = Some (b2, t2, lm2, ps2)"
      using assms(1,2) 1 by (auto simp: executeStop_def Let_def split: option.splits)
    note r2 = wait [OF _ _ 2]
    show ?thesis
    proof (cases b2)
      case True
      with assms(1,2) 1 2 False r1 r2 show ?thesis by (simp add: executeStop_def Let_def)
    next
      case no2: False
      then obtain b3 t3 lm3 ps3 where 3: "waitForStop env ?g (t2 + lifecycleStopKillTimeout) True False ps2
          (emit KillProcess lm2) = Some (b3, t3, lm3, ps3)"
        using assms(1,2) 1 2 False by (auto simp: executeStop_def Let_def split: option.splits)
      note r3 = wait [OF _ _ 3]
      show ?thesis
      proof (cases b3)
        case True
        with assms(1,2) 1 2 3 False no2 r1 r2 r3 show ?thesis by (simp add: executeStop_def Let_def)
      next
        case no3: False
        then have lm': "lm' = lm3\<lparr>lm_last_error := ''Factorio stop timed out''\<rparr>" "err \<noteq> None"
          using assms(1,2) 1 2 3 False no2 by (auto simp: executeStop_def Let_def)
        then have st: "lm_phase lm' = Stopping" "lm_generation lm' = ?g"
          "lm_trace lm' = lm_trace lm1 @ [InterruptProcess, KillProcess]"
          using r1 r2 r3 False no2 no3 by simp_all
        moreover have "fst (executeStart later save lm') \<noteq> None \<and> snd (executeStart later save lm') = lm'" for later save
          using st(1) by (simp add: executeStart_def)
        moreover have "lm_phase (handleExitEvent later ?g e lm') = Stopped" for later e
          using st assms(3) by (simp add: handleExitEvent_def finalize_current)
        ultimately show ?thesis using lm'(2) by blast
      qed
    qed
  qed
qed

definition running_manager :: lifecycle where
  "running_manager = idle_manager\<lparr>lm_phase := Running, lm_booted := True, lm_generation := 1\<rparr>"

lemma wait_timeout:
  "extend_deadline lm dl < t \<Longrightarrow> waitForStop env g dl allow seen (tick_at t # ps) lm = Some (False, t, lm, ps)"
  by (simp add: tick_at_def Let_def)

lemma extend_begin_stop:
  "extend_deadline (begin_stop env r lm) dl = dl" "extend_deadline (emit e x) dl = extend_deadline x dl"
proof -
  have "lm_progress_kind (stop_warning r' x) = lm_progress_kind x" for r' x
    by (simp add: stop_warning_def)
  then have "lm_progress_kind (begin_stop env r lm) = ''stop-requested''"
    by (simp add: begin_stop_def Let_def)
  then show "extend_deadline (begin_stop env r lm) dl = dl" "extend_deadline (emit e x) dl = extend_deadline x dl"
    by (simp_all add: extend_deadline_def shouldExtendStopDeadline_def)
qed

theorem stop_outcome_witness:
  "\<exists>err lm'. executeStop calm_env ''test'' [tick_at (1100 * second_ns), tick_at (1200 * second_ns), tick_at (1300 * second_ns)]
      running_manager = Some (err, lm') \<and> err \<noteq> None \<and> lm_phase lm' = Stopping"
proof -
  have "e_now calm_env = 1000 * second_ns" by (simp add: calm_env_def)
  then obtain err lm' where run: "executeStop calm_env ''test''
      [tick_at (1100 * second_ns), tick_at (1200 * second_ns), tick_at (1300 * second_ns)]
      running_manager = Some (err, lm')" "err \<noteq> None"
    by (simp add: executeStop_def Let_def wait_timeout running_manager_def extend_begin_stop
        lifecycleStopGraceTimeout_def lifecycleStopInterruptTimeout_def lifecycleStopKillTimeout_def
        del: waitForStop.simps)
  from stop_outcome [OF run(1)] run show ?thesis by (auto simp: running_manager_def)
qed


section \<open>Recovery of the SoftMod\<close>

definition unarmed :: "lifecycle \<Rightarrow> bool" where
  "unarmed lm \<longleftrightarrow> \<not> lm_softmod_recovery lm \<and> \<not> g_update_pending lm"

lemma unarmed_fields [simp]:
  "unarmed (lm\<lparr>lm_ops := w\<rparr>) = unarmed lm" "unarmed (lm\<lparr>lm_action := s\<rparr>) = unarmed lm"
  "unarmed (lm\<lparr>lm_last_error := s\<rparr>) = unarmed lm" "unarmed (lm\<lparr>g_pipe := b\<rparr>) = unarmed lm"
  "unarmed (syncCompatibilityLocked lm) = unarmed lm" "unarmed (emit e lm) = unarmed lm"
  "unarmed (clear_op lm) = unarmed lm" "unarmed (SetAutolaunch b lm) = unarmed lm"
  "unarmed (count_crash env t lm) = unarmed lm"
  by (simp_all add: unarmed_def clear_op_def SetAutolaunch_def count_crash_def Let_def)

lemma unarmed_finalize [simp]: "unarmed lm \<Longrightarrow> unarmed (finalizeStopped env g err report lm)"
proof -
  assume "unarmed lm"
  then have "unarmed (mark_stopped env c err lm)" for c
    by (simp add: mark_stopped_def Let_def unarmed_def clear_op_def)
  with \<open>unarmed lm\<close> show ?thesis by (simp add: finalizeStopped_def Let_def)
qed

lemma unarmed_events [simp]:
  "unarmed lm \<Longrightarrow> unarmed (handleExitEvent env g err lm)"
  "unarmed lm \<Longrightarrow> unarmed (handleProgressEvent env g k d t lm)"
  "unarmed lm \<Longrightarrow> unarmed (handleReadyEvent env g lm)"
  by (simp_all add: handleExitEvent_def)
    (simp_all add: handleProgressEvent_def handleReadyEvent_def Let_def unarmed_def clear_op_def split_def
      updateOperationProgressDelayedWithReminder_def split: option.split action_kind.split)

lemma unarmed_waitForStop:
  "unarmed lm \<Longrightarrow> waitForStop env g dl allow seen ps lm = Some (b, t, lm', rest) \<Longrightarrow> unarmed lm'"
proof (induction env g dl allow seen ps lm rule: waitForStop.induct)
  case (2 env g dl allow seen p ps lm)
  then show ?case by (auto simp: Let_def split: if_splits wait_event.splits)
qed simp

lemma unarmed_begin_stop [simp]: "unarmed (begin_stop env r lm) = unarmed lm"
proof -
  have "unarmed (stop_warning r' x) = unarmed x" for r' x by (simp add: stop_warning_def)
  then show ?thesis by (simp add: begin_stop_def Let_def) (simp add: unarmed_def)
qed

lemma unarmed_executeStop:
  "unarmed lm \<Longrightarrow> executeStop env r polls lm = Some (err, lm') \<Longrightarrow> unarmed lm'"
  by (auto simp: executeStop_def Let_def split: if_splits option.splits bool.splits
      dest!: unarmed_waitForStop [rotated])

lemma unarmed_executeStart: "unarmed lm \<Longrightarrow> unarmed (snd (executeStart env save lm))"
  by (auto simp: executeStart_def Let_def unarmed_def split: sum.split)

text \<open>
  The recovery of a missing SoftMod after an update happens once: when the check queues its
  restart, a second check queues nothing more, and the restart itself -- the stop and the start
  it performs, whatever events it meets -- leaves neither a recovery nor a pending update check
  behind, so that it cannot trigger another restart.
\<close>

theorem softmod_recovery_once:
  assumes "checkSoftModAfterUpdate env lm \<noteq> lm" and "\<not> g_update_pending lm"
    and "lm1 = checkSoftModAfterUpdate env lm"
    and "r_kind req = ActionRestartFactorio"
    and "run_action env1 after polls req lm1 = Some (err, lm2)"
  shows "(\<exists>r. lm_queue lm1 = lm_queue lm @ [r] \<and> r_kind r = ActionRestartFactorio)
    \<and> checkSoftModAfterUpdate later lm1 = lm1
    \<and> \<not> lm_softmod_recovery lm2 \<and> \<not> g_update_pending lm2
    \<and> checkSoftModAfterUpdate later lm2 = lm2"
proof -
  have lm1: "lm1 = syncCompatibilityLocked
        (enqueue (own_request ActionRestartFactorio
            ''SoftMod missing after Factorio update; rebooting to restore it.''
            (''softmod-update-recovery-'' @ itoa (unat (lm_generation lm))))
          (lm\<lparr>lm_softmod_recovery := False\<rparr>))"
    using assms(1,3) unfolding checkSoftModAfterUpdate_def by (simp split: if_splits)
  then have queue: "\<exists>r. lm_queue lm1 = lm_queue lm @ [r] \<and> r_kind r = ActionRestartFactorio"
    by (auto simp: enqueue_def own_request_def)
  have un1: "unarmed lm1" using assms(2) by (simp add: lm1 unarmed_def enqueue_def)
  obtain e3 lm3 where 3: "executeStop env1 (r_reason req) polls lm1 = Some (e3, lm3)"
    using assms(4,5) by (auto simp: run_action_def split: option.splits)
  have "unarmed lm3" by (rule unarmed_executeStop [OF un1 3])
  then have "unarmed lm2"
    using assms(4,5) 3 unarmed_executeStart [of lm3 after "''''"]
    by (cases e3) (auto simp: run_action_def)
  moreover have "checkSoftModAfterUpdate later x = x" if "unarmed x" for x
    using that by (simp add: checkSoftModAfterUpdate_def unarmed_def)
  ultimately show ?thesis using queue un1 by (auto simp: unarmed_def)
qed

definition updated_manager :: lifecycle where
  "updated_manager = idle_manager\<lparr>lm_phase := Running, lm_booted := True, lm_generation := 1,
     lm_ready_at := 1, lm_softmod_recovery := True\<rparr>"

definition gone_at :: "gotime \<Rightarrow> poll" where
  "gone_at t = \<lparr>poll_now = t, poll_alive = False, poll_event = WTick\<rparr>"

lemma updated_manager_check: "checkSoftModAfterUpdate calm_env updated_manager \<noteq> updated_manager"
proof -
  have "lm_queue (checkSoftModAfterUpdate calm_env updated_manager) \<noteq> lm_queue updated_manager"
    by (simp add: checkSoftModAfterUpdate_def updated_manager_def idle_manager_def calm_env_def enqueue_def
        softModUpdateStartupGrace_def)
  then show ?thesis by auto
qed

theorem softmod_recovery_once_witness:
  "let lm1 = checkSoftModAfterUpdate calm_env updated_manager in
   \<exists>err lm2. run_action calm_env calm_env [gone_at (1001 * second_ns)] (own_request ActionRestartFactorio ''r'' ''i'') lm1
      = Some (err, lm2) \<and> \<not> lm_softmod_recovery lm2 \<and> \<not> g_update_pending lm2"
proof -
  let ?lm1 = "checkSoftModAfterUpdate calm_env updated_manager"
  let ?req = "own_request ActionRestartFactorio ''r'' ''i''"
  have "run_action calm_env calm_env [gone_at (1001 * second_ns)] ?req ?lm1 \<noteq> None"
    by (simp add: run_action_def own_request_def executeStop_def gone_at_def Let_def)
  then obtain err lm2 where run: "run_action calm_env calm_env [gone_at (1001 * second_ns)] ?req ?lm1 = Some (err, lm2)"
    by (metis not_None_eq prod.exhaust)
  moreover have "\<not> g_update_pending updated_manager" by (simp add: updated_manager_def idle_manager_def)
  moreover have "r_kind ?req = ActionRestartFactorio" by (simp add: own_request_def)
  ultimately show ?thesis
    using softmod_recovery_once [OF updated_manager_check _ refl] unfolding Let_def by blast
qed

section \<open>Crash loops\<close>

text \<open>
  A server that crashes while loading is not restarted forever: the third exit in a row
  within two minutes of a start turns the automatic start off, in memory and in the
  configuration, and the manager does not start by itself again until it is turned on; fewer
  crashes leave the setting alone, and a boot that gets ready starts the count anew.
\<close>

theorem crash_loop_disables_autostart:
  assumes "lm_phase lm = Starting" and "lm_generation lm = g" and "g \<noteq> 0"
    and "lm_started_at lm \<noteq> zero_time" and "e_now env - lm_started_at lm < 2 * minute_ns"
    and "lm' = handleExitEvent env g err lm"
  shows "g_crash_loops lm' = Suc (g_crash_loops lm)
    \<and> (2 \<le> g_crash_loops lm \<longrightarrow> \<not> g_autostart lm' \<and> \<not> g_cfg_autostart lm' \<and> \<not> shouldAutoStart later lm')
    \<and> (g_crash_loops lm < 2 \<longrightarrow> g_autostart lm' = g_autostart lm)
    \<and> g_crash_loops (handleReadyEvent env g lm) = 0"
proof -
  have marked: "g_crash_loops (mark_stopped env c err lm) = g_crash_loops lm"
    "g_autostart (mark_stopped env c err lm) = g_autostart lm" for c
    by (simp_all add: mark_stopped_def Let_def clear_op_def syncCompatibilityLocked_def)
  obtain x w where x: "lm' = (count_crash env (lm_started_at lm) x)\<lparr>lm_ops := w\<rparr>"
    "g_crash_loops x = g_crash_loops lm" "g_autostart x = g_autostart lm"
  proof
    let ?x = "if lm_booted lm \<and> shouldReportOfflineStatus (lm_op_kind lm) err
      then emit ReportOffline (emit (Exited g) (mark_stopped env False err lm))
      else emit (Exited g) (mark_stopped env False err lm)"
    show "lm' = (count_crash env (lm_started_at lm) ?x)\<lparr>lm_ops := settle_operation env (lm_op_token lm)
        (lm_op_kind lm) (lm_op_save lm) True False err (lm_ops (count_crash env (lm_started_at lm) ?x))\<rparr>"
      using assms(1-3,6) by (simp add: handleExitEvent_def finalizeStopped_def Let_def)
    show "g_crash_loops ?x = g_crash_loops lm" "g_autostart ?x = g_autostart lm"
      by (simp_all add: marked)
  qed
  have "g_crash_loops (handleReadyEvent env g lm) = 0"
    using assms(1,2) by (simp add: handleReadyEvent_def Let_def split: option.split action_kind.split)
  then show ?thesis
    using assms(4,5) x
    by (simp add: count_crash_def Let_def SetAutolaunch_def shouldAutoStart_def emit_def)
qed

definition crashing_manager :: lifecycle where
  "crashing_manager = idle_manager\<lparr>lm_phase := Starting, lm_generation := 3, lm_started_at := 990 * second_ns,
     g_crash_loops := 2\<rparr>"

theorem crash_loop_disables_autostart_witness:
  "\<not> shouldAutoStart calm_env (handleExitEvent calm_env 3 (Some ''exit status 1'') crashing_manager)"
  using crash_loop_disables_autostart [of crashing_manager 3 calm_env _ "Some ''exit status 1''", OF _ _ _ _ _ refl]
  by (simp add: crashing_manager_def calm_env_def idle_manager_def)

section \<open>Startup timeouts\<close>

definition timed_out :: "lc_env \<Rightarrow> lifecycle \<Rightarrow> bool" where
  "timed_out env lm \<longleftrightarrow> lm_phase lm = Starting \<and> lm_started_at lm \<noteq> zero_time \<and> \<not> lm_shutdown lm
     \<and> lifecycleStartupHardTimeout < e_now env - lm_started_at lm"

lemma timeout_step:
  assumes "timed_out env lm"
  shows "\<exists>r. r_kind r = ActionRestartFactorio \<and> lm_queue (checkStartupTimeout env dur rid lm) = lm_queue lm @ [r]"
    and "timed_out env (checkStartupTimeout env dur rid lm)"
  using assms
  by (auto simp: timed_out_def checkStartupTimeout_def Let_def submitLifecycleRequest_def own_request_def
      enqueue_def finishOperationError_def clear_op_def)

text \<open>
  While a mod operation or an update is in progress, a start that has timed out queues a
  new restart in every iteration of the loop, because none of them may run and nothing notes
  that one is already queued: after \<open>n\<close> iterations \<open>n\<close> restarts wait, all to be executed later.
\<close>

theorem startup_timeout_floods_queue:
  assumes "timed_out env lm" and "e_modop env \<or> e_update env" and "lm_queue lm = []"
    and "lm' = (checkStartupTimeout env dur rid ^^ n) lm"
  shows "length (lm_queue lm') = n \<and> (\<forall>r \<in> set (lm_queue lm'). r_kind r = ActionRestartFactorio)
    \<and> nextRequest env lm' = None"
proof -
  have "timed_out env lm' \<and> length (lm_queue lm') = n \<and> (\<forall>r \<in> set (lm_queue lm'). r_kind r = ActionRestartFactorio)"
    unfolding assms(4)
  proof (induction n)
    case 0
    then show ?case using assms(1,3) by simp
  next
    case (Suc n)
    let ?lm = "(checkStartupTimeout env dur rid ^^ n) lm"
    from Suc timeout_step [of env ?lm dur rid] show ?case by auto
  qed
  moreover have "\<not> requestRunnableLocked env lm' r" if "r_kind r = ActionRestartFactorio" for r
    using that assms(2) by (auto simp: requestRunnableLocked_def)
  ultimately show ?thesis
    using scan_queue [of env lm' "lm_queue lm'"]
    by (auto simp: nextRequest_def best_from_def list_ex_iff split: option.splits)
qed

theorem startup_timeout_floods_queue_witness:
  "length (lm_queue ((checkStartupTimeout (calm_env\<lparr>e_modop := True\<rparr>) ''16m0s'' ''i'' ^^ 1000)
     (crashing_manager\<lparr>lm_started_at := 1\<rparr>))) = 1000"
proof -
  have "timed_out (calm_env\<lparr>e_modop := True\<rparr>) (crashing_manager\<lparr>lm_started_at := 1\<rparr>)"
    by (simp add: timed_out_def crashing_manager_def calm_env_def idle_manager_def lifecycleStartupHardTimeout_def)
  then show ?thesis
    using startup_timeout_floods_queue [OF _ _ _ refl, of "calm_env\<lparr>e_modop := True\<rparr>" "crashing_manager\<lparr>lm_started_at := 1\<rparr>"]
    by (simp add: crashing_manager_def idle_manager_def)
qed

end
