(* ===== verification/Mod_Versions.thy ===== *)
theory Mod_Versions
  imports CW_Prelude
begin

text \<open>
  Mod versions and dependency strings (modupdate/util.go, modupdate/newUpdate.go): parsing and
  comparing versions, the comparison operators and \<open>parseDep\<close>.  A parsed version is the list of its
  three numbers; lists are ordered lexicographically.
\<close>

section \<open>Versions\<close>

datatype eo = EO_ERROR | EO_LESS | EO_LESSEQ | EO_EQUAL | EO_GREATEREQ | EO_GREATER

datatype version_error = MalformedVersion string | UnparsableVersion | InvalidComparison

text \<open>\<open>strconv.ParseInt(s, 10, 64)\<close>.\<close>

definition parse_int64 :: "string \<Rightarrow> int option" where
  "parse_int64 s =
     (let neg = has_prefix s ''-''; ds = (if has_prefix s ''-'' \<or> has_prefix s ''+'' then tl s else s);
          v = (if neg then - int (digits_value ds) else int (digits_value ds))
      in if ds = [] \<or> \<not> list_all is_digit ds \<or> v < - (2 ^ 63) \<or> 2 ^ 63 \<le> v then None else Some v)"

fun parse_parts :: "string list \<Rightarrow> int list option" where
  "parse_parts [] = Some []"
| "parse_parts (p # ps) = (case parse_int64 p of None \<Rightarrow> None
     | Some v \<Rightarrow> (case parse_parts ps of None \<Rightarrow> None | Some vs \<Rightarrow> Some (v # vs)))"

definition versionToInt :: "string \<Rightarrow> version_error + int list" where
  "versionToInt data =
     (let parts = split_on (CHR ''.'') data;
          data = (if length parts = 2 then data @ ''.0'' else data);
          numParts = (if length parts = 2 then 3 else length parts)
      in if numParts \<noteq> 3 then Inl (MalformedVersion data)
         else case parse_parts parts of
             None \<Rightarrow> Inl UnparsableVersion
           | Some vs \<Rightarrow> Inr (vs @ replicate (3 - length vs) 0))"

fun compareVersions :: "eo \<Rightarrow> int \<Rightarrow> int \<Rightarrow> version_error + bool" where
  "compareVersions EO_LESS av bv = Inr (bv < av)"
| "compareVersions EO_LESSEQ av bv = Inr (bv \<le> av)"
| "compareVersions EO_EQUAL av bv = Inr (bv = av)"
| "compareVersions EO_GREATEREQ av bv = Inr (bv \<ge> av)"
| "compareVersions EO_GREATER av bv = Inr (bv > av)"
| "compareVersions EO_ERROR av bv = Inl InvalidComparison"

definition checkVersion :: "eo \<Rightarrow> string \<Rightarrow> string \<Rightarrow> version_error + bool" where
  "checkVersion operator local remote =
     (case versionToInt local of Inl e \<Rightarrow> Inl e | Inr c \<Rightarrow>
     (case versionToInt remote of Inl e \<Rightarrow> Inl e | Inr r \<Rightarrow>
        (if r ! 0 \<noteq> c ! 0 then compareVersions operator (c ! 0) (r ! 0)
         else if r ! 1 \<noteq> c ! 1 then compareVersions operator (c ! 1) (r ! 1)
         else if r ! 2 \<noteq> c ! 2 then compareVersions operator (c ! 2) (r ! 2)
         else compareVersions operator 0 0)))"

section \<open>Dependencies\<close>

definition parseOperator :: "string \<Rightarrow> eo" where
  "parseOperator s =
     (if s = ''<'' then EO_LESS else if s = ''<='' then EO_LESSEQ else if s = ''='' then EO_EQUAL
      else if s = ''>='' then EO_GREATEREQ else if s = ''>'' then EO_GREATER else EO_ERROR)"

fun operatorToString :: "eo \<Rightarrow> string" where
  "operatorToString EO_LESS = ''<''"
| "operatorToString EO_LESSEQ = ''<=''"
| "operatorToString EO_EQUAL = ''=''"
| "operatorToString EO_GREATEREQ = ''>=''"
| "operatorToString EO_GREATER = ''>''"
| "operatorToString EO_ERROR = ''ERR''"

record dep_requires =
  dep_name :: string
  dep_version :: string
  dep_equality :: eo
  dep_optional :: bool
  dep_incompatible :: bool

definition TrimPrefix :: "string \<Rightarrow> string \<Rightarrow> string" where
  "TrimPrefix s p = (if has_prefix s p then drop (length p) s else s)"

definition is_op :: "char \<Rightarrow> bool" where
  "is_op c \<longleftrightarrow> c = CHR ''>'' \<or> c = CHR ''<'' \<or> c = CHR ''=''"

text \<open>The scan for the operator: \<open>nameEnd\<close> and \<open>versionStart\<close> after the bytes from index \<open>c\<close> on.\<close>

fun scan_op :: "nat \<Rightarrow> string \<Rightarrow> nat \<times> nat \<Rightarrow> nat \<times> nat" where
  "scan_op c [] (nameEnd, versionStart) = (nameEnd, versionStart)"
| "scan_op c (ch # s) (nameEnd, versionStart) =
     scan_op (Suc c) s (if is_op ch then (if nameEnd = 0 then c else nameEnd, c) else (nameEnd, versionStart))"

definition parseDep :: "string \<Rightarrow> dep_requires" where
  "parseDep input =
     (let input = trim_space input;
          incompatible = contains_str input ''!'';
          optional = (has_prefix input ''?'' \<or> has_prefix input ''(?)'' \<or> has_prefix input ''( ? )'');
          input = TrimPrefix input ''~''; input = TrimPrefix input ''!''; input = TrimPrefix input ''?'';
          input = TrimPrefix input ''(?)''; input = TrimPrefix input ''( ? )'';
          input = trim_space input;
          (nameEnd, versionStart) = scan_op 0 input (0, 0)
      in if nameEnd = 0 then
           \<lparr>dep_name = input, dep_version = [], dep_equality = EO_ERROR, dep_optional = optional, dep_incompatible = incompatible\<rparr>
         else
           \<lparr>dep_name = trim_space (take nameEnd input),
            dep_version = trim_space (drop (Suc versionStart) input),
            dep_equality = parseOperator (trim_space (take (Suc versionStart - nameEnd) (drop nameEnd input))),
            dep_optional = optional, dep_incompatible = incompatible\<rparr>)"

definition IsBaseMod :: "string \<Rightarrow> bool" where
  "IsBaseMod dep \<longleftrightarrow> dep = ''base'' \<or> dep = ''elevated-rails'' \<or> dep = ''quality'' \<or> dep = ''space-age'' \<or> dep = ''recycler''"

section \<open>Facts\<close>

text \<open>The comparison the operators stand for, on the parsed versions.\<close>

fun holds :: "eo \<Rightarrow> int list \<Rightarrow> int list \<Rightarrow> bool" where
  "holds EO_LESS v w = (v < w)"
| "holds EO_LESSEQ v w = (v \<le> w)"
| "holds EO_EQUAL v w = (v = w)"
| "holds EO_GREATEREQ v w = (w \<le> v)"
| "holds EO_GREATER v w = (w < v)"
| "holds EO_ERROR v w = False"

lemma parse_parts_length: "parse_parts ps = Some vs \<Longrightarrow> length vs = length ps"
  by (induction ps arbitrary: vs) (auto split: option.splits)

lemma versionToInt_length: "versionToInt s = Inr v \<Longrightarrow> \<exists>a b c. v = [a, b, c]"
proof -
  assume "versionToInt s = Inr v"
  then obtain vs where vs: "parse_parts (split_on (CHR ''.'') s) = Some vs"
      "v = vs @ replicate (3 - length vs) 0" "length (split_on (CHR ''.'') s) \<in> {2, 3}"
    by (auto simp: versionToInt_def Let_def split: if_splits option.splits)
  with parse_parts_length [OF vs(1)] have "length v = 3" by auto
  then show ?thesis by (auto simp: numeral_3_eq_3 length_Suc_conv)
qed

lemma checkVersion_holds:
  assumes "versionToInt l = Inr v" "versionToInt r = Inr w" "op \<noteq> EO_ERROR"
  shows "checkVersion op l r = Inr (holds op w v)"
proof -
  obtain a b c where v: "v = [a, b, c]" using versionToInt_length [OF assms(1)] by blast
  obtain x y z where w: "w = [x, y, z]" using versionToInt_length [OF assms(2)] by blast
  show ?thesis using assms by (cases op) (auto simp: checkVersion_def v w)
qed

lemma checkVersion_cases:
  "checkVersion op l r = Inr b \<longleftrightarrow>
    (\<exists>v w. versionToInt l = Inr v \<and> versionToInt r = Inr w \<and> op \<noteq> EO_ERROR \<and> b = holds op w v)"
proof (cases "versionToInt l")
  case (Inr v)
  then show ?thesis
  proof (cases "versionToInt r")
    case w: (Inr w)
    show ?thesis
    proof (cases "op = EO_ERROR")
      case True
      with Inr w show ?thesis by (auto simp: checkVersion_def)
    next
      case False
      with Inr w show ?thesis using checkVersion_holds [OF Inr w False] by auto
    qed
  qed (auto simp: checkVersion_def)
qed (auto simp: checkVersion_def)

lemma parseOperator_inverse [simp]: "op \<noteq> EO_ERROR \<Longrightarrow> parseOperator (operatorToString op) = op"
  by (cases op) (simp_all add: parseOperator_def)

text \<open>A word that \<open>strings.TrimSpace\<close> leaves alone, without operators.\<close>

definition plain :: "string \<Rightarrow> bool" where
  "plain s \<longleftrightarrow> s \<noteq> [] \<and> \<not> is_space (hd s) \<and> \<not> is_space (last s) \<and> list_all (\<lambda>c. \<not> is_op c) s"

lemma trim_id: "s \<noteq> [] \<Longrightarrow> \<not> is_space (hd s) \<Longrightarrow> \<not> is_space (last s) \<Longrightarrow> trim_space s = s"
proof -
  assume a: "s \<noteq> []" "\<not> is_space (hd s)" "\<not> is_space (last s)"
  then have "dropWhile is_space s = s" "dropWhile is_space (rev s) = rev s"
    by (simp_all add: dropWhile_eq_self_iff hd_rev)
  then show ?thesis by (simp add: trim_space_def)
qed

lemma trim_sides: "trim_space ([CHR '' ''] @ s) = trim_space s" "trim_space (s @ [CHR '' '']) = trim_space s"
proof -
  have sp: "is_space (CHR '' '')" by (simp add: is_space_def)
  then show "trim_space ([CHR '' ''] @ s) = trim_space s" by (simp add: trim_space_def)
  show "trim_space (s @ [CHR '' '']) = trim_space s"
    using sp by (cases "list_all is_space s")
      (auto simp: trim_space_def dropWhile_append list_all_iff dest: set_dropWhileD)
qed

lemma plain_trim [simp]: "plain s \<Longrightarrow> trim_space s = s"
  by (simp add: plain_def trim_id)

lemma scan_op_plain: "list_all (\<lambda>c. \<not> is_op c) s \<Longrightarrow> scan_op c (s @ t) p = scan_op (c + length s) t p"
  by (induction s arbitrary: c p) auto

lemma scan_op_plain_end: "list_all (\<lambda>c. \<not> is_op c) s \<Longrightarrow> scan_op c s p = p"
  using scan_op_plain [of s c "[]" p] by (cases p) simp

lemma scan_op_ops:
  assumes "op \<noteq> EO_ERROR" "0 < c"
  shows "scan_op c (operatorToString op @ t) (0, 0) =
    scan_op (c + length (operatorToString op)) t (c, c + length (operatorToString op) - 1)"
  using assms by (cases op) (simp_all add: is_op_def)

lemma hd_append_plain: "plain s \<Longrightarrow> hd (s @ t) = hd s"
  by (simp add: plain_def)

text \<open>
  Versions are compared as numbers, not as text: if both strings are versions (two or three
  numbers separated by dots, the missing third counting as zero), the test says whether the remote
  version stands in the given relation to the local one in the lexicographic order of their numbers;
  with the error operator, or if one of the strings is no version, it reports an error.
\<close>

theorem versions_compare_lexicographically:
  "checkVersion op l r =
    (case versionToInt l of Inl e \<Rightarrow> Inl e | Inr v \<Rightarrow>
     (case versionToInt r of Inl e \<Rightarrow> Inl e | Inr w \<Rightarrow>
        if op = EO_ERROR then Inl InvalidComparison else Inr (holds op w v)))"
proof (cases "versionToInt l")
  case v: (Inr v)
  show ?thesis
  proof (cases "versionToInt r")
    case w: (Inr w)
    show ?thesis
    proof (cases "op = EO_ERROR")
      case True
      with v w show ?thesis by (simp add: checkVersion_def)
    next
      case False
      with v w checkVersion_holds [OF v w False] show ?thesis by simp
    qed
  qed (simp add: checkVersion_def v)
qed (simp add: checkVersion_def)

text \<open>The text of a dependency as mod authors write it.\<close>

definition dep_text :: "string \<Rightarrow> string \<Rightarrow> eo \<Rightarrow> string \<Rightarrow> string" where
  "dep_text prefix name op version = prefix @ name @ '' '' @ operatorToString op @ '' '' @ version"

definition mod_name_ok :: "string \<Rightarrow> bool" where
  "mod_name_ok s \<longleftrightarrow> plain s \<and> list_all (\<lambda>c. c \<notin> {CHR ''!'', CHR ''?'', CHR ''~'', CHR ''(''}) s"

lemma contains_char: "contains_str s [c] \<longleftrightarrow> c \<in> set s"
  by (induction s) (auto simp: has_prefix_def)

lemma prefix_cons: "has_prefix (a # s) (b # p) \<longleftrightarrow> a = b \<and> has_prefix s p" "has_prefix s []"
  by (auto simp: has_prefix_def)

lemma TrimPrefix_cons:
  "TrimPrefix (a # s) (b # p) = (if a = b \<and> has_prefix s p then drop (length p) s else a # s)"
  by (auto simp: TrimPrefix_def prefix_cons)

lemma parse_body:
  assumes "mod_name_ok name" "op \<noteq> EO_ERROR" "plain version"
  defines "body \<equiv> name @ '' '' @ operatorToString op @ '' '' @ version"
  shows "trim_space body = body"
    and "scan_op 0 body (0, 0) = (length name + 1, length name + length (operatorToString op))"
proof -
  let ?o = "operatorToString op"
  have n: "plain name" using assms(1) by (simp add: mod_name_ok_def)
  have o: "?o \<noteq> []" by (cases op) simp_all
  show "trim_space body = body"
    using n assms(3) by (intro trim_id) (simp_all add: body_def plain_def)
  have sp: "\<not> is_op (CHR '' '')" by (simp add: is_op_def)
  have "scan_op 0 body (0, 0) = scan_op (length name) ('' '' @ ?o @ '' '' @ version) (0, 0)"
    using n unfolding body_def by (subst scan_op_plain) (simp_all add: plain_def)
  also have "\<dots> = scan_op (length name + 1) (?o @ '' '' @ version) (0, 0)" using sp by simp
  also have "\<dots> = scan_op (length name + 1 + length ?o) ('' '' @ version) (length name + 1, length name + 1 + length ?o - 1)"
    using assms(2) by (rule scan_op_ops) simp
  also have "\<dots> = (length name + 1, length name + length ?o)"
    using sp assms(3) by (simp add: scan_op_plain_end plain_def)
  finally show "scan_op 0 body (0, 0) = (length name + 1, length name + length ?o)" .
qed

lemma parse_parts_of_body:
  assumes "mod_name_ok name" "op \<noteq> EO_ERROR" "plain version"
  defines "body \<equiv> name @ '' '' @ operatorToString op @ '' '' @ version"
  shows "trim_space (take (Suc (length name)) body) = name"
    "trim_space (drop (Suc (length name + length (operatorToString op))) body) = version"
    "parseOperator (trim_space (take (length (operatorToString op)) (drop (Suc (length name)) body))) = op"
proof -
  let ?o = "operatorToString op"
  have n: "plain name" using assms(1) by (simp add: mod_name_ok_def)
  have "take (Suc (length name)) body = name @ '' ''" by (simp add: body_def)
  then show "trim_space (take (Suc (length name)) body) = name" using n trim_sides(2) [of name] by simp
  have "drop (Suc (length name + length ?o)) body = [CHR '' ''] @ version" by (simp add: body_def)
  then show "trim_space (drop (Suc (length name + length ?o)) body) = version"
    using assms(3) trim_sides(1) [of version] by simp
  have "take (length ?o) (drop (Suc (length name)) body) = ?o" by (simp add: body_def)
  moreover have "trim_space ?o = ?o" by (cases op) (simp_all add: trim_space_def is_space_def)
  ultimately show "parseOperator (trim_space (take (length ?o) (drop (Suc (length name)) body))) = op"
    using assms(2) by simp
qed

lemma name_no_prefix:
  assumes "mod_name_ok name"
  shows "TrimPrefix (name @ t) ''~'' = name @ t" "TrimPrefix (name @ t) ''!'' = name @ t" "TrimPrefix (name @ t) ''?'' = name @ t"
    "TrimPrefix (name @ t) ''(?)'' = name @ t" "TrimPrefix (name @ t) ''( ? )'' = name @ t"
    "\<not> has_prefix (name @ t) ''?''" "\<not> has_prefix (name @ t) ''(?)''" "\<not> has_prefix (name @ t) ''( ? )''"
  using assms by (cases name; simp add: mod_name_ok_def plain_def TrimPrefix_def prefix_cons)+

text \<open>
  A dependency is read back as it was written: for a mod name and a version without operators,
  and any of the prefixes for required, optional, hidden optional, incompatible and unordered
  dependencies, parsing the written dependency gives the name, the operator, the version and the
  two flags.
\<close>

theorem dependency_roundtrip:
  assumes "mod_name_ok name" "op \<noteq> EO_ERROR" "plain version" "CHR ''!'' \<notin> set version"
    and "prefix \<in> {'''', ''? '', ''(?) '', ''! '', ''~ ''}"
  shows "parseDep (dep_text prefix name op version) =
    \<lparr>dep_name = name, dep_version = version, dep_equality = op,
     dep_optional = (prefix = ''? '' \<or> prefix = ''(?) ''), dep_incompatible = (prefix = ''! '')\<rparr>"
proof -
  define body where "body = name @ '' '' @ operatorToString op @ '' '' @ version"
  note facts = parse_body [OF assms(1-3), folded body_def] parse_parts_of_body [OF assms(1-3), folded body_def]
  note np = name_no_prefix [OF assms(1), of "'' '' @ operatorToString op @ '' '' @ version", folded body_def]
  have name: "plain name" using assms(1) by (simp add: mod_name_ok_def)
  have last: "last body = last version" "body \<noteq> []" "\<not> is_space (last version)" "hd body = hd name"
    using assms(3) name by (auto simp: body_def plain_def)
  have written: "dep_text prefix name op version = prefix @ body" by (simp add: dep_text_def body_def)
  have trim: "trim_space (prefix @ body) = prefix @ body"
    by (rule trim_id) (use assms(5) last name in \<open>auto simp: is_space_def plain_def\<close>)
  have "CHR ''!'' \<notin> set (operatorToString op)" by (cases op) simp_all
  then have no: "CHR ''!'' \<notin> set body"
    using assms(1,4) by (auto simp: body_def mod_name_ok_def list_all_iff)
  have incompatible: "contains_str (prefix @ body) ''!'' \<longleftrightarrow> prefix = ''! ''"
    using assms(5) no by (auto simp: contains_char)
  have sp: "trim_space (CHR '' '' # body) = body" using trim_sides(1) [of body] facts(1) by simp
  have cut: "trim_space (TrimPrefix (TrimPrefix (TrimPrefix (TrimPrefix (TrimPrefix (prefix @ body) ''~'') ''!'') ''?'') ''(?)'') ''( ? )'') = body"
    using assms(5) by (elim insertE emptyE) (simp_all add: TrimPrefix_cons prefix_cons np facts(1) sp)
  have optional: "has_prefix (prefix @ body) ''?'' \<or> has_prefix (prefix @ body) ''(?)'' \<or> has_prefix (prefix @ body) ''( ? )''
      \<longleftrightarrow> prefix = ''? '' \<or> prefix = ''(?) ''"
    using assms(5) by (elim insertE emptyE) (simp_all add: prefix_cons np)
  show ?thesis
    unfolding parseDep_def written trim Let_def cut incompatible optional facts(2) by (simp add: facts)
qed

theorem dependency_roundtrip_witness:
  "parseDep ''? flib >= 0.12.4'' = \<lparr>dep_name = ''flib'', dep_version = ''0.12.4'', dep_equality = EO_GREATEREQ,
     dep_optional = True, dep_incompatible = False\<rparr>"
  using dependency_roundtrip [of "''flib''" EO_GREATEREQ "''0.12.4''" "''? ''"]
  by (simp add: dep_text_def mod_name_ok_def plain_def is_op_def is_space_def)

lemma base_dep: "parseDep ''base'' =
    \<lparr>dep_name = ''base'', dep_version = [], dep_equality = EO_ERROR, dep_optional = False, dep_incompatible = False\<rparr>"
  by (simp add: parseDep_def trim_space_def is_space_def TrimPrefix_def has_prefix_def is_op_def)

end
