(* ===== verification/Mod_Update.thy ===== *)
theory Mod_Update
  imports Mod_Versions
begin

text \<open>
  The mod updater (modupdate/newUpdate.go, modupdate/struct.go, modedit): the pinned versions, the
  resolution of dependencies against the mod portal, and the check of the resulting plan.  What \<open>DownloadModInfo\<close> answers is the field \<open>me_info\<close> of the
  environment; the code's depth counter bounds the recursion, so that \<open>resolve n\<close> is the call at
  depth \<open>11 - n\<close>.  Progress reports and log lines are left out.
\<close>

section \<open>Data\<close>

record mod_release =
  mr_url :: string
  mr_file :: string
  mr_deps :: "string list"
  mr_factorio :: string
  mr_sha1 :: string
  mr_version :: string

record mod_zip =
  mz_name :: string
  mz_version :: string
  mz_deps :: "string list"
  mz_filename :: string
  mz_enabled :: bool

definition no_zip :: mod_zip where
  "no_zip = \<lparr>mz_name = [], mz_version = [], mz_deps = [], mz_filename = [], mz_enabled = False\<rparr>"

record mod_portal =
  mp_name :: string
  mp_title :: string
  mp_releases :: "mod_release list"
  mp_installed :: mod_zip

record download =
  dl_name :: string
  dl_title :: string
  dl_filename :: string
  dl_old_filename :: string
  dl_req_name :: string
  dl_req_version :: string
  dl_data :: mod_release
  dl_complete :: bool
  dl_version :: string
  dl_old_version :: string
  dl_was_dep :: bool

record mod_data =
  md_name :: string
  md_enabled :: bool

type_synonym version_prefs = "(string \<times> string) list"

record mod_env =
  me_game :: string
  me_info :: "string \<Rightarrow> string + mod_portal"
  me_prefs :: version_prefs

datatype mod_error = BadVersion version_error | InfoFailed string | PreferredUnresolved string string
  | NoCompatibleRelease string

section \<open>Preferred versions (modedit)\<close>

fun GetVersion :: "version_prefs \<Rightarrow> string \<Rightarrow> string" where
  "GetVersion [] name = []"
| "GetVersion ((n, v) # ps) name = (if equal_fold n name then v else GetVersion ps name)"

fun remove_first :: "string \<Rightarrow> version_prefs \<Rightarrow> version_prefs" where
  "remove_first name [] = []"
| "remove_first name ((n, v) # ps) = (if equal_fold n name then ps else (n, v) # remove_first name ps)"

definition SetVersion :: "string \<Rightarrow> string \<Rightarrow> version_prefs \<Rightarrow> version_prefs" where
  "SetVersion name version prefs =
     (let prefs = remove_first name prefs in if version \<noteq> [] then prefs @ [(name, version)] else prefs)"

section \<open>Resolving dependencies\<close>

definition dependencySatisfied :: "dep_requires \<Rightarrow> string \<Rightarrow> download list \<Rightarrow> version_error + bool" where
  "dependencySatisfied d installedVersion planned =
     (let version = (case find (\<lambda>item. dl_name item = dep_name d) planned of
                       Some item \<Rightarrow> dl_version item | None \<Rightarrow> installedVersion)
      in if version = [] then Inr False
         else if dep_version d = [] then Inr True
         else checkVersion (dep_equality d) (dep_version d) version)"

definition releaseMatchesFactorioVersion :: "mod_env \<Rightarrow> mod_release \<Rightarrow> bool" where
  "releaseMatchesFactorioVersion env rel =
     (let modVersion = trim_space (mr_factorio rel); gameVersion = trim_space (me_game env) in
      if modVersion = [] \<or> gameVersion = [] \<or> equal_fold gameVersion ''Unknown'' then True
      else case versionToInt modVersion of
          Inl _ \<Rightarrow> False
        | Inr m \<Rightarrow> (case versionToInt gameVersion of
              Inl _ \<Rightarrow> True
            | Inr g \<Rightarrow> m ! 0 = g ! 0 \<and> m ! 1 = g ! 1))"

fun addDownload :: "download \<Rightarrow> download list \<Rightarrow> download list" where
  "addDownload input [] = [input]"
| "addDownload input (item # list) =
     (if dl_name item = dl_name input then
        (case checkVersion EO_GREATER (mr_version (dl_data item)) (mr_version (dl_data input)) of
           Inl _ \<Rightarrow> item # list
         | Inr newer \<Rightarrow> (if newer then input else item) # list)
      else item # addDownload input list)"

definition required_by :: "string \<Rightarrow> string \<Rightarrow> download \<Rightarrow> download" where
  "required_by name version d =
     (if dl_req_name d = [] then d\<lparr>dl_req_name := name, dl_req_version := version\<rparr> else d)"

text \<open>The loop over the dependencies of one release; \<open>rec\<close> is the recursive call for a dependency.\<close>

fun check_deps :: "(string list \<Rightarrow> mod_portal list \<Rightarrow> mod_error + download list) \<Rightarrow> mod_env \<Rightarrow> mod_portal list \<Rightarrow>
    string list \<Rightarrow> mod_portal \<Rightarrow> mod_release \<Rightarrow> string list \<Rightarrow> bool \<Rightarrow> download list \<Rightarrow> mod_error + (bool \<times> download list)" where
  "check_deps rec env modPortalData parents item rel [] depsMet releaseDeps = Inr (depsMet, releaseDeps)"
| "check_deps rec env modPortalData parents item rel (dep # deps) depsMet releaseDeps =
     (let d = parseDep dep; continue = check_deps rec env modPortalData parents item rel deps in
      if dep_incompatible d then continue depsMet releaseDeps
      else if dep_optional d then continue depsMet releaseDeps
      else if IsBaseMod (dep_name d) then
        (if dep_version d \<noteq> [] then
           (case checkVersion (dep_equality d) (dep_version d) (me_game env) of
              Inr True \<Rightarrow> continue depsMet releaseDeps
            | _ \<Rightarrow> continue False releaseDeps)
         else continue depsMet releaseDeps)
      else
        (case (case find (\<lambda>i. mp_name i = dep_name d) modPortalData of
                 Some i \<Rightarrow> Inr i | None \<Rightarrow> me_info env (dep_name d)) of
           Inl e \<Rightarrow> Inl (InfoFailed e)
         | Inr depPortalInfo \<Rightarrow>
             (case rec (parents @ [mp_name item]) [depPortalInfo] of
                Inl e \<Rightarrow> Inl e
              | Inr dl \<Rightarrow>
                  (case dependencySatisfied d (mz_version (mp_installed depPortalInfo)) dl of
                     Inl e \<Rightarrow> Inl (BadVersion e)
                   | Inr good \<Rightarrow>
                       if \<not> good then continue False releaseDeps
                       else continue depsMet
                         (foldl (\<lambda>ds x. addDownload (required_by (mp_name item) (mr_version rel) x) ds) releaseDeps dl)))))"

text \<open>The loop over the releases of one mod, with the candidate, its dependencies and
  \<open>preferredResolved\<close>.\<close>

fun check_releases :: "(string list \<Rightarrow> mod_portal list \<Rightarrow> mod_error + download list) \<Rightarrow> mod_env \<Rightarrow> mod_portal list \<Rightarrow>
    string list \<Rightarrow> mod_portal \<Rightarrow> string \<Rightarrow> mod_release list \<Rightarrow> mod_release \<times> download list \<times> bool \<Rightarrow>
    mod_error + (mod_release \<times> download list \<times> bool)" where
  "check_releases rec env modPortalData parents item preferred [] cand = Inr cand"
| "check_releases rec env modPortalData parents item preferred (rel # rels) cand =
     (let continue = check_releases rec env modPortalData parents item preferred rels;
          installed = mz_version (mp_installed item) in
      if preferred \<noteq> [] \<and> mr_version rel \<noteq> preferred then continue cand
      else case (if preferred \<noteq> [] \<or> installed = [] then Inr True
                 else checkVersion EO_GREATER installed (mr_version rel)) of
          Inl e \<Rightarrow> Inl (BadVersion e)
        | Inr False \<Rightarrow> continue cand
        | Inr True \<Rightarrow>
            (case checkVersion EO_GREATER (mr_version (fst cand)) (mr_version rel) of
               Inl e \<Rightarrow> Inl (BadVersion e)
             | Inr releaseNewer \<Rightarrow>
                 if releaseNewer \<or> preferred \<noteq> [] then
                   (if \<not> releaseMatchesFactorioVersion env rel then continue cand
                    else case check_deps rec env modPortalData parents item rel (mr_deps rel) True [] of
                        Inl e \<Rightarrow> Inl e
                      | Inr (depsMet, releaseDeps) \<Rightarrow>
                          if depsMet then continue (rel, releaseDeps, True) else continue cand)
                 else continue cand))"

definition no_release :: "string \<Rightarrow> mod_release" where
  "no_release v = \<lparr>mr_url = [], mr_file = [], mr_deps = [], mr_factorio = [], mr_sha1 = [], mr_version = v\<rparr>"

definition preferred_version :: "mod_env \<Rightarrow> string \<Rightarrow> string" where
  "preferred_version env name =
     (let v = GetVersion (me_prefs env) name in if equal_fold v ''auto'' then [] else v)"

definition new_download :: "bool \<Rightarrow> mod_portal \<Rightarrow> mod_release \<Rightarrow> download" where
  "new_download wasDep item candidate = \<lparr>dl_name = mp_name item, dl_title = mp_title item,
     dl_filename = mr_file candidate, dl_old_filename = mz_filename (mp_installed item), dl_req_name = [],
     dl_req_version = [], dl_data = candidate, dl_complete = False, dl_version = mr_version candidate,
     dl_old_version = mz_version (mp_installed item), dl_was_dep = wasDep\<rparr>"

text \<open>One turn of the loop over the mods.\<close>

definition resolve_item :: "(string list \<Rightarrow> mod_portal list \<Rightarrow> mod_error + download list) \<Rightarrow> mod_env \<Rightarrow> bool \<Rightarrow>
    string list \<Rightarrow> mod_portal list \<Rightarrow> mod_portal \<Rightarrow> download list \<Rightarrow> mod_error + download list" where
  "resolve_item rec env wasDep parents modPortalData item downloadMods =
     (if mp_name item \<in> set parents then Inr downloadMods
      else
        (let installed = mz_version (mp_installed item);
             preferred = preferred_version env (mp_name item);
             start = no_release (if installed \<noteq> [] then installed else ''0.0.0'')
         in case check_releases rec env modPortalData parents item preferred (mp_releases item) (start, [], False) of
              Inl e \<Rightarrow> Inl e
            | Inr (candidate, candidateDeps, preferredResolved) \<Rightarrow>
                if preferred \<noteq> [] \<and> \<not> preferredResolved then Inl (PreferredUnresolved preferred (mp_name item))
                else if \<not> wasDep \<and> mr_version candidate = ''0.0.0'' then Inl (NoCompatibleRelease (mp_name item))
                else
                  (let downloadMods = foldl (\<lambda>ds x. addDownload x ds) downloadMods candidateDeps in
                   if mr_version candidate \<noteq> ''0.0.0'' \<and> installed \<noteq> mr_version candidate
                   then Inr (addDownload (new_download wasDep item candidate) downloadMods)
                   else Inr downloadMods)))"

fun resolve_items :: "(string list \<Rightarrow> mod_portal list \<Rightarrow> mod_error + download list) \<Rightarrow> mod_env \<Rightarrow> bool \<Rightarrow>
    string list \<Rightarrow> mod_portal list \<Rightarrow> mod_portal list \<Rightarrow> download list \<Rightarrow> mod_error + download list" where
  "resolve_items rec env wasDep parents modPortalData [] downloadMods = Inr downloadMods"
| "resolve_items rec env wasDep parents modPortalData (item # items) downloadMods =
     (case resolve_item rec env wasDep parents modPortalData item downloadMods of
        Inl e \<Rightarrow> Inl e
      | Inr downloadMods \<Rightarrow> resolve_items rec env wasDep parents modPortalData items downloadMods)"

primrec resolve :: "nat \<Rightarrow> mod_env \<Rightarrow> bool \<Rightarrow> string list \<Rightarrow> mod_portal list \<Rightarrow> mod_error + download list" where
  "resolve 0 env wasDep parents modPortalData = Inr []"
| "resolve (Suc n) env wasDep parents modPortalData =
     resolve_items (resolve n env True) env wasDep parents modPortalData modPortalData []"

definition resolveDepsWithPrefs :: "mod_env \<Rightarrow> bool \<Rightarrow> nat \<Rightarrow> string list \<Rightarrow> mod_portal list \<Rightarrow> mod_error + download list" where
  "resolveDepsWithPrefs env wasDep depth parents modPortalData = resolve (11 - depth) env wasDep parents modPortalData"

section \<open>The plan\<close>

record inc_mod =
  im_name :: string
  im_version :: string
  im_deps :: "string list"

datatype plan_error = InvalidDependency string string version_error | IncompatibleMods string string
  | MissingDependency string string

definition final_mods :: "mod_zip list \<Rightarrow> download list \<Rightarrow> (string, inc_mod) gomap" where
  "final_mods installed downloads =
     foldl (\<lambda>m d. gm_put m (dl_name d) \<lparr>im_name = dl_name d, im_version = dl_version d, im_deps = mr_deps (dl_data d)\<rparr>)
       (foldl (\<lambda>m z. if mz_enabled z then gm_put m (mz_name z)
          \<lparr>im_name = mz_name z, im_version = mz_version z, im_deps = mz_deps z\<rparr> else m) [] installed)
       downloads"

definition final_version :: "string \<Rightarrow> (string, inc_mod) gomap \<Rightarrow> string \<Rightarrow> string" where
  "final_version game final name =
     (if name = ''base'' then game else case gm_get final name of None \<Rightarrow> [] | Some m \<Rightarrow> im_version m)"

text \<open>The check of one dependency of the mod \<open>name\<close>: \<open>None\<close> lets the loop go on.\<close>

definition check_plan_dep :: "string \<Rightarrow> (string, inc_mod) gomap \<Rightarrow> string \<Rightarrow> string \<Rightarrow> plan_error option" where
  "check_plan_dep game final name raw =
     (let d = parseDep raw; version = final_version game final (dep_name d);
          present = (version \<noteq> [] \<and> version \<noteq> ''0.0.0'') in
      if \<not> present \<and> (dep_optional d \<or> dep_incompatible d) then None
      else case (if present \<and> dep_version d \<noteq> [] then checkVersion (dep_equality d) (dep_version d) version else Inr present) of
          Inl e \<Rightarrow> Some (InvalidDependency raw name e)
        | Inr matches \<Rightarrow>
            if dep_incompatible d then (if matches then Some (IncompatibleMods name (dep_name d)) else None)
            else if \<not> matches then Some (MissingDependency name raw) else None)"

fun first_error :: "('a \<Rightarrow> 'e option) \<Rightarrow> 'a list \<Rightarrow> 'e option" where
  "first_error f [] = None"
| "first_error f (x # xs) = (case f x of Some e \<Rightarrow> Some e | None \<Rightarrow> first_error f xs)"

definition validateDownloadPlan :: "string \<Rightarrow> mod_zip list \<Rightarrow> download list \<Rightarrow> plan_error option" where
  "validateDownloadPlan game installed downloads =
     (let final = final_mods installed downloads in
      first_error (\<lambda>name. case gm_get final name of
          None \<Rightarrow> None
        | Some m \<Rightarrow> first_error (check_plan_dep game final name) (im_deps m)) (sort (gm_keys final)))"

section \<open>Facts\<close>

lemma first_error_None: "first_error f xs = None \<longleftrightarrow> (\<forall>x \<in> set xs. f x = None)"
  by (induction xs) (auto split: option.splits)

text \<open>A map filled in a loop holds what was written last.\<close>

lemma foldl_put_get:
  "gm_get (foldl (\<lambda>m x. if P x then gm_put m (k x) (f x) else m) m0 xs) n =
    (case find (\<lambda>x. P x \<and> k x = n) (rev xs) of Some x \<Rightarrow> Some (f x) | None \<Rightarrow> gm_get m0 n)"
  by (induction xs rule: rev_induct) auto

lemmas foldl_gm_put_get = foldl_put_get [where P = "\<lambda>_. True", simplified]

end
