(* ===== verification/Go_Hash.thy ===== *)
theory Go_Hash
  imports CW_Prelude
begin

text \<open>
  \<open>crypto/sha1\<close> and \<open>encoding/hex\<close>: the digest of a byte sequence, as the mod updater compares it.
\<close>

section \<open>SHA-1\<close>

definition be_bytes :: "nat \<Rightarrow> nat \<Rightarrow> byte list" where
  "be_bytes n x = rev (le_put n x)"

definition be_word :: "byte list \<Rightarrow> 32 word" where
  "be_word bs = of_nat (le_get (rev bs))"

definition rotate_left :: "nat \<Rightarrow> 32 word \<Rightarrow> 32 word" where
  "rotate_left n w = push_bit n w OR drop_bit (32 - n) w"

definition sha1_pad :: "byte list \<Rightarrow> byte list" where
  "sha1_pad m = m @ [0x80] @ replicate ((119 - length m mod 64) mod 64) 0 @ be_bytes 8 (8 * length m)"

fun chunks :: "nat \<Rightarrow> nat \<Rightarrow> 'a list \<Rightarrow> 'a list list" where
  "chunks 0 k xs = []"
| "chunks (Suc n) k xs = take k xs # chunks n k (drop k xs)"

text \<open>The message schedule, newest word first.\<close>

fun schedule :: "nat \<Rightarrow> 32 word list \<Rightarrow> 32 word list" where
  "schedule 0 ws = ws"
| "schedule (Suc n) ws = schedule n (rotate_left 1 (ws ! 2 XOR ws ! 7 XOR ws ! 13 XOR ws ! 15) # ws)"

fun sha1_round :: "32 word \<times> 32 word \<times> 32 word \<times> 32 word \<times> 32 word \<Rightarrow> nat \<times> 32 word \<Rightarrow>
    32 word \<times> 32 word \<times> 32 word \<times> 32 word \<times> 32 word" where
  "sha1_round (a, b, c, d, e) (t, w) =
     (let (f, k) = (if t < 20 then ((b AND c) OR (NOT b AND d), 0x5a827999)
                    else if t < 40 then (b XOR c XOR d, 0x6ed9eba1)
                    else if t < 60 then ((b AND c) OR (b AND d) OR (c AND d), 0x8f1bbcdc)
                    else (b XOR c XOR d, 0xca62c1d6))
      in (rotate_left 5 a + f + e + k + w, a, rotate_left 30 b, c, d))"

fun sha1_block :: "32 word \<times> 32 word \<times> 32 word \<times> 32 word \<times> 32 word \<Rightarrow> byte list \<Rightarrow>
    32 word \<times> 32 word \<times> 32 word \<times> 32 word \<times> 32 word" where
  "sha1_block (h0, h1, h2, h3, h4) block =
     (let ws = rev (schedule 64 (rev (map be_word (chunks 16 4 block))));
          (a, b, c, d, e) = foldl sha1_round (h0, h1, h2, h3, h4) (zip [0..<80] ws)
      in (h0 + a, h1 + b, h2 + c, h3 + d, h4 + e))"

definition sha1_sum :: "byte list \<Rightarrow> byte list" where
  "sha1_sum m =
     (let p = sha1_pad m;
          (a, b, c, d, e) = foldl sha1_block (0x67452301, 0xefcdab89, 0x98badcfe, 0x10325476, 0xc3d2e1f0)
            (chunks (length p div 64) 64 p)
      in concat (map (\<lambda>w. be_bytes 4 (unat w)) [a, b, c, d, e]))"

section \<open>Hexadecimal text\<close>

definition hex_digit :: "nat \<Rightarrow> char" where
  "hex_digit n = ''0123456789abcdef'' ! n"

definition hex_EncodeToString :: "byte list \<Rightarrow> string" where
  "hex_EncodeToString bs = concat (map (\<lambda>b. [hex_digit (unat b div 16), hex_digit (unat b mod 16)]) bs)"

text \<open>The digest always has 20 bytes, written as 40 digits.\<close>

lemma length_sha1_sum [simp]: "length (sha1_sum m) = 20"
  by (simp add: sha1_sum_def be_bytes_def Let_def split: prod.splits)

lemma length_hex [simp]: "length (hex_EncodeToString bs) = 2 * length bs"
  by (induction bs) (simp_all add: hex_EncodeToString_def)

end
