(* ===== verification/Mod_Install.thy ===== *)
theory Mod_Install
  imports Mod_Update Go_Hash
begin

text \<open>
  The files of the mod updater (modupdate/util.go, modupdate/modHistory.go, modupdate/newUpdate.go,
  fact/util.go): reading the archives of the mods folder, merging them with mod-list.json, downloading
  and replacing mods, the history, and the whole update.  Reading a zip archive (\<open>archive/zip\<close>) and
  decoding an info.json are the fields \<open>lib_unzip\<close> and \<open>lib_json\<close>; the web and the file system say in
  \<open>web\<close> what succeeds; \<open>w_partial\<close> is what a failed write leaves under the name of the temporary file.
\<close>

section \<open>Archives\<close>

record zip_entry =
  ze_name :: string
  ze_size :: uint64
  ze_data :: "byte list option"

record mod_libs =
  lib_unzip :: "byte list \<Rightarrow> zip_entry list option"
  lib_json :: "byte list \<Rightarrow> mod_zip option"

fun info_json :: "zip_entry list \<Rightarrow> byte list option" where
  "info_json [] = None"
| "info_json (e # es) =
     (if has_suffix (ze_name e) ''info.json'' \<and> length (filter (\<lambda>c. c = CHR ''/'') (ze_name e)) < 2 then ze_data e
      else info_json es)"

definition getModJSON :: "mod_libs \<Rightarrow> byte list \<Rightarrow> byte list option" where
  "getModJSON libs data = (case lib_unzip libs data of None \<Rightarrow> None | Some es \<Rightarrow> info_json es)"

definition modInfoRead :: "mod_libs \<Rightarrow> byte list option \<Rightarrow> mod_zip option" where
  "modInfoRead libs rawData =
     (case rawData of None \<Rightarrow> None | Some data \<Rightarrow>
       (case getModJSON libs data of None \<Rightarrow> None | Some j \<Rightarrow> lib_json libs j))"

definition MaxZipSize :: uint64 where "MaxZipSize = 1024 * 1024 * 1024"

fun zip_bomb :: "uint64 \<Rightarrow> zip_entry list \<Rightarrow> bool" where
  "zip_bomb totalSize [] = (MaxZipSize < totalSize)"
| "zip_bomb totalSize (e # es) = (if MaxZipSize < ze_size e then True else zip_bomb (totalSize + ze_size e) es)"

definition BytesHasZipBomb :: "mod_libs \<Rightarrow> byte list \<Rightarrow> bool" where
  "BytesHasZipBomb libs data = (case lib_unzip libs data of None \<Rightarrow> False | Some es \<Rightarrow> zip_bomb 0 es)"

definition checkSHA1 :: "byte list \<Rightarrow> string \<Rightarrow> bool" where
  "checkSHA1 data checkHash = equal_fold (hex_EncodeToString (sha1_sum data)) checkHash"

section \<open>The mod portal\<close>

text \<open>\<open>url.PathEscape\<close>, \<open>DownloadModInfo\<close> and its cache; the answers of the web server and the JSON decoder
  are arguments.\<close>

record portal_web =
  pw_get :: "string \<Rightarrow> string + byte list"
  pw_decode :: "byte list \<Rightarrow> string + mod_portal"

definition path_char :: "char \<Rightarrow> bool" where
  "path_char c \<longleftrightarrow> is_digit c \<or> (CHR ''a'' \<le> c \<and> c \<le> CHR ''z'') \<or> (CHR ''A'' \<le> c \<and> c \<le> CHR ''Z'') \<or>
     c \<in> set ''-_.~$&+=:@''"

definition upper_hex :: "nat \<Rightarrow> char" where
  "upper_hex n = ''0123456789ABCDEF'' ! n"

definition PathEscape :: "string \<Rightarrow> string" where
  "PathEscape s = concat (map (\<lambda>c. if path_char c then [c]
     else [CHR ''%'', upper_hex (of_char c div 16), upper_hex (of_char c mod 16)]) s)"

definition no_portal :: mod_portal where
  "no_portal = \<lparr>mp_name = [], mp_title = [], mp_releases = [], mp_installed = no_zip\<rparr>"

type_synonym info_cache = "(string, mod_portal) gomap"

definition resetModInfoCache :: info_cache where "resetModInfoCache = []"

definition DownloadModInfo :: "portal_web \<Rightarrow> string \<Rightarrow> info_cache \<Rightarrow> (string + mod_portal) \<times> info_cache" where
  "DownloadModInfo web name modInfoCache =
     (if IsBaseMod name then (Inr no_portal, modInfoCache)
      else
        (let name = PathEscape name in
         case gm_get modInfoCache name of
           Some cached \<Rightarrow> (Inr cached, modInfoCache)
         | None \<Rightarrow>
             (case pw_get web (''https://mods.factorio.com/api/mods/'' @ name @ ''/full'') of
                Inl e \<Rightarrow> (Inl (''Mod info request for '' @ name @ '' failed: '' @ e), modInfoCache)
              | Inr data \<Rightarrow>
                  (case pw_decode web data of
                     Inl e \<Rightarrow> (Inl (''Mod info unmarshal failed: '' @ e), modInfoCache)
                   | Inr newInfo \<Rightarrow>
                       if trim_space (mp_name newInfo) = []
                       then (Inl (''mod not found or invalid portal response: '' @ name), modInfoCache)
                       else (Inr newInfo, gm_put modInfoCache name newInfo)))))"

section \<open>Installed mods\<close>

text \<open>A folder entry with its contents, \<open>None\<close> when it cannot be read.\<close>

definition add_mod_file :: "mod_libs \<Rightarrow> (string, mod_zip) gomap \<Rightarrow> string \<times> byte list option \<Rightarrow> (string, mod_zip) gomap" where
  "add_mod_file libs modMap entry =
     (if \<not> has_suffix (fst entry) ''.zip'' then modMap
      else case modInfoRead libs (snd entry) of
          None \<Rightarrow> modMap
        | Some info \<Rightarrow>
            (let info = info\<lparr>mz_filename := fst entry\<rparr> in
             case gm_get modMap (mz_name info) of
               None \<Rightarrow> gm_put modMap (mz_name info) info
             | Some old \<Rightarrow> (case checkVersion EO_GREATER (mz_version old) (mz_version info) of
                   Inr True \<Rightarrow> gm_put modMap (mz_name info) info
                 | _ \<Rightarrow> modMap)))"

definition GetModFiles :: "mod_libs \<Rightarrow> (string \<times> byte list option) list option \<Rightarrow> string + mod_zip list" where
  "GetModFiles libs folder =
     (case folder of None \<Rightarrow> Inl ''unable to read mods dir''
      | Some entries \<Rightarrow> Inr (map snd (foldl (add_mod_file libs) [] entries)))"

fun merge_files :: "mod_zip list \<Rightarrow> mod_zip list \<Rightarrow> mod_zip list" where
  "merge_files [] installedMods = installedMods"
| "merge_files (modFile # rest) installedMods =
     merge_files rest (if mz_name modFile \<in> mz_name ` set installedMods then installedMods
       else installedMods @ [modFile\<lparr>mz_enabled := True\<rparr>])"

fun set_enabled :: "string \<Rightarrow> bool \<Rightarrow> mod_zip list \<Rightarrow> bool \<times> mod_zip list" where
  "set_enabled name b [] = (False, [])"
| "set_enabled name b (z # zs) = (if mz_name z = name then (True, z\<lparr>mz_enabled := b\<rparr> # zs)
     else let (dupe, zs) = set_enabled name b zs in (dupe, z # zs))"

fun merge_list :: "string \<Rightarrow> mod_data list \<Rightarrow> mod_zip list \<Rightarrow> mod_zip list" where
  "merge_list game [] installedMods = installedMods"
| "merge_list game (m # rest) installedMods =
     (let (dupe, mods) = set_enabled (md_name m) (md_enabled m) installedMods in
      merge_list game rest (if dupe then mods
        else mods @ [no_zip\<lparr>mz_name := md_name m, mz_version := (if IsBaseMod (md_name m) then game else ''0.0.0''),
          mz_enabled := md_enabled m\<rparr>]))"

definition MergeModLists :: "string \<Rightarrow> mod_zip list \<Rightarrow> mod_data list \<Rightarrow> mod_zip list" where
  "MergeModLists game modFileList jsonMods = merge_list game jsonMods (merge_files modFileList [])"

section \<open>History\<close>

record history_item =
  hi_info :: bool
  hi_name :: string
  hi_notes :: string
  hi_version :: string
  hi_old_version :: string
  hi_filename :: string
  hi_old_filename :: string
  hi_date :: gotime

definition BootName :: string where "BootName = ''Factorio Booted''"
definition InstalledNote :: string where "InstalledNote = ''Installed''"
definition AddedNote :: string where "AddedNote = ''Added by''"
definition UpdatedNote :: string where "UpdatedNote = ''Updated''"

fun replace_added :: "history_item \<Rightarrow> history_item list \<Rightarrow> history_item list option" where
  "replace_added new [] = None"
| "replace_added new (h # hs) =
     (if hi_name h = hi_name new \<and> has_prefix (hi_notes h) AddedNote then Some (new\<lparr>hi_notes := hi_notes h\<rparr> # hs)
      else map_option ((#) h) (replace_added new hs))"

definition AddModHistory :: "history_item \<Rightarrow> history_item list \<Rightarrow> history_item list" where
  "AddModHistory new hist =
     (case (if hi_notes new = InstalledNote then replace_added new hist else None) of
        Some hist' \<Rightarrow> hist'
      | None \<Rightarrow>
          if hi_name new = BootName \<and> hist \<noteq> [] \<and> hi_name (last hist) = BootName then butlast hist @ [new]
          else if list_ex (\<lambda>h. \<not> hi_info h \<and> hi_name h = hi_name new \<and> hi_version h = hi_version new) hist then hist
          else hist @ [new])"

section \<open>Downloading\<close>

record web =
  w_fetch :: "string \<Rightarrow> byte list option"
  w_write :: "string \<Rightarrow> bool"
  w_partial :: "string \<Rightarrow> byte list option"
  w_rename :: "string \<Rightarrow> bool"
  w_remove :: "string \<Rightarrow> bool"
  w_now :: gotime

type_synonym mods_folder = "(string, byte list) gomap"

text \<open>What is known to be good about fetched data before anything is written.\<close>

definition verified :: "mod_libs \<Rightarrow> download \<Rightarrow> byte list \<Rightarrow> bool" where
  "verified libs dl data \<longleftrightarrow> checkSHA1 data (mr_sha1 (dl_data dl)) \<and>
     (case modInfoRead libs (Some data) of
        None \<Rightarrow> False | Some z \<Rightarrow> mz_name z = dl_name dl \<and> mz_version z = mr_version (dl_data dl)) \<and>
     \<not> BytesHasZipBomb libs data"

definition history_of :: "gotime \<Rightarrow> download \<Rightarrow> history_item" where
  "history_of now dl =
     (let note = (if dl_old_filename dl \<noteq> [] then UpdatedNote else InstalledNote);
          note = (if dl_was_dep dl \<and> dl_req_name dl \<noteq> []
                  then note @ '' dependency for '' @ dl_req_name dl @ ''-'' @ dl_req_version dl else note)
      in \<lparr>hi_info = False, hi_name = dl_name dl, hi_notes = note, hi_version = mr_version (dl_data dl),
          hi_old_version = dl_old_version dl, hi_filename = mr_file (dl_data dl),
          hi_old_filename = dl_old_filename dl, hi_date = now\<rparr>)"

text \<open>One turn of the loop: the download with its mark, the folder and the history.\<close>

definition download_one :: "mod_libs \<Rightarrow> web \<Rightarrow> download \<Rightarrow> mods_folder \<times> history_item list \<Rightarrow>
    download \<times> mods_folder \<times> history_item list" where
  "download_one libs web dl s =
     (let (folder, hist) = s; file = mr_file (dl_data dl) in
      if contains_str (dl_name dl) ''!'' \<or> IsBaseMod (dl_name dl) then (dl, s)
      else case w_fetch web (mr_url (dl_data dl)) of
          None \<Rightarrow> (dl, s)
        | Some data \<Rightarrow>
            if \<not> verified libs dl data then (dl, s)
            else if \<not> w_write web (file @ ''.tmp'') then
              (dl, (case w_partial web (file @ ''.tmp'') of
                      None \<Rightarrow> folder | Some part \<Rightarrow> gm_put folder (file @ ''.tmp'') part), hist)
            else
              (let folder = gm_put folder (file @ ''.tmp'') data in
               if \<not> w_rename web file then (dl, folder, hist)
               else
                 (let folder = gm_put (gm_del folder (file @ ''.tmp'')) file data in
                  if dl_old_filename dl \<noteq> [] \<and> \<not> w_remove web (dl_old_filename dl) then (dl, folder, hist)
                  else
                    (dl\<lparr>dl_complete := True\<rparr>,
                     if dl_old_filename dl \<noteq> [] then gm_del folder (dl_old_filename dl) else folder,
                     AddModHistory (history_of (w_now web) dl) hist))))"

fun downloadMods :: "mod_libs \<Rightarrow> web \<Rightarrow> download list \<Rightarrow> mods_folder \<times> history_item list \<Rightarrow>
    download list \<times> mods_folder \<times> history_item list" where
  "downloadMods libs web [] s = ([], s)"
| "downloadMods libs web (dl # dls) s =
     (let (dl, s) = download_one libs web dl s; (dls, s) = downloadMods libs web dls s in (dl # dls, s))"

definition getCompletedDownloadCount :: "download list \<Rightarrow> nat" where
  "getCompletedDownloadCount dls = length (filter dl_complete dls)"

section \<open>The update\<close>

datatype op_event = OpBegin | OpFail string | OpComplete string | OpCancel

datatype update_error = LockFailed | NoModsFolder string | NoInstalledMods | PortalFailed string
  | ResolveFailed mod_error | PlanRejected plan_error | PartialDownload | DownloadsFailed | NoUpdates

record update_world =
  uw_folder :: mods_folder
  uw_history :: "history_item list"
  uw_events :: "op_event list"

record update_env =
  ue_lock :: bool
  ue_files :: "(string \<times> byte list option) list option"
  ue_list :: "mod_data list"
  ue_mod :: mod_env
  ue_libs :: mod_libs
  ue_web :: web

definition finish_op :: "op_event \<Rightarrow> update_world \<Rightarrow> update_world" where
  "finish_op e w = w\<lparr>uw_events := uw_events w @ [e]\<rparr>"

fun fetch_portal :: "mod_env \<Rightarrow> mod_zip list \<Rightarrow> string + mod_portal list" where
  "fetch_portal env [] = Inr []"
| "fetch_portal env (item # items) =
     (if \<not> mz_enabled item \<or> IsBaseMod (mz_name item) then fetch_portal env items
      else case me_info env (mz_name item) of
          Inl e \<Rightarrow> Inl e
        | Inr info \<Rightarrow> (case fetch_portal env items of
              Inl e \<Rightarrow> Inl e | Inr ps \<Rightarrow> Inr (info\<lparr>mp_installed := item\<rparr> # ps)))"

definition update_started :: "gotime \<Rightarrow> history_item" where
  "update_started now = \<lparr>hi_info = True, hi_name = ''Mod update started'', hi_notes = [], hi_version = [],
     hi_old_version = [], hi_filename = [], hi_old_filename = [], hi_date = now\<rparr>"

text \<open>The part after the plan has been accepted.\<close>

definition install_plan :: "update_env \<Rightarrow> bool \<Rightarrow> bool \<Rightarrow> download list \<Rightarrow> update_world \<Rightarrow> (bool \<times> update_error option) \<times> update_world" where
  "install_plan env dryRun suppressNoUpdates downloadList w =
     (if dryRun then ((False, None), finish_op (OpComplete ''Mod update check complete.'') w)
      else
        (let hist = (if downloadList \<noteq> [] then AddModHistory (update_started (w_now (ue_web env))) (uw_history w) else uw_history w);
             (dls, folder, hist) = downloadMods (ue_libs env) (ue_web env) downloadList (uw_folder w, hist);
             w = w\<lparr>uw_folder := folder, uw_history := hist\<rparr>;
             requested = length dls; completed = getCompletedDownloadCount dls
         in if 0 < requested \<and> completed = requested
            then ((True, None), finish_op (OpComplete ''Mod updates are ready and will apply on reboot.'') w)
            else if 0 < requested \<and> 0 < completed then ((False, Some PartialDownload), finish_op (OpFail ''partial'') w)
            else if 0 < requested then ((False, Some DownloadsFailed), finish_op (OpFail ''downloads failed'') w)
            else ((False, Some NoUpdates),
                  finish_op (if suppressNoUpdates then OpCancel else OpComplete ''No mod updates available.'') w)))"

definition CheckModUpdates :: "update_env \<Rightarrow> bool \<Rightarrow> bool \<Rightarrow> update_world \<Rightarrow> (bool \<times> update_error option) \<times> update_world" where
  "CheckModUpdates env dryRun suppressNoUpdates w =
     (if \<not> ue_lock env then ((False, Some LockFailed), w)
      else
        (let w = finish_op OpBegin w in
         case GetModFiles (ue_libs env) (ue_files env) of
           Inl e \<Rightarrow> ((False, Some (NoModsFolder e)), w)
         | Inr files \<Rightarrow>
             (let installedMods = MergeModLists (me_game (ue_mod env)) files (ue_list env) in
              if installedMods = [] then ((False, Some NoInstalledMods), finish_op (OpFail ''the game has no installed mods to update'') w)
              else case fetch_portal (ue_mod env) installedMods of
                  Inl e \<Rightarrow> ((False, Some (PortalFailed e)), finish_op (OpFail ''Checking mod updates failed'') w)
                | Inr portal \<Rightarrow>
                    (case resolveDepsWithPrefs (ue_mod env) False 0 [] portal of
                       Inl e \<Rightarrow> ((False, Some (ResolveFailed e)), finish_op (OpFail ''Resolving mod dependencies failed'') w)
                     | Inr downloadList \<Rightarrow>
                         (case validateDownloadPlan (me_game (ue_mod env)) installedMods downloadList of
                            Some e \<Rightarrow> ((False, Some (PlanRejected e)), finish_op (OpFail ''plan rejected'') w)
                          | None \<Rightarrow> install_plan env dryRun suppressNoUpdates downloadList w)))))"

end
