(* ===== verification/Mod_Properties.thy ===== *)
theory Mod_Properties
  imports Mod_Install
begin

text \<open>
  What the resolution of mods promises: a plan holds, for every mod at most once, a release the portal
  offers that fits the game and is newer than the installed one or is the pinned one.
\<close>

section \<open>Plans\<close>

definition known :: "mod_env \<Rightarrow> mod_portal list \<Rightarrow> mod_portal \<Rightarrow> bool" where
  "known env modPortalData item \<longleftrightarrow> item \<in> set modPortalData \<or> (\<exists>n. me_info env n = Inr item)"

text \<open>The release is the pinned one, or there is no pin and it is newer than what is installed.\<close>

definition eligible :: "mod_env \<Rightarrow> mod_portal \<Rightarrow> mod_release \<Rightarrow> bool" where
  "eligible env item rel \<longleftrightarrow> rel \<in> set (mp_releases item) \<and> releaseMatchesFactorioVersion env rel \<and>
     (if preferred_version env (mp_name item) \<noteq> [] then mr_version rel = preferred_version env (mp_name item)
      else mz_version (mp_installed item) = [] \<or>
        (\<exists>v w. versionToInt (mz_version (mp_installed item)) = Inr v \<and> versionToInt (mr_version rel) = Inr w \<and> v < w))"

definition good_download :: "mod_env \<Rightarrow> mod_portal list \<Rightarrow> download \<Rightarrow> bool" where
  "good_download env modPortalData d \<longleftrightarrow> (\<exists>item. (item \<in> set modPortalData \<or> dl_was_dep d \<and> known env modPortalData item) \<and> eligible env item (dl_data d) \<and>
     dl_name d = mp_name item \<and> dl_version d = mr_version (dl_data d) \<and> dl_version d \<noteq> mz_version (mp_installed item) \<and>
     dl_old_filename d = mz_filename (mp_installed item) \<and> \<not> dl_complete d)"

definition good_plan :: "mod_env \<Rightarrow> bool \<Rightarrow> string list \<Rightarrow> mod_portal list \<Rightarrow> download list \<Rightarrow> bool" where
  "good_plan env wasDep parents modPortalData ds \<longleftrightarrow> distinct (map dl_name ds) \<and>
     (\<forall>d \<in> set ds. good_download env modPortalData d \<and> dl_name d \<notin> set parents \<and> (wasDep \<longrightarrow> dl_was_dep d))"

definition good_rec :: "mod_env \<Rightarrow> (string list \<Rightarrow> mod_portal list \<Rightarrow> mod_error + download list) \<Rightarrow> bool" where
  "good_rec env rec \<longleftrightarrow> (\<forall>parents ps ds. rec parents ps = Inr ds \<longrightarrow> good_plan env True parents ps ds)"

lemma addDownload_names: "dl_name ` set (addDownload d ds) = insert (dl_name d) (dl_name ` set ds)"
  by (induction d ds rule: addDownload.induct) (auto split: sum.splits)

lemma addDownload_set: "set (addDownload d ds) \<subseteq> insert d (set ds)"
  by (induction d ds rule: addDownload.induct) (auto split: sum.splits)

lemma addDownload_distinct: "distinct (map dl_name ds) \<Longrightarrow> distinct (map dl_name (addDownload d ds))"
proof (induction d ds rule: addDownload.induct)
  case (2 d item ds)
  then show ?case using addDownload_names [of d ds] by (auto split: sum.splits)
qed simp

lemma good_plan_add:
  assumes "good_plan env b parents ps ds" "good_download env ps d" "dl_name d \<notin> set parents" "b \<longrightarrow> dl_was_dep d"
  shows "good_plan env b parents ps (addDownload d ds)"
  using assms addDownload_distinct [of ds d] addDownload_set [of d ds] by (auto simp: good_plan_def)

lemma good_download_required: "good_download env ps (required_by n v d) = good_download env ps d"
  "dl_name (required_by n v d) = dl_name d" "dl_was_dep (required_by n v d) = dl_was_dep d"
  by (auto simp: good_download_def required_by_def)

lemma good_download_mono: "good_download env [info] d \<Longrightarrow> dl_was_dep d \<Longrightarrow> known env ps info \<Longrightarrow> good_download env ps d"
proof -
  assume d: "good_download env [info] d" "dl_was_dep d" and info: "known env ps info"
  have "known env [info] x \<Longrightarrow> known env ps x" for x using info by (auto simp: known_def)
  moreover have "x \<in> set [info] \<Longrightarrow> known env ps x" for x using info by simp
  ultimately show ?thesis using d unfolding good_download_def by blast
qed

lemma good_plan_weaken:
  assumes "good_plan env True (parents @ [n]) [info] ds" "known env ps info"
  shows "\<forall>d \<in> set ds. good_download env ps d \<and> dl_name d \<notin> set parents \<and> dl_was_dep d"
  using assms good_download_mono [OF _ _ assms(2)] by (auto simp: good_plan_def)

lemma good_plan_fold:
  assumes "\<forall>d \<in> set xs. good_download env ps (f d) \<and> dl_name (f d) \<notin> set parents \<and> dl_was_dep (f d)" "good_plan env b parents ps ds"
  shows "good_plan env b parents ps (foldl (\<lambda>ds x. addDownload (f x) ds) ds xs)"
  using assms by (induction xs arbitrary: ds) (auto intro: good_plan_add)

text \<open>How a dependency that is neither skipped nor bundled is met.\<close>

lemma check_deps_step:
  assumes "check_deps rec env ps parents item rel (dep # deps) met ds = Inr res"
  obtains (same) met' where "check_deps rec env ps parents item rel deps met' ds = Inr res"
  | (more) info dl where "known env ps info" "rec (parents @ [mp_name item]) [info] = Inr dl"
      "check_deps rec env ps parents item rel deps met
        (foldl (\<lambda>ds x. addDownload (required_by (mp_name item) (mr_version rel) x) ds) ds dl) = Inr res"
proof -
  let ?d = "parseDep dep"
  let ?info = "case find (\<lambda>i. mp_name i = dep_name ?d) ps of Some i \<Rightarrow> Inr i | None \<Rightarrow> me_info env (dep_name ?d)"
  show thesis
  proof (cases "dep_incompatible ?d \<or> dep_optional ?d \<or> IsBaseMod (dep_name ?d)")
    case True
    with assms same show thesis
      by (auto simp: Let_def split: if_splits sum.splits bool.splits)
  next
    case False
    then have step: "(case ?info of Inl e \<Rightarrow> Inl (InfoFailed e) | Inr i \<Rightarrow>
        (case rec (parents @ [mp_name item]) [i] of Inl e \<Rightarrow> Inl e | Inr dl \<Rightarrow>
          (case dependencySatisfied ?d (mz_version (mp_installed i)) dl of Inl e \<Rightarrow> Inl (BadVersion e)
           | Inr good \<Rightarrow> if \<not> good then check_deps rec env ps parents item rel deps False ds
               else check_deps rec env ps parents item rel deps met
                 (foldl (\<lambda>ds x. addDownload (required_by (mp_name item) (mr_version rel) x) ds) ds dl)))) = Inr res"
      using assms by (simp add: Let_def)
    then obtain info where info: "?info = Inr info" by (cases ?info) auto
    have "known env ps info"
      using info by (auto simp: known_def find_Some_iff split: option.splits)
    moreover obtain dl where dl: "rec (parents @ [mp_name item]) [info] = Inr dl"
      using step info by (cases "rec (parents @ [mp_name item]) [info]") auto
    moreover obtain good where "dependencySatisfied ?d (mz_version (mp_installed info)) dl = Inr good"
      using step info dl by (cases "dependencySatisfied ?d (mz_version (mp_installed info)) dl") auto
    ultimately show thesis using step info more same by (cases good) simp_all
  qed
qed

lemma check_deps_good:
  assumes "good_rec env rec"
  shows "check_deps rec env ps parents item rel deps met ds = Inr (met', ds') \<Longrightarrow> good_plan env True parents ps ds \<Longrightarrow>
    good_plan env True parents ps ds'"
proof (induction deps arbitrary: met ds)
  case Nil
  then show ?case by simp
next
  case (Cons dep deps)
  from Cons.prems(1) show ?case
  proof (cases rule: check_deps_step)
    case (same met1)
    with Cons show ?thesis by blast
  next
    case (more info dl)
    have "good_plan env True (parents @ [mp_name item]) [info] dl"
      using assms more(2) by (auto simp: good_rec_def)
    from good_plan_weaken [OF this more(1)] Cons.prems(2)
    have "good_plan env True parents ps (foldl (\<lambda>ds x. addDownload (required_by (mp_name item) (mr_version rel) x) ds) ds dl)"
      by (intro good_plan_fold) (simp_all add: good_download_required)
    with Cons.IH more(3) show ?thesis by blast
  qed
qed

definition cand_ok :: "mod_env \<Rightarrow> string list \<Rightarrow> mod_portal list \<Rightarrow> mod_portal \<Rightarrow> mod_release \<Rightarrow>
    mod_release \<times> download list \<times> bool \<Rightarrow> bool" where
  "cand_ok env parents ps item start c \<longleftrightarrow> (case c of (cand, cdeps, resolved) \<Rightarrow>
     if resolved then eligible env item cand \<and> good_plan env True parents ps cdeps else cand = start \<and> cdeps = [])"

lemma good_plan_Nil [simp]: "good_plan env b parents ps []"
  by (simp add: good_plan_def)

lemma check_releases_step:
  assumes "check_releases rec env ps parents item (preferred_version env (mp_name item)) (rel # rels) c = Inr res"
    and "rel \<in> set (mp_releases item)" and "good_rec env rec" and "cand_ok env parents ps item start c"
  obtains c' where "check_releases rec env ps parents item (preferred_version env (mp_name item)) rels c' = Inr res"
    "cand_ok env parents ps item start c'"
proof -
  let ?p = "preferred_version env (mp_name item)" and ?inst = "mz_version (mp_installed item)"
  let ?go = "check_releases rec env ps parents item ?p rels"
  let ?new = "if ?p \<noteq> [] \<or> ?inst = [] then Inr True else checkVersion EO_GREATER ?inst (mr_version rel)"
  show thesis
  proof (cases "?go c = Inr res")
    case True
    with that assms(4) show thesis by blast
  next
    case False
    have pin: "?p = [] \<or> mr_version rel = ?p"
    proof (rule ccontr)
      assume "\<not> ?thesis"
      then have "?go c = Inr res" using assms(1) by (simp add: Let_def)
      with False show False by simp
    qed
    have new: "?new = Inr True"
      using assms(1) False pin by (cases ?new) (auto simp: Let_def split: bool.splits if_splits)
    obtain newer where newer: "checkVersion EO_GREATER (mr_version (fst c)) (mr_version rel) = Inr newer"
      using assms(1) False pin new
      by (cases "checkVersion EO_GREATER (mr_version (fst c)) (mr_version rel)") (auto simp: Let_def)
    have rest: "(if newer \<or> ?p \<noteq> [] then if \<not> releaseMatchesFactorioVersion env rel then ?go c
        else case check_deps rec env ps parents item rel (mr_deps rel) True [] of
            Inl e \<Rightarrow> Inl e | Inr (met, deps) \<Rightarrow> if met then ?go (rel, deps, True) else ?go c else ?go c) = Inr res"
      using assms(1) pin new newer by (auto simp: Let_def)
    then have m: "releaseMatchesFactorioVersion env rel" using False by (auto split: if_splits)
    obtain met deps where d: "check_deps rec env ps parents item rel (mr_deps rel) True [] = Inr (met, deps)"
      using rest False by (cases "check_deps rec env ps parents item rel (mr_deps rel) True []") (auto split: if_splits)
    have go: "?go (rel, deps, True) = Inr res" using rest False m d by (auto split: if_splits)
    have "eligible env item rel"
      using assms(2) m pin new by (auto simp: eligible_def checkVersion_cases split: if_splits)
    moreover have "good_plan env True parents ps deps" using check_deps_good [OF assms(3) d] by simp
    ultimately show thesis using that [OF go] by (simp add: cand_ok_def)
  qed
qed

lemma check_releases_good:
  assumes "good_rec env rec"
  shows "check_releases rec env ps parents item (preferred_version env (mp_name item)) rels c = Inr res \<Longrightarrow>
    set rels \<subseteq> set (mp_releases item) \<Longrightarrow> cand_ok env parents ps item start c \<Longrightarrow> cand_ok env parents ps item start res"
proof (induction rels arbitrary: c)
  case (Cons rel rels)
  from Cons.prems(2) have "rel \<in> set (mp_releases item)" by simp
  from check_releases_step [OF Cons.prems(1) this assms Cons.prems(3)] Cons.IH Cons.prems(2)
  show ?case by (metis set_subset_Cons subset_trans)
qed simp

lemma resolve_item_good:
  assumes "good_rec env rec" "item \<in> set ps" "good_plan env wasDep parents ps ds"
    and "resolve_item rec env wasDep parents ps item ds = Inr ds'"
  shows "good_plan env wasDep parents ps ds'"
proof (cases "mp_name item \<in> set parents")
  case True
  with assms(3,4) show ?thesis by (simp add: resolve_item_def)
next
  case False
  let ?p = "preferred_version env (mp_name item)" and ?inst = "mz_version (mp_installed item)"
  let ?start = "no_release (if ?inst \<noteq> [] then ?inst else ''0.0.0'')"
  obtain cand cdeps resolved where c: "check_releases rec env ps parents item ?p (mp_releases item) (?start, [], False)
      = Inr (cand, cdeps, resolved)"
    using assms(4) False by (cases "check_releases rec env ps parents item ?p (mp_releases item) (?start, [], False)")
      (auto simp: resolve_item_def Let_def)
  have ok: "cand_ok env parents ps item ?start (cand, cdeps, resolved)"
    by (rule check_releases_good [OF assms(1) c]) (simp_all add: cand_ok_def)
  let ?ds = "foldl (\<lambda>ds x. addDownload x ds) ds cdeps"
  have ds': "ds' = (if mr_version cand \<noteq> ''0.0.0'' \<and> ?inst \<noteq> mr_version cand
      then addDownload (new_download wasDep item cand) ?ds else ?ds)"
    using assms(4) False c by (auto simp: resolve_item_def Let_def split: if_splits)
  have deps: "\<forall>d \<in> set cdeps. good_download env ps d \<and> dl_name d \<notin> set parents \<and> dl_was_dep d"
    using ok by (cases resolved) (auto simp: cand_ok_def good_plan_def)
  have fold: "good_plan env wasDep parents ps ?ds"
    using good_plan_fold [where f = id] deps assms(3) by simp
  show ?thesis
  proof (cases "mr_version cand \<noteq> ''0.0.0'' \<and> ?inst \<noteq> mr_version cand")
    case True
    then have "resolved" using ok by (auto simp: cand_ok_def no_release_def split: if_splits)
    then have "eligible env item cand" using ok by (simp add: cand_ok_def)
    then have "good_download env ps (new_download wasDep item cand)"
      unfolding good_download_def by (intro exI [of _ item]) (use assms(2) True in \<open>auto simp: new_download_def\<close>)
    with fold False have "good_plan env wasDep parents ps (addDownload (new_download wasDep item cand) ?ds)"
      by (intro good_plan_add) (simp_all add: new_download_def)
    with ds' True show ?thesis by simp
  next
    case False
    with ds' fold show ?thesis by auto
  qed
qed

lemma resolve_items_good:
  assumes "good_rec env rec"
  shows "resolve_items rec env wasDep parents ps items ds = Inr ds' \<Longrightarrow> set items \<subseteq> set ps \<Longrightarrow>
    good_plan env wasDep parents ps ds \<Longrightarrow> good_plan env wasDep parents ps ds'"
proof (induction items arbitrary: ds)
  case (Cons item items)
  then obtain ds1 where 1: "resolve_item rec env wasDep parents ps item ds = Inr ds1"
    by (cases "resolve_item rec env wasDep parents ps item ds") auto
  have "item \<in> set ps" using Cons.prems(2) by simp
  from resolve_item_good [OF assms this Cons.prems(3) 1] Cons 1 show ?case by simp
qed simp

lemma resolve_plan: "resolve n env wasDep parents ps = Inr ds \<Longrightarrow> good_plan env wasDep parents ps ds"
proof (induction n arbitrary: wasDep parents ps ds)
  case (Suc n)
  have "good_rec env (resolve n env True)" using Suc.IH by (simp add: good_rec_def)
  from resolve_items_good [OF this] Suc.prems show ?case by simp
qed simp

text \<open>
  C25.  A plan is sound: when the resolution succeeds, every mod occurs at most once in the list of
  downloads, and each download is a release the portal entry of that mod offers, made for the running
  Factorio version; it is the version pinned for the mod if there is a pin, and otherwise newer than the
  version that entry records as installed, from which it always differs.  The entry is one of those the
  resolution was given, with the installed version in it, except for a dependency: that can come from an
  entry fetched from the portal, which records no installed version, so that a dependency of a
  dependency may be older than the archive in the folder (\<open>nested_dependency_can_downgrade\<close>).
\<close>

theorem resolved_plan_sound:
  assumes "resolveDepsWithPrefs env wasDep depth parents ps = Inr ds"
  shows "distinct (map dl_name ds) \<and> (\<forall>d \<in> set ds. dl_name d \<notin> set parents \<and>
    (\<exists>item. (item \<in> set ps \<or> dl_was_dep d \<and> (\<exists>n. me_info env n = Inr item)) \<and> dl_name d = mp_name item \<and>
       dl_data d \<in> set (mp_releases item) \<and> releaseMatchesFactorioVersion env (dl_data d) \<and>
       dl_version d = mr_version (dl_data d) \<and> dl_version d \<noteq> mz_version (mp_installed item) \<and>
       (if preferred_version env (mp_name item) \<noteq> [] then dl_version d = preferred_version env (mp_name item)
        else mz_version (mp_installed item) = [] \<or> (\<exists>v w. versionToInt (mz_version (mp_installed item)) = Inr v \<and>
          versionToInt (dl_version d) = Inr w \<and> v < w))))"
proof -
  have plan: "good_plan env wasDep parents ps ds"
    using assms resolve_plan by (auto simp: resolveDepsWithPrefs_def)
  have "\<exists>item. (item \<in> set ps \<or> dl_was_dep d \<and> (\<exists>n. me_info env n = Inr item)) \<and> dl_name d = mp_name item \<and>
       dl_data d \<in> set (mp_releases item) \<and> releaseMatchesFactorioVersion env (dl_data d) \<and>
       dl_version d = mr_version (dl_data d) \<and> dl_version d \<noteq> mz_version (mp_installed item) \<and>
       (if preferred_version env (mp_name item) \<noteq> [] then dl_version d = preferred_version env (mp_name item)
        else mz_version (mp_installed item) = [] \<or> (\<exists>v w. versionToInt (mz_version (mp_installed item)) = Inr v \<and>
          versionToInt (dl_version d) = Inr w \<and> v < w))" if "d \<in> set ds" for d
  proof -
    from plan that obtain item where "item \<in> set ps \<or> dl_was_dep d \<and> known env ps item" "eligible env item (dl_data d)" "dl_name d = mp_name item"
      "dl_version d = mr_version (dl_data d)" "dl_version d \<noteq> mz_version (mp_installed item)"
      unfolding good_plan_def good_download_def by blast
    then show ?thesis by (intro exI [of _ item]) (auto simp: known_def eligible_def split: if_splits)
  qed
  with plan show ?thesis unfolding good_plan_def by blast
qed

definition lib_release :: mod_release where
  "lib_release = \<lparr>mr_url = ''/download/flib'', mr_file = ''flib_1.1.0.zip'', mr_deps = [''base''], mr_factorio = ''2.0'',
     mr_sha1 = [], mr_version = ''1.1.0''\<rparr>"

definition lib_portal :: mod_portal where
  "lib_portal = \<lparr>mp_name = ''flib'', mp_title = ''flib'', mp_releases = [lib_release], mp_installed = no_zip\<rparr>"

definition lib_env :: mod_env where
  "lib_env = \<lparr>me_game = ''Unknown'', me_info = (\<lambda>n. Inl ''offline''), me_prefs = []\<rparr>"

lemma lib_fields: "mp_name lib_portal = ''flib''" "mp_releases lib_portal = [lib_release]" "mp_installed lib_portal = no_zip"
  "mr_version lib_release = ''1.1.0''" "mr_deps lib_release = [''base'']"
  by (simp_all add: lib_portal_def lib_release_def)

lemma version_numbers:
  "versionToInt ''0.0.0'' = Inr [0, 0, 0]" "versionToInt ''1.1.0'' = Inr [1, 1, 0]"
  by (simp_all add: versionToInt_def parse_int64_def digits_value_def is_digit_def has_prefix_def)

lemma lib_resolves: "resolveDepsWithPrefs lib_env True 10 [] [lib_portal] = Inr [new_download True lib_portal lib_release]"
proof -
  have base: "IsBaseMod (dep_name (parseDep ''base''))" "dep_version (parseDep ''base'') = []"
    by (simp_all add: parseDep_def trim_space_def is_space_def TrimPrefix_def has_prefix_def is_op_def IsBaseMod_def)
  have deps: "check_deps rec lib_env ps parents lib_portal lib_release [''base''] True [] = Inr (True, [])" for rec ps parents
    using base by (auto simp: Let_def)
  have "trim_space ''Unknown'' = ''Unknown''" by (simp add: trim_space_def is_space_def)
  then have "releaseMatchesFactorioVersion lib_env lib_release"
    by (simp add: releaseMatchesFactorioVersion_def lib_env_def equal_fold_def)
  moreover have "preferred_version lib_env ''flib'' = []" by (simp add: preferred_version_def lib_env_def Let_def)
  moreover have "checkVersion EO_GREATER ''0.0.0'' ''1.1.0'' = Inr True"
    by (subst checkVersion_holds [OF version_numbers]) simp_all
  moreover have "11 - 10 = Suc 0" by simp
  ultimately show ?thesis
    unfolding resolveDepsWithPrefs_def
    by (simp add: resolve_item_def lib_fields no_zip_def no_release_def deps del: check_deps.simps)
qed

theorem resolved_plan_sound_witness:
  "\<exists>ds. resolveDepsWithPrefs lib_env True 10 [] [lib_portal] = Inr ds \<and> distinct (map dl_name ds) \<and> length ds = 1"
  using resolved_plan_sound [OF lib_resolves] lib_resolves by auto

text \<open>
  The exception is real: with \<open>c\<close> 3.0.0 installed, an update of \<open>a\<close>, which needs \<open>b\<close>, which needs \<open>c\<close>,
  plans \<open>c\<close> 2.0.0, the release the portal offers, with no archive to replace.
\<close>

definition nested_release :: "string \<Rightarrow> string list \<Rightarrow> mod_release" where
  "nested_release v deps = lib_release\<lparr>mr_version := v, mr_deps := deps\<rparr>"

definition nested_portal :: "string \<Rightarrow> string \<Rightarrow> mod_release \<Rightarrow> mod_portal" where
  "nested_portal name v rel = \<lparr>mp_name = name, mp_title = name, mp_releases = [rel],
     mp_installed = no_zip\<lparr>mz_version := v\<rparr>\<rparr>"

definition nested_env :: mod_env where
  "nested_env = \<lparr>me_game = ''Unknown'', me_info = (\<lambda>n. Inr (nested_portal n [] (nested_release ''2.0.0'' []))), me_prefs = []\<rparr>"

definition nested_portals :: "mod_portal list" where
  "nested_portals = [nested_portal ''a'' ''1.0.0'' (nested_release ''1.1.0'' [''b'']),
     nested_portal ''b'' ''1.0.0'' (nested_release ''1.1.0'' [''c'']), nested_portal ''c'' ''3.0.0'' (nested_release ''2.0.0'' [])]"

theorem nested_dependency_can_downgrade:
  "(case resolveDepsWithPrefs nested_env False 0 [] nested_portals of
      Inl e \<Rightarrow> [] | Inr ds \<Rightarrow> map (\<lambda>d. (dl_name d, dl_version d, dl_old_version d)) ds) =
    [(''c'', ''2.0.0'', []), (''b'', ''1.1.0'', ''1.0.0''), (''a'', ''1.1.0'', ''1.0.0'')]"
  by code_simp

end
