(* ===== verification/Mod_Install_Properties.thy ===== *)
theory Mod_Install_Properties
  imports Mod_Properties
begin

text \<open>
  What the mod updater does with a plan: the check of the plan accepts exactly the plans all of whose
  dependencies hold, a download replaces a mod or leaves it alone, and an update reports success only
  when the whole plan is in place.
\<close>

section \<open>The check of a plan\<close>

text \<open>The version and the dependencies of a mod once the plan is carried out: those of its download, or
  else those of the enabled archive.\<close>

definition coexisting :: "mod_zip list \<Rightarrow> download list \<Rightarrow> string \<Rightarrow> (string \<times> string list) option" where
  "coexisting installed downloads name =
     (case find (\<lambda>d. dl_name d = name) (rev downloads) of
        Some d \<Rightarrow> Some (dl_version d, mr_deps (dl_data d))
      | None \<Rightarrow> map_option (\<lambda>z. (mz_version z, mz_deps z)) (find (\<lambda>z. mz_enabled z \<and> mz_name z = name) (rev installed)))"

definition chosen_version :: "string \<Rightarrow> mod_zip list \<Rightarrow> download list \<Rightarrow> string \<Rightarrow> string" where
  "chosen_version game installed downloads name =
     (if name = ''base'' then game else case coexisting installed downloads name of None \<Rightarrow> [] | Some (v, _) \<Rightarrow> v)"

text \<open>The required version stands in the required relation to the version \<open>v\<close>, or does not.\<close>

definition compares :: "dep_requires \<Rightarrow> string \<Rightarrow> bool \<Rightarrow> bool" where
  "compares d v b \<longleftrightarrow> (\<exists>want have. versionToInt (dep_version d) = Inr want \<and> versionToInt v = Inr have \<and>
     dep_equality d \<noteq> EO_ERROR \<and> holds (dep_equality d) have want = b)"

definition dep_fits :: "dep_requires \<Rightarrow> string \<Rightarrow> bool" where
  "dep_fits d v \<longleftrightarrow>
     (let present = v \<noteq> [] \<and> v \<noteq> ''0.0.0'' in
      if dep_incompatible d then \<not> present \<or> dep_version d \<noteq> [] \<and> compares d v False
      else if present then dep_version d = [] \<or> compares d v True
      else dep_optional d)"

lemma final_mods_get:
  "gm_get (final_mods installed downloads) n =
    map_option (\<lambda>(v, deps). \<lparr>im_name = n, im_version = v, im_deps = deps\<rparr>) (coexisting installed downloads n)"
proof -
  have name: "find (\<lambda>d. dl_name d = n) ds = Some d \<Longrightarrow> dl_name d = n" for ds d
    by (auto simp: find_Some_iff)
  have name': "find (\<lambda>z. mz_enabled z \<and> mz_name z = n) zs = Some z \<Longrightarrow> mz_name z = n" for zs z
    by (auto simp: find_Some_iff)
  note put = foldl_gm_put_get foldl_put_get [where P = mz_enabled]
  show ?thesis
    by (auto simp: final_mods_def coexisting_def put name name' split: option.splits)
qed

lemma final_version_chosen:
  "final_version game (final_mods installed downloads) n = chosen_version game installed downloads n"
  by (auto simp: final_version_def chosen_version_def final_mods_get split: option.splits)

lemma checkVersion_compares:
  "checkVersion (dep_equality d) (dep_version d) v = Inr b \<longleftrightarrow> compares d v b"
  by (auto simp: checkVersion_cases compares_def)

lemma check_plan_dep_fits:
  "check_plan_dep game final name raw = None \<longleftrightarrow> dep_fits (parseDep raw) (final_version game final (dep_name (parseDep raw)))"
proof -
  let ?d = "parseDep raw" and ?v = "final_version game final (dep_name (parseDep raw))"
  let ?c = "checkVersion (dep_equality ?d) (dep_version ?d) ?v"
  have "?c = Inr True \<longleftrightarrow> compares ?d ?v True" "?c = Inr False \<longleftrightarrow> compares ?d ?v False"
    by (rule checkVersion_compares)+
  moreover have "(\<exists>e. ?c = Inl e) \<or> ?c = Inr True \<or> ?c = Inr False"
    by (metis old.sum.exhaust)
  ultimately show ?thesis
    by (auto simp: check_plan_dep_def dep_fits_def Let_def)
qed

lemma plan_accepted:
  "validateDownloadPlan game installed downloads = None \<longleftrightarrow>
    (\<forall>name version deps. coexisting installed downloads name = Some (version, deps) \<longrightarrow>
      (\<forall>raw \<in> set deps. dep_fits (parseDep raw) (chosen_version game installed downloads (dep_name (parseDep raw)))))"
proof -
  let ?final = "final_mods installed downloads"
  let ?fit = "\<lambda>deps. \<forall>raw \<in> set deps.
    dep_fits (parseDep raw) (chosen_version game installed downloads (dep_name (parseDep raw)))"
  have "validateDownloadPlan game installed downloads = None \<longleftrightarrow>
      (\<forall>name m. gm_get ?final name = Some m \<longrightarrow> (\<forall>raw \<in> set (im_deps m). check_plan_dep game ?final name raw = None))"
    unfolding validateDownloadPlan_def Let_def first_error_None
    by (auto simp: first_error_None split: option.splits) (metis gm_get_None_iff option.distinct(1))
  moreover have "(\<forall>m. gm_get ?final name = Some m \<longrightarrow> ?fit (im_deps m)) \<longleftrightarrow>
      (\<forall>version deps. coexisting installed downloads name = Some (version, deps) \<longrightarrow> ?fit deps)" for name
    by (cases "coexisting installed downloads name") (auto simp: final_mods_get)
  ultimately show ?thesis
    by (simp add: check_plan_dep_fits final_version_chosen)
qed

text \<open>
  C17.  The check of a plan is exact: it accepts a plan if and only if every dependency of every mod
  that will be there afterwards holds, with the versions that will be there afterwards: an
  incompatible mod is absent or has a version outside the given range, a required mod is present and
  an optional one, if present, has a version in the range.
\<close>

theorem plan_check_exact:
  "validateDownloadPlan game installed downloads = None \<longleftrightarrow>
    (\<forall>name version deps. coexisting installed downloads name = Some (version, deps) \<longrightarrow>
      (\<forall>raw \<in> set deps. dep_fits (parseDep raw) (chosen_version game installed downloads (dep_name (parseDep raw)))))"
  by (rule plan_accepted)

definition lib_download :: download where
  "lib_download = new_download True lib_portal lib_release"

lemma lib_download_fields: "dl_name lib_download = ''flib''" "dl_version lib_download = ''1.1.0''"
  "dl_data lib_download = lib_release" "dl_old_filename lib_download = []" "\<not> dl_complete lib_download"
  by (simp_all add: lib_download_def new_download_def lib_fields no_zip_def)

theorem plan_check_exact_witness:
  "coexisting [] [lib_download] ''flib'' = Some (''1.1.0'', [''base'']) \<and>
   dep_fits (parseDep ''base'') (chosen_version ''2.0.0'' [] [lib_download] ''base'') \<and>
   validateDownloadPlan ''2.0.0'' [] [lib_download] = None"
proof -
  have co: "coexisting [] [lib_download] n = (if n = ''flib'' then Some (''1.1.0'', [''base'']) else None)" for n
    by (auto simp: coexisting_def lib_download_fields lib_fields)
  have fit: "dep_fits (parseDep ''base'') (chosen_version ''2.0.0'' [] [lib_download] ''base'')"
    by (simp add: dep_fits_def chosen_version_def base_dep)
  moreover have "validateDownloadPlan ''2.0.0'' [] [lib_download] = None"
    unfolding plan_check_exact using fit by (simp add: co base_dep split: if_splits)
  ultimately show ?thesis by (simp add: co)
qed

section \<open>Downloading\<close>

definition new_file :: "download \<Rightarrow> string" where
  "new_file d = mr_file (dl_data d)"

definition touched :: "download \<Rightarrow> string set" where
  "touched d = {new_file d, new_file d @ ''.tmp''} \<union> (if dl_old_filename d = [] then {} else {dl_old_filename d})"

text \<open>No two downloads work on the same file, and none is to replace the file it writes.\<close>

fun separate :: "download list \<Rightarrow> bool" where
  "separate [] = True"
| "separate (d # ds) \<longleftrightarrow> dl_old_filename d \<notin> {new_file d, new_file d @ ''.tmp''} \<and>
     (\<forall>e \<in> set ds. touched d \<inter> touched e = {}) \<and> separate ds"

text \<open>The outcome of one download \<open>d\<close>, with its mark \<open>d'\<close>, on the folder.\<close>

definition outcome :: "mod_libs \<Rightarrow> web \<Rightarrow> mods_folder \<Rightarrow> mods_folder \<Rightarrow> download \<Rightarrow> download \<Rightarrow> bool" where
  "outcome libs web folder folder' d d' \<longleftrightarrow>
     (if dl_complete d' then
        d' = d\<lparr>dl_complete := True\<rparr> \<and>
        (\<exists>data. w_fetch web (mr_url (dl_data d)) = Some data \<and> verified libs d data \<and>
           gm_get folder' (new_file d) = Some data) \<and>
        gm_get folder' (new_file d @ ''.tmp'') = None \<and>
        (dl_old_filename d \<noteq> [] \<longrightarrow> gm_get folder' (dl_old_filename d) = None)
      else
        d' = d \<and> (dl_old_filename d \<noteq> [] \<longrightarrow> gm_get folder' (dl_old_filename d) = gm_get folder (dl_old_filename d)) \<and>
        (gm_get folder' (new_file d) = gm_get folder (new_file d) \<or>
         (\<exists>data. w_fetch web (mr_url (dl_data d)) = Some data \<and> verified libs d data \<and>
            gm_get folder' (new_file d) = Some data)))"

lemma outcome_complete:
  assumes "outcome libs web folder folder' d d'" "dl_complete d'"
  shows "\<exists>data. gm_get folder' (mr_file (dl_data d)) = Some data \<and> checkSHA1 data (mr_sha1 (dl_data d)) \<and>
    (dl_old_filename d \<noteq> [] \<longrightarrow> gm_get folder' (dl_old_filename d) = None)"
  using assms by (auto simp: outcome_def new_file_def verified_def)

lemma outcome_cong:
  assumes "outcome libs web f1 f2 d d'" "\<forall>n \<in> touched d. gm_get g1 n = gm_get f1 n \<and> gm_get g2 n = gm_get f2 n"
  shows "outcome libs web g1 g2 d d'"
  using assms by (auto simp: outcome_def touched_def split: if_splits)

lemma download_one_outcome:
  assumes "download_one libs web d (folder, hist) = (d', folder', hist')" "separate [d]" "\<not> dl_complete d"
  shows "outcome libs web folder folder' d d'" "n \<notin> touched d \<Longrightarrow> gm_get folder' n = gm_get folder n"
    "\<not> dl_complete d' \<Longrightarrow> hist' = hist"
  using assms
  by (auto simp: download_one_def outcome_def touched_def new_file_def Let_def split: if_splits option.splits)

lemma download_one_frame:
  assumes "download_one libs web d s = (d', s')" "n \<notin> touched d"
  shows "gm_get (fst s') n = gm_get (fst s) n"
  using assms
  by (cases s) (auto simp: download_one_def touched_def new_file_def Let_def split: if_splits option.splits)

lemma downloadMods_frame:
  "downloadMods libs web ds s = (ds', s') \<Longrightarrow> \<forall>d \<in> set ds. n \<notin> touched d \<Longrightarrow> gm_get (fst s') n = gm_get (fst s) n"
  by (induction ds arbitrary: s ds') (auto split: prod.splits dest!: download_one_frame)

lemma downloadMods_outcome:
  assumes "downloadMods libs web ds (folder, hist) = (ds', folder', hist')" "separate ds" "\<forall>d \<in> set ds. \<not> dl_complete d"
  shows "list_all2 (outcome libs web folder folder') ds ds'"
  using assms
proof (induction ds arbitrary: folder hist ds')
  case (Cons d ds)
  obtain d1 f1 h1 where one: "download_one libs web d (folder, hist) = (d1, f1, h1)" by (cases "download_one libs web d (folder, hist)") auto
  with Cons.prems(1) obtain ds1 where rest: "downloadMods libs web ds (f1, h1) = (ds1, folder', hist')" "ds' = d1 # ds1"
    by (auto split: prod.splits)
  have out: "outcome libs web folder f1 d d1"
    using download_one_outcome(1) [OF one] Cons.prems(2,3) by simp
  have "\<forall>n \<in> touched d. gm_get folder' n = gm_get f1 n"
    using downloadMods_frame [OF rest(1)] Cons.prems(2) by fastforce
  then have first: "outcome libs web folder folder' d d1"
    using outcome_cong [OF out] by simp
  have ih: "list_all2 (outcome libs web f1 folder') ds ds1"
    using Cons.IH [OF rest(1)] Cons.prems(2,3) by simp
  have "outcome libs web folder folder' e e'" if "e \<in> set ds" "outcome libs web f1 folder' e e'" for e e'
  proof -
    have "\<forall>n \<in> touched e. gm_get f1 n = gm_get folder n"
      using download_one_frame [OF one] that(1) Cons.prems(2) by fastforce
    with outcome_cong [OF that(2)] show ?thesis by simp
  qed
  with ih have "list_all2 (outcome libs web folder folder') ds ds1"
    by (auto simp: list_all2_conv_all_nth)
  with first rest(2) show ?case by simp
qed simp

text \<open>
  A download replaces a mod or leaves it alone.  Provided no two downloads work on the same
  files, after the run each download marked complete has its fetched archive, with the hash the portal
  gives, the name and version of the download and no excessive contents, in the folder under the
  release's file name and the old archive is gone; for each other download the old archive is
  untouched; and files of no download are untouched.
\<close>

theorem download_replaces_or_keeps:
  assumes "downloadMods libs web ds (folder, hist) = (ds', folder', hist')"
    and "separate ds" and "\<forall>d \<in> set ds. \<not> dl_complete d"
  shows "length ds' = length ds \<and>
    (\<forall>i < length ds. let d = ds ! i; old = dl_old_filename d in
       if dl_complete (ds' ! i) then
         (\<exists>data z. w_fetch web (mr_url (dl_data d)) = Some data \<and> gm_get folder' (mr_file (dl_data d)) = Some data \<and>
            checkSHA1 data (mr_sha1 (dl_data d)) \<and> \<not> BytesHasZipBomb libs data \<and>
            modInfoRead libs (Some data) = Some z \<and> mz_name z = dl_name d \<and> mz_version z = mr_version (dl_data d)) \<and>
         gm_get folder' (mr_file (dl_data d) @ ''.tmp'') = None \<and> (old \<noteq> [] \<longrightarrow> gm_get folder' old = None)
       else ds' ! i = d \<and> (old \<noteq> [] \<longrightarrow> gm_get folder' old = gm_get folder old)) \<and>
    (\<forall>n. (\<forall>d \<in> set ds. n \<notin> touched d) \<longrightarrow> gm_get folder' n = gm_get folder n)"
proof -
  have all: "list_all2 (outcome libs web folder folder') ds ds'" by (rule downloadMods_outcome [OF assms])
  have each: "let old = dl_old_filename d in
       if dl_complete d' then
         (\<exists>data z. w_fetch web (mr_url (dl_data d)) = Some data \<and> gm_get folder' (mr_file (dl_data d)) = Some data \<and>
            checkSHA1 data (mr_sha1 (dl_data d)) \<and> \<not> BytesHasZipBomb libs data \<and>
            modInfoRead libs (Some data) = Some z \<and> mz_name z = dl_name d \<and> mz_version z = mr_version (dl_data d)) \<and>
         gm_get folder' (mr_file (dl_data d) @ ''.tmp'') = None \<and> (old \<noteq> [] \<longrightarrow> gm_get folder' old = None)
       else d' = d \<and> (old \<noteq> [] \<longrightarrow> gm_get folder' old = gm_get folder old)"
    if "outcome libs web folder folder' d d'" for d d'
    using that by (auto simp: outcome_def new_file_def verified_def Let_def split: if_splits option.splits)
  have "\<forall>n. (\<forall>d \<in> set ds. n \<notin> touched d) \<longrightarrow> gm_get folder' n = gm_get folder n"
    using downloadMods_frame [OF assms(1)] by simp
  with all each show ?thesis
    unfolding list_all2_conv_all_nth Let_def by presburger
qed

text \<open>A run in which the archive of a mod is replaced.\<close>

definition lib_data :: "byte list" where "lib_data = [80, 75]"

definition new_lib :: download where
  "new_lib = lib_download\<lparr>dl_data := lib_release\<lparr>mr_sha1 := hex_EncodeToString (sha1_sum lib_data)\<rparr>,
     dl_old_filename := ''flib_1.0.0.zip''\<rparr>"

definition demo_libs :: mod_libs where
  "demo_libs = \<lparr>lib_unzip = (\<lambda>_. Some [\<lparr>ze_name = ''flib/info.json'', ze_size = 10, ze_data = Some [1]\<rparr>]),
     lib_json = (\<lambda>_. Some (no_zip\<lparr>mz_name := ''flib'', mz_version := ''1.1.0''\<rparr>))\<rparr>"

definition demo_web :: web where
  "demo_web = \<lparr>w_fetch = (\<lambda>_. Some lib_data), w_write = (\<lambda>_. True), w_partial = (\<lambda>_. None), w_rename = (\<lambda>_. True),
     w_remove = (\<lambda>_. True), w_now = 0\<rparr>"

definition demo_folder :: mods_folder where
  "demo_folder = [(''flib_1.0.0.zip'', [1]), (''other_1.0.0.zip'', [2])]"

lemma new_lib_fields: "dl_name new_lib = ''flib''" "dl_version new_lib = ''1.1.0''" "\<not> dl_complete new_lib"
  "dl_old_filename new_lib = ''flib_1.0.0.zip''" "mr_file (dl_data new_lib) = ''flib_1.1.0.zip''"
  "mr_version (dl_data new_lib) = ''1.1.0''" "mr_sha1 (dl_data new_lib) = hex_EncodeToString (sha1_sum lib_data)"
  by (simp_all add: new_lib_def lib_download_fields lib_release_def)

lemma new_lib_verified: "verified demo_libs new_lib lib_data"
proof -
  have "checkSHA1 lib_data (mr_sha1 (dl_data new_lib))"
    by (simp add: checkSHA1_def new_lib_fields equal_fold_def)
  moreover have "modInfoRead demo_libs (Some lib_data) = Some (no_zip\<lparr>mz_name := ''flib'', mz_version := ''1.1.0''\<rparr>)"
    by (simp add: modInfoRead_def getModJSON_def demo_libs_def has_suffix_def has_prefix_def)
  moreover have "\<not> BytesHasZipBomb demo_libs lib_data"
    by (simp add: BytesHasZipBomb_def demo_libs_def MaxZipSize_def word_less_nat_alt)
  ultimately show ?thesis by (simp add: verified_def new_lib_fields)
qed

lemma new_lib_downloaded: "\<exists>hist'. downloadMods demo_libs demo_web [new_lib] (demo_folder, []) =
    ([new_lib\<lparr>dl_complete := True\<rparr>], [(''other_1.0.0.zip'', [2]), (''flib_1.1.0.zip'', lib_data)], hist')"
  using new_lib_verified
  by (simp add: download_one_def new_lib_fields demo_web_def demo_folder_def IsBaseMod_def has_prefix_def
      gm_put_def gm_del_def Let_def)

theorem download_replaces_or_keeps_witness:
  "\<exists>folder' hist'. downloadMods demo_libs demo_web [new_lib] (demo_folder, []) = ([new_lib\<lparr>dl_complete := True\<rparr>], folder', hist') \<and>
     gm_get folder' ''flib_1.1.0.zip'' = Some lib_data \<and> gm_get folder' ''flib_1.0.0.zip'' = None \<and>
     gm_get folder' ''other_1.0.0.zip'' = Some [2]"
proof -
  obtain hist' where run: "downloadMods demo_libs demo_web [new_lib] (demo_folder, []) =
      ([new_lib\<lparr>dl_complete := True\<rparr>], [(''other_1.0.0.zip'', [2]), (''flib_1.1.0.zip'', lib_data)], hist')"
    using new_lib_downloaded by blast
  have "separate [new_lib]" by (simp add: new_file_def new_lib_fields)
  from download_replaces_or_keeps [OF run this] run show ?thesis
    by (auto simp: new_lib_fields gm_get_def demo_web_def Let_def)
qed

section \<open>The update\<close>

text \<open>The mods the updater sees, and the plan it carries out when it gets that far.\<close>

definition installed_mods :: "update_env \<Rightarrow> mod_zip list option" where
  "installed_mods env = (if \<not> ue_lock env then None else
     case GetModFiles (ue_libs env) (ue_files env) of Inl _ \<Rightarrow> None
     | Inr files \<Rightarrow> Some (MergeModLists (me_game (ue_mod env)) files (ue_list env)))"

definition accepted_plan :: "update_env \<Rightarrow> mod_zip list \<Rightarrow> download list \<Rightarrow> bool" where
  "accepted_plan env installed ds \<longleftrightarrow> installed_mods env = Some installed \<and> installed \<noteq> [] \<and>
     (\<exists>portal. fetch_portal (ue_mod env) installed = Inr portal \<and>
        resolveDepsWithPrefs (ue_mod env) False 0 [] portal = Inr ds) \<and>
     validateDownloadPlan (me_game (ue_mod env)) installed ds = None"

lemma CheckModUpdates_cases:
  assumes "CheckModUpdates env dryRun quiet w = (res, w')"
  obtains (locked) "\<not> ue_lock env" "res = (False, Some LockFailed)" "w' = w"
  | (unreadable) e where "ue_lock env" "ue_files env = None" "res = (False, Some (NoModsFolder e))" "w' = finish_op OpBegin w"
  | (failed) e t where "ue_lock env" "ue_files env \<noteq> None" "\<forall>i ds. \<not> accepted_plan env i ds" "res = (False, Some e)"
      "w' = finish_op (OpFail t) (finish_op OpBegin w)"
  | (planned) i ds where "ue_lock env" "ue_files env \<noteq> None" "accepted_plan env i ds"
      "install_plan env dryRun quiet ds (finish_op OpBegin w) = (res, w')"
proof (cases "ue_lock env")
  case False
  with assms show thesis by (intro locked) (auto simp: CheckModUpdates_def)
next
  case lock: True
  show thesis
  proof (cases "ue_files env")
    case None
    with assms lock show thesis by (intro unreadable) (auto simp: CheckModUpdates_def GetModFiles_def)
  next
    case (Some entries)
    then obtain files where files: "GetModFiles (ue_libs env) (ue_files env) = Inr files" by (simp add: GetModFiles_def)
    let ?i = "MergeModLists (me_game (ue_mod env)) files (ue_list env)"
    have i: "installed_mods env = Some ?i" using lock files by (simp add: installed_mods_def)
    show thesis
    proof (cases "\<exists>ds. accepted_plan env ?i ds")
      case True
      then obtain ds where "accepted_plan env ?i ds" by blast
      moreover from this have "install_plan env dryRun quiet ds (finish_op OpBegin w) = (res, w')"
        using assms lock files i by (auto simp: CheckModUpdates_def accepted_plan_def)
      ultimately show thesis using planned lock Some by blast
    next
      case False
      then have none: "\<forall>i ds. \<not> accepted_plan env i ds" using i by (auto simp: accepted_plan_def)
      from assms lock files obtain e t where "res = (False, Some e)" "w' = finish_op (OpFail t) (finish_op OpBegin w)"
        using False i by (auto simp: CheckModUpdates_def accepted_plan_def Let_def split: if_splits sum.splits option.splits)
      then show thesis using failed lock Some none by blast
    qed
  qed
qed

lemma list_all2_each: "list_all2 R xs ys \<Longrightarrow> \<forall>y \<in> set ys. P y \<Longrightarrow> \<forall>x \<in> set xs. \<exists>y. P y \<and> R x y"
  by (induction rule: list_all2_induct) auto

lemma all_counted: "length (filter P xs) = length xs \<longleftrightarrow> (\<forall>x \<in> set xs. P x)"
  by (metis filter_id_conv length_filter_less less_irrefl)

lemma install_plan_True:
  assumes "install_plan env dryRun quiet ds w = ((True, err), w')"
  obtains hist ds' hist' where "\<not> dryRun" "err = None"
    "downloadMods (ue_libs env) (ue_web env) ds (uw_folder w, hist) = (ds', uw_folder w', hist')" "ds' \<noteq> []" "\<forall>d \<in> set ds'. dl_complete d"
proof -
  let ?hist = "if ds \<noteq> [] then AddModHistory (update_started (w_now (ue_web env))) (uw_history w) else uw_history w"
  obtain ds' folder' hist' where run: "downloadMods (ue_libs env) (ue_web env) ds (uw_folder w, ?hist) = (ds', folder', hist')"
    by (metis prod_cases3)
  have "\<not> dryRun" "err = None" "0 < length ds'" "length (filter dl_complete ds') = length ds'" "uw_folder w' = folder'"
    using assms run unfolding install_plan_def
    by (auto simp: Let_def finish_op_def getCompletedDownloadCount_def split: if_splits)
  with run that show thesis by (auto simp: all_counted)
qed

lemma install_plan_events:
  assumes "install_plan env dryRun quiet ds w = (res, w')"
  shows "(\<exists>fin. fin \<noteq> OpBegin \<and> uw_events w' = uw_events w @ [fin]) \<and>
    (dryRun \<longrightarrow> uw_folder w' = uw_folder w \<and> uw_history w' = uw_history w)"
  using assms unfolding install_plan_def
  by (auto simp: Let_def finish_op_def split: if_splits prod.splits)

lemma accepted_incomplete:
  assumes "accepted_plan env installed ds"
  shows "\<forall>d \<in> set ds. \<not> dl_complete d"
proof -
  obtain portal where "resolve 11 (ue_mod env) False [] portal = Inr ds"
    using assms by (auto simp: accepted_plan_def resolveDepsWithPrefs_def)
  then have "good_plan (ue_mod env) False [] portal ds" by (rule resolve_plan)
  then show ?thesis by (auto simp: good_plan_def good_download_def)
qed

text \<open>
  C10.  An update that reports success was not a dry run and has carried out a plan that is not empty and
  whose result is consistent: every dependency of every mod that is enabled or in the plan holds with the
  versions of the plan, and the installed versions of the mods the plan does not touch.  When the plan is
  \<open>separate\<close> - no download uses a file that is the new archive, the old archive or the temporary file of
  another, and none has the same name for its old and its new archive - the archive of every download, with
  the hash the portal gives, is in the mods folder afterwards, and the archive it replaces is gone.  (When
  one name is both, the code removes what it has just installed; and a dependency that is first met below
  another has no old archive recorded, so that an older archive of it stays.)
\<close>

theorem successful_update_is_complete:
  assumes "CheckModUpdates env dryRun quiet w = ((True, err), w')"
  shows "\<not> dryRun \<and> err = None \<and> (\<exists>installed ds. accepted_plan env installed ds \<and> installed_mods env = Some installed \<and> ds \<noteq> [] \<and>
    (\<forall>name version deps. coexisting installed ds name = Some (version, deps) \<longrightarrow> (\<forall>raw \<in> set deps.
       dep_fits (parseDep raw) (chosen_version (me_game (ue_mod env)) installed ds (dep_name (parseDep raw))))) \<and>
    (separate ds \<longrightarrow> (\<forall>d \<in> set ds. \<exists>data. gm_get (uw_folder w') (mr_file (dl_data d)) = Some data \<and> checkSHA1 data (mr_sha1 (dl_data d)) \<and>
       (dl_old_filename d \<noteq> [] \<longrightarrow> gm_get (uw_folder w') (dl_old_filename d) = None))))"
  using assms
proof (cases rule: CheckModUpdates_cases)
  case (planned installed ds)
  from planned(4) obtain hist ds' hist' where dry: "\<not> dryRun" "err = None" and
    run: "downloadMods (ue_libs env) (ue_web env) ds (uw_folder (finish_op OpBegin w), hist) = (ds', uw_folder w', hist')"
      "ds' \<noteq> []" "\<forall>d \<in> set ds'. dl_complete d"
    by (rule install_plan_True)
  have files: "\<forall>d \<in> set ds. \<exists>data. gm_get (uw_folder w') (mr_file (dl_data d)) = Some data \<and> checkSHA1 data (mr_sha1 (dl_data d)) \<and>
       (dl_old_filename d \<noteq> [] \<longrightarrow> gm_get (uw_folder w') (dl_old_filename d) = None)" if sep: "separate ds"
  proof -
    have "list_all2 (outcome (ue_libs env) (ue_web env) (uw_folder (finish_op OpBegin w)) (uw_folder w')) ds ds'"
      using downloadMods_outcome [OF run(1) sep] accepted_incomplete [OF planned(3)] by blast
    from list_all2_each [OF this run(3)] show ?thesis using outcome_complete by blast
  qed
  have "ds \<noteq> []" using run(1,2) by auto
  moreover have "validateDownloadPlan (me_game (ue_mod env)) installed ds = None" "installed_mods env = Some installed"
    using planned(3) by (simp_all add: accepted_plan_def)
  ultimately show ?thesis using dry files planned(3) plan_accepted by blast
qed auto

text \<open>An update that replaces the archive of a mod.\<close>

definition demo_env :: update_env where
  "demo_env = \<lparr>ue_lock = True, ue_files = Some [(''flib_1.0.0.zip'', Some [1])], ue_list = [],
     ue_mod = \<lparr>me_game = ''Unknown'',
       me_info = (\<lambda>n. Inr \<lparr>mp_name = ''flib'', mp_title = ''flib'', mp_releases = [dl_data new_lib], mp_installed = no_zip\<rparr>),
       me_prefs = []\<rparr>,
     ue_libs = demo_libs\<lparr>lib_json := (\<lambda>j. Some (no_zip\<lparr>mz_name := ''flib'',
       mz_version := (if j = [1] then ''1.0.0'' else ''1.1.0'')\<rparr>)),
       lib_unzip := (\<lambda>d. Some [\<lparr>ze_name = ''flib/info.json'', ze_size = 10, ze_data = Some d\<rparr>])\<rparr>,
     ue_web = demo_web\<rparr>"

definition demo_portal :: mod_portal where
  "demo_portal = \<lparr>mp_name = ''flib'', mp_title = ''flib'', mp_releases = [dl_data new_lib],
     mp_installed = no_zip\<lparr>mz_name := ''flib'', mz_version := ''1.0.0'', mz_filename := ''flib_1.0.0.zip'', mz_enabled := True\<rparr>\<rparr>"

lemma demo_portal_fields: "mp_name demo_portal = ''flib''" "mp_title demo_portal = ''flib''"
  "mp_releases demo_portal = [dl_data new_lib]" "mz_version (mp_installed demo_portal) = ''1.0.0''"
  "mz_filename (mp_installed demo_portal) = ''flib_1.0.0.zip''"
  by (simp_all add: demo_portal_def)

lemma demo_env_fields: "ue_lock demo_env" "ue_files demo_env \<noteq> None" "ue_web demo_env = demo_web"
  by (simp_all add: demo_env_def)

lemma demo_installed: "installed_mods demo_env = Some [mp_installed demo_portal]"
  by (simp add: installed_mods_def demo_env_def GetModFiles_def add_mod_file_def modInfoRead_def getModJSON_def
      demo_libs_def has_suffix_def has_prefix_def MergeModLists_def demo_portal_def gm_put_def Let_def)

lemma demo_fetched: "fetch_portal (ue_mod demo_env) [mp_installed demo_portal] = Inr [demo_portal]"
  by (simp add: demo_env_def demo_portal_def IsBaseMod_def)

definition demo_download :: download where
  "demo_download = new_download False demo_portal (dl_data new_lib)"

lemma demo_download_fields: "dl_name demo_download = ''flib''" "dl_version demo_download = ''1.1.0''"
  "dl_data demo_download = dl_data new_lib" "dl_old_filename demo_download = ''flib_1.0.0.zip''" "\<not> dl_complete demo_download"
  by (simp_all add: demo_download_def new_download_def demo_portal_fields new_lib_fields)

lemma demo_resolved: "resolveDepsWithPrefs (ue_mod demo_env) False 0 [] [demo_portal] = Inr [demo_download]"
proof -
  have deps: "check_deps rec (ue_mod demo_env) ps parents demo_portal (dl_data new_lib) (mr_deps (dl_data new_lib)) True [] = Inr (True, [])"
    for rec ps parents
    by (simp add: new_lib_def lib_fields base_dep IsBaseMod_def Let_def)
  have one: "versionToInt ''1.0.0'' = Inr [1, 0, 0]"
    by (simp add: versionToInt_def parse_int64_def digits_value_def is_digit_def has_prefix_def)
  have cmp: "checkVersion EO_GREATER ''1.0.0'' ''1.1.0'' = Inr True"
    by (subst checkVersion_holds [OF one version_numbers(2)]) simp_all
  have "trim_space ''Unknown'' = ''Unknown''" by (simp add: trim_space_def is_space_def)
  then have rel: "releaseMatchesFactorioVersion (ue_mod demo_env) (dl_data new_lib)"
    by (simp add: releaseMatchesFactorioVersion_def demo_env_def equal_fold_def)
  have pref: "preferred_version (ue_mod demo_env) ''flib'' = []" by (simp add: preferred_version_def demo_env_def Let_def)
  have "resolve (Suc 10) (ue_mod demo_env) False [] [demo_portal] = Inr [demo_download]"
    unfolding resolve.simps using pref rel cmp
    by (simp add: resolve_item_def demo_portal_fields new_lib_fields no_release_def demo_download_def deps del: check_deps.simps)
  then show ?thesis by (simp add: resolveDepsWithPrefs_def)
qed

lemma demo_accepted: "accepted_plan demo_env installed ds \<longleftrightarrow> installed = [mp_installed demo_portal] \<and> ds = [demo_download]"
proof -
  have co: "coexisting [mp_installed demo_portal] [demo_download] n = (if n = ''flib'' then Some (''1.1.0'', [''base'']) else None)" for n
    by (auto simp: coexisting_def demo_download_fields new_lib_def lib_fields demo_portal_def)
  have "validateDownloadPlan (me_game (ue_mod demo_env)) [mp_installed demo_portal] [demo_download] = None"
    unfolding plan_accepted
    by (simp add: co base_dep chosen_version_def dep_fits_def demo_env_def split: if_splits)
  then show ?thesis
    by (auto simp: accepted_plan_def demo_installed demo_fetched demo_resolved simp del: fetch_portal.simps)
qed

lemma demo_verified: "verified (ue_libs demo_env) demo_download lib_data"
proof -
  have "checkSHA1 lib_data (mr_sha1 (dl_data demo_download))"
    by (simp add: checkSHA1_def demo_download_fields new_lib_fields equal_fold_def)
  moreover have "modInfoRead (ue_libs demo_env) (Some lib_data) = Some (no_zip\<lparr>mz_name := ''flib'', mz_version := ''1.1.0''\<rparr>)"
    by (simp add: modInfoRead_def getModJSON_def demo_env_def demo_libs_def has_suffix_def has_prefix_def lib_data_def)
  moreover have "\<not> BytesHasZipBomb (ue_libs demo_env) lib_data"
    by (simp add: BytesHasZipBomb_def demo_env_def demo_libs_def MaxZipSize_def word_less_nat_alt)
  ultimately show ?thesis by (simp add: verified_def demo_download_fields new_lib_fields)
qed

lemma demo_one: "\<exists>folder hist. download_one (ue_libs demo_env) demo_web demo_download s = (demo_download\<lparr>dl_complete := True\<rparr>, folder, hist)"
  using demo_verified
  by (simp add: download_one_def demo_download_fields new_lib_fields demo_web_def IsBaseMod_def has_prefix_def Let_def split: prod.splits)

lemma demo_updated: "\<exists>w'. CheckModUpdates demo_env False False w = ((True, None), w')"
proof -
  obtain res w' where run: "CheckModUpdates demo_env False False w = (res, w')" by fastforce
  then show ?thesis
  proof (cases rule: CheckModUpdates_cases)
    case (planned installed ds)
    have "install_plan demo_env False False [demo_download] v = (res, w') \<Longrightarrow> res = (True, None)" for v
      using demo_one [of "(uw_folder v, AddModHistory (update_started (w_now demo_web)) (uw_history v))"]
      by (auto simp: install_plan_def getCompletedDownloadCount_def demo_env_fields Let_def)
    with planned(3,4) run show ?thesis by (auto simp: demo_accepted)
  qed (use demo_accepted demo_env_fields in auto)
qed

theorem successful_update_is_complete_witness:
  "\<exists>w'. CheckModUpdates demo_env False False \<lparr>uw_folder = demo_folder, uw_history = [], uw_events = []\<rparr> = ((True, None), w') \<and>
     (\<exists>ds :: download list. ds \<noteq> [] \<and> (\<forall>d \<in> set ds. \<exists>data. gm_get (uw_folder w') (mr_file (dl_data d)) = Some data))"
proof -
  obtain w' where run: "CheckModUpdates demo_env False False \<lparr>uw_folder = demo_folder, uw_history = [], uw_events = []\<rparr> = ((True, None), w')"
    using demo_updated by blast
  have sep: "separate ds" if "accepted_plan demo_env installed ds" for installed ds
    using that by (simp add: demo_accepted new_file_def demo_download_fields new_lib_fields)
  from successful_update_is_complete [OF run]
  obtain installed and ds :: "download list" where "accepted_plan demo_env installed ds" and ds: "ds \<noteq> []"
    "separate ds \<longrightarrow> (\<forall>d \<in> set ds. \<exists>data. gm_get (uw_folder w') (mr_file (dl_data d)) = Some data \<and>
      checkSHA1 data (mr_sha1 (dl_data d)) \<and> (dl_old_filename d \<noteq> [] \<longrightarrow> gm_get (uw_folder w') (dl_old_filename d) = None))"
    by (elim conjE exE) (rule that, assumption+)
  with sep have "\<forall>d \<in> set ds. \<exists>data. gm_get (uw_folder w') (mr_file (dl_data d)) = Some data" by blast
  with ds(1) run show ?thesis by (intro exI [of _ w'] conjI exI [of _ ds])
qed

text \<open>
  What an update does when it does not succeed: without an accepted plan, or in a dry run, neither
  the mods folder nor the history changes; every run that takes the lock begins one status operation,
  and ends it exactly once, unless the mods folder cannot be read: then the operation stays open.
\<close>

theorem update_closes_its_operation:
  assumes "CheckModUpdates env dryRun quiet w = ((updated, err), w')"
  shows "((dryRun \<or> (\<forall>i ds. \<not> accepted_plan env i ds)) \<longrightarrow> uw_folder w' = uw_folder w \<and> uw_history w' = uw_history w \<and> \<not> updated) \<and>
    (\<exists>fin. fin \<noteq> OpBegin \<and> uw_events w' = uw_events w @
       (if \<not> ue_lock env then [] else if ue_files env = None then [OpBegin] else [OpBegin, fin]))"
  using assms
proof (cases rule: CheckModUpdates_cases)
  case (planned installed ds)
  have "\<not> updated" if "dryRun"
    using planned(4) that by (auto simp: install_plan_def)
  with install_plan_events [OF planned(4)] planned(1-3) show ?thesis by (auto simp: finish_op_def)
qed (auto simp: finish_op_def)

theorem update_closes_its_operation_witness:
  "\<exists>e w'. CheckModUpdates (demo_env\<lparr>ue_files := None\<rparr>) False False \<lparr>uw_folder = demo_folder, uw_history = [], uw_events = []\<rparr> =
     ((False, Some (NoModsFolder e)), w') \<and> uw_folder w' = demo_folder \<and> uw_events w' = [OpBegin]"
proof -
  let ?w = "\<lparr>uw_folder = demo_folder, uw_history = [], uw_events = []\<rparr>" and ?env = "demo_env\<lparr>ue_files := None\<rparr>"
  have lock: "ue_lock ?env" by (simp add: demo_env_def)
  obtain e w' where run: "CheckModUpdates ?env False False ?w = ((False, Some (NoModsFolder e)), w')"
    using lock by (auto simp: CheckModUpdates_def GetModFiles_def)
  moreover have "\<not> accepted_plan ?env i ds" for i ds
    by (simp add: accepted_plan_def installed_mods_def GetModFiles_def)
  ultimately show ?thesis using update_closes_its_operation [OF run] lock by auto
qed

section \<open>The portal cache\<close>

text \<open>Within one update the portal is asked at most once about a mod; the cache does not change the
  answers, so that \<open>me_info\<close> is a function of the name.\<close>

definition portal_answer :: "portal_web \<Rightarrow> string \<Rightarrow> string + mod_portal" where
  "portal_answer web name = fst (DownloadModInfo web name resetModInfoCache)"

definition coherent :: "portal_web \<Rightarrow> info_cache \<Rightarrow> bool" where
  "coherent web cache \<longleftrightarrow> (\<forall>name info. \<not> IsBaseMod name \<longrightarrow> gm_get cache (PathEscape name) = Some info \<longrightarrow>
     portal_answer web name = Inr info)"

lemma coherent_reset [simp]: "coherent web resetModInfoCache"
  by (simp add: coherent_def resetModInfoCache_def)

lemma cache_transparent:
  assumes "coherent web cache"
  shows "fst (DownloadModInfo web name cache) = portal_answer web name"
    and "coherent web (snd (DownloadModInfo web name cache))"
  using assms
  by (auto simp: coherent_def portal_answer_def DownloadModInfo_def resetModInfoCache_def Let_def
      split: option.splits sum.splits if_splits)

section \<open>Two limits of the code\<close>

text \<open>The resolution takes every bundled mod for present, the check of the plan only those of the mod
  list: a mod that requires a bundled one is refused when mod-list.json lacks it.\<close>

lemma bundled_requirement_rejected:
  assumes "coexisting installed ds name = Some (version, deps)" "''quality'' \<in> set deps" "coexisting installed ds ''quality'' = None"
  shows "check_deps rec env ps parents item rel [''quality''] met rds = Inr (met, rds)"
    and "validateDownloadPlan game installed ds \<noteq> None"
proof -
  have dep: "parseDep ''quality'' =
      \<lparr>dep_name = ''quality'', dep_version = [], dep_equality = EO_ERROR, dep_optional = False, dep_incompatible = False\<rparr>"
    by (simp add: parseDep_def trim_space_def is_space_def TrimPrefix_def has_prefix_def is_op_def)
  then show "check_deps rec env ps parents item rel [''quality''] met rds = Inr (met, rds)"
    by (simp add: IsBaseMod_def Let_def)
  have "\<not> dep_fits (parseDep ''quality'') (chosen_version game installed ds ''quality'')"
    using assms(3) by (simp add: dep dep_fits_def chosen_version_def)
  then show "validateDownloadPlan game installed ds \<noteq> None"
    unfolding plan_accepted using assms(1,2) dep by (metis dep_requires.select_convs(1))
qed

text \<open>A recommended dependency is taken for a required mod whose name starts with the plus sign.\<close>

lemma recommended_is_required:
  "parseDep ''+ quality'' = \<lparr>dep_name = ''+ quality'', dep_version = [], dep_equality = EO_ERROR, dep_optional = False, dep_incompatible = False\<rparr>"
  by (simp add: parseDep_def trim_space_def is_space_def TrimPrefix_def has_prefix_def is_op_def)

section \<open>Zip bombs\<close>

lemma zip_bomb_sum:
  "\<not> zip_bomb t es \<Longrightarrow> unat t + length es * 2 ^ 30 < 2 ^ 64 \<Longrightarrow>
    unat t + sum_list (map (\<lambda>e. unat (ze_size e)) es) \<le> 2 ^ 30"
proof (induction es arbitrary: t)
  case (Cons e es)
  have size: "unat (ze_size e) \<le> 2 ^ 30" and rest: "\<not> zip_bomb (t + ze_size e) es"
    using Cons.prems(1) by (auto simp: MaxZipSize_def word_less_nat_alt split: if_splits)
  have "unat (t + ze_size e) = unat t + unat (ze_size e)"
    using Cons.prems(2) size by (intro unat_add_lem [THEN iffD1]) simp
  with Cons.IH [OF rest] Cons.prems(2) size show ?case by simp
qed (simp add: MaxZipSize_def word_less_nat_alt)

text \<open>
  The size limit cannot be got round by wrap-around: if an archive with fewer than \<open>2 ^ 33\<close> entries
  is not reported as a zip bomb, the sizes its entries declare add up to at most one gibibyte as
  natural numbers.
\<close>

theorem zip_bomb_limit:
  assumes "lib_unzip libs data = Some es" and "\<not> BytesHasZipBomb libs data" and "length es < 2 ^ 33"
  shows "sum_list (map (\<lambda>e. unat (ze_size e)) es) \<le> 1024 * 1024 * 1024"
  using zip_bomb_sum [of 0 es] assms by (simp add: BytesHasZipBomb_def)

theorem zip_bomb_limit_witness:
  "\<exists>es. lib_unzip demo_libs [] = Some es \<and> \<not> BytesHasZipBomb demo_libs [] \<and> sum_list (map (\<lambda>e. unat (ze_size e)) es) \<le> 1024 * 1024 * 1024"
proof -
  have bomb: "\<not> BytesHasZipBomb demo_libs []" by (simp add: BytesHasZipBomb_def demo_libs_def MaxZipSize_def word_less_nat_alt)
  obtain es where es: "lib_unzip demo_libs [] = Some es" "length es < 2 ^ 33" by (simp add: demo_libs_def)
  from zip_bomb_limit [OF es(1) bomb es(2)] es(1) bomb show ?thesis by blast
qed

end
