(* ===== verification/Mod_Builtin.thy ===== *)
theory Mod_Builtin
  imports Mod_Install
begin

text \<open>
  The mods bundled with the game (modupdate/builtin.go): listing them, enabling one together with the
  bundled mods it requires, and the check that a mod list enables what is required.  The entries of
  the data folder carry what reading and decoding their info.json gives.  The recursive closure of
  \<open>SetBuiltinModEnabled\<close> is given one unit of fuel more than there are bundled mods, which is proved
  to be enough.
\<close>

section \<open>Operations\<close>

datatype data_folder = Missing | Unreadable string | Entries "(string \<times> (string + mod_zip)) list"

fun read_builtins :: "(string \<times> (string + mod_zip)) list \<Rightarrow> string + mod_zip list" where
  "read_builtins [] = Inr []"
| "read_builtins ((entry, info) # entries) =
     (if \<not> IsBaseMod entry then read_builtins entries
      else case info of
          Inl e \<Rightarrow> Inl (''read built-in mod '' @ entry @ '': '' @ e)
        | Inr m \<Rightarrow> (case read_builtins entries of
              Inl e \<Rightarrow> Inl e
            | Inr mods \<Rightarrow> Inr (m\<lparr>mz_name := entry\<rparr> # mods)))"

fun GetBuiltinModFiles :: "data_folder \<Rightarrow> string + mod_zip list" where
  "GetBuiltinModFiles Missing = Inr []"
| "GetBuiltinModFiles (Unreadable e) = Inl e"
| "GetBuiltinModFiles (Entries entries) = read_builtins entries"

definition by_name :: "mod_zip list \<Rightarrow> (string, mod_zip) gomap" where
  "by_name mods = foldl (\<lambda>m z. gm_put m (mz_name z) z) [] mods"

fun put_mod :: "string \<Rightarrow> bool \<Rightarrow> mod_data list \<Rightarrow> mod_data list" where
  "put_mod name b [] = [\<lparr>md_name = name, md_enabled = b\<rparr>]"
| "put_mod name b (m # ms) = (if md_name m = name then m\<lparr>md_enabled := b\<rparr> # ms else m # put_mod name b ms)"

text \<open>The state of the closure: the mod list and the names seen.\<close>

type_synonym enabling = "mod_data list \<times> string list"

definition recommended :: "string \<Rightarrow> bool" where
  "recommended raw \<longleftrightarrow> has_prefix (trim_space raw) ''+''"

definition builtin_dep :: "string \<Rightarrow> dep_requires" where
  "builtin_dep raw = parseDep (trim_space (TrimPrefix (trim_space raw) ''+''))"

fun set_deps :: "(string \<Rightarrow> enabling \<Rightarrow> (string option \<times> enabling) option) \<Rightarrow> (string, mod_zip) gomap \<Rightarrow> string \<Rightarrow>
    string list \<Rightarrow> enabling \<Rightarrow> (string option \<times> enabling) option" where
  "set_deps rec installed name [] s = Some (None, s)"
| "set_deps rec installed name (raw # raws) s =
     (let dep = builtin_dep raw in
      if dep_optional dep \<or> dep_incompatible dep then set_deps rec installed name raws s
      else if recommended raw \<and> list_ex (\<lambda>m. md_name m = dep_name dep \<and> \<not> md_enabled m) (fst s)
      then set_deps rec installed name raws s
      else if gm_get installed (dep_name dep) = None
      then Some (Some (name @ '' requires unavailable built-in mod '' @ dep_name dep), s)
      else case rec (dep_name dep) s of
          None \<Rightarrow> None
        | Some (Some e, s) \<Rightarrow> Some (Some e, s)
        | Some (None, s) \<Rightarrow> set_deps rec installed name raws s)"

primrec set_mod :: "nat \<Rightarrow> (string, mod_zip) gomap \<Rightarrow> string \<Rightarrow> bool \<Rightarrow> enabling \<Rightarrow> (string option \<times> enabling) option" where
  "set_mod 0 installed name v s = None"
| "set_mod (Suc n) installed name v s =
     (if name \<in> set (snd s) then Some (None, s)
      else
        (let s = (put_mod name v (fst s), name # snd s) in
         if \<not> v then Some (None, s)
         else set_deps (\<lambda>d. set_mod n installed d True) installed name
           (case gm_get installed name of None \<Rightarrow> [] | Some z \<Rightarrow> mz_deps z) s))"

text \<open>The error, if any, with the list; \<open>None\<close> would be a closure that does not return.\<close>

definition SetBuiltinModEnabled :: "data_folder \<Rightarrow> mod_data list \<Rightarrow> string \<Rightarrow> bool \<Rightarrow> (string option \<times> mod_data list) option" where
  "SetBuiltinModEnabled folder mods name enabled =
     (case GetBuiltinModFiles folder of
        Inl e \<Rightarrow> Some (Some e, mods)
      | Inr files \<Rightarrow>
          (let installed = by_name files in
           if gm_get installed name = None then Some (Some (''built-in mod '' @ name @ '' is not installed''), mods)
           else if name = ''base'' \<and> \<not> enabled then Some (Some ''the base mod is required'', mods)
           else map_option (\<lambda>(err, s). (err, fst s)) (set_mod (Suc (length installed)) installed name enabled (mods, []))))"

definition enabled_mods :: "mod_zip list \<Rightarrow> mod_data list \<Rightarrow> (string, bool) gomap" where
  "enabled_mods files mods =
     foldl (\<lambda>m d. gm_put m (md_name d) (md_enabled d)) (foldl (\<lambda>m z. gm_put m (mz_name z) True) [] files) mods"

definition is_enabled :: "(string, bool) gomap \<Rightarrow> string \<Rightarrow> bool" where
  "is_enabled enabled name \<longleftrightarrow> gm_get enabled name = Some True"

definition check_builtin_dep :: "(string, mod_zip) gomap \<Rightarrow> (string, bool) gomap \<Rightarrow> string \<Rightarrow> string \<Rightarrow> string option" where
  "check_builtin_dep installed enabled name raw =
     (if recommended raw then None
      else
        (let dep = parseDep raw in
         if dep_optional dep \<or> dep_incompatible dep then None
         else case gm_get installed (dep_name dep) of
             None \<Rightarrow> Some (name @ '' requires enabled built-in mod '' @ dep_name dep)
           | Some actual \<Rightarrow>
               if \<not> is_enabled enabled (dep_name dep)
               then Some (name @ '' requires enabled built-in mod '' @ dep_name dep)
               else if dep_version dep \<noteq> [] \<and>
                  checkVersion (dep_equality dep) (dep_version dep) (mz_version actual) \<noteq> Inr True
               then Some (name @ '' requires '' @ raw)
               else None))"

definition ValidateBuiltinModDependencies :: "data_folder \<Rightarrow> mod_data list \<Rightarrow> string option" where
  "ValidateBuiltinModDependencies folder mods =
     (case GetBuiltinModFiles folder of
        Inl e \<Rightarrow> Some e
      | Inr files \<Rightarrow>
          (let installed = by_name files; enabled = enabled_mods files mods in
           first_error (\<lambda>m. if \<not> is_enabled enabled (mz_name m) then None
             else first_error (check_builtin_dep installed enabled (mz_name m)) (mz_deps m)) files))"

section \<open>Facts\<close>

lemma trim_trim [simp]: "trim_space (trim_space s) = trim_space s"
proof (cases "trim_space s = []")
  case True
  show ?thesis unfolding True by (simp add: trim_space_def)
next
  case False
  then show ?thesis
  proof (intro trim_id)
    let ?t = "dropWhile is_space s"
    have t: "trim_space s = rev (dropWhile is_space (rev ?t))" by (simp add: trim_space_def)
    with False have ne: "dropWhile is_space (rev ?t) \<noteq> []" by auto
    from hd_dropWhile [OF ne] t show "\<not> is_space (last (trim_space s))" by (simp add: last_rev)
    have "?t \<noteq> []" using ne by (metis dropWhile.simps(1) rev.simps(1))
    have "?t = rev (dropWhile is_space (rev ?t)) @ rev (takeWhile is_space (rev ?t))"
      by (metis rev_append rev_rev_ident takeWhile_dropWhile_id)
    then have "hd ?t = hd (trim_space s)" using t False by (metis hd_append2)
    with hd_dropWhile [OF \<open>?t \<noteq> []\<close>] show "\<not> is_space (hd (trim_space s))" by simp
  qed
qed

lemma parseDep_trim: "parseDep (trim_space raw) = parseDep raw"
  by (simp add: parseDep_def)

lemma builtin_dep_plain: "\<not> recommended raw \<Longrightarrow> builtin_dep raw = parseDep raw"
  by (simp add: builtin_dep_def recommended_def TrimPrefix_def parseDep_trim)

text \<open>The entry of a mod in a mod list.\<close>

definition entry_of :: "mod_data list \<Rightarrow> string \<Rightarrow> bool option" where
  "entry_of mods n = map_option md_enabled (find (\<lambda>m. md_name m = n) mods)"

lemma entry_of_put [simp]: "entry_of (put_mod n b mods) k = (if k = n then Some b else entry_of mods k)"
  by (induction mods) (auto simp: entry_of_def)

lemma names_of_put: "map md_name (put_mod n b mods) = map md_name mods @ (if n \<in> md_name ` set mods then [] else [n])"
  by (induction mods) auto

lemma distinct_put: "distinct (map md_name mods) \<Longrightarrow> distinct (map md_name (put_mod n b mods))"
  by (auto simp: names_of_put)

text \<open>The bundled mods a mod requires.\<close>

definition required_dep :: "string \<Rightarrow> bool" where
  "required_dep raw \<longleftrightarrow> \<not> recommended raw \<and> \<not> dep_optional (parseDep raw) \<and> \<not> dep_incompatible (parseDep raw)"

definition needs :: "(string, mod_zip) gomap \<Rightarrow> string \<Rightarrow> string set" where
  "needs installed m = (case gm_get installed m of None \<Rightarrow> {}
     | Some z \<Rightarrow> {dep_name (parseDep raw) | raw. raw \<in> set (mz_deps z) \<and> required_dep raw})"

text \<open>What a call of the closure achieves: the mods newly seen are bundled, enabled and have what they
  require; no other entry changes.\<close>

definition enabling_step :: "(string, mod_zip) gomap \<Rightarrow> enabling \<Rightarrow> enabling \<Rightarrow> bool" where
  "enabling_step installed s s' \<longleftrightarrow> (let new = set (snd s') - set (snd s) in
     set (snd s) \<subseteq> set (snd s') \<and>
     (\<forall>m \<in> new. gm_get installed m \<noteq> None \<and> needs installed m \<subseteq> set (snd s') \<and> entry_of (fst s') m = Some True) \<and>
     (\<forall>m. m \<notin> new \<longrightarrow> entry_of (fst s') m = entry_of (fst s) m) \<and>
     (distinct (map md_name (fst s)) \<longrightarrow> distinct (map md_name (fst s'))))"

lemma enabling_refl [simp]: "enabling_step installed s s"
  by (simp add: enabling_step_def)

lemma enabling_trans: "enabling_step installed s1 s2 \<Longrightarrow> enabling_step installed s2 s3 \<Longrightarrow> enabling_step installed s1 s3"
proof -
  assume 1: "enabling_step installed s1 s2" and 2: "enabling_step installed s2 s3"
  let ?S1 = "set (snd s1)" and ?S2 = "set (snd s2)" and ?S3 = "set (snd s3)"
  have sub: "?S1 \<subseteq> ?S2" "?S2 \<subseteq> ?S3" using 1 2 by (simp_all add: enabling_step_def Let_def)
  have "gm_get installed m \<noteq> None \<and> needs installed m \<subseteq> ?S3 \<and> entry_of (fst s3) m = Some True" if "m \<in> ?S3 - ?S1" for m
  proof (cases "m \<in> ?S2")
    case True
    with 1 2 that sub show ?thesis by (auto simp: enabling_step_def Let_def)
  next
    case False
    with 2 that show ?thesis by (auto simp: enabling_step_def Let_def)
  qed
  moreover have "entry_of (fst s3) m = entry_of (fst s1) m" if "m \<notin> ?S3 - ?S1" for m
  proof -
    have "m \<notin> ?S3 - ?S2" "m \<notin> ?S2 - ?S1" using that sub by auto
    with 1 2 show ?thesis by (simp add: enabling_step_def Let_def)
  qed
  ultimately show ?thesis using 1 2 sub by (simp add: enabling_step_def Let_def)
qed

lemma enabling_seen: "enabling_step installed s s' \<Longrightarrow> set (snd s) \<subseteq> set (snd s')"
  by (simp add: enabling_step_def Let_def)

lemma set_deps_step:
  assumes "\<And>d s s'. gm_get installed d \<noteq> None \<Longrightarrow> rec d s = Some (None, s') \<Longrightarrow> enabling_step installed s s' \<and> d \<in> set (snd s')"
  shows "set_deps rec installed name raws s = Some (None, s') \<Longrightarrow> enabling_step installed s s' \<and>
    (\<forall>raw \<in> set raws. required_dep raw \<longrightarrow> dep_name (parseDep raw) \<in> set (snd s'))"
proof (induction raws arbitrary: s)
  case (Cons raw raws)
  show ?case
  proof (cases "set_deps rec installed name raws s = Some (None, s') \<and> \<not> required_dep raw")
    case True
    with Cons.IH [of s] show ?thesis by auto
  next
    case False
    have "(dep_optional (builtin_dep raw) \<or> dep_incompatible (builtin_dep raw)) \<Longrightarrow> \<not> required_dep raw" "recommended raw \<Longrightarrow> \<not> required_dep raw"
      using builtin_dep_plain [of raw] by (auto simp: required_dep_def)
    with Cons.prems False obtain s1 where dep: "gm_get installed (dep_name (builtin_dep raw)) \<noteq> None"
        "rec (dep_name (builtin_dep raw)) s = Some (None, s1)" and rest: "set_deps rec installed name raws s1 = Some (None, s')"
      by (auto simp: Let_def split: if_splits option.splits)
    from assms [OF dep] Cons.IH [OF rest] have "enabling_step installed s s'" "dep_name (builtin_dep raw) \<in> set (snd s')"
      using enabling_trans enabling_seen by blast+
    moreover have "required_dep raw \<Longrightarrow> builtin_dep raw = parseDep raw" by (simp add: required_dep_def builtin_dep_plain)
    ultimately show ?thesis using Cons.IH [OF rest] by auto
  qed
qed simp

lemma set_mod_step:
  "gm_get installed name \<noteq> None \<Longrightarrow> set_mod n installed name True s = Some (None, s') \<Longrightarrow>
    enabling_step installed s s' \<and> name \<in> set (snd s')"
proof (induction n arbitrary: name s s')
  case (Suc n)
  show ?case
  proof (cases "name \<in> set (snd s)")
    case True
    with Suc.prems show ?thesis by simp
  next
    case False
    obtain z where z: "gm_get installed name = Some z" using Suc.prems(1) by blast
    let ?s1 = "(put_mod name True (fst s), name # snd s)"
    have run: "set_deps (\<lambda>d. set_mod n installed d True) installed name (mz_deps z) ?s1 = Some (None, s')"
      using Suc.prems(2) False z by (simp add: Let_def)
    from set_deps_step [OF Suc.IH this] have step: "enabling_step installed ?s1 s'" and
      deps: "\<forall>raw \<in> set (mz_deps z). required_dep raw \<longrightarrow> dep_name (parseDep raw) \<in> set (snd s')" by auto
    have "needs installed name \<subseteq> set (snd s')" using deps z by (auto simp: needs_def)
    with step z False show ?thesis
      by (auto simp: enabling_step_def Let_def distinct_put)
  qed
qed simp

lemma set_mod_fuel:
  "name \<in> set (gm_keys installed) \<Longrightarrow> card (set (gm_keys installed) - set (snd s)) < n \<Longrightarrow>
    \<exists>err s'. set_mod n installed name v s = Some (err, s') \<and> set (snd s) \<subseteq> set (snd s')"
proof (induction n arbitrary: name v s)
  case (Suc n)
  show ?case
  proof (cases "name \<in> set (snd s)")
    case False
    let ?keys = "set (gm_keys installed)" and ?s1 = "(put_mod name v (fst s), name # snd s)"
    have "card (?keys - set (snd ?s1)) < card (?keys - set (snd s))"
      using Suc.prems(1) False by (intro psubset_card_mono) auto
    then have fuel: "card (?keys - set (snd t)) < n" if "set (snd ?s1) \<subseteq> set (snd t)" for t :: enabling
      using Suc.prems(2) that card_mono [of "?keys - set (snd ?s1)" "?keys - set (snd t)"] by fastforce
    have "\<exists>err s'. set_deps (\<lambda>d. set_mod n installed d True) installed name raws t = Some (err, s') \<and> set (snd t) \<subseteq> set (snd s')"
      if "set (snd ?s1) \<subseteq> set (snd t)" for raws t
      using that
    proof (induction raws arbitrary: t)
      case (Cons raw raws)
      let ?d = "dep_name (builtin_dep raw)"
      show ?case
      proof (cases "gm_get installed ?d = None")
        case True
        with Cons.IH [OF Cons.prems] show ?thesis by (cases t) (auto simp: Let_def)
      next
        case False
        then have "?d \<in> set (gm_keys installed)" by (simp add: gm_get_None_iff)
        from Suc.IH [OF this fuel [OF Cons.prems]] obtain err t' where
          t': "set_mod n installed ?d True t = Some (err, t')" "set (snd t) \<subseteq> set (snd t')" by blast
        then have "set (snd ?s1) \<subseteq> set (snd t')" using Cons.prems by blast
        with Cons.IH [OF this] Cons.IH [OF Cons.prems] False t' show ?thesis
          by (cases err; cases t') (auto simp: Let_def)
      qed
    qed simp
    from this [of ?s1 "case gm_get installed name of None \<Rightarrow> [] | Some z \<Rightarrow> mz_deps z"] show ?thesis
      using False by (cases v) (auto simp: Let_def)
  qed simp
qed simp

lemma find_name_None: "find (\<lambda>x. f x = n) xs = None \<longleftrightarrow> n \<notin> f ` set xs"
  by (auto simp: find_None_iff)

lemma find_append: "find P (ys @ zs) = (case find P ys of Some y \<Rightarrow> Some y | None \<Rightarrow> find P zs)"
  by (induction ys) auto

lemma find_rev_distinct: "distinct (map f xs) \<Longrightarrow> find (\<lambda>x. f x = n) (rev xs) = find (\<lambda>x. f x = n) xs"
proof (induction xs)
  case (Cons x xs)
  have "f x = n \<Longrightarrow> find (\<lambda>x. f x = n) xs = None" using Cons.prems by (simp add: find_name_None)
  with Cons show ?case by (auto simp: find_append split: option.splits)
qed simp

lemma by_name_get: "distinct (map mz_name files) \<Longrightarrow> gm_get (by_name files) n = find (\<lambda>z. mz_name z = n) files"
  by (simp add: by_name_def foldl_gm_put_get [where f = "\<lambda>z. z", simplified] find_rev_distinct split: option.splits)

lemma is_enabled_entry:
  assumes "distinct (map md_name mods)"
  shows "is_enabled (enabled_mods files mods) n \<longleftrightarrow> (case entry_of mods n of Some b \<Rightarrow> b | None \<Rightarrow> n \<in> mz_name ` set files)"
proof (cases "find (\<lambda>m. md_name m = n) mods")
  case None
  have "(case find (\<lambda>z. mz_name z = n) (rev files) of None \<Rightarrow> gm_get [] n | Some z \<Rightarrow> Some True) = Some True \<longleftrightarrow> n \<in> mz_name ` set files"
    using find_name_None [of mz_name n "rev files"] by (auto split: option.splits)
  with None assms show ?thesis
    by (simp add: is_enabled_def enabled_mods_def foldl_gm_put_get find_rev_distinct entry_of_def)
next
  case (Some d)
  with assms show ?thesis
    by (simp add: is_enabled_def enabled_mods_def foldl_gm_put_get find_rev_distinct entry_of_def)
qed

text \<open>
  Enabling or disabling a bundled mod always returns: the recursion over the dependencies ends
  even if they are circular.
\<close>

theorem builtin_change_returns: "\<exists>err mods'. SetBuiltinModEnabled folder mods name b = Some (err, mods')"
proof (cases "GetBuiltinModFiles folder")
  case (Inr files)
  let ?i = "by_name files"
  show ?thesis
  proof (cases "gm_get ?i name = None")
    case False
    then have key: "name \<in> set (gm_keys ?i)" by (simp add: gm_get_None_iff)
    have "card (set (gm_keys ?i) - set (snd (mods, []))) \<le> length ?i"
      using card_length [of "gm_keys ?i"] by (simp add: gm_keys_def)
    with set_mod_fuel [OF key, of "(mods, [])" "Suc (length ?i)" b] Inr False show ?thesis
      by (auto simp: SetBuiltinModEnabled_def Let_def)
  qed (simp add: SetBuiltinModEnabled_def Inr Let_def)
qed (simp add: SetBuiltinModEnabled_def)

text \<open>The versions the bundled mods require of each other are the ones shipped.\<close>

definition shipped_together :: "mod_zip list \<Rightarrow> bool" where
  "shipped_together files \<longleftrightarrow> (\<forall>m \<in> set files. \<forall>raw \<in> set (mz_deps m). \<forall>a \<in> set files.
     mz_name a = dep_name (parseDep raw) \<and> dep_version (parseDep raw) \<noteq> [] \<longrightarrow>
       checkVersion (dep_equality (parseDep raw)) (dep_version (parseDep raw)) (mz_version a) = Inr True)"

lemma check_builtin_dep_None:
  assumes "distinct (map mz_name files)" "shipped_together files" "m \<in> set files" "raw \<in> set (mz_deps m)"
  shows "check_builtin_dep (by_name files) enabled (mz_name m) raw = None \<longleftrightarrow>
    (required_dep raw \<longrightarrow> dep_name (parseDep raw) \<in> mz_name ` set files \<and> is_enabled enabled (dep_name (parseDep raw)))"
proof (cases "find (\<lambda>z. mz_name z = dep_name (parseDep raw)) files")
  case None
  then have "dep_name (parseDep raw) \<notin> mz_name ` set files" by (simp add: find_name_None)
  with None show ?thesis
    by (auto simp: check_builtin_dep_def required_dep_def by_name_get [OF assms(1)] Let_def)
next
  case (Some a)
  then have "a \<in> set files" "mz_name a = dep_name (parseDep raw)" by (auto simp: find_Some_iff)
  moreover from this have "dep_name (parseDep raw) \<in> mz_name ` set files" by (metis imageI)
  ultimately show ?thesis using Some assms
    by (auto simp: check_builtin_dep_def required_dep_def by_name_get Let_def shipped_together_def)
qed

lemma validate_builtin:
  assumes "GetBuiltinModFiles folder = Inr files" "distinct (map mz_name files)" "shipped_together files"
  shows "ValidateBuiltinModDependencies folder mods = None \<longleftrightarrow>
    (\<forall>m \<in> set files. is_enabled (enabled_mods files mods) (mz_name m) \<longrightarrow>
      (\<forall>n \<in> needs (by_name files) (mz_name m). n \<in> mz_name ` set files \<and> is_enabled (enabled_mods files mods) n))"
proof -
  have get: "gm_get (by_name files) (mz_name m) = Some m" if "m \<in> set files" for m
    using that assms(2) by (auto simp: by_name_get find_Some_iff in_set_conv_nth distinct_conv_nth)
  have needs: "(\<forall>n \<in> needs (by_name files) (mz_name m). Q n) \<longleftrightarrow>
      (\<forall>raw \<in> set (mz_deps m). required_dep raw \<longrightarrow> Q (dep_name (parseDep raw)))" if "m \<in> set files" for m Q
    by (auto simp: needs_def get [OF that])
  show ?thesis
    using assms(1) check_builtin_dep_None [OF assms(2,3)]
    by (simp add: ValidateBuiltinModDependencies_def first_error_None needs Let_def)
qed

text \<open>
  C38.  Enabling a bundled mod enables what it requires: if the mod list was accepted by the check of
  the bundled mods, the list after a successful change is accepted too, the mod is enabled in it, no
  mod has been disabled, and every mod enabled on the way is a bundled one.
\<close>

theorem builtin_enable_is_closed:
  assumes "SetBuiltinModEnabled folder mods name True = Some (None, mods')"
    and "GetBuiltinModFiles folder = Inr files" and "distinct (map mz_name files)" and "shipped_together files"
    and "distinct (map md_name mods)" and "ValidateBuiltinModDependencies folder mods = None"
  shows "ValidateBuiltinModDependencies folder mods' = None \<and> entry_of mods' name = Some True \<and>
    (\<forall>n. entry_of mods' n = entry_of mods n \<or> entry_of mods' n = Some True \<and> n \<in> mz_name ` set files)"
proof -
  let ?i = "by_name files"
  have known: "gm_get ?i n \<noteq> None \<longleftrightarrow> n \<in> mz_name ` set files" for n
    using find_name_None [of mz_name n files] by (simp add: by_name_get [OF assms(3)])
  obtain s where inst: "gm_get ?i name \<noteq> None" and run: "set_mod (Suc (length ?i)) ?i name True (mods, []) = Some (None, s)" and "mods' = fst s"
    using assms(1,2) by (auto simp: SetBuiltinModEnabled_def Let_def split: if_splits simp del: set_mod.simps)
  have step: "enabling_step ?i (mods, []) s" and seen: "name \<in> set (snd s)"
    using set_mod_step [OF inst run] by auto
  have new: "gm_get ?i m \<noteq> None" "needs ?i m \<subseteq> set (snd s)" "entry_of mods' m = Some True" if "m \<in> set (snd s)" for m
    using step that \<open>mods' = fst s\<close> by (auto simp: enabling_step_def Let_def)
  have old: "entry_of mods' m = entry_of mods m" if "m \<notin> set (snd s)" for m
    using step that \<open>mods' = fst s\<close> by (simp add: enabling_step_def Let_def)
  have dist: "distinct (map md_name mods')" using step assms(5) \<open>mods' = fst s\<close> by (simp add: enabling_step_def Let_def)
  have enabled: "is_enabled (enabled_mods files mods') m \<longleftrightarrow> m \<in> set (snd s) \<or> is_enabled (enabled_mods files mods) m" for m
    using new(3) [of m] old [of m] by (cases "m \<in> set (snd s)") (simp_all add: is_enabled_entry [OF dist] is_enabled_entry [OF assms(5)])
  have "ValidateBuiltinModDependencies folder mods' = None"
    using assms(6) new known unfolding validate_builtin [OF assms(2-4)] enabled by blast
  with new old seen known show ?thesis by blast
qed

definition demo_bundle :: "(string \<times> (string + mod_zip)) list" where
  "demo_bundle = [(''base'', Inr no_zip), (''quality'', Inr (no_zip\<lparr>mz_deps := [''base'', ''recycler'']\<rparr>)), (''recycler'', Inr (no_zip\<lparr>mz_deps := [''base'']\<rparr>))]"

definition demo_files :: "mod_zip list" where
  "demo_files = [no_zip\<lparr>mz_name := ''base''\<rparr>, no_zip\<lparr>mz_deps := [''base'', ''recycler''], mz_name := ''quality''\<rparr>,
     no_zip\<lparr>mz_deps := [''base''], mz_name := ''recycler''\<rparr>]"

lemma plain_dep: "parseDep ''recycler'' =
    \<lparr>dep_name = ''recycler'', dep_version = [], dep_equality = EO_ERROR, dep_optional = False, dep_incompatible = False\<rparr>"
  "\<not> recommended ''base''" "\<not> recommended ''recycler''"
  by (simp_all add: parseDep_def recommended_def trim_space_def is_space_def TrimPrefix_def has_prefix_def is_op_def)

lemma demo_bundle_read: "GetBuiltinModFiles (Entries demo_bundle) = Inr demo_files"
  by (simp add: demo_bundle_def demo_files_def IsBaseMod_def)

lemma demo_shipped: "shipped_together demo_files" "distinct (map mz_name demo_files)"
  by (auto simp: shipped_together_def demo_files_def no_zip_def plain_dep base_dep)

definition demo_mods :: "mod_data list" where
  "demo_mods = [\<lparr>md_name = ''quality'', md_enabled = False\<rparr>, \<lparr>md_name = ''recycler'', md_enabled = False\<rparr>, \<lparr>md_name = ''flib'', md_enabled = True\<rparr>]"

lemma demo_mods_valid: "ValidateBuiltinModDependencies (Entries demo_bundle) demo_mods = None"
  unfolding ValidateBuiltinModDependencies_def demo_bundle_read sum.case
  by (simp add: demo_files_def demo_mods_def enabled_mods_def is_enabled_def no_zip_def check_builtin_dep_def plain_dep base_dep
      by_name_def Let_def)

lemma demo_enable: "SetBuiltinModEnabled (Entries demo_bundle) demo_mods ''quality'' True = Some (None,
    [\<lparr>md_name = ''quality'', md_enabled = True\<rparr>, \<lparr>md_name = ''recycler'', md_enabled = True\<rparr>, \<lparr>md_name = ''flib'', md_enabled = True\<rparr>,
     \<lparr>md_name = ''base'', md_enabled = True\<rparr>])"
  unfolding SetBuiltinModEnabled_def demo_bundle_read sum.case
  by (simp add: demo_files_def demo_mods_def no_zip_def by_name_def builtin_dep_plain
      plain_dep base_dep gm_put_def gm_get_def Let_def)

theorem builtin_enable_is_closed_witness:
  "\<exists>mods'. SetBuiltinModEnabled (Entries demo_bundle) demo_mods ''quality'' True = Some (None, mods') \<and>
     ValidateBuiltinModDependencies (Entries demo_bundle) mods' = None \<and> entry_of mods' ''quality'' = Some True"
  using builtin_enable_is_closed [OF demo_enable demo_bundle_read demo_shipped(2,1) _ demo_mods_valid] demo_enable
  by (simp add: demo_mods_def)

end
