(* ===== verification/Mod_Restart.thy ===== *)
theory Mod_Restart
  imports Lifecycle_Properties Mod_Install_Properties Mod_Builtin
begin

text \<open>
  Mod updates and the lifecycle manager together (modupdate/newUpdate.go): an update that brought new
  mods queues a restart of the game, which waits until the server is empty.  The state is the world of
  the updater with that of the manager; \<open>rid\<close> is the request id \<open>submitLifecycleRequest\<close> gives.  The
  Discord messages are left out.
\<close>

section \<open>Operations\<close>

definition restart_when_empty :: "string \<Rightarrow> string \<Rightarrow> request" where
  "restart_when_empty reason rid = (own_request ActionRestartFactorio reason rid)\<lparr>r_when_empty := True\<rparr>"

definition checkMods :: "update_env \<Rightarrow> lc_env \<Rightarrow> string \<Rightarrow> bool \<Rightarrow> bool \<Rightarrow> bool \<Rightarrow> update_world \<times> lifecycle \<Rightarrow> update_world \<times> lifecycle" where
  "checkMods env lenv rid modUpdate force reportNone s =
     (let (w, lm) = s in
      if \<not> modUpdate \<and> \<not> force then s
      else
        (let ((updated, err), w) = CheckModUpdates env False (\<not> reportNone) w in
         (w, if updated \<and> g_fact_running lm
             then snd (submitLifecycleRequest lenv (restart_when_empty ''Rebooting Factorio.'' rid) lm) else lm)))"

datatype control_error = UpdateFailed update_error | RestartFailed string

definition CheckModsForControl :: "update_env \<Rightarrow> lc_env \<Rightarrow> string \<Rightarrow> update_world \<times> lifecycle \<Rightarrow>
    (bool \<times> control_error option) \<times> update_world \<times> lifecycle" where
  "CheckModsForControl env lenv rid s =
     (let (w, lm) = s; ((updated, err), w) = CheckModUpdates env False False w in
      if err = None \<and> updated \<and> lm_phase lm \<noteq> Stopped then
        (let (rerr, lm) = submitLifecycleRequest lenv (restart_when_empty ''Rebooting Factorio after mod updates.'' rid) lm
         in ((updated, map_option RestartFailed rerr), w, lm))
      else ((updated, map_option UpdateFailed err), w, lm))"

section \<open>Properties\<close>

lemma submit_restart:
  "submitLifecycleRequest lenv (restart_when_empty reason rid) lm =
    (if lm_shutdown lm then (Some ''lifecycle manager is shutting down'', lm)
     else (None, syncCompatibilityLocked (enqueue (restart_when_empty reason rid) lm)))"
  by (simp add: submitLifecycleRequest_def restart_when_empty_def own_request_def)

lemma waits_for_players:
  assumes "lm_phase lm \<noteq> Stopped" "0 < g_players lm"
  shows "\<not> requestRunnableLocked lenv lm (restart_when_empty reason rid)"
    "nextRequest lenv lm = Some (req, lm') \<Longrightarrow> req \<noteq> restart_when_empty reason rid"
proof -
  show no: "\<not> requestRunnableLocked lenv lm (restart_when_empty reason rid)"
    using assms by (simp add: requestRunnableLocked_def restart_when_empty_def own_request_def)
  show "req \<noteq> restart_when_empty reason rid" if "nextRequest lenv lm = Some (req, lm')"
  proof -
    from that obtain k where "best_from lenv lm (lm_queue lm) k" "req = lm_queue lm ! k" by (rule nextRequest_spec)
    with no show ?thesis by (auto simp: best_from_def)
  qed
qed

text \<open>
  A mod update never throws players off the server.  A check of the mods changes the lifecycle
  manager only when the whole plan was downloaded and the game runs, and all it does then is to append
  one request to restart the game to the queue; it starts and stops no process itself.  In any later
  state of the manager in which the game runs and players are online, the manager does not take that
  request.
\<close>

theorem mod_restart_waits_for_players:
  assumes "checkMods env lenv rid modUpdate force reportNone (w, lm) = (w', lm')" and "lm' \<noteq> lm"
  shows "(\<exists>err w1. CheckModUpdates env False (\<not> reportNone) w = ((True, err), w1)) \<and> g_fact_running lm \<and>
    (\<exists>r. lm_queue lm' = lm_queue lm @ [r] \<and> r_kind r = ActionRestartFactorio \<and> lm_trace lm' = lm_trace lm \<and>
      lm_phase lm' = lm_phase lm \<and>
      (\<forall>lenv' later req next. lm_phase later \<noteq> Stopped \<and> 0 < g_players later \<longrightarrow> nextRequest lenv' later = Some (req, next) \<longrightarrow> req \<noteq> r))"
proof -
  let ?r = "restart_when_empty ''Rebooting Factorio.'' rid"
  obtain updated err w1 where run: "CheckModUpdates env False (\<not> reportNone) w = ((updated, err), w1)" by (metis prod_cases3 prod.collapse)
  have upd: "updated" "g_fact_running lm" "lm' = snd (submitLifecycleRequest lenv ?r lm)"
    using assms run by (auto simp: checkMods_def split: if_splits)
  with assms(2) have lm': "lm' = syncCompatibilityLocked (enqueue ?r lm)"
    by (auto simp: submit_restart split: if_splits)
  have "lm_queue lm' = lm_queue lm @ [?r]" "lm_trace lm' = lm_trace lm" "lm_phase lm' = lm_phase lm" "r_kind ?r = ActionRestartFactorio"
    by (simp_all add: lm' syncCompatibilityLocked_def enqueue_def restart_when_empty_def own_request_def Let_def)
  moreover have "\<forall>lenv' later req next. lm_phase later \<noteq> Stopped \<and> 0 < g_players later \<longrightarrow> nextRequest lenv' later = Some (req, next) \<longrightarrow> req \<noteq> ?r"
    using waits_for_players(2) by blast
  moreover have "CheckModUpdates env False (\<not> reportNone) w = ((True, err), w1)" using run upd(1) by simp
  ultimately show ?thesis using upd(2) by (intro conjI exI [of _ err] exI [of _ w1] exI [of _ ?r])
qed

definition busy_manager :: lifecycle where
  "busy_manager = idle_manager\<lparr>lm_phase := Running, g_fact_running := True, g_players := 3\<rparr>"

theorem mod_restart_waits_for_players_witness:
  "\<exists>w' lm' r. checkMods demo_env calm_env ''req-1'' True False True (\<lparr>uw_folder = demo_folder, uw_history = [], uw_events = []\<rparr>, busy_manager) = (w', lm') \<and>
     lm_queue lm' = lm_queue busy_manager @ [r] \<and> r_kind r = ActionRestartFactorio \<and>
     (\<forall>req next. nextRequest calm_env lm' = Some (req, next) \<longrightarrow> req \<noteq> r)"
proof -
  let ?w = "\<lparr>uw_folder = demo_folder, uw_history = [], uw_events = []\<rparr>"
  obtain w1 where up: "CheckModUpdates demo_env False False ?w = ((True, None), w1)" using demo_updated by blast
  have busy: "g_fact_running busy_manager" "\<not> lm_shutdown busy_manager" "lm_queue busy_manager = []"
    by (simp_all add: busy_manager_def idle_manager_def)
  let ?lm = "syncCompatibilityLocked (enqueue (restart_when_empty ''Rebooting Factorio.'' ''req-1'') busy_manager)"
  have run: "checkMods demo_env calm_env ''req-1'' True False True (?w, busy_manager) = (w1, ?lm)"
    using up busy by (simp add: checkMods_def submit_restart)
  have lm: "lm_queue ?lm \<noteq> lm_queue busy_manager" "lm_phase ?lm \<noteq> Stopped" "0 < g_players ?lm"
    by (simp_all add: busy_manager_def idle_manager_def syncCompatibilityLocked_def enqueue_def Let_def)
  then have "?lm \<noteq> busy_manager" by metis
  from mod_restart_waits_for_players [OF run this] obtain r where "lm_queue ?lm = lm_queue busy_manager @ [r]"
    "r_kind r = ActionRestartFactorio" "\<forall>lenv' later req next. lm_phase later \<noteq> Stopped \<and> 0 < g_players later \<longrightarrow>
      nextRequest lenv' later = Some (req, next) \<longrightarrow> req \<noteq> r" by blast
  with run lm(2,3) show ?thesis by blast
qed

end
