(* ===== verification/Go_Path.thy ===== *)
theory Go_Path
  imports CW_Prelude
begin

text \<open>
  The lexical path functions of packages \<open>path\<close> and \<open>path/filepath\<close> on a system whose separator is
  the slash: \<open>Clean\<close>, \<open>Base\<close>, \<open>Dir\<close> and \<open>Join\<close>.  \<open>Clean\<close> works on the segments between the slashes
  with the segments kept so far on a stack, the last one on top.
\<close>

section \<open>Functions\<close>

definition path_clean_step :: "bool \<Rightarrow> string list \<Rightarrow> string \<Rightarrow> string list" where
  "path_clean_step rooted stack seg =
     (if seg = [] \<or> seg = ''.'' then stack
      else if seg = ''..'' then
        (case stack of [] \<Rightarrow> if rooted then [] else [''..'']
         | upper # below \<Rightarrow> if upper = ''..'' then ''..'' # stack else below)
      else seg # stack)"

fun join_segs :: "string list \<Rightarrow> string" where
  "join_segs [] = []"
| "join_segs [s] = s"
| "join_segs (s # t # ts) = s @ CHR ''/'' # join_segs (t # ts)"

definition segs :: "string \<Rightarrow> string list" where
  "segs p = split_on (CHR ''/'') p"

definition path_Clean :: "string \<Rightarrow> string" where
  "path_Clean p =
     (if p = [] then ''.''
      else
        (let rooted = has_prefix p ''/'';
             out = join_segs (rev (foldl (path_clean_step rooted) [] (segs p)))
         in if rooted then CHR ''/'' # out else if out = [] then ''.'' else out))"

definition strip_slashes :: "string \<Rightarrow> string" where
  "strip_slashes p = rev (dropWhile (\<lambda>c. c = CHR ''/'') (rev p))"

definition filepath_Base :: "string \<Rightarrow> string" where
  "filepath_Base p =
     (if p = [] then ''.''
      else let q = strip_slashes p in if q = [] then ''/'' else last (segs q))"

definition filepath_Dir :: "string \<Rightarrow> string" where
  "filepath_Dir p = path_Clean (rev (dropWhile (\<lambda>c. c \<noteq> CHR ''/'') (rev p)))"

definition filepath_Join :: "string \<Rightarrow> string \<Rightarrow> string" where
  "filepath_Join a b =
     (if a = [] \<and> b = [] then [] else if a = [] then path_Clean b else if b = [] then path_Clean a
      else path_Clean (a @ CHR ''/'' # b))"

section \<open>Segments\<close>

lemma split_on_ne [simp]: "split_on c s \<noteq> []"
  by (induction s) (auto split: list.splits)

lemma split_on_append: "split_on c (s @ c # t) = split_on c s @ split_on c t"
  by (induction s) (auto split: list.splits)

lemma split_on_free: "x \<in> set (split_on c s) \<Longrightarrow> c \<notin> set x"
  by (induction s arbitrary: x) (auto split: list.splits if_splits)

lemma split_on_single: "c \<notin> set s \<Longrightarrow> split_on c s = [s]"
  by (induction s) auto

lemma segs_append: "segs (s @ CHR ''/'' # t) = segs s @ segs t"
  by (simp add: segs_def split_on_append)

lemma segs_join: "xs \<noteq> [] \<Longrightarrow> \<forall>x \<in> set xs. CHR ''/'' \<notin> set x \<Longrightarrow> segs (join_segs xs) = xs"
proof (induction xs rule: join_segs.induct)
  case (2 s)
  then show ?case by (simp add: segs_def split_on_single)
next
  case (3 s t ts)
  then show ?case by (simp add: segs_append) (simp add: segs_def split_on_single)
qed simp

lemma join_segs_append:
  "xs \<noteq> [] \<Longrightarrow> ys \<noteq> [] \<Longrightarrow> join_segs (xs @ ys) = join_segs xs @ CHR ''/'' # join_segs ys"
proof (induction xs rule: join_segs.induct)
  case (2 s)
  then show ?case by (cases ys) simp_all
qed auto

lemma join_split: "join_segs (split_on (CHR ''/'') s) = s"
proof (induction s)
  case (Cons a s)
  show ?case
  proof (cases "split_on (CHR ''/'') s")
    case (Cons p ps)
    with Cons.IH show ?thesis by (cases ps) auto
  qed simp
qed simp

text \<open>A segment that stays.\<close>

definition proper :: "string \<Rightarrow> bool" where
  "proper s \<longleftrightarrow> s \<noteq> [] \<and> s \<noteq> ''.'' \<and> s \<noteq> ''..'' \<and> CHR ''/'' \<notin> set s"

section \<open>Staying below a folder\<close>

text \<open>How many segments of a stack lead upwards; processing more segments never undoes them.\<close>

definition ups :: "string list \<Rightarrow> nat" where
  "ups stack = length (filter (\<lambda>s. s = ''..'') stack)"

lemma ups_step: "ups stack \<le> ups (path_clean_step False stack seg)"
  by (auto simp: ups_def path_clean_step_def split: list.splits)

lemma ups_foldl: "ups stack \<le> ups (foldl (path_clean_step False) stack xs)"
  by (induction xs arbitrary: stack) (auto intro: order_trans ups_step)

lemma step_above:
  assumes "ups (path_clean_step False stack seg) = 0" "proper upper"
  shows "path_clean_step True (stack @ upper # base) seg = path_clean_step False stack seg @ upper # base"
  using assms by (auto simp: path_clean_step_def ups_def proper_def split: list.splits if_splits)

lemma step_above_nil:
  assumes "ups (path_clean_step False stack seg) = 0"
  shows "path_clean_step True stack seg = path_clean_step False stack seg"
  using assms by (auto simp: path_clean_step_def ups_def split: list.splits if_splits)

lemma foldl_above:
  assumes "\<forall>s \<in> set base. proper s"
  shows "ups (foldl (path_clean_step False) stack xs) = 0 \<Longrightarrow>
    foldl (path_clean_step True) (stack @ base) xs = foldl (path_clean_step False) stack xs @ base"
proof (induction xs arbitrary: stack)
  case (Cons x xs)
  have "ups (path_clean_step False stack x) \<le> 0"
    using ups_foldl [of "path_clean_step False stack x" xs] Cons.prems by simp
  then have "path_clean_step True (stack @ base) x = path_clean_step False stack x @ base"
    using assms by (cases base) (auto simp: step_above step_above_nil)
  with Cons show ?case by simp
qed simp

text \<open>The shape of a stack: proper segments on top of upward ones.\<close>

definition shaped :: "string list \<Rightarrow> bool" where
  "shaped stack \<longleftrightarrow> (\<exists>upper k. stack = upper @ replicate k ''..'' \<and> (\<forall>s \<in> set upper. proper s))"

lemma shaped_nil: "shaped []"
  by (auto simp: shaped_def)

lemma shaped_step:
  assumes "shaped stack" "CHR ''/'' \<notin> set seg"
  shows "shaped (path_clean_step False stack seg)"
proof -
  obtain upper k where st: "stack = upper @ replicate k ''..''" "\<forall>s \<in> set upper. proper s"
    using assms(1) by (auto simp: shaped_def)
  consider "seg = [] \<or> seg = ''.''" | "seg = ''..''" | "proper seg" using assms(2) by (auto simp: proper_def)
  then show ?thesis
  proof cases
    case 2
    show ?thesis
    proof (cases upper)
      case Nil
      then have "path_clean_step False stack seg = [] @ replicate (Suc k) ''..''"
        using st 2 by (cases k) (simp_all add: path_clean_step_def)
      then show ?thesis unfolding shaped_def by (metis empty_iff list.set(1))
    next
      case (Cons s ss)
      then have "path_clean_step False stack seg = ss @ replicate k ''..''"
        using st 2 by (simp add: path_clean_step_def proper_def)
      with Cons st(2) show ?thesis unfolding shaped_def by (metis list.set_intros(2))
    qed
  next
    case 3
    then have "path_clean_step False stack seg = (seg # upper) @ replicate k ''..''"
      using st by (auto simp: path_clean_step_def proper_def)
    with st(2) 3 show ?thesis unfolding shaped_def by (metis set_ConsD)
  qed (use assms(1) in \<open>auto simp: path_clean_step_def\<close>)
qed

lemma shaped_foldl: "shaped stack \<Longrightarrow> \<forall>x \<in> set xs. CHR ''/'' \<notin> set x \<Longrightarrow> shaped (foldl (path_clean_step False) stack xs)"
  by (induction xs arbitrary: stack) (auto intro: shaped_step)

lemma clean_stack_shaped: "shaped (foldl (path_clean_step False) [] (segs p))"
  by (rule shaped_foldl) (auto simp: shaped_nil segs_def split_on_free)

lemma ups_zero_of_clean:
  assumes "\<not> has_prefix n ''/''" "path_Clean n \<noteq> ''..''" "\<not> has_prefix (path_Clean n) ''../''" "n \<noteq> []"
  shows "ups (foldl (path_clean_step False) [] (segs n)) = 0"
proof (rule ccontr)
  let ?st = "foldl (path_clean_step False) [] (segs n)"
  assume up: "ups ?st \<noteq> 0"
  obtain upper k where st: "?st = upper @ replicate k ''..''" "\<forall>s \<in> set upper. proper s"
    using clean_stack_shaped [of n] by (auto simp: shaped_def)
  have "filter (\<lambda>s. s = ''..'') upper = []" using st(2) by (auto simp: filter_empty_conv proper_def)
  then have "k \<noteq> 0" using up st(1) by (auto simp: ups_def)
  then obtain j where k: "k = Suc j" by (cases k) auto
  have rv: "rev ?st = ''..'' # replicate j ''..'' @ rev upper"
    using st(1) k by (simp add: replicate_append_same [symmetric])
  then have "path_Clean n = join_segs (''..'' # replicate j ''..'' @ rev upper)"
    using assms(1,4) by (cases "replicate j ''..'' @ rev upper") (auto simp: path_Clean_def Let_def)
  then have "path_Clean n = ''..'' \<or> has_prefix (path_Clean n) ''../''"
    by (cases "replicate j ''..'' @ rev upper") (auto simp: has_prefix_def)
  with assms(2,3) show False by blast
qed

lemma foldl_proper: "\<forall>s \<in> set xs. proper s \<Longrightarrow> foldl (path_clean_step r) st xs = rev xs @ st"
  by (induction xs arbitrary: st) (auto simp: path_clean_step_def proper_def)

text \<open>An absolute, clean folder.\<close>

definition clean_folder :: "string \<Rightarrow> bool" where
  "clean_folder root \<longleftrightarrow> (\<exists>r. r \<noteq> [] \<and> (\<forall>s \<in> set r. proper s) \<and> root = CHR ''/'' # join_segs r)"

lemma join_inside:
  assumes "clean_folder root" "\<not> has_prefix n ''/''" "path_Clean n \<noteq> ''..''" "\<not> has_prefix (path_Clean n) ''../''"
  shows "filepath_Join root n = root \<or> has_prefix (filepath_Join root n) (root @ ''/'')"
proof -
  obtain r where r: "r \<noteq> []" "\<forall>s \<in> set r. proper s" "root = CHR ''/'' # join_segs r"
    using assms(1) by (auto simp: clean_folder_def)
  have rsegs: "segs root = [] # r"
    using segs_append [of "[]" "join_segs r"] segs_join [of r] r by (auto simp: proper_def segs_def)
  have rooted: "foldl (path_clean_step True) [] (segs root) = rev r"
    using r(2) by (simp add: rsegs foldl_proper path_clean_step_def)
  show ?thesis
  proof (cases "n = []")
    case True
    have "path_Clean root = root" using r(3) rooted by (simp add: path_Clean_def has_prefix_def)
    with True show ?thesis using r(3) by (simp add: filepath_Join_def)
  next
    case False
    let ?st = "foldl (path_clean_step False) [] (segs n)"
    have "foldl (path_clean_step True) (rev r) (segs n) = ?st @ rev r"
      using foldl_above [of "rev r" "[]" "segs n"] r(2) ups_zero_of_clean [OF assms(2-4) False] by simp
    then have fold: "foldl (path_clean_step True) [] (segs (root @ CHR ''/'' # n)) = ?st @ rev r"
      by (simp add: segs_append rooted)
    have "filepath_Join root n = CHR ''/'' # join_segs (r @ rev ?st)"
      using r(3) False fold by (simp add: filepath_Join_def path_Clean_def has_prefix_def)
    then show ?thesis using r(1,3) join_segs_append [of r "rev ?st"]
      by (cases "?st = []") (simp_all add: has_prefix_def)
  qed
qed

lemma Base_segment: "filepath_Base name = name \<Longrightarrow> name \<noteq> ''/'' \<Longrightarrow> CHR ''/'' \<notin> set name"
proof -
  assume base: "filepath_Base name = name" "name \<noteq> ''/''"
  show ?thesis
  proof (cases "name = [] \<or> strip_slashes name = []")
    case True
    with base show ?thesis by (auto simp: filepath_Base_def Let_def split: if_splits)
  next
    case False
    then have "name = last (segs (strip_slashes name))" using base by (simp add: filepath_Base_def Let_def)
    then have "name \<in> set (segs (strip_slashes name))" using last_in_set split_on_ne by (metis segs_def)
    then show ?thesis by (simp add: segs_def split_on_free)
  qed
qed

lemma clean_folder_join:
  assumes "clean_folder root" "proper s"
  shows "filepath_Join root s = root @ CHR ''/'' # s" "clean_folder (root @ CHR ''/'' # s)"
proof -
  obtain r where r: "r \<noteq> []" "\<forall>s \<in> set r. proper s" "root = CHR ''/'' # join_segs r"
    using assms(1) by (auto simp: clean_folder_def)
  have whole: "root @ CHR ''/'' # s = CHR ''/'' # join_segs (r @ [s])"
    using r by (simp add: join_segs_append)
  have "\<forall>x \<in> set (r @ [s]). proper x" using r(2) assms(2) by simp
  then show "clean_folder (root @ CHR ''/'' # s)" unfolding clean_folder_def whole by blast
  have "segs (root @ CHR ''/'' # s) = [] # r @ [s]"
  proof -
    have "segs root = [] # r"
      using segs_append [of "[]" "join_segs r"] segs_join [of r] r by (auto simp: proper_def segs_def)
    moreover have "segs s = [s]" using assms(2) by (simp add: segs_def split_on_single proper_def)
    ultimately show ?thesis by (simp add: segs_append)
  qed
  then have "foldl (path_clean_step True) [] (segs (root @ CHR ''/'' # s)) = rev (r @ [s])"
    using foldl_proper [OF \<open>\<forall>x \<in> set (r @ [s]). proper x\<close>, of True "[]"] by (simp add: path_clean_step_def)
  moreover have "s \<noteq> []" "root \<noteq> []" using assms(2) r(3) by (auto simp: proper_def)
  ultimately show "filepath_Join root s = root @ CHR ''/'' # s"
    using whole by (simp add: filepath_Join_def path_Clean_def has_prefix_def r(3))
qed

lemma strip_no_slash: "CHR ''/'' \<notin> set s \<Longrightarrow> strip_slashes s = s"
proof -
  assume "CHR ''/'' \<notin> set s"
  then have "dropWhile (\<lambda>c. c = CHR ''/'') (rev s) = rev s" by (subst dropWhile_eq_self_iff) (metis hd_in_set set_rev)
  then show ?thesis by (simp add: strip_slashes_def)
qed

lemma Base_no_slash: "CHR ''/'' \<notin> set s \<Longrightarrow> s \<noteq> [] \<Longrightarrow> filepath_Base s = s"
  by (simp add: filepath_Base_def strip_no_slash segs_def split_on_single)

end
