(* ===== verification/Saves.thy ===== *)
theory Saves
  imports Go_Path "HOL-Library.Multiset"
begin

text \<open>
  The folder of saved games and the change to another save (fact/save_transition.go,
  support/launcher_saves.go, fact/util.go, util/fileutil.go).  The folder maps file names to files.
  Reading a zip archive is the argument \<open>unzip\<close>: the entries in order, each with what opening and
  reading it gives.  The faults of the file system are fields of \<open>save_io\<close>.  A copy goes through a
  temporary file that no other code looks at, so it is one step.
\<close>

section \<open>Saves\<close>

record save_file =
  sf_data :: "byte list"
  sf_mtime :: gotime
  sf_dir :: bool

type_synonym saves = "(string, save_file) gomap"

text \<open>An entry that cannot be opened has \<open>None\<close>; the flag says whether it could be read to its end.\<close>

record save_entry =
  se_name :: string
  se_content :: "(byte list \<times> bool) option"

type_synonym unzip = "byte list \<Rightarrow> save_entry list option"

definition LevelDatMinSize :: nat where "LevelDatMinSize = 50 * 1024"

fun level_entry :: "save_entry list \<Rightarrow> string option" where
  "level_entry [] = None"
| "level_entry (e # es) =
     (case se_content e of
        None \<Rightarrow> None
      | Some (content, complete) \<Rightarrow>
          if has_suffix (se_name e) ''level.dat0''
          then (if LevelDatMinSize < length content \<and> complete then Some (filepath_Dir (se_name e)) else None)
          else level_entry es)"

text \<open>\<open>Some folder\<close> for a good save.\<close>

definition CheckSave :: "unzip \<Rightarrow> saves \<Rightarrow> string \<Rightarrow> string option" where
  "CheckSave unzip saves name =
     (case gm_get saves name of
        None \<Rightarrow> None
      | Some f \<Rightarrow> if sf_dir f then None
          else case unzip (sf_data f) of None \<Rightarrow> None | Some es \<Rightarrow> level_entry es)"

section \<open>Which save is loaded\<close>

definition save_candidate :: "string \<times> save_file \<Rightarrow> bool" where
  "save_candidate f \<longleftrightarrow> \<not> sf_dir (snd f) \<and> has_suffix (fst f) ''.zip'' \<and> \<not> has_suffix (fst f) ''tmp.zip''"

text \<open>What \<open>sort.Slice\<close> may make of the candidates: newest first, saves of the same time in any order.\<close>

definition newest_first :: "saves \<Rightarrow> saves \<Rightarrow> bool" where
  "newest_first saves order \<longleftrightarrow> mset order = mset (filter save_candidate saves) \<and>
     sorted_wrt (\<lambda>a b. sf_mtime (snd b) \<le> sf_mtime (snd a)) order"

fun first_good :: "unzip \<Rightarrow> saves \<Rightarrow> saves \<Rightarrow> (string \<times> string) option" where
  "first_good unzip saves [] = None"
| "first_good unzip saves (f # fs) =
     (if fst f = [] then first_good unzip saves fs
      else case CheckSave unzip saves (fst f) of
          Some folder \<Rightarrow> Some (fst f, folder)
        | None \<Rightarrow> first_good unzip saves fs)"

text \<open>\<open>order\<close> is the sorted list; \<open>None\<close> in place of it is a folder that cannot be read.\<close>

definition GetSaveGame :: "unzip \<Rightarrow> saves \<Rightarrow> saves option \<Rightarrow> (string \<times> string) option" where
  "GetSaveGame unzip saves order = (case order of None \<Rightarrow> None | Some fs \<Rightarrow> first_good unzip saves fs)"

definition selectLaunchSave :: "unzip \<Rightarrow> saves \<Rightarrow> saves option \<Rightarrow> string \<Rightarrow> string \<Rightarrow> (string \<times> string) option" where
  "selectLaunchSave unzip saves order pending saveName =
     (let saveName = (if saveName = [] then pending else saveName) in
      if saveName = [] then GetSaveGame unzip saves order
      else if saveName \<noteq> filepath_Base saveName then None
      else case CheckSave unzip saves saveName of None \<Rightarrow> None | Some folder \<Rightarrow> Some (saveName, folder))"

section \<open>Changing the save\<close>

record save_io =
  si_temp :: "string + string"
  si_close :: "string option"
  si_copy :: "string option"
  si_chtimes :: "string option"
  si_rename :: "string option"

definition CopyFileAtomic :: "string option \<Rightarrow> string \<Rightarrow> string \<Rightarrow> saves \<Rightarrow> string option \<times> saves" where
  "CopyFileAtomic fault src dst saves =
     (case gm_get saves src of
        None \<Rightarrow> (Some ''open: no such file'', saves)
      | Some f \<Rightarrow>
          if sf_dir f then (Some ''read: is a directory'', saves)
          else case fault of
              Some e \<Rightarrow> (Some e, saves)
            | None \<Rightarrow> (None, gm_put saves dst f))"

text \<open>\<open>si_temp\<close> is the random part of the name \<open>os.CreateTemp\<close> picks.\<close>

definition snapshot_name :: "string \<Rightarrow> string" where
  "snapshot_name rnd = ''.cw-rewind-'' @ rnd @ ''.tmp.zip''"

definition empty_save :: save_file where "empty_save = \<lparr>sf_data = [], sf_mtime = 0, sf_dir = False\<rparr>"

definition stageMapChange :: "unzip \<Rightarrow> save_io \<Rightarrow> string \<Rightarrow> saves \<Rightarrow> (string + string) \<times> saves" where
  "stageMapChange unzip io name saves =
     (if name = [] \<or> name \<noteq> filepath_Base name \<or> CHR ''/'' \<in> set name \<or> CHR 0x5C \<in> set name
      then (Inl (''invalid save name '' @ name), saves)
      else case si_temp io of
          Inl e \<Rightarrow> (Inl (''create rewind snapshot: '' @ e), saves)
        | Inr rnd \<Rightarrow>
            (let snapshot = snapshot_name rnd; saves = gm_put saves snapshot empty_save in
             case si_close io of
               Some e \<Rightarrow> (Inl e, gm_del saves snapshot)
             | None \<Rightarrow>
                 (case CopyFileAtomic (si_copy io) (name @ ''.zip'') snapshot saves of
                    (Some e, saves) \<Rightarrow> (Inl (''copy selected save: '' @ e), gm_del saves snapshot)
                  | (None, saves) \<Rightarrow>
                      if CheckSave unzip saves snapshot = None
                      then (Inl (''selected save '' @ name @ '' is invalid''), gm_del saves snapshot)
                      else (Inr snapshot, saves))))"

text \<open>What a change of the map sets in the configuration.\<close>

record map_choice =
  mc_pending_save :: string
  mc_new_map :: bool
  mc_throttle :: int

definition doChangeMapAfterStop :: "save_io \<Rightarrow> gotime \<Rightarrow> string \<Rightarrow> string \<Rightarrow> saves \<times> map_choice \<Rightarrow>
    string option \<times> saves \<times> map_choice" where
  "doChangeMapAfterStop io now server snapshot s =
     (let (saves, choice) = s in
      case gm_get saves snapshot of
        None \<Rightarrow> (Some ''prepare selected save: no such file'', s)
      | Some f \<Rightarrow>
          (case si_chtimes io of
             Some e \<Rightarrow> (Some (''prepare selected save: '' @ e), s)
           | None \<Rightarrow>
               (let f = f\<lparr>sf_mtime := now\<rparr>; saves = gm_put saves snapshot f; destination = server @ ''_new.zip'' in
                case si_rename io of
                  Some e \<Rightarrow> (Some (''install selected save: '' @ e), saves, choice)
                | None \<Rightarrow>
                    (None, gm_put (gm_del saves snapshot) destination f,
                     choice\<lparr>mc_new_map := False, mc_pending_save := destination, mc_throttle := 0\<rparr>))))"

end
