(* ===== verification/Go_Time.thy ===== *)
theory Go_Time
  imports CW_Prelude
begin

text \<open>
  The calendar of package \<open>time\<close> in UTC: a \<open>time.Time\<close> is the number of nanoseconds since the zero
  time, midnight of 1 January of the year 1, in the proleptic Gregorian calendar.  \<open>time_Date\<close> takes
  months and days outside their usual range, as \<open>time.Date\<close> does, so that \<open>AddDate\<close> is its use on
  shifted fields.
\<close>

section \<open>Dates\<close>

abbreviation day_ns :: gotime where "day_ns \<equiv> 24 * hour_ns"

definition is_leap :: "int \<Rightarrow> bool" where
  "is_leap y \<longleftrightarrow> y mod 4 = 0 \<and> (y mod 100 \<noteq> 0 \<or> y mod 400 = 0)"

text \<open>Days before 1 January of the year, and before the first of the month (0 for January).\<close>

definition year_days :: "int \<Rightarrow> int" where
  "year_days y = 365 * (y - 1) + (y - 1) div 4 - (y - 1) div 100 + (y - 1) div 400"

definition month_table :: "nat list" where
  "month_table = [0, 31, 59, 90, 120, 151, 181, 212, 243, 273, 304, 334]"

definition month_days :: "bool \<Rightarrow> nat \<Rightarrow> int" where
  "month_days leap m = int (month_table ! m) + (if leap \<and> 2 \<le> m then 1 else 0)"

text \<open>The day number of the day \<open>d\<close> of the month \<open>m\<close> (1 for January) of the year \<open>y\<close>.\<close>

definition day_number :: "int \<Rightarrow> int \<Rightarrow> int \<Rightarrow> int" where
  "day_number y m d =
     (let y' = y + (m - 1) div 12; m' = nat ((m - 1) mod 12) in
      year_days y' + month_days (is_leap y') m' + d - 1)"

definition year_of :: "int \<Rightarrow> int" where
  "year_of n =
     (let n400 = n div 146097; r = n mod 146097; n100 = min 3 (r div 36524); r = r - 36524 * n100;
          n4 = r div 1461; r = r - 1461 * n4; n1 = min 3 (r div 365)
      in 400 * n400 + 100 * n100 + 4 * n4 + n1 + 1)"

definition month_of :: "bool \<Rightarrow> int \<Rightarrow> nat" where
  "month_of leap yday = length (filter (\<lambda>m. month_days leap m \<le> yday) [1..<12])"

text \<open>Year, month and day of a day number.\<close>

definition civil :: "int \<Rightarrow> int \<times> int \<times> int" where
  "civil n =
     (let y = year_of n; yday = n - year_days y; m = month_of (is_leap y) yday
      in (y, int m + 1, yday - month_days (is_leap y) m + 1))"

section \<open>Times\<close>

definition unix :: "gotime \<Rightarrow> int" where
  "unix t = t div second_ns - 62135596800"

definition time_Date :: "int \<Rightarrow> int \<Rightarrow> int \<Rightarrow> int \<Rightarrow> gotime" where
  "time_Date y m d hour = day_number y m d * day_ns + hour * hour_ns"

definition AddDate :: "int \<Rightarrow> int \<Rightarrow> int \<Rightarrow> gotime \<Rightarrow> gotime" where
  "AddDate years months days t =
     (let (y, m, d) = civil (t div day_ns) in day_number (y + years) (m + months) (d + days) * day_ns + t mod day_ns)"

definition time_Hour :: "gotime \<Rightarrow> int" where
  "time_Hour t = t mod day_ns div hour_ns"

text \<open>\<open>Time.Round\<close> rounds halves up, \<open>Duration.Round\<close> away from zero.\<close>

definition time_Round :: "gotime \<Rightarrow> gotime \<Rightarrow> gotime" where
  "time_Round d t = (let r = t mod d in if r + r < d then t - r else t + (d - r))"

definition duration_Round :: "gotime \<Rightarrow> gotime \<Rightarrow> gotime" where
  "duration_Round d m =
     (let r = \<bar>m\<bar> mod d in
      if m < 0 then (if r + r < d then m + r else m - d + r) else if r + r < d then m - r else m + d - r)"

section \<open>Facts\<close>

lemma div_pred: "0 < k \<Longrightarrow> y div k = (y - 1) div k + (if y mod k = 0 then 1 else 0)" for y k :: int
proof -
  assume k: "0 < k"
  let ?q = "y div k" and ?r = "y mod k"
  have y: "y = k * ?q + ?r" by simp
  have r: "0 \<le> ?r" "?r < k" using k by simp_all
  show ?thesis
  proof (cases "?r = 0")
    case True
    have "y - 1 = k * (?q - 1) + (k - 1)" using y True by (simp add: algebra_simps)
    from int_div_pos_eq [OF this] True k show ?thesis by simp
  next
    case False
    have "y - 1 = k * ?q + (?r - 1)" using y by simp
    from int_div_pos_eq [OF this] False r show ?thesis by simp
  qed
qed

lemma year_days_next: "year_days (y + 1) = year_days y + (if is_leap y then 366 else 365)"
proof -
  have imps: "y mod 400 = 0 \<Longrightarrow> y mod 100 = 0" "y mod 100 = 0 \<Longrightarrow> y mod 4 = 0"
    unfolding mod_eq_0_iff_dvd by (erule dvd_trans [rotated], simp)+
  have gen: "365 * y + b4 - b100 + b400 = 365 * (y - 1) + a4 - a100 + a400 + (if m4 \<and> (\<not> m100 \<or> m400) then 366 else 365)"
    if "b4 = a4 + (if m4 then 1 else 0)" "b100 = a100 + (if m100 then 1 else 0)" "b400 = a400 + (if m400 then 1 else 0)"
      "m400 \<Longrightarrow> m100" "m100 \<Longrightarrow> m4" for a4 a100 a400 b4 b100 b400 :: int and m4 m100 m400
    using that by auto
  have "365 * y + y div 4 - y div 100 + y div 400 = 365 * (y - 1) + (y - 1) div 4 - (y - 1) div 100 + (y - 1) div 400 +
      (if y mod 4 = 0 \<and> (\<not> y mod 100 = 0 \<or> y mod 400 = 0) then 366 else 365)"
    by (rule gen [OF div_pred div_pred div_pred imps]) simp_all
  then show ?thesis by (simp only: year_days_def is_leap_def add_diff_cancel_right')
qed

lemma year_of_bounds: "year_days (year_of n) \<le> n" "n < year_days (year_of n + 1)"
proof -
  define a where "a = n div 146097"
  define r where "r = n mod 146097"
  define b where "b = min 3 (r div 36524)"
  define r2 where "r2 = r - 36524 * b"
  define c where "c = r2 div 1461"
  define r3 where "r3 = r2 - 1461 * c"
  define d where "d = min 3 (r3 div 365)"
  have n: "n = 146097 * a + r" "0 \<le> r" "r < 146097" by (simp_all add: a_def r_def)
  have b: "0 \<le> b" "b \<le> 3" "0 \<le> r2" "r2 \<le> 36524" "b < 3 \<Longrightarrow> r2 < 36524" using n(2,3) by (auto simp: b_def r2_def min_def)
  have c: "0 \<le> c" "c \<le> 24" "0 \<le> r3" "r3 < 1461" "r2 = 1461 * c + r3" using b by (auto simp: c_def r3_def)
  have d: "0 \<le> d" "d \<le> 3" "365 * d \<le> r3" "d < 3 \<Longrightarrow> r3 < 365 * (d + 1)" "r3 \<le> 365 * d + 365"
    using c(3,4) by (auto simp: d_def min_def)
  have y: "year_of n = 400 * a + 100 * b + 4 * c + d + 1"
    by (simp add: year_of_def Let_def a_def b_def c_def d_def r_def r2_def r3_def)
  have div4: "(year_of n - 1) div 4 = 100 * a + 25 * b + c" using d by (simp add: y)
  have div100: "(year_of n - 1) div 100 = 4 * a + b"
  proof -
    have "year_of n - 1 = (4 * a + b) * 100 + (4 * c + d)" by (simp add: y)
    moreover have "0 \<le> 4 * c + d" "4 * c + d < 100" using c d by auto
    ultimately show ?thesis by simp
  qed
  have div400: "(year_of n - 1) div 400 = a"
  proof -
    have "year_of n - 1 = a * 400 + (100 * b + 4 * c + d)" by (simp add: y)
    moreover have "0 \<le> 100 * b + 4 * c + d" "100 * b + 4 * c + d < 400" using b c d by auto
    ultimately show ?thesis by simp
  qed
  have yd: "year_days (year_of n) = 146097 * a + 36524 * b + 1461 * c + 365 * d"
    unfolding year_days_def div4 div100 div400 by (simp add: y)
  have total: "n = 146097 * a + 36524 * b + 1461 * c + r3" using n(1) c(5) by (simp add: r2_def)
  show "year_days (year_of n) \<le> n" using d(3) yd total by linarith
  show "n < year_days (year_of n + 1)"
  proof (cases "is_leap (year_of n)")
    case True
    then have "year_days (year_of n + 1) = year_days (year_of n) + 366" by (simp add: year_days_next)
    with d(5) yd total show ?thesis by linarith
  next
    case False
    have "r3 \<noteq> 365 * d + 365"
    proof
      assume "r3 = 365 * d + 365"
      with c(4) d(2,4) have d3: "d = 3" "r3 = 1460" by (cases "d < 3"; simp)+
      have "year_of n mod 4 = 0" unfolding y d3(1) by presburger
      moreover have "year_of n mod 100 = 0 \<Longrightarrow> year_of n mod 400 = 0"
      proof -
        assume "year_of n mod 100 = 0"
        moreover have "year_of n = (4 * c + 4) + (4 * a + b) * 100" by (simp add: y d3(1))
        ultimately have "(4 * c + 4) mod 100 = 0" by (metis mod_mult_self1)
        then have "c = 24" using c(1,2) by (cases "4 * c + 4 < 100") auto
        moreover have "b = 3" using d3 c(5) b(2,5) \<open>c = 24\<close> by (cases "b < 3") auto
        ultimately have "year_of n = 400 * (a + 1)" using d3 by (simp add: y)
        then show ?thesis by simp
      qed
      ultimately show False using False by (auto simp: is_leap_def)
    qed
    moreover have "year_days (year_of n + 1) = year_days (year_of n) + 365" using False by (simp add: year_days_next)
    ultimately show ?thesis using d(5) yd total by linarith
  qed
qed

lemma nat_below_12: "m < 12 \<Longrightarrow> m \<in> {0, 1, 2, 3, 4, 5, 6, 7, 8, 9, 10, 11 :: nat}"
  unfolding insert_iff empty_iff by presburger

lemma month_days_next: "m < 11 \<Longrightarrow> month_days leap (Suc m) - month_days leap m \<in> {28 .. 31}"
  using nat_below_12 [of m] by (auto simp: month_days_def month_table_def)

lemma month_days_mono: "m \<le> k \<Longrightarrow> k < 12 \<Longrightarrow> month_days leap m \<le> month_days leap k"
proof (induction k)
  case (Suc k)
  then show ?case using month_days_next [of k leap] by (cases "m = Suc k") auto
qed simp

lemma month_days_zero [simp]: "month_days leap 0 = 0"
  by (simp add: month_days_def month_table_def)

lemma month_of_bounds:
  assumes "0 \<le> yday"
  shows "month_of leap yday < 12" "month_days leap (month_of leap yday) \<le> yday"
proof -
  let ?P = "\<lambda>m. month_days leap m \<le> yday"
  have down: "filter ?P [1..<k] = [1..<k] \<or> (\<exists>j \<le> k. filter ?P [1..<k] = [1..<j] \<and> 1 \<le> j \<and> j < k \<and> \<not> ?P j)" if "k \<le> 12" for k
    using that
  proof (induction k)
    case (Suc k)
    show ?case
    proof (cases "1 \<le> k")
      case True
      from Suc consider (all) "filter ?P [1..<k] = [1..<k]" | (some) j where "filter ?P [1..<k] = [1..<j]" "1 \<le> j" "j < k" "\<not> ?P j" by auto
      then show ?thesis
      proof cases
        case all
        with True show ?thesis by (cases "?P k") (auto intro!: exI [of _ k])
      next
        case some
        have "month_days leap j \<le> month_days leap k" using some(3) Suc.prems by (intro month_days_mono) auto
        with some(4) have "\<not> ?P k" by simp
        with some True show ?thesis by (auto intro!: exI [of _ j])
      qed
    qed simp
  qed simp
  obtain j where j: "filter ?P [1..<12] = [1..<j]" "1 \<le> j" "j \<le> 12"
    using down [of 12] by auto
  have len: "month_of leap yday = j - 1" using j(1) by (simp add: month_of_def)
  show "month_of leap yday < 12" using j len by simp
  show "?P (month_of leap yday)"
  proof (cases "j = 1")
    case True
    with len assms show ?thesis by simp
  next
    case False
    then have "j - 1 \<in> set [1..<j]" using j by auto
    then have "j - 1 \<in> set (filter ?P [1..<12])" using j(1) by simp
    then show ?thesis using len by simp
  qed
qed

text \<open>The date of a day is its number again, and a month more adds between 28 and 31 days.\<close>

lemma day_number_civil:
  assumes "civil n = (y, m, d)"
  shows "day_number y m d = n" "1 \<le> m" "m \<le> 12" "1 \<le> d"
proof -
  let ?l = "is_leap y" and ?yd = "n - year_days y"
  have y: "y = year_of n" and m: "m = int (month_of ?l ?yd) + 1" and d: "d = ?yd - month_days ?l (month_of ?l ?yd) + 1"
    using assms by (auto simp: civil_def Let_def)
  have "0 \<le> ?yd" using year_of_bounds(1) [of n] y by simp
  note b = month_of_bounds [OF this, of ?l]
  show "1 \<le> m" "m \<le> 12" "1 \<le> d" using b m d by auto
  have "(m - 1) div 12 = 0" "nat ((m - 1) mod 12) = month_of ?l ?yd" using b(1) m by auto
  then show "day_number y m d = n" by (simp add: day_number_def d)
qed

lemma day_number_day: "day_number y m (d + k) = day_number y m d + k"
  by (simp add: day_number_def Let_def)

lemma day_number_month: "day_number y (m + 1) d - day_number y m d \<in> {28 .. 31}"
proof (cases "(m - 1) mod 12 = 11")
  case True
  then have m: "m = 12 * ((m - 1) div 12) + 12" by presburger
  have n: "(m + 1 - 1) div 12 = (m - 1) div 12 + 1" "(m + 1 - 1) mod 12 = 0" using True by presburger+
  have "nat ((m - 1) mod 12) = 11" using True by simp
  with n show ?thesis
    using year_days_next [of "y + (m - 1) div 12"] by (auto simp: day_number_def Let_def month_days_def month_table_def algebra_simps)
next
  case False
  let ?k = "nat ((m - 1) mod 12)"
  have eq: "m = 12 * ((m - 1) div 12) + ((m - 1) mod 12 + 1)" by simp
  have "0 \<le> (m - 1) mod 12 + 1" "(m - 1) mod 12 + 1 < 12"
    using False pos_mod_bound [of 12 "m - 1"] pos_mod_sign [of 12 "m - 1"] by linarith+
  with int_div_pos_eq [OF eq] int_mod_pos_eq [OF eq]
  have n: "m div 12 = (m - 1) div 12" "m mod 12 = (m - 1) mod 12 + 1" by blast+
  then have k: "nat (m mod 12) = Suc ?k" by (simp add: nat_add_distrib)
  have "?k < 11" using False pos_mod_bound [of 12 "m - 1"] by auto
  with month_days_next [OF this] show ?thesis
    by (simp add: day_number_def Let_def n(1) k)
qed

lemma day_number_months: "28 * int k \<le> day_number y (m + int k) d - day_number y m d \<and>
    day_number y (m + int k) d - day_number y m d \<le> 31 * int k"
proof (induction k)
  case (Suc k)
  have "day_number y (m + int (Suc k)) d = day_number y ((m + int k) + 1) d" by (simp add: algebra_simps)
  with Suc day_number_month [of y "m + int k" d] show ?case by auto
qed simp

text \<open>\<open>AddDate\<close> with no years moves by the given days and by 28 to 31 days for each month.\<close>

lemma AddDate_bounds:
  assumes "0 \<le> months"
  shows "t + (28 * months + days) * day_ns \<le> AddDate 0 months days t"
    "AddDate 0 months days t \<le> t + (31 * months + days) * day_ns"
proof -
  obtain y m d where c: "civil (t div day_ns) = (y, m, d)" by (cases "civil (t div day_ns)")
  have add: "AddDate 0 months days t = (day_number y (m + months) d + days) * day_ns + t mod day_ns"
    unfolding AddDate_def c by (simp add: day_number_day)
  have "28 * months \<le> day_number y (m + months) d - t div day_ns" "day_number y (m + months) d - t div day_ns \<le> 31 * months"
    using day_number_months [of "nat months" y m d] assms day_number_civil(1) [OF c] by auto
  then have "(28 * months + t div day_ns) * day_ns \<le> day_number y (m + months) d * day_ns"
    "day_number y (m + months) d * day_ns \<le> (31 * months + t div day_ns) * day_ns"
    by (intro mult_right_mono; simp)+
  moreover have "t = t div day_ns * day_ns + t mod day_ns" by simp
  ultimately show "t + (28 * months + days) * day_ns \<le> AddDate 0 months days t"
    "AddDate 0 months days t \<le> t + (31 * months + days) * day_ns"
    using add by (simp_all only: distrib_right)
qed

lemma time_Round_bounds:
  assumes "0 < d"
  shows "2 * time_Round d t \<le> 2 * t + d" "2 * t - d < 2 * time_Round d t"
  using pos_mod_bound [OF assms, of t] pos_mod_sign [OF assms, of t] by (auto simp: time_Round_def Let_def)

end
