(* ===== verification/Reset_Dates.thy ===== *)
theory Reset_Dates
  imports Go_Time
begin

text \<open>
  When the map is reset (fact/newCron.go, commands/moderator/setSchedule.go, cfg/web_settings.go): the
  interval between resets, the next reset and the hour of day it is moved to, as they stand in the
  configuration.  \<open>now\<close> is what \<open>time.Now\<close> returns; parsing the date a moderator types is an argument.
\<close>

section \<open>Operations\<close>

record reset_interval =
  ri_months :: int
  ri_weeks :: int
  ri_days :: int
  ri_hours :: int

record reset_dates =
  rd_interval :: reset_interval
  rd_next :: gotime
  rd_hour :: int

definition no_interval :: reset_interval where
  "no_interval = \<lparr>ri_months = 0, ri_weeks = 0, ri_days = 0, ri_hours = 0\<rparr>"

definition HasResetInterval :: "reset_dates \<Rightarrow> bool" where
  "HasResetInterval d \<longleftrightarrow> (let s = rd_interval d in
     if ri_months s = 0 \<and> ri_weeks s = 0 \<and> ri_days s = 0 \<and> ri_hours s = 0 then False else True)"

definition HasResetTime :: "reset_dates \<Rightarrow> bool" where
  "HasResetTime d \<longleftrightarrow> 0 < unix (rd_next d)"

text \<open>The part \<open>SetResetDate\<close> and \<open>AdvanceReset\<close> share: one interval later, to the second.\<close>

definition add_interval :: "reset_interval \<Rightarrow> gotime \<Rightarrow> gotime" where
  "add_interval n t =
     (let t = AddDate 0 (ri_months n) (ri_days n) t; t = t + ri_weeks n * hour_ns * 24 * 7; t = t + ri_hours n * hour_ns
      in time_Round second_ns t)"

definition reset_base :: "int \<Rightarrow> gotime \<Rightarrow> gotime" where
  "reset_base hour now =
     (if 0 < hour then let (y, m, d) = civil (now div day_ns) in time_Date y m d hour else now)"

definition SetResetDate :: "gotime \<Rightarrow> reset_dates \<Rightarrow> reset_dates" where
  "SetResetDate now d =
     (if \<not> HasResetInterval d then d
      else d\<lparr>rd_next := add_interval (rd_interval d) (reset_base (rd_hour d) now)\<rparr>)"

definition AdvanceReset :: "reset_dates \<Rightarrow> reset_dates" where
  "AdvanceReset d =
     (if \<not> HasResetInterval d then d else d\<lparr>rd_next := add_interval (rd_interval d) (rd_next d)\<rparr>)"

text \<open>The same date as the web form computes it.\<close>

definition web_next_reset :: "gotime \<Rightarrow> reset_interval \<Rightarrow> int \<Rightarrow> gotime" where
  "web_next_reset now n hour =
     (if 0 < ri_months n + ri_weeks n + ri_days n + ri_hours n
      then time_Round second_ns (AddDate 0 (ri_months n) (ri_days n + ri_weeks n * 7) (reset_base hour now) + ri_hours n * hour_ns)
      else zero_time)"

text \<open>The command \<open>/set-schedule\<close>: its options in order, and whether the interval and the date changed.\<close>

datatype schedule_option = IntervalMonths nat | IntervalWeeks nat | IntervalDays nat | IntervalHours nat
  | ResetHour nat | ResetDate string | DisableResets

fun schedule_interval :: "schedule_option list \<Rightarrow> reset_interval \<times> bool \<Rightarrow> reset_interval \<times> bool" where
  "schedule_interval [] (n, got) = (n, got)"
| "schedule_interval (opt # opts) (n, got) = schedule_interval opts
     (case opt of
        IntervalMonths k \<Rightarrow> (n\<lparr>ri_months := int k\<rparr>, True)
      | IntervalWeeks k \<Rightarrow> (n\<lparr>ri_weeks := int k\<rparr>, True)
      | IntervalDays k \<Rightarrow> (n\<lparr>ri_days := int k\<rparr>, True)
      | IntervalHours k \<Rightarrow> (n\<lparr>ri_hours := int k\<rparr>, True)
      | _ \<Rightarrow> (n, got))"

definition parseResetDate :: "(string \<Rightarrow> gotime option) \<Rightarrow> gotime \<Rightarrow> string \<Rightarrow> reset_dates \<Rightarrow> reset_dates" where
  "parseResetDate parse now input d =
     (case parse input of None \<Rightarrow> d | Some parsedTime \<Rightarrow> if parsedTime - now < 0 then d else d\<lparr>rd_next := parsedTime\<rparr>)"

fun schedule_date :: "(string \<Rightarrow> gotime option) \<Rightarrow> gotime \<Rightarrow> schedule_option list \<Rightarrow> reset_interval \<times> bool \<Rightarrow> reset_dates \<Rightarrow>
    (reset_interval \<times> bool) \<times> reset_dates" where
  "schedule_date parse now [] (n, gotInterval) d = ((n, gotInterval), d)"
| "schedule_date parse now (opt # opts) (n, gotInterval) d =
     (case opt of
        ResetHour h \<Rightarrow> schedule_date parse now opts (n, gotInterval) (d\<lparr>rd_hour := int h\<rparr>)
      | ResetDate s \<Rightarrow> schedule_date parse now opts (n, gotInterval) (parseResetDate parse now s d)
      | DisableResets \<Rightarrow> schedule_date parse now opts (no_interval, True) (d\<lparr>rd_next := zero_time\<rparr>)
      | _ \<Rightarrow> schedule_date parse now opts (n, gotInterval) d)"

definition SetSchedule :: "(string \<Rightarrow> gotime option) \<Rightarrow> gotime \<Rightarrow> schedule_option list \<Rightarrow> reset_dates \<Rightarrow> reset_dates" where
  "SetSchedule parse now opts d =
     (let ((n, gotInterval), d) = schedule_date parse now opts (schedule_interval opts (no_interval, False)) d in
      if gotInterval then SetResetDate now (d\<lparr>rd_interval := n\<rparr>) else d)"

definition plural :: "int \<Rightarrow> string" where
  "plural i = (if 1 < i then ''s'' else [])"

definition interval_part :: "int \<Rightarrow> string \<Rightarrow> string list" where
  "interval_part i unit = (if 0 < i then [itoa (nat i) @ '' '' @ unit @ plural i] else [])"

fun comma_join :: "string list \<Rightarrow> string" where
  "comma_join [] = []"
| "comma_join [x] = x"
| "comma_join (x # y # zs) = x @ '', '' @ comma_join (y # zs)"

definition FormatResetInterval :: "reset_dates \<Rightarrow> string" where
  "FormatResetInterval d =
     (if \<not> HasResetInterval d then ''No reset interval is set''
      else let i = rd_interval d in
        ''Every '' @ comma_join (interval_part (ri_months i) ''month'' @ interval_part (ri_weeks i) ''week'' @
          interval_part (ri_days i) ''day'' @ interval_part (ri_hours i) ''hour''))"

section \<open>How far the next reset is\<close>

text \<open>The least and the greatest length of an interval.\<close>

definition span_min :: "reset_interval \<Rightarrow> gotime" where
  "span_min n = (28 * ri_months n + ri_days n + 7 * ri_weeks n) * day_ns + ri_hours n * hour_ns"

definition span_max :: "reset_interval \<Rightarrow> gotime" where
  "span_max n = (31 * ri_months n + ri_days n + 7 * ri_weeks n) * day_ns + ri_hours n * hour_ns"

definition interval_ok :: "reset_interval \<Rightarrow> bool" where
  "interval_ok n \<longleftrightarrow> 0 \<le> ri_months n \<and> 0 \<le> ri_weeks n \<and> 0 \<le> ri_days n \<and> 0 \<le> ri_hours n"

lemma add_interval_bounds:
  assumes "interval_ok n"
  shows "2 * (t + span_min n) - second_ns < 2 * add_interval n t" "2 * add_interval n t \<le> 2 * (t + span_max n) + second_ns"
proof -
  let ?u = "AddDate 0 (ri_months n) (ri_days n) t + ri_weeks n * hour_ns * 24 * 7 + ri_hours n * hour_ns"
  have "0 \<le> ri_months n" using assms by (simp add: interval_ok_def)
  from AddDate_bounds [OF this, where t = t and days = "ri_days n"]
  have low: "t + span_min n \<le> ?u" and high: "?u \<le> t + span_max n"
    by (simp_all add: span_min_def span_max_def)
  have round: "2 * time_Round second_ns ?u \<le> 2 * ?u + second_ns" "2 * ?u - second_ns < 2 * time_Round second_ns ?u"
    by (rule time_Round_bounds; simp)+
  have eq: "add_interval n t = time_Round second_ns ?u" by (simp only: add_interval_def Let_def)
  have "2 * a - s < 2 * r \<and> 2 * r \<le> 2 * b + s" if "a \<le> u" "u \<le> b" "2 * r \<le> 2 * u + s" "2 * u - s < 2 * r"
    for a b u r s :: int using that by linarith
  from this [OF low high round] eq
  show "2 * (t + span_min n) - second_ns < 2 * add_interval n t" "2 * add_interval n t \<le> 2 * (t + span_max n) + second_ns"
    by simp_all
qed

lemma span_min_hour:
  assumes "interval_ok n" "HasResetInterval \<lparr>rd_interval = n, rd_next = t, rd_hour = h\<rparr>"
  shows "hour_ns \<le> span_min n"
proof -
  let ?d = "28 * ri_months n + ri_days n + 7 * ri_weeks n"
  have "0 < ?d \<or> 0 < ri_hours n" "0 \<le> ri_hours n" "0 \<le> ?d"
    using assms by (simp_all add: HasResetInterval_def interval_ok_def Let_def split: if_splits) linarith
  then consider "1 \<le> ?d" "0 \<le> ri_hours n" | "1 \<le> ri_hours n" "0 \<le> ?d" by linarith
  then show ?thesis by cases (simp_all add: span_min_def)
qed

lemma HasResetInterval_cong: "HasResetInterval d \<longleftrightarrow> HasResetInterval \<lparr>rd_interval = rd_interval d, rd_next = t, rd_hour = h\<rparr>"
  by (simp add: HasResetInterval_def)

end
