(* ===== verification/Map_Generator.thy ===== *)
theory Map_Generator
  imports Go_Path
begin

text \<open>
  Map generators and presets (cfg/pathutil.go, fact/mapReset.go): where the two settings files of a named
  generator are looked up, the local copies kept of shared generators, and the settings a new map is
  created with.  The file system maps paths to contents, \<open>None\<close> for a folder; paths are clean, as
  \<open>filepath.Join\<close> returns them.  \<open>WriteBytesAtomic\<close> goes through a temporary file no other code reads, so
  it is one step that may fail; the folders \<open>MkdirAll\<close> makes are never looked up.
\<close>

section \<open>Paths\<close>

type_synonym fs = "(string, byte list option) gomap"

text \<open>\<open>mp_cwd\<close> is the working directory, where it can be determined.\<close>

record map_paths =
  mp_servers_root :: string
  mp_prefix :: string
  mp_callsign :: string
  mp_factorio_dir :: string
  mp_saves :: string
  mp_generators :: string
  mp_cwd :: "string option"

definition GetFactorioFolder :: "map_paths \<Rightarrow> string" where
  "GetFactorioFolder P = mp_servers_root P @ mp_prefix P @ mp_callsign P @ ''/'' @ mp_factorio_dir P @ ''/''"

definition ModsFolder :: string where "ModsFolder = ''mods''"

definition GetModsFolder :: "map_paths \<Rightarrow> string" where
  "GetModsFolder P = mp_servers_root P @ mp_prefix P @ mp_callsign P @ ''/'' @ mp_factorio_dir P @ ''/'' @ ModsFolder @ ''/''"

definition GetSavesFolder :: "map_paths \<Rightarrow> string" where
  "GetSavesFolder P = mp_servers_root P @ mp_prefix P @ mp_callsign P @ ''/'' @ mp_factorio_dir P @ ''/'' @ mp_saves P"

definition GetSharedMapGeneratorFolder :: "map_paths \<Rightarrow> string" where
  "GetSharedMapGeneratorFolder P = filepath_Join (mp_servers_root P) (mp_generators P)"

definition MapGenSettingsName :: string where "MapGenSettingsName = ''map-gen-settings.json''"
definition MapSettingsName :: string where "MapSettingsName = ''map-settings.json''"
definition DefaultMapGeneratorsDir :: string where "DefaultMapGeneratorsDir = ''map-gen-json''"
definition MapGeneratorCacheDir :: string where "MapGeneratorCacheDir = ''cache''"

definition GetLocalMapGeneratorFolder :: "map_paths \<Rightarrow> string" where
  "GetLocalMapGeneratorFolder P =
     (let folder = (if mp_generators P = [] then DefaultMapGeneratorsDir else mp_generators P);
          folder = filepath_Base (path_Clean folder);
          folder = (if folder = ''.'' \<or> folder = ''/'' then DefaultMapGeneratorsDir else folder);
          localPath = filepath_Join ''.'' folder
      in case mp_cwd P of None \<Rightarrow> localPath | Some wd \<Rightarrow> filepath_Join wd localPath)"

definition cacheableMapGeneratorName :: "string \<Rightarrow> string" where
  "cacheableMapGeneratorName name =
     (let name = trim_space name in
      if name = [] \<or> CHR 0x5C \<in> set name \<or> CHR ''/'' \<in> set name then []
      else let clean = path_Clean name in
        if clean = ''.'' \<or> clean = ''..'' \<or> clean \<noteq> filepath_Base clean then [] else clean)"

definition GetMapGeneratorCacheFolder :: "map_paths \<Rightarrow> string \<Rightarrow> string" where
  "GetMapGeneratorCacheFolder P name =
     (let safeName = cacheableMapGeneratorName name in
      if safeName = [] then []
      else filepath_Join (filepath_Join (GetLocalMapGeneratorFolder P) MapGeneratorCacheDir) safeName)"

definition GetCachedMapGeneratorFiles :: "map_paths \<Rightarrow> string \<Rightarrow> string \<times> string" where
  "GetCachedMapGeneratorFiles P name =
     (let dir = GetMapGeneratorCacheFolder P name in
      if dir = [] then ([], []) else (filepath_Join dir MapGenSettingsName, filepath_Join dir MapSettingsName))"

definition GetMapGeneratorFolder :: "map_paths \<Rightarrow> string \<Rightarrow> string" where
  "GetMapGeneratorFolder P name =
     (if equal_fold name CustomMapGeneratorName then GetLocalMapGeneratorFolder P else GetSharedMapGeneratorFolder P)"

definition fileExists :: "fs \<Rightarrow> string \<Rightarrow> bool" where
  "fileExists fs path \<longleftrightarrow> gm_get fs path \<noteq> None"

definition GetMapGeneratorFiles :: "map_paths \<Rightarrow> fs \<Rightarrow> string \<Rightarrow> string \<times> string" where
  "GetMapGeneratorFiles P fs name =
     (let dir = GetMapGeneratorFolder P name;
          folderGenPath = filepath_Join (filepath_Join dir name) MapGenSettingsName;
          folderSetPath = filepath_Join (filepath_Join dir name) MapSettingsName
      in if fileExists fs folderGenPath \<and> fileExists fs folderSetPath then (folderGenPath, folderSetPath)
         else (filepath_Join dir (name @ ''-gen.json''), filepath_Join dir (name @ ''-set.json'')))"

section \<open>The local copy of a generator\<close>

text \<open>The faults of the file system; \<open>ci_write\<close> is asked for the path.\<close>

record cache_io =
  ci_read :: "string \<Rightarrow> string option"
  ci_mkdir :: "string option"
  ci_write :: "string \<Rightarrow> string option"

definition copyMapGeneratorFile :: "cache_io \<Rightarrow> string \<Rightarrow> string \<Rightarrow> fs \<Rightarrow> string option \<times> fs" where
  "copyMapGeneratorFile io src dst fs =
     (case gm_get fs src of
        None \<Rightarrow> (Some ''no such file or directory'', fs)
      | Some None \<Rightarrow> (Some ''is a directory'', fs)
      | Some (Some content) \<Rightarrow>
          (case ci_read io src of
             Some e \<Rightarrow> (Some e, fs)
           | None \<Rightarrow>
               (case ci_write io dst of Some e \<Rightarrow> (Some e, fs) | None \<Rightarrow> (None, gm_put fs dst (Some content)))))"

definition CacheMapGenerator :: "map_paths \<Rightarrow> cache_io \<Rightarrow> string \<Rightarrow> fs \<Rightarrow> (string + string \<times> string) \<times> fs" where
  "CacheMapGenerator P io name fs =
     (let name = trim_space name in
      if name = [] \<or> equal_fold name ''none'' \<or> equal_fold name CustomMapGeneratorName then (Inr ([], []), fs)
      else if cacheableMapGeneratorName name = [] then (Inl (''map generator '' @ name @ '' cannot be cached''), fs)
      else
        (let (genSrc, setSrc) = GetMapGeneratorFiles P fs name in
         if \<not> fileExists fs genSrc \<or> \<not> fileExists fs setSrc then (Inl (''map generator '' @ name @ '' is unavailable''), fs)
         else
           (let (genDst, setDst) = GetCachedMapGeneratorFiles P name in
            if genDst = [] \<or> setDst = [] then (Inl (''map generator '' @ name @ '' cannot be cached''), fs)
            else case ci_mkdir io of
                Some e \<Rightarrow> (Inl e, fs)
              | None \<Rightarrow>
                  (case copyMapGeneratorFile io genSrc genDst fs of
                     (Some e, fs) \<Rightarrow> (Inl e, fs)
                   | (None, fs) \<Rightarrow>
                       (case copyMapGeneratorFile io setSrc setDst fs of
                          (Some e, fs) \<Rightarrow> (Inl e, fs)
                        | (None, fs) \<Rightarrow> (Inr (genDst, setDst), fs))))))"

section \<open>What a new map is created with\<close>

definition MapTypes :: "string list" where
  "MapTypes = [''default'', ''rich-resources'', ''marathon'', ''death-world'', ''death-world-marathon'', ''rail-world'',
     ''ribbon-world'', ''island'', ''lakes'']"

fun map_type_from :: "int \<Rightarrow> string list \<Rightarrow> string \<Rightarrow> int" where
  "map_type_from i [] mapt = -1"
| "map_type_from i (t # ts) mapt = (if equal_fold t mapt then i else map_type_from (i + 1) ts mapt)"

definition getMapTypeNum :: "string \<Rightarrow> int" where
  "getMapTypeNum mapt = map_type_from 0 MapTypes mapt"

definition normalizeMapPreset :: "string \<Rightarrow> string option" where
  "normalizeMapPreset mapPreset =
     (let mapPreset = trim_space mapPreset in
      if mapPreset = [] then None else find (\<lambda>p. equal_fold p mapPreset) MapTypes)"

text \<open>What the server tells its channel about the generator; the empty notice is \<open>None\<close>.\<close>

datatype map_notice =
    SeedNotice int
  | CachedCopyNotice string
  | NoGeneratorNotice string string
  | RetryNotice string string
  | ResetFailedNotice string

record mapCreateSettings =
  preset :: string
  generator :: string
  mapGenSettingsPath :: string
  mapSettingsPath :: string
  usingCachedGenerator :: bool
  fallbackNotice :: "map_notice option"

definition no_settings :: mapCreateSettings where
  "no_settings = \<lparr>preset = [], generator = [], mapGenSettingsPath = [], mapSettingsPath = [], usingCachedGenerator = False,
     fallbackNotice = None\<rparr>"

definition usesGenerator :: "mapCreateSettings \<Rightarrow> bool" where
  "usesGenerator s \<longleftrightarrow> generator s \<noteq> [] \<and> mapGenSettingsPath s \<noteq> [] \<and> mapSettingsPath s \<noteq> []"

definition withoutGenerator :: "mapCreateSettings \<Rightarrow> mapCreateSettings" where
  "withoutGenerator s = s\<lparr>generator := [], mapGenSettingsPath := [], mapSettingsPath := [], usingCachedGenerator := False,
     fallbackNotice := None\<rparr>"

definition describeMapGeneratorFallbackTarget :: "string \<Rightarrow> string" where
  "describeMapGeneratorFallbackTarget p =
     (if p \<noteq> [] then ''Using map preset '' @ [CHR 0x22] @ p @ [CHR 0x22] @ ''.'' else ''Using Factorio default map creation.'')"

definition resolveMapCreateSettings :: "map_paths \<Rightarrow> cache_io \<Rightarrow> string \<Rightarrow> string \<Rightarrow> fs \<Rightarrow> mapCreateSettings \<times> fs" where
  "resolveMapCreateSettings P io mapGenerator mapPreset fs =
     (let settings = no_settings\<lparr>preset := (case normalizeMapPreset mapPreset of Some p \<Rightarrow> p | None \<Rightarrow> [])\<rparr>;
          gen = trim_space mapGenerator
      in if gen = [] \<or> equal_fold gen ''none'' then (settings, fs)
         else
           (let (genSettings, mapSettings) = GetMapGeneratorFiles P fs gen;
                (cacheGenSettings, cacheMapSettings) = GetCachedMapGeneratorFiles P gen
            in if fileExists fs genSettings \<and> fileExists fs mapSettings
               then (settings\<lparr>generator := gen, mapGenSettingsPath := genSettings, mapSettingsPath := mapSettings\<rparr>,
                     snd (CacheMapGenerator P io gen fs))
               else if fileExists fs cacheGenSettings \<and> fileExists fs cacheMapSettings
               then (settings\<lparr>generator := gen, mapGenSettingsPath := cacheGenSettings, mapSettingsPath := cacheMapSettings,
                       usingCachedGenerator := True, fallbackNotice := Some (CachedCopyNotice gen)\<rparr>, fs)
               else (settings\<lparr>fallbackNotice :=
                       Some (NoGeneratorNotice gen (describeMapGeneratorFallbackTarget (preset settings)))\<rparr>, fs)))"

definition buildNewMapArgs :: "string \<Rightarrow> bool \<Rightarrow> int \<Rightarrow> mapCreateSettings \<Rightarrow> string list" where
  "buildNewMapArgs filename haveSeed seed settings =
     [''--create'', filename] @
     (if haveSeed then [''--map-gen-seed'', (if seed < 0 then ''-'' else []) @ itoa (nat \<bar>seed\<bar>)] else []) @
     (if usesGenerator settings
      then [''--map-gen-settings'', mapGenSettingsPath settings, ''--map-settings'', mapSettingsPath settings]
      else if preset settings \<noteq> [] then [''--preset'', preset settings] else [])"

section \<open>Facts\<close>

lemma Clean_segment:
  assumes "CHR ''/'' \<notin> set name" "name \<noteq> []"
  shows "path_Clean name = name \<or> path_Clean name = ''.''"
  using assms by (cases name) (auto simp: path_Clean_def has_prefix_def segs_def split_on_single path_clean_step_def)

lemma cacheable_proper:
  assumes "cacheableMapGeneratorName name \<noteq> []"
  shows "cacheableMapGeneratorName name = trim_space name" "proper (trim_space name)"
proof -
  have n: "trim_space name \<noteq> []" "CHR ''/'' \<notin> set (trim_space name)" "path_Clean (trim_space name) \<noteq> ''.''"
    "path_Clean (trim_space name) \<noteq> ''..''" "cacheableMapGeneratorName name = path_Clean (trim_space name)"
    using assms by (auto simp: cacheableMapGeneratorName_def Let_def split: if_splits)
  with Clean_segment [of "trim_space name"] show "cacheableMapGeneratorName name = trim_space name" by simp
  with n show "proper (trim_space name)" using Clean_segment [of "trim_space name"] by (auto simp: proper_def)
qed

lemma cached_paths:
  assumes "cacheableMapGeneratorName name \<noteq> []" "clean_folder (GetLocalMapGeneratorFolder P)"
  shows "GetCachedMapGeneratorFiles P name =
    (let dir = GetLocalMapGeneratorFolder P @ ''/cache/'' @ trim_space name
     in (dir @ ''/map-gen-settings.json'', dir @ ''/map-settings.json''))"
proof -
  note safe = cacheable_proper [OF assms(1)]
  have cache: "proper MapGeneratorCacheDir" by (simp add: proper_def MapGeneratorCacheDir_def)
  note one = clean_folder_join [OF assms(2) cache]
  note two = clean_folder_join [OF one(2) safe(2)]
  have "proper MapGenSettingsName" "proper MapSettingsName"
    by (simp_all add: proper_def MapGenSettingsName_def MapSettingsName_def)
  note files = this [THEN clean_folder_join(1) [OF two(2)]]
  show ?thesis using assms(1)
    by (simp add: GetCachedMapGeneratorFiles_def GetMapGeneratorCacheFolder_def Let_def safe(1) one(1) two(1))
      (use files in \<open>simp add: MapGenSettingsName_def MapSettingsName_def MapGeneratorCacheDir_def\<close>)
qed

lemma cached_paths_distinct:
  assumes "cacheableMapGeneratorName name \<noteq> []" "clean_folder (GetLocalMapGeneratorFolder P)"
    "GetCachedMapGeneratorFiles P name = (g, s)"
  shows "g \<noteq> s" "g \<noteq> []" "s \<noteq> []"
  using assms cached_paths [OF assms(1,2)] by (auto simp: Let_def)

end
