(* ===== verification/Map_Reset.thy ===== *)
theory Map_Reset
  imports Saves Reset_Dates Map_Generator Vote_Map Go_Base64
begin

text \<open>
  A map reset once the server has stopped (fact/mapReset.go): the map is archived, a new map is generated
  in a staging folder, checked and moved to the saves, and only then the settings of the reset are
  committed.  The Factorio binary is the argument \<open>ge_run\<close>: from its arguments and the file that is already
  at the place of the new map it gives the file there afterwards and an error.  The staging folder has a
  fresh name and goes away with the call, so it is no part of the state; the lock files are \<open>ge_lock\<close>.
  Messages to the channel are \<open>map_notice\<close> values; archives map paths to contents.
\<close>

section \<open>State\<close>

type_synonym float32 = "32 word"

definition float32_one :: float32 where "float32_one = 0x3F800000"

record reset_state =
  rs_saves :: saves
  rs_files :: fs
  rs_dates :: reset_dates
  rs_choice :: map_choice
  rs_speed :: float32
  rs_auto_pause :: bool
  rs_skip_reset :: bool
  rs_seed :: int
  rs_scenario :: string
  rs_generator :: string
  rs_preset :: string
  rs_votes :: vote_box
  rs_vote_file :: vote_file
  rs_archives :: "(string, byte list) gomap"
  rs_notices :: "map_notice list"

text \<open>\<open>ge_set\<close> is the clock in \<open>SetResetDate\<close>, \<open>ge_end\<close> the one read after it.\<close>

record gen_env =
  ge_paths :: map_paths
  ge_cache :: cache_io
  ge_lock :: "string option"
  ge_staging :: "string + string"
  ge_now :: gotime
  ge_set :: gotime
  ge_end :: gotime
  ge_run :: "string list \<Rightarrow> save_file option \<Rightarrow> save_file option \<times> string option"
  ge_remove_partial :: bool
  ge_rename :: "string option"
  ge_remove :: "string \<Rightarrow> bool"

section \<open>The new map\<close>

definition CWEpoch :: int where "CWEpoch = 1653239822390688174"

definition unix_nano :: "gotime \<Rightarrow> int" where
  "unix_nano t = t - 62135596800 * second_ns"

definition pad0 :: "nat \<Rightarrow> nat \<Rightarrow> string" where
  "pad0 width n = replicate (width - length (itoa n)) (CHR ''0'') @ itoa n"

definition seed_bytes :: "uint64 \<Rightarrow> byte list" where
  "seed_bytes x = rev (le_put 8 (unat x))"

definition gen_name :: "nat \<Rightarrow> int \<Rightarrow> string" where
  "gen_name mapTypeNum seed =
     ''gen-'' @ pad0 2 mapTypeNum @ rawurl_EncodeToString (seed_bytes (word_of_int seed)) @ ''.zip''"

text \<open>The glob \<open>gen-*.zip\<close>.\<close>

definition gen_glob :: "string \<Rightarrow> bool" where
  "gen_glob name \<longleftrightarrow> 8 \<le> length name \<and> has_prefix name ''gen-'' \<and> has_suffix name ''.zip''"

definition map_type_num :: "mapCreateSettings \<Rightarrow> nat" where
  "map_type_num settings =
     (if \<not> usesGenerator settings \<and> preset settings \<noteq> [] then nat (getMapTypeNum (preset settings)) else 0)"

text \<open>Running the binary, a second time without the generator when a cached copy made it fail.\<close>

definition create_map :: "gen_env \<Rightarrow> string \<Rightarrow> bool \<Rightarrow> int \<Rightarrow> mapCreateSettings \<Rightarrow>
    (string + save_file option) \<times> map_notice list" where
  "create_map env filename haveSeed seed settings =
     (case ge_run env (buildNewMapArgs filename haveSeed seed settings) None of
        (out, None) \<Rightarrow> (Inr out, [])
      | (out, Some err) \<Rightarrow>
          if \<not> usingCachedGenerator settings then (Inl err, [])
          else
            (let fallback = withoutGenerator settings;
                 notices = [RetryNotice (generator settings) (describeMapGeneratorFallbackTarget (preset fallback))];
                 partial = (if ge_remove_partial env then None else out)
             in case ge_run env (buildNewMapArgs filename haveSeed seed fallback) partial of
                  (out, None) \<Rightarrow> (Inr out, notices)
                | (out, Some err2) \<Rightarrow> (Inl (err @ ''; fallback after cached map generator also failed: '' @ err2), notices)))"

text \<open>What success commits.\<close>

definition commit_map :: "gen_env \<Rightarrow> bool \<Rightarrow> string \<Rightarrow> save_file \<Rightarrow> reset_state \<Rightarrow> reset_state" where
  "commit_map env haveSeed sName f s =
     (let dates = SetResetDate (ge_set env) (rs_dates s);
          dates = (if \<not> HasResetInterval dates \<and> HasResetTime dates \<and> \<not> ge_end env < rd_next dates
                   then dates\<lparr>rd_next := zero_time\<rparr> else dates);
          saves = gm_put (rs_saves s) sName f;
          saves = gm_prune (\<lambda>old _. gen_glob old \<and> old \<noteq> sName \<and> ge_remove env old) saves
      in s\<lparr>rs_saves := saves, rs_dates := dates,
           rs_choice := (rs_choice s)\<lparr>mc_new_map := (rs_scenario s \<noteq> [] \<and> \<not> equal_fold (rs_scenario s) ''none''),
             mc_pending_save := sName\<rparr>,
           rs_speed := float32_one, rs_auto_pause := True, rs_skip_reset := False,
           rs_seed := (if haveSeed then 0 else rs_seed s)\<rparr>)"

text \<open>The seed that was asked for, or one from the clock.\<close>

definition new_seed :: "gotime \<Rightarrow> reset_state \<Rightarrow> int" where
  "new_seed now s = (if 0 < rs_seed s then rs_seed s else unix_nano now - CWEpoch)"

definition GenNewMap :: "unzip \<Rightarrow> gen_env \<Rightarrow> reset_state \<Rightarrow> (string + string) \<times> reset_state" where
  "GenNewMap unzip env s =
     (case ge_lock env of
        Some e \<Rightarrow> (Inl e, s)
      | None \<Rightarrow>
          (case ge_staging env of
             Inl e \<Rightarrow> (Inl e, s)
           | Inr staging \<Rightarrow>
               (let haveSeed = (0 < rs_seed s);
                    ourseed = new_seed (ge_now env) s;
                    notices = (if haveSeed then [SeedNotice ourseed] else []);
                    (settings, files) = resolveMapCreateSettings (ge_paths env) (ge_cache env) (rs_generator s) (rs_preset s) (rs_files s);
                    sName = gen_name (map_type_num settings) ourseed;
                    notices = notices @ (case fallbackNotice settings of None \<Rightarrow> [] | Some n \<Rightarrow> [n]);
                    (res, retry) = create_map env (filepath_Join staging sName) haveSeed ourseed settings;
                    s = s\<lparr>rs_files := files, rs_notices := rs_notices s @ notices @ retry\<rparr>
                in case res of
                     Inl e \<Rightarrow> (Inl e, s)
                   | Inr out \<Rightarrow>
                       (case out of
                          None \<Rightarrow> (Inl ''map generator did not produce a valid save'', s)
                        | Some f \<Rightarrow>
                            if CheckSave unzip [(sName, f)] sName = None
                            then (Inl ''map generator did not produce a valid save'', s)
                            else case ge_rename env of
                                Some e \<Rightarrow> (Inl (''install generated map: '' @ e), s)
                              | None \<Rightarrow> (Inr sName, commit_map env haveSeed sName f s)))))"

section \<open>The archive of the old map\<close>

text \<open>
  \<open>ar_source\<close> is what is at the path of the map; \<open>ar_copied\<close> how much of it was copied when copying
  failed.  The date is that of the server's own time zone.
\<close>

record archive_env =
  ar_version :: string
  ar_game_map :: string
  ar_source :: "byte list option"
  ar_local_now :: gotime
  ar_folder :: string
  ar_server :: string
  ar_open :: bool
  ar_copied :: "nat option"

definition ArchiveFolderSuffix :: string where "ArchiveFolderSuffix = '' maps''"

definition archive_date :: "gotime \<Rightarrow> string" where
  "archive_date t =
     (let (y, m, d) = civil (t div day_ns) in pad0 4 (nat y) @ ''-'' @ pad0 2 (nat m) @ ''-'' @ pad0 2 (nat d))"

text \<open>The first two parts of the version; with fewer the slice expression panics.\<close>

definition short_version :: "string \<Rightarrow> string option" where
  "short_version v = (case split_on (CHR ''.'') v of a # b # _ \<Rightarrow> Some (a @ ''.'' @ b) | _ \<Rightarrow> None)"

definition archive_path :: "archive_env \<Rightarrow> string \<Rightarrow> string" where
  "archive_path env short =
     ar_folder env @ short @ ArchiveFolderSuffix @ ''/'' @ ar_server env @ ''-'' @ archive_date (ar_local_now env) @ ''.zip''"

text \<open>A file opened without truncation: what is written replaces the start of what was there.\<close>

definition overwrite :: "byte list \<Rightarrow> byte list \<Rightarrow> byte list" where
  "overwrite old new = new @ drop (length new) old"

definition quickArchive :: "archive_env \<Rightarrow> (string, byte list) gomap \<Rightarrow> (string, byte list) gomap option" where
  "quickArchive env archives =
     (case short_version (ar_version env) of
        None \<Rightarrow> None
      | Some short \<Rightarrow>
          Some
            (case ar_source env of
               None \<Rightarrow> archives
             | Some data \<Rightarrow>
                 if \<not> ar_open env then archives
                 else
                   (let path = archive_path env short;
                        old = (case gm_get archives path of None \<Rightarrow> [] | Some b \<Rightarrow> b);
                        new = (case ar_copied env of None \<Rightarrow> data | Some k \<Rightarrow> take k data)
                    in gm_put archives path (overwrite old new))))"

section \<open>The reset\<close>

record reset_env =
  re_gen :: gen_env
  re_archive :: archive_env
  re_now :: gotime
  re_vote_ok :: bool

text \<open>\<open>None\<close> when archiving panics.\<close>

definition mapResetAfterStop :: "unzip \<Rightarrow> reset_env \<Rightarrow> reset_state \<Rightarrow> ((string + string) \<times> reset_state) option" where
  "mapResetAfterStop unzip env s =
     (let a = re_archive env in
      case (if ar_game_map a \<noteq> [] \<and> ar_version a \<noteq> ''Unknown'' then quickArchive a (rs_archives s) else Some (rs_archives s)) of
        None \<Rightarrow> None
      | Some archives \<Rightarrow>
          (case GenNewMap unzip (re_gen env) (s\<lparr>rs_archives := archives\<rparr>) of
             (Inl err, s) \<Rightarrow> Some (Inl err, s\<lparr>rs_notices := rs_notices s @ [ResetFailedNotice err]\<rparr>)
           | (Inr saveName, s) \<Rightarrow>
               (let box = VoidAllVotes ((rs_votes s)\<lparr>vb_last_change := re_now env\<rparr>)
                in Some (Inr saveName, s\<lparr>rs_votes := box, rs_vote_file := snd (WriteVotes (re_vote_ok env) box (rs_vote_file s))\<rparr>))))"

end
