(* ===== verification/Reset_Schedule.thy ===== *)
theory Reset_Schedule
  imports Map_Reset
begin

text \<open>
  The loop that resets the map when its time has come (fact/newCron.go, support/mainLoops_resets.go).
  \<open>Map_reset\<close> hands the reset to the lifecycle manager and waits for it; what comes back is an argument:
  the request was refused or the server did not stop (\<open>Refused\<close>), or the reset ran and the new map was then
  started (\<open>Attempted\<close>, with the error of the start).
\<close>

section \<open>One check\<close>

datatype reset_attempt = Refused string | Attempted reset_env "string option"

record check_env =
  ck_now :: gotime
  ck_retry_now :: gotime
  ck_failed_now :: gotime
  ck_players :: nat
  ck_attempt :: reset_attempt

text \<open>\<open>sc_warned\<close> lists the warnings given, \<open>sc_skipped\<close> counts the resets skipped.\<close>

record reset_sched =
  sc_state :: reset_state
  sc_retry_at :: gotime
  sc_retry_for :: gotime
  sc_warned :: "gotime list"
  sc_skipped :: nat

definition maxResetWindow :: gotime where "maxResetWindow = hour_ns * 3"

definition warnTimes :: "gotime list" where
  "warnTimes = [minute_ns * 30, minute_ns * 10, minute_ns * 5, minute_ns, second_ns * 30, second_ns * 10]"

definition until_reset :: "gotime \<Rightarrow> reset_dates \<Rightarrow> gotime" where
  "until_reset now d = duration_Round second_ns (rd_next d - time_Round second_ns now)"

definition warn_now :: "nat \<Rightarrow> gotime \<Rightarrow> bool" where
  "warn_now players until \<longleftrightarrow> until \<in> set warnTimes \<and> \<not> (players = 0 \<and> until < minute_ns * 5)"

text \<open>The error of \<open>Map_reset\<close> and the state after it; \<open>None\<close> when the process panicked.\<close>

definition Map_reset :: "unzip \<Rightarrow> reset_attempt \<Rightarrow> reset_state \<Rightarrow> (string option \<times> reset_state) option" where
  "Map_reset unzip attempt s =
     (case attempt of
        Refused e \<Rightarrow> Some (Some e, s)
      | Attempted env startErr \<Rightarrow>
          (case mapResetAfterStop unzip env s of
             None \<Rightarrow> None
           | Some (Inl e, s) \<Rightarrow> Some (Some e, s)
           | Some (Inr saveName, s) \<Rightarrow> Some (startErr, s)))"

abbreviation sc_dates :: "reset_sched \<Rightarrow> reset_dates" where
  "sc_dates c \<equiv> rs_dates (sc_state c)"

abbreviation set_dates :: "reset_dates \<Rightarrow> reset_sched \<Rightarrow> reset_sched" where
  "set_dates d c \<equiv> c\<lparr>sc_state := (sc_state c)\<lparr>rs_dates := d\<rparr>\<rparr>"

definition CheckMapReset :: "unzip \<Rightarrow> check_env \<Rightarrow> reset_sched \<Rightarrow> reset_sched option" where
  "CheckMapReset unzip env c =
     (if \<not> HasResetTime (sc_dates c) then Some c
      else
        (let until = until_reset (ck_now env) (sc_dates c);
             c = (if warn_now (ck_players env) until then c\<lparr>sc_warned := sc_warned c @ [until]\<rparr> else c)
         in if until < 0 then
              (if until < - maxResetWindow then
                 (let d = (if HasResetInterval (sc_dates c) then AdvanceReset (sc_dates c)
                           else (sc_dates c)\<lparr>rd_next := zero_time\<rparr>)
                  in Some ((set_dates d c)\<lparr>sc_skipped := Suc (sc_skipped c)\<rparr>))
               else
                 (let due = rd_next (sc_dates c) in
                  if due = sc_retry_for c \<and> ck_retry_now env < sc_retry_at c then Some c
                  else case Map_reset unzip (ck_attempt env) (sc_state c) of
                      None \<Rightarrow> None
                    | Some (Some err, s) \<Rightarrow>
                        Some (c\<lparr>sc_state := s, sc_retry_for := due, sc_retry_at := ck_failed_now env + minute_ns\<rparr>)
                    | Some (None, s) \<Rightarrow>
                        (let c = c\<lparr>sc_state := s, sc_retry_for := zero_time, sc_retry_at := zero_time\<rparr> in
                         Some (if \<not> HasResetInterval (sc_dates c) \<and> rd_next (sc_dates c) = due
                               then set_dates ((sc_dates c)\<lparr>rd_next := zero_time\<rparr>) c else c))))
            else Some c))"

section \<open>The loop\<close>

text \<open>How long the loop sleeps; \<open>sec\<close> is the configured interval.\<close>

definition loop_interval :: "int \<Rightarrow> gotime \<Rightarrow> reset_dates \<Rightarrow> gotime" where
  "loop_interval sec now d =
     (let interval = sec * second_ns;
          interval = (if HasResetTime d \<and> rd_next d - now \<le> minute_ns then second_ns else interval)
      in if interval \<le> 0 then minute_ns else interval)"

fun map_reset_loop :: "unzip \<Rightarrow> (nat \<Rightarrow> check_env) \<Rightarrow> nat \<Rightarrow> reset_sched \<Rightarrow> reset_sched option" where
  "map_reset_loop unzip envs 0 c = Some c"
| "map_reset_loop unzip envs (Suc k) c =
     (case map_reset_loop unzip envs k c of None \<Rightarrow> None | Some c \<Rightarrow> CheckMapReset unzip (envs k) c)"

end
