(* ===== verification/Saves_Properties.thy ===== *)
theory Saves_Properties
  imports Saves
begin

text \<open>
  What changing the save promises: staging copies the selected save and touches nothing else, the
  server then loads that copy whatever happened to the folder in the meantime, and without a selected
  save it loads the newest good one.
\<close>

lemma sorted_append_order: "sorted_wrt R (xs @ y # ys) \<Longrightarrow> x \<in> set xs \<Longrightarrow> R x y"
  by (auto simp: sorted_wrt_append)

lemma first_good_split:
  assumes "first_good unzip saves fs = Some (name, folder)"
  obtains before f after where "fs = before @ f # after" "fst f = name" "CheckSave unzip saves name = Some folder"
    "\<forall>g \<in> set before. fst g = [] \<or> CheckSave unzip saves (fst g) = None"
  using assms
proof (induction fs arbitrary: thesis)
  case (Cons f fs)
  show ?case
  proof (cases "fst f \<noteq> [] \<and> CheckSave unzip saves (fst f) \<noteq> None")
    case True
    with Cons.prems(2) have "fst f = name" "CheckSave unzip saves name = Some folder" by auto
    then show ?thesis by (intro Cons.prems(1) [of "[]" f fs]) auto
  next
    case False
    with Cons.prems(2) have rest: "first_good unzip saves fs = Some (name, folder)"
      by (auto split: if_splits option.splits)
    show ?thesis
    proof (rule Cons.IH [OF _ rest])
      fix before g after
      assume "fs = before @ g # after" "fst g = name" "CheckSave unzip saves name = Some folder"
        "\<forall>h \<in> set before. fst h = [] \<or> CheckSave unzip saves (fst h) = None"
      with False show thesis by (intro Cons.prems(1) [of "f # before" g after]) auto
    qed
  qed
qed simp

text \<open>
  Without a save that was asked for, the server loads the newest good save: the choice passes
  the check, is no temporary file, and every candidate with a later time fails the check, in whatever
  order saves of the same time were sorted.
\<close>

theorem newest_good_save_is_loaded:
  assumes "newest_first saves order" and "gm_ok saves"
    and "selectLaunchSave unzip saves (Some order) [] [] = Some (name, folder)"
  shows "CheckSave unzip saves name = Some folder \<and> \<not> has_suffix name ''tmp.zip'' \<and>
    (\<exists>f. gm_get saves name = Some f \<and>
      (\<forall>n g. gm_get saves n = Some g \<and> n \<noteq> [] \<and> save_candidate (n, g) \<and> sf_mtime f < sf_mtime g \<longrightarrow>
        CheckSave unzip saves n = None))"
proof -
  have run: "first_good unzip saves order = Some (name, folder)"
    using assms(3) by (simp add: selectLaunchSave_def GetSaveGame_def Let_def)
  have members: "x \<in> set order \<longleftrightarrow> x \<in> set saves \<and> save_candidate x" for x
  proof -
    have "set order = set (filter save_candidate saves)"
      using assms(1) by (metis newest_first_def set_mset_mset)
    then show ?thesis by simp
  qed
  from run obtain before f after where split: "order = before @ f # after" "fst f = name" "CheckSave unzip saves name = Some folder"
    "\<forall>g \<in> set before. fst g = [] \<or> CheckSave unzip saves (fst g) = None" by (rule first_good_split)
  have f: "f \<in> set saves" "save_candidate f" using members [of f] split(1) by simp_all
  have get: "gm_get saves name = Some (snd f)" using f(1) split(2) assms(2) by (metis gm_get_iff prod.collapse)
  have "CheckSave unzip saves n = None"
    if g: "gm_get saves n = Some g" "n \<noteq> []" "save_candidate (n, g)" "sf_mtime (snd f) < sf_mtime g" for n g
  proof -
    have "(n, g) \<in> set order" using members g(1,3) by (auto dest: gm_get_Some_mem)
    moreover have "(n, g) \<noteq> f" using g(4) by auto
    moreover have "(n, g) \<notin> set after"
    proof
      assume "(n, g) \<in> set after"
      then have "sf_mtime g \<le> sf_mtime (snd f)"
        using assms(1) split(1) by (auto simp: newest_first_def sorted_wrt_append)
      with g(4) show False by simp
    qed
    ultimately have "(n, g) \<in> set before" using split(1) by auto
    with split(4) g(2) show ?thesis by auto
  qed
  with split(3) f(2) get show ?thesis by (auto simp: save_candidate_def split(2))
qed

lemma stage_cases:
  assumes "stageMapChange unzip io name saves = (res, saves')" "\<And>rnd. si_temp io = Inr rnd \<Longrightarrow> gm_get saves (snapshot_name rnd) = None"
    "unzip [] = None"
  shows "case res of
      Inl e \<Rightarrow> \<forall>n. gm_get saves' n = gm_get saves n
    | Inr snapshot \<Rightarrow> \<exists>f. gm_get saves (name @ ''.zip'') = Some f \<and> gm_get saves snapshot = None \<and>
        has_suffix snapshot ''tmp.zip'' \<and> CheckSave unzip saves' snapshot \<noteq> None \<and>
        (\<forall>n. gm_get saves' n = (if n = snapshot then Some f else gm_get saves n))"
proof (cases "si_temp io")
  case (Inl e)
  with assms(1) show ?thesis by (auto simp: stageMapChange_def split: if_splits)
next
  case (Inr rnd)
  let ?s = "snapshot_name rnd"
  have new: "gm_get saves ?s = None" using assms(2) Inr by blast
  have suf: "has_suffix ?s ''tmp.zip''"
    by (simp add: snapshot_name_def has_suffix_def has_prefix_def)
  show ?thesis
  proof (cases "name @ ''.zip'' = ?s")
    case True
    with assms(1,3) Inr new show ?thesis
      by (auto simp: stageMapChange_def CopyFileAtomic_def CheckSave_def empty_save_def Let_def split: if_splits option.splits)
  next
    case False
    then show ?thesis using assms(1) Inr new suf
      by (auto simp: stageMapChange_def CopyFileAtomic_def Let_def split: if_splits option.splits)
  qed
qed

text \<open>
  Staging a save is a pure copy: when it succeeds, the snapshot is a new file with the contents
  and the time of the selected save, it passes the check, it is named so that the choice of the newest
  save skips it, and every other file is unchanged; when it fails for whatever reason, the folder is
  unchanged.
\<close>

theorem staging_copies_the_save:
  assumes "stageMapChange unzip io name saves = (res, saves')"
    and "\<And>rnd. si_temp io = Inr rnd \<Longrightarrow> gm_get saves (snapshot_name rnd) = None" and "unzip [] = None"
  shows "case res of
      Inl e \<Rightarrow> \<forall>n. gm_get saves' n = gm_get saves n
    | Inr snapshot \<Rightarrow> \<exists>f. gm_get saves (name @ ''.zip'') = Some f \<and> gm_get saves snapshot = None \<and>
        \<not> save_candidate (snapshot, f) \<and> CheckSave unzip saves' snapshot \<noteq> None \<and>
        (\<forall>n. gm_get saves' n = (if n = snapshot then Some f else gm_get saves n))"
  using stage_cases [OF assms] by (cases res) (auto simp: save_candidate_def)

text \<open>
  C14.  A change of the map loads the selected save: if staging succeeded and the server then stopped,
  with any changes to the folder in between that keep the snapshot, installing it either fails and
  leaves the pending save alone, or makes the next launch without a name of its own choose the
  installed file, whose contents are those the selected save had when it was selected, even if newer
  saves exist.
\<close>

theorem change_loads_selected_save:
  assumes "stageMapChange unzip io name saves = (Inr snapshot, staged)"
    and "\<And>rnd. si_temp io = Inr rnd \<Longrightarrow> gm_get saves (snapshot_name rnd) = None" and "unzip [] = None"
    and "gm_get later snapshot = gm_get staged snapshot"
    and "doChangeMapAfterStop io2 now server snapshot (later, choice) = (err, saves', choice')"
    and "server \<noteq> []" and "CHR ''/'' \<notin> set server"
  shows "(err \<noteq> None \<longrightarrow> choice' = choice) \<and>
    (err = None \<longrightarrow> (\<exists>f folder. gm_get saves (name @ ''.zip'') = Some f \<and>
       selectLaunchSave unzip saves' order (mc_pending_save choice') [] = Some (server @ ''_new.zip'', folder) \<and>
       map_option sf_data (gm_get saves' (server @ ''_new.zip'')) = Some (sf_data f)))"
proof -
  from stage_cases [OF assms(1-3)] obtain f where f: "gm_get saves (name @ ''.zip'') = Some f"
    "CheckSave unzip staged snapshot \<noteq> None" "gm_get staged snapshot = Some f" by auto
  obtain folder where good: "\<not> sf_dir f" "Option.bind (unzip (sf_data f)) level_entry = Some folder"
    using f(2,3) by (auto simp: CheckSave_def split: if_splits option.splits)
  let ?d = "server @ ''_new.zip''"
  have base: "filepath_Base ?d = ?d"
  proof -
    have "strip_slashes ?d = ?d" by (simp add: strip_slashes_def)
    moreover have "segs ?d = [?d]" using assms(7) by (simp add: segs_def split_on_single)
    ultimately show ?thesis by (simp add: filepath_Base_def)
  qed
  have later: "gm_get later snapshot = Some f" using assms(4) f(3) by simp
  have "err \<noteq> None \<longrightarrow> choice' = choice"
    using assms(5) by (auto simp: doChangeMapAfterStop_def Let_def split: option.splits)
  moreover have "selectLaunchSave unzip saves' order (mc_pending_save choice') [] = Some (?d, folder)"
    "map_option sf_data (gm_get saves' ?d) = Some (sf_data f)" if "err = None"
  proof -
    have get: "gm_get saves' ?d = Some (f\<lparr>sf_mtime := now\<rparr>)" and pend: "mc_pending_save choice' = ?d"
      using assms(5) that later by (auto simp: doChangeMapAfterStop_def Let_def split: option.splits)
    then show "map_option sf_data (gm_get saves' ?d) = Some (sf_data f)" by simp
    have "CheckSave unzip saves' ?d = Some folder"
      using get good by (auto simp: CheckSave_def split: option.splits bind_splits)
    with pend base show "selectLaunchSave unzip saves' order (mc_pending_save choice') [] = Some (?d, folder)"
      by (simp add: selectLaunchSave_def)
  qed
  ultimately show ?thesis using f(1) by blast
qed

text \<open>A folder with two saves; the older one is selected.\<close>

definition level_data :: "byte list" where "level_data = replicate (LevelDatMinSize + 1) 0"

definition demo_unzip :: unzip where
  "demo_unzip data = (if data = [] then None
     else Some [\<lparr>se_name = ''level.dat0'', se_content = Some (level_data, True)\<rparr>])"

definition save_at :: "byte \<Rightarrow> gotime \<Rightarrow> save_file" where
  "save_at x t = \<lparr>sf_data = [x], sf_mtime = t, sf_dir = False\<rparr>"

definition demo_saves :: saves where
  "demo_saves = [(''old.zip'', save_at 1 10), (''new.zip'', save_at 2 20)]"

definition no_faults :: save_io where
  "no_faults = \<lparr>si_temp = Inr ''7'', si_close = None, si_copy = None, si_chtimes = None, si_rename = None\<rparr>"

lemma demo_level: "level_entry [\<lparr>se_name = ''level.dat0'', se_content = Some (level_data, True)\<rparr>] = Some ''.''"
proof -
  have "LevelDatMinSize < length level_data" by (simp add: level_data_def)
  then show ?thesis by (simp add: has_suffix_def has_prefix_def filepath_Dir_def path_Clean_def)
qed

lemma demo_check: "CheckSave demo_unzip saves n = (case gm_get saves n of None \<Rightarrow> None
    | Some f \<Rightarrow> if sf_dir f \<or> sf_data f = [] then None else Some ''.'')"
  by (auto simp: CheckSave_def demo_unzip_def demo_level split: option.splits simp del: level_entry.simps)

lemma demo_newest: "newest_first demo_saves (rev demo_saves)"
  by (simp add: newest_first_def demo_saves_def save_at_def save_candidate_def has_suffix_def has_prefix_def)

lemma demo_saves_get: "gm_get demo_saves n = (if n = ''old.zip'' then Some (save_at 1 10) else if n = ''new.zip'' then Some (save_at 2 20) else None)"
  by (auto simp: gm_get_def demo_saves_def)

theorem newest_good_save_is_loaded_witness:
  "\<exists>name folder. selectLaunchSave demo_unzip demo_saves (Some (rev demo_saves)) [] [] = Some (name, folder) \<and> name = ''new.zip'' \<and>
     CheckSave demo_unzip demo_saves name = Some folder"
proof -
  have run: "selectLaunchSave demo_unzip demo_saves (Some (rev demo_saves)) [] [] = Some (''new.zip'', ''.'')"
    by (simp add: selectLaunchSave_def GetSaveGame_def demo_check demo_saves_get) (simp add: demo_saves_def demo_check save_at_def gm_get_def)
  have "gm_ok demo_saves" by (simp add: gm_ok_def gm_keys_def demo_saves_def)
  from newest_good_save_is_loaded [OF demo_newest this run] run show ?thesis by blast
qed

lemma demo_staged: "stageMapChange demo_unzip no_faults ''old'' demo_saves =
    (Inr (snapshot_name ''7''), gm_put (gm_put demo_saves (snapshot_name ''7'') empty_save) (snapshot_name ''7'') (save_at 1 10))"
  by (simp add: stageMapChange_def filepath_Base_def strip_slashes_def segs_def no_faults_def CopyFileAtomic_def demo_saves_get
      demo_check snapshot_name_def save_at_def Let_def)

theorem staging_copies_the_save_witness:
  "\<exists>snapshot saves'. stageMapChange demo_unzip no_faults ''old'' demo_saves = (Inr snapshot, saves') \<and>
     gm_get saves' snapshot = gm_get demo_saves ''old.zip'' \<and> gm_get saves' ''new.zip'' = gm_get demo_saves ''new.zip''"
proof -
  have "gm_get demo_saves (snapshot_name rnd) = None" for rnd by (simp add: demo_saves_get snapshot_name_def)
  moreover have "demo_unzip [] = None" by (simp add: demo_unzip_def)
  ultimately show ?thesis
    using staging_copies_the_save [OF demo_staged] demo_staged by (auto simp: demo_saves_get snapshot_name_def)
qed

theorem change_loads_selected_save_witness:
  "\<exists>saves' choice' folder. doChangeMapAfterStop no_faults 30 ''s'' (snapshot_name ''7'')
       (snd (stageMapChange demo_unzip no_faults ''old'' demo_saves), \<lparr>mc_pending_save = [], mc_new_map = True, mc_throttle = 3\<rparr>) = (None, saves', choice') \<and>
     selectLaunchSave demo_unzip saves' None (mc_pending_save choice') [] = Some (''s_new.zip'', folder)"
proof -
  let ?staged = "gm_put (gm_put demo_saves (snapshot_name ''7'') empty_save) (snapshot_name ''7'') (save_at 1 10)"
  let ?c = "\<lparr>mc_pending_save = [], mc_new_map = True, mc_throttle = 3\<rparr>"
  obtain saves' choice' where run: "doChangeMapAfterStop no_faults 30 ''s'' (snapshot_name ''7'') (?staged, ?c) = (None, saves', choice')"
    by (simp add: doChangeMapAfterStop_def no_faults_def Let_def)
  have "gm_get demo_saves (snapshot_name rnd) = None" for rnd by (simp add: demo_saves_get snapshot_name_def)
  moreover have "demo_unzip [] = None" by (simp add: demo_unzip_def)
  ultimately show ?thesis
    using change_loads_selected_save [OF demo_staged _ _ refl run, of None] run by (auto simp: demo_staged)
qed

end
