(* ===== verification/Map_Reset_Properties.thy ===== *)
theory Map_Reset_Properties
  imports Map_Reset Saves_Properties
begin

text \<open>
  What generating a map promises: a failure leaves the server as it was, a success makes the new map the
  one that is loaded, the file name holds the seed, and a shared generator that disappears is replaced by
  the copy made of it.
\<close>

section \<open>The name of a generated map\<close>

lemma rawurl_no_slash: "CHR ''/'' \<notin> set (rawurl_EncodeToString bs)"
proof -
  have "list_all (\<lambda>c. std_to_url c \<noteq> CHR ''/'') b64_alphabet" unfolding b64_alphabet_def by code_simp
  then show ?thesis using b64_encode_alphabet [of _ bs]
    by (fastforce simp: rawurl_EncodeToString_def list_all_iff)
qed

lemma getMapTypeNum_bound: "getMapTypeNum p < 9"
  by (simp add: getMapTypeNum_def MapTypes_def)

lemma map_type_num_bound: "map_type_num settings < 10"
  using getMapTypeNum_bound [of "preset settings"] by (auto simp: map_type_num_def)

lemma pad0_digit: "n < 10 \<Longrightarrow> pad0 2 n = [CHR ''0'', digit_char n]"
  by (simp add: pad0_def itoa.simps)

lemma length_rawurl_8: "length bs = 8 \<Longrightarrow> length (rawurl_EncodeToString bs) = 11"
proof -
  have len: "length (b64_encode False bs) = (length bs * 4 + 2) div 3"
    by (induction False bs rule: b64_encode.induct) auto
  show "length bs = 8 \<Longrightarrow> length (rawurl_EncodeToString bs) = 11" by (simp add: rawurl_EncodeToString_def len)
qed

lemma seed_bytes_length [simp]: "length (seed_bytes x) = 8"
  by (simp add: seed_bytes_def)

lemma gen_name_shape:
  assumes "k < 10"
  shows "gen_name k seed = ''gen-'' @ [CHR ''0'', digit_char k] @ rawurl_EncodeToString (seed_bytes (word_of_int seed)) @ ''.zip''"
  using assms by (simp add: gen_name_def pad0_digit)

lemma digit_char_no_slash: "n < 10 \<Longrightarrow> digit_char n \<noteq> CHR ''/''"
proof -
  have "list_all (\<lambda>n. digit_char n \<noteq> CHR ''/'') [0..<10]" by code_simp
  then show "n < 10 \<Longrightarrow> digit_char n \<noteq> CHR ''/''" by (auto simp: list_all_iff)
qed

lemma gen_name_segment:
  assumes "k < 10"
  shows "filepath_Base (gen_name k seed) = gen_name k seed" "gen_glob (gen_name k seed)" "gen_name k seed \<noteq> []"
proof -
  let ?n = "gen_name k seed"
  have "CHR ''/'' \<notin> set ?n"
    using rawurl_no_slash digit_char_no_slash [OF assms] by (auto simp: gen_name_shape [OF assms])
  moreover have "strip_slashes ?n = ?n" by (simp add: strip_slashes_def gen_name_def)
  ultimately show "filepath_Base ?n = ?n" by (simp add: filepath_Base_def segs_def split_on_single gen_name_def)
  show "gen_glob ?n" by (simp add: gen_glob_def gen_name_shape [OF assms] has_prefix_def has_suffix_def)
  show "?n \<noteq> []" by (simp add: gen_name_def)
qed

text \<open>
  The name of a generated map holds its seed: decoding the eleven characters before the suffix
  gives the eight bytes of the seed, most significant first, so two maps of different seeds never share
  a file.
\<close>

theorem seed_is_in_the_name:
  assumes "- (2 ^ 63) \<le> seed" and "seed < 2 ^ 63"
  shows "\<exists>bs. rawurl_DecodeString (take 11 (drop 6 (gen_name (map_type_num settings) seed))) = Some bs \<and>
    sint (word_of_nat (le_get (rev bs)) :: int64) = seed"
proof -
  let ?w = "word_of_int seed :: int64"
  have "take 11 (drop 6 (gen_name (map_type_num settings) seed)) = rawurl_EncodeToString (seed_bytes ?w)"
    by (simp add: gen_name_shape [OF map_type_num_bound] length_rawurl_8)
  moreover have "le_get (rev (seed_bytes ?w)) = unat ?w"
  proof -
    have "unat ?w < 2 ^ LENGTH(64)" by (rule unsigned_less)
    then show ?thesis by (simp add: seed_bytes_def le_get_put)
  qed
  moreover have "sint ?w = seed" using assms by (simp add: int_word_sint signed_take_bit_int_eq_self)
  ultimately show ?thesis by (auto simp: rawurl_roundtrip)
qed

theorem seed_is_in_the_name_witness:
  "\<exists>bs. rawurl_DecodeString (take 11 (drop 6 (gen_name (map_type_num no_settings) 123456))) = Some bs \<and>
    sint (word_of_nat (le_get (rev bs)) :: int64) = 123456"
  by (rule seed_is_in_the_name) simp_all

section \<open>Failure and success\<close>

lemma GenNewMap_Inl:
  assumes "GenNewMap unzip env s = (Inl e, s')"
  shows "s' = s\<lparr>rs_files := rs_files s', rs_notices := rs_notices s'\<rparr>"
    "rs_files s' = rs_files s \<or>
     rs_files s' = snd (resolveMapCreateSettings (ge_paths env) (ge_cache env) (rs_generator s) (rs_preset s) (rs_files s))"
  using assms by (auto simp: GenNewMap_def Let_def split: option.splits sum.splits prod.splits if_splits)

lemma GenNewMap_Inr:
  assumes "GenNewMap unzip env s = (Inr name, s')"
  obtains settings files f notices where
    "name = gen_name (map_type_num settings) (new_seed (ge_now env) s)"
    "CheckSave unzip [(name, f)] name \<noteq> None"
    "s' = commit_map env (0 < rs_seed s) name f (s\<lparr>rs_files := files, rs_notices := rs_notices s @ notices\<rparr>)"
proof -
  let ?seed = "new_seed (ge_now env) s"
  have "ge_lock env = None" using assms by (cases "ge_lock env") (simp_all add: GenNewMap_def)
  moreover from this obtain staging where "ge_staging env = Inr staging"
    using assms by (cases "ge_staging env") (simp_all add: GenNewMap_def)
  ultimately have pre: "ge_lock env = None" "ge_staging env = Inr staging" by simp_all
  obtain settings files where r: "resolveMapCreateSettings (ge_paths env) (ge_cache env) (rs_generator s) (rs_preset s) (rs_files s) =
      (settings, files)" by fastforce
  let ?name = "gen_name (map_type_num settings) ?seed"
  obtain res retry where c: "create_map env (filepath_Join staging ?name) (0 < rs_seed s) ?seed settings = (res, retry)" by fastforce
  note run = assms [unfolded GenNewMap_def Let_def pre option.case sum.case r prod.case c]
  obtain f where f: "res = Inr (Some f)" "CheckSave unzip [(?name, f)] ?name \<noteq> None" "ge_rename env = None"
    using run by (cases res) (auto split: option.splits if_splits)
  note run = run [unfolded f option.case sum.case]
  show thesis
    by (rule that [of settings f "(if 0 < rs_seed s then [SeedNotice ?seed] else []) @
        (case fallbackNotice settings of None \<Rightarrow> [] | Some n \<Rightarrow> [n]) @ retry" files])
      (use run f(2) in \<open>auto split: if_splits\<close>)
qed

lemma gm_get_Cons: "gm_get ((k, v) # m) k' = (if k' = k then Some v else gm_get m k')"
  by (simp add: gm_get_def)

lemma CheckSave_single: "gm_get saves name = Some f \<Longrightarrow> CheckSave unzip saves name = CheckSave unzip [(name, f)] name"
  by (simp add: CheckSave_def gm_get_def)

lemma gm_get_prune_other: "gm_ok m \<Longrightarrow> (\<And>v. \<not> p k v) \<Longrightarrow> gm_get (gm_prune p m) k = gm_get m k"
  by (auto simp: gm_get_prune split: option.splits)

lemma commit_map_saves:
  assumes "gm_ok (rs_saves s)"
  shows "gm_get (rs_saves (commit_map env haveSeed name f s)) n =
    (if n = name then Some f
     else if gen_glob n \<and> ge_remove env n then None else gm_get (rs_saves s) n)"
  using assms by (auto simp: commit_map_def Let_def gm_get_prune split: option.splits)

lemma mapReset_Inl:
  assumes "mapResetAfterStop unzip env s = Some (Inl e, s')"
  obtains archives s1 where "GenNewMap unzip (re_gen env) (s\<lparr>rs_archives := archives\<rparr>) = (Inl e, s1)"
    "s' = s1\<lparr>rs_notices := rs_notices s1 @ [ResetFailedNotice e]\<rparr>"
  using assms by (auto simp: mapResetAfterStop_def Let_def split: option.splits prod.splits sum.splits)

lemma mapReset_Inr:
  assumes "mapResetAfterStop unzip env s = Some (Inr name, s')"
  obtains archives s1 box where "GenNewMap unzip (re_gen env) (s\<lparr>rs_archives := archives\<rparr>) = (Inr name, s1)"
    "box = VoidAllVotes ((rs_votes s1)\<lparr>vb_last_change := re_now env\<rparr>)"
    "s' = s1\<lparr>rs_votes := box, rs_vote_file := snd (WriteVotes (re_vote_ok env) box (rs_vote_file s1))\<rparr>"
  using assms by (auto simp: mapResetAfterStop_def Let_def split: option.splits prod.splits sum.splits)

lemma failed_reset_kept:
  assumes "mapResetAfterStop unzip env s = Some (Inl e, s')"
  shows "\<exists>ar fs ns. s' = s\<lparr>rs_archives := ar, rs_files := fs, rs_notices := ns @ [ResetFailedNotice e]\<rparr>"
proof -
  from assms obtain archives s1 where run: "GenNewMap unzip (re_gen env) (s\<lparr>rs_archives := archives\<rparr>) = (Inl e, s1)"
    "s' = s1\<lparr>rs_notices := rs_notices s1 @ [ResetFailedNotice e]\<rparr>" by (rule mapReset_Inl)
  from GenNewMap_Inl(1) [OF run(1)] obtain files notices where
    "s1 = s\<lparr>rs_archives := archives, rs_files := files, rs_notices := notices\<rparr>" by auto
  with run(2) show ?thesis by auto
qed

text \<open>The dates after a reset.\<close>

lemma reset_commits_dates:
  assumes "mapResetAfterStop unzip env s = Some (Inr name, s')"
  shows "rs_dates s' =
    (let d = SetResetDate (ge_set (re_gen env)) (rs_dates s) in
     if \<not> HasResetInterval d \<and> HasResetTime d \<and> \<not> ge_end (re_gen env) < rd_next d then d\<lparr>rd_next := zero_time\<rparr> else d)"
proof -
  from assms obtain archives s1 box where run: "GenNewMap unzip (re_gen env) (s\<lparr>rs_archives := archives\<rparr>) = (Inr name, s1)"
    "box = VoidAllVotes ((rs_votes s1)\<lparr>vb_last_change := re_now env\<rparr>)"
    "s' = s1\<lparr>rs_votes := box, rs_vote_file := snd (WriteVotes (re_vote_ok env) box (rs_vote_file s1))\<rparr>" by (rule mapReset_Inr)
  from run(1) show ?thesis by (rule GenNewMap_Inr) (simp add: run(3) commit_map_def Let_def)
qed

text \<open>
  C16.  A reset that fails, wherever it fails, leaves the saves, the pending save, the seed that was asked
  for, the dates of the schedule, the game settings and the votes as they were; only the archive, the
  copies of map generators and the messages may have changed.
\<close>

theorem failed_reset_keeps_the_server:
  assumes "mapResetAfterStop unzip env s = Some (Inl e, s')"
  shows "s' = s\<lparr>rs_archives := rs_archives s', rs_files := rs_files s', rs_notices := rs_notices s'\<rparr> \<and>
    last (rs_notices s') = ResetFailedNotice e"
  using failed_reset_kept [OF assms] by auto

text \<open>
  After a reset the new map is the one the server loads next: it is in the folder, passes the check
  and is the pending save, also when newer saves exist.  The requested seed is used up, the old generated
  maps are gone as far as they could be removed, every other save is untouched, and all votes are void.
\<close>

theorem generated_map_is_loaded:
  assumes "mapResetAfterStop unzip env s = Some (Inr name, s')" and "gm_ok (rs_saves s)"
  shows "(\<exists>folder. selectLaunchSave unzip (rs_saves s') order (mc_pending_save (rs_choice s')) [] = Some (name, folder)) \<and>
    rs_seed s' \<le> 0 \<and> vb_votes (rs_votes s') = [] \<and>
    (\<forall>n. n \<noteq> name \<longrightarrow> gm_get (rs_saves s') n =
      (if gen_glob n \<and> ge_remove (re_gen env) n then None else gm_get (rs_saves s) n))"
proof -
  from assms(1) obtain archives s1 box where run: "GenNewMap unzip (re_gen env) (s\<lparr>rs_archives := archives\<rparr>) = (Inr name, s1)"
    "box = VoidAllVotes ((rs_votes s1)\<lparr>vb_last_change := re_now env\<rparr>)"
    "s' = s1\<lparr>rs_votes := box, rs_vote_file := snd (WriteVotes (re_vote_ok env) box (rs_vote_file s1))\<rparr>" by (rule mapReset_Inr)
  let ?seed = "new_seed (ge_now (re_gen env)) (s\<lparr>rs_archives := archives\<rparr>)"
  let ?s = "s\<lparr>rs_archives := archives\<rparr>"
  from run(1) obtain settings files f notices where new:
    "name = gen_name (map_type_num settings) (new_seed (ge_now (re_gen env)) ?s)" "CheckSave unzip [(name, f)] name \<noteq> None"
    "s1 = commit_map (re_gen env) (0 < rs_seed ?s) name f (?s\<lparr>rs_files := files, rs_notices := rs_notices ?s @ notices\<rparr>)"
    by (rule GenNewMap_Inr)
  have saves: "gm_get (rs_saves s') n = (if n = name then Some f else if gen_glob n \<and> ge_remove (re_gen env) n then None
      else gm_get (rs_saves s) n)" for n
    using commit_map_saves assms(2) by (simp add: run(3) new(3))
  have pending: "mc_pending_save (rs_choice s') = name" "rs_seed s' \<le> 0" by (auto simp: run(3) new(3) commit_map_def Let_def)
  have "CheckSave unzip (rs_saves s') name \<noteq> None" using CheckSave_single [of "rs_saves s'" name f unzip] saves new(2) by simp
  moreover note gen_name_segment [OF map_type_num_bound, of settings ?seed]
  ultimately show ?thesis using saves pending
    by (auto simp: selectLaunchSave_def run(2,3) VoidAllVotes_def Let_def new(1) [symmetric])
qed

section \<open>Copies of map generators\<close>

lemma copyMapGeneratorFile_cases:
  "copyMapGeneratorFile io src dst fs = (res, fs') \<Longrightarrow> fs' = fs \<or> (\<exists>content. fs' = gm_put fs dst content)"
  "copyMapGeneratorFile io src dst fs = (None, fs') \<Longrightarrow> \<exists>content. gm_get fs src = Some (Some content) \<and> fs' = gm_put fs dst (Some content)"
  by (auto simp: copyMapGeneratorFile_def split: option.splits)

lemma CacheMapGenerator_changes:
  assumes "CacheMapGenerator P io name fs = (res, fs')"
  shows "fs' = fs \<or> cacheableMapGeneratorName (trim_space name) \<noteq> [] \<and>
    (\<forall>p. gm_get fs' p \<noteq> gm_get fs p \<longrightarrow>
      p = fst (GetCachedMapGeneratorFiles P (trim_space name)) \<or> p = snd (GetCachedMapGeneratorFiles P (trim_space name)))"
proof -
  obtain g s gd sd where p: "GetMapGeneratorFiles P fs (trim_space name) = (g, s)"
    "GetCachedMapGeneratorFiles P (trim_space name) = (gd, sd)" by fastforce
  obtain r1 fs1 where c1: "copyMapGeneratorFile io g gd fs = (r1, fs1)" by fastforce
  obtain r2 fs2 where c2: "copyMapGeneratorFile io s sd fs1 = (r2, fs2)" by fastforce
  have step1: "gm_get fs1 q \<noteq> gm_get fs q \<longrightarrow> q = gd" for q using copyMapGeneratorFile_cases(1) [OF c1] by (auto split: if_splits)
  have step2: "gm_get fs2 q \<noteq> gm_get fs1 q \<longrightarrow> q = sd" for q using copyMapGeneratorFile_cases(1) [OF c2] by (auto split: if_splits)
  have "fs' = fs \<or> cacheableMapGeneratorName (trim_space name) \<noteq> [] \<and> (fs' = fs1 \<or> fs' = fs2)"
    using assms p c1 c2
    by (cases r1; cases r2) (auto simp: CacheMapGenerator_def Let_def split: if_splits option.splits)
  with p step1 step2 show ?thesis by (auto; metis)
qed

text \<open>
  Whatever the name of a map generator is (\<open>../..\<close>, an absolute path, blanks), keeping a copy of it
  writes only the two settings files in a folder of its own below the cache folder of this server.
\<close>

theorem generator_copies_stay_in_the_cache:
  assumes "CacheMapGenerator P io name fs = (res, fs')" and "clean_folder (GetLocalMapGeneratorFolder P)"
    and "gm_get fs' p \<noteq> gm_get fs p"
  shows "\<exists>seg. proper seg \<and>
    (p = GetLocalMapGeneratorFolder P @ ''/cache/'' @ seg @ ''/map-gen-settings.json'' \<or>
     p = GetLocalMapGeneratorFolder P @ ''/cache/'' @ seg @ ''/map-settings.json'')"
proof -
  let ?n = "trim_space name"
  from CacheMapGenerator_changes [OF assms(1)] assms(3) have c: "cacheableMapGeneratorName ?n \<noteq> []"
    "p = fst (GetCachedMapGeneratorFiles P ?n) \<or> p = snd (GetCachedMapGeneratorFiles P ?n)" by auto
  have "proper ?n" using cacheable_proper(2) [OF c(1)] by simp
  with c(2) cached_paths [OF c(1) assms(2)] show ?thesis by (auto simp: Let_def)
qed

text \<open>
  A shared generator that was used once outlives its files: when a map was made with it and its copy
  could be kept, then later, with the shared files gone, the next map is made with settings files of the
  same contents, and the channel is told so.
\<close>

theorem cached_generator_survives:
  assumes "resolveMapCreateSettings P io gen p fs = (settings, fs')" and "GetMapGeneratorFiles P fs (trim_space gen) = (g, s)"
    and "fileExists fs g" and "fileExists fs s" and "\<not> equal_fold (trim_space gen) ''none''"
    and "CacheMapGenerator P io (trim_space gen) fs = (Inr (gd, sd), fs')" and "gd \<noteq> []" and "gd \<noteq> s"
    and "clean_folder (GetLocalMapGeneratorFolder P)"
    and "\<not> (fileExists later (fst (GetMapGeneratorFiles P later (trim_space gen))) \<and>
      fileExists later (snd (GetMapGeneratorFiles P later (trim_space gen))))"
    and "gm_get later gd = gm_get fs' gd" and "gm_get later sd = gm_get fs' sd"
  shows "\<exists>settings2. resolveMapCreateSettings P io2 gen p later = (settings2, later) \<and>
    usingCachedGenerator settings2 \<and> fallbackNotice settings2 = Some (CachedCopyNotice (trim_space gen)) \<and>
    gm_get later (mapGenSettingsPath settings2) = gm_get fs (mapGenSettingsPath settings) \<and>
    gm_get later (mapSettingsPath settings2) = gm_get fs (mapSettingsPath settings)"
proof -
  let ?n = "trim_space gen"
  have run: "cacheableMapGeneratorName ?n \<noteq> []" "?n \<noteq> []" "GetCachedMapGeneratorFiles P ?n = (gd, sd)"
    using assms(6,7) by (auto simp: CacheMapGenerator_def Let_def split: if_splits option.splits prod.splits)
  note d = cached_paths_distinct(1) [OF run(1) assms(9) run(3)]
  obtain fs1 where c: "copyMapGeneratorFile io g gd fs = (None, fs1)" "copyMapGeneratorFile io s sd fs1 = (None, fs')"
    using assms(2,6,7) run(3) by (auto simp: CacheMapGenerator_def Let_def split: if_splits option.splits prod.splits)
  obtain x y where x: "gm_get fs g = Some (Some x)" "fs1 = gm_put fs gd (Some x)"
    and y: "gm_get fs1 s = Some (Some y)" "fs' = gm_put fs1 sd (Some y)"
    using copyMapGeneratorFile_cases(2) [OF c(1)] copyMapGeneratorFile_cases(2) [OF c(2)] by blast
  have kept: "gm_get later gd = gm_get fs g" "gm_get later sd = gm_get fs s" "fileExists later gd" "fileExists later sd"
    using x y d assms(8,11,12) by (auto simp: fileExists_def)
  have first: "mapGenSettingsPath settings = g" "mapSettingsPath settings = s"
    using assms(1-5) run(2) by (auto simp: resolveMapCreateSettings_def Let_def split: prod.splits)
  from assms(5,10) run(2,3) kept(3,4) show ?thesis
    by (cases "GetMapGeneratorFiles P later ?n") (auto simp: resolveMapCreateSettings_def Let_def first kept(1,2))
qed

section \<open>The archive\<close>

text \<open>
  Archiving keeps the end of an older archive of the same day that was longer: the file then is the
  new map followed by what remains of the old one, and it is the new map exactly when the older one was
  no longer than it.  Without an older archive it is the map.
\<close>

theorem archive_of_the_day:
  assumes "quickArchive env archives = Some archives'" and "short_version (ar_version env) = Some short"
    and "ar_source env = Some data" and "ar_open env" and "ar_copied env = None"
  shows "gm_get archives' (archive_path env short) =
      Some (case gm_get archives (archive_path env short) of None \<Rightarrow> data | Some old \<Rightarrow> data @ drop (length data) old) \<and>
    (gm_get archives' (archive_path env short) = Some data \<longleftrightarrow>
      (\<forall>old. gm_get archives (archive_path env short) = Some old \<longrightarrow> length old \<le> length data))"
  using assms by (auto simp: quickArchive_def overwrite_def Let_def split: option.splits)

section \<open>An example\<close>

definition demo_paths :: map_paths where
  "demo_paths = \<lparr>mp_servers_root = ''/s'', mp_prefix = ''/cw-'', mp_callsign = ''a'', mp_factorio_dir = ''f'', mp_saves = ''saves'',
     mp_generators = ''gens'', mp_cwd = Some ''/s/a''\<rparr>"

definition demo_io :: cache_io where
  "demo_io = \<lparr>ci_read = (\<lambda>_. None), ci_mkdir = None, ci_write = (\<lambda>_. None)\<rparr>"

definition demo_gen_env :: "string option \<Rightarrow> gen_env" where
  "demo_gen_env fault = \<lparr>ge_paths = demo_paths, ge_cache = demo_io, ge_lock = None, ge_staging = Inr ''/t'', ge_now = 0, ge_set = 0,
     ge_end = 0, ge_run = (\<lambda>args old. (Some (save_at 7 30), fault)), ge_remove_partial = True, ge_rename = None, ge_remove = (\<lambda>_. True)\<rparr>"

definition demo_reset_env :: "string option \<Rightarrow> reset_env" where
  "demo_reset_env fault = \<lparr>re_gen = demo_gen_env fault,
     re_archive = \<lparr>ar_version = ''2.0.1'', ar_game_map = [], ar_source = Some [1], ar_local_now = 0, ar_folder = ''/ar/'',
       ar_server = ''a-x'', ar_open = True, ar_copied = None\<rparr>, re_now = 0, re_vote_ok = True\<rparr>"

definition demo_state :: reset_state where
  "demo_state = \<lparr>rs_saves = demo_saves, rs_files = [], rs_dates = \<lparr>rd_interval = no_interval, rd_next = 0, rd_hour = 0\<rparr>,
     rs_choice = \<lparr>mc_pending_save = ''old.zip'', mc_new_map = False, mc_throttle = 0\<rparr>, rs_speed = 0, rs_auto_pause = False,
     rs_skip_reset = True, rs_seed = 5, rs_scenario = [], rs_generator = [], rs_preset = ''island'',
     rs_votes = createVoteContainer 0, rs_vote_file = VoteFileMissing, rs_archives = [], rs_notices = []\<rparr>"

lemma demo_settings: "resolveMapCreateSettings demo_paths demo_io [] ''island'' [] = (no_settings\<lparr>preset := ''island''\<rparr>, [])"
proof -
  have "normalizeMapPreset ''island'' = Some ''island''" by code_simp
  moreover have "trim_space [] = []" by (simp add: trim_space_def)
  ultimately show ?thesis by (simp add: resolveMapCreateSettings_def Let_def split: prod.splits)
qed

lemma demo_reset_fails: "\<exists>s'. mapResetAfterStop unzip (demo_reset_env (Some ''crash'')) demo_state = Some (Inl ''crash'', s')"
  by (simp add: mapResetAfterStop_def demo_reset_env_def demo_gen_env_def GenNewMap_def demo_state_def demo_settings create_map_def
      no_settings_def Let_def)

lemma demo_reset_works: "\<exists>name s'. mapResetAfterStop demo_unzip (demo_reset_env None) demo_state = Some (Inr name, s')"
  by (simp add: mapResetAfterStop_def demo_reset_env_def demo_gen_env_def GenNewMap_def demo_state_def demo_settings create_map_def
      no_settings_def Let_def demo_check save_at_def gm_get_Cons)

theorem failed_reset_keeps_the_server_witness:
  "\<exists>s'. mapResetAfterStop demo_unzip (demo_reset_env (Some ''crash'')) demo_state = Some (Inl ''crash'', s') \<and>
     last (rs_notices s') = ResetFailedNotice ''crash'' \<and> rs_saves s' = demo_saves \<and> rs_seed s' = 5"
proof -
  obtain s' where run: "mapResetAfterStop demo_unzip (demo_reset_env (Some ''crash'')) demo_state = Some (Inl ''crash'', s')"
    using demo_reset_fails by blast
  let ?t = "demo_state\<lparr>rs_archives := rs_archives s', rs_files := rs_files s', rs_notices := rs_notices s'\<rparr>"
  from failed_reset_keeps_the_server [OF run] have f: "s' = ?t" "last (rs_notices s') = ResetFailedNotice ''crash''" by blast+
  have "rs_saves ?t = demo_saves" "rs_seed ?t = 5" by (simp_all add: demo_state_def)
  then have "rs_saves s' = demo_saves" "rs_seed s' = 5" by (simp_all only: f(1) [symmetric])
  with run f(2) show ?thesis by blast
qed

theorem generated_map_is_loaded_witness:
  "\<exists>name s'. mapResetAfterStop demo_unzip (demo_reset_env None) demo_state = Some (Inr name, s') \<and>
     (\<exists>folder. selectLaunchSave demo_unzip (rs_saves s') None (mc_pending_save (rs_choice s')) [] = Some (name, folder)) \<and>
     rs_seed s' \<le> 0"
proof -
  obtain name s' where run: "mapResetAfterStop demo_unzip (demo_reset_env None) demo_state = Some (Inr name, s')"
    using demo_reset_works by blast
  have "gm_ok (rs_saves demo_state)" by (simp add: demo_state_def gm_ok_def gm_keys_def demo_saves_def)
  from generated_map_is_loaded [OF run this] run show ?thesis by blast
qed

definition demo_fs :: fs where
  "demo_fs = [(''/s/gens/rich-gen.json'', Some [1]), (''/s/gens/rich-set.json'', Some [2])]"

lemma demo_fs_get: "gm_get demo_fs n =
    (if n = ''/s/gens/rich-gen.json'' then Some (Some [1]) else if n = ''/s/gens/rich-set.json'' then Some (Some [2]) else None)"
  by (simp add: demo_fs_def gm_get_def)

lemma demo_files: "GetMapGeneratorFiles demo_paths demo_fs ''rich'' = (''/s/gens/rich-gen.json'', ''/s/gens/rich-set.json'')"
  "GetMapGeneratorFiles demo_paths [] ''rich'' = (''/s/gens/rich-gen.json'', ''/s/gens/rich-set.json'')"
  by code_simp+

lemma demo_cached: "GetCachedMapGeneratorFiles demo_paths ''rich'' =
    (''/s/a/gens/cache/rich/map-gen-settings.json'', ''/s/a/gens/cache/rich/map-settings.json'')"
  by code_simp

lemma demo_local: "GetLocalMapGeneratorFolder demo_paths = ''/s/a/gens''" "clean_folder ''/s/a/gens''"
proof -
  show "GetLocalMapGeneratorFolder demo_paths = ''/s/a/gens''" by code_simp
  show "clean_folder ''/s/a/gens''" unfolding clean_folder_def
    by (rule exI [of _ "[''s'', ''a'', ''gens'']"]) (simp add: proper_def)
qed

lemma demo_trim [simp]: "trim_space ''rich'' = ''rich''" "cacheableMapGeneratorName ''rich'' = ''rich''"
  by code_simp+

lemma demo_cache_run: "CacheMapGenerator demo_paths demo_io ''rich'' demo_fs =
    (Inr (''/s/a/gens/cache/rich/map-gen-settings.json'', ''/s/a/gens/cache/rich/map-settings.json''),
     gm_put (gm_put demo_fs ''/s/a/gens/cache/rich/map-gen-settings.json'' (Some [1])) ''/s/a/gens/cache/rich/map-settings.json'' (Some [2]))"
proof -
  have "\<not> equal_fold ''rich'' ''none''" "\<not> equal_fold ''rich'' CustomMapGeneratorName" by code_simp+
  then show ?thesis
    by (simp add: CacheMapGenerator_def demo_files demo_cached demo_io_def copyMapGeneratorFile_def fileExists_def demo_fs_get Let_def)
qed

theorem generator_copies_stay_in_the_cache_witness:
  "\<exists>res fs' seg. CacheMapGenerator demo_paths demo_io ''rich'' demo_fs = (res, fs') \<and> fs' \<noteq> demo_fs \<and> proper seg"
proof -
  let ?p = "''/s/a/gens/cache/rich/map-settings.json''"
  have "gm_get (gm_put (gm_put demo_fs ''/s/a/gens/cache/rich/map-gen-settings.json'' (Some [1])) ?p (Some [2])) ?p \<noteq> gm_get demo_fs ?p"
    by (simp add: demo_fs_get)
  from generator_copies_stay_in_the_cache [OF demo_cache_run _ this] this demo_cache_run show ?thesis
    by (metis demo_local)
qed

theorem cached_generator_survives_witness:
  "\<exists>settings2 later. resolveMapCreateSettings demo_paths demo_io ''rich'' [] later = (settings2, later) \<and>
     usingCachedGenerator settings2 \<and> gm_get later (mapGenSettingsPath settings2) = Some (Some [1])"
proof -
  let ?gd = "''/s/a/gens/cache/rich/map-gen-settings.json''" and ?sd = "''/s/a/gens/cache/rich/map-settings.json''"
  let ?later = "[(?gd, Some [1]), (?sd, Some [2])] :: fs"
  have nn: "\<not> equal_fold ''rich'' ''none''" by code_simp
  have exist: "fileExists demo_fs ''/s/gens/rich-gen.json''" "fileExists demo_fs ''/s/gens/rich-set.json''"
    by (simp_all add: fileExists_def demo_fs_get)
  let ?settings = "no_settings\<lparr>generator := ''rich'', mapGenSettingsPath := ''/s/gens/rich-gen.json'',
    mapSettingsPath := ''/s/gens/rich-set.json''\<rparr>"
  have "normalizeMapPreset [] = None" by code_simp
  then have res: "resolveMapCreateSettings demo_paths demo_io ''rich'' [] demo_fs = (?settings, snd (CacheMapGenerator demo_paths demo_io ''rich'' demo_fs))"
    using nn exist by (simp add: resolveMapCreateSettings_def demo_files demo_cached Let_def no_settings_def)
  have gone: "\<not> (fileExists ?later (fst (GetMapGeneratorFiles demo_paths ?later (trim_space ''rich''))) \<and>
      fileExists ?later (snd (GetMapGeneratorFiles demo_paths ?later (trim_space ''rich''))))" by code_simp
  obtain settings2 where "resolveMapCreateSettings demo_paths demo_io ''rich'' [] ?later = (settings2, ?later)"
    "usingCachedGenerator settings2" "gm_get ?later (mapGenSettingsPath settings2) = gm_get demo_fs ''/s/gens/rich-gen.json''"
    using cached_generator_survives [OF res, of "''/s/gens/rich-gen.json''" "''/s/gens/rich-set.json''" ?gd ?sd ?later demo_io]
      exist nn gone demo_local by (auto simp: demo_files demo_cache_run gm_get_Cons no_settings_def)
  then show ?thesis by (auto simp: demo_fs_get)
qed

theorem archive_of_the_day_witness:
  "\<exists>env archives. map_option (\<lambda>a. gm_get a (archive_path env ''2.0'')) (quickArchive env archives) = Some (Some [1, 3])"
proof -
  let ?env = "re_archive (demo_reset_env None)"
  let ?old = "[(archive_path ?env ''2.0'', [2, 3])] :: (string, byte list) gomap"
  have short: "short_version (ar_version ?env) = Some ''2.0''" by code_simp
  obtain archives' where run: "quickArchive ?env ?old = Some archives'" by (simp add: quickArchive_def short split: option.splits)
  from archive_of_the_day [OF run short, of "[1]"] have "gm_get archives' (archive_path ?env ''2.0'') = Some [1, 3]"
    by (simp add: demo_reset_env_def gm_get_def)
  with run show ?thesis by (intro exI [of _ ?env] exI [of _ ?old]) simp
qed

end
