(* ===== verification/Reset_Properties.thy ===== *)
theory Reset_Properties
  imports Reset_Schedule Map_Reset_Properties
begin

text \<open>
  What the schedule of map resets promises: where the next reset lies, that the web form and the chat
  command agree on it, that a failed reset is retried no sooner than a minute later, and that a server that
  was down for a long time catches up with its schedule without resetting the map.
\<close>

section \<open>The next reset\<close>

lemma SetResetDate_simps [simp]: "rd_interval (SetResetDate now d) = rd_interval d" "rd_hour (SetResetDate now d) = rd_hour d"
  by (simp_all add: SetResetDate_def)

lemma AdvanceReset_interval [simp]: "rd_interval (AdvanceReset d) = rd_interval d"
  by (simp add: AdvanceReset_def)

lemma HasResetInterval_same: "rd_interval d' = rd_interval d \<Longrightarrow> HasResetInterval d' = HasResetInterval d"
  by (simp add: HasResetInterval_def)

lemma span_min_at_least:
  assumes "HasResetInterval d" "interval_ok (rd_interval d)"
  shows "hour_ns \<le> span_min (rd_interval d)"
  using assms HasResetInterval_cong [of d 0 0] by (intro span_min_hour [of _ 0 0]) simp_all

lemma reset_base_hour:
  assumes "0 < h"
  shows "reset_base h now = now div day_ns * day_ns + h * hour_ns"
proof -
  obtain y m d where c: "civil (now div day_ns) = (y, m, d)" by (cases "civil (now div day_ns)")
  show ?thesis
    unfolding reset_base_def c time_Date_def Let_def prod.case using assms by (simp only: if_True day_number_civil(1) [OF c])
qed

lemma reset_base_bounds:
  assumes "0 < h" "h < 24"
  shows "now - day_ns < reset_base h now" "reset_base h now < now + day_ns"
proof -
  note reset_base_hour [OF assms(1), of now]
  moreover have "now = now div day_ns * day_ns + now mod day_ns" by simp
  moreover have "0 \<le> now mod day_ns" "now mod day_ns < day_ns" by simp_all
  ultimately show "now - day_ns < reset_base h now" "reset_base h now < now + day_ns" using assms by linarith+
qed

text \<open>
  The next reset lies between the least and the greatest length of the interval after its base,
  to half a second.  Without a reset hour the base is the current time, so the next reset is at least an
  hour (less half a second) ahead; with one it is that hour of the current day, and so less than a day
  off.
\<close>

theorem next_reset_bounds:
  assumes "HasResetInterval d" and "interval_ok (rd_interval d)" and "rd_hour d < 24"
  shows "2 * (reset_base (rd_hour d) now + span_min (rd_interval d)) - second_ns < 2 * rd_next (SetResetDate now d) \<and>
    2 * rd_next (SetResetDate now d) \<le> 2 * (reset_base (rd_hour d) now + span_max (rd_interval d)) + second_ns \<and>
    \<bar>reset_base (rd_hour d) now - now\<bar> < day_ns \<and>
    (rd_hour d \<le> 0 \<longrightarrow> 2 * now + 2 * hour_ns - second_ns < 2 * rd_next (SetResetDate now d))"
proof -
  have next_reset: "rd_next (SetResetDate now d) = add_interval (rd_interval d) (reset_base (rd_hour d) now)"
    using assms(1) by (simp add: SetResetDate_def)
  note b = add_interval_bounds [OF assms(2), of "reset_base (rd_hour d) now"]
  have base: "\<bar>reset_base (rd_hour d) now - now\<bar> < day_ns"
  proof (cases "0 < rd_hour d")
    case True
    from reset_base_bounds [OF this assms(3), of now] show ?thesis by linarith
  qed (simp add: reset_base_def)
  have "2 * now + 2 * hour_ns - second_ns < 2 * add_interval (rd_interval d) (reset_base (rd_hour d) now)" if "rd_hour d \<le> 0"
  proof -
    have "reset_base (rd_hour d) now = now" using that by (simp add: reset_base_def)
    with b(1) span_min_at_least [OF assms(1,2)] show ?thesis by simp
  qed
  with b base next_reset show ?thesis by simp
qed

definition hours_only :: "int \<Rightarrow> int \<Rightarrow> reset_dates" where
  "hours_only k hour = \<lparr>rd_interval = no_interval\<lparr>ri_hours := k\<rparr>, rd_next = zero_time, rd_hour = hour\<rparr>"

definition eight_oclock :: gotime where "eight_oclock = 738000 * day_ns + 8 * hour_ns"

lemma hours_only_ok [simp]:
  "0 < k \<Longrightarrow> HasResetInterval (hours_only k h)" "0 < k \<Longrightarrow> interval_ok (rd_interval (hours_only k h))"
  "rd_hour (hours_only k h) = h" "rd_interval (hours_only k h) = no_interval\<lparr>ri_hours := k\<rparr>"
  "0 < k \<Longrightarrow> interval_ok (no_interval\<lparr>ri_hours := k\<rparr>)"
  by (simp_all add: hours_only_def HasResetInterval_def interval_ok_def no_interval_def)

lemma span_hours [simp]: "span_min (no_interval\<lparr>ri_hours := k\<rparr>) = k * hour_ns" "span_max (no_interval\<lparr>ri_hours := k\<rparr>) = k * hour_ns"
  by (simp_all add: span_min_def span_max_def no_interval_def)

theorem next_reset_bounds_witness:
  "2 * eight_oclock + 2 * hour_ns - second_ns < 2 * rd_next (SetResetDate eight_oclock (hours_only 6 0))"
  using next_reset_bounds [of "hours_only 6 0" eight_oclock] by simp

text \<open>
  The web form stores the same next reset as the chat command for the same interval, hour and
  time.
\<close>

theorem web_reset_date_agrees:
  assumes "interval_ok n" and "HasResetInterval d" and "rd_interval d = n"
  shows "web_next_reset now n (rd_hour d) = rd_next (SetResetDate now d)"
proof -
  have pos: "0 < ri_months n + ri_weeks n + ri_days n + ri_hours n"
    using assms by (auto simp: HasResetInterval_def interval_ok_def Let_def split: if_splits)
  have shift: "AddDate 0 m (k + w * 7) t = AddDate 0 m k t + w * hour_ns * 24 * 7" for m k w t
    by (simp add: AddDate_def day_number_day add.assoc [symmetric] split: prod.splits)
  show ?thesis using pos assms by (simp add: web_next_reset_def SetResetDate_def add_interval_def shift Let_def)
qed

theorem web_reset_date_agrees_witness:
  "web_next_reset eight_oclock (no_interval\<lparr>ri_hours := 6\<rparr>) 5 = rd_next (SetResetDate eight_oclock (hours_only 6 5))"
  using web_reset_date_agrees [of "no_interval\<lparr>ri_hours := 6\<rparr>" "hours_only 6 5" eight_oclock]
  by (simp add: interval_ok_def no_interval_def)

section \<open>One check\<close>

lemma duration_Round_near:
  assumes "0 < d"
  shows "2 * duration_Round d m \<le> 2 * m + d" "2 * m - d \<le> 2 * duration_Round d m"
proof -
  have "0 \<le> \<bar>m\<bar> mod d" "\<bar>m\<bar> mod d < d" using assms by simp_all
  then show "2 * duration_Round d m \<le> 2 * m + d" "2 * m - d \<le> 2 * duration_Round d m"
    by (auto simp: duration_Round_def Let_def)
qed

lemma until_reset_near:
  "until_reset now d \<le> rd_next d - now + second_ns" "rd_next d - now - second_ns \<le> until_reset now d"
  for d now
proof -
  have near: "u \<le> n - t + s \<and> n - t - s \<le> u"
    if "2 * r \<le> 2 * t + s" "2 * t - s < 2 * r" "2 * u \<le> 2 * (n - r) + s" "2 * (n - r) - s \<le> 2 * u" for u n r t s :: int
    using that by simp
  have pos: "0 < second_ns" by simp
  note near [OF time_Round_bounds [OF pos, of now] duration_Round_near [OF pos, of "rd_next d - time_Round second_ns now"]]
  then show "until_reset now d \<le> rd_next d - now + second_ns" "rd_next d - now - second_ns \<le> until_reset now d"
    by (simp_all add: until_reset_def)
qed

lemma no_late_warning: "until < 0 \<Longrightarrow> \<not> warn_now players until"
  by (auto simp: warn_now_def warnTimes_def)

lemma CheckMapReset_late:
  assumes "HasResetTime (sc_dates c)" "until_reset (ck_now env) (sc_dates c) < - maxResetWindow" "HasResetInterval (sc_dates c)"
  shows "CheckMapReset unzip env c = Some ((set_dates (AdvanceReset (sc_dates c)) c)\<lparr>sc_skipped := Suc (sc_skipped c)\<rparr>)"
proof -
  have neg: "until_reset (ck_now env) (sc_dates c) < 0" using assms(2) by (simp add: maxResetWindow_def)
  show ?thesis using assms neg no_late_warning [OF neg] by (simp add: CheckMapReset_def Let_def)
qed

lemma CheckMapReset_due:
  assumes "HasResetTime (sc_dates c)" "until_reset (ck_now env) (sc_dates c) < 0" "- maxResetWindow \<le> until_reset (ck_now env) (sc_dates c)"
  shows "CheckMapReset unzip env c =
    (let due = rd_next (sc_dates c) in
     if due = sc_retry_for c \<and> ck_retry_now env < sc_retry_at c then Some c
     else case Map_reset unzip (ck_attempt env) (sc_state c) of
         None \<Rightarrow> None
       | Some (Some err, s) \<Rightarrow> Some (c\<lparr>sc_state := s, sc_retry_for := due, sc_retry_at := ck_failed_now env + minute_ns\<rparr>)
       | Some (None, s) \<Rightarrow>
           (let c = c\<lparr>sc_state := s, sc_retry_for := zero_time, sc_retry_at := zero_time\<rparr> in
            Some (if \<not> HasResetInterval (sc_dates c) \<and> rd_next (sc_dates c) = due
                  then set_dates ((sc_dates c)\<lparr>rd_next := zero_time\<rparr>) c else c)))"
  using assms no_late_warning [OF assms(2)] by (simp add: CheckMapReset_def Let_def)

lemma CheckMapReset_attempt:
  assumes "HasResetTime (sc_dates c)" "until_reset (ck_now env) (sc_dates c) < 0" "- maxResetWindow \<le> until_reset (ck_now env) (sc_dates c)"
    "rd_next (sc_dates c) = sc_retry_for c \<Longrightarrow> sc_retry_at c \<le> ck_retry_now env"
  shows "Map_reset unzip (ck_attempt env) (sc_state c) = Some (Some err, s) \<Longrightarrow> CheckMapReset unzip env c =
      Some (c\<lparr>sc_state := s, sc_retry_for := rd_next (sc_dates c), sc_retry_at := ck_failed_now env + minute_ns\<rparr>)"
    "Map_reset unzip (ck_attempt env) (sc_state c) = Some (None, s) \<Longrightarrow> CheckMapReset unzip env c =
      Some (let c' = c\<lparr>sc_state := s, sc_retry_for := zero_time, sc_retry_at := zero_time\<rparr> in
        if \<not> HasResetInterval (sc_dates c') \<and> rd_next (sc_dates c') = rd_next (sc_dates c)
        then set_dates ((sc_dates c')\<lparr>rd_next := zero_time\<rparr>) c' else c')"
proof -
  have open_now: "\<not> (rd_next (sc_dates c) = sc_retry_for c \<and> ck_retry_now env < sc_retry_at c)" using assms(4) by auto
  note due = CheckMapReset_due [OF assms(1-3), of unzip]
  show "Map_reset unzip (ck_attempt env) (sc_state c) = Some (Some err, s) \<Longrightarrow> CheckMapReset unzip env c =
      Some (c\<lparr>sc_state := s, sc_retry_for := rd_next (sc_dates c), sc_retry_at := ck_failed_now env + minute_ns\<rparr>)"
    using open_now unfolding due by (simp only: Let_def if_False option.case prod.case)
  show "Map_reset unzip (ck_attempt env) (sc_state c) = Some (None, s) \<Longrightarrow> CheckMapReset unzip env c =
      Some (let c' = c\<lparr>sc_state := s, sc_retry_for := zero_time, sc_retry_at := zero_time\<rparr> in
        if \<not> HasResetInterval (sc_dates c') \<and> rd_next (sc_dates c') = rd_next (sc_dates c)
        then set_dates ((sc_dates c')\<lparr>rd_next := zero_time\<rparr>) c' else c')"
    using open_now unfolding due by (simp only: Let_def if_False option.case prod.case)
qed

section \<open>Catching up\<close>

lemma unix_mono: "t \<le> t' \<Longrightarrow> unix t \<le> unix t'"
  by (simp add: unix_def zdiv_mono1)

lemma AdvanceReset_next:
  assumes "HasResetInterval d" "interval_ok (rd_interval d)"
  shows "rd_next d + hour_ns - second_ns \<le> rd_next (AdvanceReset d)"
  using add_interval_bounds(1) [OF assms(2), of "rd_next d"] span_min_at_least [OF assms] assms(1)
  by (simp add: AdvanceReset_def)

lemma AdvanceReset_pow:
  assumes "HasResetInterval d" "interval_ok (rd_interval d)"
  shows "rd_interval ((AdvanceReset ^^ k) d) = rd_interval d \<and>
    rd_next d + int k * (hour_ns - second_ns) \<le> rd_next ((AdvanceReset ^^ k) d)"
proof (induction k)
  case (Suc k)
  let ?d = "(AdvanceReset ^^ k) d"
  have "HasResetInterval ?d" "interval_ok (rd_interval ?d)"
    using Suc assms HasResetInterval_same [of ?d d] by simp_all
  from AdvanceReset_next [OF this] Suc show ?case by (simp add: distrib_right)
qed simp

definition late :: "(nat \<Rightarrow> check_env) \<Rightarrow> reset_sched \<Rightarrow> nat \<Rightarrow> bool" where
  "late envs c k \<longleftrightarrow> until_reset (ck_now (envs k)) ((AdvanceReset ^^ k) (sc_dates c)) < - maxResetWindow"

lemma loop_while_late:
  assumes "HasResetTime (sc_dates c)" "HasResetInterval (sc_dates c)" "interval_ok (rd_interval (sc_dates c))"
    "\<forall>j < k. late envs c j"
  shows "map_reset_loop unzip envs k c =
    Some ((set_dates ((AdvanceReset ^^ k) (sc_dates c)) c)\<lparr>sc_skipped := sc_skipped c + k\<rparr>)"
  using assms(4)
proof (induction k)
  case (Suc k)
  let ?d = "(AdvanceReset ^^ k) (sc_dates c)" and ?c = "(set_dates ((AdvanceReset ^^ k) (sc_dates c)) c)\<lparr>sc_skipped := sc_skipped c + k\<rparr>"
  have run: "map_reset_loop unzip envs k c = Some ?c" using Suc by simp
  have interval: "HasResetInterval ?d"
    using AdvanceReset_pow [OF assms(2,3), of k] assms(2) HasResetInterval_same [of ?d "sc_dates c"] by simp
  have "rd_next (sc_dates c) \<le> rd_next ?d" using AdvanceReset_pow [OF assms(2,3), of k] by simp
  then have "HasResetTime ?d" using assms(1) unix_mono by (fastforce simp: HasResetTime_def)
  then have "CheckMapReset unzip (envs k) ?c = Some ((set_dates (AdvanceReset ?d) ?c)\<lparr>sc_skipped := Suc (sc_skipped ?c)\<rparr>)"
    using CheckMapReset_late [of ?c "envs k" unzip] interval Suc.prems by (simp add: late_def)
  with run show ?case by simp
qed simp

text \<open>
  C15.  A server that missed resets catches up: when the checks are at most half an hour apart, then after
  finitely many of them the next reset is no longer more than three hours ago; until then every check
  has moved it by one interval, and no map was reset, no warning given and nothing else changed.
\<close>

theorem missed_resets_catch_up:
  assumes "HasResetTime (sc_dates c)" and "HasResetInterval (sc_dates c)" and "interval_ok (rd_interval (sc_dates c))"
    and "\<And>k. ck_now (envs (Suc k)) \<le> ck_now (envs k) + 30 * minute_ns"
  shows "\<exists>k. map_reset_loop unzip envs k c =
      Some ((set_dates ((AdvanceReset ^^ k) (sc_dates c)) c)\<lparr>sc_skipped := sc_skipped c + k\<rparr>) \<and>
    - maxResetWindow \<le> until_reset (ck_now (envs k)) ((AdvanceReset ^^ k) (sc_dates c))"
proof -
  let ?d = "sc_dates c" and ?now = "\<lambda>k. ck_now (envs k)"
  have clock: "?now k \<le> ?now 0 + int k * (30 * minute_ns)" for k
  proof (induction k)
    case (Suc k)
    with assms(4) [of k] show ?case by (simp add: distrib_right)
  qed simp
  define K where "K = nat (?now 0 - rd_next ?d)"
  have "\<not> late envs c K"
  proof
    assume "late envs c K"
    then have "until_reset (?now K) ((AdvanceReset ^^ K) ?d) < - maxResetWindow" by (simp add: late_def)
    moreover have "int K * 1 \<le> int K * (hour_ns - second_ns - 30 * minute_ns)" by (rule mult_left_mono) simp_all
    moreover have "?now 0 - rd_next ?d \<le> int K" by (simp add: K_def)
    moreover have "rd_next ?d + int K * (hour_ns - second_ns) \<le> rd_next ((AdvanceReset ^^ K) ?d)"
      using AdvanceReset_pow [OF assms(2,3)] by blast
    moreover note clock [of K] until_reset_near(2) [of "(AdvanceReset ^^ K) ?d" "?now K"]
    ultimately show False unfolding maxResetWindow_def by (simp only: right_diff_distrib)
  qed
  then obtain k where k: "\<not> late envs c k" "\<forall>j < k. late envs c j"
    using exists_least_iff [of "\<lambda>k. \<not> late envs c k"] by auto
  from loop_while_late [OF assms(1-3) k(2)] k(1) show ?thesis unfolding late_def by (metis not_less)
qed

text \<open>Three hours of missed resets: the clock stands at ten, the next reset was at four.\<close>

definition demo_check :: "gotime \<Rightarrow> reset_attempt \<Rightarrow> check_env" where
  "demo_check now attempt = \<lparr>ck_now = now, ck_retry_now = now, ck_failed_now = now, ck_players = 0, ck_attempt = attempt\<rparr>"

definition demo_sched :: "reset_dates \<Rightarrow> reset_sched" where
  "demo_sched d = \<lparr>sc_state = demo_state\<lparr>rs_dates := d\<rparr>, sc_retry_at = 0, sc_retry_for = 0, sc_warned = [], sc_skipped = 0\<rparr>"

lemma demo_dates [simp]: "sc_dates (demo_sched d) = d" "ck_now (demo_check t a) = t" "ck_retry_now (demo_check t a) = t"
  "ck_failed_now (demo_check t a) = t" "ck_attempt (demo_check t a) = a" "sc_retry_for (demo_sched d) = 0"
  by (simp_all add: demo_sched_def demo_check_def)

lemma recent_time: "0 < t \<Longrightarrow> unix (eight_oclock + t) > 0" "unix eight_oclock > 0"
  by (simp_all add: unix_def eight_oclock_def)

theorem missed_resets_catch_up_witness:
  "\<exists>k c'. map_reset_loop demo_unzip (\<lambda>_. demo_check (eight_oclock + 2 * hour_ns) (Refused [])) k
      (demo_sched ((hours_only 1 0)\<lparr>rd_next := eight_oclock - 4 * hour_ns\<rparr>)) = Some c' \<and>
    rs_saves (sc_state c') = demo_saves"
proof -
  let ?c = "demo_sched ((hours_only 1 0)\<lparr>rd_next := eight_oclock - 4 * hour_ns\<rparr>)"
  have "HasResetTime (sc_dates ?c)" by (simp add: HasResetTime_def unix_def eight_oclock_def)
  moreover have "HasResetInterval (sc_dates ?c)" "interval_ok (rd_interval (sc_dates ?c))"
    using hours_only_ok(1,2) [of 1 0] by (simp_all add: HasResetInterval_def)
  ultimately obtain k where "map_reset_loop demo_unzip (\<lambda>_. demo_check (eight_oclock + 2 * hour_ns) (Refused [])) k ?c =
      Some ((set_dates ((AdvanceReset ^^ k) (sc_dates ?c)) ?c)\<lparr>sc_skipped := sc_skipped ?c + k\<rparr>)"
    using missed_resets_catch_up [of ?c "\<lambda>_. demo_check (eight_oclock + 2 * hour_ns) (Refused [])" demo_unzip] by auto
  moreover have "rs_saves (sc_state ((set_dates ((AdvanceReset ^^ k) (sc_dates ?c)) ?c)\<lparr>sc_skipped := sc_skipped ?c + k\<rparr>)) = demo_saves"
    by (simp add: demo_sched_def demo_state_def)
  ultimately show ?thesis by blast
qed

section \<open>Attempts\<close>

lemma Map_reset_failed_keeps:
  assumes "attempt = Refused x \<or> (\<exists>env startErr e s2. attempt = Attempted env startErr \<and> mapResetAfterStop unzip env s = Some (Inl e, s2))"
  obtains err s' where "Map_reset unzip attempt s = Some (Some err, s')" "rs_dates s' = rs_dates s" "rs_saves s' = rs_saves s"
    "rs_seed s' = rs_seed s" "rs_choice s' = rs_choice s"
  using assms
proof (elim disjE exE conjE)
  assume "attempt = Refused x"
  then show thesis by (intro that [of x s]) (simp_all add: Map_reset_def)
next
  fix env startErr e s2
  assume a: "attempt = Attempted env startErr" "mapResetAfterStop unzip env s = Some (Inl e, s2)"
  from failed_reset_kept [OF a(2)] obtain ar fs ns where "s2 = s\<lparr>rs_archives := ar, rs_files := fs, rs_notices := ns\<rparr>" by blast
  with a show thesis by (intro that [of e s2]) (simp_all add: Map_reset_def)
qed

text \<open>
  A scheduled reset that could not generate a map keeps its deadline and the saves, the pending save
  and the seed; checks within the next minute do nothing, and the first check after that minute, while the
  deadline is less than three hours ago, tries again.
\<close>

theorem failed_reset_backs_off:
  assumes "HasResetTime (sc_dates c)" and "until_reset (ck_now e1) (sc_dates c) < 0"
    and "- maxResetWindow \<le> until_reset (ck_now e1) (sc_dates c)"
    and "rd_next (sc_dates c) = sc_retry_for c \<Longrightarrow> sc_retry_at c \<le> ck_retry_now e1"
    and "ck_attempt e1 = Refused x \<or> (\<exists>env startErr e s2. ck_attempt e1 = Attempted env startErr \<and>
      mapResetAfterStop unzip env (sc_state c) = Some (Inl e, s2))"
  shows "\<exists>c1. CheckMapReset unzip e1 c = Some c1 \<and> sc_dates c1 = sc_dates c \<and> rs_saves (sc_state c1) = rs_saves (sc_state c) \<and>
    rs_choice (sc_state c1) = rs_choice (sc_state c) \<and> rs_seed (sc_state c1) = rs_seed (sc_state c) \<and>
    (\<forall>e2. until_reset (ck_now e2) (sc_dates c) < 0 \<and> - maxResetWindow \<le> until_reset (ck_now e2) (sc_dates c) \<longrightarrow>
      (ck_retry_now e2 < ck_failed_now e1 + minute_ns \<longrightarrow> CheckMapReset unzip e2 c1 = Some c1) \<and>
      (ck_failed_now e1 + minute_ns \<le> ck_retry_now e2 \<longrightarrow> (\<forall>s2. Map_reset unzip (ck_attempt e2) (sc_state c1) = Some (None, s2) \<longrightarrow>
        (\<exists>c2. CheckMapReset unzip e2 c1 = Some c2 \<and> rs_saves (sc_state c2) = rs_saves s2))))"
proof -
  from assms(5) obtain err s' where m: "Map_reset unzip (ck_attempt e1) (sc_state c) = Some (Some err, s')"
    "rs_dates s' = rs_dates (sc_state c)" "rs_saves s' = rs_saves (sc_state c)" "rs_seed s' = rs_seed (sc_state c)"
    "rs_choice s' = rs_choice (sc_state c)" by (rule Map_reset_failed_keeps)
  let ?c1 = "c\<lparr>sc_state := s', sc_retry_for := rd_next (sc_dates c), sc_retry_at := ck_failed_now e1 + minute_ns\<rparr>"
  have run: "CheckMapReset unzip e1 c = Some ?c1"
    by (rule CheckMapReset_attempt(1) [OF assms(1-4) m(1)])
  have same: "sc_dates ?c1 = sc_dates c" using m(2) by simp
  have time: "HasResetTime (sc_dates ?c1)" using assms(1) same by simp
  have next_check: "CheckMapReset unzip e2 ?c1 = Some ?c1" if "until_reset (ck_now e2) (sc_dates c) < 0"
    "- maxResetWindow \<le> until_reset (ck_now e2) (sc_dates c)" "ck_retry_now e2 < ck_failed_now e1 + minute_ns" for e2
    using CheckMapReset_due [OF time, of e2 unzip] that same by (simp add: Let_def)
  have again: "\<exists>c2. CheckMapReset unzip e2 ?c1 = Some c2 \<and> rs_saves (sc_state c2) = rs_saves s2"
    if "until_reset (ck_now e2) (sc_dates c) < 0" "- maxResetWindow \<le> until_reset (ck_now e2) (sc_dates c)"
      "ck_failed_now e1 + minute_ns \<le> ck_retry_now e2" "Map_reset unzip (ck_attempt e2) s' = Some (None, s2)" for e2 s2
    using CheckMapReset_attempt(2) [OF time, of e2 unzip s2] that same by (simp add: Let_def)
  show ?thesis by (rule exI [of _ ?c1]) (use run same m next_check again in auto)
qed

text \<open>
  C31.  A reset planned for one date happens once: when its map was generated, the date is cleared even if
  the server then failed to start, and no later check does anything.
\<close>

theorem one_time_reset_happens_once:
  assumes "HasResetTime (sc_dates c)" and "\<not> HasResetInterval (sc_dates c)" and "until_reset (ck_now e) (sc_dates c) < 0"
    and "- maxResetWindow \<le> until_reset (ck_now e) (sc_dates c)"
    and "rd_next (sc_dates c) = sc_retry_for c \<Longrightarrow> sc_retry_at c \<le> ck_retry_now e"
    and "ck_attempt e = Attempted env startErr" and "mapResetAfterStop unzip env (sc_state c) = Some (Inr name, s')"
    and "rd_next (sc_dates c) \<le> ge_end (re_gen env)"
  shows "\<exists>c1. CheckMapReset unzip e c = Some c1 \<and> rs_saves (sc_state c1) = rs_saves s' \<and> \<not> HasResetTime (sc_dates c1) \<and>
    (\<forall>e2. CheckMapReset unzip e2 c1 = Some c1)"
proof -
  have dates: "rs_dates s' = (rs_dates (sc_state c))\<lparr>rd_next := zero_time\<rparr>"
    using reset_commits_dates [OF assms(7)] assms(1,2,8) by (simp add: SetResetDate_def Let_def)
  have m: "Map_reset unzip (ck_attempt e) (sc_state c) = Some (startErr, s')" using assms(6,7) by (simp add: Map_reset_def)
  have never: "\<not> HasResetTime ((rs_dates (sc_state c))\<lparr>rd_next := zero_time\<rparr>)" by (simp add: HasResetTime_def unix_def)
  note attempt = CheckMapReset_attempt [OF assms(1,3-5)]
  have set_date: "rd_next (sc_dates c) \<noteq> zero_time" using assms(1) by (auto simp: HasResetTime_def unix_def)
  obtain c1 where c1: "CheckMapReset unzip e c = Some c1" "rs_saves (sc_state c1) = rs_saves s'"
    "sc_dates c1 = (rs_dates (sc_state c))\<lparr>rd_next := zero_time\<rparr>"
  proof (cases startErr)
    case None
    with attempt(2) [of unzip s'] m dates set_date show ?thesis by (auto simp: Let_def intro!: that)
  next
    case (Some err)
    with attempt(1) [of unzip err s'] m dates show ?thesis by (auto intro!: that)
  qed
  have "CheckMapReset unzip e2 c1 = Some c1" for e2 using never c1(3) by (simp add: CheckMapReset_def)
  with c1 never show ?thesis by auto
qed

text \<open>
  A reset hour earlier in the day than now together with a shorter interval puts the next reset into
  the past, so the map that was just generated is reset again by the next check: with a reset hour the
  interval does not count from the last reset.
\<close>

theorem reset_hour_repeats:
  assumes "mapResetAfterStop unzip env s = Some (Inr name, s')"
    and "HasResetInterval (rs_dates s)" and "interval_ok (rd_interval (rs_dates s))"
    and "reset_base (rd_hour (rs_dates s)) (ge_set (re_gen env)) + span_max (rd_interval (rs_dates s)) + 2 * second_ns \<le> ge_set (re_gen env)"
    and "sc_state c = s'" and "sc_retry_for c = zero_time" and "ge_set (re_gen env) \<le> ck_now e"
    and "- maxResetWindow \<le> until_reset (ck_now e) (rs_dates s')" and "HasResetTime (rs_dates s')"
    and "Map_reset unzip (ck_attempt e) s' = Some (None, s2)"
  shows "rd_next (rs_dates s') < ge_set (re_gen env) \<and> (\<exists>c2. CheckMapReset unzip e c = Some c2 \<and> rs_saves (sc_state c2) = rs_saves s2)"
proof -
  let ?now = "ge_set (re_gen env)" and ?d = "rs_dates s"
  have dates: "rs_dates s' = SetResetDate ?now ?d"
    using reset_commits_dates [OF assms(1)] assms(2) HasResetInterval_same [of "SetResetDate ?now ?d" ?d] by (simp add: Let_def)
  have "2 * rd_next (rs_dates s') \<le> 2 * (reset_base (rd_hour ?d) ?now + span_max (rd_interval ?d)) + second_ns"
    using add_interval_bounds(2) [OF assms(3)] assms(2) by (simp add: dates SetResetDate_def)
  with assms(4) have past: "2 * rd_next (rs_dates s') + 3 * second_ns \<le> 2 * ?now" by simp
  have "until_reset (ck_now e) (rs_dates s') < 0"
    using until_reset_near(1) [of "ck_now e" "rs_dates s'"] past assms(7) by linarith
  moreover have "rd_next (rs_dates s') \<noteq> zero_time" using assms(9) by (auto simp: HasResetTime_def unix_def)
  ultimately show ?thesis
    using CheckMapReset_attempt(2) [of c e unzip s2] assms(5,6,8,9,10) past by (simp add: Let_def)
qed

section \<open>Examples\<close>

definition half_past :: gotime where "half_past = eight_oclock + 30 * minute_ns"

lemma due_check:
  assumes "second_ns \<le> t" "t \<le> 2 * hour_ns"
  shows "until_reset (eight_oclock + t) (d\<lparr>rd_next := eight_oclock - second_ns\<rparr>) < 0"
    "- maxResetWindow \<le> until_reset (eight_oclock + t) (d\<lparr>rd_next := eight_oclock - second_ns\<rparr>)"
  using assms until_reset_near(2) [of "d\<lparr>rd_next := eight_oclock - second_ns\<rparr>" "eight_oclock + t"]
    until_reset_near(1) [of "eight_oclock + t" "d\<lparr>rd_next := eight_oclock - second_ns\<rparr>"]
  by (simp_all add: maxResetWindow_def)

lemma due_time: "HasResetTime (d\<lparr>rd_next := eight_oclock - second_ns\<rparr>)"
  by (simp add: HasResetTime_def unix_def eight_oclock_def)

definition due_dates :: reset_dates where
  "due_dates = \<lparr>rd_interval = no_interval, rd_next = 0, rd_hour = 0\<rparr>\<lparr>rd_next := eight_oclock - second_ns\<rparr>"

lemma due_sched:
  "second_ns \<le> t \<Longrightarrow> t \<le> 2 * hour_ns \<Longrightarrow> until_reset (eight_oclock + t) due_dates < 0"
  "second_ns \<le> t \<Longrightarrow> t \<le> 2 * hour_ns \<Longrightarrow> - maxResetWindow \<le> until_reset (eight_oclock + t) due_dates"
  "HasResetTime due_dates" "rd_next due_dates \<noteq> 0" "\<not> HasResetInterval due_dates"
  unfolding due_dates_def
  by (erule (1) due_check, erule (1) due_check, rule due_time)
    (simp_all add: eight_oclock_def HasResetInterval_def no_interval_def)

theorem failed_reset_backs_off_witness:
  "\<exists>c1. CheckMapReset demo_unzip (demo_check (eight_oclock + second_ns) (Refused ''stopping'')) (demo_sched due_dates) = Some c1 \<and>
     sc_dates c1 = due_dates \<and>
     CheckMapReset demo_unzip (demo_check (eight_oclock + 2 * second_ns) (Refused ''stopping'')) c1 = Some c1"
proof -
  have e1: "until_reset (ck_now (demo_check (eight_oclock + second_ns) (Refused ''stopping''))) (sc_dates (demo_sched due_dates)) < 0"
    "- maxResetWindow \<le> until_reset (ck_now (demo_check (eight_oclock + second_ns) (Refused ''stopping''))) (sc_dates (demo_sched due_dates))"
    using due_sched(1,2) [of second_ns] by simp_all
  have e2: "until_reset (ck_now (demo_check (eight_oclock + 2 * second_ns) (Refused ''stopping''))) (sc_dates (demo_sched due_dates)) < 0"
    "- maxResetWindow \<le> until_reset (ck_now (demo_check (eight_oclock + 2 * second_ns) (Refused ''stopping''))) (sc_dates (demo_sched due_dates))"
    using due_sched(1,2) [of "2 * second_ns"] by simp_all
  obtain c1 where c1: "CheckMapReset demo_unzip (demo_check (eight_oclock + second_ns) (Refused ''stopping'')) (demo_sched due_dates) = Some c1"
    "sc_dates c1 = due_dates"
    "\<forall>e2. until_reset (ck_now e2) (sc_dates (demo_sched due_dates)) < 0 \<and> - maxResetWindow \<le> until_reset (ck_now e2) (sc_dates (demo_sched due_dates)) \<longrightarrow>
      ck_retry_now e2 < eight_oclock + second_ns + minute_ns \<longrightarrow> CheckMapReset demo_unzip e2 c1 = Some c1"
    using failed_reset_backs_off [OF _ e1, of "''stopping''" demo_unzip] due_sched(3,4) by auto
  show ?thesis by (rule exI [of _ c1]) (use c1 e2 in simp)
qed

definition demo_env_at :: "gotime \<Rightarrow> reset_env" where
  "demo_env_at t = (demo_reset_env None)\<lparr>re_gen := (demo_gen_env None)\<lparr>ge_set := t, ge_end := t\<rparr>\<rparr>"

definition plain_state :: "reset_state \<Rightarrow> bool" where
  "plain_state s \<longleftrightarrow> rs_generator s = [] \<and> rs_preset s = ''island'' \<and> rs_files s = []"

lemma demo_env_at_works:
  assumes "plain_state s"
  shows "\<exists>name s'. mapResetAfterStop demo_unzip (demo_env_at t) s = Some (Inr name, s') \<and> plain_state s'"
  using assms unfolding plain_state_def
  by (simp add: mapResetAfterStop_def demo_reset_env_def demo_env_at_def demo_gen_env_def GenNewMap_def demo_settings
      create_map_def no_settings_def Let_def demo_check save_at_def gm_get_Cons commit_map_def)

lemma demo_sched_plain: "plain_state (sc_state (demo_sched d))"
  by (simp add: plain_state_def demo_sched_def demo_state_def)

theorem one_time_reset_happens_once_witness:
  "\<exists>c1. CheckMapReset demo_unzip (demo_check (eight_oclock + second_ns) (Attempted (demo_env_at eight_oclock) (Some ''port in use'')))
      (demo_sched due_dates) = Some c1 \<and> \<not> HasResetTime (sc_dates c1)"
proof -
  obtain name s' where run: "mapResetAfterStop demo_unzip (demo_env_at eight_oclock) (sc_state (demo_sched due_dates)) = Some (Inr name, s')"
    using demo_env_at_works [OF demo_sched_plain] by blast
  have "rd_next due_dates \<le> ge_end (re_gen (demo_env_at eight_oclock))" by (simp add: due_dates_def demo_env_at_def)
  with one_time_reset_happens_once [of "demo_sched due_dates"
      "demo_check (eight_oclock + second_ns) (Attempted (demo_env_at eight_oclock) (Some ''port in use''))", OF _ _ _ _ _ _ run]
    due_sched(1,2) [of second_ns] due_sched(3-5) show ?thesis by auto
qed

lemma demo_past:
  "reset_base 5 eight_oclock = eight_oclock - 3 * hour_ns"
  by (simp add: reset_base_hour) (simp add: eight_oclock_def)

theorem reset_hour_repeats_witness:
  "\<exists>name s' s2 c2. mapResetAfterStop demo_unzip (demo_env_at eight_oclock) (sc_state (demo_sched (hours_only 1 5))) = Some (Inr name, s') \<and>
     rd_next (rs_dates s') < eight_oclock \<and>
     Map_reset demo_unzip (Attempted (demo_env_at (eight_oclock + second_ns)) None) s' = Some (None, s2) \<and>
     CheckMapReset demo_unzip (demo_check (eight_oclock + second_ns) (Attempted (demo_env_at (eight_oclock + second_ns)) None))
       \<lparr>sc_state = s', sc_retry_at = 0, sc_retry_for = 0, sc_warned = [], sc_skipped = 0\<rparr> = Some c2 \<and> rs_saves (sc_state c2) = rs_saves s2"
proof -
  let ?s = "sc_state (demo_sched (hours_only 1 5))"
  obtain name s' where run: "mapResetAfterStop demo_unzip (demo_env_at eight_oclock) ?s = Some (Inr name, s')" "plain_state s'"
    using demo_env_at_works [OF demo_sched_plain] by blast
  obtain name2 s2 where run2: "mapResetAfterStop demo_unzip (demo_env_at (eight_oclock + second_ns)) s' = Some (Inr name2, s2)"
    using demo_env_at_works [OF run(2)] by blast
  then have map2: "Map_reset demo_unzip (Attempted (demo_env_at (eight_oclock + second_ns)) None) s' = Some (None, s2)"
    by (simp add: Map_reset_def)
  have set_at: "ge_set (re_gen (demo_env_at eight_oclock)) = eight_oclock" by (simp add: demo_env_at_def)
  have dates: "rs_dates s' = SetResetDate eight_oclock (hours_only 1 5)"
    using reset_commits_dates [OF run(1)] set_at by (simp add: HasResetInterval_same [of "SetResetDate _ _" "hours_only 1 5"] Let_def)
  have next_reset: "rd_next (rs_dates s') = add_interval (no_interval\<lparr>ri_hours := 1\<rparr>) (eight_oclock - 3 * hour_ns)"
    unfolding dates by (simp add: SetResetDate_def demo_past)
  have near: "2 * (eight_oclock - 2 * hour_ns) - second_ns < 2 * rd_next (rs_dates s')"
    using add_interval_bounds(1) [OF hours_only_ok(5) [of 1], of "eight_oclock - 3 * hour_ns"] unfolding next_reset by simp
  have future: "- maxResetWindow \<le> until_reset (eight_oclock + second_ns) (rs_dates s')"
    using until_reset_near(2) [of "rs_dates s'" "eight_oclock + second_ns"] near by (simp add: maxResetWindow_def)
  have "second_ns * 62135596801 \<le> rd_next (rs_dates s')" using near by (simp add: eight_oclock_def)
  then have "62135596801 \<le> rd_next (rs_dates s') div second_ns" by simp
  then have time: "HasResetTime (rs_dates s')" by (simp add: HasResetTime_def unix_def)
  let ?c = "\<lparr>sc_state = s', sc_retry_at = 0, sc_retry_for = 0, sc_warned = [], sc_skipped = 0\<rparr>"
  let ?e = "demo_check (eight_oclock + second_ns) (Attempted (demo_env_at (eight_oclock + second_ns)) None)"
  have ok: "HasResetInterval (rs_dates ?s)" "interval_ok (rd_interval (rs_dates ?s))" by simp_all
  show ?thesis
    using reset_hour_repeats [OF run(1) ok, of ?c ?e s2] future time map2 set_at run(1) by (auto simp: demo_past)
qed

end
