(* ===== verification/Control_Jobs.thy ===== *)
theory Control_Jobs
  imports CW_Prelude "HOL-Library.List_Lexorder"
begin

text \<open>
  The operations of the web control and their idempotency records (webcontrol/jobs.go): a request with an
  idempotency key becomes a job that is stored before it runs, so a lost response can be asked for again
  and a restarted process does not run it a second time.  \<open>digest\<close> is \<open>Digest\<close>, SHA-256 in hexadecimal.
  Tokens come from the random source and are arguments.  The directory of jobs maps file names without
  \<open>.json\<close> to jobs; writing one can fail before the file is renamed into place or after it (when the
  directory cannot be synced).
\<close>

section \<open>Jobs\<close>

record actor =
  ac_id :: string
  ac_name :: string
  ac_admin :: bool

text \<open>The result of a job is its JSON text, \<open>None\<close> for none.\<close>

record job =
  jb_id :: string
  jb_server :: string
  jb_actor :: actor
  jb_action :: string
  jb_state :: string
  jb_phase :: string
  jb_created :: gotime
  jb_updated :: gotime
  jb_result :: "string option"
  jb_error :: string
  jb_key :: string
  jb_hash :: string

type_synonym job_dir = "(string, job) gomap"

text \<open>\<open>js_pending\<close> lists the jobs whose outcome could not be written, \<open>js_busy\<close> is the job that runs.\<close>

record jobs =
  js_items :: "(string, job) gomap"
  js_keys :: "(string, string) gomap"
  js_busy :: string
  js_pending :: "string list"
  js_dir :: job_dir

datatype save_fault = SaveOk | NotWritten | NotSynced

definition save_job :: "save_fault \<Rightarrow> job \<Rightarrow> jobs \<Rightarrow> bool \<times> jobs" where
  "save_job fault v j =
     (case fault of
        SaveOk \<Rightarrow> (True, j\<lparr>js_dir := gm_put (js_dir j) (jb_id v) v\<rparr>)
      | NotWritten \<Rightarrow> (False, j)
      | NotSynced \<Rightarrow> (False, j\<lparr>js_dir := gm_put (js_dir j) (jb_id v) v\<rparr>))"

definition ValidID :: "string \<Rightarrow> bool" where
  "ValidID s \<longleftrightarrow> \<not> (s = [] \<or> 80 < length s) \<and> list_all is_token_char s"

definition job_key :: "(string \<Rightarrow> string) \<Rightarrow> actor \<Rightarrow> string \<Rightarrow> string \<Rightarrow> string" where
  "job_key digest a server key = digest (ac_id a @ [CHR 0x00] @ server @ [CHR 0x00] @ key)"

definition job_hash :: "(string \<Rightarrow> string) \<Rightarrow> string \<Rightarrow> string \<Rightarrow> string" where
  "job_hash digest action payload = digest (action @ [CHR 0x00] @ payload)"

section \<open>Starting a job\<close>

datatype job_response = JobError nat string | JobOk nat job

text \<open>
  Writing the outcomes that failed before; \<open>faults\<close> is asked for the job.  A pending job is always among
  the items, so the case of a missing one is not reached, here and in \<open>finish\<close>.
\<close>

fun repair_pending :: "(string \<Rightarrow> save_fault) \<Rightarrow> string list \<Rightarrow> jobs \<Rightarrow> bool \<times> jobs" where
  "repair_pending faults [] j = (True, j)"
| "repair_pending faults (i # ids) j =
     (case gm_get (js_items j) i of
        None \<Rightarrow> (False, j)
      | Some v \<Rightarrow>
          (case save_job (faults i) v j of
             (False, j) \<Rightarrow> (False, j)
           | (True, j) \<Rightarrow> repair_pending faults ids (j\<lparr>js_pending := removeAll i (js_pending j)\<rparr>)))"

definition new_job :: "string \<Rightarrow> gotime \<Rightarrow> string \<Rightarrow> actor \<Rightarrow> string \<Rightarrow> string \<Rightarrow> string \<Rightarrow> job" where
  "new_job token now server a action k h =
     \<lparr>jb_id = ''job_'' @ token, jb_server = server, jb_actor = a, jb_action = action, jb_state = ''queued'', jb_phase = ''accepted'',
      jb_created = now, jb_updated = now, jb_result = None, jb_error = [], jb_key = k, jb_hash = h\<rparr>"

text \<open>The environment of one call: the digest, the faults of repairs and of the new job, the token and the clock.\<close>

record start_env =
  se_digest :: "string \<Rightarrow> string"
  se_repair :: "string \<Rightarrow> save_fault"
  se_fault :: save_fault
  se_token :: string
  se_now :: gotime

definition Start :: "start_env \<Rightarrow> string \<Rightarrow> actor \<Rightarrow> string \<Rightarrow> string \<Rightarrow> string \<Rightarrow> jobs \<Rightarrow> job_response \<times> jobs" where
  "Start env server a action key payload j =
     (let k = job_key (se_digest env) a server key; h = job_hash (se_digest env) action payload in
      case gm_get (js_keys j) k of
        Some i \<Rightarrow>
          (case gm_get (js_items j) i of
             None \<Rightarrow> (JobError 409 ''idempotency key already used for a different request'', j)
           | Some v \<Rightarrow>
               if jb_hash v \<noteq> h then (JobError 409 ''idempotency key already used for a different request'', j)
               else (JobOk 200 v, j))
      | None \<Rightarrow>
          if js_busy j \<noteq> [] then (JobError 409 ''another control operation is active'', j)
          else
            (case repair_pending (se_repair env) (js_pending j) j of
               (False, j) \<Rightarrow> (JobError 503 ''operation storage unavailable'', j)
             | (True, j) \<Rightarrow>
                 (let v = new_job (se_token env) (se_now env) server a action k h in
                  case save_job (se_fault env) v j of
                    (False, j) \<Rightarrow> (JobError 500 ''cannot persist operation'', j)
                  | (True, j) \<Rightarrow>
                      (JobOk 202 v,
                       j\<lparr>js_items := gm_put (js_items j) (jb_id v) v, js_keys := gm_put (js_keys j) k (jb_id v), js_busy := jb_id v\<rparr>))))"

definition Lookup :: "(string \<Rightarrow> string) \<Rightarrow> string \<Rightarrow> actor \<Rightarrow> string \<Rightarrow> string \<Rightarrow> string \<Rightarrow> jobs \<Rightarrow> (string + job) option" where
  "Lookup digest server a action key payload j =
     (case gm_get (js_keys j) (job_key digest a server key) of
        None \<Rightarrow> None
      | Some i \<Rightarrow>
          Some (case gm_get (js_items j) i of
              None \<Rightarrow> Inl ''idempotency key already used for a different request''
            | Some v \<Rightarrow>
                if jb_hash v \<noteq> job_hash digest action payload then Inl ''idempotency key already used for a different request''
                else Inr v))"

definition Get :: "string \<Rightarrow> jobs \<Rightarrow> job option" where
  "Get i j = gm_get (js_items j) i"

text \<open>The jobs newest first, the first hundred; \<open>order\<close> is the sorted list.\<close>

definition List_jobs :: "job list \<Rightarrow> job list" where
  "List_jobs order = take 100 order"

section \<open>The worker\<close>

definition set_outcome :: "string \<Rightarrow> string \<Rightarrow> string option \<Rightarrow> string \<Rightarrow> gotime \<Rightarrow> job \<Rightarrow> job" where
  "set_outcome state phase result msg now v =
     v\<lparr>jb_state := state, jb_phase := phase, jb_result := result, jb_error := msg, jb_updated := now\<rparr>"

definition Update :: "save_fault \<Rightarrow> gotime \<Rightarrow> string \<Rightarrow> string \<Rightarrow> string \<Rightarrow> string option \<Rightarrow> string \<Rightarrow> jobs \<Rightarrow> bool \<times> jobs" where
  "Update fault now i state phase result msg j =
     (case gm_get (js_items j) i of
        None \<Rightarrow> (False, j)
      | Some v \<Rightarrow>
          (let v = set_outcome state phase result msg now v in
           case save_job fault v j of
             (False, j) \<Rightarrow> (False, j)
           | (True, j) \<Rightarrow> (True, j\<lparr>js_items := gm_put (js_items j) i v\<rparr>)))"

definition finish :: "save_fault \<Rightarrow> gotime \<Rightarrow> string \<Rightarrow> string \<Rightarrow> string \<Rightarrow> string option \<Rightarrow> string \<Rightarrow> jobs \<Rightarrow> jobs" where
  "finish fault now i state phase result msg j =
     (case gm_get (js_items j) i of
        None \<Rightarrow> j
      | Some v \<Rightarrow>
          (let v = set_outcome state phase result msg now v in
           case save_job fault v j of
             (True, j) \<Rightarrow> j\<lparr>js_items := gm_put (js_items j) i v\<rparr>
           | (False, j) \<Rightarrow>
               (let v = v\<lparr>jb_state := (if phase \<noteq> ''storage_error'' then ''unknown'' else jb_state v), jb_phase := ''storage_error'',
                      jb_result := None,
                      jb_error := (if phase = ''storage_error'' then msg
                                   else ''Unable to persist operation outcome; inspect instance logs before retrying.'')\<rparr>
                in j\<lparr>js_items := gm_put (js_items j) i v, js_pending := List.insert i (js_pending j)\<rparr>)))"

text \<open>What the operation gave: a result, an error, an error with unknown outcome, or a panic.\<close>

datatype run_outcome = Returned "string option" | Failed string "string option" | OutcomeUnknown string "string option" | Panicked

definition finish_outcome :: "save_fault \<Rightarrow> gotime \<Rightarrow> string \<Rightarrow> run_outcome \<Rightarrow> jobs \<Rightarrow> jobs" where
  "finish_outcome fault now i out j =
     (case out of
        Returned result \<Rightarrow> finish fault now i ''succeeded'' ''complete'' result [] j
      | Failed e result \<Rightarrow> finish fault now i ''failed'' ''complete'' result e j
      | OutcomeUnknown e result \<Rightarrow> finish fault now i ''unknown'' ''complete'' result e j
      | Panicked \<Rightarrow> finish fault now i ''unknown'' ''interrupted'' None
          ''Operation interrupted; inspect instance logs before retrying.'' j)"

definition release :: "string \<Rightarrow> jobs \<Rightarrow> jobs" where
  "release i j = (if js_busy j = i then j\<lparr>js_busy := []\<rparr> else j)"

section \<open>A new process\<close>

text \<open>One stored job as it is read at the start: what it becomes, and whether it is written again.\<close>

definition recover_job :: "gotime \<Rightarrow> job \<Rightarrow> job \<times> bool" where
  "recover_job now v =
     (if jb_state v = ''queued'' \<or> jb_state v = ''running'' \<or> jb_state v = ''waiting_for_empty''
      then (v\<lparr>jb_state := ''unknown'', jb_error := ''Instance restarted; operation was not replayed.'', jb_updated := now\<rparr>, True)
      else if jb_state v = ''waiting_for_restart'' \<and> jb_action v = ''chatwire-restart''
      then (v\<lparr>jb_state := ''succeeded'', jb_phase := ''reconnected'', jb_updated := now,
              jb_result := Some ''{status: new ChatWire process started}''\<rparr>, True)
      else (v, False))"

text \<open>\<open>None\<close> when the process does not start; what was written until then stays.\<close>

fun load_jobs :: "gotime \<Rightarrow> (string \<Rightarrow> save_fault) \<Rightarrow> job list \<Rightarrow> jobs \<Rightarrow> bool \<times> jobs" where
  "load_jobs now faults [] j = (True, j)"
| "load_jobs now faults (v # vs) j =
     (if \<not> ValidID (jb_id v) then (False, j)
      else
        (let (v, changed) = recover_job now v;
             (ok, j) = (if changed then save_job (faults (jb_id v)) v j else (True, j))
         in if \<not> ok then (False, j)
            else load_jobs now faults vs
              (j\<lparr>js_items := gm_put (js_items j) (jb_id v) v, js_keys := gm_put (js_keys j) (jb_key v) (jb_id v)\<rparr>)))"

definition NewJobs :: "gotime \<Rightarrow> (string \<Rightarrow> save_fault) \<Rightarrow> job_dir \<Rightarrow> bool \<times> jobs" where
  "NewJobs now faults dir =
     load_jobs now faults (map snd dir) \<lparr>js_items = [], js_keys = [], js_busy = [], js_pending = [], js_dir = dir\<rparr>"

section \<open>The system\<close>

text \<open>
  The process with its worker, and what outlives it: the directory, the keys of the operations that began
  to run (\<open>sy_ran\<close>) and the jobs that were accepted with status 202 (\<open>sy_accepted\<close>).
\<close>

datatype worker = Idle | Begins string | Runs string | Ends string | Down

record job_sys =
  sy_jobs :: jobs
  sy_worker :: worker
  sy_ran :: "string list"
  sy_accepted :: "string list"

definition item_key :: "jobs \<Rightarrow> string \<Rightarrow> string" where
  "item_key j i = (case gm_get (js_items j) i of None \<Rightarrow> [] | Some v \<Rightarrow> jb_key v)"

definition empty_sys :: job_sys where
  "empty_sys = \<lparr>sy_jobs = \<lparr>js_items = [], js_keys = [], js_busy = [], js_pending = [], js_dir = []\<rparr>, sy_worker = Idle, sy_ran = [],
     sy_accepted = []\<rparr>"

text \<open>The token of a new job is fresh and no identifier is empty; every step may happen whenever its rule allows it.\<close>

definition fresh_token :: "string \<Rightarrow> jobs \<Rightarrow> bool" where
  "fresh_token token j \<longleftrightarrow> gm_get (js_items j) (''job_'' @ token) = None \<and> gm_get (js_dir j) (''job_'' @ token) = None"

definition accept :: "job_response \<times> jobs \<Rightarrow> job_sys \<Rightarrow> job_sys" where
  "accept r s = (case r of
     (JobOk n v, j) \<Rightarrow> if n = 202 then s\<lparr>sy_jobs := j, sy_worker := Begins (jb_id v), sy_accepted := jb_id v # sy_accepted s\<rparr>
                       else s\<lparr>sy_jobs := j\<rparr>
   | (JobError n e, j) \<Rightarrow> s\<lparr>sy_jobs := j\<rparr>)"

inductive job_step :: "job_sys \<Rightarrow> job_sys \<Rightarrow> bool" where
  request: "sy_worker s \<noteq> Down \<Longrightarrow> fresh_token (se_token env) (sy_jobs s) \<Longrightarrow>
    s' = accept (Start env server a action key payload (sy_jobs s)) s \<Longrightarrow> job_step s s'"
| begins: "sy_worker s = Begins i \<Longrightarrow> Update fault now i ''running'' ''executing'' None [] (sy_jobs s) = (True, j) \<Longrightarrow>
    job_step s (s\<lparr>sy_jobs := j, sy_worker := Runs i, sy_ran := item_key j i # sy_ran s\<rparr>)"
| not_begun: "sy_worker s = Begins i \<Longrightarrow> Update fault now i ''running'' ''executing'' None [] (sy_jobs s) = (False, j) \<Longrightarrow>
    job_step s (s\<lparr>sy_jobs := finish fault2 now2 i ''failed'' ''storage_error'' None
      ''Operation was not executed because its start could not be persisted.'' j, sy_worker := Ends i\<rparr>)"
| progress: "sy_worker s = Runs i \<Longrightarrow> job_step s (s\<lparr>sy_jobs := snd (Update fault now i state phase result msg (sy_jobs s))\<rparr>)"
| ends: "sy_worker s = Runs i \<Longrightarrow> job_step s (s\<lparr>sy_jobs := finish_outcome fault now i out (sy_jobs s), sy_worker := Ends i\<rparr>)"
| released: "sy_worker s = Ends i \<Longrightarrow> job_step s (s\<lparr>sy_jobs := release i (sy_jobs s), sy_worker := Idle\<rparr>)"
| restart: "NewJobs now faults (js_dir (sy_jobs s)) = (ok, j) \<Longrightarrow>
    job_step s (s\<lparr>sy_jobs := j, sy_worker := (if ok then Idle else Down)\<rparr>)"
| crash: "job_step s (s\<lparr>sy_jobs := \<lparr>js_items = [], js_keys = [], js_busy = [], js_pending = [], js_dir = js_dir (sy_jobs s)\<rparr>,
    sy_worker := Down\<rparr>)"

end
