(* ===== verification/Control_Files.thy ===== *)
theory Control_Files
  imports Saves Go_Base64 Go_Time Mod_Install Lifecycle
begin

text \<open>
  The files the web control handles (controlruntime/files.go): identifiers of saves and their listing page
  by page, staged uploads, their validation and activation, and the archive of a save.  The staging folder
  maps paths to contents.  Zip archives, JSON documents and the random tokens are arguments, as are the
  outcomes of the file system, of the lifecycle manager and of the mod synchronisation.
\<close>

section \<open>Saves\<close>

definition saveID :: "string \<Rightarrow> string" where
  "saveID name = rawurl_EncodeToString (bytes_of name)"

definition saveName :: "string \<Rightarrow> string + string" where
  "saveName i =
     (case rawurl_DecodeString i of
        None \<Rightarrow> Inl ''invalid save ID''
      | Some b \<Rightarrow>
          (let name = str_of b in
           if name = [] \<or> filepath_Base name \<noteq> name \<or> CHR ''/'' \<in> set name \<or> CHR 0x5C \<in> set name \<or> CHR 0x00 \<in> set name \<or>
              \<not> has_suffix name ''.zip''
           then Inl ''invalid save ID'' else Inr name))"

definition openSave :: "saves \<Rightarrow> string \<Rightarrow> save_file option" where
  "openSave saves name =
     (case gm_get saves name of None \<Rightarrow> None | Some f \<Rightarrow> if sf_dir f then None else Some f)"

text \<open>
  One page of the listing: the entries in the order of \<open>os.ReadDir\<close>, by name; \<open>info\<close> says whether an entry can
  still be looked at.
\<close>

fun list_saves :: "(string \<Rightarrow> bool) \<Rightarrow> string \<Rightarrow> saves \<Rightarrow> string list \<Rightarrow> string list" where
  "list_saves info cursor [] out = out"
| "list_saves info cursor (f # fs) out =
     (if fst f \<le> cursor \<or> sf_dir (snd f) \<or> \<not> has_suffix (fst f) ''.zip'' then list_saves info cursor fs out
      else
        (let out = (if info (fst f) then out @ [fst f] else out) in
         if 100 \<le> length out then out else list_saves info cursor fs out))"

definition save_page :: "(string \<Rightarrow> bool) \<Rightarrow> saves \<Rightarrow> string \<Rightarrow> string list \<times> string" where
  "save_page info entries cursor =
     (let out = list_saves info cursor entries [] in (out, if length out = 100 then last out else []))"

section \<open>Uploads\<close>

record staged_upload =
  up_id :: string
  up_kind :: string
  up_name :: string
  up_size :: nat
  up_expires :: gotime
  up_actor :: string
  up_path :: string

type_synonym staged = "(string, byte list) gomap"

record staging =
  st_uploads :: "(string, staged_upload) gomap"
  st_files :: staged

record upload_entry = zip_entry +
  ue_symlink :: bool

record upload_libs =
  ul_zip :: "byte list \<Rightarrow> upload_entry list option"
  ul_mod_list :: "byte list \<Rightarrow> mod_data list option"

definition maxUpload :: nat where "maxUpload = 512 * 1024 * 1024"

definition kind_limit :: "string \<Rightarrow> nat option" where
  "kind_limit kind =
     (if kind = ''mod-list'' then Some (1024 * 1024) else if kind = ''mod-settings'' then Some (16 * 1024 * 1024)
      else if kind = ''save'' then Some maxUpload else None)"

definition validModName :: "string \<Rightarrow> bool" where
  "validModName name \<longleftrightarrow> \<not> (name = [] \<or> 200 < length name) \<and> list_all is_token_char name"

definition safe_entry :: "string \<Rightarrow> bool" where
  "safe_entry n \<longleftrightarrow> \<not> (CHR 0x5C \<in> set n \<or> has_prefix n ''/'' \<or> path_Clean n = ''..'' \<or> has_prefix (path_Clean n) ''../'')"

definition eight_gib :: uint64 where "eight_gib = 8 * 1024 * 1024 * 1024"
definition four_gib :: uint64 where "four_gib = 4 * 1024 * 1024 * 1024"

text \<open>The loop over the entries, with the sum so far and whether a level was seen; the error or that flag.\<close>

fun check_entries :: "uint64 \<Rightarrow> bool \<Rightarrow> upload_entry list \<Rightarrow> string + bool" where
  "check_entries acc level [] = Inr level"
| "check_entries acc level (e # es) =
     (if \<not> safe_entry (ze_name e) \<or> ue_symlink e then Inl ''unsafe archive entry''
      else
        (let acc = acc + ze_size e in
         if eight_gib < acc \<or> four_gib < ze_size e then Inl ''archive expands beyond allowed size''
         else check_entries acc (level \<or> has_suffix (ze_name e) ''/level.dat'' \<or> has_suffix (ze_name e) ''/level.dat0'') es))"

definition le16 :: "byte list \<Rightarrow> nat \<Rightarrow> nat" where
  "le16 b i = le_get (take 2 (drop i b))"

text \<open>The error, if any.\<close>

definition validateUpload :: "upload_libs \<Rightarrow> byte list option \<Rightarrow> string \<Rightarrow> string option" where
  "validateUpload libs content kind =
     (if kind = ''save'' then
        (case Option.bind content (ul_zip libs) of
           None \<Rightarrow> Some ''save must be a valid ZIP archive''
         | Some es \<Rightarrow>
             if 20000 < length es then Some ''too many archive entries''
             else case check_entries 0 False es of
                 Inl e \<Rightarrow> Some e
               | Inr False \<Rightarrow> Some ''archive does not contain a Factorio level''
               | Inr True \<Rightarrow>
                   if zip_bomb 0 (map zip_entry.truncate es) then Some ''archive exceeds compression safety limits'' else None)
      else case content of
          None \<Rightarrow> Some ''cannot validate upload''
        | Some b \<Rightarrow>
            if kind = ''mod-list'' then
              (case ul_mod_list libs b of
                 None \<Rightarrow> Some ''invalid mod-list.json''
               | Some mods \<Rightarrow>
                   if mods = [] \<or> 1000 < length mods then Some ''invalid mod-list.json''
                   else if \<not> list_all (\<lambda>m. validModName (md_name m)) mods then Some ''invalid mod name'' else None)
            else if length b < 8 \<or> le16 b 6 \<noteq> 0 \<or> le16 b 0 = 0 \<and> le16 b 2 < 12 then Some ''invalid mod-settings.dat header''
            else None)"

text \<open>An answer to a request: an error with its code, or what was asked for.\<close>

datatype 'a answer = Refuse nat string | Give nat 'a

text \<open>
  The parts of a multipart request: field, file name, contents and whether reading it failed, and whether
  another part follows.
\<close>

record upload_form =
  uf_field :: string
  uf_file :: string
  uf_content :: "byte list"
  uf_broken :: bool
  uf_more :: bool

record upload_env =
  ue_now :: gotime
  ue_actor :: string
  ue_temp :: "string option"
  ue_token :: string
  ue_sync :: bool

definition expire_uploads :: "gotime \<Rightarrow> staging \<Rightarrow> staging" where
  "expire_uploads now s =
     (let gone = map (\<lambda>(i, u). up_path u) (filter (\<lambda>(i, u). up_expires u < now) (st_uploads s))
      in s\<lparr>st_uploads := gm_prune (\<lambda>_ u. up_expires u < now) (st_uploads s),
           st_files := gm_prune (\<lambda>p _. p \<in> set gone) (st_files s)\<rparr>)"

text \<open>\<open>None\<close> for a request without a first part.\<close>

definition upload :: "upload_libs \<Rightarrow> upload_env \<Rightarrow> upload_form option \<Rightarrow> staging \<Rightarrow> staged_upload answer \<times> staging" where
  "upload libs env form s =
     (case form of
        None \<Rightarrow> (Refuse 400 ''invalid_upload'', s)
      | Some form \<Rightarrow>
          (case kind_limit (uf_field form) of
             None \<Rightarrow> (Refuse 422 ''invalid_upload'', s)
           | Some limit \<Rightarrow>
               (let s = expire_uploads (ue_now env) s in
                if 20 \<le> length (st_uploads s) then (Refuse 429 ''upload_quota'', s)
                else case ue_temp env of
                    None \<Rightarrow> (Refuse 500 ''storage_error'', s)
                  | Some path \<Rightarrow>
                      (let content = take (limit + 1) (uf_content form); size = length content in
                       if uf_broken form \<or> limit < size then (Refuse 413 ''upload_too_large'', s)
                       else if uf_more form then (Refuse 400 ''invalid_upload'', s)
                       else if \<not> ue_sync env then (Refuse 500 ''storage_error'', s)
                       else case validateUpload libs (Some content) (uf_field form) of
                           Some e \<Rightarrow> (Refuse 422 e, s)
                         | None \<Rightarrow>
                             (let u = \<lparr>up_id = ''upload_'' @ ue_token env, up_kind = uf_field form, up_name = filepath_Base (uf_file form),
                                    up_size = size, up_expires = ue_now env + hour_ns, up_actor = ue_actor env, up_path = path\<rparr>
                              in (Give 201 u, s\<lparr>st_uploads := gm_put (st_uploads s) (up_id u) u,
                                    st_files := gm_put (st_files s) path content\<rparr>))))))"

definition delete_upload :: "string \<Rightarrow> string \<Rightarrow> staging \<Rightarrow> unit answer \<times> staging" where
  "delete_upload actor i s =
     (case gm_get (st_uploads s) i of
        None \<Rightarrow> (Refuse 404 ''not_found'', s)
      | Some u \<Rightarrow>
          if up_actor u \<noteq> actor then (Refuse 404 ''not_found'', s)
          else (Give 200 (), s\<lparr>st_uploads := gm_del (st_uploads s) (up_id u), st_files := gm_del (st_files s) (up_path u)\<rparr>))"

section \<open>Activation\<close>

record game_files =
  gf_saves :: saves
  gf_mods :: staged

text \<open>What the server was asked to do, and the switch that starts the game when it is down.\<close>

record control_state =
  cs_staging :: staging
  cs_game :: game_files
  cs_autolaunch :: bool
  cs_requests :: "request list"

record apply_env =
  ae_now :: gotime
  ae_actor :: string
  ae_stop :: "string option"
  ae_lock :: "string option"
  ae_token :: string
  ae_copy :: "string \<Rightarrow> string option"
  ae_sync :: bool
  ae_start_err :: "string option"
  ae_ready :: "string option"

definition plain_request :: "action_kind \<Rightarrow> string \<Rightarrow> string \<Rightarrow> request" where
  "plain_request k save reason = \<lparr>r_kind = k, r_reason = reason, r_save_name = save, r_force_exit = False, r_id = [],
     r_when_empty = False, r_wait = True, r_snapshot = []\<rparr>"

fun pick_uploads :: "upload_libs \<Rightarrow> apply_env \<Rightarrow> string list \<Rightarrow> staging \<Rightarrow> staged_upload list \<Rightarrow> string + staged_upload list" where
  "pick_uploads libs env [] s picked = Inr picked"
| "pick_uploads libs env (i # ids) s picked =
     (case gm_get (st_uploads s) i of
        None \<Rightarrow> Inl ''Missing, expired, or duplicate upload.''
      | Some u \<Rightarrow>
          if up_actor u \<noteq> ae_actor env \<or> up_expires u < ae_now env \<or> up_kind u \<in> set (map up_kind picked)
          then Inl ''Missing, expired, or duplicate upload.''
          else case validateUpload libs (gm_get (st_files s) (up_path u)) (up_kind u) of
              Some e \<Rightarrow> Inl e
            | None \<Rightarrow> pick_uploads libs env ids s (picked @ [u]))"

text \<open>\<open>copyAtomic\<close> onto its destination; \<open>save\<close> is the name of the new save.\<close>

definition activate :: "apply_env \<Rightarrow> staging \<Rightarrow> staged_upload \<Rightarrow> game_files \<Rightarrow> game_files option" where
  "activate env s u g =
     (case gm_get (st_files s) (up_path u) of
        None \<Rightarrow> None
      | Some data \<Rightarrow>
          if ae_copy env (up_path u) \<noteq> None then None
          else if up_kind u = ''save''
          then Some (g\<lparr>gf_saves := gm_put (gf_saves g) (''upload-'' @ ae_token env @ ''.zip'')
                        \<lparr>sf_data = data, sf_mtime = ae_now env, sf_dir = False\<rparr>\<rparr>)
          else Some (g\<lparr>gf_mods := gm_put (gf_mods g)
                        (if up_kind u = ''mod-list'' then ''mod-list.json'' else ''mod-settings.dat'') data\<rparr>))"

fun activate_all :: "apply_env \<Rightarrow> staging \<Rightarrow> staged_upload list \<Rightarrow> game_files \<Rightarrow> bool \<times> game_files" where
  "activate_all env s [] g = (True, g)"
| "activate_all env s (u # us) g =
     (case activate env s u g of None \<Rightarrow> (False, g) | Some g \<Rightarrow> activate_all env s us g)"

definition new_save :: "apply_env \<Rightarrow> staged_upload list \<Rightarrow> string" where
  "new_save env us = (if ''save'' \<in> set (map up_kind us) then ''upload-'' @ ae_token env @ ''.zip'' else [])"

definition remove_uploads :: "staged_upload list \<Rightarrow> staging \<Rightarrow> staging" where
  "remove_uploads us s =
     (let ids = map up_id us; paths = map up_path us
      in s\<lparr>st_uploads := gm_prune (\<lambda>i _. i \<in> set ids) (st_uploads s), st_files := gm_prune (\<lambda>p _. p \<in> set paths) (st_files s)\<rparr>)"

definition trim_zip :: "string \<Rightarrow> string" where
  "trim_zip s = (if has_suffix s ''.zip'' then take (length s - 4) s else s)"

definition applyUploads :: "upload_libs \<Rightarrow> apply_env \<Rightarrow> string list \<Rightarrow> bool \<Rightarrow> control_state \<Rightarrow> (string + string) \<times> control_state" where
  "applyUploads libs env ids start c =
     (if ids = [] \<or> 3 < length ids then (Inl ''Supply one to three staged uploads.'', c)
      else case pick_uploads libs env ids (cs_staging c) [] of
          Inl e \<Rightarrow> (Inl e, c)
        | Inr us \<Rightarrow>
            (let c = c\<lparr>cs_autolaunch := False, cs_requests := cs_requests c @ [plain_request ActionStop [] ''Applying moderator upload'']\<rparr> in
             if ae_stop env \<noteq> None then (Inl ''Could not stop Factorio; files were not activated.'', c)
             else if ae_lock env \<noteq> None then (Inl ''Shared game files are busy.'', c)
             else case activate_all env (cs_staging c) us (cs_game c) of
                 (False, g) \<Rightarrow>
                   (Inl ''File activation failed; Factorio remains stopped. Some earlier files may have been applied.'', c\<lparr>cs_game := g\<rparr>)
               | (True, g) \<Rightarrow>
                   (let c = c\<lparr>cs_game := g\<rparr>; save = new_save env us in
                    if save \<noteq> [] \<and> \<not> ae_sync env then (Inl ''Save staged but mod sync failed; Factorio remains stopped.'', c)
                    else if \<not> start then (Inr (saveID save), c\<lparr>cs_staging := remove_uploads us (cs_staging c)\<rparr>)
                    else
                      (let req = plain_request (if save \<noteq> [] then ActionChangeMap else ActionStart) (trim_zip save) ''Loading moderator upload'';
                           c = c\<lparr>cs_requests := cs_requests c @ [req]\<rparr>
                       in if ae_start_err env \<noteq> None then (Inl ''Files applied but Factorio failed to start.'', c)
                          else case ae_ready env of
                              Some e \<Rightarrow> (Inl e, c)
                            | None \<Rightarrow>
                                (Inr (saveID save), c\<lparr>cs_autolaunch := True, cs_staging := remove_uploads us (cs_staging c)\<rparr>)))))"

section \<open>The archive of a save\<close>

record save_archive_env =
  sa_now :: gotime
  sa_folder :: string
  sa_mkdir :: bool
  sa_copy :: "string option"

definition two_digits :: "int \<Rightarrow> string" where
  "two_digits n = (if n < 10 then ''0'' else []) @ itoa (nat n)"

definition four_digits :: "int \<Rightarrow> string" where
  "four_digits n = (if n < 10 then ''000'' else if n < 100 then ''00'' else if n < 1000 then ''0'' else []) @ itoa (nat n)"

definition time_stamp :: "gotime \<Rightarrow> string" where
  "time_stamp t =
     (let (y, m, d) = civil (t div day_ns); s = t mod day_ns div second_ns
      in four_digits y @ two_digits m @ two_digits d @ ''T'' @ two_digits (s div 3600) @ two_digits (s div 60 mod 60) @ two_digits (s mod 60))"

definition archiveSave :: "save_archive_env \<Rightarrow> string \<Rightarrow> saves \<Rightarrow> staged \<Rightarrow> (string + string) \<times> staged" where
  "archiveSave env i saves archives =
     (case saveName i of
        Inl e \<Rightarrow> (Inl e, archives)
      | Inr name \<Rightarrow>
          (case openSave saves name of
             None \<Rightarrow> (Inl ''Save not found.'', archives)
           | Some f \<Rightarrow>
               if \<not> sa_mkdir env then (Inl ''Archive directory unavailable.'', archives)
               else
                 (let dst = filepath_Join (filepath_Join (sa_folder env) ''web'') (time_stamp (sa_now env) @ ''-'' @ name) in
                  if sa_copy env \<noteq> None then (Inl ''Archive failed.'', archives)
                  else (Inr (filepath_Base dst), gm_put archives dst (sf_data f)))))"

end
