(* ===== verification/Control_Actions.thy ===== *)
theory Control_Actions
  imports Control_Jobs Control_Files Mod_Builtin
begin

text \<open>
  The actions of the web control (controlruntime/server.go, controlruntime/actions.go): a moderator first
  previews an action and gets a confirmation token, then asks for the action with that token and an
  idempotency key.  \<open>digest\<close> is SHA-256, \<open>marshal\<close> the JSON encoding of the parameters and \<open>revision\<close> the
  digest of the state of the server; a body that is no valid JSON is \<open>None\<close>.
\<close>

section \<open>Requests\<close>

record params =
  pa_reason :: string
  pa_when_empty :: bool
  pa_force :: bool
  pa_save_id :: string
  pa_exchange_string :: string
  pa_command :: string
  pa_operation :: string
  pa_mods :: "string list"
  pa_version :: string
  pa_player :: string
  pa_level :: int
  pa_ip :: string
  pa_upload_ids :: "string list"
  pa_start :: bool
  pa_token :: string

record preview =
  pv_actor :: string
  pv_action :: string
  pv_hash :: string
  pv_revision :: string
  pv_expires :: gotime

record runtime =
  rt_jobs :: jobs
  rt_previews :: "(string, preview) gomap"
  rt_server :: string
  rt_primary :: bool

definition control_actions :: "bool \<Rightarrow> string list" where
  "control_actions primary =
     [''factorio-start'', ''factorio-stop'', ''factorio-restart'', ''chatwire-restart'', ''config-reload'', ''map-create'', ''map-reset'',
      ''map-load'', ''map-exchange'', ''map-archive'', ''mods-update'', ''mods-sync'', ''mods-edit'', ''mods-clear'', ''mods-clear-history'',
      ''factorio-update'', ''factorio-install'', ''rcon'', ''upload-apply''] @
     (if primary then [''player-level'', ''ip-ban'', ''ip-unban''] else [])"

definition known_action :: "runtime \<Rightarrow> string \<Rightarrow> bool" where
  "known_action rt action \<longleftrightarrow> action \<in> set (control_actions (rt_primary rt))"

text \<open>The player in the path wins when the body names none; \<open>None\<close> when they differ.\<close>

definition with_target :: "string \<Rightarrow> params \<Rightarrow> params option" where
  "with_target target p =
     (if target = [] then Some p
      else if pa_player p \<noteq> [] \<and> pa_player p \<noteq> target then None else Some (p\<lparr>pa_player := target\<rparr>))"

record action_env =
  an_digest :: "string \<Rightarrow> string"
  an_marshal :: "params \<Rightarrow> string"
  an_now :: gotime
  an_token :: string
  an_revision :: string
  an_start :: start_env

datatype control_reply = ControlError nat string | Confirmation string | JobReply nat job

definition previewAction :: "action_env \<Rightarrow> actor \<Rightarrow> string \<Rightarrow> string \<Rightarrow> params option \<Rightarrow> runtime \<Rightarrow> control_reply \<times> runtime" where
  "previewAction env a action target body rt =
     (if \<not> known_action rt action then (ControlError 404 ''not_found'', rt)
      else case body of
          None \<Rightarrow> (ControlError 400 ''invalid_request'', rt)
        | Some p \<Rightarrow>
            (case with_target target p of
               None \<Rightarrow> (ControlError 422 ''target_mismatch'', rt)
             | Some p \<Rightarrow>
                 (let b = an_marshal env (p\<lparr>pa_token := []\<rparr>);
                      previews = gm_prune (\<lambda>_ v. pv_expires v < an_now env) (rt_previews rt)
                  in if 1000 < length previews then (ControlError 429 ''rate_limited'', rt\<lparr>rt_previews := previews\<rparr>)
                     else (Confirmation (an_token env),
                       rt\<lparr>rt_previews := gm_put previews (an_digest env (an_token env))
                         \<lparr>pv_actor = ac_id a, pv_action = action, pv_hash = an_digest env b, pv_revision = an_revision env,
                          pv_expires = an_now env + 2 * minute_ns\<rparr>\<rparr>))))"

definition do_action :: "action_env \<Rightarrow> actor \<Rightarrow> string \<Rightarrow> string \<Rightarrow> string \<Rightarrow> params option \<Rightarrow> runtime \<Rightarrow> control_reply \<times> runtime" where
  "do_action env a action key target body rt =
     (if \<not> known_action rt action then (ControlError 404 ''not_found'', rt)
      else if \<not> ValidID key then (ControlError 428 ''idempotency_required'', rt)
      else case body of
          None \<Rightarrow> (ControlError 400 ''invalid_request'', rt)
        | Some p \<Rightarrow>
            (let token = pa_token p in
             case with_target target p of
               None \<Rightarrow> (ControlError 422 ''target_mismatch'', rt)
             | Some p \<Rightarrow>
                 (let b = an_marshal env (p\<lparr>pa_token := []\<rparr>) in
                  case Lookup (an_digest env) (rt_server rt) a action key b (rt_jobs rt) of
                    Some (Inl e) \<Rightarrow> (ControlError 409 ''idempotency_conflict'', rt)
                  | Some (Inr j) \<Rightarrow> (JobReply 200 j, rt)
                  | None \<Rightarrow>
                      (case gm_get (rt_previews rt) (an_digest env token) of
                         None \<Rightarrow> (ControlError 409 ''confirmation_required'', rt)
                       | Some pv \<Rightarrow>
                           if pv_actor pv \<noteq> ac_id a \<or> pv_action pv \<noteq> action \<or> pv_hash pv \<noteq> an_digest env b \<or> pv_expires pv < an_now env
                           then (ControlError 409 ''confirmation_required'', rt)
                           else if pv_revision pv \<noteq> an_revision env then (ControlError 409 ''state_changed'', rt)
                           else
                             (case Start ((an_start env)\<lparr>se_digest := an_digest env\<rparr>) (rt_server rt) a action key b (rt_jobs rt) of
                                (JobError status e, j) \<Rightarrow> (ControlError status e, rt\<lparr>rt_jobs := j\<rparr>)
                              | (JobOk status v, j) \<Rightarrow>
                                  (JobReply status v, rt\<lparr>rt_jobs := j, rt_previews := gm_del (rt_previews rt) (an_digest env token)\<rparr>))))))"

section \<open>Lifecycle actions\<close>

definition lifecycle_kind :: "string \<Rightarrow> action_kind option" where
  "lifecycle_kind action =
     (if action = ''factorio-start'' then Some ActionStart else if action = ''factorio-stop'' then Some ActionStop
      else if action = ''factorio-restart'' then Some ActionRestartFactorio else if action = ''chatwire-restart'' then Some ActionRestartChatWire
      else if action = ''map-load'' then Some ActionChangeMap else if action = ''map-reset'' then Some ActionMapReset else None)"

definition WithinHours :: "bool \<Rightarrow> int \<Rightarrow> int \<Rightarrow> gotime \<Rightarrow> bool" where
  "WithinHours enable startHour endHour now =
     (if enable then
        (let curTime = time_Hour now in
         if startHour > endHour then (if curTime \<ge> startHour \<or> curTime < endHour then True else False)
         else if curTime \<ge> startHour \<and> curTime < endHour then True else False)
      else True)"

text \<open>
  The outcome of the lifecycle manager and of the wait for the game are arguments, as is whether the time
  is within the play hours.  The updates of the job on the way are steps of \<open>job_step\<close>.
\<close>

record execute_env =
  xe_hours :: bool
  xe_saves :: saves
  xe_submit :: "string option"
  xe_ready :: "string option"

definition lifecycle_request :: "execute_env \<Rightarrow> string \<Rightarrow> action_kind \<Rightarrow> params \<Rightarrow> string + request" where
  "lifecycle_request env i k p =
     (let reason = (if pa_reason p = [] then ''Moderator web control'' else pa_reason p);
          req = \<lparr>r_kind = k, r_reason = reason, r_save_name = [], r_force_exit = pa_force p, r_id = i, r_when_empty = pa_when_empty p,
                 r_wait = True, r_snapshot = []\<rparr>
      in if pa_when_empty p \<and> k \<noteq> ActionRestartFactorio \<and> k \<noteq> ActionRestartChatWire
         then Inl ''Waiting for empty is only supported for restarts.''
         else if pa_force p \<and> k \<noteq> ActionRestartChatWire then Inl ''Force applies only to ChatWire restart.''
         else if k = ActionChangeMap then
           (case saveName (pa_save_id p) of
              Inl e \<Rightarrow> Inl e
            | Inr name \<Rightarrow> if openSave (xe_saves env) name = None then Inl ''Save not found.'' else Inr (req\<lparr>r_save_name := trim_zip name\<rparr>))
         else if (k = ActionStart \<or> k = ActionRestartFactorio) \<and> \<not> xe_hours env
         then Inl ''Current time is outside configured play hours.''
         else Inr req)"

definition execute_lifecycle :: "execute_env \<Rightarrow> string \<Rightarrow> action_kind \<Rightarrow> params \<Rightarrow> control_state \<Rightarrow> string option \<times> control_state" where
  "execute_lifecycle env i k p c =
     (if 500 < length (pa_reason p) \<or> 8192 < length (pa_command p) \<or> 512000 < length (pa_exchange_string p)
      then (Some ''Input is too long.'', c)
      else case lifecycle_request env i k p of
          Inl e \<Rightarrow> (Some e, c)
        | Inr req \<Rightarrow>
            (let c = (if k = ActionStop then c\<lparr>cs_autolaunch := False\<rparr> else c); c = c\<lparr>cs_requests := cs_requests c @ [req]\<rparr> in
             if xe_submit env \<noteq> None then (Some ''Lifecycle operation failed; inspect instance logs.'', c)
             else if k = ActionStart \<or> k = ActionRestartFactorio \<or> k = ActionChangeMap \<or> k = ActionMapReset
             then (case xe_ready env of Some e \<Rightarrow> (Some e, c) | None \<Rightarrow> (None, c\<lparr>cs_autolaunch := True\<rparr>))
             else (None, c)))"

section \<open>Editing the mod list\<close>

text \<open>
  \<open>em_list\<close> is the list that was read, \<open>None\<close> when it cannot be (a missing file gives the empty list);
  \<open>em_portal\<close> the name the mod portal answers with.
\<close>

record edit_env =
  em_stopped :: bool
  em_list :: "mod_data list option"
  em_prefs :: version_prefs
  em_portal :: "string \<Rightarrow> string option"
  em_folder :: data_folder
  em_write :: bool

fun set_mod_enabled :: "string \<Rightarrow> bool \<Rightarrow> mod_data list \<Rightarrow> mod_data list" where
  "set_mod_enabled name b [] = []"
| "set_mod_enabled name b (m # ms) = (if md_name m = name then m\<lparr>md_enabled := b\<rparr> # ms else m # set_mod_enabled name b ms)"

fun remove_mod :: "string \<Rightarrow> mod_data list \<Rightarrow> mod_data list" where
  "remove_mod name [] = []"
| "remove_mod name (m # ms) = (if md_name m = name then ms else m # remove_mod name ms)"

text \<open>One name of the request; the outer \<open>None\<close> would be a change of a built-in mod that does not return.\<close>

definition edit_mod :: "edit_env \<Rightarrow> string \<Rightarrow> string \<Rightarrow> mod_data list \<Rightarrow> (string + mod_data list) option" where
  "edit_mod env operation name mods =
     (if IsBaseMod name then
        (if operation \<noteq> ''enable'' \<and> operation \<noteq> ''disable'' then Some (Inl ''Built-in mods ship with Factorio; use enable or disable.'')
         else case SetBuiltinModEnabled (em_folder env) mods name (operation = ''enable'') of
             None \<Rightarrow> None
           | Some (Some e, _) \<Rightarrow> Some (Inl e)
           | Some (None, mods) \<Rightarrow> Some (Inr mods))
      else
        (let listed = name \<in> set (map md_name mods) in
         Some (if operation = ''add'' then
                 (if listed then Inl ''A requested mod is already listed.''
                  else if em_portal env name \<noteq> Some name then Inl ''Mod not found in Factorio portal.''
                  else Inr (mods @ [\<lparr>md_name = name, md_enabled = True\<rparr>]))
               else if operation = ''enable'' \<or> operation = ''disable'' then
                 (if \<not> listed then Inl ''Mod is not in the list.'' else Inr (set_mod_enabled name (operation = ''enable'') mods))
               else if operation = ''remove'' then
                 (if \<not> listed then Inl ''Mod is not in the list.'' else Inr (remove_mod name mods))
               else Inl ''Operation must be add, remove, enable, disable, or version.'')))"

fun edit_each :: "edit_env \<Rightarrow> string \<Rightarrow> string list \<Rightarrow> mod_data list \<Rightarrow> (string + mod_data list) option" where
  "edit_each env operation [] mods = Some (Inr mods)"
| "edit_each env operation (name # names) mods =
     (case edit_mod env operation name mods of
        None \<Rightarrow> None
      | Some (Inl e) \<Rightarrow> Some (Inl e)
      | Some (Inr mods) \<Rightarrow> edit_each env operation names mods)"

text \<open>What is written: the mod list or the preferred versions.\<close>

datatype edited = WroteMods "mod_data list" | WrotePrefs version_prefs

definition editMods :: "edit_env \<Rightarrow> params \<Rightarrow> (string + edited) option" where
  "editMods env p =
     (if \<not> em_stopped env then Some (Inl ''Stop Factorio before editing mods.'')
      else if pa_mods p = [] \<or> 100 < length (pa_mods p) then Some (Inl ''Supply 1-100 mod names.'')
      else if \<not> list_all validModName (pa_mods p) then Some (Inl ''Use mod names, without URLs or path separators.'')
      else case em_list env of
          None \<Rightarrow> Some (Inl ''Cannot read mod list.'')
        | Some mods \<Rightarrow>
            if pa_operation p = ''version'' then
              (if length (pa_mods p) \<noteq> 1 then Some (Inl ''Set one mod version at a time.'')
               else if IsBaseMod (hd (pa_mods p)) then Some (Inl ''Built-in versions follow the Factorio installation and cannot be pinned.'')
               else if \<not> em_write env then Some (Inl ''Invalid mod version preference.'')
               else Some (Inr (WrotePrefs (SetVersion (hd (pa_mods p)) (pa_version p) (em_prefs env)))))
            else
              (case edit_each env (pa_operation p) (pa_mods p) mods of
                 None \<Rightarrow> None
               | Some (Inl e) \<Rightarrow> Some (Inl e)
               | Some (Inr mods) \<Rightarrow>
                   (case ValidateBuiltinModDependencies (em_folder env) mods of
                      Some e \<Rightarrow> Some (Inl e)
                    | None \<Rightarrow> Some (if em_write env then Inr (WroteMods mods) else Inl ''Unable to write mod list.''))))"

end
