(* ===== verification/Control_Jobs_Properties.thy ===== *)
theory Control_Jobs_Properties
  imports Control_Jobs
begin

text \<open>
  What the idempotency records promise: whatever is lost, whatever cannot be written and however often the
  process restarts, an operation runs at most once for its key, one operation runs at a time, an accepted
  job stays on disk, and after a restart no job is reported as still running.
\<close>

section \<open>The store\<close>

text \<open>Everything a directory held is still there with the same key.\<close>

definition keeps :: "job_dir \<Rightarrow> job_dir \<Rightarrow> bool" where
  "keeps D D' \<longleftrightarrow> (\<forall>i w. gm_get D i = Some w \<longrightarrow> (\<exists>w'. gm_get D' i = Some w' \<and> jb_key w' = jb_key w))"

lemma keeps_refl [simp]: "keeps D D"
  by (simp add: keeps_def)

lemma keeps_trans: "keeps A B \<Longrightarrow> keeps B C \<Longrightarrow> keeps A C"
  unfolding keeps_def by metis

text \<open>The directory is well formed; every item is in it under its own name and key; the keys name items.\<close>

definition dir_ok :: "job_dir \<Rightarrow> bool" where
  "dir_ok D \<longleftrightarrow> gm_ok D \<and> (\<forall>i w. gm_get D i = Some w \<longrightarrow> jb_id w = i)"

definition stored :: "job \<Rightarrow> job_dir \<Rightarrow> bool" where
  "stored v D \<longleftrightarrow> (\<exists>w. gm_get D (jb_id v) = Some w \<and> jb_key w = jb_key v)"

definition store_ok :: "jobs \<Rightarrow> bool" where
  "store_ok j \<longleftrightarrow> dir_ok (js_dir j) \<and>
     (\<forall>i v. gm_get (js_items j) i = Some v \<longrightarrow> jb_id v = i \<and> stored v (js_dir j)) \<and>
     (\<forall>k i. gm_get (js_keys j) k = Some i \<longrightarrow> (\<exists>v. gm_get (js_items j) i = Some v \<and> jb_key v = k))"

lemma keeps_put: "stored v D \<Longrightarrow> keeps D (gm_put D (jb_id v) v)"
  by (auto simp: keeps_def stored_def)

lemma keeps_new: "gm_get D (jb_id v) = None \<Longrightarrow> keeps D (gm_put D (jb_id v) v)"
  by (auto simp: keeps_def)

lemma stored_keeps: "stored v D \<Longrightarrow> keeps D D' \<Longrightarrow> stored v D'"
  unfolding stored_def keeps_def by metis

lemma stored_same: "jb_id v' = jb_id v \<Longrightarrow> jb_key v' = jb_key v \<Longrightarrow> stored v' D = stored v D"
  by (simp add: stored_def)

lemma dir_ok_put: "dir_ok D \<Longrightarrow> dir_ok (gm_put D (jb_id v) v)"
  by (simp add: dir_ok_def)

lemma save_job_cases:
  assumes "save_job fault v j = (b, j')"
  shows "\<exists>D. j' = j\<lparr>js_dir := D\<rparr> \<and> (D = js_dir j \<and> \<not> b \<or> D = gm_put (js_dir j) (jb_id v) v)"
  using assms by (cases fault) (auto simp: save_job_def intro: exI [of _ "js_dir j"])

lemma save_stored:
  assumes "save_job fault v j = (b, j')" "store_ok j" "stored v (js_dir j)"
  shows "store_ok j'" "keeps (js_dir j) (js_dir j')" "js_items j' = js_items j" "js_keys j' = js_keys j" "js_busy j' = js_busy j"
    "js_pending j' = js_pending j"
proof -
  obtain D where D: "j' = j\<lparr>js_dir := D\<rparr>" "D = js_dir j \<or> D = gm_put (js_dir j) (jb_id v) v"
    using save_job_cases [OF assms(1)] by blast
  have k: "keeps (js_dir j) D" using D(2) keeps_put [OF assms(3)] by auto
  have "dir_ok D" using D(2) assms(2) dir_ok_put by (auto simp: store_ok_def)
  with assms(2) k show "store_ok j'" unfolding store_ok_def D(1) by (auto intro: stored_keeps [OF _ k])
  show "keeps (js_dir j) (js_dir j')" "js_items j' = js_items j" "js_keys j' = js_keys j" "js_busy j' = js_busy j"
    "js_pending j' = js_pending j"
    using k D(1) by simp_all
qed

text \<open>Replacing an item by one of the same key.\<close>

lemma put_item_ok:
  assumes "store_ok j" "gm_get (js_items j) i = Some v" "jb_id v' = jb_id v" "jb_key v' = jb_key v"
  shows "store_ok (j\<lparr>js_items := gm_put (js_items j) i v'\<rparr>)"
proof -
  have "jb_id v = i" "stored v (js_dir j)" using assms(1,2) by (auto simp: store_ok_def)
  then have "jb_id v' = i" "stored v' (js_dir j)" using assms(3,4) stored_same by auto
  with assms(1,2,4) show ?thesis unfolding store_ok_def
    by (auto split: if_splits) (metis option.inject)
qed

lemma set_outcome_simps [simp]: "jb_id (set_outcome st ph r m t v) = jb_id v" "jb_key (set_outcome st ph r m t v) = jb_key v"
  "jb_state (set_outcome st ph r m t v) = st"
  by (simp_all add: set_outcome_def)

text \<open>What \<open>Update\<close>, \<open>finish\<close> and \<open>release\<close> leave unchanged.\<close>

definition same_jobs :: "jobs \<Rightarrow> jobs \<Rightarrow> bool" where
  "same_jobs j j' \<longleftrightarrow> store_ok j' \<and> keeps (js_dir j) (js_dir j') \<and> js_keys j' = js_keys j \<and>
     (\<forall>i. map_option jb_key (gm_get (js_items j') i) = map_option jb_key (gm_get (js_items j) i))"

lemma same_jobs_refl: "store_ok j \<Longrightarrow> same_jobs j j"
  by (simp add: same_jobs_def)

lemma same_jobs_trans: "same_jobs a b \<Longrightarrow> same_jobs b c \<Longrightarrow> same_jobs a c"
  unfolding same_jobs_def using keeps_trans by auto

lemma Update_same:
  assumes "Update fault now i state phase result msg j = (b, j')" "store_ok j"
  shows "same_jobs j j'" "js_busy j' = js_busy j" "b \<Longrightarrow> \<exists>v. gm_get (js_items j') i = Some v"
proof -
  have "same_jobs j j' \<and> js_busy j' = js_busy j \<and> (b \<longrightarrow> (\<exists>v. gm_get (js_items j') i = Some v))"
  proof (cases "gm_get (js_items j) i")
    case None
    with assms show ?thesis by (simp add: Update_def same_jobs_def)
  next
    case (Some v)
    let ?v = "set_outcome state phase result msg now v"
    obtain b1 j1 where s: "save_job fault ?v j = (b1, j1)" by fastforce
    have st: "stored ?v (js_dir j)" using assms(2) Some stored_same [of ?v v] by (simp add: store_ok_def)
    note f = save_stored [OF s assms(2) st]
    have j': "j' = (if b1 then j1\<lparr>js_items := gm_put (js_items j1) i ?v\<rparr> else j1)" "b = b1"
      using assms(1) Some s by (auto simp: Update_def Let_def split: bool.splits)
    have "store_ok (j1\<lparr>js_items := gm_put (js_items j1) i ?v\<rparr>)"
      by (rule put_item_ok [OF f(1)]) (use Some f(3) in simp_all)
    with f j' Some show ?thesis by (auto simp: same_jobs_def)
  qed
  then show "same_jobs j j'" "js_busy j' = js_busy j" "b \<Longrightarrow> \<exists>v. gm_get (js_items j') i = Some v" by blast+
qed

lemma finish_same:
  assumes "store_ok j"
  shows "same_jobs j (finish fault now i state phase result msg j)" "js_busy (finish fault now i state phase result msg j) = js_busy j"
proof -
  have "same_jobs j (finish fault now i state phase result msg j) \<and> js_busy (finish fault now i state phase result msg j) = js_busy j"
  proof (cases "gm_get (js_items j) i")
    case None
    with assms show ?thesis by (simp add: finish_def same_jobs_def)
  next
    case (Some v)
    let ?v = "set_outcome state phase result msg now v"
    obtain b1 j1 where s: "save_job fault ?v j = (b1, j1)" by fastforce
    have st: "stored ?v (js_dir j)" using assms Some stored_same [of ?v v] by (simp add: store_ok_def)
    note f = save_stored [OF s assms st]
    have "\<exists>v' p. finish fault now i state phase result msg j = j1\<lparr>js_items := gm_put (js_items j1) i v', js_pending := p\<rparr> \<and>
        jb_id v' = jb_id v \<and> jb_key v' = jb_key v"
    proof (cases b1)
      case True
      with Some s have "finish fault now i state phase result msg j = j1\<lparr>js_items := gm_put (js_items j1) i ?v, js_pending := js_pending j1\<rparr>"
        by (simp add: finish_def Let_def)
      then show ?thesis by (intro exI [of _ ?v] exI [of _ "js_pending j1"]) simp
    next
      case False
      let ?u = "?v\<lparr>jb_state := (if phase \<noteq> ''storage_error'' then ''unknown'' else jb_state ?v), jb_phase := ''storage_error'',
                      jb_result := None, jb_error := (if phase = ''storage_error'' then msg
                        else ''Unable to persist operation outcome; inspect instance logs before retrying.'')\<rparr>"
      from False Some s have "finish fault now i state phase result msg j =
          j1\<lparr>js_items := gm_put (js_items j1) i ?u, js_pending := List.insert i (js_pending j1)\<rparr>"
        by (simp add: finish_def Let_def)
      moreover have "jb_id ?u = jb_id v" "jb_key ?u = jb_key v" by simp_all
      ultimately show ?thesis by blast
    qed
    then obtain v' p where fin: "finish fault now i state phase result msg j = j1\<lparr>js_items := gm_put (js_items j1) i v', js_pending := p\<rparr>"
      "jb_id v' = jb_id v" "jb_key v' = jb_key v" by blast
    have "store_ok (j1\<lparr>js_items := gm_put (js_items j1) i v'\<rparr>)"
      by (rule put_item_ok [OF f(1)]) (use Some f(3) fin(2,3) in simp_all)
    then have "store_ok (j1\<lparr>js_items := gm_put (js_items j1) i v', js_pending := p\<rparr>)" by (simp add: store_ok_def)
    with f Some show ?thesis unfolding fin(1) by (simp add: same_jobs_def fin(3))
  qed
  then show "same_jobs j (finish fault now i state phase result msg j)" "js_busy (finish fault now i state phase result msg j) = js_busy j"
    by blast+
qed

lemma finish_outcome_same:
  assumes "store_ok j"
  shows "same_jobs j (finish_outcome fault now i out j)" "js_busy (finish_outcome fault now i out j) = js_busy j"
  using finish_same [OF assms] by (cases out; simp add: finish_outcome_def)+

lemma repair_same:
  "repair_pending faults ids j = (b, j') \<Longrightarrow> store_ok j \<Longrightarrow>
    store_ok j' \<and> keeps (js_dir j) (js_dir j') \<and> js_items j' = js_items j \<and> js_keys j' = js_keys j \<and> js_busy j' = js_busy j \<and>
    (\<forall>i. gm_get (js_dir j) i = None \<longrightarrow> gm_get (js_dir j') i = None)"
proof (induction ids arbitrary: j)
  case (Cons i ids)
  show ?case
  proof (cases "gm_get (js_items j) i")
    case None
    with Cons.prems show ?thesis by simp
  next
    case (Some v)
    obtain b1 j1 where s: "save_job (faults i) v j = (b1, j1)" by fastforce
    have st: "stored v (js_dir j)" using Cons.prems(2) Some by (simp add: store_ok_def)
    note f = save_stored [OF s Cons.prems(2) st]
    have absent: "\<forall>i. gm_get (js_dir j) i = None \<longrightarrow> gm_get (js_dir j1) i = None"
      using save_job_cases [OF s] st by (auto simp: stored_def)
    show ?thesis
    proof (cases b1)
      case True
      let ?j = "j1\<lparr>js_pending := removeAll i (js_pending j1)\<rparr>"
      have "repair_pending faults ids ?j = (b, j')" using Cons.prems(1) Some s True by simp
      moreover have "store_ok ?j" using f(1) by (simp add: store_ok_def)
      ultimately have "store_ok j' \<and> keeps (js_dir ?j) (js_dir j') \<and> js_items j' = js_items ?j \<and> js_keys j' = js_keys ?j \<and>
          js_busy j' = js_busy ?j \<and> (\<forall>i. gm_get (js_dir ?j) i = None \<longrightarrow> gm_get (js_dir j') i = None)" by (rule Cons.IH)
      with f absent show ?thesis using keeps_trans by auto
    next
      case False
      with Cons.prems(1) Some s have "j' = j1" by simp
      with f absent show ?thesis by simp
    qed
  qed
qed simp

text \<open>A new job.\<close>

lemma add_item_ok:
  assumes "store_ok j" "stored v (js_dir j)"
  shows "store_ok (j\<lparr>js_items := gm_put (js_items j) (jb_id v) v, js_keys := gm_put (js_keys j) (jb_key v) (jb_id v)\<rparr>)"
proof -
  have "jb_key u = jb_key v" if u: "gm_get (js_items j) (jb_id v) = Some u" for u
  proof -
    have "jb_id u = jb_id v" "stored u (js_dir j)" using assms(1) u by (auto simp: store_ok_def)
    with assms(2) show ?thesis by (auto simp: stored_def)
  qed
  with assms show ?thesis by (fastforce simp: store_ok_def)
qed

lemma new_job_simps [simp]: "jb_id (new_job token now server a action k h) = ''job_'' @ token" "jb_key (new_job token now server a action k h) = k"
  "jb_hash (new_job token now server a action k h) = h"
  by (simp_all add: new_job_def)

text \<open>Either nothing was started, or a new job of an unused key was stored and is the busy one.\<close>

definition started :: "(string \<Rightarrow> string) \<Rightarrow> string \<Rightarrow> actor \<Rightarrow> string \<Rightarrow> string \<Rightarrow> string \<Rightarrow> job \<Rightarrow> jobs \<Rightarrow> jobs \<Rightarrow> bool" where
  "started digest server a action key payload v j j' \<longleftrightarrow>
     js_busy j = [] \<and> gm_get (js_keys j) (jb_key v) = None \<and> jb_id v \<noteq> [] \<and> jb_key v = job_key digest a server key \<and>
     jb_hash v = job_hash digest action payload \<and>
     store_ok j' \<and> keeps (js_dir j) (js_dir j') \<and> gm_get (js_dir j') (jb_id v) = Some v \<and> js_busy j' = jb_id v \<and>
     js_items j' = gm_put (js_items j) (jb_id v) v \<and> js_keys j' = gm_put (js_keys j) (jb_key v) (jb_id v)"

lemma Start_cases:
  assumes "Start env server a action key payload j = (r, j')" "store_ok j" "fresh_token (se_token env) j"
  obtains "same_jobs j j'" "js_busy j' = js_busy j" "\<And>v. r \<noteq> JobOk 202 v"
  | v where "r = JobOk 202 v" "started (se_digest env) server a action key payload v j j'"
proof -
  let ?k = "job_key (se_digest env) a server key" and ?h = "job_hash (se_digest env) action payload"
  show thesis
  proof (cases "gm_get (js_keys j) ?k = None \<and> js_busy j = []")
    case False
    then have "j' = j \<and> (\<forall>v. r \<noteq> JobOk 202 v)"
      using assms(1) by (auto simp: Start_def Let_def split: option.splits if_splits)
    with that(1) same_jobs_refl [OF assms(2)] show thesis by blast
  next
    case True
    obtain b1 j1 where rep: "repair_pending (se_repair env) (js_pending j) j = (b1, j1)" by fastforce
    note f = repair_same [OF rep assms(2)]
    show thesis
    proof (cases b1)
      case False
      with assms(1) True rep have "j' = j1 \<and> (\<forall>v. r \<noteq> JobOk 202 v)" by (auto simp: Start_def Let_def)
      with that(1) f show thesis by (auto simp: same_jobs_def)
    next
      case b1: True
      let ?v = "new_job (se_token env) (se_now env) server a action ?k ?h"
      obtain b2 j2 where s: "save_job (se_fault env) ?v j1 = (b2, j2)" by fastforce
      obtain D where D: "j2 = j1\<lparr>js_dir := D\<rparr>" "D = js_dir j1 \<and> \<not> b2 \<or> D = gm_put (js_dir j1) (jb_id ?v) ?v"
        using save_job_cases [OF s] by blast
      have new: "gm_get (js_dir j1) (jb_id ?v) = None" using assms(3) f by (simp add: fresh_token_def)
      have k: "keeps (js_dir j1) D" using D(2) keeps_new [OF new] by auto
      have "dir_ok D" using D(2) f dir_ok_put [of "js_dir j1" ?v] by (auto simp: store_ok_def)
      with f k have ok2: "store_ok j2" unfolding store_ok_def D(1) by (auto intro: stored_keeps [OF _ k])
      show thesis
      proof (cases b2)
        case False
        with assms(1) True rep b1 s have "j' = j2 \<and> (\<forall>v. r \<noteq> JobOk 202 v)" by (auto simp: Start_def Let_def)
        with that(1) f ok2 k keeps_trans D(1) show thesis by (auto simp: same_jobs_def)
      next
        case b2: True
        then have put: "D = gm_put (js_dir j1) (jb_id ?v) ?v" using D(2) by simp
        have run: "r = JobOk 202 ?v" "j' = j2\<lparr>js_items := gm_put (js_items j2) (jb_id ?v) ?v, js_keys := gm_put (js_keys j2) ?k (jb_id ?v), js_busy := jb_id ?v\<rparr>"
          using assms(1) True rep b1 s b2 by (auto simp: Start_def Let_def)
        have "stored ?v (js_dir j2)" by (simp add: stored_def D(1) put)
        from add_item_ok [OF ok2 this]
        have "store_ok (j2\<lparr>js_items := gm_put (js_items j2) (jb_id ?v) ?v, js_keys := gm_put (js_keys j2) (jb_key ?v) (jb_id ?v)\<rparr>)" .
        then have "store_ok j'" unfolding run(2) by (simp add: store_ok_def)
        moreover have "keeps (js_dir j) (js_dir j')" using f k keeps_trans by (auto simp: run(2) D(1))
        ultimately have "started (se_digest env) server a action key payload ?v j j'"
          using True f by (simp add: started_def run(2) D(1) put)
        with that(2) run(1) show thesis by blast
      qed
    qed
  qed
qed

section \<open>A new process\<close>

definition active :: "job \<Rightarrow> bool" where
  "active v \<longleftrightarrow> jb_state v \<in> {''queued'', ''running'', ''waiting_for_empty''}"

lemma recover_job_simps:
  assumes "recover_job now v = (v', changed)"
  shows "jb_id v' = jb_id v" "jb_key v' = jb_key v" "\<not> active v'" "\<not> changed \<Longrightarrow> v' = v"
  using assms by (auto simp: recover_job_def active_def split: if_splits)

lemma load_jobs_ok:
  "load_jobs now faults vs j = (ok, j') \<Longrightarrow> store_ok j \<Longrightarrow> \<forall>v \<in> set vs. stored v (js_dir j) \<Longrightarrow>
    \<forall>i v. gm_get (js_items j) i = Some v \<longrightarrow> \<not> active v \<Longrightarrow>
    store_ok j' \<and> keeps (js_dir j) (js_dir j') \<and> js_busy j' = js_busy j \<and>
    (\<forall>i v. gm_get (js_items j') i = Some v \<longrightarrow> \<not> active v) \<and>
    (ok \<longrightarrow> (\<forall>v \<in> set vs. gm_get (js_keys j') (jb_key v) \<noteq> None \<and> gm_get (js_items j') (jb_id v) \<noteq> None) \<and>
      (\<forall>k. gm_get (js_keys j) k \<noteq> None \<longrightarrow> gm_get (js_keys j') k \<noteq> None) \<and>
      (\<forall>i. gm_get (js_items j) i \<noteq> None \<longrightarrow> gm_get (js_items j') i \<noteq> None))"
proof (induction vs arbitrary: j)
  case (Cons v vs)
  show ?case
  proof (cases "ValidID (jb_id v)")
    case False
    with Cons.prems show ?thesis by auto
  next
    case valid: True
    obtain v' changed where r: "recover_job now v = (v', changed)" by fastforce
    note rs = recover_job_simps [OF r]
    obtain b j1 where s: "(if changed then save_job (faults (jb_id v')) v' j else (True, j)) = (b, j1)" by fastforce
    have st: "stored v' (js_dir j)" using Cons.prems(3) rs(1,2) stored_same [of v' v] by simp
    have f: "store_ok j1" "keeps (js_dir j) (js_dir j1)" "js_items j1 = js_items j" "js_keys j1 = js_keys j" "js_busy j1 = js_busy j"
      using s save_stored [OF _ Cons.prems(2) st, of "faults (jb_id v')" b j1] Cons.prems(2) by (auto split: if_splits)
    show ?thesis
    proof (cases b)
      case False
      with Cons.prems(1,4) valid r s f show ?thesis by auto
    next
      case True
      let ?j = "j1\<lparr>js_items := gm_put (js_items j1) (jb_id v') v', js_keys := gm_put (js_keys j1) (jb_key v') (jb_id v')\<rparr>"
      have run: "load_jobs now faults vs ?j = (ok, j')" using Cons.prems(1) valid r s True by simp
      have ok: "store_ok ?j" using add_item_ok [OF f(1) stored_keeps [OF st f(2)]] .
      have rest: "\<forall>v \<in> set vs. stored v (js_dir ?j)" using Cons.prems(3) stored_keeps [OF _ f(2)] by auto
      have idle: "\<forall>i v. gm_get (js_items ?j) i = Some v \<longrightarrow> \<not> active v" using Cons.prems(4) rs(3) f(3) by auto
      note IH = Cons.IH [OF run ok rest idle]
      have "keeps (js_dir j) (js_dir j')" using IH keeps_trans [OF f(2)] by simp
      with IH show ?thesis using f rs(1,2) by (simp add: all_conj_distrib)
    qed
  qed
qed auto

lemma NewJobs_ok:
  assumes "NewJobs now faults D = (ok, j)" "dir_ok D"
  shows "store_ok j" "keeps D (js_dir j)" "js_busy j = []" "gm_get (js_items j) i = Some v \<Longrightarrow> \<not> active v"
    "ok \<Longrightarrow> gm_get D i = Some w \<Longrightarrow> gm_get (js_keys j) (jb_key w) \<noteq> None \<and> gm_get (js_items j) i \<noteq> None"
proof -
  let ?j = "\<lparr>js_items = [], js_keys = [], js_busy = [], js_pending = [], js_dir = D\<rparr>"
  have mem: "v \<in> set (map snd D) \<Longrightarrow> gm_get D (jb_id v) = Some v" for v
    using assms(2) by (auto simp: dir_ok_def gm_get_iff)
  have "store_ok ?j" using assms(2) by (simp add: store_ok_def)
  moreover have "\<forall>v \<in> set (map snd D). stored v (js_dir ?j)" using mem by (auto simp: stored_def)
  ultimately have L: "store_ok j \<and> keeps (js_dir ?j) (js_dir j) \<and> js_busy j = js_busy ?j \<and>
    (\<forall>i v. gm_get (js_items j) i = Some v \<longrightarrow> \<not> active v) \<and>
    (ok \<longrightarrow> (\<forall>v \<in> set (map snd D). gm_get (js_keys j) (jb_key v) \<noteq> None \<and> gm_get (js_items j) (jb_id v) \<noteq> None) \<and>
      (\<forall>k. gm_get (js_keys ?j) k \<noteq> None \<longrightarrow> gm_get (js_keys j) k \<noteq> None) \<and>
      (\<forall>i. gm_get (js_items ?j) i \<noteq> None \<longrightarrow> gm_get (js_items j) i \<noteq> None))"
    by (intro load_jobs_ok [OF assms(1) [unfolded NewJobs_def]]) auto
  then show "store_ok j" "keeps D (js_dir j)" "js_busy j = []" "gm_get (js_items j) i = Some v \<Longrightarrow> \<not> active v" by auto
  show "ok \<Longrightarrow> gm_get D i = Some w \<Longrightarrow> gm_get (js_keys j) (jb_key w) \<noteq> None \<and> gm_get (js_items j) i \<noteq> None"
  proof -
    assume ok: ok and w: "gm_get D i = Some w"
    have "w \<in> set (map snd D)" using gm_get_Some_mem [OF w] by force
    moreover have "jb_id w = i" using assms(2) w by (simp add: dir_ok_def)
    ultimately show ?thesis using L ok by blast
  qed
qed

section \<open>The invariant\<close>

definition sys_inv :: "job_sys \<Rightarrow> bool" where
  "sys_inv s \<longleftrightarrow> store_ok (sy_jobs s) \<and> distinct (sy_ran s) \<and>
     (\<forall>k \<in> set (sy_ran s). (\<exists>i w. gm_get (js_dir (sy_jobs s)) i = Some w \<and> jb_key w = k) \<and>
        (sy_worker s \<noteq> Down \<longrightarrow> gm_get (js_keys (sy_jobs s)) k \<noteq> None)) \<and>
     (\<forall>i \<in> set (sy_accepted s). gm_get (js_dir (sy_jobs s)) i \<noteq> None \<and>
        (sy_worker s \<noteq> Down \<longrightarrow> gm_get (js_items (sy_jobs s)) i \<noteq> None)) \<and>
     (case sy_worker s of
        Idle \<Rightarrow> js_busy (sy_jobs s) = []
      | Begins i \<Rightarrow> js_busy (sy_jobs s) = i \<and> i \<noteq> [] \<and> (\<exists>v. gm_get (js_items (sy_jobs s)) i = Some v \<and>
          jb_key v \<notin> set (sy_ran s) \<and> gm_get (js_keys (sy_jobs s)) (jb_key v) \<noteq> None)
      | Runs i \<Rightarrow> js_busy (sy_jobs s) = i \<and> i \<noteq> []
      | Ends i \<Rightarrow> js_busy (sy_jobs s) = i \<and> i \<noteq> []
      | Down \<Rightarrow> True)"

lemma keeps_key: "keeps D D' \<Longrightarrow> \<exists>i w. gm_get D i = Some w \<and> jb_key w = k \<Longrightarrow> \<exists>i w. gm_get D' i = Some w \<and> jb_key w = k"
  unfolding keeps_def by metis

lemma keeps_some: "keeps D D' \<Longrightarrow> gm_get D i \<noteq> None \<Longrightarrow> gm_get D' i \<noteq> None"
  unfolding keeps_def by (metis not_None_eq)

lemma same_items: "same_jobs j j' \<Longrightarrow> gm_get (js_items j') i = None \<longleftrightarrow> gm_get (js_items j) i = None"
  unfolding same_jobs_def by (metis option.map_disc_iff)

text \<open>Steps that only change the state of jobs, and where the worker moves on without running anything.\<close>

lemma inv_same:
  assumes "sys_inv s" "same_jobs (sy_jobs s) j'" "sy_worker s \<noteq> Down"
    "case w of Idle \<Rightarrow> js_busy j' = [] | Begins i \<Rightarrow> sy_worker s = Begins i \<and> js_busy j' = js_busy (sy_jobs s) | Runs i \<Rightarrow> js_busy j' = i \<and> i \<noteq> [] | Ends i \<Rightarrow> js_busy j' = i \<and> i \<noteq> [] | Down \<Rightarrow> False"
  shows "sys_inv (s\<lparr>sy_jobs := j', sy_worker := w\<rparr>)"
proof -
  have k: "store_ok j'" "keeps (js_dir (sy_jobs s)) (js_dir j')" "js_keys j' = js_keys (sy_jobs s)" using assms(2) by (simp_all add: same_jobs_def)
  have "\<forall>x \<in> set (sy_ran s). (\<exists>i w. gm_get (js_dir j') i = Some w \<and> jb_key w = x) \<and> gm_get (js_keys j') x \<noteq> None"
    using assms(1,3) keeps_key [OF k(2)] k(3) by (simp add: sys_inv_def)
  moreover have "\<forall>i \<in> set (sy_accepted s). gm_get (js_dir j') i \<noteq> None \<and> gm_get (js_items j') i \<noteq> None"
    using assms(1,3) keeps_some [OF k(2)] same_items [OF assms(2)] by (simp add: sys_inv_def)
  moreover have "\<exists>v. gm_get (js_items j') i = Some v \<and> jb_key v \<notin> set (sy_ran s) \<and> gm_get (js_keys j') (jb_key v) \<noteq> None"
    if w: "w = Begins i" for i
  proof -
    obtain v where v: "gm_get (js_items (sy_jobs s)) i = Some v" "jb_key v \<notin> set (sy_ran s)" "gm_get (js_keys j') (jb_key v) \<noteq> None"
      using assms(1,4) w k(3) by (auto simp: sys_inv_def)
    have "map_option jb_key (gm_get (js_items j') i) = Some (jb_key v)" using assms(2) v(1) by (simp add: same_jobs_def)
    with v(2,3) show ?thesis by auto
  qed
  ultimately show ?thesis using assms(1,4) k(1) by (cases w) (simp_all add: sys_inv_def)
qed

lemma inv_start:
  assumes "sys_inv s" "started digest server a action key payload v (sy_jobs s) j'" "sy_worker s \<noteq> Down"
  shows "sys_inv (s\<lparr>sy_jobs := j', sy_worker := Begins (jb_id v), sy_accepted := jb_id v # sy_accepted s\<rparr>)"
proof -
  have st: "js_busy (sy_jobs s) = []" "gm_get (js_keys (sy_jobs s)) (jb_key v) = None" "jb_id v \<noteq> []" "store_ok j'"
    "keeps (js_dir (sy_jobs s)) (js_dir j')" "gm_get (js_dir j') (jb_id v) = Some v" "js_busy j' = jb_id v"
    "js_items j' = gm_put (js_items (sy_jobs s)) (jb_id v) v" "js_keys j' = gm_put (js_keys (sy_jobs s)) (jb_key v) (jb_id v)"
    using assms(2) [unfolded started_def] by blast+
  have "jb_key v \<notin> set (sy_ran s)" using assms(1,3) st(2) by (auto simp: sys_inv_def)
  moreover have "\<forall>x \<in> set (sy_ran s). (\<exists>i w. gm_get (js_dir j') i = Some w \<and> jb_key w = x) \<and> gm_get (js_keys j') x \<noteq> None"
    using assms(1,3) keeps_key [OF st(5)] by (simp add: sys_inv_def st(9))
  moreover have "\<forall>i \<in> set (sy_accepted s). gm_get (js_dir j') i \<noteq> None \<and> gm_get (js_items j') i \<noteq> None"
    using assms(1,3) keeps_some [OF st(5)] by (simp add: sys_inv_def st(8))
  ultimately show ?thesis using assms(1) st(3,4,6,7) by (simp add: sys_inv_def st(8,9))
qed

lemma inv_begin:
  assumes "sys_inv s" "same_jobs (sy_jobs s) j'" "js_busy j' = js_busy (sy_jobs s)" "sy_worker s = Begins i"
  shows "sys_inv (s\<lparr>sy_jobs := j', sy_worker := Runs i, sy_ran := item_key j' i # sy_ran s\<rparr>)"
proof -
  obtain v where v: "gm_get (js_items (sy_jobs s)) i = Some v" "jb_key v \<notin> set (sy_ran s)" "gm_get (js_keys (sy_jobs s)) (jb_key v) \<noteq> None"
    "js_busy (sy_jobs s) = i" "i \<noteq> []" using assms(1,4) by (auto simp: sys_inv_def)
  have "map_option jb_key (gm_get (js_items j') i) = Some (jb_key v)" using assms(2) v(1) by (simp add: same_jobs_def)
  then obtain u where u: "gm_get (js_items j') i = Some u" "jb_key u = jb_key v" by auto
  then have key: "item_key j' i = jb_key v" by (simp add: item_key_def)
  have "stored u (js_dir j')" using assms(2) u(1) by (simp add: same_jobs_def store_ok_def)
  then have dir: "\<exists>i w. gm_get (js_dir j') i = Some w \<and> jb_key w = jb_key v" using u(2) by (auto simp: stored_def)
  have keys: "js_keys j' = js_keys (sy_jobs s)" using assms(2) by (simp add: same_jobs_def)
  have "sys_inv (s\<lparr>sy_jobs := j', sy_worker := Runs i\<rparr>)"
    by (rule inv_same [OF assms(1,2)]) (use assms(3,4) v(4,5) in simp_all)
  then show ?thesis using v(2,3) dir keys by (simp add: sys_inv_def key)
qed

lemma inv_restart:
  assumes "sys_inv s" "NewJobs now faults (js_dir (sy_jobs s)) = (ok, j)"
  shows "sys_inv (s\<lparr>sy_jobs := j, sy_worker := (if ok then Idle else Down)\<rparr>)"
proof -
  have dir: "dir_ok (js_dir (sy_jobs s))" using assms(1) by (simp add: sys_inv_def store_ok_def)
  note new = NewJobs_ok [OF assms(2) dir]
  have "\<exists>i w. gm_get (js_dir j) i = Some w \<and> jb_key w = x" "ok \<Longrightarrow> gm_get (js_keys j) x \<noteq> None" if "x \<in> set (sy_ran s)" for x
  proof -
    from that obtain i w where w: "gm_get (js_dir (sy_jobs s)) i = Some w" "jb_key w = x" using assms(1) unfolding sys_inv_def by blast
    then show "\<exists>i w. gm_get (js_dir j) i = Some w \<and> jb_key w = x" using keeps_key [OF new(2)] by blast
    show "ok \<Longrightarrow> gm_get (js_keys j) x \<noteq> None" using new(5) [OF _ w(1)] w(2) by blast
  qed
  moreover have "gm_get (js_dir j) i \<noteq> None" "ok \<Longrightarrow> gm_get (js_items j) i \<noteq> None" if "i \<in> set (sy_accepted s)" for i
  proof -
    from that have i: "gm_get (js_dir (sy_jobs s)) i \<noteq> None" using assms(1) by (simp add: sys_inv_def)
    then show "gm_get (js_dir j) i \<noteq> None" by (rule keeps_some [OF new(2)])
    show "ok \<Longrightarrow> gm_get (js_items j) i \<noteq> None" using new(5) i by blast
  qed
  ultimately show ?thesis using assms(1) new(1,3) by (auto simp: sys_inv_def)
qed

lemma inv_crash:
  assumes "sys_inv s"
  shows "sys_inv (s\<lparr>sy_jobs := \<lparr>js_items = [], js_keys = [], js_busy = [], js_pending = [], js_dir = js_dir (sy_jobs s)\<rparr>, sy_worker := Down\<rparr>)"
  using assms by (simp add: sys_inv_def store_ok_def)

lemma sys_inv_step: "job_step s t \<Longrightarrow> sys_inv s \<Longrightarrow> sys_inv t"
proof (induction rule: job_step.induct)
  case (request s env s' server a action key payload)
  have ok: "store_ok (sy_jobs s)" using request.prems by (simp add: sys_inv_def)
  obtain r j' where st: "Start env server a action key payload (sy_jobs s) = (r, j')" by fastforce
  from st ok request.hyps(2) show ?case
  proof (rule Start_cases)
    assume a: "same_jobs (sy_jobs s) j'" "js_busy j' = js_busy (sy_jobs s)" "\<And>v. r \<noteq> JobOk 202 v"
    have "s' = s\<lparr>sy_jobs := j', sy_worker := sy_worker s\<rparr>"
      using request.hyps(3) st a(3) by (auto simp: accept_def split: job_response.splits)
    moreover have "sys_inv (s\<lparr>sy_jobs := j', sy_worker := sy_worker s\<rparr>)"
      by (rule inv_same [OF request.prems a(1) request.hyps(1)])
        (use a(2) request.prems request.hyps(1) in \<open>auto simp: sys_inv_def split: worker.splits\<close>)
    ultimately show ?thesis by simp
  next
    fix v
    assume a: "r = JobOk 202 v" "started (se_digest env) server a action key payload v (sy_jobs s) j'"
    with inv_start [OF request.prems a(2) request.hyps(1)] show ?thesis
      by (simp add: request.hyps(3) st accept_def)
  qed
next
  case (begins s i fault now j)
  have "store_ok (sy_jobs s)" using begins.prems by (simp add: sys_inv_def)
  note u = Update_same [OF begins.hyps(2) this]
  show ?case by (rule inv_begin [OF begins.prems u(1,2) begins.hyps(1)])
next
  case (not_begun s i fault now j fault2 now2)
  have ok: "store_ok (sy_jobs s)" using not_begun.prems by (simp add: sys_inv_def)
  note u = Update_same [OF not_begun.hyps(2) ok]
  have "store_ok j" using u(1) by (simp add: same_jobs_def)
  note f = finish_same [OF this, of fault2 now2 i "''failed''" "''storage_error''" None
    "''Operation was not executed because its start could not be persisted.''"]
  show ?case
    by (rule inv_same [OF not_begun.prems same_jobs_trans [OF u(1) f(1)]])
      (use not_begun.hyps(1) not_begun.prems u(2) f(2) in \<open>simp_all add: sys_inv_def\<close>)
next
  case (progress s i fault now state phase result msg)
  have ok: "store_ok (sy_jobs s)" using progress.prems by (simp add: sys_inv_def)
  obtain b j where up: "Update fault now i state phase result msg (sy_jobs s) = (b, j)" by fastforce
  note u = Update_same [OF up ok]
  have "sys_inv (s\<lparr>sy_jobs := j, sy_worker := Runs i\<rparr>)"
    by (rule inv_same [OF progress.prems u(1)]) (use progress.hyps progress.prems u(2) in \<open>simp_all add: sys_inv_def\<close>)
  moreover have "s\<lparr>sy_jobs := j, sy_worker := Runs i\<rparr> = s\<lparr>sy_jobs := j\<rparr>" using progress.hyps by simp
  ultimately show ?case by (simp add: up)
next
  case (ends s i fault now out)
  have ok: "store_ok (sy_jobs s)" using ends.prems by (simp add: sys_inv_def)
  note f = finish_outcome_same [OF ok, of fault now i out]
  show ?case
    by (rule inv_same [OF ends.prems f(1)]) (use ends.hyps ends.prems f(2) in \<open>simp_all add: sys_inv_def\<close>)
next
  case (released s i)
  have ok: "store_ok (sy_jobs s)" "js_busy (sy_jobs s) = i" using released.hyps released.prems by (simp_all add: sys_inv_def)
  have "same_jobs (sy_jobs s) (release i (sy_jobs s))" using ok by (simp add: same_jobs_def release_def store_ok_def)
  then show ?case by (rule inv_same [OF released.prems]) (use released.hyps ok in \<open>simp_all add: release_def\<close>)
next
  case (restart now faults s ok j)
  then show ?case by (intro inv_restart)
next
  case (crash s)
  then show ?case by (rule inv_crash)
qed

interpretation job_system: step_system "\<lambda>s. s = empty_sys" job_step sys_inv
proof unfold_locales
  show "sys_inv s" if "s = empty_sys" for s
    using that by (simp add: sys_inv_def empty_sys_def store_ok_def dir_ok_def)
  show "sys_inv t" if "sys_inv s" "job_step s t" for s t
    using sys_inv_step that by blast
qed

section \<open>Properties\<close>

text \<open>
  C3.  An operation runs at most once for its actor, server and idempotency key, through lost responses,
  failing writes, crashes and restarts: the keys of the operations that began to run are distinct, and a
  process that is up never accepts a request with such a key again.
\<close>

theorem operations_run_at_most_once:
  assumes "reachable_from (\<lambda>s. s = empty_sys) job_step s"
  shows "distinct (sy_ran s) \<and>
    (\<forall>env server a action key payload v. job_key (se_digest env) a server key \<in> set (sy_ran s) \<and> sy_worker s \<noteq> Down \<longrightarrow>
      fst (Start env server a action key payload (sy_jobs s)) \<noteq> JobOk 202 v)"
proof -
  have inv: "sys_inv s" using assms by (rule job_system.inv_reachable)
  have "fst (Start env server a action key payload (sy_jobs s)) \<noteq> JobOk 202 v"
    if k: "job_key (se_digest env) a server key \<in> set (sy_ran s)" "sy_worker s \<noteq> Down" for env server a action key payload v
  proof -
    have "gm_get (js_keys (sy_jobs s)) (job_key (se_digest env) a server key) \<noteq> None" using inv k by (simp add: sys_inv_def)
    then show ?thesis by (auto simp: Start_def Let_def split: option.splits)
  qed
  with inv show ?thesis by (auto simp: sys_inv_def)
qed

text \<open>
  C23.  An accepted job is never lost: whatever happens later, its record stays in the directory, and
  every process that is up knows it.
\<close>

theorem accepted_jobs_are_kept:
  assumes "reachable_from (\<lambda>s. s = empty_sys) job_step s" and "i \<in> set (sy_accepted s)"
  shows "gm_get (js_dir (sy_jobs s)) i \<noteq> None \<and> (sy_worker s \<noteq> Down \<longrightarrow> Get i (sy_jobs s) \<noteq> None)"
  using job_system.inv_reachable [OF assms(1)] assms(2) by (simp add: sys_inv_def Get_def)

text \<open>
  One operation at a time: while a job is about to run, runs or has not been released yet, a
  request with a new key is refused with status 409 and changes nothing.
\<close>

theorem one_operation_at_a_time:
  assumes "reachable_from (\<lambda>s. s = empty_sys) job_step s" and "sy_worker s = Begins i \<or> sy_worker s = Runs i \<or> sy_worker s = Ends i"
    and "gm_get (js_keys (sy_jobs s)) (job_key (se_digest env) a server key) = None"
  shows "Start env server a action key payload (sy_jobs s) = (JobError 409 ''another control operation is active'', sy_jobs s)"
proof -
  have "js_busy (sy_jobs s) \<noteq> []" using job_system.inv_reachable [OF assms(1)] assms(2) by (auto simp: sys_inv_def)
  with assms(3) show ?thesis by (simp add: Start_def)
qed

text \<open>
  A lost response can be asked for again: after a request was accepted, the same request gets the
  same job with status 200 and is not started again, looking it up gives the job, and the same key
  with a different action or payload is refused.
\<close>

theorem retry_returns_the_job:
  assumes "Start env server a action key payload j = (JobOk 202 v, j')" and "store_ok j" and "fresh_token (se_token env) j"
  shows "Lookup (se_digest env) server a action key payload j' = Some (Inr v) \<and>
    (\<forall>env2. se_digest env2 = se_digest env \<longrightarrow> Start env2 server a action key payload j' = (JobOk 200 v, j')) \<and>
    (\<forall>env2 action2 payload2. se_digest env2 = se_digest env \<and>
      job_hash (se_digest env) action2 payload2 \<noteq> job_hash (se_digest env) action payload \<longrightarrow>
      fst (Start env2 server a action2 key payload2 j') = JobError 409 ''idempotency key already used for a different request'')"
proof -
  from assms obtain "started (se_digest env) server a action key payload v j j'"
    by (cases rule: Start_cases) auto
  then have st: "gm_get (js_keys j') (job_key (se_digest env) a server key) = Some (jb_id v)" "gm_get (js_items j') (jb_id v) = Some v"
    "jb_hash v = job_hash (se_digest env) action payload" by (simp_all add: started_def)
  then show ?thesis by (simp add: Lookup_def Start_def Let_def)
qed

text \<open>
  After a restart nothing is reported as running: a process that came up knows every stored job,
  under its key, and none of them is queued, running or waiting for players to leave.
\<close>

theorem restart_settles_every_job:
  assumes "NewJobs now faults D = (True, j)" and "dir_ok D" and "gm_get D i = Some w"
  shows "\<exists>v. Get i j = Some v \<and> jb_key v = jb_key w \<and> jb_state v \<notin> {''queued'', ''running'', ''waiting_for_empty''}"
proof -
  note new = NewJobs_ok [OF assms(1,2)]
  obtain v where v: "gm_get (js_items j) i = Some v" using new(5) [OF _ assms(3)] by auto
  have "jb_id v = i" "stored v (js_dir j)" using new(1) v by (auto simp: store_ok_def)
  moreover obtain w' where "gm_get (js_dir j) i = Some w'" "jb_key w' = jb_key w" using new(2) assms(3) by (auto simp: keeps_def)
  ultimately have "jb_key v = jb_key w" by (auto simp: stored_def)
  with v new(4) [OF v] show ?thesis by (auto simp: Get_def active_def)
qed

section \<open>An example\<close>

definition demo_actor :: actor where "demo_actor = \<lparr>ac_id = ''1'', ac_name = ''ann'', ac_admin = True\<rparr>"

definition demo_start :: start_env where
  "demo_start = \<lparr>se_digest = (\<lambda>s. s), se_repair = (\<lambda>_. SaveOk), se_fault = SaveOk, se_token = ''t'', se_now = 1\<rparr>"

definition demo_job :: job where
  "demo_job = new_job ''t'' 1 ''srv'' demo_actor ''map-reset'' (job_key (\<lambda>s. s) demo_actor ''srv'' ''k'') (job_hash (\<lambda>s. s) ''map-reset'' ''{}'')"

definition demo_jobs :: jobs where
  "demo_jobs = \<lparr>js_items = [(''job_t'', demo_job)], js_keys = [(jb_key demo_job, ''job_t'')], js_busy = ''job_t'', js_pending = [],
     js_dir = [(''job_t'', demo_job)]\<rparr>"

lemma demo_start_run: "Start demo_start ''srv'' demo_actor ''map-reset'' ''k'' ''{}'' (sy_jobs empty_sys) = (JobOk 202 demo_job, demo_jobs)"
  by (simp add: Start_def demo_start_def empty_sys_def save_job_def demo_job_def demo_jobs_def gm_put_def Let_def)

definition demo_sys :: job_sys where
  "demo_sys = empty_sys\<lparr>sy_jobs := demo_jobs, sy_worker := Begins ''job_t'', sy_accepted := [''job_t'']\<rparr>"

lemma demo_reachable: "reachable_from (\<lambda>s. s = empty_sys) job_step demo_sys"
proof (rule reach_step)
  show "reachable_from (\<lambda>s. s = empty_sys) job_step empty_sys" by (rule reach_start) simp
  show "job_step empty_sys demo_sys"
  proof (rule job_step.request)
    show "sy_worker empty_sys \<noteq> Down" by (simp add: empty_sys_def)
    show "fresh_token (se_token demo_start) (sy_jobs empty_sys)" by (simp add: fresh_token_def empty_sys_def)
    show "demo_sys = accept (Start demo_start ''srv'' demo_actor ''map-reset'' ''k'' ''{}'' (sy_jobs empty_sys)) empty_sys"
      by (simp add: demo_start_run accept_def demo_sys_def) (simp add: demo_job_def empty_sys_def)
  qed
qed

lemma demo_runs: "\<exists>s :: job_sys. reachable_from (\<lambda>s. s = empty_sys) job_step s \<and> sy_ran s = [jb_key demo_job] \<and> sy_worker s = Runs ''job_t''"
proof -
  obtain j where up: "Update SaveOk 2 ''job_t'' ''running'' ''executing'' None [] (sy_jobs demo_sys) = (True, j)" "item_key j ''job_t'' = jb_key demo_job"
    by (simp add: Update_def demo_sys_def demo_jobs_def save_job_def gm_get_def gm_put_def item_key_def Let_def)
  have w: "sy_worker demo_sys = Begins ''job_t''" by (simp add: demo_sys_def)
  define t where "t = demo_sys\<lparr>sy_jobs := j, sy_worker := Runs ''job_t'', sy_ran := item_key j ''job_t'' # sy_ran demo_sys\<rparr>"
  have "job_step demo_sys t" unfolding t_def using w up(1) by (rule job_step.begins)
  with demo_reachable have "reachable_from (\<lambda>s. s = empty_sys) job_step t" by (rule reach_step)
  moreover have "sy_worker t = Runs ''job_t''" "sy_ran t = [jb_key demo_job]"
    by (simp_all add: t_def up(2)) (simp add: demo_sys_def empty_sys_def)
  ultimately show ?thesis by blast
qed

theorem operations_run_at_most_once_witness:
  "\<exists>s :: job_sys. jb_key demo_job \<in> set (sy_ran s) \<and> distinct (sy_ran s) \<and>
     fst (Start demo_start ''srv'' demo_actor ''map-reset'' ''k'' ''{}'' (sy_jobs s)) \<noteq> JobOk 202 demo_job"
proof -
  obtain s where s: "reachable_from (\<lambda>s. s = empty_sys) job_step s" "sy_ran s = [jb_key demo_job]" "sy_worker s = Runs ''job_t''"
    using demo_runs by blast
  have "job_key (se_digest demo_start) demo_actor ''srv'' ''k'' = jb_key demo_job" by (simp add: demo_start_def demo_job_def)
  then have "fst (Start demo_start ''srv'' demo_actor ''map-reset'' ''k'' ''{}'' (sy_jobs s)) \<noteq> JobOk 202 demo_job"
    using operations_run_at_most_once [OF s(1)] s(2,3) by auto
  with s(2) show ?thesis by (intro exI [of _ s]) simp
qed

theorem accepted_jobs_are_kept_witness: "gm_get (js_dir (sy_jobs demo_sys)) ''job_t'' \<noteq> None"
  using accepted_jobs_are_kept [OF demo_reachable, of "''job_t''"] by (simp add: demo_sys_def)

theorem one_operation_at_a_time_witness:
  "Start demo_start ''srv'' demo_actor ''rcon'' ''k2'' ''{}'' (sy_jobs demo_sys) = (JobError 409 ''another control operation is active'', sy_jobs demo_sys)"
  by (rule one_operation_at_a_time [OF demo_reachable, of "''job_t''"])
    (simp_all add: demo_sys_def demo_jobs_def demo_start_def demo_job_def job_key_def demo_actor_def gm_get_def)

theorem retry_returns_the_job_witness: "Lookup (\<lambda>s. s) ''srv'' demo_actor ''map-reset'' ''k'' ''{}'' demo_jobs = Some (Inr demo_job)"
  using retry_returns_the_job [OF demo_start_run] by (simp add: empty_sys_def store_ok_def dir_ok_def fresh_token_def) (simp add: demo_start_def)

theorem restart_settles_every_job_witness:
  "\<exists>j v. NewJobs 5 (\<lambda>_. SaveOk) [(''job_t'', demo_job)] = (True, j) \<and> Get ''job_t'' j = Some v \<and> jb_state v \<noteq> ''queued''"
proof -
  have "dir_ok [(''job_t'', demo_job)]" by (simp add: dir_ok_def gm_ok_def gm_keys_def gm_get_def demo_job_def)
  moreover have "ValidID ''job_t''" by code_simp
  then obtain j where run: "NewJobs 5 (\<lambda>_. SaveOk) [(''job_t'', demo_job)] = (True, j)"
    by (simp add: NewJobs_def demo_job_def new_job_def recover_job_def save_job_def)
  moreover have "gm_get [(''job_t'', demo_job)] ''job_t'' = Some demo_job" by (simp add: gm_get_def)
  ultimately show ?thesis using restart_settles_every_job [of 5 "\<lambda>_. SaveOk" "[(''job_t'', demo_job)]" j "''job_t''" demo_job] by auto
qed

end
