(* ===== verification/Control_Files_Properties.thy ===== *)
theory Control_Files_Properties
  imports Control_Files Mod_Install_Properties
begin

text \<open>
  What the file side of the web control promises: identifiers of saves name files in the saves folder and
  nothing else, the listing shows every save once, a staged save cannot write outside its folder nor fill
  the disk, and only valid uploads of the same user are activated, on a stopped server.
\<close>

section \<open>Identifiers\<close>

definition valid_save_name :: "string \<Rightarrow> bool" where
  "valid_save_name n \<longleftrightarrow> CHR ''/'' \<notin> set n \<and> CHR 0x5C \<notin> set n \<and> CHR 0x00 \<notin> set n \<and> has_suffix n ''.zip''"

lemma has_suffix_iff: "has_suffix s p \<longleftrightarrow> (\<exists>q. s = q @ p)"
proof
  assume "has_suffix s p"
  then have "take (length p) (rev s) = rev p" by (simp add: has_suffix_def has_prefix_def)
  then have "rev s = rev p @ drop (length p) (rev s)" by (metis append_take_drop_id)
  then have "s = rev (drop (length p) (rev s)) @ p" by (metis rev_append rev_rev_ident)
  then show "\<exists>q. s = q @ p" ..
qed (auto simp: has_suffix_def has_prefix_def)

lemma valid_save_name_facts:
  assumes "valid_save_name n"
  shows "n \<noteq> []" "filepath_Base n = n" "proper n"
proof -
  obtain q where q: "n = q @ ''.zip''" using assms by (auto simp: valid_save_name_def has_suffix_iff)
  then show "n \<noteq> []" by simp
  with assms show "filepath_Base n = n" by (simp add: Base_no_slash valid_save_name_def)
  show "proper n" using assms q by (auto simp: proper_def valid_save_name_def append_eq_Cons_conv)
qed

lemma saveName_saveID: "valid_save_name n \<Longrightarrow> saveName (saveID n) = Inr n"
  using valid_save_name_facts [of n] by (simp add: saveName_def saveID_def rawurl_roundtrip valid_save_name_def Let_def)

lemma old_zip_valid: "valid_save_name ''old.zip''"
  by (simp add: valid_save_name_def has_suffix_def has_prefix_def)

text \<open>
  The identifier of a save gives the save back, for every name a save can have; and whatever
  identifier a client makes up, it is refused or names a file right in the saves folder: joined to the folder
  it is a path with that one segment more.
\<close>

theorem save_ids_name_saves:
  "(valid_save_name n \<longrightarrow> saveName (saveID n) = Inr n) \<and>
   (saveName i = Inr m \<and> clean_folder root \<longrightarrow> proper m \<and> has_suffix m ''.zip'' \<and> filepath_Join root m = root @ CHR ''/'' # m)"
proof (intro conjI impI)
  assume "valid_save_name n"
  then show "saveName (saveID n) = Inr n" by (rule saveName_saveID)
next
  assume a: "saveName i = Inr m \<and> clean_folder root"
  then have "valid_save_name m" by (auto simp: saveName_def valid_save_name_def Let_def split: option.splits if_splits)
  then show "proper m" "has_suffix m ''.zip''" by (auto simp: valid_save_name_facts valid_save_name_def)
  with a show "filepath_Join root m = root @ CHR ''/'' # m" by (simp add: clean_folder_join)
qed

theorem save_ids_name_saves_witness:
  "saveName (saveID ''old.zip'') = Inr ''old.zip'' \<and> filepath_Join ''/s/saves'' ''old.zip'' = ''/s/saves/old.zip''"
proof -
  note old_zip_valid
  moreover have "clean_folder ''/s/saves''" unfolding clean_folder_def
    by (rule exI [of _ "[''s'', ''saves'']"]) (simp add: proper_def)
  ultimately show ?thesis
    using save_ids_name_saves [of "''old.zip''" "saveID ''old.zip''" "''old.zip''" "''/s/saves''"] by simp
qed

section \<open>The listing\<close>

definition listed :: "(string \<Rightarrow> bool) \<Rightarrow> string \<times> save_file \<Rightarrow> bool" where
  "listed info f \<longleftrightarrow> \<not> sf_dir (snd f) \<and> has_suffix (fst f) ''.zip'' \<and> info (fst f)"

definition after_cursor :: "(string \<Rightarrow> bool) \<Rightarrow> string \<Rightarrow> saves \<Rightarrow> string list" where
  "after_cursor info cursor fs = map fst (filter (\<lambda>f. cursor < fst f \<and> listed info f) fs)"

lemma list_saves_take:
  "length out < 100 \<Longrightarrow> list_saves info cursor fs out = take 100 (out @ after_cursor info cursor fs)"
proof (induction fs arbitrary: out)
  case (Cons f fs)
  let ?skip = "fst f \<le> cursor \<or> sf_dir (snd f) \<or> \<not> has_suffix (fst f) ''.zip''"
  show ?case
  proof (cases "?skip \<or> \<not> info (fst f)")
    case True
    with Cons show ?thesis by (auto simp: after_cursor_def listed_def Let_def)
  next
    case False
    then have w: "after_cursor info cursor (f # fs) = fst f # after_cursor info cursor fs"
      by (auto simp: after_cursor_def listed_def)
    show ?thesis
    proof (cases "length out = 99")
      case True
      with False show ?thesis unfolding w by (simp add: Let_def)
    next
      case short: False
      then have "length (out @ [fst f]) < 100" using Cons.prems by simp
      from Cons.IH [OF this] False short Cons.prems show ?thesis unfolding w by (simp add: Let_def)
    qed
  qed
qed (simp add: after_cursor_def)

lemma save_page_eq:
  "save_page info entries cursor =
    (let out = take 100 (after_cursor info cursor entries) in (out, if length out = 100 then last out else []))"
  by (simp add: save_page_def list_saves_take Let_def)

lemma page_next:
  assumes "save_page info entries cursor = (out, next_cursor)" "next_cursor \<noteq> []"
  shows "cursor < next_cursor" "next_cursor \<in> fst ` set entries"
proof -
  have "out \<noteq> []" "next_cursor = last out" "set out \<subseteq> set (after_cursor info cursor entries)"
    using assms by (auto simp: save_page_eq Let_def split: if_splits dest: in_set_takeD)
  then have "next_cursor \<in> set (after_cursor info cursor entries)" using last_in_set by blast
  then show "cursor < next_cursor" "next_cursor \<in> fst ` set entries" by (auto simp: after_cursor_def)
qed

text \<open>A client that follows the cursors until there is none.\<close>

function follow_pages :: "(string \<Rightarrow> bool) \<Rightarrow> saves \<Rightarrow> string \<Rightarrow> string list" where
  "follow_pages info entries cursor =
     (let (out, next_cursor) = save_page info entries cursor in
      out @ (if next_cursor = [] then [] else follow_pages info entries next_cursor))"
  by pat_completeness auto
termination
proof (relation "measure (\<lambda>(info, entries, cursor). card {f \<in> set entries. cursor < fst f})")
  fix info :: "string \<Rightarrow> bool" and entries :: saves and cursor :: string and x and out next_cursor :: "string list"
  show "wf (measure (\<lambda>(info, entries, cursor). card {f \<in> set entries. cursor < fst f}))" by simp
next
  fix info :: "string \<Rightarrow> bool" and entries :: saves and cursor :: string and x out next_cursor
  assume a: "x = save_page info entries cursor" "(out, next_cursor) = x" "next_cursor \<noteq> []"
  have p: "cursor < next_cursor" "next_cursor \<in> fst ` set entries" using page_next [of info entries cursor out next_cursor] a by auto
  obtain f where f: "f \<in> set entries" "fst f = next_cursor" using p(2) by auto
  have "card {f \<in> set entries. next_cursor < fst f} < card {f \<in> set entries. cursor < fst f}"
    by (rule psubset_card_mono) (use p(1) f in auto)
  then show "((info, entries, next_cursor), info, entries, cursor) \<in> measure (\<lambda>(info, entries, cursor). card {f \<in> set entries. cursor < fst f})"
    by simp
qed

declare follow_pages.simps [simp del]

lemma filter_after:
  fixes xs :: "string list"
  assumes "sorted_wrt (<) xs" "k < length xs"
  shows "filter (\<lambda>x. xs ! k < x) xs = drop (Suc k) xs"
proof -
  have split: "xs = take k xs @ xs ! k # drop (Suc k) xs" using assms(2) by (rule id_take_nth_drop)
  have s: "sorted_wrt (<) (take k xs @ xs ! k # drop (Suc k) xs)" using assms(1) split by simp
  have "filter (\<lambda>x. xs ! k < x) (take k xs) = []"
  proof -
    have "x < xs ! k" if "x \<in> set (take k xs)" for x using s that by (simp add: sorted_wrt_append)
    from this [THEN less_not_sym] have "\<not> xs ! k < x" if "x \<in> set (take k xs)" for x using that by blast
    then show ?thesis unfolding filter_empty_conv by blast
  qed
  moreover have "filter (\<lambda>x. xs ! k < x) (drop (Suc k) xs) = drop (Suc k) xs"
    using s by (auto simp: filter_id_conv sorted_wrt_append)
  ultimately show ?thesis using split by (metis append_Nil filter.simps(2) filter_append less_irrefl)
qed

text \<open>
  C37.  Following the cursors from the first page to the last lists every save of the folder exactly once,
  in the order of the names, however many there are, and comes to an end.
\<close>

theorem paging_lists_every_save:
  assumes "sorted_wrt (<) (map fst entries)"
  shows "follow_pages info entries [] = map fst (filter (listed info) entries) \<and> distinct (follow_pages info entries [])"
proof -
  have sorted: "sorted_wrt (<) (after_cursor info c entries)" for c
    using assms by (simp add: after_cursor_def sorted_wrt_map sorted_wrt_filter)
  have all: "follow_pages info entries cursor = after_cursor info cursor entries" for cursor
  proof (induction "card {f \<in> set entries. cursor < fst f}" arbitrary: cursor rule: less_induct)
    case less
    let ?w = "after_cursor info cursor entries"
    obtain out next_cursor where page: "save_page info entries cursor = (out, next_cursor)" by fastforce
    show ?case
    proof (cases "next_cursor = []")
      case True
      have "length ?w < 100"
      proof (rule ccontr)
        assume "\<not> length ?w < 100"
        then have "next_cursor = last (take 100 ?w)" "take 100 ?w \<noteq> []" using page by (auto simp: save_page_eq Let_def)
        then have "next_cursor \<in> set ?w" by (metis in_set_takeD last_in_set)
        with True show False by (auto simp: after_cursor_def)
      qed
      with True page show ?thesis by (simp add: follow_pages.simps [of info entries cursor] save_page_eq Let_def)
    next
      case False
      note n = page_next [OF page False]
      have len: "100 \<le> length ?w" and out: "out = take 100 ?w" and nc: "next_cursor = last out"
        using page False by (auto simp: save_page_eq Let_def split: if_splits)
      have nth: "next_cursor = ?w ! 99" using len last_conv_nth [of "take 100 ?w"] by (cases "?w = []") (simp_all add: nc out)
      obtain f where f: "f \<in> set entries" "fst f = next_cursor" using n(2) by auto
      have "card {f \<in> set entries. next_cursor < fst f} < card {f \<in> set entries. cursor < fst f}"
        by (rule psubset_card_mono) (use n(1) f in auto)
      from less [OF this] have "follow_pages info entries next_cursor = after_cursor info next_cursor entries" .
      also have "\<dots> = filter (\<lambda>x. next_cursor < x) ?w"
        using n(1) by (auto simp: after_cursor_def filter_map o_def intro!: arg_cong [where f = "map fst"] filter_cong)
      also have "\<dots> = drop 100 ?w" using filter_after [OF sorted, of 99 cursor] len by (simp add: nth)
      finally show ?thesis using False page out
        by (simp add: follow_pages.simps [of info entries cursor])
    qed
  qed
  have "[] < q @ ''.zip''" for q :: string by (cases q) simp_all
  then have "after_cursor info [] entries = map fst (filter (listed info) entries)"
    unfolding after_cursor_def listed_def
    by (intro arg_cong [where f = "map fst"] filter_cong) (auto simp: has_suffix_iff)
  moreover have "distinct (after_cursor info [] entries)" using sorted [of "[]"] strict_sorted_iff by blast
  ultimately show ?thesis by (simp add: all)
qed

theorem paging_lists_every_save_witness:
  "follow_pages (\<lambda>_. True) [(''a.zip'', empty_save), (''b'', empty_save), (''c.zip'', empty_save)] [] = [''a.zip'', ''c.zip'']"
  using paging_lists_every_save [of "[(''a.zip'', empty_save), (''b'', empty_save), (''c.zip'', empty_save)]" "\<lambda>_. True"]
  by (simp add: listed_def empty_save_def has_suffix_def has_prefix_def)

section \<open>Validation\<close>

lemma check_entries_safe:
  "check_entries t level es = Inr found \<Longrightarrow> (\<forall>e \<in> set es. safe_entry (ze_name e) \<and> \<not> ue_symlink e) \<and>
    (found \<longrightarrow> level \<or> (\<exists>e \<in> set es. has_suffix (ze_name e) ''/level.dat'' \<or> has_suffix (ze_name e) ''/level.dat0''))"
  by (induction es arbitrary: t level) (auto simp: Let_def split: if_splits)

text \<open>
  C36.  A save that passes the check is safe to unpack: no entry is a link or leaves the folder it is unpacked
  in, there are at most 20000 of them, the sum of their true sizes is at most a gigabyte whatever wraps
  around in 64 bits, and one of them is a level.
\<close>

theorem validated_save_is_safe:
  assumes "validateUpload libs content ''save'' = None"
  shows "\<exists>es. Option.bind content (ul_zip libs) = Some es \<and> length es \<le> 20000 \<and>
    (\<forall>e \<in> set es. \<not> ue_symlink e \<and> (\<forall>root. clean_folder root \<longrightarrow>
      filepath_Join root (ze_name e) = root \<or> has_prefix (filepath_Join root (ze_name e)) (root @ ''/''))) \<and>
    sum_list (map (\<lambda>e. unat (ze_size e)) es) \<le> 2 ^ 30 \<and>
    (\<exists>e \<in> set es. has_suffix (ze_name e) ''/level.dat'' \<or> has_suffix (ze_name e) ''/level.dat0'')"
proof -
  obtain es where es: "Option.bind content (ul_zip libs) = Some es" "length es \<le> 20000" "check_entries 0 False es = Inr True"
    "\<not> zip_bomb 0 (map zip_entry.truncate es)"
    using assms by (auto simp: validateUpload_def split: option.splits if_splits sum.splits bool.splits)
  note c = check_entries_safe [OF es(3)]
  have inside: "filepath_Join root (ze_name e) = root \<or> has_prefix (filepath_Join root (ze_name e)) (root @ ''/'')"
    if "clean_folder root" "e \<in> set es" for root e
    using c that by (intro join_inside) (auto simp: safe_entry_def)
  have "unat (0 :: uint64) + sum_list (map (\<lambda>e. unat (ze_size e)) (map zip_entry.truncate es)) \<le> 2 ^ 30"
    by (rule zip_bomb_sum [OF es(4)]) (use es(2) in simp)
  moreover have "map (\<lambda>e. unat (ze_size e)) (map zip_entry.truncate es) = map (\<lambda>e. unat (ze_size e)) es"
    by (simp add: zip_entry.defs)
  ultimately have size: "sum_list (map (\<lambda>e. unat (ze_size e)) es) \<le> 2 ^ 30" by (simp only: unat_0 add_0)
  from c inside es(1,2) size show ?thesis by blast
qed

definition demo_entry :: "string \<Rightarrow> uint64 \<Rightarrow> upload_entry" where
  "demo_entry n k = \<lparr>ze_name = n, ze_size = k, ze_data = None, ue_symlink = False\<rparr>"

definition demo_upload_libs :: upload_libs where
  "demo_upload_libs = \<lparr>ul_zip = (\<lambda>b. if b = [] then None else Some [demo_entry ''m/level.dat0'' 5000, demo_entry ''m/locale/en.cfg'' 100]),
     ul_mod_list = (\<lambda>b. None)\<rparr>"

lemma demo_upload_valid: "validateUpload demo_upload_libs (Some [1]) ''save'' = None"
proof -
  have "path_Clean ''m/level.dat0'' = ''m/level.dat0''" "path_Clean ''m/locale/en.cfg'' = ''m/locale/en.cfg''" by code_simp+
  then show ?thesis
    by (simp add: validateUpload_def demo_upload_libs_def demo_entry_def safe_entry_def has_prefix_def has_suffix_def eight_gib_def
        four_gib_def zip_entry.defs MaxZipSize_def word_less_nat_alt)
qed

theorem validated_save_is_safe_witness:
  "\<exists>es. ul_zip demo_upload_libs [1] = Some es \<and> sum_list (map (\<lambda>e. unat (ze_size e)) es) \<le> 2 ^ 30"
  using validated_save_is_safe [OF demo_upload_valid] by auto

section \<open>Staging\<close>

text \<open>What a client can do; the path of a new staged file and the token are fresh.\<close>

inductive staging_step :: "upload_libs \<Rightarrow> staging \<Rightarrow> staging \<Rightarrow> bool" for libs where
  uploads: "(\<And>p. ue_temp env = Some p \<Longrightarrow> gm_get (st_files s) p = None) \<Longrightarrow> gm_get (st_uploads s) (''upload_'' @ ue_token env) = None \<Longrightarrow>
    staging_step libs s (snd (upload libs env form s))"
| deletes: "staging_step libs s (snd (delete_upload actor i s))"
| applies: "staging_step libs s (cs_staging (snd (applyUploads libs env ids start c)))" if "cs_staging c = s"

definition staged_ok :: "upload_libs \<Rightarrow> staging \<Rightarrow> bool" where
  "staged_ok libs s \<longleftrightarrow> gm_ok (st_uploads s) \<and> gm_ok (st_files s) \<and> length (st_uploads s) \<le> 20 \<and>
     inj_on up_path (snd ` set (st_uploads s)) \<and>
     (\<forall>i u. gm_get (st_uploads s) i = Some u \<longrightarrow> up_id u = i \<and>
       (\<exists>b limit. gm_get (st_files s) (up_path u) = Some b \<and> kind_limit (up_kind u) = Some limit \<and> length b \<le> limit \<and>
          length b = up_size u \<and> validateUpload libs (Some b) (up_kind u) = None))"

lemma length_prune: "length (gm_prune p m) \<le> length m"
  by (simp add: gm_prune_def)

text \<open>Removing some uploads together with exactly their files.\<close>

lemma staged_ok_remove:
  assumes "staged_ok libs s" "U' = gm_prune p (st_uploads s)"
    and "F' = gm_prune (\<lambda>x _. x \<in> X) (st_files s)"
    and "\<And>i u. gm_get (st_uploads s) i = Some u \<Longrightarrow> up_path u \<in> X \<Longrightarrow> p i u"
  shows "staged_ok libs (s\<lparr>st_uploads := U', st_files := F'\<rparr>)"
proof -
  have U: "gm_ok (st_uploads s)" "gm_ok (st_files s)" using assms(1) by (simp_all add: staged_ok_def)
  have sub: "set U' \<subseteq> set (st_uploads s)" using assms(2) gm_prune_subset by fastforce
  have "\<exists>b limit. gm_get F' (up_path u) = Some b \<and> kind_limit (up_kind u) = Some limit \<and> length b \<le> limit \<and>
      length b = up_size u \<and> validateUpload libs (Some b) (up_kind u) = None" and "up_id u = i"
    if "gm_get U' i = Some u" for i u
  proof -
    have g: "gm_get (st_uploads s) i = Some u" "\<not> p i u" using that U(1) by (auto simp: assms(2) gm_prune_get_Some)
    then have "up_path u \<notin> X" using assms(4) by blast
    then have "gm_get F' (up_path u) = gm_get (st_files s) (up_path u)"
      using U(2) by (auto simp: assms(3) gm_get_prune split: option.splits)
    with assms(1) g(1) show "\<exists>b limit. gm_get F' (up_path u) = Some b \<and> kind_limit (up_kind u) = Some limit \<and> length b \<le> limit \<and>
      length b = up_size u \<and> validateUpload libs (Some b) (up_kind u) = None" "up_id u = i" by (auto simp: staged_ok_def)
  qed
  moreover have "inj_on up_path (snd ` set U')"
    using assms(1) sub unfolding staged_ok_def by (meson image_mono inj_on_subset)
  moreover have "gm_ok U'" "gm_ok F'" "length U' \<le> 20"
    using U assms(1) length_prune [of p "st_uploads s"] by (auto simp: assms(2,3) staged_ok_def)
  ultimately show ?thesis by (auto simp: staged_ok_def)
qed

lemma staged_path_owner:
  assumes "staged_ok libs s" "gm_get (st_uploads s) i = Some u" "gm_get (st_uploads s) k = Some v" "up_path u = up_path v"
  shows "u = v" "i = k"
proof -
  have "(i, u) \<in> set (st_uploads s)" "(k, v) \<in> set (st_uploads s)" using assms(2,3) gm_get_Some_mem by fast+
  then have "u \<in> snd ` set (st_uploads s)" "v \<in> snd ` set (st_uploads s)" by force+
  with assms(1,4) show "u = v" unfolding staged_ok_def by (meson inj_onD)
  with assms(1-3) show "i = k" by (auto simp: staged_ok_def)
qed

lemma staged_ok_expire: "staged_ok libs s \<Longrightarrow> staged_ok libs (expire_uploads now s)"
proof -
  assume ok: "staged_ok libs s"
  let ?gone = "map (\<lambda>(i, u). up_path u) (filter (\<lambda>(i, u). up_expires u < now) (st_uploads s))"
  have "up_expires u < now" if g: "gm_get (st_uploads s) i = Some u" "up_path u \<in> set ?gone" for i u
  proof -
    obtain k v where v: "(k, v) \<in> set (st_uploads s)" "up_expires v < now" "up_path u = up_path v" using g(2) by auto
    have "gm_get (st_uploads s) k = Some v" using ok v(1) by (simp add: staged_ok_def gm_get_iff)
    with staged_path_owner(1) [OF ok g(1) _ v(3)] v(2) show ?thesis by blast
  qed
  then show ?thesis unfolding expire_uploads_def Let_def by (intro staged_ok_remove [OF ok refl refl]) blast
qed

lemma staged_ok_add:
  assumes "staged_ok libs s" "length (st_uploads s) < 20" "gm_get (st_files s) (up_path u) = None" "gm_get (st_uploads s) (up_id u) = None"
    and "kind_limit (up_kind u) = Some limit" "length b \<le> limit" "length b = up_size u" "validateUpload libs (Some b) (up_kind u) = None"
  shows "staged_ok libs (s\<lparr>st_uploads := gm_put (st_uploads s) (up_id u) u, st_files := gm_put (st_files s) (up_path u) b\<rparr>)"
proof -
  let ?U = "gm_put (st_uploads s) (up_id u) u"
  have U: "gm_ok (st_uploads s)" using assms(1) by (simp add: staged_ok_def)
  have other: "up_path v \<noteq> up_path u" if v: "gm_get (st_uploads s) i = Some v" for i v
  proof -
    obtain c where "gm_get (st_files s) (up_path v) = Some c" using assms(1) v unfolding staged_ok_def by blast
    with assms(3) show ?thesis by auto
  qed
  have mem: "(i, v) \<in> set ?U \<longleftrightarrow> (i, v) = (up_id u, u) \<or> (i, v) \<in> set (st_uploads s) \<and> i \<noteq> up_id u" for i v
  proof -
    have "gm_ok ?U" using U by simp
    from gm_get_iff [OF this] gm_get_iff [OF U] show ?thesis by (metis gm_get_put option.inject prod.inject)
  qed
  have "inj_on up_path (snd ` set ?U)"
  proof (rule inj_onI)
    fix x y assume x: "x \<in> snd ` set ?U" and y: "y \<in> snd ` set ?U" and eq: "up_path x = up_path y"
    obtain i k where i: "(i, x) \<in> set ?U" and k: "(k, y) \<in> set ?U" using x y by force
    have old: "z = u \<or> (up_path z \<noteq> up_path u \<and> z \<in> snd ` set (st_uploads s))" if z: "(l, z) \<in> set ?U" for l z
    proof (cases "(l, z) \<in> set (st_uploads s)")
      case True
      then have "z \<in> snd ` set (st_uploads s)" by (metis image_eqI snd_conv)
      moreover have "up_path z \<noteq> up_path u" using other True gm_get_iff [OF U] by blast
      ultimately show ?thesis by blast
    next
      case False
      with z mem show ?thesis by blast
    qed
    from old [OF i] old [OF k] eq assms(1) show "x = y" unfolding staged_ok_def by (metis inj_onD)
  qed
  moreover have "length ?U \<le> 20"
  proof -
    have "length (AList.update k v m) \<le> Suc (length m)" for k :: string and v :: staged_upload and m by (induction m) auto
    with assms(2) show ?thesis by (metis gm_put_def less_Suc_eq_le order_trans Suc_leI)
  qed
  ultimately show ?thesis using assms other by (auto simp: staged_ok_def)
qed

text \<open>The uploads an activation picks.\<close>

definition usable :: "upload_libs \<Rightarrow> apply_env \<Rightarrow> staging \<Rightarrow> string \<Rightarrow> staged_upload \<Rightarrow> bool" where
  "usable libs env s i u \<longleftrightarrow> gm_get (st_uploads s) i = Some u \<and> up_actor u = ae_actor env \<and> \<not> up_expires u < ae_now env \<and>
     validateUpload libs (gm_get (st_files s) (up_path u)) (up_kind u) = None"

lemma list_all2_right: "list_all2 R xs ys \<Longrightarrow> y \<in> set ys \<Longrightarrow> \<exists>x \<in> set xs. R x y"
  by (induction rule: list_all2_induct) auto

lemma pick_sound:
  "pick_uploads libs env ids s picked = Inr us \<Longrightarrow> distinct (map up_kind picked) \<Longrightarrow>
    distinct (map up_kind us) \<and> (\<exists>new. us = picked @ new \<and> list_all2 (usable libs env s) ids new)"
proof (induction ids arbitrary: picked)
  case (Cons i ids)
  from Cons.prems(1) obtain u where u: "usable libs env s i u" "up_kind u \<notin> set (map up_kind picked)"
    "pick_uploads libs env ids s (picked @ [u]) = Inr us"
    by (auto simp: usable_def split: option.splits if_splits)
  have "distinct (map up_kind (picked @ [u]))" using Cons.prems(2) u(2) by simp
  from Cons.IH [OF u(3) this] obtain new where "distinct (map up_kind us)" "us = (picked @ [u]) @ new" "list_all2 (usable libs env s) ids new"
    by blast
  with u(1) show ?case by (intro conjI exI [of _ "u # new"]) simp_all
qed simp

lemma gm_del_prune: "gm_del m k = gm_prune (\<lambda>x _. x = k) m"
  by (simp add: gm_del_def gm_prune_def AList.delete_eq) (metis)

lemma staged_ok_delete: "staged_ok libs s \<Longrightarrow> staged_ok libs (snd (delete_upload actor i s))"
proof -
  assume ok: "staged_ok libs s"
  show ?thesis
  proof (cases "\<exists>u. gm_get (st_uploads s) i = Some u \<and> up_actor u = actor")
    case False
    with ok show ?thesis by (auto simp: delete_upload_def split: option.splits)
  next
    case True
    then obtain u where u: "gm_get (st_uploads s) i = Some u" "up_actor u = actor" by blast
    have i: "up_id u = i" using ok u(1) by (simp add: staged_ok_def)
    have "staged_ok libs (s\<lparr>st_uploads := gm_prune (\<lambda>x _. x = i) (st_uploads s), st_files := gm_prune (\<lambda>x _. x \<in> {up_path u}) (st_files s)\<rparr>)"
      by (rule staged_ok_remove [OF ok refl refl]) (use staged_path_owner(2) [OF ok _ u(1)] in blast)
    with u i show ?thesis by (simp add: delete_upload_def gm_del_prune)
  qed
qed

lemma staged_ok_remove_uploads:
  assumes "staged_ok libs s" "\<forall>u \<in> set us. \<exists>i. gm_get (st_uploads s) i = Some u"
  shows "staged_ok libs (remove_uploads us s)"
proof -
  have "i \<in> set (map up_id us)" if g: "gm_get (st_uploads s) i = Some u" "up_path u \<in> set (map up_path us)" for i u
  proof -
    obtain v where v: "v \<in> set us" "up_path u = up_path v" using g(2) by auto
    then obtain k where k: "gm_get (st_uploads s) k = Some v" using assms(2) by blast
    have "u = v" by (rule staged_path_owner(1) [OF assms(1) g(1) k v(2)])
    moreover have "up_id u = i" using assms(1) g(1) by (simp add: staged_ok_def)
    ultimately show ?thesis using v(1) by force
  qed
  then show ?thesis unfolding remove_uploads_def Let_def by (intro staged_ok_remove [OF assms(1) refl refl])
qed

lemma apply_staging:
  assumes "applyUploads libs env ids start c = (res, c')"
  shows "cs_staging c' = cs_staging c \<or> (\<exists>us. pick_uploads libs env ids (cs_staging c) [] = Inr us \<and> cs_staging c' = remove_uploads us (cs_staging c))"
  using assms by (auto simp: applyUploads_def Let_def split: if_splits sum.splits prod.splits bool.splits option.splits)

lemma staged_ok_apply:
  assumes "staged_ok libs (cs_staging c)"
  shows "staged_ok libs (cs_staging (snd (applyUploads libs env ids start c)))"
proof -
  obtain res c' where run: "applyUploads libs env ids start c = (res, c')" by fastforce
  from apply_staging [OF run] show ?thesis
  proof
    assume "\<exists>us. pick_uploads libs env ids (cs_staging c) [] = Inr us \<and> cs_staging c' = remove_uploads us (cs_staging c)"
    then obtain us where us: "pick_uploads libs env ids (cs_staging c) [] = Inr us" "cs_staging c' = remove_uploads us (cs_staging c)" by blast
    have "list_all2 (usable libs env (cs_staging c)) ids us" using pick_sound [OF us(1)] by simp
    then have "\<forall>u \<in> set us. \<exists>i. gm_get (st_uploads (cs_staging c)) i = Some u"
      using list_all2_right by (fastforce simp: usable_def)
    from staged_ok_remove_uploads [OF assms this] show ?thesis by (simp add: run us(2))
  qed (simp add: run assms)
qed

lemma upload_cases:
  assumes "upload libs env form s = (a, s')"
  shows "s' = s \<or> s' = expire_uploads (ue_now env) s \<or>
    (\<exists>path u b limit. ue_temp env = Some path \<and> up_path u = path \<and> up_id u = ''upload_'' @ ue_token env \<and>
      length (st_uploads (expire_uploads (ue_now env) s)) < 20 \<and> kind_limit (up_kind u) = Some limit \<and> length b \<le> limit \<and>
      length b = up_size u \<and> validateUpload libs (Some b) (up_kind u) = None \<and>
      s' = (expire_uploads (ue_now env) s)\<lparr>st_uploads := gm_put (st_uploads (expire_uploads (ue_now env) s)) (up_id u) u,
        st_files := gm_put (st_files (expire_uploads (ue_now env) s)) path b\<rparr>)"
proof (cases "form = None \<or> kind_limit (uf_field (the form)) = None")
  case True
  with assms show ?thesis by (auto simp: upload_def split: option.splits)
next
  case False
  then obtain f limit where f: "form = Some f" "kind_limit (uf_field f) = Some limit" by auto
  let ?s = "expire_uploads (ue_now env) s"
  define b where "b = take (limit + 1) (uf_content f)"
  note run = assms [unfolded upload_def f option.case Let_def, folded b_def]
  show ?thesis
  proof (cases "length (st_uploads ?s) < 20 \<and> ue_temp env \<noteq> None \<and> \<not> uf_broken f \<and> length b \<le> limit \<and> \<not> uf_more f \<and> ue_sync env \<and>
      validateUpload libs (Some b) (uf_field f) = None")
    case False
    with run have "s' = ?s" by (auto split: option.splits if_splits)
    then show ?thesis by blast
  next
    case True
    then obtain path where path: "ue_temp env = Some path" by auto
    define u where "u = \<lparr>up_id = ''upload_'' @ ue_token env, up_kind = uf_field f, up_name = filepath_Base (uf_file f),
      up_size = length b, up_expires = ue_now env + hour_ns, up_actor = ue_actor env, up_path = path\<rparr>"
    have "s' = ?s\<lparr>st_uploads := gm_put (st_uploads ?s) (up_id u) u, st_files := gm_put (st_files ?s) path b\<rparr>"
      using run path True by (auto simp: u_def not_le)
    moreover have "up_path u = path" "up_id u = ''upload_'' @ ue_token env" "kind_limit (up_kind u) = Some limit" "length b = up_size u"
      "up_kind u = uf_field f" using f by (simp_all add: u_def)
    ultimately show ?thesis using path True
      by (intro disjI2) (rule exI [of _ path], rule exI [of _ u], rule exI [of _ b], rule exI [of _ limit], simp)
  qed
qed

lemma expire_absent: "gm_get (st_files s) p = None \<Longrightarrow> gm_ok (st_files s) \<Longrightarrow> gm_get (st_files (expire_uploads now s)) p = None"
  "gm_get (st_uploads s) i = None \<Longrightarrow> gm_ok (st_uploads s) \<Longrightarrow> gm_get (st_uploads (expire_uploads now s)) i = None"
  by (simp_all add: expire_uploads_def Let_def gm_get_prune)

lemma staged_ok_upload:
  assumes "staged_ok libs s" "\<And>p. ue_temp env = Some p \<Longrightarrow> gm_get (st_files s) p = None" "gm_get (st_uploads s) (''upload_'' @ ue_token env) = None"
  shows "staged_ok libs (snd (upload libs env form s))"
proof -
  obtain a s' where run: "upload libs env form s = (a, s')" by fastforce
  let ?s = "expire_uploads (ue_now env) s"
  have ok: "staged_ok libs ?s" using assms(1) by (rule staged_ok_expire)
  have fresh: "gm_ok (st_files s)" "gm_ok (st_uploads s)" using assms(1) by (simp_all add: staged_ok_def)
  from upload_cases [OF run] consider "s' = s" | "s' = ?s" | path u b limit where "ue_temp env = Some path" "up_path u = path"
    "up_id u = ''upload_'' @ ue_token env" "length (st_uploads ?s) < 20" "kind_limit (up_kind u) = Some limit" "length b \<le> limit"
    "length b = up_size u" "validateUpload libs (Some b) (up_kind u) = None"
    "s' = ?s\<lparr>st_uploads := gm_put (st_uploads ?s) (up_id u) u, st_files := gm_put (st_files ?s) path b\<rparr>" by blast
  then show ?thesis
  proof cases
    case 3
    have "gm_get (st_files ?s) (up_path u) = None" "gm_get (st_uploads ?s) (up_id u) = None"
      using 3(1-3) assms(2,3) expire_absent fresh by auto
    from staged_ok_add [OF ok 3(4) this 3(5-8)] 3(2,9) run show ?thesis by simp
  qed (use run assms(1) ok in simp_all)
qed

interpretation upload_staging: step_system "\<lambda>s. st_uploads s = [] \<and> st_files s = []" "staging_step libs" "staged_ok libs" for libs
proof unfold_locales
  show "staged_ok libs s" if "st_uploads s = [] \<and> st_files s = []" for s using that by (simp add: staged_ok_def)
  show "staged_ok libs t" if ok: "staged_ok libs s" and step: "staging_step libs s t" for s t
    using step
  proof cases
    case (uploads env form)
    then show ?thesis using staged_ok_upload [OF ok] by blast
  next
    case (deletes actor i)
    then show ?thesis using staged_ok_delete [OF ok] by simp
  next
    case (applies c env ids start)
    then show ?thesis using staged_ok_apply ok by blast
  qed
qed

text \<open>
  C12.  Whatever clients upload, delete and activate, at most twenty uploads are staged, each is stored under
  its own identifier, and the file of each is there, of the size it was reported with, within the limit of
  its kind and valid.
\<close>

theorem staged_uploads_are_valid:
  assumes "reachable_from (\<lambda>s. st_uploads s = [] \<and> st_files s = []) (staging_step libs) s"
  shows "length (st_uploads s) \<le> 20 \<and> (\<forall>i u. gm_get (st_uploads s) i = Some u \<longrightarrow> up_id u = i \<and>
    (\<exists>b limit. gm_get (st_files s) (up_path u) = Some b \<and> kind_limit (up_kind u) = Some limit \<and> length b \<le> limit \<and>
      length b = up_size u \<and> validateUpload libs (Some b) (up_kind u) = None))"
  using upload_staging.inv_reachable [OF assms] unfolding staged_ok_def by blast

section \<open>Activation\<close>

lemma activate_all_placed:
  assumes "distinct (map up_kind us)" "\<forall>u \<in> set us. kind_limit (up_kind u) \<noteq> None" "activate_all env s us g = (True, g')"
  shows "\<forall>u \<in> set us. \<exists>b. gm_get (st_files s) (up_path u) = Some b \<and>
      (if up_kind u = ''save'' then map_option sf_data (gm_get (gf_saves g') (''upload-'' @ ae_token env @ ''.zip'')) = Some b
       else gm_get (gf_mods g') (if up_kind u = ''mod-list'' then ''mod-list.json'' else ''mod-settings.dat'') = Some b)"
    "\<forall>n. n \<noteq> ''upload-'' @ ae_token env @ ''.zip'' \<or> ''save'' \<notin> set (map up_kind us) \<longrightarrow> gm_get (gf_saves g') n = gm_get (gf_saves g) n"
    "\<forall>n. n \<noteq> (''mod-list.json'') \<and> n \<noteq> ''mod-settings.dat'' \<or> n = ''mod-list.json'' \<and> ''mod-list'' \<notin> set (map up_kind us) \<or>
      n = ''mod-settings.dat'' \<and> ''mod-settings'' \<notin> set (map up_kind us) \<longrightarrow> gm_get (gf_mods g') n = gm_get (gf_mods g) n"
  using assms
proof (atomize (full), induction us arbitrary: g)
  case (Cons u us)
  obtain g1 where g1: "activate env s u g = Some g1" "activate_all env s us g1 = (True, g')"
    using Cons.prems(3) by (auto split: option.splits)
  obtain b where b: "gm_get (st_files s) (up_path u) = Some b" using g1(1) by (auto simp: activate_def split: option.splits)
  have kind: "up_kind u \<in> {''save'', ''mod-list'', ''mod-settings''}" using Cons.prems(2) by (auto simp: kind_limit_def split: if_splits)
  have g1': "g1 = (if up_kind u = ''save''
      then g\<lparr>gf_saves := gm_put (gf_saves g) (''upload-'' @ ae_token env @ ''.zip'') \<lparr>sf_data = b, sf_mtime = ae_now env, sf_dir = False\<rparr>\<rparr>
      else g\<lparr>gf_mods := gm_put (gf_mods g) (if up_kind u = ''mod-list'' then ''mod-list.json'' else ''mod-settings.dat'') b\<rparr>)"
    using g1(1) b by (auto simp: activate_def split: if_splits)
  have "distinct (map up_kind us)" "\<forall>u \<in> set us. kind_limit (up_kind u) \<noteq> None" "up_kind u \<notin> set (map up_kind us)"
    using Cons.prems(1,2) by simp_all
  note IH = Cons.IH [OF this(1,2) g1(2)] and new = this(3)
  from kind consider "up_kind u = ''save''" | "up_kind u = ''mod-list''" | "up_kind u = ''mod-settings''" by blast
  then show ?case
  proof cases
    case 1
    with IH new b g1' show ?thesis by simp
  next
    case 2
    with IH new b g1' show ?thesis by simp
  next
    case 3
    with IH new b g1' show ?thesis by simp
  qed
qed simp

lemma apply_cases:
  assumes "applyUploads libs env ids start c = (res, c')"
  shows "cs_game c' = cs_game c \<or>
    (\<exists>us. pick_uploads libs env ids (cs_staging c) [] = Inr us \<and> ae_stop env = None \<and> ae_lock env = None \<and>
      activate_all env (cs_staging c) us (cs_game c) = (fst (activate_all env (cs_staging c) us (cs_game c)), cs_game c') \<and>
      (\<exists>rest. cs_requests c' = cs_requests c @ [plain_request ActionStop [] ''Applying moderator upload''] @ rest))"
  using assms
  by (auto simp: applyUploads_def Let_def split: if_splits sum.splits prod.splits bool.splits option.splits)

text \<open>
  C32.  Game files change only by one to three uploads that exist, belong to the user who asked, have not
  expired and are still valid, one of each kind, and only after the game was asked to stop and did, with the
  shared files locked.
\<close>

theorem activation_is_guarded:
  assumes "applyUploads libs env ids start c = (res, c')" and "cs_game c' \<noteq> cs_game c"
  shows "1 \<le> length ids \<and> length ids \<le> 3 \<and> ae_stop env = None \<and> ae_lock env = None \<and>
    (\<exists>rest. cs_requests c' = cs_requests c @ [plain_request ActionStop [] ''Applying moderator upload''] @ rest) \<and>
    (\<exists>us. list_all2 (usable libs env (cs_staging c)) ids us \<and> distinct (map up_kind us))"
proof -
  from apply_cases [OF assms(1)] assms(2) obtain us where us: "pick_uploads libs env ids (cs_staging c) [] = Inr us"
    "ae_stop env = None" "ae_lock env = None"
    "\<exists>rest. cs_requests c' = cs_requests c @ [plain_request ActionStop [] ''Applying moderator upload''] @ rest" by blast
  have "1 \<le> length ids \<and> length ids \<le> 3"
    using assms by (cases ids) (auto simp: applyUploads_def split: if_splits)
  with pick_sound [OF us(1)] us show ?thesis by auto
qed

lemma apply_success:
  assumes "applyUploads libs env ids start c = (Inr sid, c')"
  obtains us where "pick_uploads libs env ids (cs_staging c) [] = Inr us" "activate_all env (cs_staging c) us (cs_game c) = (True, cs_game c')"
    "cs_staging c' = remove_uploads us (cs_staging c)" "start \<longrightarrow> cs_autolaunch c' \<and> r_kind (last (cs_requests c')) =
      (if ''save'' \<in> set (map up_kind us) then ActionChangeMap else ActionStart)"
  using assms
  by (auto simp: applyUploads_def new_save_def plain_request_def Let_def split: if_splits sum.splits prod.splits bool.splits option.splits)

text \<open>
  A successful activation puts the contents of every named upload in its place, the save under a
  new name and the two mod files under theirs, leaves every other file alone, removes the uploads from the
  staging, and when asked starts the game with the new save.
\<close>

theorem activation_places_the_uploads:
  assumes "applyUploads libs env ids start c = (Inr sid, c')" and "staged_ok libs (cs_staging c)" and "i \<in> set ids"
  shows "\<exists>u b. gm_get (st_uploads (cs_staging c)) i = Some u \<and> gm_get (st_files (cs_staging c)) (up_path u) = Some b \<and>
    (if up_kind u = ''save''
     then map_option sf_data (gm_get (gf_saves (cs_game c')) (''upload-'' @ ae_token env @ ''.zip'')) = Some b
     else gm_get (gf_mods (cs_game c')) (if up_kind u = ''mod-list'' then ''mod-list.json'' else ''mod-settings.dat'') = Some b) \<and>
    gm_get (st_uploads (cs_staging c')) i = None \<and>
    (\<forall>n. n \<noteq> ''upload-'' @ ae_token env @ ''.zip'' \<longrightarrow> gm_get (gf_saves (cs_game c')) n = gm_get (gf_saves (cs_game c)) n) \<and>
    (\<forall>n. n \<noteq> ''mod-list.json'' \<and> n \<noteq> ''mod-settings.dat'' \<longrightarrow> gm_get (gf_mods (cs_game c')) n = gm_get (gf_mods (cs_game c)) n)"
proof -
  from assms(1) obtain us where us: "pick_uploads libs env ids (cs_staging c) [] = Inr us"
    "activate_all env (cs_staging c) us (cs_game c) = (True, cs_game c')" "cs_staging c' = remove_uploads us (cs_staging c)"
    by (rule apply_success)
  from pick_sound [OF us(1)] have p: "distinct (map up_kind us)" "list_all2 (usable libs env (cs_staging c)) ids us" by simp_all
  obtain u where u: "u \<in> set us" "usable libs env (cs_staging c) i u"
    using p(2) assms(3) by (induction rule: list_all2_induct) auto
  have get: "gm_get (st_uploads (cs_staging c)) i = Some u" using u(2) by (simp add: usable_def)
  have "kind_limit (up_kind v) \<noteq> None" if v: "v \<in> set us" for v
  proof -
    obtain k where "gm_get (st_uploads (cs_staging c)) k = Some v" using list_all2_right [OF p(2) v] by (auto simp: usable_def)
    then show ?thesis using assms(2) by (auto simp: staged_ok_def)
  qed
  then have kinds: "\<forall>u \<in> set us. kind_limit (up_kind u) \<noteq> None" by blast
  note placed = activate_all_placed [OF p(1) kinds us(2)]
  have "up_id u = i" using assms(2) get by (simp add: staged_ok_def)
  then have gone: "gm_get (st_uploads (cs_staging c')) i = None"
    using assms(2) u(1) by (auto simp: us(3) remove_uploads_def Let_def staged_ok_def gm_get_prune split: option.splits)
  from placed(1) u(1) obtain b where "gm_get (st_files (cs_staging c)) (up_path u) = Some b"
    "if up_kind u = ''save'' then map_option sf_data (gm_get (gf_saves (cs_game c')) (''upload-'' @ ae_token env @ ''.zip'')) = Some b
     else gm_get (gf_mods (cs_game c')) (if up_kind u = ''mod-list'' then ''mod-list.json'' else ''mod-settings.dat'') = Some b" by blast
  with get gone placed(2,3) show ?thesis by blast
qed

section \<open>An example\<close>

definition demo_form :: upload_form where
  "demo_form = \<lparr>uf_field = ''save'', uf_file = ''m.zip'', uf_content = [1], uf_broken = False, uf_more = False\<rparr>"

definition demo_upload_env :: upload_env where
  "demo_upload_env = \<lparr>ue_now = 0, ue_actor = ''1'', ue_temp = Some ''/u/1'', ue_token = ''t'', ue_sync = True\<rparr>"

definition demo_upload :: staged_upload where
  "demo_upload = \<lparr>up_id = ''upload_t'', up_kind = ''save'', up_name = ''m.zip'', up_size = 1, up_expires = hour_ns, up_actor = ''1'', up_path = ''/u/1''\<rparr>"

definition demo_staging :: staging where
  "demo_staging = \<lparr>st_uploads = [(''upload_t'', demo_upload)], st_files = [(''/u/1'', [1])]\<rparr>"

lemma demo_uploaded: "upload demo_upload_libs demo_upload_env (Some demo_form) \<lparr>st_uploads = [], st_files = []\<rparr> = (Give 201 demo_upload, demo_staging)"
proof -
  have "filepath_Base ''m.zip'' = ''m.zip''" by (rule Base_no_slash) simp_all
  then show ?thesis
    by (simp add: upload_def demo_form_def demo_upload_env_def kind_limit_def maxUpload_def expire_uploads_def gm_prune_def demo_upload_valid
        demo_upload_def demo_staging_def gm_put_def Let_def)
qed

lemma demo_staging_reachable: "reachable_from (\<lambda>s. st_uploads s = [] \<and> st_files s = []) (staging_step demo_upload_libs) demo_staging"
proof (rule reach_step)
  let ?s = "\<lparr>st_uploads = [], st_files = []\<rparr>"
  show "reachable_from (\<lambda>s. st_uploads s = [] \<and> st_files s = []) (staging_step demo_upload_libs) ?s" by (rule reach_start) simp
  show "staging_step demo_upload_libs ?s demo_staging"
    using staging_step.uploads [of demo_upload_env ?s demo_upload_libs "Some demo_form"] by (simp add: demo_uploaded)
qed

theorem staged_uploads_are_valid_witness:
  "length (st_uploads demo_staging) \<le> 20 \<and> (\<exists>b. gm_get (st_files demo_staging) (up_path demo_upload) = Some b \<and>
     validateUpload demo_upload_libs (Some b) (up_kind demo_upload) = None)"
proof -
  have "gm_get (st_uploads demo_staging) ''upload_t'' = Some demo_upload" by (simp add: demo_staging_def gm_get_def)
  with staged_uploads_are_valid [OF demo_staging_reachable] show ?thesis by blast
qed

definition demo_apply_env :: apply_env where
  "demo_apply_env = \<lparr>ae_now = 5, ae_actor = ''1'', ae_stop = None, ae_lock = None, ae_token = ''x'', ae_copy = (\<lambda>_. None), ae_sync = True,
     ae_start_err = None, ae_ready = None\<rparr>"

definition demo_control :: control_state where
  "demo_control = \<lparr>cs_staging = demo_staging, cs_game = \<lparr>gf_saves = [], gf_mods = []\<rparr>, cs_autolaunch = True, cs_requests = []\<rparr>"

lemma demo_applied: "\<exists>sid c'. applyUploads demo_upload_libs demo_apply_env [''upload_t''] True demo_control = (Inr sid, c') \<and> cs_game c' \<noteq> cs_game demo_control"
  by (simp add: applyUploads_def demo_control_def demo_staging_def demo_apply_env_def demo_upload_def activate_def new_save_def
      demo_upload_valid gm_get_def Let_def) (simp add: gm_put_def)

theorem activation_is_guarded_witness:
  "\<exists>sid c' us. applyUploads demo_upload_libs demo_apply_env [''upload_t''] True demo_control = (Inr sid, c') \<and>
     list_all2 (usable demo_upload_libs demo_apply_env demo_staging) [''upload_t''] us"
proof -
  obtain sid c' where run: "applyUploads demo_upload_libs demo_apply_env [''upload_t''] True demo_control = (Inr sid, c')"
    "cs_game c' \<noteq> cs_game demo_control" using demo_applied by blast
  have "cs_staging demo_control = demo_staging" by (simp add: demo_control_def)
  with activation_is_guarded [OF run] run(1) show ?thesis by metis
qed

theorem activation_places_the_uploads_witness:
  "\<exists>sid c'. applyUploads demo_upload_libs demo_apply_env [''upload_t''] True demo_control = (Inr sid, c') \<and>
     gm_get (st_uploads (cs_staging c')) ''upload_t'' = None"
proof -
  obtain sid c' where run: "applyUploads demo_upload_libs demo_apply_env [''upload_t''] True demo_control = (Inr sid, c')"
    using demo_applied by blast
  have "staged_ok demo_upload_libs (cs_staging demo_control)"
    using upload_staging.inv_reachable [OF demo_staging_reachable] by (simp add: demo_control_def)
  from activation_places_the_uploads [OF run this, of "''upload_t''"] run show ?thesis by auto
qed

end
