(* ===== verification/Control_Actions_Properties.thy ===== *)
theory Control_Actions_Properties
  imports Control_Actions Control_Jobs_Properties Control_Files_Properties Saves_Properties
begin

text \<open>
  What the actions of the web control promise: what runs is what its moderator saw and confirmed, on the
  state they saw, once; a lost answer can be asked for again; the map that is loaded exists; and an edit of
  the mod list does what was asked and nothing else.
\<close>

section \<open>Confirmation\<close>

lemma do_action_accepted:
  assumes "do_action env a action key target (Some p) rt = (JobReply 202 v, rt')"
  obtains q pv j where "with_target target p = Some q" "gm_get (rt_previews rt) (an_digest env (pa_token p)) = Some pv"
    "pv_actor pv = ac_id a" "pv_action pv = action" "pv_hash pv = an_digest env (an_marshal env (q\<lparr>pa_token := []\<rparr>))"
    "an_now env \<le> pv_expires pv" "pv_revision pv = an_revision env"
    "Start ((an_start env)\<lparr>se_digest := an_digest env\<rparr>) (rt_server rt) a action key (an_marshal env (q\<lparr>pa_token := []\<rparr>)) (rt_jobs rt) = (JobOk 202 v, j)"
    "rt' = rt\<lparr>rt_jobs := j, rt_previews := gm_del (rt_previews rt) (an_digest env (pa_token p))\<rparr>"
    "known_action rt action" "ValidID key"
proof -
  have kv: "known_action rt action" "ValidID key" using assms by (auto simp: do_action_def split: if_splits)
  obtain q where q: "with_target target p = Some q" using assms kv by (auto simp: do_action_def Let_def split: option.splits)
  let ?b = "an_marshal env (q\<lparr>pa_token := []\<rparr>)"
  note run = assms [unfolded do_action_def Let_def q option.case]
  have look: "Lookup (an_digest env) (rt_server rt) a action key ?b (rt_jobs rt) = None"
  proof (rule ccontr)
    assume "Lookup (an_digest env) (rt_server rt) a action key ?b (rt_jobs rt) \<noteq> None"
    then obtain x where "Lookup (an_digest env) (rt_server rt) a action key ?b (rt_jobs rt) = Some x" by blast
    with run kv show False by (cases x) auto
  qed
  obtain pv where pv: "gm_get (rt_previews rt) (an_digest env (pa_token p)) = Some pv"
    using run kv look by (cases "gm_get (rt_previews rt) (an_digest env (pa_token p))") auto
  have ok: "pv_actor pv = ac_id a" "pv_action pv = action" "pv_hash pv = an_digest env ?b" "an_now env \<le> pv_expires pv"
    "pv_revision pv = an_revision env" using run kv look pv by (auto split: if_splits)
  obtain r j where st: "Start ((an_start env)\<lparr>se_digest := an_digest env\<rparr>) (rt_server rt) a action key ?b (rt_jobs rt) = (r, j)" by fastforce
  have "r = JobOk 202 v" "rt' = rt\<lparr>rt_jobs := j, rt_previews := gm_del (rt_previews rt) (an_digest env (pa_token p))\<rparr>"
    using run kv look pv ok st by (cases r; auto)+
  with q pv ok st kv show thesis by (intro that) auto
qed

text \<open>
  The control as a machine: besides the code's own state it keeps the history of what moderators were
  shown and of what was accepted.  Jobs may change in any way between two requests, and a restart
  forgets the previews.  \<open>unspent\<close> is the last preview shown with a token, unless an action was accepted
  with that token since; tokens are told apart by their digests, as in the code.
\<close>

record confirmation =
  cf_actor :: actor
  cf_action :: string
  cf_params :: params
  cf_revision :: string
  cf_now :: gotime

datatype control_event = Shown string confirmation | Accepted string

fun unspent :: "(string \<Rightarrow> string) \<Rightarrow> string \<Rightarrow> control_event list \<Rightarrow> confirmation option" where
  "unspent D token [] = None"
| "unspent D token (Shown t c # h) = (if D t = D token then Some c else unspent D token h)"
| "unspent D token (Accepted t # h) = (if D t = D token then None else unspent D token h)"

definition control_start :: "runtime \<times> control_event list \<Rightarrow> bool" where
  "control_start s \<longleftrightarrow> rt_previews (fst s) = [] \<and> snd s = []"

inductive control_step :: "(string \<Rightarrow> string) \<Rightarrow> (params \<Rightarrow> string) \<Rightarrow> runtime \<times> control_event list \<Rightarrow> runtime \<times> control_event list \<Rightarrow> bool"
  for D :: "string \<Rightarrow> string" and M :: "params \<Rightarrow> string" where
  preview_shown: "an_digest env = D \<Longrightarrow> an_marshal env = M \<Longrightarrow> with_target target p = Some q \<Longrightarrow>
    previewAction env a action target (Some p) rt = (Confirmation token, rt') \<Longrightarrow>
    control_step D M (rt, h) (rt', Shown token \<lparr>cf_actor = a, cf_action = action, cf_params = q\<lparr>pa_token := []\<rparr>,
      cf_revision = an_revision env, cf_now = an_now env\<rparr> # h)"
| preview_refused: "an_digest env = D \<Longrightarrow> an_marshal env = M \<Longrightarrow>
    previewAction env a action target body rt = (ControlError status e, rt') \<Longrightarrow> control_step D M (rt, h) (rt', h)"
| action_accepted: "an_digest env = D \<Longrightarrow> an_marshal env = M \<Longrightarrow>
    do_action env a action key target (Some p) rt = (JobReply 202 v, rt') \<Longrightarrow> control_step D M (rt, h) (rt', Accepted (pa_token p) # h)"
| action_other: "an_digest env = D \<Longrightarrow> an_marshal env = M \<Longrightarrow>
    do_action env a action key target body rt = (r, rt') \<Longrightarrow> (\<forall>v. r \<noteq> JobReply 202 v) \<Longrightarrow> control_step D M (rt, h) (rt', h)"
| jobs_move: "control_step D M (rt, h) (rt\<lparr>rt_jobs := j\<rparr>, h)"
| control_restart: "control_step D M (rt, h) (rt\<lparr>rt_jobs := j, rt_previews := []\<rparr>, h)"

definition preview_of :: "(string \<Rightarrow> string) \<Rightarrow> (params \<Rightarrow> string) \<Rightarrow> confirmation \<Rightarrow> preview" where
  "preview_of D M c = \<lparr>pv_actor = ac_id (cf_actor c), pv_action = cf_action c, pv_hash = D (M (cf_params c)),
     pv_revision = cf_revision c, pv_expires = cf_now c + 2 * minute_ns\<rparr>"

definition previews_shown :: "(string \<Rightarrow> string) \<Rightarrow> (params \<Rightarrow> string) \<Rightarrow> runtime \<times> control_event list \<Rightarrow> bool" where
  "previews_shown D M s \<longleftrightarrow> gm_ok (rt_previews (fst s)) \<and>
     (\<forall>t pv. gm_get (rt_previews (fst s)) (D t) = Some pv \<longrightarrow> (\<exists>c. unspent D t (snd s) = Some c \<and> pv = preview_of D M c))"

text \<open>No handler invents a preview: the entries after a request are old ones, but for the one just shown.\<close>

lemma previewAction_previews:
  assumes "previewAction env a action target body rt = (r, rt')"
  obtains "rt_previews rt' = rt_previews rt" "\<forall>t. r \<noteq> Confirmation t"
  | "rt_previews rt' = gm_prune (\<lambda>_ v. pv_expires v < an_now env) (rt_previews rt)" "\<forall>t. r \<noteq> Confirmation t"
  | p q where "body = Some p" "with_target target p = Some q" "r = Confirmation (an_token env)"
    "rt_previews rt' = gm_put (gm_prune (\<lambda>_ v. pv_expires v < an_now env) (rt_previews rt)) (an_digest env (an_token env))
       \<lparr>pv_actor = ac_id a, pv_action = action, pv_hash = an_digest env (an_marshal env (q\<lparr>pa_token := []\<rparr>)), pv_revision = an_revision env,
        pv_expires = an_now env + 2 * minute_ns\<rparr>"
  using assms by (auto simp: previewAction_def Let_def split: if_splits option.splits)

lemma do_action_previews:
  assumes "do_action env a action key target body rt = (r, rt')"
  shows "rt_previews rt' = rt_previews rt \<or> (\<exists>d. rt_previews rt' = gm_del (rt_previews rt) d)"
  using assms unfolding do_action_def Let_def
  by (auto split: if_splits option.splits sum.splits prod.splits job_response.splits)

lemma previews_shown_less:
  assumes "previews_shown D M (rt, h)" "gm_ok (rt_previews rt')"
    and "\<And>d pv. gm_get (rt_previews rt') d = Some pv \<Longrightarrow> gm_get (rt_previews rt) d = Some pv"
  shows "previews_shown D M (rt', h)"
  using assms by (simp add: previews_shown_def)

lemma previews_shown_step:
  assumes "previews_shown D M s" "control_step D M s s'"
  shows "previews_shown D M s'"
  using assms(2,1)
proof cases
  case (preview_shown env target p q a action rt token rt' h)
  have ok: "gm_ok (rt_previews rt)" using assms(1) preview_shown(1) by (simp add: previews_shown_def)
  show ?thesis
  proof (rule previewAction_previews [OF preview_shown(6)])
    fix p' q' assume "Some p = Some p'" "with_target target p' = Some q'" "Confirmation token = Confirmation (an_token env)"
      "rt_previews rt' = gm_put (gm_prune (\<lambda>_ v. pv_expires v < an_now env) (rt_previews rt)) (an_digest env (an_token env))
       \<lparr>pv_actor = ac_id a, pv_action = action, pv_hash = an_digest env (an_marshal env (q'\<lparr>pa_token := []\<rparr>)), pv_revision = an_revision env,
        pv_expires = an_now env + 2 * minute_ns\<rparr>"
    then show ?thesis using assms(1) preview_shown ok
      by (auto simp: previews_shown_def preview_of_def gm_prune_get_Some)
  qed simp_all
next
  case (preview_refused env a action target body rt status e rt' h)
  have ok: "gm_ok (rt_previews rt)" using assms(1) preview_refused(1) by (simp add: previews_shown_def)
  from preview_refused(5) show ?thesis unfolding preview_refused(2)
    by (rule previewAction_previews) (use assms(1) ok preview_refused(1) in \<open>auto intro!: previews_shown_less [of D M rt h] simp: gm_prune_get_Some\<close>)
next
  case (action_accepted env a action key target p rt v rt' h)
  have "rt_previews rt' = gm_del (rt_previews rt) (D (pa_token p))"
    using action_accepted(5) by (rule do_action_accepted) (simp add: action_accepted(3))
  then show ?thesis using assms(1) action_accepted(1,2) by (auto simp: previews_shown_def split: if_splits)
next
  case (action_other env a action key target body rt r rt' h)
  have "gm_ok (rt_previews rt)" using assms(1) action_other(1) by (simp add: previews_shown_def)
  with do_action_previews [OF action_other(5)] have "gm_ok (rt_previews rt')"
    "\<And>d pv. gm_get (rt_previews rt') d = Some pv \<Longrightarrow> gm_get (rt_previews rt) d = Some pv" by (auto split: if_splits)
  then show ?thesis using assms(1) action_other(1,2) by (auto intro: previews_shown_less)
qed (auto simp: previews_shown_def)

interpretation control: step_system control_start "control_step D M" "previews_shown D M" for D M
proof unfold_locales
  show "previews_shown D M s" if "control_start s" for s using that by (simp add: control_start_def previews_shown_def)
  show "previews_shown D M t" if "previews_shown D M s" "control_step D M s t" for s t using that by (rule previews_shown_step)
qed

text \<open>
  C9.  What runs is what was confirmed: in every history of the control an action is accepted only with the
  token of a preview that was shown before and has confirmed no other action since, to the same actor, at
  most two minutes earlier, for the same action with the same parameters, while the state of the server is
  still the one the preview showed; and the token is then used up.  The parameters are compared by the
  digest of their JSON encoding, so they are the same unless the two collide.
\<close>

theorem confirmed_action_is_the_previewed_one:
  assumes "reachable_from control_start (control_step (an_digest env) (an_marshal env)) (rt, h)"
    and "do_action env a action key target (Some p) rt = (JobReply 202 v, rt')"
  shows "\<exists>c q. unspent (an_digest env) (pa_token p) h = Some c \<and> ac_id (cf_actor c) = ac_id a \<and> cf_action c = action \<and>
    an_now env \<le> cf_now c + 2 * minute_ns \<and> cf_revision c = an_revision env \<and> with_target target p = Some q \<and>
    an_digest env (an_marshal env (q\<lparr>pa_token := []\<rparr>)) = an_digest env (an_marshal env (cf_params c)) \<and>
    (inj_on (an_digest env \<circ> an_marshal env) {q\<lparr>pa_token := []\<rparr>, cf_params c} \<longrightarrow> q\<lparr>pa_token := []\<rparr> = cf_params c) \<and>
    gm_get (rt_previews rt') (an_digest env (pa_token p)) = None"
proof -
  have known: "previews_shown (an_digest env) (an_marshal env) (rt, h)" by (rule control.inv_reachable [OF assms(1)])
  from assms(2) obtain q pv j where run: "with_target target p = Some q" "gm_get (rt_previews rt) (an_digest env (pa_token p)) = Some pv"
    "pv_actor pv = ac_id a" "pv_action pv = action" "pv_hash pv = an_digest env (an_marshal env (q\<lparr>pa_token := []\<rparr>))"
    "an_now env \<le> pv_expires pv" "pv_revision pv = an_revision env"
    "rt' = rt\<lparr>rt_jobs := j, rt_previews := gm_del (rt_previews rt) (an_digest env (pa_token p))\<rparr>"
    by (rule do_action_accepted)
  obtain c where c: "unspent (an_digest env) (pa_token p) h = Some c" "pv = preview_of (an_digest env) (an_marshal env) c"
    using known run(2) by (auto simp: previews_shown_def)
  have same: "an_digest env (an_marshal env (q\<lparr>pa_token := []\<rparr>)) = an_digest env (an_marshal env (cf_params c))"
    using run(5) by (simp add: c(2) preview_of_def)
  then have "inj_on (an_digest env \<circ> an_marshal env) {q\<lparr>pa_token := []\<rparr>, cf_params c} \<longrightarrow> q\<lparr>pa_token := []\<rparr> = cf_params c"
    by (auto dest: inj_onD)
  note inj = this
  show ?thesis
  proof (intro exI conjI)
    show "unspent (an_digest env) (pa_token p) h = Some c" "with_target target p = Some q" by (fact c(1) run(1))+
    show "ac_id (cf_actor c) = ac_id a" "cf_action c = action" "an_now env \<le> cf_now c + 2 * minute_ns" "cf_revision c = an_revision env"
      using run(3,4,6,7) by (simp_all add: c(2) preview_of_def)
    show "gm_get (rt_previews rt') (an_digest env (pa_token p)) = None" by (simp add: run(8))
  qed (fact same inj)+
qed

text \<open>
  When the answer to a confirmed action is lost, asking again with the same key gives the same job,
  although its preview is used up, and starts nothing.
\<close>

theorem confirmed_action_can_be_asked_again:
  assumes "do_action env a action key target (Some p) rt = (JobReply 202 v, rt')" and "store_ok (rt_jobs rt)"
    and "fresh_token (se_token (an_start env)) (rt_jobs rt)"
    and "rt_jobs later = rt_jobs rt'" and "rt_server later = rt_server rt" and "rt_primary later = rt_primary rt"
    and "an_digest env2 = an_digest env" and "an_marshal env2 = an_marshal env"
  shows "do_action env2 a action key target (Some p) later = (JobReply 200 v, later)"
proof -
  from assms(1) obtain q j where run: "with_target target p = Some q"
    "Start ((an_start env)\<lparr>se_digest := an_digest env\<rparr>) (rt_server rt) a action key (an_marshal env (q\<lparr>pa_token := []\<rparr>)) (rt_jobs rt) = (JobOk 202 v, j)"
    "rt_jobs rt' = j" "known_action rt action" "ValidID key" by (rule do_action_accepted) simp
  have fr: "fresh_token (se_token ((an_start env)\<lparr>se_digest := an_digest env\<rparr>)) (rt_jobs rt)" using assms(3) by simp
  have st: "started (an_digest env) (rt_server rt) a action key (an_marshal env (q\<lparr>pa_token := []\<rparr>)) v (rt_jobs rt) j"
    by (rule Start_cases [OF run(2) assms(2) fr]) auto
  have "Lookup (an_digest env) (rt_server rt) a action key (an_marshal env (q\<lparr>pa_token := []\<rparr>)) j = Some (Inr v)"
    using st by (simp add: started_def Lookup_def)
  moreover have "known_action later action" using run(4) assms(6) by (simp add: known_action_def)
  ultimately show ?thesis using run(1,3,5) assms(4,5,7,8) by (simp add: do_action_def Let_def)
qed

section \<open>Loading a map\<close>

text \<open>
  A request of the web control to load a map names an existing save: the lifecycle manager gets its
  name without the suffix, and the file it will stage is there and is the one the identifier stands for.
\<close>

theorem web_map_load_finds_the_save:
  assumes "lifecycle_request env i ActionChangeMap p = Inr req"
  shows "\<exists>name f. saveName (pa_save_id p) = Inr name \<and> r_save_name req @ ''.zip'' = name \<and> gm_get (xe_saves env) name = Some f \<and>
    \<not> sf_dir f \<and> CHR ''/'' \<notin> set (r_save_name req) \<and> CHR 0x5C \<notin> set (r_save_name req)"
proof -
  from assms obtain name f where n: "saveName (pa_save_id p) = Inr name" "openSave (xe_saves env) name = Some f" "r_save_name req = trim_zip name"
    by (auto simp: lifecycle_request_def Let_def split: if_splits sum.splits)
  have v: "valid_save_name name" using n(1) by (auto simp: saveName_def valid_save_name_def Let_def split: option.splits if_splits)
  then obtain q where q: "name = q @ ''.zip''" by (auto simp: valid_save_name_def has_suffix_iff)
  then have "trim_zip name = q" by (simp add: trim_zip_def has_suffix_iff)
  with n v q show ?thesis by (auto simp: openSave_def valid_save_name_def split: option.splits if_splits)
qed

section \<open>Editing the mod list\<close>

lemma entry_of_Cons: "entry_of (m # ms) n = (if md_name m = n then Some (md_enabled m) else entry_of ms n)"
  by (simp add: entry_of_def)

lemma entry_of_Nil: "entry_of [] n = None"
  by (simp add: entry_of_def)

lemma entry_of_append: "entry_of (ms @ [m]) n = (case entry_of ms n of None \<Rightarrow> if md_name m = n then Some (md_enabled m) else None | Some b \<Rightarrow> Some b)"
  by (induction ms) (simp_all add: entry_of_Cons entry_of_Nil)

lemma entry_of_None: "entry_of ms n = None \<longleftrightarrow> n \<notin> set (map md_name ms)"
  by (induction ms) (auto simp: entry_of_Cons entry_of_Nil)

lemma entry_of_set_enabled: "entry_of (set_mod_enabled name b ms) n = (if n = name \<and> name \<in> set (map md_name ms) then Some b else entry_of ms n)"
  by (induction ms) (auto simp: entry_of_Cons entry_of_Nil)

lemma names_set_enabled [simp]: "map md_name (set_mod_enabled name b ms) = map md_name ms"
  by (induction ms) auto

lemma names_remove: "set (map md_name (remove_mod name ms)) \<subseteq> set (map md_name ms)"
  by (induction ms) auto

lemma entry_of_remove: "distinct (map md_name ms) \<Longrightarrow> entry_of (remove_mod name ms) n = (if n = name then None else entry_of ms n)"
  by (induction ms) (auto simp: entry_of_Cons entry_of_Nil entry_of_None)

lemma distinct_remove: "distinct (map md_name ms) \<Longrightarrow> distinct (map md_name (remove_mod name ms))"
proof (induction ms)
  case (Cons m ms)
  then show ?case using names_remove [of name ms] by auto
qed simp

text \<open>What an operation makes of an entry.\<close>

definition asked :: "string \<Rightarrow> bool option" where
  "asked operation = (if operation = ''remove'' then None else Some (operation \<noteq> ''disable''))"

lemma edit_mod_entry:
  assumes "edit_mod env operation name mods = Some (Inr mods')" "\<not> IsBaseMod name" "distinct (map md_name mods)"
  shows "distinct (map md_name mods') \<and> (\<forall>n. entry_of mods' n = (if n = name then asked operation else entry_of mods n))"
proof -
  consider "operation = ''add''" "name \<notin> set (map md_name mods)" "mods' = mods @ [\<lparr>md_name = name, md_enabled = True\<rparr>]"
    | "operation = ''enable'' \<or> operation = ''disable''" "name \<in> set (map md_name mods)" "mods' = set_mod_enabled name (operation = ''enable'') mods"
    | "operation = ''remove''" "mods' = remove_mod name mods"
    using assms(1,2) by (auto simp: edit_mod_def Let_def split: if_splits)
  then show ?thesis
  proof cases
    case 1
    then have "entry_of mods name = None" by (simp add: entry_of_None)
    with 1 assms(3) show ?thesis by (auto simp: entry_of_append asked_def split: option.splits)
  next
    case 2
    with assms(3) show ?thesis by (auto simp: entry_of_set_enabled asked_def)
  next
    case 3
    with assms(3) show ?thesis by (simp add: entry_of_remove distinct_remove asked_def)
  qed
qed

lemma edit_each_entry:
  "edit_each env operation names mods = Some (Inr mods') \<Longrightarrow> \<forall>n \<in> set names. \<not> IsBaseMod n \<Longrightarrow> distinct (map md_name mods) \<Longrightarrow>
    distinct (map md_name mods') \<and> (\<forall>n. entry_of mods' n = (if n \<in> set names then asked operation else entry_of mods n))"
proof (induction names arbitrary: mods)
  case (Cons name names)
  from Cons.prems(1) obtain mods1 where m: "edit_mod env operation name mods = Some (Inr mods1)" "edit_each env operation names mods1 = Some (Inr mods')"
    by (auto split: option.splits sum.splits)
  note one = edit_mod_entry [OF m(1) _ Cons.prems(3)]
  from Cons.IH [OF m(2)] one Cons.prems(2) show ?case by auto
qed simp

text \<open>
  An edit of the mod list that is written does what was asked to the mods that were named and nothing
  to any other, names no mod twice, and is acceptable to the check of the bundled mods; it is made only
  while the game is stopped.
\<close>

theorem edited_list_is_as_asked:
  assumes "editMods env p = Some (Inr (WroteMods mods'))" and "em_list env = Some mods" and "distinct (map md_name mods)"
    and "\<forall>n \<in> set (pa_mods p). \<not> IsBaseMod n"
  shows "em_stopped env \<and> distinct (map md_name mods') \<and> ValidateBuiltinModDependencies (em_folder env) mods' = None \<and>
    (\<forall>n. entry_of mods' n = (if n \<in> set (pa_mods p) then asked (pa_operation p) else entry_of mods n))"
proof -
  have "edit_each env (pa_operation p) (pa_mods p) mods = Some (Inr mods')" "em_stopped env"
    "ValidateBuiltinModDependencies (em_folder env) mods' = None"
    using assms(1,2) by (auto simp: editMods_def split: if_splits option.splits sum.splits)
  with edit_each_entry [OF this(1) assms(4,3)] show ?thesis by blast
qed

section \<open>An example\<close>

definition demo_params :: params where
  "demo_params = \<lparr>pa_reason = [], pa_when_empty = False, pa_force = False, pa_save_id = saveID ''old.zip'', pa_exchange_string = [],
     pa_command = [], pa_operation = ''remove'', pa_mods = [''flib''], pa_version = [], pa_player = [], pa_level = 0, pa_ip = [],
     pa_upload_ids = [], pa_start = False, pa_token = ''c''\<rparr>"

text \<open>An encoding of the parameters for the example, on the fields it uses.\<close>

definition enc_params :: "params \<Rightarrow> string" where
  "enc_params p = pa_save_id p @ [CHR 0x0A] @ pa_operation p @ [CHR 0x0A] @ concat (pa_mods p) @ [CHR 0x0A] @ pa_token p"

definition demo_action_env :: action_env where
  "demo_action_env = \<lparr>an_digest = (\<lambda>s. s), an_marshal = enc_params, an_now = 0, an_token = ''c'', an_revision = ''r'', an_start = demo_start\<rparr>"

definition demo_runtime :: runtime where
  "demo_runtime = \<lparr>rt_jobs = sy_jobs empty_sys, rt_previews = [], rt_server = ''srv'', rt_primary = True\<rparr>"

lemma demo_known: "known_action demo_runtime ''map-reset''" "ValidID ''k''"
  by (simp_all add: known_action_def control_actions_def demo_runtime_def ValidID_def is_token_char_def is_alpha_def is_digit_def)

lemma demo_previewed: "\<exists>rt1. previewAction demo_action_env demo_actor ''map-reset'' [] (Some demo_params) demo_runtime = (Confirmation ''c'', rt1) \<and>
    rt_jobs rt1 = rt_jobs demo_runtime \<and> rt_primary rt1 \<and>
    gm_get (rt_previews rt1) ''c'' = Some \<lparr>pv_actor = ''1'', pv_action = ''map-reset'', pv_hash = enc_params (demo_params\<lparr>pa_token := []\<rparr>),
      pv_revision = ''r'', pv_expires = 2 * minute_ns\<rparr>"
  using demo_known(1) by (simp add: previewAction_def with_target_def demo_action_env_def Let_def) (simp add: demo_runtime_def demo_actor_def gm_prune_def)

lemma demo_confirmed:
  obtains rt1 v rt2 where "previewAction demo_action_env demo_actor ''map-reset'' [] (Some demo_params) demo_runtime = (Confirmation ''c'', rt1)"
    "do_action demo_action_env demo_actor ''map-reset'' ''k'' [] (Some demo_params) rt1 = (JobReply 202 v, rt2)" "rt_jobs rt1 = rt_jobs demo_runtime"
proof -
  obtain rt1 where p: "previewAction demo_action_env demo_actor ''map-reset'' [] (Some demo_params) demo_runtime = (Confirmation ''c'', rt1)"
    "rt_jobs rt1 = rt_jobs demo_runtime" "rt_primary rt1"
    "gm_get (rt_previews rt1) ''c'' = Some \<lparr>pv_actor = ''1'', pv_action = ''map-reset'', pv_hash = enc_params (demo_params\<lparr>pa_token := []\<rparr>),
      pv_revision = ''r'', pv_expires = 2 * minute_ns\<rparr>" using demo_previewed by blast
  have k: "known_action rt1 ''map-reset''" using p(3) by (simp add: known_action_def control_actions_def)
  have jobs: "rt_jobs rt1 = \<lparr>js_items = [], js_keys = [], js_busy = [], js_pending = [], js_dir = []\<rparr>"
    by (simp add: p(2) demo_runtime_def empty_sys_def)
  have tok: "pa_token demo_params = ''c''" by (simp add: demo_params_def)
  have "\<exists>v rt2. do_action demo_action_env demo_actor ''map-reset'' ''k'' [] (Some demo_params) rt1 = (JobReply 202 v, rt2)"
    using k demo_known(2) p(4)
    by (simp add: do_action_def with_target_def demo_action_env_def Lookup_def jobs Start_def save_job_def demo_start_def tok demo_actor_def Let_def)
  with p(1,2) that show thesis by blast
qed

lemma demo_target: "with_target [] demo_params = Some demo_params"
  by (simp add: with_target_def)

theorem confirmed_action_is_the_previewed_one_witness:
  "\<exists>rt1 c v rt2. reachable_from control_start (control_step (\<lambda>s. s) enc_params) (rt1, [Shown ''c'' c]) \<and>
     do_action demo_action_env demo_actor ''map-reset'' ''k'' [] (Some demo_params) rt1 = (JobReply 202 v, rt2) \<and>
     cf_action c = ''map-reset'' \<and> cf_actor c = demo_actor \<and> gm_get (rt_previews rt2) ''c'' = None"
proof -
  obtain rt1 v rt2 where r: "previewAction demo_action_env demo_actor ''map-reset'' [] (Some demo_params) demo_runtime = (Confirmation ''c'', rt1)"
    "do_action demo_action_env demo_actor ''map-reset'' ''k'' [] (Some demo_params) rt1 = (JobReply 202 v, rt2)" by (rule demo_confirmed)
  let ?c = "\<lparr>cf_actor = demo_actor, cf_action = ''map-reset'', cf_params = demo_params\<lparr>pa_token := []\<rparr>,
      cf_revision = an_revision demo_action_env, cf_now = an_now demo_action_env\<rparr>"
  have env: "an_digest demo_action_env = (\<lambda>s. s)" "an_marshal demo_action_env = enc_params" by (simp_all add: demo_action_env_def)
  have "reachable_from control_start (control_step (\<lambda>s. s) enc_params) (demo_runtime, [])"
    by (rule reach_start) (simp add: control_start_def demo_runtime_def)
  then have reach: "reachable_from control_start (control_step (\<lambda>s. s) enc_params) (rt1, [Shown ''c'' ?c])"
    by (rule reach_step) (rule preview_shown [OF env demo_target r(1)])
  have t: "pa_token demo_params = ''c''" by (simp add: demo_params_def)
  from confirmed_action_is_the_previewed_one [where env = demo_action_env, unfolded env, OF reach r(2)] r(2) reach show ?thesis
    by (intro exI [of _ rt1] exI [of _ ?c] exI [of _ v] exI [of _ rt2]) (auto simp: t)
qed

theorem confirmed_action_can_be_asked_again_witness:
  "\<exists>v rt2. do_action demo_action_env demo_actor ''map-reset'' ''k'' [] (Some demo_params) rt2 = (JobReply 200 v, rt2)"
proof -
  obtain rt1 v rt2 where r: "do_action demo_action_env demo_actor ''map-reset'' ''k'' [] (Some demo_params) rt1 = (JobReply 202 v, rt2)"
    "rt_jobs rt1 = rt_jobs demo_runtime" by (rule demo_confirmed)
  have ok: "store_ok (rt_jobs rt1)" "fresh_token (se_token (an_start demo_action_env)) (rt_jobs rt1)"
    by (simp_all add: r(2) demo_runtime_def empty_sys_def store_ok_def dir_ok_def fresh_token_def)
  have "rt_server rt2 = rt_server rt1" "rt_primary rt2 = rt_primary rt1" using r(1) by (auto elim!: do_action_accepted)
  from confirmed_action_can_be_asked_again [OF r(1) ok refl this refl refl] show ?thesis by blast
qed

theorem web_map_load_finds_the_save_witness:
  "\<exists>req. lifecycle_request \<lparr>xe_hours = True, xe_saves = demo_saves, xe_submit = None, xe_ready = None\<rparr> ''j'' ActionChangeMap demo_params = Inr req \<and>
     r_save_name req @ ''.zip'' = ''old.zip''"
proof -
  have "saveName (saveID ''old.zip'') = Inr ''old.zip''" by (rule saveName_saveID [OF old_zip_valid])
  then obtain req where req: "lifecycle_request \<lparr>xe_hours = True, xe_saves = demo_saves, xe_submit = None, xe_ready = None\<rparr> ''j'' ActionChangeMap demo_params = Inr req"
    by (simp add: lifecycle_request_def demo_params_def openSave_def demo_saves_get save_at_def)
  have "saveName (pa_save_id demo_params) = Inr ''old.zip''" using \<open>saveName (saveID ''old.zip'') = Inr ''old.zip''\<close> by (simp add: demo_params_def)
  with web_map_load_finds_the_save [OF req] req show ?thesis by auto
qed

theorem edited_list_is_as_asked_witness:
  "\<exists>mods'. editMods \<lparr>em_stopped = True, em_list = Some [\<lparr>md_name = ''flib'', md_enabled = True\<rparr>], em_prefs = [], em_portal = (\<lambda>_. None), em_folder = Missing, em_write = True\<rparr>
      demo_params = Some (Inr (WroteMods mods')) \<and> entry_of mods' ''flib'' = None"
proof -
  let ?env = "\<lparr>em_stopped = True, em_list = Some [\<lparr>md_name = ''flib'', md_enabled = True\<rparr>], em_prefs = [], em_portal = (\<lambda>_. None), em_folder = Missing, em_write = True\<rparr>"
  have base: "\<not> IsBaseMod ''flib''" by (simp add: IsBaseMod_def)
  have p: "pa_mods demo_params = [''flib'']" "pa_operation demo_params = ''remove''" by (simp_all add: demo_params_def)
  have "validModName ''flib''" by (simp add: validModName_def is_token_char_def is_alpha_def is_digit_def)
  moreover have "ValidateBuiltinModDependencies Missing [] = None" by (simp add: ValidateBuiltinModDependencies_def)
  ultimately have run: "editMods ?env demo_params = Some (Inr (WroteMods []))"
    using base by (simp add: editMods_def p edit_mod_def Let_def)
  from edited_list_is_as_asked [OF run] base run show ?thesis by (auto simp: p asked_def)
qed

end
