(* ===== verification/Text_Clean.thy ===== *)
theory Text_Clean
  imports CW_Prelude
begin

text \<open>
  Cleaning text for Discord, the game and the file system (sclean/clean.go).  Strings are bytes; decoding of
  UTF-8 is that of package \<open>unicode/utf8\<close>.  The Unicode tables above ASCII are the argument \<open>uni\<close>: whether a
  rune is printable and no space.  The regular expressions are written as the functions they stand for.
\<close>

section \<open>UTF-8\<close>

definition continues :: "char \<Rightarrow> bool" where
  "continues c \<longleftrightarrow> 0x80 \<le> (of_char c :: nat) \<and> (of_char c :: nat) \<le> 0xBF"

text \<open>By the first byte, the length of the encoded rune and the range of its second byte.\<close>

definition rune_shape :: "nat \<Rightarrow> nat \<times> nat \<times> nat" where
  "rune_shape a =
     (if a < 0x80 then (1, 0, 0)
      else if 0xC2 \<le> a \<and> a \<le> 0xDF then (2, 0x80, 0xBF)
      else if a = 0xE0 then (3, 0xA0, 0xBF)
      else if a = 0xED then (3, 0x80, 0x9F)
      else if 0xE1 \<le> a \<and> a \<le> 0xEF then (3, 0x80, 0xBF)
      else if a = 0xF0 then (4, 0x90, 0xBF)
      else if 0xF1 \<le> a \<and> a \<le> 0xF3 then (4, 0x80, 0xBF)
      else if a = 0xF4 then (4, 0x80, 0x8F)
      else (0, 0, 0))"

text \<open>The length of the encoded rune a string starts with, 0 for none.\<close>

definition rune_len :: "string \<Rightarrow> nat" where
  "rune_len s =
     (case s of
        [] \<Rightarrow> 0
      | c # r \<Rightarrow>
          (let (k, lo, hi) = rune_shape (of_char c) in
           if k \<le> 1 then k
           else if k \<le> length s \<and> lo \<le> of_char (hd r) \<and> of_char (hd r) \<le> hi \<and> list_all continues (take (k - 2) (tl r)) then k
           else 0))"

definition rune_of :: "string \<Rightarrow> nat" where
  "rune_of ch =
     (case map of_char ch of
        [a] \<Rightarrow> a
      | [a, b] \<Rightarrow> (a mod 32) * 64 + b mod 64
      | [a, b, c] \<Rightarrow> (a mod 16) * 4096 + (b mod 64) * 64 + c mod 64
      | [a, b, c, d] \<Rightarrow> (a mod 8) * 262144 + (b mod 64) * 4096 + (c mod 64) * 64 + d mod 64
      | _ \<Rightarrow> 0)"

text \<open>The encoded runes of a string; bytes that are no part of one are left out, as \<open>strings.ToValidUTF8\<close> does.\<close>

function runes :: "string \<Rightarrow> string list" where
  "runes [] = []"
| "runes (c # s) = (let k = rune_len (c # s) in if k = 0 then runes s else take k (c # s) # runes (drop k (c # s)))"
  by pat_completeness auto
termination by (relation "measure length") auto

declare runes.simps [simp del]

section \<open>Operations\<close>

definition keep_rune :: "(nat \<Rightarrow> bool) \<Rightarrow> string \<Rightarrow> bool" where
  "keep_rune uni ch \<longleftrightarrow> (let r = rune_of ch in if r < 0x80 then 32 \<le> r \<and> r \<le> 126 else uni r)"

definition UnicodeCleanup :: "(nat \<Rightarrow> bool) \<Rightarrow> string \<Rightarrow> string" where
  "UnicodeCleanup uni s = concat (filter (keep_rune uni) (runes s))"

definition AlphaOnly :: "string \<Rightarrow> string" where
  "AlphaOnly s = filter is_alpha s"

definition NumOnly :: "string \<Rightarrow> string" where
  "NumOnly s = filter is_digit s"

definition AlphaNumOnly :: "string \<Rightarrow> string" where
  "AlphaNumOnly s = filter (\<lambda>c. is_alpha c \<or> is_digit c) s"

definition UnixPreFilter :: "string \<Rightarrow> string" where
  "UnixPreFilter s = filter (\<lambda>c. is_alpha c \<or> is_digit c \<or> c = CHR ''-'' \<or> c = CHR ''_'') s"

definition TruncateString :: "string \<Rightarrow> nat \<Rightarrow> string" where
  "TruncateString s num = (if num < length s then take num s else s)"

definition TruncateStringEllipsis :: "string \<Rightarrow> nat \<Rightarrow> string" where
  "TruncateStringEllipsis s num =
     (if num < length s then take (if 3 < num then num - 3 else num) s @ ''...'' else s)"

text \<open>\<open>strings.ReplaceAll\<close> for a pattern that is not empty.\<close>

function replace_all :: "string \<Rightarrow> string \<Rightarrow> string \<Rightarrow> string" where
  "replace_all p r [] = []"
| "replace_all p r (c # s) =
     (if p \<noteq> [] \<and> has_prefix (c # s) p then r @ replace_all p r (drop (length p) (c # s)) else c # replace_all p r s)"
  by pat_completeness auto
termination by (relation "measure (\<lambda>(p, r, s). length s)") auto

declare replace_all.simps [simp del]

definition trim_prefix :: "string \<Rightarrow> string \<Rightarrow> string" where
  "trim_prefix s p = (if has_prefix s p then drop (length p) s else s)"

definition trim_suffix :: "string \<Rightarrow> string \<Rightarrow> string" where
  "trim_suffix s p = (if has_suffix s p then take (length s - length p) s else s)"

definition UnixSafeFilename :: "(nat \<Rightarrow> bool) \<Rightarrow> string \<Rightarrow> string" where
  "UnixSafeFilename uni s =
     (let s = UnicodeCleanup uni s; s = replace_all '' '' ''_'' s; s = replace_all ''..'' ''_'' s; s = replace_all ''.'' ''_'' s;
          s = UnixPreFilter s; s = trim_prefix s ''.''; s = trim_prefix s ''.''; s = trim_suffix s ''.sh''
      in TruncateString s 64)"

definition EscapeDiscordMarkdown :: "string \<Rightarrow> string" where
  "EscapeDiscordMarkdown s =
     (let bs = [CHR 0x5C];
          s = replace_all bs (bs @ bs) s; s = replace_all ''_'' (bs @ ''_'') s; s = replace_all ''*'' (bs @ ''*'') s;
          s = replace_all ''~'' (bs @ ''~'') s; s = replace_all [CHR 0x60] (bs @ [CHR 0x60]) s
      in replace_all ''|'' (bs @ ''|'') s)"

text \<open>The loop runs at most once: its body removes everything its condition looks for.\<close>

definition RemoveDiscordMarkdown :: "string \<Rightarrow> string" where
  "RemoveDiscordMarkdown s =
     (if CHR ''*'' \<in> set s \<or> CHR ''~'' \<in> set s \<or> CHR ''_'' \<in> set s
      then filter (\<lambda>c. c \<noteq> CHR ''*'' \<and> c \<noteq> CHR ''~'' \<and> c \<noteq> CHR ''_'' \<and> c \<noteq> CHR 0x60) s else s)"

text \<open>An opening tag: its start and everything up to the next closing bracket, removed wherever it matches.\<close>

function strip_open :: "string \<Rightarrow> string \<Rightarrow> string" where
  "strip_open p [] = []"
| "strip_open p (c # s) =
     (let rest = drop (length p) (c # s) in
      if has_prefix (c # s) p \<and> CHR '']'' \<in> set rest then strip_open p (tl (dropWhile (\<lambda>d. d \<noteq> CHR '']'') rest))
      else c # strip_open p s)"
  by pat_completeness auto
termination
proof (relation "measure (\<lambda>(p, s). length s)")
  fix p :: string and c :: char and s x :: string
  assume x: "x = drop (length p) (c # s)" and h: "has_prefix (c # s) p \<and> CHR '']'' \<in> set x"
  have "dropWhile (\<lambda>d. d \<noteq> CHR '']'') x \<noteq> []" using h by (simp add: dropWhile_eq_Nil_conv)
  moreover have "length (dropWhile (\<lambda>d. d \<noteq> CHR '']'') x) \<le> length (c # s)"
    by (metis x length_dropWhile_le length_drop diff_le_self le_trans)
  ultimately show "((p, tl (dropWhile (\<lambda>d. d \<noteq> CHR '']'') x)), p, c # s) \<in> measure (\<lambda>(p, s). length s)"
    by (cases "dropWhile (\<lambda>d. d \<noteq> CHR '']'') x") auto
qed auto

declare strip_open.simps [simp del]

definition tag_match :: "string \<Rightarrow> string \<Rightarrow> bool" where
  "tag_match p s \<longleftrightarrow> strip_open p s \<noteq> s"

text \<open>What follows the closing tag a string starts with.\<close>

definition close_tag :: "string \<Rightarrow> string option" where
  "close_tag s =
     (if has_prefix s ''[/'' then
        (let body = takeWhile (\<lambda>c. c \<noteq> CHR ''['' \<and> c \<noteq> CHR '']'') (drop 2 s); rest = drop (2 + length body) s
         in if body \<noteq> [] \<and> has_prefix rest '']'' then Some (tl rest) else None)
      else None)"

lemma close_tag_shorter: "close_tag s = Some r \<Longrightarrow> length r < length s"
  by (cases s) (auto simp: close_tag_def Let_def has_prefix_def split: if_splits)

function strip_close :: "string \<Rightarrow> string" where
  "strip_close [] = []"
| "strip_close (c # s) = (case close_tag (c # s) of Some r \<Rightarrow> strip_close r | None \<Rightarrow> c # strip_close s)"
  by pat_completeness auto
termination by (relation "measure length") (auto dest: close_tag_shorter)

declare strip_close.simps [simp del]

lemma strip_open_length: "length (strip_open p s) \<le> length s"
proof (induction p s rule: strip_open.induct)
  case (2 p c s)
  let ?rest = "drop (length p) (c # s)"
  have "length (tl (dropWhile (\<lambda>d. d \<noteq> CHR '']'') ?rest)) \<le> length (c # s)"
    by (metis length_dropWhile_le length_drop length_tl diff_le_self le_trans)
  with 2 show ?case by (auto simp: strip_open.simps Let_def)
qed (simp add: strip_open.simps)

lemma strip_open_shorter: "tag_match p s \<Longrightarrow> length (strip_open p s) < length s"
proof (induction p s rule: strip_open.induct)
  case (2 p c s)
  let ?rest = "drop (length p) (c # s)" and ?after = "tl (dropWhile (\<lambda>d. d \<noteq> CHR '']'') (drop (length p) (c # s)))"
  show ?case
  proof (cases "has_prefix (c # s) p \<and> CHR '']'' \<in> set ?rest")
    case True
    then have "dropWhile (\<lambda>d. d \<noteq> CHR '']'') ?rest \<noteq> []" by (simp add: dropWhile_eq_Nil_conv)
    then have "length ?after < length (dropWhile (\<lambda>d. d \<noteq> CHR '']'') ?rest)"
      by (cases "dropWhile (\<lambda>d. d \<noteq> CHR '']'') ?rest") auto
    also have "\<dots> \<le> length (c # s)" by (metis length_dropWhile_le length_drop diff_le_self le_trans)
    finally have "length ?after < length (c # s)" .
    with strip_open_length [of p ?after] True show ?thesis by (simp add: strip_open.simps)
  next
    case False
    then have "strip_open p (c # s) = c # strip_open p s" by (auto simp: strip_open.simps)
    with 2(2) [OF refl False] "2.prems" show ?thesis by (simp add: tag_match_def)
  qed
qed (simp add: tag_match_def strip_open.simps)

lemma strip_close_length: "length (strip_close s) \<le> length s"
proof (induction s rule: strip_close.induct)
  case (2 c s)
  show ?case
  proof (cases "close_tag (c # s)")
    case (Some r)
    with 2(2) [OF Some] close_tag_shorter [OF Some] show ?thesis by (simp add: strip_close.simps)
  qed (use 2 in \<open>simp add: strip_close.simps\<close>)
qed (simp add: strip_close.simps)

lemma strip_close_shorter: "strip_close s \<noteq> s \<Longrightarrow> length (strip_close s) < length s"
proof (induction s rule: strip_close.induct)
  case (2 c s)
  show ?case
  proof (cases "close_tag (c # s)")
    case (Some r)
    with close_tag_shorter [OF Some] strip_close_length [of r] show ?thesis by (simp add: strip_close.simps)
  qed (use 2 in \<open>simp add: strip_close.simps\<close>)
qed (simp add: strip_close.simps)

function remove_open_tags :: "string \<Rightarrow> string" where
  "remove_open_tags s =
     (if tag_match ''[color='' s \<or> tag_match ''[font='' s then remove_open_tags (strip_open ''[font='' (strip_open ''[color='' s)) else s)"
  by pat_completeness auto
termination
proof (relation "measure length")
  fix s assume m: "tag_match ''[color='' s \<or> tag_match ''[font='' s"
  have "length (strip_open ''[font='' (strip_open ''[color='' s)) < length s"
  proof (cases "tag_match ''[color='' s")
    case True
    from strip_open_shorter [OF this] strip_open_length show ?thesis by (rule le_less_trans [rotated])
  next
    case False
    with m strip_open_shorter show ?thesis by (simp add: tag_match_def)
  qed
  then show "(strip_open ''[font='' (strip_open ''[color='' s), s) \<in> measure length" by simp
qed simp

declare remove_open_tags.simps [simp del]

function remove_close_tags :: "string \<Rightarrow> string" where
  "remove_close_tags s = (if strip_close s \<noteq> s then remove_close_tags (strip_close s) else s)"
  by pat_completeness auto
termination by (relation "measure length") (auto dest: strip_close_shorter)

declare remove_close_tags.simps [simp del]

definition RemoveFactorioTags :: "string \<Rightarrow> string" where
  "RemoveFactorioTags s =
     (let blank = map (\<lambda>c. if c = CHR 0x0A \<or> c = CHR 0x0D \<or> c = CHR 0x09 then CHR '' '' else c) s
      in remove_close_tags (remove_open_tags blank))"

end
