(* ===== verification/Text_Clean_Facts.thy ===== *)
theory Text_Clean_Facts
  imports Text_Clean
begin

text \<open>
  Cleaned text: the concatenation of encoded runes that may be shown.  Cleaning gives such text and
  leaves it alone, and it stays such text when a stretch between two ASCII characters is taken out of it.
\<close>

section \<open>Encoded runes\<close>

definition valid_rune :: "string \<Rightarrow> bool" where
  "valid_rune ch \<longleftrightarrow> ch \<noteq> [] \<and> rune_len ch = length ch"

lemma rune_shape_bounds: "rune_shape a = (k, lo, hi) \<Longrightarrow> k \<le> 4 \<and> (1 < k \<longrightarrow> 0x80 \<le> a \<and> 0x80 \<le> lo)"
  by (auto simp: rune_shape_def split: if_splits)

lemma rune_len_le: "rune_len s \<le> length s"
  by (auto simp: rune_len_def split: list.splits prod.splits)

lemma rune_len_append: "valid_rune ch \<Longrightarrow> rune_len (ch @ t) = length ch"
proof (cases ch)
  case (Cons c r)
  assume v: "valid_rune ch"
  obtain k lo hi where s: "rune_shape (of_char c) = (k, lo, hi)" by (metis prod_cases3)
  from v have k: "k = length ch" by (auto simp: valid_rune_def rune_len_def Cons s split: if_splits)
  show ?thesis
  proof (cases "k \<le> 1")
    case True
    with k show ?thesis by (simp add: rune_len_def Cons s)
  next
    case False
    then obtain d q where r: "r = d # q" using k by (cases r) (auto simp: Cons)
    from v k False show ?thesis by (simp add: valid_rune_def rune_len_def Cons s r split: if_splits)
  qed
qed (simp add: valid_rune_def)

lemma rune_len_take: "rune_len s \<noteq> 0 \<Longrightarrow> valid_rune (take (rune_len s) s)"
proof (cases s)
  case (Cons c r)
  assume n: "rune_len s \<noteq> 0"
  obtain k lo hi where s: "rune_shape (of_char c) = (k, lo, hi)" by (metis prod_cases3)
  have k: "rune_len s = k" using n by (auto simp: rune_len_def Cons s split: if_splits)
  show ?thesis
  proof (cases "k \<le> 1")
    case True
    with k n have "k = 1" by simp
    with s k show ?thesis by (simp add: valid_rune_def rune_len_def Cons)
  next
    case False
    then have "k \<le> length s" using k rune_len_le [of s] by simp
    then obtain d q where r: "r = d # q" using False by (cases r) (auto simp: Cons)
    obtain m where m: "k = Suc (Suc m)" using False by (metis Suc_le_D Suc_leI le_Suc_eq not_less_eq_eq One_nat_def)
    from n k False show ?thesis
      by (auto simp: valid_rune_def rune_len_def Cons s r m min_def split: if_splits)
  qed
qed (simp add: rune_len_def)

lemma runes_valid: "ch \<in> set (runes s) \<Longrightarrow> valid_rune ch"
  by (induction s rule: runes.induct) (auto simp: runes.simps Let_def rune_len_take split: if_splits)

lemma runes_concat: "\<forall>ch \<in> set cs. valid_rune ch \<Longrightarrow> runes (concat cs) = cs"
proof (induction cs)
  case (Cons ch cs)
  then have v: "valid_rune ch" by simp
  then obtain c r where ch: "ch = c # r" by (cases ch) (auto simp: valid_rune_def)
  have "rune_len (ch @ concat cs) = length ch" using rune_len_append [OF v] .
  with Cons show ?case by (simp add: ch runes.simps Let_def)
qed (simp add: runes.simps)

text \<open>An ASCII byte in an encoded rune is the whole rune.\<close>

definition ascii :: "char \<Rightarrow> bool" where "ascii c \<longleftrightarrow> (of_char c :: nat) < 0x80"

lemma valid_rune_ascii: "valid_rune ch \<Longrightarrow> c \<in> set ch \<Longrightarrow> ascii c \<Longrightarrow> ch = [c]"
proof (cases ch)
  case (Cons d r)
  assume v: "valid_rune ch" and c: "c \<in> set ch" "ascii c"
  obtain k lo hi where s: "rune_shape (of_char d) = (k, lo, hi)" by (metis prod_cases3)
  note b = rune_shape_bounds [OF s]
  have k: "k = length ch" using v by (auto simp: valid_rune_def rune_len_def Cons s split: if_splits)
  show ?thesis
  proof (cases "k \<le> 1")
    case True
    with k Cons c show ?thesis by simp
  next
    case False
    then obtain e q where r: "r = e # q" using k by (cases r) (auto simp: Cons)
    have "\<not> ascii d" "lo \<le> of_char e" "list_all continues q"
      using v k False b by (auto simp: valid_rune_def rune_len_def Cons s r ascii_def split: if_splits)
    moreover have "\<not> ascii e" using calculation(2) b False by (simp add: ascii_def)
    ultimately have "\<forall>x \<in> set ch. \<not> ascii x" by (auto simp: Cons r list_all_iff continues_def ascii_def)
    with c show ?thesis by blast
  qed
qed simp

lemma valid_rune_single: "valid_rune [c] \<longleftrightarrow> ascii c"
  by (auto simp: valid_rune_def rune_len_def ascii_def rune_shape_def Let_def)

section \<open>Cleaned text\<close>

definition cleaned :: "(nat \<Rightarrow> bool) \<Rightarrow> string \<Rightarrow> bool" where
  "cleaned uni s \<longleftrightarrow> (\<exists>cs. s = concat cs \<and> (\<forall>ch \<in> set cs. valid_rune ch \<and> keep_rune uni ch))"

lemma UnicodeCleanup_cleaned: "cleaned uni (UnicodeCleanup uni s)"
  unfolding cleaned_def UnicodeCleanup_def by (rule exI [of _ "filter (keep_rune uni) (runes s)"]) (auto dest: runes_valid)

lemma cleaned_UnicodeCleanup: "cleaned uni s \<Longrightarrow> UnicodeCleanup uni s = s"
  by (auto simp: cleaned_def UnicodeCleanup_def runes_concat filter_True)

lemma cleaned_Nil [simp]: "cleaned uni []"
  by (auto simp: cleaned_def intro: exI [of _ "[]"])

lemma cleaned_append: "cleaned uni a \<Longrightarrow> cleaned uni b \<Longrightarrow> cleaned uni (a @ b)"
  unfolding cleaned_def by (metis (no_types, lifting) Un_iff concat_append set_append)

lemma concat_split_ascii:
  "concat cs = a @ c # b \<Longrightarrow> ascii c \<Longrightarrow> \<forall>ch \<in> set cs. valid_rune ch \<Longrightarrow> \<exists>xs ys. cs = xs @ [c] # ys \<and> concat xs = a \<and> concat ys = b"
proof (induction cs arbitrary: a)
  case (Cons ch cs)
  from Cons.prems(1) consider u where "a = ch @ u" "concat cs = u @ c # b" | u where "ch = a @ c # u" "b = u @ concat cs"
    by (auto simp: append_eq_append_conv2 append_eq_Cons_conv Cons_eq_append_conv)
  then show ?case
  proof cases
    case 1
    from Cons.IH [OF 1(2) Cons.prems(2)] Cons.prems(3) obtain xs ys where "cs = xs @ [c] # ys" "concat xs = u" "concat ys = b" by auto
    with 1 show ?thesis by (intro exI [of _ "ch # xs"] exI [of _ ys]) simp
  next
    case 2
    have "ch = [c]" by (rule valid_rune_ascii) (use 2 Cons.prems in auto)
    with 2(1) have "a = []" "u = []" by (cases a; simp)+
    with 2 \<open>ch = [c]\<close> show ?thesis by (intro exI [of _ "[]"] exI [of _ cs]) simp
  qed
qed simp

lemma cleaned_split: "cleaned uni (a @ c # b) \<Longrightarrow> ascii c \<Longrightarrow> cleaned uni a \<and> cleaned uni b \<and> keep_rune uni [c]"
proof -
  assume "cleaned uni (a @ c # b)" and c: "ascii c"
  then obtain cs where cs: "concat cs = a @ c # b" "\<forall>ch \<in> set cs. valid_rune ch \<and> keep_rune uni ch" unfolding cleaned_def by metis
  then obtain xs ys where "cs = xs @ [c] # ys" "concat xs = a" "concat ys = b" using concat_split_ascii [OF cs(1) c] by auto
  with cs(2) show ?thesis by (auto simp: cleaned_def)
qed

lemma keep_ascii: "ascii c \<Longrightarrow> keep_rune uni [c] \<longleftrightarrow> 32 \<le> (of_char c :: nat) \<and> (of_char c :: nat) \<le> 126"
  by (simp add: keep_rune_def rune_of_def ascii_def Let_def)

lemma cleaned_ascii: "cleaned uni s \<Longrightarrow> c \<in> set s \<Longrightarrow> ascii c \<Longrightarrow> 32 \<le> (of_char c :: nat) \<and> (of_char c :: nat) \<le> 126"
  by (metis cleaned_split keep_ascii split_list)

end
