(* ===== verification/Game_Output.thy ===== *)
theory Game_Output
  imports Text_Clean_Facts Go_Base64
begin

text \<open>
  What is written to the standard input of the game (fact/util.go, fact/softmod_protocol.go): console
  commands and chat, each as one line.  \<open>uni\<close> stands for the Unicode tables, \<open>marshal\<close> for the JSON encoding
  of a request of the SoftMod and \<open>deflate\<close>, \<open>inflate\<close> for zlib.  Formatting with \<open>Sprintf\<close> is done by the caller,
  so a text is the formatted one.
\<close>

section \<open>The pipe\<close>

text \<open>What \<open>io.WriteString\<close> may return.\<close>

datatype pipe_error = ErrClosedPipe | ErrClosed | OtherError string

text \<open>\<open>gp_open\<close> is the generation of the process the pipe belongs to; \<open>gp_lines\<close> what was written, oldest first.\<close>

record game_pipe =
  gp_open :: bool
  gp_generation :: uint64
  gp_lines :: "string list"
  gp_health :: "(uint64 \<times> string) list"
  gp_sequence :: uint64

definition MaxDiscordMsgLen :: nat where "MaxDiscordMsgLen = 2000"

definition classifyFactorioPipeError :: "pipe_error \<Rightarrow> string" where
  "classifyFactorioPipeError err =
     (case err of
        ErrClosedPipe \<Rightarrow> ''stdin-closed''
      | ErrClosed \<Rightarrow> ''stdin-closed''
      | OtherError e \<Rightarrow>
          (let lowerErr = to_lower e in
           if contains_str lowerErr ''broken pipe'' then ''stdin-broken-pipe''
           else if contains_str lowerErr ''file already closed'' then ''stdin-closed''
           else if contains_str lowerErr ''closed pipe'' then ''stdin-closed''
           else ''stdin-write-failed''))"

text \<open>\<open>fault\<close> is the error of the write, and how many bytes of the line got through.\<close>

definition WriteFact :: "(nat \<Rightarrow> bool) \<Rightarrow> (pipe_error \<times> nat) option \<Rightarrow> string \<Rightarrow> game_pipe \<Rightarrow> game_pipe" where
  "WriteFact uni fault input p =
     (let buf = UnicodeCleanup uni input in
      if MaxDiscordMsgLen < length buf \<or> length buf \<le> 1 then p
      else if \<not> gp_open p then p\<lparr>gp_health := gp_health p @ [(gp_generation p, ''stdin-missing'')]\<rparr>
      else case fault of
          None \<Rightarrow> p\<lparr>gp_lines := gp_lines p @ [buf @ [CHR 0x0A]]\<rparr>
        | Some (err, n) \<Rightarrow>
            p\<lparr>gp_lines := gp_lines p @ [take n (buf @ [CHR 0x0A])],
              gp_health := gp_health p @ [(gp_generation p, classifyFactorioPipeError err)]\<rparr>)"

section \<open>The SoftMod\<close>

record softmod_request =
  sr_version :: nat
  sr_id :: string
  sr_command :: string
  sr_data :: string

definition SoftModProtocolVersion :: nat where "SoftModProtocolVersion = 1"

text \<open>The errors of the encoder do not occur when writing to memory.\<close>

definition EncodeSoftModPayload :: "(byte list \<Rightarrow> byte list) \<Rightarrow> byte list \<Rightarrow> string" where
  "EncodeSoftModPayload deflate payload = b64_encode True (deflate payload)"

text \<open>\<open>inflate\<close> gives what the reader yields and whether it then fails; \<open>None\<close> for a bad header.\<close>

definition DecodeSoftModPayload :: "(byte list \<Rightarrow> (byte list \<times> bool) option) \<Rightarrow> string \<Rightarrow> byte list option" where
  "DecodeSoftModPayload inflate encoded =
     (case base64_DecodeString True encoded of
        None \<Rightarrow> None
      | Some compressed \<Rightarrow>
          (case inflate compressed of
             None \<Rightarrow> None
           | Some (payload, broken) \<Rightarrow>
               (let maxPayload = 1024 * 1024; got = take (maxPayload + 1) payload in
                if broken \<and> length payload \<le> maxPayload then None else if maxPayload < length got then None else Some got)))"

text \<open>The libraries and the running SoftMod; \<open>None\<close> from \<open>marshal\<close> is data JSON cannot encode.\<close>

record game_env =
  ge_uni :: "nat \<Rightarrow> bool"
  ge_fault :: "(pipe_error \<times> nat) option"
  ge_softmod :: bool
  ge_marshal :: "softmod_request \<Rightarrow> byte list option"
  ge_deflate :: "byte list \<Rightarrow> byte list"

definition WriteSoftModCommand :: "game_env \<Rightarrow> string \<Rightarrow> string \<Rightarrow> game_pipe \<Rightarrow> string \<times> game_pipe" where
  "WriteSoftModCommand env command data p =
     (let n = gp_sequence p + 1; i = ''cw-'' @ itoa (unat n); p = p\<lparr>gp_sequence := n\<rparr>;
          request = \<lparr>sr_version = SoftModProtocolVersion, sr_id = i, sr_command = command, sr_data = data\<rparr>
      in case ge_marshal env request of
           None \<Rightarrow> ([], p)
         | Some payload \<Rightarrow>
             (i, WriteFact (ge_uni env) (ge_fault env) (''/chatwire '' @ EncodeSoftModPayload (ge_deflate env) payload) p))"

section \<open>Chat\<close>

definition trim_left :: "string \<Rightarrow> string \<Rightarrow> string" where
  "trim_left s cutset = dropWhile (\<lambda>c. c \<in> set cutset) s"

definition trim_right :: "string \<Rightarrow> string \<Rightarrow> string" where
  "trim_right s cutset = rev (dropWhile (\<lambda>c. c \<in> set cutset) (rev s))"

definition plain_chat :: "(nat \<Rightarrow> bool) \<Rightarrow> string \<Rightarrow> string" where
  "plain_chat uni input =
     (let input = UnicodeCleanup uni input; input = RemoveFactorioTags input; input = RemoveDiscordMarkdown input
      in trim_right (trim_left input '' /'') '' '')"

text \<open>\<open>json_text\<close> and \<open>json_whisper\<close> give the JSON objects of the two requests.\<close>

definition FactChat :: "game_env \<Rightarrow> (string \<Rightarrow> string) \<Rightarrow> string \<Rightarrow> game_pipe \<Rightarrow> game_pipe" where
  "FactChat env json_text input p =
     (if input = [] then p
      else
        (let input = TruncateStringEllipsis input 2048 in
         if ge_softmod env then snd (WriteSoftModCommand env ''chat'' (json_text input) p)
         else WriteFact (ge_uni env) (ge_fault env) (plain_chat (ge_uni env) input) p))"

definition FactWhisper :: "game_env \<Rightarrow> (string \<Rightarrow> string \<Rightarrow> string) \<Rightarrow> string \<Rightarrow> string \<Rightarrow> game_pipe \<Rightarrow> game_pipe" where
  "FactWhisper env json_whisper player input p =
     (let input = TruncateStringEllipsis input 2048 in
      if ge_softmod env then snd (WriteSoftModCommand env ''whisper'' (json_whisper player input) p)
      else WriteFact (ge_uni env) (ge_fault env) (''/whisper '' @ player @ '' '' @ plain_chat (ge_uni env) input) p)"

definition AddFactColor :: "(nat \<Rightarrow> bool) \<Rightarrow> string \<Rightarrow> string \<Rightarrow> string" where
  "AddFactColor uni color s =
     (let s = UnicodeCleanup uni s; s = RemoveDiscordMarkdown s; s = RemoveFactorioTags s;
          color = UnicodeCleanup uni color; color = RemoveFactorioTags color; color = trim_space color; color = to_lower color
      in ''[color='' @ color @ '']'' @ s @ ''[/color]'')"

end
