(* ===== verification/Game_Output_Properties.thy ===== *)
theory Game_Output_Properties
  imports Game_Output
begin

text \<open>
  What may reach the console of the game: one printable line per write, chat that is never a command, and
  requests of the SoftMod that decode to what was sent or are not sent at all.
\<close>

section \<open>Cleaned text stays clean\<close>

lemma cleaned_filter:
  assumes "cleaned uni s" and "\<And>c. \<not> P c \<Longrightarrow> ascii c"
  shows "cleaned uni (filter P s)"
proof -
  obtain cs where cs: "s = concat cs" "\<forall>ch \<in> set cs. valid_rune ch \<and> keep_rune uni ch" using assms(1) by (auto simp: cleaned_def)
  have "filter P ch = (if list_all P ch then ch else [])" if "ch \<in> set cs" for ch
  proof (cases "list_all P ch")
    case False
    then obtain c where "c \<in> set ch" "\<not> P c" by (auto simp: list_all_iff)
    with assms(2) cs(2) that have "ch = [c]" by (auto intro: valid_rune_ascii)
    with \<open>\<not> P c\<close> show ?thesis by simp
  qed (simp add: list_all_iff)
  then have "filter P s = concat (map (\<lambda>ch. if list_all P ch then ch else []) cs)" by (simp add: cs(1) filter_concat cong: map_cong)
  also have "\<dots> = concat (filter (list_all P) cs)" by (induction cs) auto
  finally show ?thesis using cs(2) by (auto simp: cleaned_def)
qed

lemma cleaned_dropWhile:
  assumes "cleaned uni s" and "\<And>c. P c \<Longrightarrow> ascii c"
  shows "cleaned uni (dropWhile P s)"
  using assms
proof (induction s)
  case (Cons c s)
  show ?case
  proof (cases "P c")
    case True
    with Cons.prems cleaned_split [of uni "[]" c s] have "cleaned uni s" by simp
    with Cons True show ?thesis by simp
  qed (use Cons.prems in simp)
qed simp

lemma cleaned_trim_right:
  assumes "cleaned uni s" and "\<And>c. c \<in> set cutset \<Longrightarrow> ascii c"
  shows "cleaned uni (trim_right s cutset)"
  using assms(1)
proof (induction s rule: rev_induct)
  case (snoc c s)
  show ?case
  proof (cases "c \<in> set cutset")
    case True
    with assms(2) snoc.prems cleaned_split [of uni s c "[]"] have "cleaned uni s" by simp
    with snoc True show ?thesis by (simp add: trim_right_def)
  qed (use snoc.prems in \<open>simp add: trim_right_def\<close>)
qed (simp add: trim_right_def)

lemma cleaned_cut: "cleaned uni (a @ c # m @ d # b) \<Longrightarrow> ascii c \<Longrightarrow> ascii d \<Longrightarrow> cleaned uni (a @ b)"
  by (metis append_Cons append_assoc cleaned_append cleaned_split)

lemma ascii_bracket [simp]: "ascii (CHR ''['')" "ascii (CHR '']'')"
  by (simp_all add: ascii_def)

lemma tag_cut:
  assumes "has_prefix s (CHR ''['' # p)" and "CHR '']'' \<in> set (drop (Suc (length p)) s)"
  shows "\<exists>m. s = CHR ''['' # m @ CHR '']'' # tl (dropWhile (\<lambda>d. d \<noteq> CHR '']'') (drop (Suc (length p)) s))"
proof -
  let ?r = "drop (Suc (length p)) s"
  have s: "s = CHR ''['' # p @ ?r" using assms(1) by (metis append_Cons append_take_drop_id has_prefix_def length_Cons)
  obtain b where b: "dropWhile (\<lambda>d. d \<noteq> CHR '']'') ?r = CHR '']'' # b"
  proof (cases "dropWhile (\<lambda>d. d \<noteq> CHR '']'') ?r")
    case Nil
    with assms(2) show ?thesis by (auto simp: dropWhile_eq_Nil_conv)
  next
    case (Cons c b)
    then have "c = CHR '']''" using hd_dropWhile [of "\<lambda>d. d \<noteq> CHR '']''" ?r] by simp
    with Cons that show ?thesis by simp
  qed
  have "?r = takeWhile (\<lambda>d. d \<noteq> CHR '']'') ?r @ CHR '']'' # b" by (metis b takeWhile_dropWhile_id)
  with s have "s = CHR ''['' # (p @ takeWhile (\<lambda>d. d \<noteq> CHR '']'') ?r) @ CHR '']'' # b" by simp
  then show ?thesis unfolding b list.sel(3) by (rule exI)
qed

lemma cleaned_strip_open: "cleaned uni (a @ s) \<Longrightarrow> cleaned uni (a @ strip_open (CHR ''['' # p) s)"
proof (induction "CHR ''['' # p" s arbitrary: a rule: strip_open.induct)
  case (2 c s)
  let ?rest = "drop (length (CHR ''['' # p)) (c # s)"
  show ?case
  proof (cases "has_prefix (c # s) (CHR ''['' # p) \<and> CHR '']'' \<in> set ?rest")
    case True
    then have r: "has_prefix (c # s) (CHR ''['' # p)" "CHR '']'' \<in> set (drop (Suc (length p)) (c # s))" by simp_all
    obtain m where m: "c # s = CHR ''['' # m @ CHR '']'' # tl (dropWhile (\<lambda>d. d \<noteq> CHR '']'') (drop (Suc (length p)) (c # s)))"
      using tag_cut [OF r] by blast
    have "cleaned uni (a @ tl (dropWhile (\<lambda>d. d \<noteq> CHR '']'') (drop (Suc (length p)) (c # s))))"
      by (rule cleaned_cut [of uni a "CHR ''[''" m "CHR '']''"]) (use 2(3) m in \<open>simp_all only: ascii_bracket\<close>)
    with 2(1) [OF refl True] True show ?thesis by (simp add: strip_open.simps)
  next
    case False
    then have "strip_open (CHR ''['' # p) (c # s) = c # strip_open (CHR ''['' # p) s" by (auto simp: strip_open.simps)
    with 2(2) [OF refl False, of "a @ [c]"] 2(3) show ?thesis by simp
  qed
qed (simp add: strip_open.simps)

lemma close_tag_cut: "close_tag s = Some r \<Longrightarrow> \<exists>m. s = CHR ''['' # m @ CHR '']'' # r"
proof -
  assume c: "close_tag s = Some r"
  define body where "body = takeWhile (\<lambda>c. c \<noteq> CHR ''['' \<and> c \<noteq> CHR '']'') (drop 2 s)"
  from c have p: "take 2 s = ''[/''" "has_prefix (drop (2 + length body) s) '']''" "r = tl (drop (2 + length body) s)"
    by (auto simp: close_tag_def has_prefix_def Let_def body_def numeral_2_eq_2 split: if_splits)
  have "drop (2 + length body) s = CHR '']'' # r"
    using p(2,3) by (cases "drop (2 + length body) s") (auto simp: has_prefix_def)
  moreover have "drop 2 s = body @ drop (2 + length body) s"
    by (metis body_def add.commute drop_drop dropWhile_eq_drop takeWhile_dropWhile_id)
  ultimately have "s = ''[/'' @ body @ CHR '']'' # r" using p(1) by (metis append_take_drop_id)
  then show ?thesis by auto
qed

lemma cleaned_strip_close: "cleaned uni (a @ s) \<Longrightarrow> cleaned uni (a @ strip_close s)"
proof (induction s arbitrary: a rule: strip_close.induct)
  case (2 c s)
  show ?case
  proof (cases "close_tag (c # s)")
    case None
    with 2(1) [OF None, of "a @ [c]"] 2(3) show ?thesis by (simp add: strip_close.simps)
  next
    case (Some r)
    obtain m where m: "c # s = CHR ''['' # m @ CHR '']'' # r" using close_tag_cut [OF Some] by blast
    have "cleaned uni (a @ r)" by (rule cleaned_cut [of uni a "CHR ''[''" m "CHR '']''"]) (use 2(3) m in \<open>simp_all only: ascii_bracket\<close>)
    with 2(2) [OF Some] Some show ?thesis by (simp add: strip_close.simps)
  qed
qed (simp add: strip_close.simps)

lemma cleaned_open_tags: "cleaned uni s \<Longrightarrow> cleaned uni (remove_open_tags s)"
proof (induction s rule: remove_open_tags.induct)
  case (1 s)
  have "cleaned uni (strip_open ''[font='' (strip_open ''[color='' s))"
    using cleaned_strip_open [of uni "[]"] 1(2) by simp
  with 1 show ?case by (subst remove_open_tags.simps) simp
qed

lemma cleaned_close_tags: "cleaned uni s \<Longrightarrow> cleaned uni (remove_close_tags s)"
proof (induction s rule: remove_close_tags.induct)
  case (1 s)
  have "cleaned uni (strip_close s)" using cleaned_strip_close [of uni "[]"] 1(2) by simp
  with 1 show ?case by (subst remove_close_tags.simps) simp
qed

lemma cleaned_RemoveFactorioTags: "cleaned uni s \<Longrightarrow> cleaned uni (RemoveFactorioTags s)"
proof -
  assume s: "cleaned uni s"
  have "\<not> (c = CHR 0x0A \<or> c = CHR 0x0D \<or> c = CHR 0x09)" if "c \<in> set s" for c
    using cleaned_ascii [OF s that] by (auto simp: ascii_def)
  then have "map (\<lambda>c. if c = CHR 0x0A \<or> c = CHR 0x0D \<or> c = CHR 0x09 then CHR '' '' else c) s = s" by (auto intro: map_idI)
  with s show ?thesis by (simp add: RemoveFactorioTags_def cleaned_close_tags cleaned_open_tags)
qed

lemma cleaned_RemoveDiscordMarkdown: "cleaned uni s \<Longrightarrow> cleaned uni (RemoveDiscordMarkdown s)"
  by (auto simp: RemoveDiscordMarkdown_def ascii_def intro!: cleaned_filter)

lemma plain_chat_cleaned: "cleaned uni (plain_chat uni s)"
  unfolding plain_chat_def Let_def trim_left_def
  by (intro cleaned_trim_right cleaned_dropWhile cleaned_RemoveDiscordMarkdown cleaned_RemoveFactorioTags UnicodeCleanup_cleaned)
    (auto simp: ascii_def)

lemma plain_chat_start: "plain_chat uni s = c # r \<Longrightarrow> c \<noteq> CHR ''/'' \<and> c \<noteq> CHR '' ''"
proof -
  assume p: "plain_chat uni s = c # r"
  define x where "x = RemoveDiscordMarkdown (RemoveFactorioTags (UnicodeCleanup uni s))"
  define y where "y = trim_left x '' /''"
  have "trim_right y '' '' = c # r" using p by (simp add: plain_chat_def x_def y_def)
  then have "\<exists>t. rev y = t @ rev (c # r)" unfolding trim_right_def by (metis rev_rev_ident takeWhile_dropWhile_id)
  then obtain t where "y = c # r @ rev t" by (metis append_Cons rev_append rev_rev_ident)
  then have "dropWhile (\<lambda>d. d \<in> set '' /'') x = c # r @ rev t" by (simp add: y_def trim_left_def)
  then have "\<not> c \<in> set '' /''" by (metis hd_dropWhile list.distinct(1) list.sel(1))
  then show ?thesis by auto
qed

section \<open>Properties\<close>

lemma WriteFact_cases:
  "gp_lines (WriteFact uni fault s p) = gp_lines p \<or>
   (\<exists>n. gp_lines (WriteFact uni fault s p) = gp_lines p @ [take n (UnicodeCleanup uni s @ [CHR 0x0A])] \<and>
     length (UnicodeCleanup uni s) \<le> MaxDiscordMsgLen \<and> (fault = None \<longrightarrow> n = Suc (length (UnicodeCleanup uni s))))"
proof (cases fault)
  case None
  then show ?thesis
    by (auto simp: WriteFact_def Let_def intro!: exI [of _ "Suc (length (UnicodeCleanup uni s))"])
next
  case (Some e)
  then show ?thesis by (cases e) (auto simp: WriteFact_def Let_def)
qed

text \<open>
  Whatever is passed to it, a write puts at most one line into the console of the game: what it writes
  has no line end but its last character and no control character, and is at most 2001 bytes long; a write
  that fails puts in a prefix of that.
\<close>

theorem one_line_per_write:
  "gp_lines (WriteFact uni fault s p) = gp_lines p \<or>
   (\<exists>n t. gp_lines (WriteFact uni fault s p) = gp_lines p @ [take n (t @ [CHR 0x0A])] \<and> length t \<le> 2000 \<and>
     (\<forall>c \<in> set t. 32 \<le> (of_char c :: nat) \<and> (of_char c :: nat) \<noteq> 127) \<and> (fault = None \<longrightarrow> Suc (length t) \<le> n))"
proof -
  have "32 \<le> (of_char c :: nat) \<and> (of_char c :: nat) \<noteq> 127" if "c \<in> set (UnicodeCleanup uni s)" for c
  proof (cases "ascii c")
    case True
    with cleaned_ascii [OF UnicodeCleanup_cleaned that] show ?thesis by simp
  qed (simp add: ascii_def)
  then show ?thesis using WriteFact_cases [of uni fault s p] unfolding MaxDiscordMsgLen_def by (metis order_refl)
qed

text \<open>
  C33.  Chat is never a command: without the SoftMod, whatever text is sent to the chat of the game, from
  Discord or built from a player's name, the line that is written starts neither with a slash nor with a
  blank, so the game takes it as a message.
\<close>

theorem chat_is_never_a_command:
  assumes "\<not> ge_softmod env" and "gp_lines (FactChat env json_text s p) = gp_lines p @ [l]" and "l \<noteq> []"
  shows "hd l \<noteq> CHR ''/'' \<and> hd l \<noteq> CHR '' ''"
proof -
  define t where "t = TruncateStringEllipsis s 2048"
  define q where "q = plain_chat (ge_uni env) t"
  have clean: "UnicodeCleanup (ge_uni env) q = q" unfolding q_def by (rule cleaned_UnicodeCleanup [OF plain_chat_cleaned])
  have "s \<noteq> []" using assms(2) by (auto simp: FactChat_def)
  then have "FactChat env json_text s p = WriteFact (ge_uni env) (ge_fault env) q p"
    using assms(1) by (simp add: FactChat_def t_def q_def)
  with assms(2) WriteFact_cases [of "ge_uni env" "ge_fault env" q p]
  obtain n where l: "l = take n (q @ [CHR 0x0A])" by (auto simp: clean)
  show ?thesis
  proof (cases q)
    case Nil
    with l assms(3) show ?thesis by (cases n) auto
  next
    case (Cons c r)
    with l assms(3) have "hd l = c" by (cases n) auto
    with plain_chat_start [of "ge_uni env" t c r] Cons show ?thesis by (simp add: q_def)
  qed
qed

lemma b64_ascii: "c \<in> set (b64_encode pad bs) \<Longrightarrow> 33 \<le> (of_char c :: nat) \<and> (of_char c :: nat) \<le> 126"
proof -
  have "list_all (\<lambda>c. 33 \<le> (of_char c :: nat) \<and> (of_char c :: nat) \<le> 126) b64_alphabet" unfolding b64_alphabet_def by code_simp
  moreover have "b64_char n \<in> set b64_alphabet" if "n < 64" for n using that by (simp add: b64_char_def alphabet_distinct)
  ultimately have "33 \<le> (of_char (b64_char n) :: nat) \<and> (of_char (b64_char n) :: nat) \<le> 126" if "n < 64" for n
    using that by (auto simp: list_all_iff)
  then show "c \<in> set (b64_encode pad bs) \<Longrightarrow> 33 \<le> (of_char c :: nat) \<and> (of_char c :: nat) \<le> 126"
    by (induction pad bs rule: b64_encode.induct) (auto split: if_splits)
qed

lemma cleaned_of_ascii: "(\<And>c. c \<in> set s \<Longrightarrow> 32 \<le> (of_char c :: nat) \<and> (of_char c :: nat) \<le> 126) \<Longrightarrow> cleaned uni s"
proof -
  assume s: "\<And>c. c \<in> set s \<Longrightarrow> 32 \<le> (of_char c :: nat) \<and> (of_char c :: nat) \<le> 126"
  have "valid_rune [c] \<and> keep_rune uni [c]" if "c \<in> set s" for c
    using s [OF that] by (simp add: valid_rune_single keep_ascii ascii_def)
  then show ?thesis unfolding cleaned_def by (intro exI [of _ "map (\<lambda>c. [c]) s"]) auto
qed

text \<open>
  A request of the SoftMod is sent whole or not at all: with an open pipe that works, the line decodes
  to the encoded request when it fits into a message; a longer one is left out, although its identifier is
  given to the caller all the same.
\<close>

theorem softmod_request_is_sent_whole:
  assumes "ge_fault env = None" and "gp_open p" and "WriteSoftModCommand env command data p = (i, p')"
    and "ge_marshal env \<lparr>sr_version = 1, sr_id = ''cw-'' @ itoa (unat (gp_sequence p + 1)), sr_command = command, sr_data = data\<rparr> = Some payload"
    and "inflate (ge_deflate env payload) = Some (payload, False)" and "length payload \<le> 1024 * 1024"
  shows "i \<noteq> [] \<and>
    (if length (b64_encode True (ge_deflate env payload)) \<le> 1990
     then \<exists>line. gp_lines p' = gp_lines p @ [''/chatwire '' @ line @ [CHR 0x0A]] \<and> DecodeSoftModPayload inflate line = Some payload
     else gp_lines p' = gp_lines p)"
proof -
  let ?b = "b64_encode True (ge_deflate env payload)"
  define full where "full = ''/chatwire '' @ ?b"
  have run: "i = ''cw-'' @ itoa (unat (gp_sequence p + 1))"
    "p' = WriteFact (ge_uni env) None full (p\<lparr>gp_sequence := gp_sequence p + 1\<rparr>)"
    using assms(1,3,4) by (simp_all add: WriteSoftModCommand_def SoftModProtocolVersion_def EncodeSoftModPayload_def full_def Let_def)
  have "cleaned (ge_uni env) full" unfolding full_def by (rule cleaned_of_ascii) (auto dest: b64_ascii)
  then have c: "UnicodeCleanup (ge_uni env) full = full" by (rule cleaned_UnicodeCleanup)
  have len: "length full = 10 + length ?b" by (simp add: full_def)
  have "base64_DecodeString True ?b = b64_quanta True ?b" by (rule DecodeString_clean) (rule b64_encode_chars)
  then have d: "DecodeSoftModPayload inflate ?b = Some payload"
    using assms(5,6) by (simp add: DecodeSoftModPayload_def b64_roundtrip)
  show ?thesis
  proof (cases "length ?b \<le> 1990")
    case True
    then have "gp_lines p' = gp_lines p @ [full @ [CHR 0x0A]]"
      by (simp add: run(2) WriteFact_def c len MaxDiscordMsgLen_def assms(2) Let_def)
    with True d run(1) show ?thesis by (auto simp: full_def)
  next
    case False
    then show ?thesis by (simp add: run WriteFact_def c len MaxDiscordMsgLen_def Let_def)
  qed
qed

section \<open>Discord\<close>

lemma replace_one: "replace_all [a] r s = concat (map (\<lambda>c. if c = a then r else [c]) s)"
proof (induction "[a]" r s rule: replace_all.induct)
  case (2 r c s)
  then show ?case by (cases "c = a") (auto simp: replace_all.simps has_prefix_def)
qed (simp add: replace_all.simps)

definition special :: "char \<Rightarrow> bool" where
  "special c \<longleftrightarrow> c \<in> set ([CHR 0x5C, CHR 0x60] @ ''_*~|'')"

fun unescape :: "string \<Rightarrow> string" where
  "unescape [] = []"
| "unescape [c] = [c]"
| "unescape (c # d # s) = (if c = CHR 0x5C then d # unescape s else c # unescape (d # s))"

lemma escape_each: "EscapeDiscordMarkdown s = concat (map (\<lambda>c. if special c then [CHR 0x5C, c] else [c]) s)"
  unfolding EscapeDiscordMarkdown_def Let_def by (induction s) (auto simp: replace_one special_def)

text \<open>
  Escaping markdown puts one backslash before each special character and changes nothing else, so
  Discord shows the text as it was: taking the backslashes away again gives the text back, and different
  texts stay different.
\<close>

theorem markdown_escape_is_exact:
  "EscapeDiscordMarkdown s = concat (map (\<lambda>c. if special c then [CHR 0x5C, c] else [c]) s) \<and>
   unescape (EscapeDiscordMarkdown s) = s"
proof -
  have "unescape (EscapeDiscordMarkdown s) = s"
  proof (induction s)
    case (Cons c s)
    show ?case
    proof (cases "EscapeDiscordMarkdown s")
      case Nil
      with Cons have "s = []" by simp
      then show ?thesis by (auto simp: escape_each)
    next
      case (Cons d r)
      then have "EscapeDiscordMarkdown (c # s) = (if special c then [CHR 0x5C, c] else [c]) @ d # r" by (simp add: escape_each)
      with Cons.IH Cons show ?thesis by (auto simp: special_def)
    qed
  qed (simp add: escape_each)
  with escape_each show ?thesis by blast
qed

section \<open>Tags\<close>

text \<open>Opening tags are removed before closing tags, and nothing looks again afterwards.\<close>

lemma closing_tag_hides_opening_tag:
  "RemoveFactorioTags ''[co[/x]lor=red]hello'' = ''[color=red]hello''"
  by code_simp

section \<open>An example\<close>

definition demo_pipe :: game_pipe where
  "demo_pipe = \<lparr>gp_open = True, gp_generation = 1, gp_lines = [], gp_health = [], gp_sequence = 0\<rparr>"

definition demo_game :: game_env where
  "demo_game = \<lparr>ge_uni = (\<lambda>_. False), ge_fault = None, ge_softmod = False, ge_marshal = (\<lambda>r. Some (bytes_of (sr_data r))), ge_deflate = (\<lambda>b. b)\<rparr>"

theorem one_line_per_write_witness:
  "\<exists>t. gp_lines (WriteFact (\<lambda>_. False) None ''ab'' demo_pipe) = [t @ [CHR 0x0A]] \<and> length t \<le> 2000"
proof -
  have "UnicodeCleanup (\<lambda>_. False) ''ab'' = ''ab''" by (rule cleaned_UnicodeCleanup, rule cleaned_of_ascii, auto)
  then have "gp_lines (WriteFact (\<lambda>_. False) None ''ab'' demo_pipe) \<noteq> gp_lines demo_pipe"
    by (simp add: WriteFact_def demo_pipe_def MaxDiscordMsgLen_def)
  with one_line_per_write [of "\<lambda>_. False" None "''ab''" demo_pipe] obtain n t
    where "gp_lines (WriteFact (\<lambda>_. False) None ''ab'' demo_pipe) = gp_lines demo_pipe @ [take n (t @ [CHR 0x0A])]"
      "length t \<le> 2000" "Suc (length t) \<le> n" by blast
  then show ?thesis by (auto simp: demo_pipe_def)
qed

theorem chat_is_never_a_command_witness:
  "gp_lines (FactChat demo_game (\<lambda>s. s) ''/ban bob'' demo_pipe) = [''ban bob'' @ [CHR 0x0A]] \<and> hd (''ban bob'' @ [CHR 0x0A]) \<noteq> CHR ''/''"
proof -
  have run: "gp_lines (FactChat demo_game (\<lambda>s. s) ''/ban bob'' demo_pipe) = [''ban bob'' @ [CHR 0x0A]]"
  proof -
    have "UnicodeCleanup (\<lambda>_. False) ''/ban bob'' = ''/ban bob''" "UnicodeCleanup (\<lambda>_. False) ''ban bob'' = ''ban bob''"
      by (rule cleaned_UnicodeCleanup, rule cleaned_of_ascii, auto)+
    moreover have "RemoveFactorioTags ''/ban bob'' = ''/ban bob''" by code_simp
    ultimately have "plain_chat (\<lambda>_. False) ''/ban bob'' = ''ban bob''" "UnicodeCleanup (\<lambda>_. False) ''ban bob'' = ''ban bob''"
      by (simp_all add: plain_chat_def RemoveDiscordMarkdown_def trim_left_def trim_right_def)
    then show ?thesis by (simp add: FactChat_def TruncateStringEllipsis_def WriteFact_def demo_game_def demo_pipe_def MaxDiscordMsgLen_def)
  qed
  moreover have "gp_lines demo_pipe = []" by (simp add: demo_pipe_def)
  ultimately show ?thesis
    using chat_is_never_a_command [of demo_game "\<lambda>s. s" "''/ban bob''" demo_pipe "''ban bob'' @ [CHR 0x0A]"] by (simp add: demo_game_def)
qed

theorem softmod_request_is_sent_whole_witness:
  "gp_lines (snd (WriteSoftModCommand demo_game ''online'' ''null'' demo_pipe)) = [''/chatwire bnVsbA=='' @ [CHR 0x0A]] \<and>
   DecodeSoftModPayload (\<lambda>b. Some (b, False)) ''bnVsbA=='' = Some (bytes_of ''null'')"
proof -
  have run: "gp_lines (snd (WriteSoftModCommand demo_game ''online'' ''null'' demo_pipe)) = [''/chatwire bnVsbA=='' @ [CHR 0x0A]]"
  proof -
    have "EncodeSoftModPayload (\<lambda>b. b) (bytes_of ''null'') = ''bnVsbA==''" by code_simp
    moreover have "UnicodeCleanup (\<lambda>_. False) ''/chatwire bnVsbA=='' = ''/chatwire bnVsbA==''"
      by (rule cleaned_UnicodeCleanup, rule cleaned_of_ascii, auto)
    ultimately show ?thesis by (simp add: WriteSoftModCommand_def WriteFact_def demo_game_def demo_pipe_def MaxDiscordMsgLen_def Let_def)
  qed
  have "b64_encode True (bytes_of ''null'') = ''bnVsbA==''" by code_simp
  then have enc: "b64_encode True (ge_deflate demo_game (bytes_of ''null'')) = ''bnVsbA==''" by (simp add: demo_game_def)
  have m: "ge_marshal demo_game \<lparr>sr_version = 1, sr_id = x, sr_command = ''online'', sr_data = ''null''\<rparr> = Some (bytes_of ''null'')" for x
    by (simp add: demo_game_def)
  have "\<exists>line. gp_lines (snd (WriteSoftModCommand demo_game ''online'' ''null'' demo_pipe)) = gp_lines demo_pipe @ [''/chatwire '' @ line @ [CHR 0x0A]] \<and>
      DecodeSoftModPayload (\<lambda>b. Some (b, False)) line = Some (bytes_of ''null'')"
    using softmod_request_is_sent_whole [where inflate = "\<lambda>b. Some (b, False)" and p = demo_pipe, OF _ _ prod.collapse [symmetric] m] enc
    by (simp add: demo_game_def demo_pipe_def)
  with run show ?thesis by (auto simp: demo_pipe_def)
qed

end
