(* ===== verification/Banlist.thy ===== *)
theory Banlist
  imports Text_Clean Player_DB
begin

text \<open>
  The shared list of bans (banlist/banList.go).  The list in memory follows the ban file: a ban that left the file is
  revoked, one that came back is reinstated, a new one is added; nothing is removed.  The two JSON formats of the file
  are arguments; \<open>None\<close> for the array stands for \<open>null\<close>.  What the code sends to Discord is kept in \<open>notice\<close>s;
  the commands for the game are in the \<open>sent\<close> of the player state.
\<close>

section \<open>State\<close>

datatype channel = ChatChannel | ReportChannel

record ban_entry =
  be_name :: string
  be_reason :: string
  be_revoked :: bool

text \<open>The clock in Unix seconds, the options \<open>FCLWarnOnly\<close> and \<open>FCLWarnRegulars\<close>, and whether this is the primary server.\<close>

record ban_env =
  bn_now :: int
  bn_warn_only :: bool
  bn_warn_regulars :: bool
  bn_primary :: bool
  bn_uni :: "nat \<Rightarrow> bool"

record ban_world =
  bw_bans :: "ban_entry list"
  bw_players :: player_state
  bw_notices :: "(channel \<times> string) list"

definition notify :: "channel \<Rightarrow> string \<Rightarrow> ban_world \<Rightarrow> ban_world" where
  "notify ch t w = w\<lparr>bw_notices := bw_notices w @ [(ch, t)]\<rparr>"

section \<open>Checking a name\<close>

definition active_ban :: "string \<Rightarrow> ban_entry \<Rightarrow> bool" where
  "active_ban name b \<longleftrightarrow> \<not> be_revoked b \<and> equal_fold (be_name b) name"

definition fcl_ban :: "ban_env \<Rightarrow> string \<Rightarrow> bool \<Rightarrow> ban_entry \<Rightarrow> ban_world \<Rightarrow> bool \<times> ban_world" where
  "fcl_ban env pname doWarn ban w =
     (let warn = ''Warning: [FCL] ban found for '' @ [CHR 0x27] @ pname @ [CHR 0x27] @ '': '' @ be_reason ban;
          (level, st) = PlayerLevelGet (bn_now env) (be_name ban) True (bw_players w); w = w\<lparr>bw_players := st\<rparr> in
      if sint level < 2 then
        (if bn_warn_only env then (False, if doWarn then notify ChatChannel warn w else w)
         else (True, w\<lparr>bw_players := WriteBan pname (''[FCL] '' @ be_reason ban) st\<rparr>))
      else if bn_warn_regulars env then (False, if doWarn then notify ChatChannel warn w else w)
      else (False, w))"

definition CheckBanList :: "ban_env \<Rightarrow> string \<Rightarrow> bool \<Rightarrow> ban_world \<Rightarrow> bool \<times> ban_world" where
  "CheckBanList env name doWarn w =
     (let pname = to_lower name in
      case find (active_ban pname) (bw_bans w) of
        Some ban \<Rightarrow> fcl_ban env pname doWarn ban w
      | None \<Rightarrow>
          (let (level, st) = PlayerLevelGet (bn_now env) pname False (bw_players w) in
           if level = - 1
           then (True, w\<lparr>bw_players := (case lookup_player st pname of Some p \<Rightarrow> WriteBan pname (p_ban_reason p) st | None \<Rightarrow> st)\<rparr>)
           else (False, w\<lparr>bw_players := st\<rparr>)))"

section \<open>Reading the file\<close>

record ban_formats =
  bf_bans :: "byte list \<Rightarrow> string + ban_entry list option"
  bf_names :: "byte list \<Rightarrow> string + string list"

definition new_ban :: "string \<Rightarrow> ban_entry" where
  "new_ban name = \<lparr>be_name = name, be_reason = [], be_revoked = False\<rparr>"

definition parseBanFileData :: "ban_formats \<Rightarrow> byte list \<Rightarrow> string + ban_entry list" where
  "parseBanFileData f data =
     (case bf_bans f data of
        Inr (Some newBans) \<Rightarrow> Inr (map (be_revoked_update (\<lambda>_. False)) newBans)
      | Inr None \<Rightarrow> Inl ''ban list must be a JSON array''
      | Inl err \<Rightarrow>
          (case bf_names f data of
             Inl legacyErr \<Rightarrow> Inl (''standard format parse error: '' @ err @ ''; legacy format parse error: '' @ legacyErr)
           | Inr names \<Rightarrow> Inr (map (\<lambda>n. new_ban (to_lower n)) (filter (\<lambda>n. n \<noteq> []) names))))"

definition in_ban_file :: "string \<Rightarrow> ban_entry list \<Rightarrow> bool" where
  "in_ban_file name bans \<longleftrightarrow> list_ex (\<lambda>b. equal_fold name (be_name b)) bans"

definition missing_ban :: "ban_entry list \<Rightarrow> ban_entry \<Rightarrow> bool" where
  "missing_ban newBans b \<longleftrightarrow> be_name b \<noteq> [] \<and> \<not> in_ban_file (be_name b) newBans \<and> \<not> be_revoked b"

definition revoke_missing :: "ban_entry list \<Rightarrow> ban_entry list \<Rightarrow> ban_entry list" where
  "revoke_missing newBans bans = map (\<lambda>b. if missing_ban newBans b then b\<lparr>be_revoked := True\<rparr> else b) bans"

fun revoked_text :: "ban_entry list \<Rightarrow> string \<Rightarrow> ban_entry list \<Rightarrow> string" where
  "revoked_text newBans revBuf [] = revBuf"
| "revoked_text newBans revBuf (b # bans) =
     (if missing_ban newBans b
      then revoked_text newBans ((if revBuf \<noteq> [] then revBuf @ '', '' else ''REVOKED bans: '') @ be_name b) bans
      else revoked_text newBans revBuf bans)"

text \<open>\<open>reinstate\<close>: the first entry of the name is no longer revoked; the result says whether it was.\<close>

fun reinstate :: "string \<Rightarrow> ban_entry list \<Rightarrow> (bool \<times> ban_entry list) option" where
  "reinstate name [] = None"
| "reinstate name (b # bans) =
     (if equal_fold (be_name b) name then Some (be_revoked b, b\<lparr>be_revoked := False\<rparr> # bans)
      else map_option (\<lambda>(was, bans). (was, b # bans)) (reinstate name bans))"

definition add_ban :: "ban_env \<Rightarrow> ban_entry \<Rightarrow> string \<times> ban_world \<Rightarrow> string \<times> ban_world" where
  "add_ban env newBan = (\<lambda>(banBuf, w).
     (if be_name newBan = [] then (banBuf, w)
      else case reinstate (be_name newBan) (bw_bans w) of
          Some (was, bans) \<Rightarrow>
            (let w = w\<lparr>bw_bans := bans\<rparr>;
                 reason = (if be_reason newBan \<noteq> [] then '' -- '' @ be_reason newBan else []) in
             (if was then (if banBuf \<noteq> [] then banBuf @ '', '' else banBuf) @ ''REINSTATED Ban: '' @ be_name newBan @ reason else banBuf, w))
        | None \<Rightarrow>
            (let banBuf = (if banBuf \<noteq> [] then banBuf @ '', '' else ''NEW bans: '');
                 (level, st) = PlayerLevelGet (bn_now env) (be_name newBan) False (bw_players w);
                 w = w\<lparr>bw_bans := bw_bans w @ [newBan], bw_players := st\<rparr>;
                 banBuf = (if 2 \<le> sint level then banBuf @ ''M45 Level: '' @ LevelToString level @ '' -- Bypassing FCL ban for: '' else banBuf) in
             (if be_reason newBan \<noteq> [] then banBuf @ be_name newBan @ '' -- '' @ be_reason newBan else banBuf @ be_name newBan, w))))"

definition report_bans :: "ban_env \<Rightarrow> string \<Rightarrow> ban_world \<Rightarrow> ban_world" where
  "report_bans env buf w =
     (if bn_primary env \<and> buf \<noteq> [] then notify ReportChannel (''[FCL] '' @ TruncateStringEllipsis (UnicodeCleanup (bn_uni env) buf) 1000) w
      else w)"

text \<open>\<open>data\<close> is what could be read at the configured path.\<close>

definition ReadBanFile :: "ban_formats \<Rightarrow> ban_env \<Rightarrow> bool \<Rightarrow> byte list option \<Rightarrow> ban_world \<Rightarrow> ban_world" where
  "ReadBanFile f env firstboot data w =
     (case data of
        None \<Rightarrow> w
      | Some data \<Rightarrow>
          (case parseBanFileData f data of
             Inl err \<Rightarrow> w
           | Inr newBans \<Rightarrow>
               (let revBuf = revoked_text newBans [] (bw_bans w);
                    w = w\<lparr>bw_bans := revoke_missing newBans (bw_bans w)\<rparr>;
                    (banBuf, w) = fold (add_ban env) newBans ([], w)
                in if firstboot then w else report_bans env revBuf (report_bans env banBuf w))))"

section \<open>The list follows the file\<close>

text \<open>No name occurs twice up to case, and none is empty.\<close>

definition bans_ok :: "ban_entry list \<Rightarrow> bool" where
  "bans_ok bans \<longleftrightarrow> distinct (map (to_lower \<circ> be_name) bans) \<and> list_all (\<lambda>b. be_name b \<noteq> []) bans"

definition banned_name :: "string \<Rightarrow> ban_entry list \<Rightarrow> bool" where
  "banned_name name bans \<longleftrightarrow> list_ex (active_ban (to_lower name)) bans"

lemma equal_fold_lower [simp]: "equal_fold a (to_lower b) = equal_fold a b" "equal_fold (to_lower a) b = equal_fold a b"
  by (simp_all add: equal_fold_def)

lemma equal_fold_sym: "equal_fold a b = equal_fold b a"
  by (auto simp: equal_fold_def)

lemma to_lower_eq_Nil [simp]: "to_lower s = [] \<longleftrightarrow> s = []"
  by (simp add: to_lower_def)

lemma reinstate_names: "reinstate n bans = Some (was, bans') \<Longrightarrow> map be_name bans' = map be_name bans"
  by (induction bans arbitrary: bans') (auto split: if_splits)

lemma reinstate_None: "reinstate n bans = None \<longleftrightarrow> \<not> list_ex (\<lambda>b. equal_fold (be_name b) n) bans"
  by (induction bans) auto

lemma bans_ok_names: "map be_name bans' = map be_name bans \<Longrightarrow> bans_ok bans' = bans_ok bans"
proof -
  assume eq: "map be_name bans' = map be_name bans"
  have "bans_ok x = (distinct (map to_lower (map be_name x)) \<and> list_all (\<lambda>n. n \<noteq> []) (map be_name x))" for x
    by (simp add: bans_ok_def list_all_iff o_def)
  then show ?thesis by (simp only: eq)
qed

lemma revoke_missing_names [simp]: "map be_name (revoke_missing new bans) = map be_name bans"
  by (simp add: revoke_missing_def o_def)

lemma reinstate_banned:
  assumes "bans_ok bans" "reinstate n bans = Some (was, bans')"
  shows "banned_name m bans' \<longleftrightarrow> banned_name m bans \<or> equal_fold m n"
  using assms
proof (induction bans arbitrary: bans')
  case (Cons b bans)
  show ?case
  proof (cases "equal_fold (be_name b) n")
    case True
    then have *: "equal_fold (be_name b) m = equal_fold m n" by (auto simp: equal_fold_def)
    show ?thesis using True Cons.prems * by (auto simp: banned_name_def active_ban_def)
  next
    case False
    then obtain bs where bs: "reinstate n bans = Some (was, bs)" "bans' = b # bs" using Cons.prems by auto
    have ok: "bans_ok bans" using Cons.prems(1) by (simp add: bans_ok_def)
    show ?thesis using Cons.IH [OF ok bs(1)] bs(2) by (auto simp: banned_name_def)
  qed
qed simp

lemma add_ban_effect:
  assumes ok: "bans_ok (bw_bans w)" and nr: "\<not> be_revoked nb" and r: "add_ban env nb (buf, w) = (buf', w')"
  shows "bans_ok (bw_bans w')"
    and "banned_name m (bw_bans w') \<longleftrightarrow> banned_name m (bw_bans w) \<or> be_name nb \<noteq> [] \<and> equal_fold m (be_name nb)"
proof -
  have "bans_ok (bw_bans w') \<and> (banned_name m (bw_bans w') \<longleftrightarrow> banned_name m (bw_bans w) \<or> be_name nb \<noteq> [] \<and> equal_fold m (be_name nb))"
  proof (cases "be_name nb = []")
    case True
    then show ?thesis using ok r by (auto simp: add_ban_def)
  next
    case nonempty: False
    show ?thesis
    proof (cases "reinstate (be_name nb) (bw_bans w)")
      case None
      then have w': "bw_bans w' = bw_bans w @ [nb]" using r nonempty by (auto simp: add_ban_def Let_def split: prod.splits)
      have fresh: "to_lower (be_name nb) \<notin> set (map (to_lower \<circ> be_name) (bw_bans w))"
        using None by (auto simp: reinstate_None list_ex_iff equal_fold_def)
      have "bans_ok (bw_bans w')" using ok fresh nonempty by (simp add: bans_ok_def w')
      moreover have "banned_name m (bw_bans w') \<longleftrightarrow> banned_name m (bw_bans w) \<or> equal_fold m (be_name nb)"
        using nr by (auto simp: banned_name_def active_ban_def w' equal_fold_def)
      ultimately show ?thesis using nonempty by simp
    next
      case (Some x)
      obtain was bans where x: "x = (was, bans)" by (cases x)
      have w': "bw_bans w' = bans" using r nonempty Some x by (auto simp: add_ban_def Let_def)
      show ?thesis
        using reinstate_banned [OF ok Some [unfolded x]] bans_ok_names [OF reinstate_names [OF Some [unfolded x]]] ok nonempty
        by (simp add: w')
    qed
  qed
  then show "bans_ok (bw_bans w')"
    and "banned_name m (bw_bans w') \<longleftrightarrow> banned_name m (bw_bans w) \<or> be_name nb \<noteq> [] \<and> equal_fold m (be_name nb)"
    by blast+
qed

lemma add_bans_effect:
  assumes "bans_ok (bw_bans w)" "list_all (\<lambda>b. \<not> be_revoked b) new" "fold (add_ban env) new (buf, w) = (buf', w')"
  shows "bans_ok (bw_bans w') \<and> (banned_name m (bw_bans w') \<longleftrightarrow> banned_name m (bw_bans w) \<or> (m \<noteq> [] \<and> in_ban_file m new))"
  using assms
proof (induction new arbitrary: buf w)
  case (Cons nb new)
  obtain buf1 w1 where step: "add_ban env nb (buf, w) = (buf1, w1)" by (cases "add_ban env nb (buf, w)")
  have nr: "\<not> be_revoked nb" using Cons.prems by simp
  have rest: "fold (add_ban env) new (buf1, w1) = (buf', w')" using Cons.prems(3) step by simp
  have IH: "bans_ok (bw_bans w') \<and> (banned_name m (bw_bans w') \<longleftrightarrow> banned_name m (bw_bans w1) \<or> (m \<noteq> [] \<and> in_ban_file m new))"
    using Cons.IH [OF add_ban_effect(1) [OF Cons.prems(1) nr step] _ rest] Cons.prems(2) by simp
  have nil: "be_name nb \<noteq> [] \<and> equal_fold m (be_name nb) \<longleftrightarrow> m \<noteq> [] \<and> equal_fold m (be_name nb)"
    by (auto simp: equal_fold_def to_lower_def)
  show ?case using IH add_ban_effect(2) [OF Cons.prems(1) nr step] nil by (auto simp: in_ban_file_def)
qed (simp add: in_ban_file_def)

lemma revoke_missing_banned:
  assumes "bans_ok bans"
  shows "banned_name m (revoke_missing new bans) \<longleftrightarrow> banned_name m bans \<and> in_ban_file m new"
proof -
  have *: "active_ban (to_lower m) (if missing_ban new b then b\<lparr>be_revoked := True\<rparr> else b) \<longleftrightarrow> active_ban (to_lower m) b \<and> in_ban_file m new"
    if "b \<in> set bans" for b
  proof -
    have "be_name b \<noteq> []" using assms that by (auto simp: bans_ok_def list_all_iff)
    moreover have "in_ban_file (be_name b) new = in_ban_file m new" if "equal_fold (be_name b) m"
      using that by (simp add: in_ban_file_def equal_fold_def)
    ultimately show ?thesis by (auto simp: active_ban_def missing_ban_def)
  qed
  have "banned_name m (revoke_missing new bans) \<longleftrightarrow> (\<exists>b \<in> set bans. active_ban (to_lower m) b \<and> in_ban_file m new)"
    unfolding banned_name_def revoke_missing_def list_ex_iff set_map bex_simps(7) by (rule bex_cong [OF refl *])
  then show ?thesis by (auto simp: banned_name_def list_ex_iff)
qed

lemma parsed_bans_active: "parseBanFileData f data = Inr new \<Longrightarrow> list_all (\<lambda>b. \<not> be_revoked b) new"
  by (auto simp: parseBanFileData_def new_ban_def list_all_iff split: sum.splits option.splits)

lemma report_bans_keeps [simp]: "bw_bans (report_bans env buf w) = bw_bans w" "bw_players (report_bans env buf w) = bw_players w"
  by (simp_all add: report_bans_def notify_def)

lemma no_empty_ban: "bans_ok bans \<Longrightarrow> \<not> banned_name [] bans"
  by (auto simp: bans_ok_def banned_name_def active_ban_def equal_fold_def to_lower_def list_ex_iff list_all_iff)

section \<open>Properties\<close>

text \<open>
  C19. Following the file: reading the ban file leaves exactly the names of the file active, whatever was known before, up
  to case; a file that cannot be read or parsed changes nothing; and no name is ever in_ban_file twice.
\<close>

theorem bans_follow_the_file:
  assumes "bans_ok (bw_bans w)" "ReadBanFile f env firstboot data w = w'"
  shows "bans_ok (bw_bans w') \<and>
         (case data of
            None \<Rightarrow> w' = w
          | Some d \<Rightarrow> (case parseBanFileData f d of
                Inl e \<Rightarrow> w' = w
              | Inr new \<Rightarrow> banned_name m (bw_bans w') = (m \<noteq> [] \<and> in_ban_file m new)))"
proof (cases "\<exists>d new. data = Some d \<and> parseBanFileData f d = Inr new")
  case False
  then show ?thesis using assms by (cases data) (auto simp: ReadBanFile_def split: sum.splits)
next
  case True
  then obtain d new where d: "data = Some d" "parseBanFileData f d = Inr new" by blast
  define w0 where "w0 = w\<lparr>bw_bans := revoke_missing new (bw_bans w)\<rparr>"
  obtain buf w1 where f: "fold (add_ban env) new ([], w0) = (buf, w1)" by (cases "fold (add_ban env) new ([], w0)")
  have ok: "bans_ok (bw_bans w0)" using assms(1) bans_ok_names [OF revoke_missing_names] by (simp add: w0_def)
  have b: "bw_bans w' = bw_bans w1" using assms(2) d f by (auto simp: ReadBanFile_def Let_def w0_def split: if_splits)
  show ?thesis
    using add_bans_effect [OF ok parsed_bans_active [OF d(2)] f] revoke_missing_banned [OF assms(1)] no_empty_ban [OF assms(1)] d b
    by (auto simp: w0_def)
qed

theorem bans_follow_the_file_witness:
  "let f = \<lparr>bf_bans = \<lambda>d. Inr (Some [new_ban ''Bob'']), bf_names = \<lambda>d. Inr []\<rparr>;
       env = \<lparr>bn_now = 0, bn_warn_only = False, bn_warn_regulars = False, bn_primary = True, bn_uni = \<lambda>r. True\<rparr>;
       st = \<lparr>player_list = [], change_next = 0, change_versions = [], list_dirty = False, list_dirty_signal = False,
             stats_dirty = False, last_ban_name = [], sent = []\<rparr>;
       w = \<lparr>bw_bans = [new_ban ''alice''], bw_players = st, bw_notices = []\<rparr>;
       w' = ReadBanFile f env True (Some []) w
   in banned_name ''BOB'' (bw_bans w') \<and> \<not> banned_name ''alice'' (bw_bans w')"
proof -
  let ?f = "\<lparr>bf_bans = \<lambda>d. Inr (Some [new_ban ''Bob'']), bf_names = \<lambda>d. Inr []\<rparr> :: ban_formats"
  let ?w = "\<lparr>bw_bans = [new_ban ''alice''], bw_players = \<lparr>player_list = [], change_next = 0, change_versions = [],
      list_dirty = False, list_dirty_signal = False, stats_dirty = False, last_ban_name = [], sent = []\<rparr>, bw_notices = []\<rparr> :: ban_world"
  have ok: "bans_ok (bw_bans ?w)" by (simp add: bans_ok_def new_ban_def)
  have parse: "parseBanFileData ?f d = Inr [new_ban ''Bob'']" for d by (simp add: parseBanFileData_def new_ban_def)
  have l: "in_ban_file ''BOB'' [new_ban ''Bob'']" "\<not> in_ban_file ''alice'' [new_ban ''Bob'']"
    by code_simp+
  show ?thesis
    unfolding Let_def
    using bans_follow_the_file [where m = "''BOB''", OF ok refl, of ?f _ True "Some []"]
          bans_follow_the_file [where m = "''alice''", OF ok refl, of ?f _ True "Some []"] parse l by simp
qed

text \<open>The level the database gives a name, 0 when it has none.\<close>

definition known_level :: "player_state \<Rightarrow> string \<Rightarrow> int64" where
  "known_level st name = (case lookup_player st (to_lower name) of Some p \<Rightarrow> p_level p | None \<Rightarrow> 0)"

lemma PlayerLevelGet_known:
  assumes "name \<noteq> []" "length name \<le> MaxNameLength"
  shows "fst (PlayerLevelGet now name b st) = known_level st name" and "sent (snd (PlayerLevelGet now name b st)) = sent st"
    and "known_level st name \<noteq> 0 \<Longrightarrow>
         map_option p_ban_reason (lookup_player (snd (PlayerLevelGet now name b st)) (to_lower name)) =
         map_option p_ban_reason (lookup_player st (to_lower name))"
  using assms
  by (auto simp: PlayerLevelGet_def known_level_def Let_def SetPlayerStatsDirty_def SetPlayerListDirty_def signalPlayerListDirty_def
      markPlayerDirty_def set_player_def lookup_player_def split: option.splits)

text \<open>
  C28. Enforcing a ban, for a name of a possible length: a player with an active ban of the list is banned and purged in the game
  exactly when he is below regular and the warn-only setting is off; a player without one exactly when the database holds him as
  banned.  So a regular or higher is never banned by the list, and with warn-only nobody on the list is banned, not even one the
  database holds as banned.
\<close>

theorem only_banned_players_are_kicked:
  assumes "name \<noteq> []" "length name \<le> MaxNameLength" "CheckBanList env name doWarn w = (hit, w')"
  shows "hit = (if banned_name name (bw_bans w) then sint (known_level (bw_players w) name) < 2 \<and> \<not> bn_warn_only env
                else known_level (bw_players w) name = - 1) \<and>
         (\<exists>reason. sent (bw_players w') = sent (bw_players w) @
            (if hit then [Command (''/ban '' @ to_lower name @ '' '' @ reason), Command (''/purge '' @ to_lower name)] else []))"
proof -
  let ?n = "to_lower name" and ?st = "bw_players w"
  have len: "length ?n = length name" "?n \<noteq> []" using assms by (auto simp: to_lower_def)
  have kl: "known_level ?st ?n = known_level ?st name" by (simp add: known_level_def)
  have found: "banned_name name (bw_bans w) \<longleftrightarrow> find (active_ban ?n) (bw_bans w) \<noteq> None"
    by (auto simp: banned_name_def find_None_iff list_ex_iff)
  show ?thesis
  proof (cases "find (active_ban ?n) (bw_bans w)")
    case (Some ban)
    have same: "to_lower (be_name ban) = ?n" using Some by (auto simp: find_Some_iff active_ban_def equal_fold_def)
    then have bl: "be_name ban \<noteq> []" "length (be_name ban) \<le> MaxNameLength"
      using assms(1,2) by (auto simp: to_lower_def dest: arg_cong [where f = length])
    have lv: "known_level ?st (be_name ban) = known_level ?st name" using same by (simp add: known_level_def)
    show ?thesis
      using Some assms(3) found PlayerLevelGet_known [OF bl, where now = "bn_now env" and b = True and st = ?st]
      by (auto simp: CheckBanList_def fcl_ban_def Let_def split_beta lv WriteBan_def doBan_def write_fact_def notify_def split: if_splits)
  next
    case None
    note pl = PlayerLevelGet_known [where name = ?n and now = "bn_now env" and b = False and st = ?st, unfolded len(1), OF len(2) assms(2)]
    have "lookup_player (snd (PlayerLevelGet (bn_now env) ?n False ?st)) ?n \<noteq> None" if "known_level ?st name = - 1"
      using pl(3) that by (auto simp: kl known_level_def split: option.splits)
    then show ?thesis
      using None assms(3) found pl(1,2)
      by (auto simp: CheckBanList_def Let_def split_beta kl WriteBan_def doBan_def write_fact_def split: if_splits option.splits)
  qed
qed

theorem only_banned_players_are_kicked_witness:
  "let env = \<lparr>bn_now = 0, bn_warn_only = False, bn_warn_regulars = False, bn_primary = True, bn_uni = \<lambda>r. True\<rparr>;
       st = \<lparr>player_list = [], change_next = 0, change_versions = [], list_dirty = False, list_dirty_signal = False,
             stats_dirty = False, last_ban_name = [], sent = []\<rparr>;
       w = \<lparr>bw_bans = [new_ban ''alice''], bw_players = st, bw_notices = []\<rparr>
   in fst (CheckBanList env ''Alice'' True w) \<and> sent (bw_players (snd (CheckBanList env ''Alice'' True w))) \<noteq> [] \<and>
      \<not> fst (CheckBanList env ''bob'' True w)"
proof -
  let ?env = "\<lparr>bn_now = 0, bn_warn_only = False, bn_warn_regulars = False, bn_primary = True, bn_uni = \<lambda>r. True\<rparr> :: ban_env"
  let ?st = "\<lparr>player_list = [], change_next = 0, change_versions = [], list_dirty = False, list_dirty_signal = False,
      stats_dirty = False, last_ban_name = [], sent = []\<rparr> :: player_state"
  let ?w = "\<lparr>bw_bans = [new_ban ''alice''], bw_players = ?st, bw_notices = []\<rparr> :: ban_world"
  have b: "banned_name ''Alice'' (bw_bans ?w)" "\<not> banned_name ''bob'' (bw_bans ?w)"
    by code_simp+
  have k: "known_level ?st n = 0" for n by (simp add: known_level_def lookup_player_def)
  show ?thesis
    unfolding Let_def
    using only_banned_players_are_kicked [where name = "''Alice''" and env = ?env and doWarn = True and w = ?w,
              OF _ _ prod.collapse [symmetric]]
          only_banned_players_are_kicked [where name = "''bob''" and env = ?env and doWarn = True and w = ?w,
              OF _ _ prod.collapse [symmetric]] b k
    by (auto simp: MaxNameLength_def)
qed

text \<open>
  The name and the reason of a ban never change once it is known: a file with another reason for it, or one that brings it
  back, leaves the reason of the first reading.
\<close>

definition ban_facts :: "ban_world \<Rightarrow> (string \<times> string) list" where
  "ban_facts w = map (\<lambda>b. (be_name b, be_reason b)) (bw_bans w)"

lemma reinstate_facts:
  "reinstate n bans = Some (was, bans') \<Longrightarrow> map (\<lambda>b. (be_name b, be_reason b)) bans' = map (\<lambda>b. (be_name b, be_reason b)) bans"
  by (induction bans arbitrary: bans') (auto split: if_splits)

lemma add_ban_facts: "\<exists>more. ban_facts (snd (add_ban env nb x)) = ban_facts (snd x) @ more"
  by (cases x) (auto simp: add_ban_def ban_facts_def Let_def reinstate_facts split: option.splits prod.splits)

lemma add_bans_facts: "\<exists>more. ban_facts (snd (fold (add_ban env) new x)) = ban_facts (snd x) @ more"
proof (induction new arbitrary: x)
  case (Cons nb new)
  obtain a where a: "ban_facts (snd (add_ban env nb x)) = ban_facts (snd x) @ a" using add_ban_facts by blast
  obtain b where b: "ban_facts (snd (fold (add_ban env) new (add_ban env nb x))) = ban_facts (snd (add_ban env nb x)) @ b"
    using Cons.IH by blast
  show ?case using a b by simp
qed simp

theorem reason_of_a_known_ban_stays:
  "\<exists>more. ban_facts (ReadBanFile f env firstboot data w) = ban_facts w @ more"
proof -
  have revoke: "ban_facts (w\<lparr>bw_bans := revoke_missing new (bw_bans w)\<rparr>) = ban_facts w" for new
    by (simp add: ban_facts_def revoke_missing_def comp_def if_distrib cong: if_cong)
  have "\<exists>more. ban_facts w1 = ban_facts w @ more"
    if "fold (add_ban env) new ([], w\<lparr>bw_bans := revoke_missing new (bw_bans w)\<rparr>) = (buf, w1)" for new buf w1
    using add_bans_facts [of env new "([], w\<lparr>bw_bans := revoke_missing new (bw_bans w)\<rparr>)"] that by (simp add: revoke)
  then show ?thesis
    by (auto simp: ReadBanFile_def Let_def ban_facts_def split: option.splits sum.splits prod.splits)
qed

end
