(* ===== verification/Console.thy ===== *)
theory Console
  imports Banlist Game_Output Go_Time
begin

text \<open>
  The console of the game: splitting a line into words (support/pipeParse.go), the chat of the players
  (support/pipeHandle_chat.go), leaked registration codes (support/idiotProtect.go) and registrations
  (support/pipeHandle_access.go).

  \<open>console\<close> holds what the handlers share.  A mutex that a handler returns without releasing stays locked in the state,
  and whoever locks it next waits for ever: that is \<open>Blocked\<close>; an index out of range is \<open>Panicked\<close>.  Messages, requests to
  the game and notifications of the lifecycle are kept in \<open>co_out\<close>, in order; log files are left out.
\<close>

section \<open>State\<close>

datatype 'a run = Ran 'a | Blocked | Panicked

datatype console_out =
    ToDiscord channel string
  | ToDiscordEmbed string string
  | GameChat string
  | GameWhisper string string
  | GameLine string
  | SoftModRequest string
  | SoftModSpeed string
  | Supporter string string
  | SoftModConfig
  | UpdateDuration
  | ChannelName bool
  | LifecycleGoodbye uint64
  | LifecycleReady uint64
  | LifecycleProgress uint64 string string
  | SoftModDetected uint64
  | LifecycleRestartWhenEmpty string
  | AutolaunchOff
  | ModHistory string string
  | MapPreview string
  | RemoveFile string
  | BackupSave string string
  | ClearScenario

record pass_data =
  pd_code :: string
  pd_disc :: string
  pd_time :: int

record online_player =
  op_name :: string
  op_score :: int
  op_time :: int
  op_level :: int64
  op_afk :: string

record console =
  co_players :: player_state
  co_bans :: "ban_entry list"
  co_no_response :: nat
  co_paused_ticks :: int
  co_chatter_locked :: bool
  co_chatter :: "(string, gotime) gomap"
  co_spam :: "(string, int) gomap"
  co_codes_locked :: bool
  co_codes :: "(string, pass_data) gomap"
  co_softmod :: string
  co_num_players :: int
  co_online :: "online_player list"
  co_paused_for_connect :: bool
  co_paused_for :: string
  co_connect_attempt :: bool
  co_connect_time :: gotime
  co_connector :: string
  co_sus_warning :: gotime
  co_crash_report :: gotime
  co_version :: string
  co_map_name :: string
  co_map_path :: string
  co_last_save :: string
  co_last_backup :: nat
  co_tick_history :: "(int \<times> int \<times> int \<times> int) list"
  co_time_known :: bool
  co_time_sample :: int
  co_time_paused :: bool
  co_out :: "console_out list"

text \<open>
  The clock and what the handlers read of the configuration: the list of slurs is \<open>slurList\<close>; \<open>ce_date\<close> is today as
  month-day-year, \<open>ce_game_time\<close> the answer of \<open>CurrentGametime\<close>, \<open>ce_discord_name\<close> the user name of a Discord id,
  \<open>ce_role_add\<close> whether Discord grants a role to a user.
\<close>

record console_env =
  ce_now :: gotime
  ce_date :: string
  ce_log_url :: string
  ce_uni :: "nat \<Rightarrow> bool"
  ce_slurs :: "string list"
  ce_spam_off :: bool
  ce_game_time :: string
  ce_discord_name :: "string \<Rightarrow> string"
  ce_role_add :: "string \<Rightarrow> string \<Rightarrow> bool"
  ce_server :: server_env
  ce_ban :: ban_env
  ce_primary :: string
  ce_callsign :: string
  ce_name :: string
  ce_group :: string
  ce_chat_id :: string
  ce_report_id :: string
  ce_banish_role :: string
  ce_sus_role :: string

definition say :: "console_out \<Rightarrow> console \<Rightarrow> console" where
  "say e c = c\<lparr>co_out := co_out c @ [e]\<rparr>"

definition on_players :: "(player_state \<Rightarrow> player_state) \<Rightarrow> console \<Rightarrow> console" where
  "on_players f c = c\<lparr>co_players := f (co_players c)\<rparr>"

definition LogGameCMS :: "bool \<Rightarrow> channel \<Rightarrow> string \<Rightarrow> console \<Rightarrow> console" where
  "LogGameCMS chat ch t c = (let c = say (ToDiscord ch t) c in if chat then say (GameChat t) c else c)"

definition WriteBanBy :: "console_env \<Rightarrow> string \<Rightarrow> string \<Rightarrow> string \<Rightarrow> player_state \<Rightarrow> player_state" where
  "WriteBanBy env name reason banBy st =
     doBan name (name @ '' '' @ reason @ '' -- '' @ banBy @ '' '' @ ce_date env @ '' '' @ ce_log_url env) st"

section \<open>Splitting a line\<close>

definition Unknown :: string where "Unknown = ''Unknown''"

fun join_words :: "string list \<Rightarrow> string" where
  "join_words [] = []"
| "join_words [w] = w"
| "join_words (w # ws) = w @ CHR '' '' # join_words ws"

abbreviation words_of :: "string \<Rightarrow> string list" where "words_of s \<equiv> split_on (CHR '' '') s"

record handle_data =
  hd_generation :: uint64
  hd_line :: string
  hd_lower :: string
  hd_no_timecode :: string
  hd_no_datestamp :: string
  hd_words :: "string list"
  hd_lower_words :: "string list"
  hd_no_timecode_list :: "string list"
  hd_no_datestamp_list :: "string list"
  hd_trimmed :: "string list"

definition preProcessFactorioOutput :: "string \<Rightarrow> handle_data" where
  "preProcessFactorioOutput line =
     (let trimmedWords = words_of (trim_left line '' '');
          noTimecode = (if 1 < length trimmedWords then join_words (drop 1 trimmedWords) else Unknown);
          noDatestamp = (if 2 < length trimmedWords then join_words (drop 2 trimmedWords) else Unknown)
      in \<lparr>hd_generation = 0, hd_line = line, hd_lower = to_lower line, hd_no_timecode = noTimecode, hd_no_datestamp = noDatestamp,
          hd_words = words_of line, hd_lower_words = words_of (to_lower line), hd_no_timecode_list = words_of noTimecode,
          hd_no_datestamp_list = words_of noDatestamp, hd_trimmed = trimmedWords\<rparr>)"

section \<open>Leaked registration codes\<close>

definition leaks :: "string \<Rightarrow> pass_data \<Rightarrow> bool" where
  "leaks checkme o1 \<longleftrightarrow>
     (let password = AlphaOnly (to_lower (pd_code o1)); plen = length password in
      contains_str checkme password \<or>
      3 < plen \<and> (contains_str checkme (take (plen - 2) password) \<or> contains_str checkme (drop 2 password)))"

definition ProtectIdiots :: "string \<Rightarrow> console \<Rightarrow> (bool \<times> console) run" where
  "ProtectIdiots line c =
     (let checkme = AlphaOnly (to_lower line) in
      if co_codes_locked c then Blocked
      else case find (\<lambda>(i, o1). leaks checkme o1) (co_codes c) of
          None \<Rightarrow> Ran (False, c)
        | Some (idiotID, _) \<Rightarrow>
            if idiotID \<noteq> [] then Ran (True, c\<lparr>co_codes := gm_del (co_codes c) idiotID\<rparr>) else Ran (False, c))"

definition leak_warning :: string where
  "leak_warning = ''You did not enter that as a command!\<newline>You have posted your registration code publicly.\<newline>To protect you, the code has been invalidated.\<newline>Please try again, and read the directions more carefully!''"

definition handleIdiots :: "handle_data \<Rightarrow> console \<Rightarrow> (bool \<times> console) run" where
  "handleIdiots input c =
     (case ProtectIdiots (hd_line input) c of
        Ran (True, c) \<Rightarrow> Ran (True, LogGameCMS True ChatChannel leak_warning c)
      | r \<Rightarrow> r)"

section \<open>Chat\<close>

definition SpamScoreLimit :: int where "SpamScoreLimit = 30"
definition SpamScoreWarning :: int where "SpamScoreWarning = 15"
definition SpamSlowThres :: gotime where "SpamSlowThres = 2 * second_ns"
definition SpamFastThres :: gotime where "SpamFastThres = 500000000"
definition SpamCoolThres :: gotime where "SpamCoolThres = 6 * second_ns"
definition SpamResetThres :: gotime where "SpamResetThres = 15 * second_ns"

definition last_chat :: "console \<Rightarrow> string \<Rightarrow> gotime" where
  "last_chat c pname = (case gm_get (co_chatter c) pname of Some t \<Rightarrow> t | None \<Rightarrow> zero_time)"

definition spam_score :: "console \<Rightarrow> string \<Rightarrow> int" where
  "spam_score c pname = (case gm_get (co_spam c) pname of Some n \<Rightarrow> n | None \<Rightarrow> 0)"

definition set_score :: "string \<Rightarrow> int \<Rightarrow> console \<Rightarrow> console" where
  "set_score pname n c = c\<lparr>co_spam := gm_put (co_spam c) pname n\<rparr>"

definition set_last_chat :: "string \<Rightarrow> gotime \<Rightarrow> console \<Rightarrow> console" where
  "set_last_chat pname t c = c\<lparr>co_chatter := gm_put (co_chatter c) pname t\<rparr>"

definition lower_score :: "string \<Rightarrow> console \<Rightarrow> console" where
  "lower_score pname c = (if 0 < spam_score c pname then set_score pname (spam_score c pname - 1) c else c)"

definition rate_chat :: "gotime \<Rightarrow> string \<Rightarrow> console \<Rightarrow> console" where
  "rate_chat now pname c =
     (let c = (if SpamResetThres < now - last_chat c pname then set_last_chat pname now (set_score pname 0 c)
               else if SpamCoolThres < now - last_chat c pname then set_last_chat pname now (lower_score pname c)
               else c)
      in if now - last_chat c pname < SpamSlowThres then set_last_chat pname now (set_score pname (spam_score c pname + 1) c)
         else if now - last_chat c pname < SpamFastThres then set_last_chat pname now (set_score pname (spam_score c pname + 2) c)
         else c)"

definition punish_spam :: "console_env \<Rightarrow> string \<Rightarrow> console \<Rightarrow> console" where
  "punish_spam env pname c =
     (let c = (if SpamScoreWarning < spam_score c pname then say (GameWhisper pname ''*** SPAMMING / FLOODING WARNING! ***'') c else c) in
      if SpamScoreLimit < spam_score c pname then
        (let c = on_players (WriteBanBy env pname ''Spamming/Flooding'' ''[Auto-Ban]'') c;
             c = (case lookup_player (co_players c) pname of
                    Some p \<Rightarrow> if \<not> p_already_banned p then on_players (set_player pname (p\<lparr>p_already_banned := True\<rparr>)) c else c
                  | None \<Rightarrow> c)
         in set_score pname 0 c)
      else c)"

definition has_slur :: "string list \<Rightarrow> string list \<Rightarrow> bool" where
  "has_slur slurs ws \<longleftrightarrow> list_ex (\<lambda>w. list_ex (\<lambda>s. has_prefix w s \<or> has_suffix w s) slurs) ws"

definition slurFilter :: "console_env \<Rightarrow> string \<Rightarrow> handle_data \<Rightarrow> console \<Rightarrow> bool \<times> console" where
  "slurFilter env name input c =
     (if has_slur (ce_slurs env) (hd_lower_words input)
      then (True, on_players (WriteBanBy env name ''Use of extreme slurs'' ''[Auto-Ban]'') c) else (False, c))"

text \<open>The text that goes to Discord; \<open>Inl\<close> when the two names differ, so that the message shows who wrote it.\<close>

definition clean_message :: "console_env \<Rightarrow> string list \<Rightarrow> string" where
  "clean_message env ws =
     (let cmess = RemoveFactorioTags (EscapeDiscordMarkdown (UnicodeCleanup (ce_uni env) (join_words ws))) in
      if 500 < length cmess then TruncateStringEllipsis cmess 500 @ ''**(message cut, too long!)**'' else cmess)"

definition relay_chat :: "console_env \<Rightarrow> string \<Rightarrow> string \<Rightarrow> player_state \<Rightarrow> console_out" where
  "relay_chat env pname cmess st =
     (let dname = ce_discord_name env (GetDiscordIDFromFactorioName pname st);
          factname = TruncateString (UnicodeCleanup (ce_uni env) pname) 25;
          factname = EscapeDiscordMarkdown (UnicodeCleanup (ce_uni env) factname);
          time = [CHR 0x60] @ ce_game_time env @ [CHR 0x60];
          fbuf = (if dname \<noteq> [] then time @ '' **'' @ factname @ ''**: '' @ cmess else time @ '' '' @ factname @ '': '' @ cmess);
          dnamereduced = AlphaOnly (to_lower dname);
          fnamereduced = AlphaOnly (to_lower pname)
      in if dname \<noteq> [] \<and> \<not> contains_str dnamereduced fnamereduced \<and> \<not> contains_str fnamereduced dnamereduced
         then ToDiscordEmbed (''@'' @ dname) fbuf else ToDiscord ChatChannel fbuf)"

text \<open>The part under \<open>ChatterLock\<close>; \<open>True\<close> when the handler returned inside it.\<close>

definition guard_chat :: "console_env \<Rightarrow> string \<Rightarrow> handle_data \<Rightarrow> console \<Rightarrow> (bool \<times> console) run" where
  "guard_chat env pname input c =
     (if ce_spam_off env then Ran (False, c)
      else if co_chatter_locked c then Blocked
      else
        (let c = c\<lparr>co_chatter_locked := True\<rparr>;
             (level, st) = PlayerLevelGet (unix (ce_now env)) pname True (co_players c);
             c = (if co_no_response c < 5 then c\<lparr>co_players := st\<rparr> else c) in
         if co_no_response c < 5 \<and> level \<noteq> 255 then
           (let c = punish_spam env pname (rate_chat (ce_now env) pname c);
                (slur, c) = slurFilter env pname input c
            in if slur then Ran (True, c) else Ran (False, c\<lparr>co_chatter_locked := False\<rparr>))
         else Ran (False, (lower_score pname c)\<lparr>co_chatter_locked := False\<rparr>)))"

definition is_chat_line :: "handle_data \<Rightarrow> bool" where
  "is_chat_line input \<longleftrightarrow> has_prefix (hd_no_datestamp input) ''[CHAT]'' \<or> has_prefix (hd_no_datestamp input) ''[SHOUT]''"

definition handleChatMsg :: "console_env \<Rightarrow> handle_data \<Rightarrow> console \<Rightarrow> (bool \<times> console) run" where
  "handleChatMsg env input c =
     (if \<not> is_chat_line input then Ran (False, c)
      else case hd_no_datestamp_list input of
          tag # name # msg \<Rightarrow>
            (let pname = filter (\<lambda>ch. ch \<noteq> CHR '':'') name in
             if pname = ''<server>'' then Ran (False, c)
             else case guard_chat env pname input c of
                 Ran (True, c) \<Rightarrow> Ran (True, c)
               | Ran (False, c) \<Rightarrow>
                   (let cmess = clean_message env msg in
                    if cmess = [] then Ran (True, c)
                    else let c = on_players (UpdateSeen (unix (ce_now env)) pname) c
                         in Ran (True, say (relay_chat env pname cmess (co_players c)) c))
               | r \<Rightarrow> r)
        | _ \<Rightarrow> Ran (False, c))"

section \<open>Registration\<close>

definition register_level :: "server_env \<Rightarrow> string \<Rightarrow> string \<times> int64" where
  "register_level s ptype =
     (if equal_fold ptype ''member'' then (role_member s, 1)
      else if equal_fold ptype ''regular'' then (role_regular s, 2)
      else if equal_fold ptype ''veteran'' then (role_veteran s, 3)
      else if equal_fold ptype ''moderator'' then (role_moderator s, 255)
      else (role_new s, 0))"

definition quoted :: "string \<Rightarrow> string" where
  "quoted s = [CHR 0x27] @ s @ [CHR 0x27]"

definition whisper :: "string \<Rightarrow> string \<Rightarrow> console \<Rightarrow> console" where
  "whisper pname t c = say (GameWhisper pname (''[SYSTEM] '' @ t)) c"

definition grant_registration :: "console_env \<Rightarrow> string \<Rightarrow> string \<Rightarrow> string \<Rightarrow> int64 \<Rightarrow> console \<Rightarrow> console" where
  "grant_registration env pname pid role plevel c =
     (let c = on_players (\<lambda>st. snd (PlayerSetID (ce_server env) (unix (ce_now env)) pname pid plevel st)) c in
      if guild_roles (ce_server env) = None then
        say (ToDiscord ReportChannel ''Register: Unable to get discord guild info!'')
          (whisper pname (''Sorry, I couldn'' @ [CHR 0x27] @ ''t find the discord guild info! The moderators will be informed of the issue.'') c)
      else case RoleExists (guild_roles (ce_server env)) role of
          None \<Rightarrow>
            whisper pname (''Sorry, there was an internal error. I could not find the discord role '' @ quoted role @ ''. The moderatators will be informed of the issue.'')
              (say (ToDiscord ReportChannel (''Register: Can not find role '' @ quoted role @ ''. Requested for user '' @ quoted pname)) c)
        | Some rid \<Rightarrow>
            if \<not> ce_role_add env pid rid then
              whisper pname (''Sorry, there was an internal error. I could not assign discord role '' @ quoted role @ ''. The moderatators will be informed of the issue.'')
                (say (ToDiscord ReportChannel (''Register: Could not assign role '' @ quoted role @ ''. Requested for user '' @ quoted pname @ ''.'')) c)
            else
              LogGameCMS True ReportChannel (''Registered player: '' @ pname)
                (whisper pname ''Registration complete!'' (on_players (\<lambda>st. st\<lparr>sent := sent st @ [RoleAdd pid rid]\<rparr>) c)))"

definition code_matches :: "string \<Rightarrow> pass_data \<Rightarrow> bool" where
  "code_matches inputCode pass \<longleftrightarrow> equal_fold (AlphaOnly (pd_code pass)) inputCode"

text \<open>
  The loop over the codes in its order: whether a code was found, or \<open>None\<close> when the handler returned inside the loop, which
  leaves the mutex locked.
\<close>

fun register_loop :: "console_env \<Rightarrow> string \<Rightarrow> string \<Rightarrow> string \<Rightarrow> (string \<times> pass_data) list \<Rightarrow> bool \<Rightarrow> bool \<Rightarrow> console
    \<Rightarrow> bool option \<times> console" where
  "register_loop env ptype pname inputCode [] codegood codefound c = (Some codefound, c)"
| "register_loop env ptype pname inputCode ((i, pass) # rest) codegood codefound c =
     (if \<not> code_matches inputCode pass then register_loop env ptype pname inputCode rest codegood codefound c
      else
        (let pid = pd_disc pass;
             c = c\<lparr>co_codes := gm_del (co_codes c) i\<rparr>;
             (role, plevel) = register_level (ce_server env) ptype;
             discid = GetDiscordIDFromFactorioName pname (co_players c);
             factname = GetFactorioNameFromDiscordID pid (co_players c) in
         if \<not> equal_fold (ce_primary env) (ce_callsign env) then
           (None,
            whisper pname (''This is not the correct server for entering registration codes! You need to connect to '' @ ce_group env @ ''-'' @ ce_primary env @
                '' to use that command. Please read the directions more carefully...'')
              (say (ToDiscord ReportChannel (''Factorio player '' @ quoted pname @ '', tried to register... but can'' @ [CHR 0x27] @ ''t read the directions.'')) c))
         else if equal_fold discid pid \<and> equal_fold factname pname then
           register_loop env ptype pname inputCode rest True True
             (grant_registration env pname pid role plevel
               (whisper pname ''This Factorio user, and discord user are already connected! You do not need to re-register...''
                 (say (ToDiscord ReportChannel (''Factorio player '' @ quoted pname @ '', wants to register a few times... just to be sure.'')) c)))
         else if discid \<noteq> [] \<and> discid \<noteq> ''0'' then
           register_loop env ptype pname inputCode rest False True
             (whisper pname ''That discord user is already connected to a different Factorio user... Unable to complete registration.''
               (say (ToDiscord ReportChannel (''Factorio player '' @ quoted pname @
                  '', tried to register a discord user that is already registered to different Factorio player.'')) c))
         else if factname \<noteq> [] then
           register_loop env ptype pname inputCode rest False True
             (whisper pname ''This Factorio user is already connected to a different discord user... Unable to complete registration.''
               (say (ToDiscord ReportChannel (''Factorio player '' @ quoted pname @
                  '', tried to register a Factorio user that is already registered to a different discord user.'')) c))
         else if codegood then
           register_loop env ptype pname inputCode rest codegood True (grant_registration env pname pid role plevel c)
         else register_loop env ptype pname inputCode rest codegood True c))"

definition handlePlayerRegister :: "console_env \<Rightarrow> handle_data \<Rightarrow> console \<Rightarrow> (bool \<times> console) run" where
  "handlePlayerRegister env input c =
     (if \<not> has_prefix (hd_line input) ''[ACCESS]'' then Ran (False, c)
      else case hd_words input of
          tag # ptype # pname # code0 # codes \<Rightarrow>
            (let inputCode = AlphaOnly (concat (code0 # codes)) in
             if co_codes_locked c then Blocked
             else case register_loop env ptype pname inputCode (co_codes c) True False c of
                 (None, c) \<Rightarrow> Ran (True, c\<lparr>co_codes_locked := True\<rparr>)
               | (Some codefound, c) \<Rightarrow>
                   Ran (True, if \<not> codefound then whisper pname ''Sorry, that code is invalid or expired.'' c else c))
        | _ \<Rightarrow> Ran (True, c))"

text \<open>The command \<open>/register\<close> (commands/user/register.go) and the removal of codes after five minutes.\<close>

definition PassExpireSec :: int where "PassExpireSec = 5 * 60"

definition new_code :: "gotime \<Rightarrow> string \<Rightarrow> string \<Rightarrow> console \<Rightarrow> console run" where
  "new_code now user password c =
     (if co_codes_locked c then Blocked
      else Ran (c\<lparr>co_codes := gm_put (gm_del (co_codes c) user) user \<lparr>pd_code = password, pd_disc = user, pd_time = unix now\<rparr>\<rparr>))"

fun expire_each :: "int \<Rightarrow> (string \<times> pass_data) list \<Rightarrow> (string, pass_data) gomap \<Rightarrow> (string, pass_data) gomap" where
  "expire_each now [] m = m"
| "expire_each now ((i, pass) # rest) m = expire_each now rest (if PassExpireSec < now - pd_time pass then gm_del m (pd_disc pass) else m)"

definition expire_codes :: "gotime \<Rightarrow> console \<Rightarrow> console run" where
  "expire_codes now c =
     (if co_codes_locked c then Blocked else Ran (c\<lparr>co_codes := expire_each (unix now) (co_codes c) (co_codes c)\<rparr>))"

end
