(* ===== verification/Console_Events.thy ===== *)
theory Console_Events
  imports Console
begin

text \<open>
  The handlers of the console lines that are no chat (support/pipeHandle_*.go) and the loop that reads the lines of the
  game (\<open>HandleChat\<close> in support/pipeParse.go).  The regular expressions are written as the functions they stand for.
\<close>

text \<open>
  The libraries of the SoftMod messages and what else the handlers read: the JSON decoders take the raw data of a message;
  \<open>he_running\<close> and \<open>he_booted\<close> are \<open>FactIsRunning\<close> and \<open>FactorioBooted\<close>; \<open>he_remove_ok\<close> and \<open>he_backup_ok\<close> are the outcomes of
  the file operations.
\<close>

record envelope =
  en_version :: int
  en_kind :: string
  en_command :: string
  en_event :: string
  en_ok :: bool
  en_data :: string

record handler_env =
  he_con :: console_env
  he_inflate :: "byte list \<Rightarrow> (byte list \<times> bool) option"
  he_envelope :: "byte list \<Rightarrow> envelope option"
  he_hello :: "string \<Rightarrow> string option"
  he_status :: "string \<Rightarrow> (uint64 \<times> bool) option"
  he_online :: "string \<Rightarrow> string option"
  he_players :: "string \<Rightarrow> (string \<times> int \<times> int \<times> string \<times> string) list option"
  he_preview :: "string \<Rightarrow> string option"
  he_level :: "string \<Rightarrow> (string \<times> int64) option"
  he_registration :: "string \<Rightarrow> (string \<times> string \<times> string) option"
  he_text :: "string \<Rightarrow> string option"
  he_running :: bool
  he_booted :: bool
  he_booted_at :: gotime
  he_hide_research :: bool
  he_hide_autosaves :: bool
  he_shutup_sus :: bool
  he_speed :: string
  he_saves_folder :: string
  he_port :: nat
  he_patreon :: "string \<Rightarrow> bool"
  he_nitro :: "string \<Rightarrow> bool"
  he_remove_ok :: "string \<Rightarrow> bool"
  he_backup_ok :: bool

type_synonym handler = "handler_env \<Rightarrow> handle_data \<Rightarrow> console \<Rightarrow> (bool \<times> console) run"

abbreviation now_of :: "handler_env \<Rightarrow> gotime" where "now_of env \<equiv> ce_now (he_con env)"
abbreviation sec_of :: "handler_env \<Rightarrow> int" where "sec_of env \<equiv> unix (ce_now (he_con env))"

definition chat_say :: "string \<Rightarrow> console \<Rightarrow> console" where
  "chat_say t c = say (ToDiscord ChatChannel t) c"

definition RequestOnlinePlayers :: "console \<Rightarrow> console" where
  "RequestOnlinePlayers c = (if co_softmod c = Unknown then say (GameLine ''/p o c'') c else say (SoftModRequest ''online'') c)"

definition check_bans :: "console_env \<Rightarrow> string \<Rightarrow> bool \<Rightarrow> console \<Rightarrow> bool \<times> console" where
  "check_bans env name doWarn c =
     (let (hit, w) = CheckBanList ((ce_ban env)\<lparr>bn_now := unix (ce_now env)\<rparr>) name doWarn
                       \<lparr>bw_bans = co_bans c, bw_players = co_players c, bw_notices = []\<rparr>
      in (hit, c\<lparr>co_players := bw_players w, co_out := co_out c @ map (\<lambda>(ch, t). ToDiscord ch t) (bw_notices w)\<rparr>))"

section \<open>Numbers and patterns\<close>

text \<open>\<open>strconv.Atoi\<close> with its error ignored: 0 for what is no number, the nearest value out of range.\<close>

definition go_atoi :: "string \<Rightarrow> int" where
  "go_atoi s =
     (let neg = has_prefix s ''-''; ds = (if neg \<or> has_prefix s ''+'' then drop 1 s else s) in
      if ds = [] \<or> \<not> list_all is_digit ds then 0
      else if neg then max (- (2 ^ 63)) (- int (digits_value ds)) else min (2 ^ 63 - 1) (int (digits_value ds)))"

text \<open>\<open>strings.Cut\<close>: the parts before and after the first occurrence.\<close>

fun str_cut :: "string \<Rightarrow> string \<Rightarrow> (string \<times> string) option" where
  "str_cut [] sep = (if sep = [] then Some ([], []) else None)"
| "str_cut (c # s) sep =
     (if has_prefix (c # s) sep then Some ([], drop (length sep) (c # s)) else map_option (\<lambda>(a, b). (c # a, b)) (str_cut s sep))"

lemma str_cut_length: "str_cut s sep = Some (a, b) \<Longrightarrow> length b \<le> length s"
  by (induction s arbitrary: a b) (auto split: if_splits)

text \<open>\<open>/.*?/saves/\<close> removed everywhere.\<close>

function strip_saves :: "string \<Rightarrow> string" where
  "strip_saves [] = []"
| "strip_saves (c # s) =
     (if c = CHR ''/'' then (case str_cut s ''/saves/'' of Some (_, rest) \<Rightarrow> strip_saves rest | None \<Rightarrow> c # strip_saves s)
      else c # strip_saves s)"
  by pat_completeness auto
termination by (relation "measure length") (auto dest: str_cut_length)

declare strip_saves.simps [simp del]

definition remove_char :: "char \<Rightarrow> string \<Rightarrow> string" where
  "remove_char x s = filter (\<lambda>c. c \<noteq> x) s"

text \<open>\<open>(\d+/\d+)\<close> in brackets: the text without the first occurrence, and the two numbers.\<close>

definition count_at :: "string \<Rightarrow> (string \<times> string) option" where
  "count_at s =
     (let a = takeWhile is_digit s; r = dropWhile is_digit s in
      if a = [] \<or> \<not> has_prefix r ''/'' then None
      else let b = takeWhile is_digit (drop 1 r); r = dropWhile is_digit (drop 1 r) in
        if b = [] \<or> \<not> has_prefix r '')'' then None else Some (a @ ''/'' @ b, drop 1 r))"

fun find_count :: "string \<Rightarrow> (string \<times> string) option" where
  "find_count [] = None"
| "find_count (c # s) =
     (case (if c = CHR ''('' then count_at s else None) of
        Some (n, rest) \<Rightarrow> Some (n, rest)
      | None \<Rightarrow> map_option (\<lambda>(n, rest). (n, c # rest)) (find_count s))"

definition fields_of :: "string \<Rightarrow> string list" where
  "fields_of s = filter (\<lambda>w. w \<noteq> []) (words_of (map (\<lambda>c. if is_space c then CHR '' '' else c) s))"

definition modLoadStatusDetail :: "string \<Rightarrow> string" where
  "modLoadStatusDetail line =
     (let line = trim_space line in
      if \<not> has_prefix line ''Loading mod '' then []
      else let modInfo = trim_space (trim_prefix line ''Loading mod '') in
        let (count, modInfo) = (case find_count modInfo of Some (n, rest) \<Rightarrow> (n, rest) | None \<Rightarrow> ([], modInfo)) in
        (case fields_of modInfo of [] \<Rightarrow> [] | name # _ \<Rightarrow> if count \<noteq> [] then count @ '' '' @ name else name))"

text \<open>\<open>Info AppManager.cpp:\d+: Saving to _(autosave\d+)\<close>, where the dot stands for any byte.\<close>

definition autosave_at :: "string \<Rightarrow> string option" where
  "autosave_at s =
     (if \<not> has_prefix s ''Info AppManager'' \<or> \<not> has_prefix (drop 16 s) ''cpp:'' then None
      else let d = drop 20 s; n = takeWhile is_digit d; r = dropWhile is_digit d; p = '': Saving to _autosave'' in
        if n = [] \<or> \<not> has_prefix r p then None
        else let k = takeWhile is_digit (drop (length p) r) in if k = [] then None else Some (''autosave'' @ k))"

fun autosave_name :: "string \<Rightarrow> string option" where
  "autosave_name [] = None"
| "autosave_name (c # s) = (case autosave_at (c # s) of Some n \<Rightarrow> Some n | None \<Rightarrow> autosave_name s)"

section \<open>Players\<close>

definition handleDisconnect :: handler where
  "handleDisconnect env input c =
     Ran (False,
       if has_prefix (hd_no_timecode input) ''Info ServerMultiplayerManager'' \<and> contains_str (hd_line input) ''removing peer'' then
         RequestOnlinePlayers (if co_softmod c = Unknown then LogGameCMS False ChatChannel ''A player has disconnected.'' c else c)
       else c)"

definition handleOnlinePlayers :: handler where
  "handleOnlinePlayers env input c =
     (if \<not> has_prefix (hd_line input) ''Online players'' then Ran (False, c)
      else if \<not> 2 < length (hd_words input) then Ran (True, c)
      else
        (let prevCount = co_num_players c;
             poc = join_words (drop 2 (hd_words input));
             nump = go_atoi (filter (\<lambda>x. x \<notin> set ''(): '') poc);
             c = say (ChannelName False) (c\<lparr>co_num_players := nump\<rparr>)
         in Ran (True, if prevCount \<noteq> 0 \<and> nump = 0 then say (ChannelName True) c else c)))"

definition unpause_for :: "handler_env \<Rightarrow> string \<Rightarrow> string \<times> console \<Rightarrow> string \<times> console" where
  "unpause_for env pname = (\<lambda>(buf, c).
     (if co_softmod c \<noteq> Unknown \<and> he_running env \<and> he_booted env \<and> co_paused_for_connect c \<and> equal_fold (co_paused_for c) pname
      then (buf @ '' (Unpausing game)'',
            say (SoftModSpeed (he_speed env)) (c\<lparr>co_paused_for_connect := False, co_paused_for := [], co_connect_attempt := False\<rparr>))
      else (buf, c)))"

definition softmod_tags :: "handler_env \<Rightarrow> string \<Rightarrow> console \<Rightarrow> console" where
  "softmod_tags env pname c =
     (if co_softmod c = Unknown then c
      else
        (let c = say UpdateDuration c; did = GetDiscordIDFromFactorioName pname (co_players c);
             c = (if did \<noteq> [] \<and> he_patreon env did then say (Supporter pname ''patreon'') c else c)
         in if did \<noteq> [] \<and> he_nitro env did then say (Supporter pname ''nitro'') c else c))"

definition game_time_tag :: "handler_env \<Rightarrow> string" where
  "game_time_tag env = [CHR 0x60] @ ce_game_time (he_con env) @ [CHR 0x60]"

definition handlePlayerJoin :: handler where
  "handlePlayerJoin env input c =
     (if \<not> has_prefix (hd_no_datestamp input) ''[JOIN]'' then Ran (False, c)
      else let c = RequestOnlinePlayers c in
        case hd_no_datestamp_list input of
          tag # name # _ \<Rightarrow>
            (let pname = UnicodeCleanup (ce_uni (he_con env)) name;
                 (hit, c) = check_bans (he_con env) pname True c in
             if hit then Ran (True, c)
             else
               (let (plevelname, st) = AutoPromote (ce_server (he_con env)) (sec_of env) pname False True (co_players c);
                    c = c\<lparr>co_players := st\<rparr>;
                    pname = EscapeDiscordMarkdown pname;
                    (buf, c) = unpause_for env pname (game_time_tag env @ '' **'' @ pname @ '' joined**'' @ plevelname, c)
                in Ran (True, softmod_tags env pname (chat_say buf c))))
        | _ \<Rightarrow> Ran (True, c))"

definition handlePlayerLeave :: handler where
  "handlePlayerLeave env input c =
     (if \<not> has_prefix (hd_no_datestamp input) ''[LEAVE]'' \<or> \<not> he_booted env \<or> \<not> he_running env then Ran (False, c)
      else case hd_no_datestamp_list input of
          tag # pname # _ \<Rightarrow>
            (let c = (if co_softmod c = Unknown then chat_say (pname @ '' left.'') c else c)
             in Ran (True, on_players (UpdateSeen (sec_of env) pname) (RequestOnlinePlayers c)))
        | _ \<Rightarrow> Ran (True, c))"

definition handleIncomingAnnounce :: handler where
  "handleIncomingAnnounce env input c =
     (if \<not> contains_str (hd_no_timecode input) ''Queuing ban recommendation check for user '' \<or> \<not> 1 < length (hd_trimmed input)
      then Ran (False, c)
      else
        (let pName = last (hd_trimmed input);
             fmsg = pName @ '' is connecting.'';
             c = (if 30 * second_ns < now_of env - co_connect_time c \<or> co_connector c \<noteq> pName
                  then chat_say (game_time_tag env @ '' '' @ fmsg) (say (GameChat fmsg) c) else c);
             c = c\<lparr>co_connect_time := now_of env, co_connector := pName\<rparr>
         in Ran (True,
              if co_paused_for_connect c \<and> equal_fold (co_paused_for c) pName then
                LogGameCMS True ChatChannel (''Pausing game, requested by '' @ pName) (say (SoftModSpeed ''4/60'') (c\<lparr>co_connect_attempt := True\<rparr>))
              else c)))"

section \<open>Moderation\<close>

definition banReasonFromLine :: "string \<Rightarrow> string option" where
  "banReasonFromLine line = map_option (\<lambda>(_, reason). trim_space reason) (str_cut line ''Reason:'')"

definition handleBan :: handler where
  "handleBan env input c =
     (if \<not> has_prefix (hd_no_datestamp input) ''[BAN]'' then Ran (False, c)
      else case hd_no_datestamp_list input of
          tag # trustname # rest \<Rightarrow>
            (let c = on_players (\<lambda>st. st\<lparr>last_ban_name := trustname\<rparr>) c;
                 c = (if contains_str (hd_no_datestamp input) ''was banned by'' then
                        (case banReasonFromLine (hd_no_datestamp input) of
                           Some reason \<Rightarrow> on_players (\<lambda>st. snd (PlayerSetBanReason (sec_of env) trustname reason False st)) c
                         | None \<Rightarrow> on_players (\<lambda>st. snd (PlayerLevelSet (ce_server (he_con env)) (sec_of env) trustname (- 1) False st)) c)
                      else c)
             in Ran (True, RequestOnlinePlayers
                  (LogGameCMS False ChatChannel (game_time_tag env @ '' '' @ join_words (trustname # rest)) c)))
        | _ \<Rightarrow> Ran (True, c))"

definition handleUnBan :: handler where
  "handleUnBan env input c =
     (if \<not> has_prefix (hd_no_datestamp input) ''[UNBANNED]'' then Ran (False, c)
      else case hd_no_datestamp_list input of
          tag # trustname # rest \<Rightarrow>
            (let c = on_players (\<lambda>st. st\<lparr>last_ban_name := []\<rparr>) c;
                 c = (if contains_str (hd_no_datestamp input) ''was unbanned by'' then
                        (let (level, st) = PlayerLevelGet (sec_of env) trustname True (co_players c) in
                         c\<lparr>co_players := (if sint level < 0
                              then snd (PlayerLevelSet (ce_server (he_con env)) (sec_of env) trustname 0 False st) else st)\<rparr>)
                      else c)
             in Ran (True, LogGameCMS False ChatChannel (game_time_tag env @ '' '' @ join_words (trustname # rest)) c))
        | _ \<Rightarrow> Ran (True, c))"

definition SusWarningThresh :: int where "SusWarningThresh = 40"

definition sus_change :: "string \<Rightarrow> int64 \<Rightarrow> int64" where
  "sus_change action n =
     (if contains_str action ''placed-ghost'' then n - 2
      else if contains_str action ''mined-ghost'' then n - 1
      else if contains_str action ''placed'' then n - 1
      else if contains_str action ''mined'' then n + 1
      else if contains_str action ''decon'' then n + 2 else n)"

definition rate_action :: "handler_env \<Rightarrow> string \<Rightarrow> string \<Rightarrow> console \<Rightarrow> bool \<times> console" where
  "rate_action env pname action c =
     (let key = to_lower pname in
      case lookup_player (co_players c) key of
        None \<Rightarrow> (False, c)
      | Some p \<Rightarrow>
          if p_name p = [] then (False, c)
          else if \<not> sint (p_level p) < 2 then (False, on_players (set_player key (p\<lparr>p_sus_score := 0\<rparr>)) c)
          else
            (let n = sus_change action (p_sus_score p);
                 thresh = (if 0 < sint (p_level p) then SusWarningThresh + 1000 else SusWarningThresh) in
             if thresh < sint n \<and> 2 * minute_ns < now_of env - co_sus_warning c
             then (\<not> he_shutup_sus env, on_players (set_player key (p\<lparr>p_sus_score := 0\<rparr>)) (c\<lparr>co_sus_warning := now_of env\<rparr>))
             else (False, on_players (set_player key (p\<lparr>p_sus_score := n\<rparr>)) c)))"

definition server_tag :: "console_env \<Rightarrow> string" where
  "server_tag env =
     (let t = ce_callsign env @ ''-'' @ ce_name env in
      if ce_chat_id env \<noteq> [] then ''<#'' @ ce_chat_id env @ ''> ['' @ t @ '']'' @ [CHR 0x0A] else t)"

definition log_url :: "console_env \<Rightarrow> string" where
  "log_url env = (if ce_log_url env \<noteq> [] then ''Log: '' @ ce_log_url env @ [CHR 0x0A] else [])"

definition ping_tag :: "string \<Rightarrow> string" where
  "ping_tag role = (if role \<noteq> [] then [CHR 0x0A] @ ''<@&'' @ role @ ''>'' else [])"

definition ReportStatus :: "console_env \<Rightarrow> string \<Rightarrow> console \<Rightarrow> console" where
  "ReportStatus env t c =
     (let c = (if ce_report_id env \<noteq> [] then say (ToDiscord ReportChannel t) c else c) in if ce_chat_id env \<noteq> [] then chat_say t c else c)"

definition handleActMsg :: handler where
  "handleActMsg env input c =
     (if has_prefix (hd_line input) ''[ERROR]'' then Ran (True, c)
      else if has_prefix (hd_line input) ''[ACT]'' \<or> has_prefix (hd_line input) ''[TODO]'' then
        (case hd_words input of
           tag # pname # action # _ \<Rightarrow>
             if pname = [] then Ran (True, c)
             else
               (let (shouldWarn, c) = rate_action env pname action (on_players (UpdateSeen (sec_of env) pname) c);
                    suspect = ''Possible suspicious activity: '' @ pname @ [CHR 0x0A]; con = he_con env
                in Ran (True, if shouldWarn
                     then say (GameChat suspect) (ReportStatus con (server_tag con @ suspect @ log_url con @ ping_tag (ce_sus_role con)) c)
                     else c))
         | _ \<Rightarrow> Ran (True, c))
      else Ran (False, c))"

definition handlePlayerReport :: handler where
  "handlePlayerReport env input c =
     (if \<not> has_prefix (hd_line input) ''[REPORT]'' then Ran (False, c)
      else case hd_words input of
          tag # who # w # ws \<Rightarrow>
            (let reporter = ''Reporter: '' @ who @ [CHR 0x0A]; msg = join_words (w # ws) @ [CHR 0x0A]; con = he_con env
             in Ran (True, say (GameChat (''REPORT: '' @ reporter @ '': '' @ msg))
                  (say (ToDiscord ReportChannel (server_tag con @ reporter @ msg @ log_url con @ ping_tag (ce_banish_role con))) c)))
        | _ \<Rightarrow> Ran (True, c))"

definition handleAuditMsg :: handler where
  "handleAuditMsg env input c = Ran (has_prefix (hd_line input) ''[AUDIT]'', c)"

definition handleSoftModMsg :: handler where
  "handleSoftModMsg env input c =
     (if \<not> has_prefix (hd_line input) ''[MSG]'' then Ran (False, c)
      else
        (let cmess = RemoveFactorioTags (EscapeDiscordMarkdown (UnicodeCleanup (ce_uni (he_con env)) (join_words (drop 1 (hd_words input)))));
             cmess = (if 500 < length cmess then TruncateStringEllipsis cmess 500 @ ''(cut, too long!)'' else cmess)
         in Ran (True, if has_prefix cmess ''Research'' \<and> he_hide_research env then c
                       else chat_say (game_time_tag env @ '' **'' @ cmess @ ''**'') c)))"

section \<open>Messages of the SoftMod\<close>

definition text_tag :: "string \<Rightarrow> string" where
  "text_tag event =
     (if event = ''message'' then ''[MSG] '' else if event = ''activity'' then ''[ACT] '' else if event = ''audit'' then ''[AUDIT] ''
      else if event = ''report'' then ''[REPORT] '' else if event = ''todo'' then ''[TODO] '' else if event = ''error'' then ''[ERROR] '' else [])"

definition run_state :: "(bool \<times> console) run \<Rightarrow> console run" where
  "run_state r = (case r of Ran (_, c) \<Rightarrow> Ran c | Blocked \<Rightarrow> Blocked | Panicked \<Rightarrow> Panicked)"

definition dispatchChatWireTextEvent :: "handler_env \<Rightarrow> string \<Rightarrow> string \<Rightarrow> console \<Rightarrow> console run" where
  "dispatchChatWireTextEvent env event t c =
     (let input = preProcessFactorioOutput (text_tag event @ t) in
      if event = ''message'' then run_state (handleSoftModMsg env input c)
      else if event = ''activity'' \<or> event = ''todo'' \<or> event = ''error'' then run_state (handleActMsg env input c)
      else if event = ''audit'' then run_state (handleAuditMsg env input c)
      else if event = ''report'' then run_state (handlePlayerReport env input c)
      else Ran c)"

definition game_seconds :: "int \<Rightarrow> console \<Rightarrow> bool \<times> console" where
  "game_seconds ticks c =
     (let unchanged = co_time_known c \<and> ticks = co_time_sample c;
          paused = (if \<not> co_time_known c \<or> ticks < co_time_sample c then False
                    else if co_time_paused c \<and> co_time_sample c < ticks then False else co_time_paused c)
      in (unchanged, c\<lparr>co_time_known := True, co_time_sample := ticks, co_time_paused := paused\<rparr>))"

definition PauseThresh :: int where "PauseThresh = 5"

definition RecordGameTick :: "uint64 \<Rightarrow> bool \<Rightarrow> console \<Rightarrow> console" where
  "RecordGameTick tick paused c =
     (snd (game_seconds (int (unat tick)) c))\<lparr>co_time_paused := paused, co_paused_ticks := (if paused then PauseThresh + 1 else 0)\<rparr>"

definition handleChatWireStatus :: "handler_env \<Rightarrow> string \<Rightarrow> console \<Rightarrow> console" where
  "handleChatWireStatus env raw c = (case he_status env raw of None \<Rightarrow> c | Some (tick, paused) \<Rightarrow> RecordGameTick tick paused c)"

fun online_each :: "handler_env \<Rightarrow> (string \<times> int \<times> int \<times> string \<times> string) list \<Rightarrow> online_player list \<times> console
    \<Rightarrow> online_player list \<times> console" where
  "online_each env [] (acc, c) = (acc, c)"
| "online_each env ((name, score, time, kind, afk) # ps) (acc, c) =
     (if name = [] then online_each env ps (acc, c)
      else
        (let c = snd (check_bans (he_con env) name False (on_players (UpdateSeen (sec_of env) name) c));
             p = \<lparr>op_name = name, op_score = score, op_time = time, op_level = StringToLevel kind, op_afk = afk\<rparr>
         in online_each env ps (acc @ [p], c)))"

definition handleChatWireOnline :: "handler_env \<Rightarrow> string \<Rightarrow> console \<Rightarrow> console" where
  "handleChatWireOnline env raw c =
     (case he_online env raw of
        None \<Rightarrow> c
      | Some playersJSON \<Rightarrow>
          (let t = trim_space playersJSON in
           case (if t = [] \<or> t = ''null'' \<or> t = ''{}'' then Some [] else he_players env playersJSON) of
             None \<Rightarrow> c
           | Some onlinePlayers \<Rightarrow>
               (let (players, c) = online_each env onlinePlayers ([], c);
                    previous = co_num_players c;
                    c = c\<lparr>co_num_players := int (length players), co_online := players\<rparr>
                in if previous \<noteq> int (length players) then
                     (let c = say (ChannelName False) c in if players = [] then say (ChannelName True) c else c)
                   else c)))"

definition handleChatWireResponse :: "handler_env \<Rightarrow> uint64 \<Rightarrow> envelope \<Rightarrow> console \<Rightarrow> console" where
  "handleChatWireResponse env generation e c =
     (if \<not> en_ok e then c
      else if en_command e = ''hello'' then
        (case he_hello env (en_data e) of
           None \<Rightarrow> c
         | Some version \<Rightarrow>
             if version = [] then c
             else
               (let firstHello = (co_softmod c = Unknown);
                    c = say (SoftModDetected generation) (c\<lparr>co_softmod := version\<rparr>)
                in if firstHello then RequestOnlinePlayers (say SoftModConfig c) else c))
      else if en_command e = ''status'' then handleChatWireStatus env (en_data e) c
      else if en_command e = ''online'' then handleChatWireOnline env (en_data e) c
      else c)"

definition handleChatWireEvent :: "handler_env \<Rightarrow> string \<Rightarrow> string \<Rightarrow> console \<Rightarrow> console run" where
  "handleChatWireEvent env event data c =
     (if event = ''map-preview'' then Ran (case he_preview env data of None \<Rightarrow> c | Some x \<Rightarrow> say (MapPreview x) c)
      else if event = ''online'' then Ran (handleChatWireOnline env data c)
      else if event = ''player-level'' then
        Ran (case he_level env data of
               None \<Rightarrow> c
             | Some (name, level) \<Rightarrow>
                 if name = [] then c
                 else on_players (\<lambda>st. snd (PlayerLevelSetFromGame (ce_server (he_con env)) (sec_of env) name level st)) c)
      else if event = ''registration'' then
        (case he_registration env data of
           None \<Rightarrow> Ran c
         | Some (kind, name, code) \<Rightarrow>
             run_state (handlePlayerRegister (he_con env)
               (preProcessFactorioOutput (''[ACCESS] '' @ kind @ '' '' @ name @ '' '' @ code)) c))
      else if event \<in> {''message'', ''activity'', ''audit'', ''report'', ''todo'', ''error'', ''log''} then
        (case he_text env data of None \<Rightarrow> Ran c | Some t \<Rightarrow> dispatchChatWireTextEvent env event t c)
      else Ran c)"

definition handleChatWire :: handler where
  "handleChatWire env input c =
     (if \<not> has_prefix (hd_line input) ''[CHATWIRE] '' then Ran (False, c)
      else case DecodeSoftModPayload (he_inflate env) (trim_space (trim_prefix (hd_line input) ''[CHATWIRE] '')) of
          None \<Rightarrow> Ran (True, c)
        | Some payload \<Rightarrow>
            (case he_envelope env payload of
               None \<Rightarrow> Ran (True, c)
             | Some e \<Rightarrow>
                 if en_version e \<noteq> int SoftModProtocolVersion then Ran (True, c)
                 else if en_kind e = ''response'' then Ran (True, handleChatWireResponse env (hd_generation input) e c)
                 else if en_kind e = ''event'' then
                   (case handleChatWireEvent env (en_event e) (en_data e) c of
                      Ran c \<Rightarrow> Ran (True, c) | Blocked \<Rightarrow> Blocked | Panicked \<Rightarrow> Panicked)
                 else Ran (True, c)))"

section \<open>The time of the game\<close>

definition MaxTickHistory :: nat where "MaxTickHistory = 4000"

text \<open>The loop over the words with the word before; \<open>None\<close> is the index \<open>x - 1\<close> for the first word.\<close>

fun scan_time :: "string option \<Rightarrow> string list \<Rightarrow> int \<times> int \<times> int \<times> int \<Rightarrow> (int \<times> int \<times> int \<times> int) option" where
  "scan_time prev [] acc = Some acc"
| "scan_time prev (w # ws) (d, h, m, s) =
     (if contains_str w ''day'' then
        (case prev of None \<Rightarrow> None | Some p \<Rightarrow> scan_time (Some w) ws (go_atoi p, h, m, s))
      else if contains_str w ''hour'' then
        (case prev of None \<Rightarrow> None | Some p \<Rightarrow> scan_time (Some w) ws (d, go_atoi p, m, s))
      else if contains_str w ''minute'' then
        (case prev of None \<Rightarrow> None | Some p \<Rightarrow> scan_time (Some w) ws (d, h, go_atoi p, s))
      else if contains_str w ''second'' then
        (case prev of None \<Rightarrow> None | Some p \<Rightarrow> scan_time (Some w) ws (d, h, m, go_atoi p))
      else scan_time (Some w) ws (d, h, m, s))"

definition mentions_time :: "string \<Rightarrow> bool" where
  "mentions_time l \<longleftrightarrow> contains_str l '' second'' \<or> contains_str l '' minute'' \<or> contains_str l '' hour'' \<or> contains_str l '' day''"

definition handleGameTime :: handler where
  "handleGameTime env input c =
     (if \<not> mentions_time (hd_lower input) \<or> \<not> 1 < length (hd_lower_words input) then Ran (False, c)
      else case scan_time None (hd_lower_words input) (0, 0, 0, 0) of
          None \<Rightarrow> Panicked
        | Some (d, h, m, s) \<Rightarrow>
            (let c = (if co_paused_ticks c \<le> 2 then
                        (let hist = co_tick_history c @ [(d, h, m, s)]
                         in c\<lparr>co_tick_history := drop (length hist - MaxTickHistory) hist\<rparr>)
                      else c);
                 total = sint (word_of_int (d * 86400 + h * 3600 + m * 60 + s) :: int64);
                 (unchanged, c) = game_seconds (60 * total) c;
                 c = (if unchanged
                      then if co_paused_ticks c \<le> PauseThresh then c\<lparr>co_paused_ticks := co_paused_ticks c + 2\<rparr> else c
                      else c\<lparr>co_paused_ticks := 0\<rparr>)
             in Ran (False, c\<lparr>co_time_paused := (PauseThresh < co_paused_ticks c)\<rparr>)))"

section \<open>The state of the game\<close>

definition handleMapLoad :: handler where
  "handleMapLoad env input c =
     (if \<not> has_prefix (hd_no_timecode input) ''Loading map'' then Ran (False, c)
      else
        (let c = say (LifecycleProgress (hd_generation input) ''map-load'' []) c in
         if 3 < length (hd_no_timecode_list input) then
           (let fullpath = remove_char (CHR '':'') (hd_no_timecode_list input ! 2); filename = strip_saves fullpath
            in Ran (True, c\<lparr>co_map_name := filename, co_map_path := fullpath, co_last_save := filename\<rparr>))
         else Ran (True, c)))"

definition handleSaveMsg :: handler where
  "handleSaveMsg env input c =
     (if \<not> has_prefix (hd_no_timecode input) ''Info AppManager'' \<or> \<not> contains_str (hd_no_timecode input) ''Saving to'' then Ran (False, c)
      else
        (let c = say (LifecycleProgress (hd_generation input) ''save'' []) c in
         case (if he_hide_autosaves env then None else autosave_name (hd_no_timecode input)) of
           None \<Rightarrow> Ran (True, c)
         | Some name \<Rightarrow>
             (let disk = [CHR 0xF0, CHR 0x9F, CHR 0x92, CHR 0xBE];
                  c = (if 0 < co_num_players c then chat_say (game_time_tag env @ '' '' @ disk @ '' '' @ name) c else c)
              in Ran (True, c\<lparr>co_last_save := name\<rparr>))))"

definition MaxSaveBackups :: nat where "MaxSaveBackups = 10"

definition handleExitSave :: handler where
  "handleExitSave env input c =
     (if \<not> has_prefix (hd_no_timecode input) ''Info MainLoop'' \<or> \<not> contains_str (hd_no_timecode input) ''Saving map as'' then Ran (False, c)
      else
        (let c = say (LifecycleProgress (hd_generation input) ''save'' []) c in
         if 5 < length (hd_no_timecode_list input) then
           (let fullpath = join_words (drop 5 (hd_no_timecode_list input));
                filename = remove_char (CHR '':'') (strip_saves fullpath);
                n = (if co_last_backup c < MaxSaveBackups then co_last_backup c + 1 else 1);
                newPath = he_saves_folder env @ ''/'' @ ''bak-'' @ itoa n @ ''.zip''
            in Ran (True, say (BackupSave fullpath newPath)
                 (c\<lparr>co_last_backup := n, co_map_name := filename, co_map_path := fullpath, co_last_save := filename\<rparr>)))
         else Ran (True, c)))"

definition handleFactGoodbye :: handler where
  "handleFactGoodbye env input c =
     (if has_prefix (hd_no_timecode input) ''Goodbye''
      then Ran (True, say (LifecycleGoodbye (hd_generation input)) (on_players (\<lambda>st. st\<lparr>last_ban_name := []\<rparr>) c)) else Ran (False, c))"

definition isFactorioReadyLine :: "string \<Rightarrow> bool" where
  "isFactorioReadyLine line \<longleftrightarrow> trim_space line \<noteq> [] \<and> contains_str (trim_space line) ''Starting RCON interface''"

definition requestFactorioStatus :: "console \<Rightarrow> console" where
  "requestFactorioStatus c =
     (if co_softmod c = Unknown then say (GameLine ''/time'') (say (SoftModRequest ''hello'') c) else say (SoftModRequest ''status'') c)"

definition handleFactReady :: handler where
  "handleFactReady env input c =
     (if \<not> isFactorioReadyLine (hd_no_timecode input) then Ran (False, c)
      else
        (let g = hd_generation input;
             c = (say (LifecycleProgress g ''rcon-ready'' []) c)\<lparr>co_num_players := 0, co_online := []\<rparr>;
             c = say (ModHistory ''Factorio Booted'' []) (say (LifecycleReady g) c)
         in Ran (False, requestFactorioStatus c)))"

definition handleFactVersion :: handler where
  "handleFactVersion env input c =
     (let l = hd_no_timecode input in
      if has_prefix l ''Loading mod base'' then
        (let c = say (LifecycleProgress (hd_generation input) ''mod-load'' (modLoadStatusDetail l)) c
         in Ran (False, if 3 < length (hd_no_timecode_list input) then c\<lparr>co_version := hd_no_timecode_list input ! 3\<rparr> else c))
      else if has_prefix l ''Loading mod '' then Ran (False, say (LifecycleProgress (hd_generation input) ''mod-load'' (modLoadStatusDetail l)) c)
      else Ran (False, c))"

section \<open>Errors of the game\<close>

definition handleDesync :: handler where
  "handleDesync env input c =
     (let l = hd_no_timecode input in
      if \<not> has_prefix l ''Info'' \<or> \<not> contains_str l ''DesyncedWaitingForMap'' then Ran (False, c)
      else
        (let c = say (ModHistory ''Desync'' l) (chat_say (''Desync: '' @ l) c)
         in Ran (True,
              if he_booted_at env \<noteq> zero_time \<and> 15 * minute_ns \<le> now_of env - he_booted_at env then
                chat_say ''**Desync detected; Factorio reboot queued.**'' (say (LifecycleRestartWhenEmpty ''Desync detected; Factorio reboot queued.'') c)
              else c)))"

definition game_failed :: "handle_data \<Rightarrow> console \<Rightarrow> console" where
  "game_failed input c = say (LifecycleGoodbye (hd_generation input)) c"

definition game_broken :: "handle_data \<Rightarrow> console \<Rightarrow> console" where
  "game_broken input c = game_failed input (say AutolaunchOff c)"

definition mod_load_error :: "handle_data \<Rightarrow> console \<Rightarrow> console run" where
  "mod_load_error input c =
     (let l = hd_no_timecode input in
      if 10 \<le> length (hd_words input) then
        (if length (hd_words input) \<le> 10 then Panicked
         else Ran (game_broken input (say (ModHistory ''Mod load failed'' l)
                (chat_say (''Factorio failed loading game mod: '' @ hd_words input ! 10) c))))
      else Ran (game_broken input (say (ModHistory ''Loading game mods failed'' l) (chat_say ''Factorio failed loading game mods.'' c))))"

text \<open>The messages after \<open>MultiplayerManager failed:\<close> by their text.\<close>

definition multiplayer_error :: "handler_env \<Rightarrow> handle_data \<Rightarrow> console \<Rightarrow> console option" where
  "multiplayer_error env input c =
     (let l = hd_no_timecode input; broken = (\<lambda>t. Some (game_broken input (chat_say t c))) in
      if contains_str l ''Host address is already in use'' then broken (''The specified port is already in use: '' @ itoa (he_port env))
      else if contains_str l ''cannot be loaded because it is higher than the game version'' then
        broken ''**Factorio version is too old for the save game.**''
      else if contains_str l ''syntax error'' \<or> contains_str l ''unexpected symbol'' \<or> contains_str l ''expected'' then
        Some (game_broken input (chat_say ''**Factorio encountered a lua syntax error and will stop.**'' (say (ModHistory ''Lua Syntax Error'' l) c)))
      else if contains_str l ''Error while running command'' then
        Some (game_broken input (chat_say ''**Factorio encountered a lua command error.**'' (say (ModHistory ''Lua Command Error'' l) c)))
      else if contains_str l ''info.json not found'' then broken ''Unable to load save-game.''
      else None)"

text \<open>A bad save named in the line is removed; \<open>None\<close> when the line names none.\<close>

definition bad_zip :: "handler_env \<Rightarrow> handle_data \<Rightarrow> console \<Rightarrow> console option run" where
  "bad_zip env input c =
     (if \<not> contains_str (hd_no_timecode input) ''(Bad zip file)'' \<or> \<not> 6 < length (hd_trimmed input) then Ran None
      else if length (hd_trimmed input) \<le> 7 then Panicked
      else let name = hd_trimmed input ! 7 in
        if \<not> has_suffix name ''.zip'' \<and> \<not> has_suffix name ''.tmp.zip'' then Ran None
        else let c = say (RemoveFile name) c in
          Ran (Some (if he_remove_ok env name then c else game_broken input c)))"

definition multiplayer_failed :: "handler_env \<Rightarrow> handle_data \<Rightarrow> console \<Rightarrow> console run" where
  "multiplayer_failed env input c =
     (case multiplayer_error env input c of
        Some c \<Rightarrow> Ran c
      | None \<Rightarrow>
          (case bad_zip env input c of
             Blocked \<Rightarrow> Blocked
           | Panicked \<Rightarrow> Panicked
           | Ran (Some c) \<Rightarrow> Ran c
           | Ran None \<Rightarrow>
               (let l = hd_no_timecode input in
                if contains_str l ''Closing file'' then
                  (let ok = he_remove_ok env (co_map_path c); c = say (RemoveFile (co_map_path c)) c
                   in Ran (if ok then game_failed input (chat_say ''Save-game corrupted, performing automatic roll-back.'' c)
                           else game_broken input (chat_say ''Unable to remove corrupted save-game.'' c)))
                else if contains_str l ''Exception at tick'' then
                  Ran (game_failed input (chat_say ''**Factorio crashed.**'' (say (ModHistory ''Factorio Crashed'' l) c)))
                else Ran c)))"

definition report_crash :: "handler_env \<Rightarrow> handle_data \<Rightarrow> console \<Rightarrow> console" where
  "report_crash env input c =
     (let l = hd_no_timecode input; con = he_con env in
      if has_prefix l ''Error ServerMultiplayerManager'' \<and> 300 * second_ns < now_of env - co_crash_report c then
        (let c = c\<lparr>co_crash_report := now_of env\<rparr> in
         if \<not> contains_str l ''Matching server connection failed'' then
           say (ToDiscord ReportChannel (ce_group con @ ''-'' @ ce_callsign con @ '': '' @ ce_name con @ '':'' @ [CHR 0x0A] @ l)) c
         else c)
      else c)"

definition error_line :: "handler_env \<Rightarrow> handle_data \<Rightarrow> console \<Rightarrow> console run" where
  "error_line env input c =
     (let l = hd_no_timecode input in
      if contains_str l ''Failed to load mod'' then mod_load_error input c
      else if contains_str l (''Couldn'' @ [CHR 0x27] @ ''t acquire exclusive lock'') then
        Ran (game_broken input (chat_say ''Factorio is already running.'' c))
      else if contains_str l ''caused a non-recoverable error.'' then
        Ran (game_failed input (say (ModHistory ''Factorio closed with a lua error.'' l)
          (chat_say ''**Factorio encountered a lua-script error and will reboot.**'' c)))
      else if contains_str l ''Hosting multiplayer game failed'' then
        Ran (game_broken input (chat_say
          (if contains_str l ''directory iterator cannot open directory'' then ''Factorio didn'' @ [CHR 0x27] @ ''t find any save-games.''
           else ''Factorio was unable to load a multiplayer game.'') c))
      else if contains_str l ''level.dat not found.'' then Ran (game_broken input (chat_say ''Unable to load save-game.'' c))
      else if contains_str l ''Unexpected error occurred.'' then
        Ran (say (ModHistory ''Factorio crashed'' l) (game_failed input (chat_say ''**Factorio crashed.**'' c)))
      else if contains_str l ''CommandLineMultiplayer'' \<and> contains_str l ''No latest save file found in'' then
        Ran (game_broken input (chat_say ''No save-game found.'' c))
      else if contains_str l ''Scenario'' \<and> has_suffix l ''not found'' then
        Ran (game_broken input (say ClearScenario (chat_say ''Invalid scenario specified, clearing scenario setting.'' c)))
      else let c = report_crash env input c in
        if contains_str l ''MultiplayerManager failed:'' then multiplayer_failed env input c else Ran c)"

definition handleCrashes :: handler where
  "handleCrashes env input c =
     (if \<not> has_prefix (hd_no_timecode input) ''Error'' then Ran (False, c)
      else case error_line env input c of Ran c \<Rightarrow> Ran (True, c) | Blocked \<Rightarrow> Blocked | Panicked \<Rightarrow> Panicked)"

section \<open>The loop\<close>

definition noChatHandles :: "handler list" where
  "noChatHandles = [handleDisconnect, handleChatWire, handleGameTime, handleOnlinePlayers, handlePlayerJoin, handlePlayerLeave,
     handleMapLoad, handleBan, handleUnBan, handleFactGoodbye, handleFactReady, handleIncomingAnnounce, handleFactVersion,
     handleSaveMsg, handleExitSave, handleDesync, handleCrashes]"

fun runHandles :: "handler list \<Rightarrow> handler_env \<Rightarrow> handle_data \<Rightarrow> console \<Rightarrow> console run" where
  "runHandles [] env input c = Ran c"
| "runHandles (h # hs) env input c =
     (case h env input c of
        Ran (True, c) \<Rightarrow> Ran c
      | Ran (False, c) \<Rightarrow> runHandles hs env input c
      | Blocked \<Rightarrow> Blocked
      | Panicked \<Rightarrow> Panicked)"

definition chat_handles :: "handler_env \<Rightarrow> handle_data \<Rightarrow> console \<Rightarrow> console run" where
  "chat_handles env input c =
     (case handleIdiots input c of
        Ran (True, c) \<Rightarrow> Ran c
      | Ran (False, c) \<Rightarrow> run_state (handleChatMsg (he_con env) input c)
      | Blocked \<Rightarrow> Blocked
      | Panicked \<Rightarrow> Panicked)"

text \<open>One turn of the loop; \<open>current\<close> is the generation of the running game.\<close>

definition HandleChat :: "handler_env \<Rightarrow> uint64 \<Rightarrow> uint64 \<Rightarrow> string \<Rightarrow> console \<Rightarrow> console run" where
  "HandleChat env current generation readLine c =
     (if generation \<noteq> 0 \<and> current \<noteq> generation then Ran c
      else
        (let rawLine = UnicodeCleanup (ce_uni (he_con env)) readLine;
             c = c\<lparr>co_no_response := 0\<rparr>;
             c = (if 0 < co_paused_ticks c then c\<lparr>co_paused_ticks := co_paused_ticks c - 1\<rparr> else c)
         in if rawLine = [] then Ran c
            else let input = (preProcessFactorioOutput rawLine)\<lparr>hd_generation := generation\<rparr> in
              if has_prefix (hd_line input) ''<server>'' then Ran c
              else if \<not> is_chat_line input then runHandles noChatHandles env input c
              else chat_handles env input c))"

end
