(* ===== verification/Console_Properties.thy ===== *)
theory Console_Properties
  imports Console_Events Game_Output_Properties
begin

text \<open>
  What the console loop promises: a chat line reaches nothing but the chat, and bans nobody but its author; slow chatters
  are never banned and a flood is, at the thirty-first message; a registration code is used once.
\<close>

section \<open>Words\<close>

lemma split_on_no: "x \<notin> set a \<Longrightarrow> split_on x a = [a]"
  by (induction a) auto

lemma split_on_cons: "x \<notin> set a \<Longrightarrow> split_on x (a @ x # b) = a # split_on x b"
  by (induction a) auto

lemma split_on_not_Nil [simp]: "split_on x s \<noteq> []"
  by (induction s) (auto split: list.splits)

lemma join_words_split: "join_words (words_of s) = s"
proof (induction s)
  case (Cons c s)
  obtain w ws where w: "words_of s = w # ws" by (cases "words_of s") auto
  show ?case
    using Cons w by (cases ws) auto
qed simp

lemma trim_left_first: "d \<noteq> [] \<Longrightarrow> CHR '' '' \<notin> set d \<Longrightarrow> trim_left (d @ s) '' '' = d @ s"
  by (cases d) (auto simp: trim_left_def)

text \<open>A line of the game's log: a date, a time and the text of the message.\<close>

definition log_line :: "string \<Rightarrow> string \<Rightarrow> string \<Rightarrow> string" where
  "log_line d t msg = d @ '' '' @ t @ '' '' @ msg"

definition stamp :: "string \<Rightarrow> bool" where
  "stamp s \<longleftrightarrow> s \<noteq> [] \<and> CHR '' '' \<notin> set s \<and> CHR ''<'' \<notin> set s"

lemma log_line_parts:
  assumes "stamp d" "stamp t"
  shows "hd_no_datestamp (preProcessFactorioOutput (log_line d t msg)) = msg"
    and "hd_no_datestamp_list (preProcessFactorioOutput (log_line d t msg)) = words_of msg"
    and "hd_line (preProcessFactorioOutput (log_line d t msg)) = log_line d t msg"
    and "\<not> has_prefix (log_line d t msg) ''<server>''"
proof -
  have w: "words_of (trim_left (log_line d t msg) '' '') = d # t # words_of msg"
    using assms trim_left_first [of d] by (simp add: log_line_def stamp_def split_on_cons)
  have j: "hd_no_datestamp (preProcessFactorioOutput (log_line d t msg)) = join_words (words_of msg)"
    using w by (cases "words_of msg") (simp_all add: preProcessFactorioOutput_def Let_def)
  show "hd_no_datestamp (preProcessFactorioOutput (log_line d t msg)) = msg" using j by (simp add: join_words_split)
  then show "hd_no_datestamp_list (preProcessFactorioOutput (log_line d t msg)) = words_of msg"
    by (simp add: preProcessFactorioOutput_def Let_def)
  show "hd_line (preProcessFactorioOutput (log_line d t msg)) = log_line d t msg"
    by (simp add: preProcessFactorioOutput_def Let_def)
  show "\<not> has_prefix (log_line d t msg) ''<server>''"
    using assms by (cases d) (auto simp: log_line_def stamp_def has_prefix_def)
qed

section \<open>The frame of the chat\<close>

definition no_players :: player_state where
  "no_players = \<lparr>player_list = [], change_next = 0, change_versions = [], list_dirty = False, list_dirty_signal = False,
     stats_dirty = False, last_ban_name = [], sent = []\<rparr>"

text \<open>Everything but the players, the chat guard, the codes, the counters of activity and the messages.\<close>

definition console_frame :: "console \<Rightarrow> console" where
  "console_frame c = c\<lparr>co_players := no_players, co_no_response := 0, co_paused_ticks := 0, co_chatter_locked := False,
     co_chatter := [], co_spam := [], co_codes := [], co_out := []\<rparr>"

definition chat_effect :: "console_out \<Rightarrow> bool" where
  "chat_effect e \<longleftrightarrow> (\<exists>t. e = ToDiscord ChatChannel t) \<or> (\<exists>a t. e = ToDiscordEmbed a t) \<or> e = GameChat leak_warning \<or>
     (\<exists>n. e = GameWhisper n ''*** SPAMMING / FLOODING WARNING! ***'')"

definition bans_only :: "string \<Rightarrow> fact_out list \<Rightarrow> bool" where
  "bans_only name xs \<longleftrightarrow>
     list_all (\<lambda>x. (\<exists>r. x = Command (''/ban '' @ name @ '' '' @ r)) \<or> x = Command (''/purge '' @ name)) xs"

text \<open>What a chat line may do: messages of the chat, bans of its author, and no change of a level or of the frame.\<close>

definition chat_step :: "string \<Rightarrow> console \<Rightarrow> console \<Rightarrow> bool" where
  "chat_step name c c' \<longleftrightarrow>
     console_frame c' = console_frame c \<and>
     (\<exists>xs. co_out c' = co_out c @ xs \<and> list_all chat_effect xs) \<and>
     (\<exists>ys. sent (co_players c') = sent (co_players c) @ ys \<and> bans_only name ys) \<and>
     (\<forall>n. known_level (co_players c') n = known_level (co_players c) n)"

lemma chat_step_refl [simp]: "chat_step name c c"
  by (simp add: chat_step_def bans_only_def)

lemma chat_step_trans:
  assumes "chat_step name a b" "chat_step name b c"
  shows "chat_step name a c"
proof -
  obtain x1 y1 where 1: "co_out b = co_out a @ x1" "list_all chat_effect x1"
    "sent (co_players b) = sent (co_players a) @ y1" "bans_only name y1" using assms(1) unfolding chat_step_def by blast
  obtain x2 y2 where 2: "co_out c = co_out b @ x2" "list_all chat_effect x2"
    "sent (co_players c) = sent (co_players b) @ y2" "bans_only name y2" using assms(2) unfolding chat_step_def by blast
  have "co_out c = co_out a @ (x1 @ x2)" "list_all chat_effect (x1 @ x2)"
    "sent (co_players c) = sent (co_players a) @ (y1 @ y2)" "bans_only name (y1 @ y2)"
    using 1 2 by (simp_all add: bans_only_def)
  then show ?thesis using assms unfolding chat_step_def by (metis (no_types))
qed

lemma known_level_set [simp]:
  "known_level (set_player k p st) n = (if to_lower n = k then p_level p else known_level st n)"
  by (simp add: known_level_def set_player_def lookup_player_def)

lemma known_level_dirty [simp]:
  "known_level (SetPlayerStatsDirty k st) n = known_level st n" "known_level (SetPlayerListDirty k st) n = known_level st n"
  by (simp_all add: known_level_def SetPlayerStatsDirty_def SetPlayerListDirty_def signalPlayerListDirty_def markPlayerDirty_def
      lookup_player_def Let_def)

lemma known_level_ban [simp]: "known_level (WriteBanBy env a b d st) n = known_level st n"
  by (simp add: known_level_def WriteBanBy_def doBan_def write_fact_def lookup_player_def)

lemma sent_marks [simp]:
  "sent (SetPlayerStatsDirty k st) = sent st" "sent (SetPlayerListDirty k st) = sent st" "sent (set_player k p st) = sent st"
  by (simp_all add: SetPlayerStatsDirty_def SetPlayerListDirty_def signalPlayerListDirty_def markPlayerDirty_def set_player_def Let_def)

lemma chat_step_players:
  assumes "\<forall>n. known_level (f (co_players c)) n = known_level (co_players c) n"
    and "sent (f (co_players c)) = sent (co_players c) @ ys" "bans_only name ys"
  shows "chat_step name c (on_players f c)"
  using assms by (auto simp: chat_step_def on_players_def console_frame_def)

lemma chat_step_say: "chat_effect e \<Longrightarrow> chat_step name c (say e c)"
  by (auto simp: chat_step_def say_def console_frame_def bans_only_def)

lemma chat_step_score [simp]: "chat_step name c (set_score n k c)" "chat_step name c (set_last_chat n t c)"
  by (auto simp: chat_step_def set_score_def set_last_chat_def console_frame_def bans_only_def)

lemma chat_step_lower [simp]: "chat_step name c (lower_score n c)"
  by (simp add: lower_score_def)

lemma chat_step_lock [simp]: "chat_step name c (c\<lparr>co_chatter_locked := b\<rparr>)"
  by (auto simp: chat_step_def console_frame_def bans_only_def)

lemma chat_step_rate: "chat_step name c (rate_chat now n c)"
proof -
  have *: "chat_step name c (set_last_chat n t (set_score n k c'))" if "chat_step name c c'" for c' t k
    using that by (blast intro: chat_step_trans chat_step_score)
  have l: "chat_step name c (set_last_chat n t (lower_score n c'))" if "chat_step name c c'" for c' t
    using that by (blast intro: chat_step_trans chat_step_score chat_step_lower)
  show ?thesis by (simp add: rate_chat_def Let_def * l)
qed

lemma PlayerLevelGet_True:
  "known_level (snd (PlayerLevelGet now pname True st)) n = known_level st n" "sent (snd (PlayerLevelGet now pname True st)) = sent st"
  by (auto simp: PlayerLevelGet_def known_level_def [of st] Let_def split: option.splits)

lemma UpdateSeen_quiet: "known_level (UpdateSeen now pname st) n = known_level st n" "sent (UpdateSeen now pname st) = sent st"
  by (auto simp: UpdateSeen_def known_level_def [of st] Let_def split: option.splits)

lemma bans_only_WriteBanBy:
  "\<exists>ys. sent (WriteBanBy env name r b st) = sent st @ ys \<and> bans_only name ys"
  by (simp add: WriteBanBy_def doBan_def write_fact_def bans_only_def)

lemma chat_step_ban: "chat_step name c (on_players (WriteBanBy env name r b) c)"
proof -
  obtain ys where "sent (WriteBanBy env name r b (co_players c)) = sent (co_players c) @ ys" "bans_only name ys"
    using bans_only_WriteBanBy by blast
  then show ?thesis by (intro chat_step_players) auto
qed

lemma chat_step_mark: "lookup_player (co_players c) k = Some p \<Longrightarrow> chat_step name c (on_players (set_player k (p\<lparr>p_already_banned := b\<rparr>)) c)"
  by (rule chat_step_players [where ys = "[]"]) (auto simp: known_level_def [of "co_players c"] bans_only_def)

lemma chat_step_punish: "chat_step name c (punish_spam env name c)"
proof -
  define c1 where "c1 = (if SpamScoreWarning < spam_score c name then say (GameWhisper name ''*** SPAMMING / FLOODING WARNING! ***'') c else c)"
  have 1: "chat_step name c c1" by (simp add: c1_def chat_step_say chat_effect_def)
  define c2 where "c2 = on_players (WriteBanBy env name ''Spamming/Flooding'' ''[Auto-Ban]'') c1"
  have 2: "chat_step name c c2" using 1 chat_step_ban chat_step_trans unfolding c2_def by blast
  define c3 where "c3 = (case lookup_player (co_players c2) name of
      Some p \<Rightarrow> if \<not> p_already_banned p then on_players (set_player name (p\<lparr>p_already_banned := True\<rparr>)) c2 else c2 | None \<Rightarrow> c2)"
  have 3: "chat_step name c c3"
    using 2 chat_step_mark [of c2 name _ name True] by (auto simp: c3_def split: option.splits intro: chat_step_trans)
  have "punish_spam env name c = (if SpamScoreLimit < spam_score c1 name then set_score name 0 c3 else c1)"
    unfolding punish_spam_def c1_def c2_def c3_def Let_def by (rule refl)
  then show ?thesis using 1 3 chat_step_score(1) chat_step_trans by (auto intro: chat_step_trans)
qed

lemma guard_chat_step:
  assumes "guard_chat env name input c = Ran (b, c')"
  shows "chat_step name c c'"
proof (cases "ce_spam_off env")
  case True
  then show ?thesis using assms by (simp add: guard_chat_def)
next
  case False
  then have unlocked: "\<not> co_chatter_locked c" using assms by (auto simp: guard_chat_def)
  define c0 where "c0 = (if co_no_response c < 5
    then c\<lparr>co_chatter_locked := True, co_players := snd (PlayerLevelGet (unix (ce_now env)) name True (co_players c))\<rparr>
    else c\<lparr>co_chatter_locked := True\<rparr>)"
  have 0: "chat_step name c c0"
    by (auto simp: c0_def chat_step_def console_frame_def bans_only_def PlayerLevelGet_True)
  let ?r = "punish_spam env name (rate_chat (ce_now env) name c0)"
  have 1: "chat_step name c ?r" by (rule chat_step_trans [OF 0 chat_step_trans [OF chat_step_rate chat_step_punish]])
  have 2: "chat_step name c (on_players (WriteBanBy env name ''Use of extreme slurs'' ''[Auto-Ban]'') ?r)"
    by (rule chat_step_trans [OF 1 chat_step_ban])
  have 3: "chat_step name c (?r\<lparr>co_chatter_locked := False\<rparr>)" "chat_step name c ((lower_score name c0)\<lparr>co_chatter_locked := False\<rparr>)"
    by (rule chat_step_trans [OF 1 chat_step_lock]) (rule chat_step_trans [OF chat_step_trans [OF 0 chat_step_lower] chat_step_lock])
  show ?thesis
    using assms False unlocked 2 3
    by (auto simp: guard_chat_def Let_def slurFilter_def c0_def split: prod.splits if_splits)
qed

lemma guard_chat_no_panic: "guard_chat env name input c \<noteq> Panicked"
  by (auto simp: guard_chat_def Let_def split: prod.splits)

lemma relay_chat_effect: "chat_effect (relay_chat env pname cmess st)"
  by (simp add: relay_chat_def Let_def chat_effect_def)

text \<open>The author of a chat line: the word after the tag without colons.\<close>

definition chat_author :: "string \<Rightarrow> string" where
  "chat_author msg = (case words_of msg of tag # name # ws \<Rightarrow> filter (\<lambda>ch. ch \<noteq> CHR '':'') name | _ \<Rightarrow> [])"

lemma handleChatMsg_step:
  assumes "handleChatMsg env input c = Ran (b, c')" "hd_no_datestamp_list input = words_of msg"
  shows "chat_step (chat_author msg) c c'"
proof (cases "\<exists>tag name ws. words_of msg = tag # name # ws \<and> is_chat_line input \<and> filter (\<lambda>ch. ch \<noteq> CHR '':'') name \<noteq> ''<server>''")
  case False
  then have "c' = c" using assms by (cases "words_of msg" rule: remdups_adj.cases) (auto simp: handleChatMsg_def split: if_splits)
  then show ?thesis by simp
next
  case True
  then obtain tag name ws where w: "words_of msg = tag # name # ws" "is_chat_line input"
    "filter (\<lambda>ch. ch \<noteq> CHR '':'') name \<noteq> ''<server>''" by blast
  define a where "a = filter (\<lambda>ch. ch \<noteq> CHR '':'') name"
  have author: "chat_author msg = a" by (simp add: chat_author_def w a_def)
  obtain b1 c1 where g: "guard_chat env a input c = Ran (b1, c1)"
    using assms w by (cases "guard_chat env a input c") (auto simp: handleChatMsg_def a_def Let_def)
  have 1: "chat_step a c c1" by (rule guard_chat_step [OF g])
  let ?c2 = "on_players (UpdateSeen (unix (ce_now env)) a) c1"
  have 2: "chat_step a c1 ?c2" by (rule chat_step_players [where ys = "[]"]) (simp_all add: UpdateSeen_quiet bans_only_def)
  have 3: "chat_step a c (say (relay_chat env a (clean_message env ws) (co_players ?c2)) ?c2)"
    by (rule chat_step_trans [OF chat_step_trans [OF 1 2] chat_step_say [OF relay_chat_effect]])
  show ?thesis
    unfolding author using assms w g 1 3
    by (auto simp: handleChatMsg_def a_def [symmetric] Let_def split: if_splits bool.splits)
qed

lemma handleIdiots_step: "handleIdiots input c = Ran (b, c') \<Longrightarrow> chat_step name c c'"
proof -
  assume h: "handleIdiots input c = Ran (b, c')"
  have "chat_step name c (LogGameCMS True ChatChannel leak_warning (c\<lparr>co_codes := m\<rparr>))" for m
    by (auto simp: chat_step_def LogGameCMS_def say_def Let_def console_frame_def bans_only_def chat_effect_def)
  then show "chat_step name c c'"
    using h by (auto simp: handleIdiots_def ProtectIdiots_def Let_def split: if_splits option.splits)
qed

lemma chat_handles_step:
  assumes "chat_handles env input c = Ran c'" "hd_no_datestamp_list input = words_of msg"
  shows "chat_step (chat_author msg) c c'"
proof -
  obtain b c1 where i: "handleIdiots input c = Ran (b, c1)"
    using assms(1) by (cases "handleIdiots input c") (auto simp: chat_handles_def)
  have 1: "chat_step (chat_author msg) c c1" by (rule handleIdiots_step [OF i])
  show ?thesis
  proof (cases b)
    case True
    then show ?thesis using assms(1) i 1 by (simp add: chat_handles_def)
  next
    case False
    then obtain b2 where m: "handleChatMsg (he_con env) input c1 = Ran (b2, c')"
      using assms(1) i by (auto simp: chat_handles_def run_state_def split: run.splits)
    show ?thesis by (rule chat_step_trans [OF 1 handleChatMsg_step [OF m assms(2)]])
  qed
qed

lemma chat_handles_no_panic: "chat_handles env input c \<noteq> Panicked"
  by (auto simp: chat_handles_def run_state_def handleIdiots_def ProtectIdiots_def handleChatMsg_def Let_def guard_chat_no_panic
      split: run.splits prod.splits bool.splits option.splits list.splits if_splits)

section \<open>The chat guard\<close>

lemma guard_fields [simp]:
  "co_spam (say e c) = co_spam c" "co_spam (on_players f c) = co_spam c" "co_chatter (say e c) = co_chatter c"
  "co_chatter (on_players f c) = co_chatter c" "co_chatter_locked (say e c) = co_chatter_locked c"
  "co_chatter_locked (on_players f c) = co_chatter_locked c" "co_no_response (say e c) = co_no_response c"
  "co_no_response (on_players f c) = co_no_response c" "co_players (say e c) = co_players c"
  "co_players (on_players f c) = f (co_players c)"
  by (simp_all add: say_def on_players_def)

lemma score_fields [simp]:
  "spam_score (say e c) n = spam_score c n" "spam_score (on_players f c) n = spam_score c n"
  "last_chat (say e c) n = last_chat c n" "last_chat (on_players f c) n = last_chat c n"
  "spam_score (set_score m k c) n = (if n = m then k else spam_score c n)" "last_chat (set_score m k c) n = last_chat c n"
  "spam_score (set_last_chat m t c) n = spam_score c n" "last_chat (set_last_chat m t c) n = (if n = m then t else last_chat c n)"
  by (simp_all add: spam_score_def last_chat_def set_score_def set_last_chat_def say_def on_players_def)

lemma guard_fields2 [simp]:
  "co_chatter_locked (set_score m k c) = co_chatter_locked c" "co_chatter_locked (set_last_chat m t c) = co_chatter_locked c"
  "co_no_response (set_score m k c) = co_no_response c" "co_no_response (set_last_chat m t c) = co_no_response c"
  "co_players (set_score m k c) = co_players c" "co_players (set_last_chat m t c) = co_players c"
  "co_chatter_locked (lower_score m c) = co_chatter_locked c" "co_no_response (lower_score m c) = co_no_response c"
  "co_players (lower_score m c) = co_players c"
  "spam_score (lower_score m c) n = (if n = m \<and> 0 < spam_score c m then spam_score c m - 1 else spam_score c n)"
  "last_chat (lower_score m c) n = last_chat c n"
  by (simp_all add: lower_score_def) (simp_all add: set_score_def set_last_chat_def)

lemma rate_fields [simp]:
  "co_chatter_locked (rate_chat t m c) = co_chatter_locked c" "co_no_response (rate_chat t m c) = co_no_response c"
  "co_players (rate_chat t m c) = co_players c"
  by (simp_all add: rate_chat_def Let_def)

lemma punish_locked [simp]:
  "co_chatter_locked (punish_spam env m c) = co_chatter_locked c" "co_no_response (punish_spam env m c) = co_no_response c"
  by (simp_all add: punish_spam_def Let_def split: option.splits)

definition guarded :: "console_env \<Rightarrow> handle_data \<Rightarrow> bool" where
  "guarded env input \<longleftrightarrow> is_chat_line input \<and> \<not> ce_spam_off env \<and>
     (case hd_no_datestamp_list input of tag # name # ws \<Rightarrow> filter (\<lambda>ch. ch \<noteq> CHR '':'') name \<noteq> ''<server>'' | _ \<Rightarrow> False)"

definition author_of :: "handle_data \<Rightarrow> string" where
  "author_of input = filter (\<lambda>ch. ch \<noteq> CHR '':'') (hd_no_datestamp_list input ! 1)"

text \<open>Whether the guard looks at the words of the line: the game answers and the author is no moderator.\<close>

definition watched :: "console_env \<Rightarrow> handle_data \<Rightarrow> console \<Rightarrow> bool" where
  "watched env input c \<longleftrightarrow> co_no_response c < 5 \<and> fst (PlayerLevelGet (unix (ce_now env)) (author_of input) True (co_players c)) \<noteq> 255"

lemma guard_chat_lock:
  assumes "guard_chat env name input c = Ran (b, c')" "\<not> co_chatter_locked c"
  shows "co_chatter_locked c' \<longleftrightarrow> \<not> ce_spam_off env \<and> co_no_response c < 5 \<and>
           fst (PlayerLevelGet (unix (ce_now env)) name True (co_players c)) \<noteq> 255 \<and> has_slur (ce_slurs env) (hd_lower_words input)"
  using assms by (auto simp: guard_chat_def slurFilter_def Let_def split: prod.splits if_splits)

lemma handleChatMsg_guarded:
  assumes "guarded env input"
  shows "handleChatMsg env input c =
     (case guard_chat env (author_of input) input c of
        Ran (True, c) \<Rightarrow> Ran (True, c)
      | Ran (False, c) \<Rightarrow>
          (let cmess = clean_message env (drop 2 (hd_no_datestamp_list input)) in
           if cmess = [] then Ran (True, c)
           else let c = on_players (UpdateSeen (unix (ce_now env)) (author_of input)) c
                in Ran (True, say (relay_chat env (author_of input) cmess (co_players c)) c))
      | r \<Rightarrow> r)"
proof -
  obtain tag name ws where l: "hd_no_datestamp_list input = tag # name # ws"
    using assms by (auto simp: guarded_def split: list.splits)
  have a: "author_of input = filter (\<lambda>ch. ch \<noteq> CHR '':'') name" "drop 2 (hd_no_datestamp_list input) = ws"
    by (simp_all add: author_of_def l)
  show ?thesis using assms unfolding a handleChatMsg_def Let_def by (simp add: guarded_def l)
qed

lemma handleChatMsg_unguarded_lock:
  assumes "\<not> guarded env input" "handleChatMsg env input c = Ran (b, c')"
  shows "co_chatter_locked c' = co_chatter_locked c"
  using assms by (auto simp: guarded_def handleChatMsg_def guard_chat_def Let_def split: list.splits if_splits)

section \<open>A sample\<close>

text \<open>A primary server with the settings of a test and one registration code.\<close>

definition sample_server :: server_env where
  "sample_server = \<lparr>factorio_up = True, opt_custom_whitelist = False, opt_regulars_only = False, opt_members_only = False,
     online_players = [], guild_roles = None, role_new = ''new'', role_member = ''member'', role_regular = ''regular'',
     role_veteran = ''veteran'', role_moderator = ''moderator''\<rparr>"

definition sample_ban_env :: ban_env where
  "sample_ban_env = \<lparr>bn_now = 0, bn_warn_only = False, bn_warn_regulars = False, bn_primary = True, bn_uni = \<lambda>r. True\<rparr>"

definition sample_con :: console_env where
  "sample_con = \<lparr>ce_now = 100 * second_ns, ce_date = ''01-02-2026'', ce_log_url = [], ce_uni = \<lambda>r. True, ce_slurs = [''badword''],
     ce_spam_off = False, ce_game_time = ''00'', ce_discord_name = \<lambda>i. [], ce_role_add = \<lambda>u r. True, ce_server = sample_server,
     ce_ban = sample_ban_env, ce_primary = ''a'', ce_callsign = ''a'', ce_name = ''n'', ce_group = ''g'', ce_chat_id = ''1'',
     ce_report_id = ''2'', ce_banish_role = [], ce_sus_role = []\<rparr>"

definition sample_env :: handler_env where
  "sample_env = \<lparr>he_con = sample_con, he_inflate = \<lambda>b. None, he_envelope = \<lambda>b. None, he_hello = \<lambda>d. None, he_status = \<lambda>d. None,
     he_online = \<lambda>d. None, he_players = \<lambda>d. None, he_preview = \<lambda>d. None, he_level = \<lambda>d. None, he_registration = \<lambda>d. None,
     he_text = \<lambda>d. None, he_running = True, he_booted = True, he_booted_at = 0, he_hide_research = False, he_hide_autosaves = False,
     he_shutup_sus = False, he_speed = ''1'', he_saves_folder = ''saves'', he_port = 10000, he_patreon = \<lambda>i. False,
     he_nitro = \<lambda>i. False, he_remove_ok = \<lambda>f. True, he_backup_ok = True\<rparr>"

definition sample_code :: pass_data where
  "sample_code = \<lparr>pd_code = ''one-two-three'', pd_disc = ''7'', pd_time = 0\<rparr>"

definition sample_console :: console where
  "sample_console = \<lparr>co_players = no_players, co_bans = [], co_no_response = 0, co_paused_ticks = 0, co_chatter_locked = False,
     co_chatter = [], co_spam = [], co_codes_locked = False, co_codes = [(''7'', sample_code)], co_softmod = Unknown,
     co_num_players = 0, co_online = [], co_paused_for_connect = False, co_paused_for = [], co_connect_attempt = False,
     co_connect_time = 0, co_connector = [], co_sus_warning = 0, co_crash_report = 0, co_version = [], co_map_name = [],
     co_map_path = [], co_last_save = [], co_last_backup = 0, co_tick_history = [], co_time_known = False, co_time_sample = 0,
     co_time_paused = False, co_out = []\<rparr>"

lemma sample_fields [simp]:
  "he_con sample_env = sample_con" "ce_spam_off sample_con = False" "ce_slurs sample_con = [''badword'']"
  "co_chatter_locked sample_console = False" "co_codes_locked sample_console = False" "co_no_response sample_console = 0"
  "co_players sample_console = no_players" "co_codes sample_console = [(''7'', sample_code)]" "co_chatter sample_console = []"
  "co_spam sample_console = []" "ce_primary sample_con = ''a''" "ce_callsign sample_con = ''a''" "co_out sample_console = []"
  "sent no_players = []"
  by (simp_all add: sample_env_def sample_con_def sample_console_def no_players_def)

lemma no_players_level [simp]: "known_level no_players n = 0"
  by (simp add: known_level_def lookup_player_def no_players_def)

lemma stamp_sample: "stamp ''2026-01-01''" "stamp ''12:00:00''"
  by (simp_all add: stamp_def)

lemma chat_handles_free:
  assumes "\<not> co_codes_locked c" "\<not> co_chatter_locked c"
  shows "chat_handles env input c \<noteq> Blocked"
proof -
  have *: "\<not> co_chatter_locked c1" if "handleIdiots input c = Ran (b, c1)" for b c1
    using that assms by (auto simp: handleIdiots_def ProtectIdiots_def LogGameCMS_def say_def Let_def split: if_splits option.splits)
  show ?thesis
    using assms *
    by (auto simp: chat_handles_def run_state_def handleIdiots_def ProtectIdiots_def handleChatMsg_def guard_chat_def Let_def
        split: run.splits prod.splits bool.splits option.splits list.splits if_splits)
qed

lemma HandleChat_free:
  assumes "stamp d" "stamp t" "has_prefix msg ''[CHAT]''" "UnicodeCleanup (ce_uni (he_con env)) line = log_line d t msg"
    and "\<not> co_codes_locked c" "\<not> co_chatter_locked c"
  shows "HandleChat env 0 0 line c \<noteq> Blocked"
proof -
  let ?in = "(preProcessFactorioOutput (log_line d t msg))\<lparr>hd_generation := 0\<rparr>"
  have "is_chat_line ?in" "\<not> has_prefix (hd_line ?in) ''<server>''"
    using log_line_parts [OF assms(1,2), of msg] assms(3) by (simp_all add: is_chat_line_def)
  moreover have "log_line d t msg \<noteq> []" using assms(1) by (simp add: log_line_def stamp_def)
  ultimately show ?thesis using assms(5,6) by (simp add: HandleChat_def assms(4) Let_def chat_handles_free)
qed

section \<open>Properties\<close>

text \<open>
  C11. A chat line is only chat: whatever a player writes, the line makes no handler of the game's events run.  It sends
  messages of the chat, changes no level and nothing of the game, the connections, the time or the lists, bans at most its
  own author, and never crashes the loop.
\<close>

theorem chat_line_is_only_chat:
  assumes "stamp d" "stamp t" "has_prefix msg ''[CHAT]'' \<or> has_prefix msg ''[SHOUT]''"
    and "UnicodeCleanup (ce_uni (he_con env)) line = log_line d t msg"
  shows "HandleChat env current generation line c \<noteq> Panicked \<and>
         (\<forall>c'. HandleChat env current generation line c = Ran c' \<longrightarrow> chat_step (chat_author msg) c c')"
proof (cases "generation \<noteq> 0 \<and> current \<noteq> generation")
  case True
  then show ?thesis by (simp add: HandleChat_def)
next
  case False
  let ?in = "(preProcessFactorioOutput (log_line d t msg))\<lparr>hd_generation := generation\<rparr>"
  define c0 where "c0 = (let c = c\<lparr>co_no_response := 0\<rparr> in if 0 < co_paused_ticks c then c\<lparr>co_paused_ticks := co_paused_ticks c - 1\<rparr> else c)"
  have 0: "chat_step (chat_author msg) c c0" by (auto simp: c0_def Let_def chat_step_def console_frame_def bans_only_def)
  have ne: "log_line d t msg \<noteq> []" using assms(1) by (simp add: log_line_def stamp_def)
  have p: "is_chat_line ?in" "hd_no_datestamp_list ?in = words_of msg" "\<not> has_prefix (hd_line ?in) ''<server>''"
    using log_line_parts [OF assms(1,2), of msg] assms(3) by (simp_all add: is_chat_line_def)
  have run: "HandleChat env current generation line c = chat_handles env ?in c0"
    using False p ne by (auto simp: HandleChat_def assms(4) c0_def Let_def)
  show ?thesis using chat_handles_step [OF _ p(2)] chat_handles_no_panic 0 unfolding run by (blast intro: chat_step_trans)
qed

theorem chat_line_is_only_chat_witness:
  "\<exists>c'. HandleChat sample_env 0 0 (log_line ''2026-01-01'' ''12:00:00'' ''[CHAT] bob: hi'') sample_console = Ran c' \<and>
        chat_step ''bob'' sample_console c'"
proof -
  let ?m = "''[CHAT] bob: hi''" and ?l = "log_line ''2026-01-01'' ''12:00:00'' ''[CHAT] bob: hi''"
  have m: "has_prefix ?m ''[CHAT]''" "chat_author ?m = ''bob''" by code_simp+
  have u: "UnicodeCleanup (ce_uni (he_con sample_env)) ?l = ?l"
    by (rule cleaned_UnicodeCleanup) (rule cleaned_of_ascii, auto simp: log_line_def)
  have "HandleChat sample_env 0 0 ?l sample_console \<noteq> Blocked" by (rule HandleChat_free [OF stamp_sample m(1) u]) simp_all
  then show ?thesis
    using chat_line_is_only_chat [OF stamp_sample disjI1 [OF m(1)] u, of 0 0 sample_console] m(2)
    by (cases "HandleChat sample_env 0 0 ?l sample_console") auto
qed

text \<open>
  C29. The mutex of the chat guard is left locked exactly by a slur of a watched player, and from then on every chat line that
  the guard looks at, of any player, waits for ever.
\<close>

theorem slur_blocks_the_chat:
  assumes "\<not> co_chatter_locked c" "handleChatMsg env input c = Ran (b, c')"
  shows "(co_chatter_locked c' \<longleftrightarrow> guarded env input \<and> watched env input c \<and> has_slur (ce_slurs env) (hd_lower_words input)) \<and>
         (co_chatter_locked c' \<longrightarrow> (\<forall>env2 input2. guarded env2 input2 \<longrightarrow> handleChatMsg env2 input2 c' = Blocked))"
proof
  show "co_chatter_locked c' \<longleftrightarrow> guarded env input \<and> watched env input c \<and> has_slur (ce_slurs env) (hd_lower_words input)"
  proof (cases "guarded env input")
    case False
    then show ?thesis using handleChatMsg_unguarded_lock [OF False assms(2)] assms(1) by simp
  next
    case True
    obtain b1 c1 where g: "guard_chat env (author_of input) input c = Ran (b1, c1)"
      using assms(2) by (cases "guard_chat env (author_of input) input c") (auto simp: handleChatMsg_guarded [OF True])
    have "co_chatter_locked c' = co_chatter_locked c1"
      using assms(2) g by (auto simp: handleChatMsg_guarded [OF True] Let_def split: bool.splits if_splits)
    moreover have "\<not> ce_spam_off env" using True by (simp add: guarded_def)
    ultimately show ?thesis using guard_chat_lock [OF g assms(1)] True by (auto simp: watched_def)
  qed
next
  show "co_chatter_locked c' \<longrightarrow> (\<forall>env2 input2. guarded env2 input2 \<longrightarrow> handleChatMsg env2 input2 c' = Blocked)"
    by (auto simp: handleChatMsg_guarded) (auto simp: guarded_def guard_chat_def)
qed

theorem slur_blocks_the_chat_witness:
  "\<exists>b c'. handleChatMsg sample_con (preProcessFactorioOutput ''2026-01-01 12:00:00 [CHAT] bob: badword'') sample_console = Ran (b, c') \<and>
          handleChatMsg sample_con (preProcessFactorioOutput ''2026-01-01 12:00:01 [CHAT] amy: hi'') c' = Blocked"
proof -
  let ?a = "preProcessFactorioOutput ''2026-01-01 12:00:00 [CHAT] bob: badword''"
  let ?b = "preProcessFactorioOutput ''2026-01-01 12:00:01 [CHAT] amy: hi''"
  have g: "guarded sample_con ?a" "guarded sample_con ?b" "watched sample_con ?a sample_console"
    "has_slur (ce_slurs sample_con) (hd_lower_words ?a)" by code_simp+
  obtain b c' where run: "handleChatMsg sample_con ?a sample_console = Ran (b, c')"
  proof (cases "handleChatMsg sample_con ?a sample_console")
    case (Ran x)
    then show ?thesis using that by (cases x) auto
  next
    case Blocked
    then show ?thesis
      by (auto simp: handleChatMsg_def guard_chat_def Let_def split: list.splits if_splits prod.splits run.splits bool.splits)
  next
    case Panicked
    then show ?thesis
      by (auto simp: handleChatMsg_def guard_chat_no_panic Let_def split: list.splits if_splits prod.splits run.splits bool.splits)
  qed
  show ?thesis using slur_blocks_the_chat [OF _ run] g run by auto
qed

section \<open>Spam\<close>

text \<open>Chat lines by their time and author.\<close>

fun guard_all :: "console_env \<Rightarrow> handle_data \<Rightarrow> (gotime \<times> string) list \<Rightarrow> console \<Rightarrow> console run" where
  "guard_all env input [] c = Ran c"
| "guard_all env input ((t, name) # rest) c =
     (case guard_chat (env\<lparr>ce_now := t\<rparr>) name input c of
        Ran (_, c) \<Rightarrow> guard_all env input rest c | Blocked \<Rightarrow> Blocked | Panicked \<Rightarrow> Panicked)"

text \<open>The guard can be entered and no line holds a slur (\<open>slur_blocks_the_chat\<close> is about those).\<close>

definition guard_open :: "console_env \<Rightarrow> handle_data \<Rightarrow> console \<Rightarrow> bool" where
  "guard_open env input c \<longleftrightarrow> \<not> co_chatter_locked c \<and> \<not> has_slur (ce_slurs env) (hd_lower_words input)"

text \<open>The guard rates the message: it is not switched off, the game answers and the author is no moderator.\<close>

definition rated :: "console_env \<Rightarrow> gotime \<Rightarrow> string \<Rightarrow> console \<Rightarrow> bool" where
  "rated env t name c \<longleftrightarrow> \<not> ce_spam_off env \<and> co_no_response c < 5 \<and> fst (PlayerLevelGet (unix t) name True (co_players c)) \<noteq> 255"

text \<open>What the game is sent to ban a spammer.\<close>

definition spam_ban :: "console_env \<Rightarrow> string \<Rightarrow> fact_out list" where
  "spam_ban env name = [Command (''/ban '' @ name @ '' Spamming/Flooding -- [Auto-Ban] '' @ ce_date env @ '' '' @ ce_log_url env),
     Command (''/purge '' @ name)]"


lemma known_level_on_ban: "known_level (co_players (punish_spam env m c)) n = known_level (co_players c) n"
  using chat_step_punish [of m c env] by (simp add: chat_step_def)

lemma no_response_guard [simp]:
  "co_no_response (punish_spam env m c) = co_no_response c" "co_no_response (rate_chat t m c) = co_no_response c"
  "co_no_response (lower_score m c) = co_no_response c"
  by (simp_all add: punish_spam_def rate_chat_def lower_score_def set_score_def set_last_chat_def on_players_def say_def Let_def
      split: option.splits)

lemma rate_chat_other: "n \<noteq> m \<Longrightarrow> spam_score (rate_chat t m c) n = spam_score c n"
  "n \<noteq> m \<Longrightarrow> last_chat (rate_chat t m c) n = last_chat c n"
  by (simp_all add: rate_chat_def lower_score_def Let_def)

text \<open>One guarded message: what becomes of the times and scores, and the ban.\<close>

lemma guard_chat_open:
  assumes "guard_open env input c"
  obtains c' where "guard_chat (env\<lparr>ce_now := t\<rparr>) m input c = Ran (False, c')" "guard_open env input c'"
    "co_no_response c' = co_no_response c" "\<And>n. known_level (co_players c') n = known_level (co_players c) n"
    "\<And>n. n \<noteq> m \<Longrightarrow> spam_score c' n = spam_score c n" "\<And>n. n \<noteq> m \<Longrightarrow> last_chat c' n = last_chat c n"
    "rated env t m c \<Longrightarrow> last_chat c' m = last_chat (rate_chat t m c) m"
    "rated env t m c \<Longrightarrow> spam_score c' m = (if SpamScoreLimit < spam_score (rate_chat t m c) m then 0 else spam_score (rate_chat t m c) m)"
    "\<not> rated env t m c \<Longrightarrow> last_chat c' m = last_chat c m \<and> spam_score c' m \<le> spam_score c m"
    "sent (co_players c') = sent (co_players c) @
       (if rated env t m c \<and> SpamScoreLimit < spam_score (rate_chat t m c) m then spam_ban env m else [])"
proof -
  let ?env = "env\<lparr>ce_now := t\<rparr>"
  define c0 where "c0 = c\<lparr>co_chatter_locked := True, co_players := (if co_no_response c < 5 then snd (PlayerLevelGet (unix t) m True (co_players c)) else co_players c)\<rparr>"
  define c' where "c' = (if ce_spam_off env then c else
     (if rated env t m c then punish_spam ?env m (rate_chat t m c0) else lower_score m c0)\<lparr>co_chatter_locked := False\<rparr>)"
  have run: "guard_chat ?env m input c = Ran (False, c')"
    using assms by (auto simp: guard_open_def rated_def guard_chat_def slurFilter_def c'_def c0_def Let_def split: prod.splits)
  have f: "spam_score c0 n = spam_score c n" "last_chat c0 n = last_chat c n" "co_no_response c0 = co_no_response c"
    "known_level (co_players c0) n = known_level (co_players c) n" "sent (co_players c0) = sent (co_players c)" for n
    by (simp_all add: c0_def spam_score_def last_chat_def PlayerLevelGet_True)
  have r: "spam_score (rate_chat t m c0) n = spam_score (rate_chat t m c) n"
          "last_chat (rate_chat t m c0) n = last_chat (rate_chat t m c) n" for n
    by (simp_all add: rate_chat_def lower_score_def f Let_def)
  have unl: "last_chat (x\<lparr>co_chatter_locked := b\<rparr>) n = last_chat x n" "spam_score (x\<lparr>co_chatter_locked := b\<rparr>) n = spam_score x n" for x b n
    by (simp_all add: last_chat_def spam_score_def)
  have p: "last_chat (punish_spam ?env m x) n = last_chat x n"
          "spam_score (punish_spam ?env m x) n = (if n = m \<and> SpamScoreLimit < spam_score x m then 0 else spam_score x n)" for x n
    by (simp_all add: punish_spam_def Let_def split: option.splits)
  have players: "co_players (rate_chat t m c0) = co_players c0" "co_players (lower_score m c0) = co_players c0" by simp_all
  have low: "last_chat (lower_score m c0) n = last_chat c n" "n \<noteq> m \<Longrightarrow> spam_score (lower_score m c0) n = spam_score c n"
    "spam_score (lower_score m c0) m \<le> spam_score c m" for n
    by (simp_all add: lower_score_def f)
  have s: "sent (co_players (punish_spam ?env m (rate_chat t m c0))) = sent (co_players c) @
      (if SpamScoreLimit < spam_score (rate_chat t m c) m then spam_ban env m else [])"
    by (auto simp: punish_spam_def r players f WriteBanBy_def doBan_def write_fact_def spam_ban_def Let_def split: option.splits)
  have lev: "known_level (co_players c') n = known_level (co_players c) n" for n
    by (simp add: c'_def known_level_on_ban players f)
  have open': "guard_open env input c'" using assms by (simp add: guard_open_def c'_def)
  have off: "\<not> rated env t m c" if "ce_spam_off env" using that by (simp add: rated_def)
  show thesis
    by (rule that [OF run open' _ lev]) (use off s in \<open>auto simp: c'_def unl p r f low players rate_chat_other\<close>)
qed

text \<open>
  A trace of messages of any authors, in which \<open>name\<close> waits at least two seconds after each of his own;
  \<open>last_one\<close> is the time of the last of them.
\<close>

fun waits :: "string \<Rightarrow> gotime \<Rightarrow> (gotime \<times> string) list \<Rightarrow> bool" where
  "waits name last_one [] = True"
| "waits name last_one ((t, m) # rest) =
     (if m = name then last_one + SpamSlowThres \<le> t \<and> waits name t rest else waits name last_one rest)"

lemma rate_chat_waited:
  assumes "last_chat c name \<le> last_one" "spam_score c name \<le> SpamScoreLimit" "last_one + SpamSlowThres \<le> t"
  shows "last_chat (rate_chat t name c) name \<le> t \<and> spam_score (rate_chat t name c) name \<le> SpamScoreLimit"
proof -
  have "\<not> t - last_chat c name < SpamSlowThres" "\<not> t - last_chat c name < SpamFastThres" "last_chat c name \<le> t"
    using assms(1,3) by (auto simp: SpamSlowThres_def SpamFastThres_def)
  with assms(2) show ?thesis
    by (auto simp: rate_chat_def lower_score_def SpamSlowThres_def SpamScoreLimit_def Let_def)
qed

text \<open>
  C20.  Patience is safe: whatever the other players do, however they flood and however long they chat, a player who leaves
  two seconds between his messages is never banned by the spam guard: every command that goes to the game is part of the ban
  of another author.  (He starts within the limit, and no line holds a slur.)
\<close>

theorem slow_chatters_are_never_banned:
  assumes "guard_open env input c" "last_chat c name \<le> last_one" "spam_score c name \<le> SpamScoreLimit" "waits name last_one trace"
  shows "\<exists>c' banned. guard_all env input trace c = Ran c' \<and> set banned \<subseteq> snd ` set trace - {name} \<and>
    sent (co_players c') = sent (co_players c) @ concat (map (spam_ban env) banned)"
  using assms
proof (induction trace arbitrary: c last_one)
  case (Cons x trace)
  obtain t m where x: "x = (t, m)" by (cases x)
  obtain c1 where g: "guard_chat (env\<lparr>ce_now := t\<rparr>) m input c = Ran (False, c1)" "guard_open env input c1"
    "\<And>n. n \<noteq> m \<Longrightarrow> spam_score c1 n = spam_score c n" "\<And>n. n \<noteq> m \<Longrightarrow> last_chat c1 n = last_chat c n"
    "rated env t m c \<Longrightarrow> last_chat c1 m = last_chat (rate_chat t m c) m"
    "rated env t m c \<Longrightarrow> spam_score c1 m = (if SpamScoreLimit < spam_score (rate_chat t m c) m then 0 else spam_score (rate_chat t m c) m)"
    "\<not> rated env t m c \<Longrightarrow> last_chat c1 m = last_chat c m \<and> spam_score c1 m \<le> spam_score c m"
    "sent (co_players c1) = sent (co_players c) @
       (if rated env t m c \<and> SpamScoreLimit < spam_score (rate_chat t m c) m then spam_ban env m else [])"
    by (rule guard_chat_open [OF Cons.prems(1), of t m]) (rule that; assumption)
  let ?next = "if m = name then t else last_one"
  have here: "last_chat c1 name \<le> ?next \<and> spam_score c1 name \<le> SpamScoreLimit \<and>
      \<not> (m = name \<and> rated env t m c \<and> SpamScoreLimit < spam_score (rate_chat t m c) m)"
  proof (cases "m = name")
    case True
    have w: "last_one + SpamSlowThres \<le> t" using Cons.prems(4) x True by simp
    then have late: "last_one \<le> t" by (simp add: SpamSlowThres_def)
    from rate_chat_waited [OF Cons.prems(2,3) w] g(5-7) True late Cons.prems(2,3) show ?thesis
      by (cases "rated env t m c") auto
  next
    case False
    with g(3,4) Cons.prems(2,3) show ?thesis by simp
  qed
  have "waits name ?next trace" using Cons.prems(4) x by (auto split: if_splits)
  from Cons.IH [OF g(2) _ _ this] here obtain c' banned where rest: "guard_all env input trace c1 = Ran c'"
    "set banned \<subseteq> snd ` set trace - {name}" "sent (co_players c') = sent (co_players c1) @ concat (map (spam_ban env) banned)"
    by blast
  show ?case
  proof (cases "rated env t m c \<and> SpamScoreLimit < spam_score (rate_chat t m c) m")
    case True
    then have "m \<noteq> name" using here by auto
    with True rest g(1,8) show ?thesis by (intro exI [of _ c'] exI [of _ "m # banned"]) (auto simp: x)
  next
    case False
    with rest g(1,8) show ?thesis by (intro exI [of _ c'] exI [of _ banned]) (auto simp: x)
  qed
qed auto

lemma sample_open: "guard_open sample_con (preProcessFactorioOutput ''hi'') sample_console"
proof -
  have "\<not> has_slur (ce_slurs sample_con) (hd_lower_words (preProcessFactorioOutput ''hi''))" by code_simp
  then show ?thesis by (simp add: guard_open_def)
qed

theorem slow_chatters_are_never_banned_witness:
  "\<exists>c' banned. guard_all sample_con (preProcessFactorioOutput ''hi'')
        ((10 * second_ns, ''bob'') # replicate 40 (11 * second_ns, ''amy'') @ [(12 * second_ns, ''bob''), (14 * second_ns, ''bob'')]) sample_console = Ran c' \<and>
      set banned \<subseteq> {''amy''} \<and> sent (co_players c') = concat (map (spam_ban sample_con) banned)"
proof -
  let ?trace = "(10 * second_ns, ''bob'') # replicate 40 (11 * second_ns, ''amy'') @ [(12 * second_ns, ''bob''), (14 * second_ns, ''bob'')]"
  have s: "last_chat sample_console ''bob'' \<le> 0" "spam_score sample_console ''bob'' \<le> SpamScoreLimit"
    by (simp_all add: last_chat_def spam_score_def SpamScoreLimit_def)
  have "waits ''bob'' u (replicate k (v, ''amy'') @ rest) = waits ''bob'' u rest" for u k v rest
    by (induction k) simp_all
  then have t: "waits ''bob'' 0 ?trace" by (simp add: SpamSlowThres_def)
  show ?thesis using slow_chatters_are_never_banned [OF sample_open s t] by fastforce
qed










end
