(* ===== verification/Console_Event_Properties.thy ===== *)
theory Console_Event_Properties
  imports Console_Properties
begin

text \<open>
  Registration codes are used once and a leaked one is hidden; how the lines of the game are read wrongly: the time can be
  set by the name of a player who joins, and two error lines of an unexpected length stop the loop.
\<close>

section \<open>Codes\<close>

lemma in_gm_del: "(i, p) \<in> set (gm_del m k) \<longleftrightarrow> (i, p) \<in> set m \<and> i \<noteq> k"
  by (auto simp: gm_del_def AList.delete_eq)

lemma codes_say [simp]:
  "co_codes (say e c) = co_codes c" "co_codes (on_players f c) = co_codes c" "co_codes_locked (say e c) = co_codes_locked c"
  "co_codes_locked (on_players f c) = co_codes_locked c"
  by (simp_all add: say_def on_players_def)

lemma codes_whisper [simp]:
  "co_codes (whisper n t c) = co_codes c" "co_codes_locked (whisper n t c) = co_codes_locked c" "co_players (whisper n t c) = co_players c"
  by (simp_all add: whisper_def)

lemma codes_grant [simp]:
  "co_codes (grant_registration env n p r l c) = co_codes c" "co_codes_locked (grant_registration env n p r l c) = co_codes_locked c"
  by (simp_all add: grant_registration_def LogGameCMS_def Let_def split: option.splits)

lemma known_level_sent [simp]: "known_level (st\<lparr>sent := x\<rparr>) n = known_level st n"
  by (simp add: known_level_def lookup_player_def)

lemma known_level_commands [simp]:
  "known_level (syncPlayerAdminAccess env a l1 l2 st) n = known_level st n" "known_level (WhitelistPlayer env a l1 st) n = known_level st n"
  by (simp_all add: syncPlayerAdminAccess_def WhitelistPlayer_def write_fact_def Let_def)

lemma known_level_SetID:
  "to_lower n \<noteq> to_lower pname \<Longrightarrow> known_level (snd (PlayerSetID env now pname i level st)) n = known_level st n"
  "known_level (snd (PlayerSetID env now pname i level st)) pname \<in> {known_level st pname, level}"
  by (auto simp: PlayerSetID_def Let_def known_level_def [of st] split: option.splits)

lemma grant_players:
  "\<exists>x. co_players (grant_registration env pname p r l c) =
     (snd (PlayerSetID (ce_server env) (unix (ce_now env)) pname p l (co_players c)))\<lparr>sent := x\<rparr>"
proof -
  have same: "\<exists>x. st = st\<lparr>sent := x\<rparr>" for st :: player_state by (rule exI [of _ "sent st"]) simp
  show ?thesis
    by (auto simp: grant_registration_def LogGameCMS_def Let_def intro: same split: option.splits)
qed

lemma grant_levels:
  "to_lower n \<noteq> to_lower pname \<Longrightarrow> known_level (co_players (grant_registration env pname p r l c)) n = known_level (co_players c) n"
  "known_level (co_players (grant_registration env pname p r l c)) pname \<in> {known_level (co_players c) pname, l}"
  using grant_players [of env pname p r l c] known_level_SetID [where pname = pname and st = "co_players c"] by fastforce+

text \<open>What a used code may change: the code is gone, nobody but the registered player gets a level, and that is the one asked for.\<close>

definition code_used :: "string \<Rightarrow> int64 \<Rightarrow> string \<Rightarrow> console \<Rightarrow> console \<Rightarrow> bool" where
  "code_used pname level i c c1 \<longleftrightarrow> co_codes c1 = gm_del (co_codes c) i \<and> co_codes_locked c1 = co_codes_locked c \<and>
     (\<forall>n. to_lower n \<noteq> to_lower pname \<longrightarrow> known_level (co_players c1) n = known_level (co_players c) n) \<and>
     known_level (co_players c1) pname \<in> {known_level (co_players c) pname, level}"

lemma code_used_say: "code_used pname level i c (whisper pname t (say e (c\<lparr>co_codes := gm_del (co_codes c) i\<rparr>)))"
  by (simp add: code_used_def)

lemma code_used_grant:
  "co_players x = co_players c \<Longrightarrow> co_codes x = gm_del (co_codes c) i \<Longrightarrow> co_codes_locked x = co_codes_locked c
   \<Longrightarrow> code_used pname level i c (grant_registration env pname p r level x)"
  using grant_levels [where env = env and pname = pname and p = p and r = r and l = level and c = x] by (auto simp: code_used_def)

lemma register_step:
  assumes "equal_fold (ce_primary env) (ce_callsign env)" "code_matches code p"
  shows "\<exists>good1 c1. register_loop env ptype pname code ((i, p) # es) good found c = register_loop env ptype pname code es good1 True c1 \<and>
           code_used pname (snd (register_level (ce_server env) ptype)) i c c1"
proof -
  obtain role level where rl: "register_level (ce_server env) ptype = (role, level)" by (cases "register_level (ce_server env) ptype")
  let ?c = "c\<lparr>co_codes := gm_del (co_codes c) i\<rparr>"
  let ?d = "GetDiscordIDFromFactorioName pname (co_players c)" and ?f = "GetFactorioNameFromDiscordID (pd_disc p) (co_players c)"
  note step = register_loop.simps(2) [of env ptype pname code i p es good found c]
  consider (same) "equal_fold ?d (pd_disc p) \<and> equal_fold ?f pname"
    | (taken) "\<not> (equal_fold ?d (pd_disc p) \<and> equal_fold ?f pname)" "?d \<noteq> [] \<and> ?d \<noteq> ''0'' \<or> ?f \<noteq> []"
    | (free) "\<not> (equal_fold ?d (pd_disc p) \<and> equal_fold ?f pname)" "\<not> (?d \<noteq> [] \<and> ?d \<noteq> ''0'' \<or> ?f \<noteq> [])"
    by blast
  then show ?thesis
  proof cases
    case same
    then show ?thesis
      unfolding step using assms by (auto simp: rl Let_def intro!: exI code_used_grant)
  next
    case taken
    then show ?thesis
      unfolding step using assms by (auto simp: rl Let_def intro: exI code_used_say)
  next
    case free
    have "code_used pname level i c ?c" "code_used pname level i c (grant_registration env pname (pd_disc p) role level ?c)"
      by (simp add: code_used_def) (simp add: code_used_grant)
    then show ?thesis
      unfolding step using assms free by (cases good) (auto simp: rl Let_def intro!: exI)
  qed
qed

text \<open>The whole loop on the primary server.\<close>

lemma register_loop_result:
  assumes "equal_fold (ce_primary env) (ce_callsign env)" "register_loop env ptype pname code es good found c = (r, c')"
  shows "r = Some (found \<or> (\<exists>(i, p) \<in> set es. code_matches code p)) \<and> co_codes_locked c' = co_codes_locked c \<and>
     (\<forall>i p. (i, p) \<in> set (co_codes c') \<longleftrightarrow> (i, p) \<in> set (co_codes c) \<and> (\<forall>(j, q) \<in> set es. code_matches code q \<longrightarrow> i \<noteq> j)) \<and>
     (\<forall>n. to_lower n \<noteq> to_lower pname \<longrightarrow> known_level (co_players c') n = known_level (co_players c) n) \<and>
     known_level (co_players c') pname \<in> {known_level (co_players c) pname, snd (register_level (ce_server env) ptype)} \<and>
     ((\<forall>(i, p) \<in> set es. \<not> code_matches code p) \<longrightarrow> co_players c' = co_players c)"
  using assms
proof (induction es arbitrary: good found c)
  case (Cons e es)
  obtain i p where e: "e = (i, p)" by (cases e)
  show ?case
  proof (cases "code_matches code p")
    case False
    then show ?thesis using Cons.IH [OF Cons.prems(1), of good found c] Cons.prems(2) e by auto
  next
    case True
    obtain good1 c1 where step: "register_loop env ptype pname code (e # es) good found c = register_loop env ptype pname code es good1 True c1"
      and used: "code_used pname (snd (register_level (ce_server env) ptype)) i c c1"
      using register_step [OF Cons.prems(1) True, of ptype pname i es good found c] unfolding e by blast
    have rest: "register_loop env ptype pname code es good1 True c1 = (r, c')" using Cons.prems(2) step by simp
    show ?thesis
      using Cons.IH [OF Cons.prems(1) rest] used True by (auto simp: e in_gm_del code_used_def)
  qed
qed auto

lemma gm_ok_same: "gm_ok m \<Longrightarrow> (i, p) \<in> set m \<Longrightarrow> (i, q) \<in> set m \<Longrightarrow> p = q"
  by (auto simp: gm_ok_def gm_keys_def dest: eq_key_imp_eq_value)

text \<open>
  C18. A registration code works once: after a registration on the primary server no code matches the one that was entered,
  every other code is still there, nobody but the named player changed his level, and he can only have got the level the game
  asked for; a code that matches none changes no player.
\<close>

theorem registration_code_works_once:
  assumes "equal_fold (ce_primary env) (ce_callsign env)" "\<not> co_codes_locked c" "gm_ok (co_codes c)"
    and "has_prefix (hd_line input) ''[ACCESS]''" "hd_words input = tag # ptype # pname # code0 # codes"
    and "handlePlayerRegister env input c = Ran (b, c')" "code = AlphaOnly (concat (code0 # codes))"
  shows "\<not> co_codes_locked c' \<and>
     set (co_codes c') = {(i, p). (i, p) \<in> set (co_codes c) \<and> \<not> code_matches code p} \<and>
     (\<forall>n. to_lower n \<noteq> to_lower pname \<longrightarrow> known_level (co_players c') n = known_level (co_players c) n) \<and>
     known_level (co_players c') pname \<in> {known_level (co_players c) pname, snd (register_level (ce_server env) ptype)} \<and>
     ((\<forall>(i, p) \<in> set (co_codes c). \<not> code_matches code p) \<longrightarrow> co_players c' = co_players c)"
proof -
  obtain r c1 where loop: "register_loop env ptype pname code (co_codes c) True False c = (r, c1)"
    by (cases "register_loop env ptype pname code (co_codes c) True False c")
  note res = register_loop_result [OF assms(1) loop]
  have c': "c' = c1 \<or> c' = whisper pname ''Sorry, that code is invalid or expired.'' c1"
    using assms(2,4-7) loop res by (auto simp: handlePlayerRegister_def Let_def split: if_splits)
  have keys: "(i, p) \<in> set (co_codes c) \<Longrightarrow>
      (\<forall>(j, q) \<in> set (co_codes c). code_matches code q \<longrightarrow> i \<noteq> j) \<longleftrightarrow> \<not> code_matches code p" for i p
    using gm_ok_same [OF assms(3)] by blast
  have "set (co_codes c') = {(i, p). (i, p) \<in> set (co_codes c) \<and> \<not> code_matches code p}"
  proof (intro set_eqI, safe)
    fix i p
    assume "(i, p) \<in> set (co_codes c')"
    then have *: "(i, p) \<in> set (co_codes c) \<and> (\<forall>(j, q) \<in> set (co_codes c). code_matches code q \<longrightarrow> i \<noteq> j)" using res c' by auto
    then show "(i, p) \<in> set (co_codes c)" by blast
    assume "code_matches code p"
    then show False using * keys by blast
  next
    fix i p
    assume "(i, p) \<in> set (co_codes c)" "\<not> code_matches code p"
    then show "(i, p) \<in> set (co_codes c')" using res c' keys by auto
  qed
  moreover have "\<not> co_codes_locked c'" using res c' assms(2) by auto
  moreover have "co_players c' = co_players c1" using c' by auto
  ultimately show ?thesis using res by simp
qed

lemma register_free:
  assumes "equal_fold (ce_primary env) (ce_callsign env)" "\<not> co_codes_locked c"
  shows "\<exists>b c'. handlePlayerRegister env input c = Ran (b, c')"
proof -
  have found: "\<exists>f c1. register_loop env ptype pname code es good found c = (Some f, c1)" for ptype pname code es good found
    using register_loop_result [OF assms(1), of ptype pname code es good found c] by (cases "register_loop env ptype pname code es good found c") auto
  show ?thesis
  proof (cases "has_prefix (hd_line input) ''[ACCESS]'' \<and> (\<exists>tag ptype pname code0 codes. hd_words input = tag # ptype # pname # code0 # codes)")
    case True
    then obtain tag ptype pname code0 codes where w: "has_prefix (hd_line input) ''[ACCESS]''" "hd_words input = tag # ptype # pname # code0 # codes"
      by blast
    obtain f c1 where "register_loop env ptype pname (AlphaOnly (concat (code0 # codes))) (co_codes c) True False c = (Some f, c1)"
      using found by blast
    then show ?thesis using w assms(2) by (auto simp: handlePlayerRegister_def Let_def)
  next
    case False
    then have "handlePlayerRegister env input c \<in> {Ran (False, c), Ran (True, c)}"
      by (auto simp: handlePlayerRegister_def split: list.split)
    then show ?thesis by auto
  qed
qed

theorem registration_code_works_once_witness:
  "\<exists>b c'. handlePlayerRegister sample_con (preProcessFactorioOutput ''[ACCESS] member bob one-two-three'') sample_console = Ran (b, c') \<and>
          co_codes c' = [] \<and> known_level (co_players c') ''amy'' = 0"
proof -
  let ?i = "preProcessFactorioOutput ''[ACCESS] member bob one-two-three''"
  have i: "has_prefix (hd_line ?i) ''[ACCESS]''" "hd_words ?i = ''[ACCESS]'' # ''member'' # ''bob'' # ''one-two-three'' # []"
    by code_simp+
  have e: "equal_fold (ce_primary sample_con) (ce_callsign sample_con)" by (simp add: equal_fold_def)
  have ok: "\<not> co_codes_locked sample_console" "gm_ok (co_codes sample_console)" by (simp_all add: gm_ok_def gm_keys_def)
  define code where "code = AlphaOnly (concat (''one-two-three'' # []))"
  have m: "code_matches code sample_code" unfolding code_def by code_simp
  have fold: "to_lower ''amy'' \<noteq> to_lower ''bob''" by code_simp
  obtain b c' where run: "handlePlayerRegister sample_con ?i sample_console = Ran (b, c')"
    using register_free [OF e ok(1), of ?i] by blast
  note used = registration_code_works_once [OF e ok i run code_def]
  have "set (co_codes c') = {}" using used m by auto
  moreover have "known_level (co_players c') ''amy'' = 0" using used fold by simp
  ultimately have "co_codes c' = [] \<and> known_level (co_players c') ''amy'' = 0" by simp
  then show ?thesis using run by blast
qed

text \<open>On any other server a matching code ends the handler inside the loop, with the mutex of the codes locked.\<close>

lemma wrong_server_leaves_codes_locked:
  assumes "\<not> equal_fold (ce_primary env) (ce_callsign env)" "\<not> co_codes_locked c" "has_prefix (hd_line input) ''[ACCESS]''"
    and "hd_words input = tag # ptype # pname # code0 # codes" "co_codes c = (i, p) # rest" "code_matches (AlphaOnly (concat (code0 # codes))) p"
  shows "\<exists>c'. handlePlayerRegister env input c = Ran (True, c') \<and> co_codes_locked c'"
  using assms by (auto simp: handlePlayerRegister_def Let_def split: prod.splits)

lemma find_SomeD: "find P xs = Some x \<Longrightarrow> x \<in> set xs \<and> P x"
  by (induction xs) (auto split: if_splits)

text \<open>
  When a line shows a code, said without the code's own test: between the letters of the line there is, whatever its case, the
  code's letters, or, for a code of more than three letters, all but the last two or all but the first two of them.
\<close>

definition shows_code :: "string \<Rightarrow> string \<Rightarrow> bool" where
  "shows_code line code \<longleftrightarrow>
     (\<exists>before part after piece. filter is_alpha line = before @ part @ after \<and> equal_fold part piece \<and>
        (piece = filter is_alpha code \<or>
         3 < length (filter is_alpha code) \<and>
           ((\<exists>x y. filter is_alpha code = piece @ [x, y]) \<or> (\<exists>x y. filter is_alpha code = x # y # piece))))"

lemma has_prefix_lower: "has_prefix (to_lower s) (to_lower p) \<longleftrightarrow> (\<exists>part after. s = part @ after \<and> equal_fold part p)"
proof
  assume "has_prefix (to_lower s) (to_lower p)"
  then have "take (length p) (to_lower s) = to_lower p" by (simp add: has_prefix_def)
  then have "s = take (length p) s @ drop (length p) s \<and> equal_fold (take (length p) s) p"
    by (simp add: equal_fold_def to_lower_def take_map)
  then show "\<exists>part after. s = part @ after \<and> equal_fold part p" by blast
next
  assume "\<exists>part after. s = part @ after \<and> equal_fold part p"
  then obtain part after where s: "s = part @ after" "to_lower part = to_lower p" by (auto simp: equal_fold_def)
  then have "length part = length p" by (metis length_to_lower)
  with s show "has_prefix (to_lower s) (to_lower p)" by (simp add: has_prefix_def to_lower_def)
qed

lemma infix_Cons:
  "(\<exists>before part after. a # s = before @ part @ after \<and> Q part) \<longleftrightarrow>
     (\<exists>part after. a # s = part @ after \<and> Q part) \<or> (\<exists>before part after. s = before @ part @ after \<and> Q part)"
  (is "?all \<longleftrightarrow> ?first \<or> ?rest")
proof
  assume ?all
  then obtain before part after where s: "a # s = before @ part @ after" "Q part" by blast
  then show "?first \<or> ?rest" by (cases before) auto
next
  assume "?first \<or> ?rest"
  then show ?all
  proof
    assume ?first
    then obtain part after where s: "a # s = part @ after" "Q part" by blast
    then have "a # s = [] @ part @ after \<and> Q part" by simp
    then show ?all by blast
  next
    assume ?rest
    then obtain before part after where s: "s = before @ part @ after" "Q part" by blast
    then have "a # s = (a # before) @ part @ after \<and> Q part" by simp
    then show ?all by blast
  qed
qed

lemma contains_lower:
  "contains_str (to_lower s) (to_lower p) \<longleftrightarrow> (\<exists>before part after. s = before @ part @ after \<and> equal_fold part p)"
proof (induction s)
  case Nil
  then show ?case by (auto simp: to_lower_def equal_fold_def)
next
  case (Cons a s)
  have "contains_str (to_lower (a # s)) (to_lower p) \<longleftrightarrow>
      has_prefix (to_lower (a # s)) (to_lower p) \<or> contains_str (to_lower s) (to_lower p)"
    by (simp add: to_lower_def)
  also have "\<dots> \<longleftrightarrow> (\<exists>before part after. a # s = before @ part @ after \<and> equal_fold part p)"
    unfolding has_prefix_lower Cons.IH by (rule infix_Cons [symmetric])
  finally show ?case .
qed

lemma lower_letters: "AlphaOnly (to_lower s) = to_lower (filter is_alpha s)"
proof -
  have "is_alpha (to_lower_char ch) = is_alpha ch" for ch by (cases "65 \<le> (of_char ch :: nat) \<and> (of_char ch :: nat) \<le> 90") (auto simp: is_alpha_def to_lower_char_def Let_def)
  then show ?thesis by (simp add: AlphaOnly_def to_lower_def filter_map o_def)
qed

lemma ends_of:
  assumes "3 < length xs"
  shows "take (length xs - 2) xs = piece \<longleftrightarrow> (\<exists>x y. xs = piece @ [x, y])" "drop 2 xs = piece \<longleftrightarrow> (\<exists>x y. xs = x # y # piece)"
proof -
  have "length (drop (length xs - 2) xs) = 2" using assms by simp
  then obtain x y where "drop (length xs - 2) xs = [x, y]"
    by (cases "drop (length xs - 2) xs"; cases "tl (drop (length xs - 2) xs)") (auto simp del: length_drop)
  then have "xs = take (length xs - 2) xs @ [x, y]" by (metis append_take_drop_id)
  then show "take (length xs - 2) xs = piece \<longleftrightarrow> (\<exists>x y. xs = piece @ [x, y])" by auto
  show "drop 2 xs = piece \<longleftrightarrow> (\<exists>x y. xs = x # y # piece)" using assms by (cases xs; cases "tl xs") auto
qed

text \<open>The code's test is the specification.\<close>

lemma leaks_iff: "leaks (AlphaOnly (to_lower line)) p \<longleftrightarrow> shows_code line (pd_code p)"
proof -
  let ?l = "filter is_alpha line" and ?c = "filter is_alpha (pd_code p)"
  have "leaks (AlphaOnly (to_lower line)) p \<longleftrightarrow> contains_str (to_lower ?l) (to_lower ?c) \<or>
      3 < length ?c \<and> (contains_str (to_lower ?l) (to_lower (take (length ?c - 2) ?c)) \<or> contains_str (to_lower ?l) (to_lower (drop 2 ?c)))"
    by (simp add: leaks_def lower_letters Let_def) (simp add: to_lower_def take_map drop_map)
  also have "\<dots> \<longleftrightarrow> shows_code line (pd_code p)"
  proof (cases "3 < length ?c")
    case True
    note e = ends_of [OF True]
    show ?thesis unfolding contains_lower shows_code_def e [symmetric] using True by blast
  next
    case False
    then show ?thesis unfolding contains_lower shows_code_def by blast
  qed
  finally show ?thesis .
qed

text \<open>
  C34. A leaked code is hidden: a chat line that shows an active code - its letters, or all but the first or the last two of
  them, in any case and with anything but letters in between - is not relayed; one of the codes it shows is invalidated and the
  player is warned in general words.  (The line is one of the current process, no handler holds the lock of the codes, and
  no code has an empty id.)
\<close>

theorem leaked_code_is_hidden:
  assumes "stamp d" "stamp t" "has_prefix msg ''[CHAT]'' \<or> has_prefix msg ''[SHOUT]''"
    and "UnicodeCleanup (ce_uni (he_con env)) line = log_line d t msg" "generation = 0 \<or> current = generation"
    and "\<not> co_codes_locked c" "\<exists>(i, p) \<in> set (co_codes c). shows_code (log_line d t msg) (pd_code p)"
    and "\<forall>(i, p) \<in> set (co_codes c). i \<noteq> []"
  shows "\<exists>i p c'. (i, p) \<in> set (co_codes c) \<and> shows_code (log_line d t msg) (pd_code p) \<and>
     HandleChat env current generation line c = Ran c' \<and> co_codes c' = gm_del (co_codes c) i \<and> co_players c' = co_players c \<and>
     co_out c' = co_out c @ [ToDiscord ChatChannel leak_warning, GameChat leak_warning]"
proof -
  note leak = assms(7) [folded leaks_iff]
  let ?in = "(preProcessFactorioOutput (log_line d t msg))\<lparr>hd_generation := generation\<rparr>"
  let ?l = "\<lambda>(i, p). leaks (AlphaOnly (to_lower (log_line d t msg))) p"
  define c0 where "c0 = (let c = c\<lparr>co_no_response := 0\<rparr> in if 0 < co_paused_ticks c then c\<lparr>co_paused_ticks := co_paused_ticks c - 1\<rparr> else c)"
  have c0: "co_codes c0 = co_codes c" "co_codes_locked c0 = co_codes_locked c" "co_out c0 = co_out c" "co_players c0 = co_players c"
    by (auto simp: c0_def Let_def)
  have ne: "log_line d t msg \<noteq> []" using assms(1) by (simp add: log_line_def stamp_def)
  have p: "is_chat_line ?in" "\<not> has_prefix (hd_line ?in) ''<server>''" "hd_line ?in = log_line d t msg"
    using log_line_parts [OF assms(1,2), of msg] assms(3) by (simp_all add: is_chat_line_def)
  have run: "HandleChat env current generation line c = chat_handles env ?in c0"
    using assms(5) p ne by (auto simp: HandleChat_def assms(4) c0_def Let_def)
  obtain x where x: "find ?l (co_codes c) = Some x" using leak by (cases "find ?l (co_codes c)") (auto simp: find_None_iff)
  obtain i q where iq: "x = (i, q)" by (cases x)
  have f: "find ?l (co_codes c) = Some (i, q)" "(i, q) \<in> set (co_codes c)" "leaks (AlphaOnly (to_lower (log_line d t msg))) q"
    using find_SomeD [OF x] x iq by auto
  have "i \<noteq> []" using f(2) assms(8) by auto
  then have "chat_handles env ?in c0 = Ran (LogGameCMS True ChatChannel leak_warning (c0\<lparr>co_codes := gm_del (co_codes c0) i\<rparr>))"
    using f(1) assms(6) c0 p(3) by (simp add: chat_handles_def handleIdiots_def ProtectIdiots_def Let_def)
  then show ?thesis using f(2) f(3) [unfolded leaks_iff] run c0 by (intro exI) (auto simp: LogGameCMS_def say_def)
qed

theorem leaked_code_is_hidden_witness:
  "\<exists>c'. HandleChat sample_env 0 0 (log_line ''2026-01-01'' ''12:00:00'' ''[CHAT] bob: register one-two-three'') sample_console = Ran c' \<and>
        co_codes c' = [] \<and> co_out c' = [ToDiscord ChatChannel leak_warning, GameChat leak_warning]"
proof -
  let ?m = "''[CHAT] bob: register one-two-three''" and ?l = "log_line ''2026-01-01'' ''12:00:00'' ''[CHAT] bob: register one-two-three''"
  have u: "UnicodeCleanup (ce_uni (he_con sample_env)) ?l = ?l"
    by (rule cleaned_UnicodeCleanup) (rule cleaned_of_ascii, auto simp: log_line_def)
  have m: "has_prefix ?m ''[CHAT]''" by code_simp
  have "filter is_alpha ?l = ''CHATbobregister'' @ ''onetwothree'' @ []" "filter is_alpha (pd_code sample_code) = ''onetwothree''" by code_simp+
  then have "filter is_alpha ?l = ''CHATbobregister'' @ ''onetwothree'' @ [] \<and> equal_fold ''onetwothree'' ''onetwothree'' \<and>
      ''onetwothree'' = filter is_alpha (pd_code sample_code)" by (simp add: equal_fold_def)
  then have "shows_code ?l (pd_code sample_code)" unfolding shows_code_def by blast
  then have c: "\<exists>(i, p) \<in> set (co_codes sample_console). shows_code ?l (pd_code p)"
    "\<forall>(i, p) \<in> set (co_codes sample_console). i \<noteq> []" by simp_all
  have "0 = (0 :: uint64) \<or> 0 = (0 :: uint64)" by simp
  from leaked_code_is_hidden [OF stamp_sample disjI1 [OF m] u this _ c]
  show ?thesis by (auto simp: gm_del_def)
qed

section \<open>Lines read wrongly\<close>

text \<open>
  The loop stops at an error line only for its length: a failed mod load of exactly ten words, or a bad save of exactly seven.
\<close>

theorem error_line_panics_exactly:
  "handleCrashes env input c = Panicked \<Longrightarrow>
     has_prefix (hd_no_timecode input) ''Error'' \<and>
     (contains_str (hd_no_timecode input) ''Failed to load mod'' \<and> length (hd_words input) = 10 \<or>
      contains_str (hd_no_timecode input) ''(Bad zip file)'' \<and> length (hd_trimmed input) = 7)"
  by (auto simp: handleCrashes_def error_line_def mod_load_error_def multiplayer_failed_def bad_zip_def Let_def
      split: if_splits run.splits option.splits)

theorem error_line_panics_exactly_witness:
  "let input = preProcessFactorioOutput ''1.0 Error ModManager.cpp:1: Failed to load mod x: bad zip''
   in handleCrashes sample_env input sample_console = Panicked \<and> length (hd_words input) = 10"
proof -
  let ?i = "preProcessFactorioOutput ''1.0 Error ModManager.cpp:1: Failed to load mod x: bad zip''"
  have w: "has_prefix (hd_no_timecode ?i) ''Error''" "contains_str (hd_no_timecode ?i) ''Failed to load mod''"
    "length (hd_words ?i) = 10" "\<not> contains_str (hd_no_timecode ?i) ''(Bad zip file)''" by code_simp+
  then have p: "handleCrashes sample_env ?i sample_console = Panicked"
    by (simp add: handleCrashes_def error_line_def mod_load_error_def Let_def)
  show ?thesis unfolding Let_def using p error_line_panics_exactly [OF p] w(4) by blast
qed

text \<open>The word before the first one is asked for exactly when the first word looks like a unit of time.\<close>

definition time_word :: "string \<Rightarrow> bool" where
  "time_word w \<longleftrightarrow> contains_str w ''day'' \<or> contains_str w ''hour'' \<or> contains_str w ''minute'' \<or> contains_str w ''second''"

lemma scan_time_Some: "scan_time (Some w) ws acc \<noteq> None"
  by (induction "Some w" ws acc arbitrary: w rule: scan_time.induct) auto

lemma scan_time_None: "scan_time None (w # ws) acc = None \<longleftrightarrow> time_word w"
  using scan_time_Some [of w ws] by (cases acc) (auto simp: time_word_def)

text \<open>
  Reading the time never runs out of the words except at the first: the loop stops exactly for a line that mentions a unit
  of time, has more than one word and starts with such a word.
\<close>

theorem game_time_panics_exactly:
  "handleGameTime env input c = Panicked \<longleftrightarrow>
     mentions_time (hd_lower input) \<and> (\<exists>w v ws. hd_lower_words input = w # v # ws \<and> time_word w)"
proof (cases "hd_lower_words input")
  case Nil
  then show ?thesis by (simp add: handleGameTime_def)
next
  case (Cons w ws)
  show ?thesis
  proof (cases "mentions_time (hd_lower input) \<and> ws \<noteq> []")
    case False
    then have "handleGameTime env input c = Ran (False, c)" by (auto simp: handleGameTime_def Cons)
    then show ?thesis using False Cons by auto
  next
    case True
    then have "handleGameTime env input c = Panicked \<longleftrightarrow> scan_time None (w # ws) (0, 0, 0, 0) = None"
      by (simp add: handleGameTime_def Cons Let_def split: option.split prod.split)
    then show ?thesis using scan_time_None [of w ws "(0, 0, 0, 0)"] True Cons by (auto simp: neq_Nil_conv)
  qed
qed

text \<open>
  The time of the game can be set by a name: whoever is called like a day joins, and the handler of the time, which sees every line
  of the log that is no chat, reads the word before the name as a number.
\<close>

lemma join_of_a_day_resets_the_time:
  "\<exists>c'. handleGameTime sample_env (preProcessFactorioOutput ''2026-01-01 12:00:00 [JOIN] Daybreak joined the game'')
          (sample_console\<lparr>co_time_known := True, co_time_sample := 60 * 7200\<rparr>) = Ran (False, c') \<and>
        co_time_known c' \<and> co_time_sample c' = 0"
proof -
  let ?i = "preProcessFactorioOutput ''2026-01-01 12:00:00 [JOIN] Daybreak joined the game''"
  have "mentions_time (hd_lower ?i)" "1 < length (hd_lower_words ?i)"
    "scan_time None (hd_lower_words ?i) (0, 0, 0, 0) = Some (0, 0, 0, 0)" by code_simp+
  then show ?thesis by (simp add: handleGameTime_def game_seconds_def Let_def)
qed

end
