(* ===== verification/Web_Auth.thy ===== *)
theory Web_Auth
  imports Control_Jobs
begin

text \<open>
  Signing in to the web control (webapi/auth.go) and the check in front of every handler (webapi/server.go).

  A moderator asks for a link in Discord; the link carries a token that the browser exchanges, together with a nonce of the login
  page, for a session.  Only digests of the tokens are kept.  \<open>exchange\<close> and \<open>check\<close> ask for the roles of the user without
  holding the mutex, so each is two atomic steps with the answer in between; the relation \<open>web_step\<close> interleaves them with
  everything else.  The random tokens, the digest and the answers of the primary instance are arguments.
\<close>

section \<open>State\<close>

record grant_request =
  gq_user :: string
  gq_interaction :: string

record login_grant =
  lg_user :: string
  lg_expires :: gotime

record session =
  ss_actor :: actor
  ss_csrf :: string
  ss_created :: gotime
  ss_seen :: gotime
  ss_checked :: gotime
  ss_epoch :: "64 word"

record auth =
  au_grants :: "(string, login_grant) gomap"
  au_sessions :: "(string, session) gomap"
  au_nonces :: "(string, gotime) gomap"
  au_interactions :: "(string, gotime) gomap"
  au_issued :: "(string, gotime) gomap"
  au_epochs :: "(string, 64 word) gomap"

definition newAuth :: auth where
  "newAuth = \<lparr>au_grants = [], au_sessions = [], au_nonces = [], au_interactions = [], au_issued = [], au_epochs = []\<rparr>"

definition epoch_of :: "auth \<Rightarrow> string \<Rightarrow> 64 word" where
  "epoch_of a user = (case gm_get (au_epochs a) user of Some n \<Rightarrow> n | None \<Rightarrow> 0)"

section \<open>Roles\<close>

record authorization =
  az_user :: string
  az_name :: string
  az_guild :: string
  az_roles :: "string list"

record role_config =
  rc_guild :: string
  rc_admin_roles :: "string list"
  rc_moderator_roles :: "string list"

text \<open>\<open>Config.actor\<close>, and the closure of \<open>New\<close> around the answer of the primary instance.\<close>

definition config_actor :: "role_config \<Rightarrow> authorization \<Rightarrow> string + actor" where
  "config_actor c v =
     (if az_guild v \<noteq> rc_guild c \<or> az_user v = [] then Inl ''guild membership required''
      else let admin = list_ex (\<lambda>r. r \<in> set (rc_admin_roles c)) (az_roles v);
               moder = list_ex (\<lambda>r. r \<in> set (rc_moderator_roles c)) (az_roles v) in
        if \<not> admin \<and> \<not> moder then Inl ''moderator role required''
        else Inr \<lparr>ac_id = az_user v, ac_name = az_name v, ac_admin = admin\<rparr>)"

definition authorize :: "role_config \<Rightarrow> authorization option \<Rightarrow> string \<Rightarrow> string + actor" where
  "authorize c answer user =
     (case answer of
        None \<Rightarrow> Inl ''cannot verify Discord membership''
      | Some v \<Rightarrow> if az_user v \<noteq> user then Inl ''identity mismatch'' else config_actor c v)"

section \<open>Operations\<close>

definition SessionLife :: gotime where "SessionLife = 8 * hour_ns"
definition SessionIdle :: gotime where "SessionIdle = 30 * minute_ns"

definition prune :: "gotime \<Rightarrow> auth \<Rightarrow> auth" where
  "prune now a = a\<lparr>
     au_grants := gm_prune (\<lambda>k v. lg_expires v \<le> now) (au_grants a),
     au_nonces := gm_prune (\<lambda>k v. v \<le> now) (au_nonces a),
     au_sessions := gm_prune (\<lambda>k v. SessionLife \<le> now - ss_created v \<or> SessionIdle \<le> now - ss_seen v) (au_sessions a),
     au_interactions := gm_prune (\<lambda>k v. 10 * minute_ns < now - v) (au_interactions a),
     au_issued := gm_prune (\<lambda>k v. minute_ns < now - v) (au_issued a)\<rparr>"

definition issue :: "(string \<Rightarrow> string) \<Rightarrow> gotime \<Rightarrow> string + actor \<Rightarrow> string \<Rightarrow> grant_request \<Rightarrow> auth \<Rightarrow> (string + string \<times> gotime) \<times> auth" where
  "issue digest now authorized token r a =
     (if \<not> ValidID (gq_user r) \<or> \<not> ValidID (gq_interaction r) then (Inl ''invalid identity'', a)
      else case authorized of
          Inl e \<Rightarrow> (Inl e, a)
        | Inr _ \<Rightarrow>
            (let a = prune now a in
             if gm_get (au_interactions a) (gq_interaction r) \<noteq> None then (Inl ''interaction already used; run /web again'', a)
             else if (case gm_get (au_issued a) (gq_user r) of Some t \<Rightarrow> now - t < 5 * second_ns | None \<Rightarrow> False)
             then (Inl ''wait a few seconds before requesting another link'', a)
             else if 1000 \<le> length (au_grants a) then (Inl ''too many pending logins'', a)
             else
               (let expires = now + 2 * minute_ns;
                    others = gm_prune (\<lambda>k v. lg_user v = gq_user r) (au_grants a)
                in (Inr (token, expires),
                    a\<lparr>au_grants := gm_put others (digest token) \<lparr>lg_user = gq_user r, lg_expires = expires\<rparr>,
                      au_interactions := gm_put (au_interactions a) (gq_interaction r) now,
                      au_issued := gm_put (au_issued a) (gq_user r) now\<rparr>))))"

definition landing :: "(string \<Rightarrow> string) \<Rightarrow> gotime \<Rightarrow> string \<Rightarrow> auth \<Rightarrow> (string + string) \<times> auth" where
  "landing digest now token a =
     (let a = prune now a in
      if 10000 \<le> length (au_nonces a) then (Inl ''too many login requests'', a)
      else (Inr token, a\<lparr>au_nonces := gm_put (au_nonces a) (digest token) (now + 5 * minute_ns)\<rparr>))"

text \<open>What an exchange remembers while it asks for the roles.\<close>

record pending_login =
  pl_grant :: string
  pl_nonce :: string
  pl_user :: string
  pl_epoch :: "64 word"

definition exchange_begin :: "(string \<Rightarrow> string) \<Rightarrow> gotime \<Rightarrow> string \<Rightarrow> string \<Rightarrow> auth \<Rightarrow> (string + pending_login) \<times> auth" where
  "exchange_begin digest now token nonceToken a =
     (let a = prune now a in
      case gm_get (au_grants a) (digest token) of
        None \<Rightarrow> (Inl ''invalid or expired login; run /web again'', a)
      | Some g \<Rightarrow>
          if gm_get (au_nonces a) (digest nonceToken) = None then (Inl ''invalid or expired login; run /web again'', a)
          else (Inr \<lparr>pl_grant = digest token, pl_nonce = digest nonceToken, pl_user = lg_user g, pl_epoch = epoch_of a (lg_user g)\<rparr>, a))"

definition exchange_finish :: "(string \<Rightarrow> string) \<Rightarrow> gotime \<Rightarrow> string + actor \<Rightarrow> string \<Rightarrow> string \<Rightarrow> pending_login \<Rightarrow> auth
    \<Rightarrow> (string + string \<times> session) \<times> auth" where
  "exchange_finish digest now authorized raw csrf p a =
     (case authorized of
        Inl e \<Rightarrow> (Inl e, a)
      | Inr actor \<Rightarrow>
          (let a = prune now a in
           if gm_get (au_grants a) (pl_grant p) = None then (Inl ''login link already used'', a)
           else if gm_get (au_nonces a) (pl_nonce p) = None \<or> epoch_of a (pl_user p) \<noteq> pl_epoch p then (Inl ''login revoked'', a)
           else
             (let s = \<lparr>ss_actor = actor, ss_csrf = csrf, ss_created = now, ss_seen = now, ss_checked = now, ss_epoch = pl_epoch p\<rparr>
              in (Inr (raw, s),
                  a\<lparr>au_grants := gm_del (au_grants a) (pl_grant p), au_nonces := gm_del (au_nonces a) (pl_nonce p),
                    au_sessions := gm_put (au_sessions a) (digest raw) s\<rparr>))))"

definition revoke :: "string \<Rightarrow> auth \<Rightarrow> auth" where
  "revoke user a = a\<lparr>
     au_epochs := gm_put (au_epochs a) user (epoch_of a user + 1),
     au_grants := gm_prune (\<lambda>k v. lg_user v = user) (au_grants a),
     au_sessions := gm_prune (\<lambda>k v. ac_id (ss_actor v) = user) (au_sessions a)\<rparr>"

definition logout :: "(string \<Rightarrow> string) \<Rightarrow> string \<Rightarrow> auth \<Rightarrow> auth" where
  "logout digest raw a = a\<lparr>au_sessions := gm_del (au_sessions a) (digest raw)\<rparr>"

text \<open>The first part of a check: the session as it is stored.\<close>

definition check_begin :: "(string \<Rightarrow> string) \<Rightarrow> gotime \<Rightarrow> string \<Rightarrow> auth \<Rightarrow> (string + string \<times> session) \<times> auth" where
  "check_begin digest now raw a =
     (let a = prune now a in
      case gm_get (au_sessions a) (digest raw) of
        None \<Rightarrow> (Inl ''sign in using /web in Discord'', a)
      | Some s \<Rightarrow> (Inr (digest raw, s), a))"

definition needs_refresh :: "gotime \<Rightarrow> session \<Rightarrow> bool" where
  "needs_refresh now s \<longleftrightarrow> minute_ns \<le> now - ss_checked s"

text \<open>
  The answer for a stale session: the refreshed copy, or the revocation of the user.  \<open>checked\<close> is the time before the
  question was asked.
\<close>

definition check_refresh :: "gotime \<Rightarrow> string + actor \<Rightarrow> session \<Rightarrow> auth \<Rightarrow> (string + session) \<times> auth" where
  "check_refresh checked authorized s a =
     (case authorized of
        Inl e \<Rightarrow> (Inl e, revoke (ac_id (ss_actor s)) a)
      | Inr actor \<Rightarrow> (Inr (s\<lparr>ss_actor := actor, ss_checked := checked\<rparr>), a))"

definition check_finish :: "gotime \<Rightarrow> bool \<Rightarrow> string \<Rightarrow> session \<Rightarrow> auth \<Rightarrow> (string + session) \<times> auth" where
  "check_finish now touch k s a =
     (let a = prune now a in
      case gm_get (au_sessions a) k of
        None \<Rightarrow> (Inl ''session revoked'', a)
      | Some current \<Rightarrow>
          if epoch_of a (ac_id (ss_actor s)) \<noteq> ss_epoch s then (Inl ''session revoked'', a)
          else
            (let current = (if ss_checked current < ss_checked s
                            then current\<lparr>ss_actor := ss_actor s, ss_checked := ss_checked s\<rparr> else current);
                 current = (if touch \<and> ss_seen current < now then current\<lparr>ss_seen := now\<rparr> else current)
             in (Inr current, a\<lparr>au_sessions := gm_put (au_sessions a) k current\<rparr>)))"

text \<open>
  A check with nothing in between: begun at \<open>t0\<close>, roles asked at \<open>t1\<close> and answered by \<open>authorized\<close>, finished at \<open>t2\<close>.
\<close>

definition check :: "(string \<Rightarrow> string) \<Rightarrow> gotime \<Rightarrow> gotime \<Rightarrow> gotime \<Rightarrow> (string \<Rightarrow> string + actor) \<Rightarrow> bool \<Rightarrow> string \<Rightarrow> auth
    \<Rightarrow> (string + session) \<times> auth" where
  "check digest t0 t1 t2 authorized touch raw a =
     (case check_begin digest t0 raw a of
        (Inl e, a) \<Rightarrow> (Inl e, a)
      | (Inr (k, s), a) \<Rightarrow>
          (case (if needs_refresh t0 s then check_refresh t1 (authorized (ac_id (ss_actor s))) s a else (Inr s, a)) of
             (Inl e, a) \<Rightarrow> (Inl e, a)
           | (Inr s, a) \<Rightarrow> check_finish t2 touch k s a))"

section \<open>The check in front of a handler\<close>

record web_request =
  wr_method :: string
  wr_cookie :: "string option"
  wr_origin :: string
  wr_csrf :: string

definition reads_only :: "web_request \<Rightarrow> bool" where
  "reads_only r \<longleftrightarrow> wr_method r = ''GET'' \<or> wr_method r = ''HEAD''"

definition sameOrigin :: "string \<Rightarrow> web_request \<Rightarrow> bool" where
  "sameOrigin publicOrigin r \<longleftrightarrow> wr_origin r = publicOrigin"

text \<open>\<open>checked\<close> is the outcome of the check for the cookie; the result is an error or the session the handler gets.\<close>

definition protected :: "(string \<Rightarrow> string) \<Rightarrow> string \<Rightarrow> bool \<Rightarrow> web_request \<Rightarrow> string + session \<Rightarrow> (nat \<times> string) + session" where
  "protected digest publicOrigin admin r checked =
     (case wr_cookie r of
        None \<Rightarrow> Inl (401, ''unauthorized'')
      | Some _ \<Rightarrow>
          (case checked of
             Inl e \<Rightarrow> Inl (401, ''unauthorized'')
           | Inr s \<Rightarrow>
               if admin \<and> \<not> ac_admin (ss_actor s) then Inl (403, ''forbidden'')
               else if \<not> reads_only r \<and> (\<not> sameOrigin publicOrigin r \<or> digest (wr_csrf r) \<noteq> digest (ss_csrf s)) then Inl (403, ''csrf'')
               else Inr s))"

section \<open>Interleaving\<close>

datatype web_event =
    Issued string string
  | SignedIn string string string
  | Revoked string
  | Accepted string string

text \<open>
  The state of the service: the clock, the exchanges and checks that wait for roles, and what happened, the latest first.
  A grant is named by its digest, a session by the digest of its token.
\<close>

record web_service =
  wb_now :: gotime
  wb_auth :: auth
  wb_logins :: "pending_login set"
  wb_checks :: "(string \<times> session) set"
  wb_events :: "web_event list"

definition fresh_digest :: "string \<Rightarrow> web_service \<Rightarrow> bool" where
  "fresh_digest d w \<longleftrightarrow> (\<forall>u. Issued d u \<notin> set (wb_events w)) \<and> (\<forall>g u. SignedIn g d u \<notin> set (wb_events w))"

definition at_work :: "web_service \<Rightarrow> auth \<Rightarrow> web_event list \<Rightarrow> web_service" where
  "at_work w a es = w\<lparr>wb_auth := a, wb_events := es @ wb_events w\<rparr>"

inductive web_step :: "role_config \<Rightarrow> (string \<Rightarrow> string) \<Rightarrow> web_service \<Rightarrow> web_service \<Rightarrow> bool" for cfg digest where
  tick: "wb_now w \<le> t \<Longrightarrow> web_step cfg digest w (w\<lparr>wb_now := t\<rparr>)"
| issued: "fresh_digest (digest token) w \<Longrightarrow>
    issue digest (wb_now w) (authorize cfg answer (gq_user r)) token r (wb_auth w) = (res, a) \<Longrightarrow>
    web_step cfg digest w (at_work w a (case res of Inl e \<Rightarrow> [] | Inr _ \<Rightarrow> [Issued (digest token) (gq_user r)]))"
| landed: "landing digest (wb_now w) token (wb_auth w) = (res, a) \<Longrightarrow> web_step cfg digest w (at_work w a [])"
| login_begins: "exchange_begin digest (wb_now w) token nonce (wb_auth w) = (res, a) \<Longrightarrow>
    web_step cfg digest w ((at_work w a [])\<lparr>wb_logins := wb_logins w \<union> (case res of Inl e \<Rightarrow> {} | Inr p \<Rightarrow> {p})\<rparr>)"
| login_ends: "p \<in> wb_logins w \<Longrightarrow> fresh_digest (digest raw) w \<Longrightarrow>
    exchange_finish digest (wb_now w) (authorize cfg answer (pl_user p)) raw csrf p (wb_auth w) = (res, a) \<Longrightarrow>
    web_step cfg digest w (at_work w a (case res of Inl e \<Rightarrow> [] | Inr _ \<Rightarrow> [SignedIn (pl_grant p) (digest raw) (pl_user p)]))"
| check_begins: "check_begin digest (wb_now w) raw (wb_auth w) = (res, a) \<Longrightarrow>
    web_step cfg digest w ((at_work w a [])\<lparr>wb_checks := wb_checks w \<union> (case res of Inl e \<Rightarrow> {} | Inr ks \<Rightarrow> {ks})\<rparr>)"
| check_asks: "(k, s) \<in> wb_checks w \<Longrightarrow> needs_refresh (wb_now w) s \<Longrightarrow> checked \<le> wb_now w \<Longrightarrow>
    check_refresh checked (authorize cfg answer (ac_id (ss_actor s))) s (wb_auth w) = (res, a) \<Longrightarrow>
    web_step cfg digest w ((at_work w a (case res of Inl e \<Rightarrow> [Revoked (ac_id (ss_actor s))] | Inr _ \<Rightarrow> []))
      \<lparr>wb_checks := wb_checks w \<union> (case res of Inl e \<Rightarrow> {} | Inr s' \<Rightarrow> {(k, s')})\<rparr>)"
| check_ends: "(k, s) \<in> wb_checks w \<Longrightarrow> check_finish (wb_now w) touch k s (wb_auth w) = (res, a) \<Longrightarrow>
    web_step cfg digest w (at_work w a (case res of Inl e \<Rightarrow> [] | Inr s' \<Rightarrow> [Accepted k (ac_id (ss_actor s'))]))"
| revoked: "web_step cfg digest w (at_work w (revoke user (wb_auth w)) [Revoked user])"
| logged_out: "web_step cfg digest w (at_work w (logout digest raw (wb_auth w)) [])"

definition web_start :: "web_service \<Rightarrow> bool" where
  "web_start w \<longleftrightarrow> wb_auth w = newAuth \<and> wb_logins w = {} \<and> wb_checks w = {} \<and> wb_events w = []"

end
