(* ===== verification/Web_Auth_Properties.thy ===== *)
theory Web_Auth_Properties
  imports Web_Auth
begin

text \<open>
  What signing in promises: a link works once and only for the user it was issued to, revoking a user ends everything he has
  begun, an accepted session is young, in use and was checked against the roles within a minute, and a handler runs only for one.
\<close>

section \<open>Events\<close>

definition since_revoked :: "string \<Rightarrow> web_event list \<Rightarrow> web_event set" where
  "since_revoked u es = set (takeWhile (\<lambda>e. e \<noteq> Revoked u) es)"

lemma since_Nil [simp]: "since_revoked u [] = {}"
  by (simp add: since_revoked_def)

lemma since_Cons [simp]: "since_revoked u (e # es) = (if e = Revoked u then {} else insert e (since_revoked u es))"
  by (auto simp: since_revoked_def)

lemma since_set: "e \<in> since_revoked u es \<Longrightarrow> e \<in> set es"
  by (auto simp: since_revoked_def dest: set_takeWhileD)

text \<open>
  Every sign-in used a link issued to that user since his last revocation and not used before; every accepted check belongs
  to a session that was signed in since the last revocation of its user.
\<close>

fun lawful :: "web_event list \<Rightarrow> bool" where
  "lawful [] = True"
| "lawful (e # es) =
     ((case e of
         SignedIn d k u \<Rightarrow> Issued d u \<in> since_revoked u es \<and> (\<forall>k' u'. SignedIn d k' u' \<notin> set es)
       | Accepted k u \<Rightarrow> (\<exists>d. SignedIn d k u \<in> since_revoked u es)
       | _ \<Rightarrow> True) \<and> lawful es)"

section \<open>The invariant\<close>

abbreviation uid :: "session \<Rightarrow> string" where "uid s \<equiv> ac_id (ss_actor s)"

definition maps_ok :: "auth \<Rightarrow> bool" where
  "maps_ok a \<longleftrightarrow> gm_ok (au_grants a) \<and> gm_ok (au_sessions a)"

definition auth_ok :: "auth \<Rightarrow> web_event list \<Rightarrow> bool" where
  "auth_ok a es \<longleftrightarrow> maps_ok a \<and>
     (\<forall>d g. gm_get (au_grants a) d = Some g \<longrightarrow> Issued d (lg_user g) \<in> since_revoked (lg_user g) es \<and> (\<forall>k u. SignedIn d k u \<notin> set es)) \<and>
     (\<forall>k s. gm_get (au_sessions a) k = Some s \<longrightarrow> (\<exists>d. SignedIn d k (uid s) \<in> since_revoked (uid s) es))"

definition events_ok :: "web_event list \<Rightarrow> bool" where
  "events_ok es \<longleftrightarrow> lawful es \<and> (\<forall>d u u'. Issued d u \<in> set es \<longrightarrow> Issued d u' \<in> set es \<longrightarrow> u = u') \<and>
     (\<forall>d d' k u u'. SignedIn d k u \<in> set es \<longrightarrow> SignedIn d' k u' \<in> set es \<longrightarrow> u = u')"

definition web_inv :: "web_service \<Rightarrow> bool" where
  "web_inv w \<longleftrightarrow> auth_ok (wb_auth w) (wb_events w) \<and> events_ok (wb_events w) \<and>
     (\<forall>p \<in> wb_logins w. Issued (pl_grant p) (pl_user p) \<in> set (wb_events w)) \<and>
     (\<forall>(k, s) \<in> wb_checks w. \<exists>d. SignedIn d k (uid s) \<in> set (wb_events w))"

text \<open>\<open>a'\<close> holds no grant and no session that \<open>a\<close> did not hold for the same user.\<close>

definition shrinks :: "auth \<Rightarrow> auth \<Rightarrow> bool" where
  "shrinks a a' \<longleftrightarrow> (maps_ok a \<longrightarrow> maps_ok a' \<and>
     (\<forall>d g. gm_get (au_grants a') d = Some g \<longrightarrow> gm_get (au_grants a) d = Some g) \<and>
     (\<forall>k s. gm_get (au_sessions a') k = Some s \<longrightarrow> (\<exists>s0. gm_get (au_sessions a) k = Some s0 \<and> uid s0 = uid s)))"

lemma shrinks_refl [simp]: "shrinks a a"
  by (auto simp: shrinks_def)

lemma shrinks_trans: "shrinks a b \<Longrightarrow> shrinks b c \<Longrightarrow> shrinks a c"
  unfolding shrinks_def by metis

lemma shrinks_prune [simp]: "shrinks a (prune now a)"
  by (auto simp: shrinks_def maps_ok_def prune_def gm_prune_get_Some)

lemma shrinks_revoke [simp]: "shrinks a (revoke u a)"
  by (auto simp: shrinks_def maps_ok_def revoke_def gm_prune_get_Some)

lemma shrinks_logout [simp]: "shrinks a (logout digest raw a)"
  by (auto simp: shrinks_def maps_ok_def logout_def)

lemma auth_ok_shrinks: "auth_ok a es \<Longrightarrow> shrinks a a' \<Longrightarrow> auth_ok a' es"
  unfolding auth_ok_def shrinks_def by metis

lemma auth_ok_revoke: "auth_ok a es \<Longrightarrow> auth_ok (revoke u a) (Revoked u # es)"
  by (auto simp: auth_ok_def maps_ok_def revoke_def gm_prune_get_Some)

lemma auth_ok_quiet: "auth_ok a es \<Longrightarrow> (\<forall>u. e \<noteq> Revoked u) \<Longrightarrow> (\<forall>d k u. e \<noteq> SignedIn d k u) \<Longrightarrow> auth_ok a (e # es)"
  unfolding auth_ok_def by (simp, metis)

lemma authorize_user: "authorize cfg answer user = Inr actor \<Longrightarrow> ac_id actor = user"
  by (auto simp: authorize_def config_actor_def Let_def split: option.splits if_splits)

lemma lawful_issued: "lawful es \<Longrightarrow> SignedIn d k u \<in> set es \<Longrightarrow> Issued d u \<in> set es"
  by (induction es) (auto dest: since_set split: web_event.splits)

section \<open>Every step keeps it\<close>

lemma issue_cases:
  assumes "issue digest now au token r a = (res, a')"
  obtains (refused) e where "res = Inl e" "shrinks a a'"
    | (granted) a1 g where "res = Inr (token, now + 2 * minute_ns)" "shrinks a a1" "lg_user g = gq_user r"
      "au_grants a' = gm_put (au_grants a1) (digest token) g" "au_sessions a' = au_sessions a1"
proof -
  define a1 where "a1 = (prune now a)\<lparr>au_grants := gm_prune (\<lambda>k v. lg_user v = gq_user r) (au_grants (prune now a))\<rparr>"
  have "shrinks (prune now a) a1" by (auto simp: shrinks_def maps_ok_def a1_def gm_prune_get_Some)
  then have s: "shrinks a a1" using shrinks_prune shrinks_trans by blast
  have i: "shrinks a (prune now a)" by simp
  consider "\<exists>e. res = Inl e \<and> (a' = a \<or> a' = prune now a)"
    | "res = Inr (token, now + 2 * minute_ns)" "au_grants a' = gm_put (au_grants a1) (digest token) \<lparr>lg_user = gq_user r, lg_expires = now + 2 * minute_ns\<rparr>"
      "au_sessions a' = au_sessions a1"
    using assms by (auto simp: issue_def Let_def a1_def split: sum.splits if_splits)
  then show thesis using that s i by cases (auto, force)
qed

lemma exchange_finish_cases:
  assumes "exchange_finish digest now au raw csrf p a = (res, a')"
  obtains (refused) e where "res = Inl e" "shrinks a a'"
    | (signed) a1 s g actor where "res = Inr (raw, s)" "shrinks a a1" "au = Inr actor" "ss_actor s = actor" "gm_get (au_grants a1) (pl_grant p) = Some g"
      "au_grants a' = gm_del (au_grants a1) (pl_grant p)" "au_sessions a' = gm_put (au_sessions a1) (digest raw) s"
proof (cases au)
  case (Inl e)
  then show thesis using assms that(1) by (auto simp: exchange_finish_def)
next
  case (Inr actor)
  let ?b = "prune now a"
  have b: "shrinks a ?b" by simp
  consider "\<exists>e. res = Inl e \<and> a' = ?b"
    | g s where "res = Inr (raw, s)" "ss_actor s = actor" "gm_get (au_grants ?b) (pl_grant p) = Some g"
      "au_grants a' = gm_del (au_grants ?b) (pl_grant p)" "au_sessions a' = gm_put (au_sessions ?b) (digest raw) s"
    using assms by (auto simp: exchange_finish_def Inr Let_def split: if_splits)
  then show thesis
  proof cases
    case 1
    then show thesis using that(1) b by auto
  next
    case 2
    then show thesis using that(2) [OF _ b Inr] by blast
  qed
qed

lemma check_finish_cases:
  assumes "check_finish now touch k s a = (res, a')"
  obtains (refused) e where "res = Inl e" "shrinks a a'"
    | (accepted) a1 s0 s1 where "res = Inr s1" "shrinks a a1" "gm_get (au_sessions a1) k = Some s0" "uid s1 = uid s0 \<or> uid s1 = uid s"
      "au_grants a' = au_grants a1" "au_sessions a' = gm_put (au_sessions a1) k s1"
proof (cases "gm_get (au_sessions (prune now a)) k")
  case None
  then show thesis using assms that(1) by (auto simp: check_finish_def Let_def)
next
  case (Some s0)
  have b: "shrinks a (prune now a)" by simp
  show thesis
  proof (cases "epoch_of (prune now a) (uid s) \<noteq> ss_epoch s")
    case True
    then show thesis using assms that(1) Some by (auto simp: check_finish_def Let_def)
  next
    case False
    obtain s1 where "res = Inr s1" "a' = (prune now a)\<lparr>au_sessions := gm_put (au_sessions (prune now a)) k s1\<rparr>"
      "uid s1 = uid s0 \<or> uid s1 = uid s"
      using assms Some False by (auto simp: check_finish_def Let_def)
    then show thesis using that(2) [OF _ b Some] by simp
  qed
qed

lemma issue_keeps:
  assumes "auth_ok a es" "events_ok es" "issue digest now au token r a = (res, a')"
    and fresh: "\<forall>u. Issued (digest token) u \<notin> set es"
  shows "auth_ok a' ((case res of Inl e \<Rightarrow> [] | Inr _ \<Rightarrow> [Issued (digest token) (gq_user r)]) @ es)"
    and "events_ok ((case res of Inl e \<Rightarrow> [] | Inr _ \<Rightarrow> [Issued (digest token) (gq_user r)]) @ es)"
proof -
  from assms(3) have "auth_ok a' ((case res of Inl e \<Rightarrow> [] | Inr _ \<Rightarrow> [Issued (digest token) (gq_user r)]) @ es) \<and>
      events_ok ((case res of Inl e \<Rightarrow> [] | Inr _ \<Rightarrow> [Issued (digest token) (gq_user r)]) @ es)"
  proof (cases rule: issue_cases)
    case (refused e)
    then show ?thesis using assms(1,2) auth_ok_shrinks by simp
  next
    case (granted a1 g)
    have a1: "auth_ok a1 es" using assms(1) granted(2) by (rule auth_ok_shrinks)
    have unused: "SignedIn (digest token) k u \<notin> set es" for k u
      using lawful_issued [of es "digest token"] assms(2) fresh by (auto simp: events_ok_def)
    have "auth_ok a' (Issued (digest token) (gq_user r) # es)"
      using a1 granted unused by (auto simp: auth_ok_def maps_ok_def)
    moreover have "events_ok (Issued (digest token) (gq_user r) # es)"
      using assms(2) fresh by (auto simp: events_ok_def)
    ultimately show ?thesis using granted(1) by simp
  qed
  then show "auth_ok a' ((case res of Inl e \<Rightarrow> [] | Inr _ \<Rightarrow> [Issued (digest token) (gq_user r)]) @ es)"
    and "events_ok ((case res of Inl e \<Rightarrow> [] | Inr _ \<Rightarrow> [Issued (digest token) (gq_user r)]) @ es)" by blast+
qed

lemma login_keeps:
  assumes "auth_ok a es" "events_ok es" "Issued (pl_grant p) (pl_user p) \<in> set es"
    and "exchange_finish digest now (authorize cfg answer (pl_user p)) raw csrf p a = (res, a')"
    and fresh: "\<forall>d u. SignedIn d (digest raw) u \<notin> set es"
  shows "auth_ok a' ((case res of Inl e \<Rightarrow> [] | Inr _ \<Rightarrow> [SignedIn (pl_grant p) (digest raw) (pl_user p)]) @ es) \<and>
         events_ok ((case res of Inl e \<Rightarrow> [] | Inr _ \<Rightarrow> [SignedIn (pl_grant p) (digest raw) (pl_user p)]) @ es)"
  using assms(4)
proof (cases rule: exchange_finish_cases)
  case (refused e)
  then show ?thesis using assms(1,2) auth_ok_shrinks by simp
next
  case (signed a1 s g actor)
  have a1: "auth_ok a1 es" using assms(1) signed(2) by (rule auth_ok_shrinks)
  have user: "uid s = pl_user p" using authorize_user [OF signed(3)] signed(4) by simp
  have grant: "Issued (pl_grant p) (lg_user g) \<in> since_revoked (lg_user g) es" "\<forall>k u. SignedIn (pl_grant p) k u \<notin> set es"
    using a1 signed(5) by (auto simp: auth_ok_def)
  have same: "lg_user g = pl_user p" using assms(2,3) since_set [OF grant(1)] unfolding events_ok_def by blast
  let ?e = "SignedIn (pl_grant p) (digest raw) (pl_user p)"
  have "lawful (?e # es)" using assms(2) grant same by (simp add: events_ok_def)
  then have "events_ok (?e # es)" using assms(2) fresh by (auto simp: events_ok_def)
  moreover have "auth_ok a' (?e # es)"
    using a1 signed(6,7) user by (auto simp: auth_ok_def maps_ok_def)
  ultimately show ?thesis using signed(1) by simp
qed

lemma check_keeps:
  assumes "auth_ok a es" "events_ok es" "SignedIn d k (uid s) \<in> set es" "check_finish now touch k s a = (res, a')"
  shows "auth_ok a' ((case res of Inl e \<Rightarrow> [] | Inr s' \<Rightarrow> [Accepted k (uid s')]) @ es) \<and>
         events_ok ((case res of Inl e \<Rightarrow> [] | Inr s' \<Rightarrow> [Accepted k (uid s')]) @ es)"
  using assms(4)
proof (cases rule: check_finish_cases)
  case (refused e)
  then show ?thesis using assms(1,2) auth_ok_shrinks by simp
next
  case (accepted a1 s0 s1)
  have a1: "auth_ok a1 es" using assms(1) accepted(2) by (rule auth_ok_shrinks)
  obtain d0 where d0: "SignedIn d0 k (uid s0) \<in> since_revoked (uid s0) es" using a1 accepted(3) unfolding auth_ok_def by blast
  have "uid s0 = uid s" using assms(2,3) since_set [OF d0] unfolding events_ok_def by blast
  then have u: "uid s1 = uid s0" using accepted(4) by auto
  have "auth_ok a' es" using a1 accepted(5,6) d0 u by (auto simp: auth_ok_def maps_ok_def)
  then have "auth_ok a' (Accepted k (uid s1) # es)" by (rule auth_ok_quiet) auto
  moreover have "events_ok (Accepted k (uid s1) # es)" using assms(2) d0 u by (auto simp: events_ok_def)
  ultimately show ?thesis using accepted(1) by simp
qed

lemma events_ok_revoked: "events_ok es \<Longrightarrow> events_ok (Revoked u # es)"
  by (simp add: events_ok_def)

lemma check_refresh_result:
  "check_refresh checked (authorize cfg answer (uid s)) s a = (Inr s', a') \<Longrightarrow> uid s' = uid s \<and> a' = a"
  "check_refresh checked au s a = (Inl e, a') \<Longrightarrow> a' = revoke (uid s) a"
  by (auto simp: check_refresh_def authorize_user split: sum.splits)

lemma web_inv_step:
  assumes "web_inv w" "web_step cfg digest w w'"
  shows "web_inv w'"
  using assms(2,1)
proof (cases rule: web_step.cases)
  case (tick t)
  then show ?thesis using assms(1) by (simp add: web_inv_def)
next
  case (issued token answer r res a)
  have "auth_ok a ((case res of Inl e \<Rightarrow> [] | Inr _ \<Rightarrow> [Issued (digest token) (gq_user r)]) @ wb_events w)"
    "events_ok ((case res of Inl e \<Rightarrow> [] | Inr _ \<Rightarrow> [Issued (digest token) (gq_user r)]) @ wb_events w)"
    using issue_keeps [OF _ _ issued(3)] issued(2) assms(1) by (simp_all add: web_inv_def fresh_digest_def)
  then show ?thesis using assms(1) issued(1) by (fastforce simp: web_inv_def at_work_def)
next
  case (landed token res a)
  have "shrinks (wb_auth w) a"
    using landed(2) by (auto simp: landing_def Let_def shrinks_def maps_ok_def prune_def gm_prune_get_Some split: if_splits)
  then show ?thesis using assms(1) landed(1) auth_ok_shrinks by (auto simp: web_inv_def at_work_def)
next
  case (login_begins token nonce res a)
  have a: "a = prune (wb_now w) (wb_auth w)" using login_begins(2) by (auto simp: exchange_begin_def Let_def split: option.splits if_splits)
  have ok: "auth_ok a (wb_events w)" using assms(1) auth_ok_shrinks a shrinks_prune by (auto simp: web_inv_def)
  have "Issued (pl_grant p) (pl_user p) \<in> set (wb_events w)" if r: "res = Inr p" for p
  proof -
    obtain g where "gm_get (au_grants a) (pl_grant p) = Some g" "pl_user p = lg_user g"
      using login_begins(2) r a by (auto simp: exchange_begin_def Let_def split: option.splits if_splits)
    then show ?thesis using ok since_set by (fastforce simp: auth_ok_def)
  qed
  then show ?thesis using assms(1) login_begins(1) ok by (cases res) (auto simp: web_inv_def at_work_def)
next
  case (login_ends p raw answer csrf res a)
  have "auth_ok a ((case res of Inl e \<Rightarrow> [] | Inr _ \<Rightarrow> [SignedIn (pl_grant p) (digest raw) (pl_user p)]) @ wb_events w) \<and>
     events_ok ((case res of Inl e \<Rightarrow> [] | Inr _ \<Rightarrow> [SignedIn (pl_grant p) (digest raw) (pl_user p)]) @ wb_events w)"
    using login_keeps [OF _ _ _ login_ends(4)] login_ends(2,3) assms(1) by (simp add: web_inv_def fresh_digest_def)
  then show ?thesis using assms(1) login_ends(1) by (fastforce simp: web_inv_def at_work_def)
next
  case (check_begins raw res a)
  have a: "a = prune (wb_now w) (wb_auth w)" using check_begins(2) by (auto simp: check_begin_def Let_def split: option.splits)
  have ok: "auth_ok a (wb_events w)" using assms(1) auth_ok_shrinks a shrinks_prune by (auto simp: web_inv_def)
  have "\<exists>d. SignedIn d k (uid s) \<in> set (wb_events w)" if "res = Inr (k, s)" for k s
  proof -
    have "gm_get (au_sessions a) k = Some s"
      using check_begins(2) that a by (auto simp: check_begin_def Let_def split: option.splits)
    then show ?thesis using ok since_set by (fastforce simp: auth_ok_def)
  qed
  then show ?thesis using assms(1) check_begins(1) ok by (cases res) (auto simp: web_inv_def at_work_def)
next
  case (check_asks k s checked answer res a)
  have ks: "\<exists>d. SignedIn d k (uid s) \<in> set (wb_events w)" using check_asks(2) assms(1) by (auto simp: web_inv_def)
  show ?thesis
  proof (cases res)
    case (Inl e)
    have "a = revoke (uid s) (wb_auth w)" using check_refresh_result(2) check_asks(5) Inl by blast
    then show ?thesis using assms(1) check_asks(1) Inl auth_ok_revoke events_ok_revoked by (fastforce simp: web_inv_def at_work_def)
  next
    case (Inr s')
    have "uid s' = uid s \<and> a = wb_auth w" using check_refresh_result(1) check_asks(5) Inr by blast
    then show ?thesis using assms(1) check_asks(1) Inr ks by (fastforce simp: web_inv_def at_work_def)
  qed
next
  case (check_ends k s touch res a)
  obtain d where "SignedIn d k (uid s) \<in> set (wb_events w)" using check_ends(2) assms(1) by (auto simp: web_inv_def)
  from check_keeps [OF _ _ this check_ends(3)]
  have "auth_ok a ((case res of Inl e \<Rightarrow> [] | Inr s' \<Rightarrow> [Accepted k (uid s')]) @ wb_events w) \<and>
     events_ok ((case res of Inl e \<Rightarrow> [] | Inr s' \<Rightarrow> [Accepted k (uid s')]) @ wb_events w)" using assms(1) by (simp add: web_inv_def)
  then show ?thesis using assms(1) check_ends(1) by (fastforce simp: web_inv_def at_work_def)
next
  case (revoked user)
  then show ?thesis using assms(1) auth_ok_revoke events_ok_revoked by (fastforce simp: web_inv_def at_work_def)
next
  case (logged_out raw)
  then show ?thesis using assms(1) auth_ok_shrinks [OF _ shrinks_logout] by (auto simp: web_inv_def at_work_def)
qed

interpretation web_system: step_system web_start "web_step cfg digest" web_inv
proof unfold_locales
  show "web_inv w" if "web_start w" for w
    using that by (simp add: web_start_def web_inv_def auth_ok_def maps_ok_def events_ok_def newAuth_def)
  show "web_inv w'" if "web_inv w" "web_step cfg digest w w'" for w w'
    using web_inv_step that by blast
qed

section \<open>Bounds\<close>

text \<open>At most a thousand links wait, at most one for every user, and at most ten thousand login pages are open.\<close>

definition auth_bounded :: "auth \<Rightarrow> bool" where
  "auth_bounded a \<longleftrightarrow> gm_ok (au_grants a) \<and> length (au_grants a) \<le> 1000 \<and> length (au_nonces a) \<le> 10000 \<and>
     (\<forall>d g d' g'. gm_get (au_grants a) d = Some g \<longrightarrow> gm_get (au_grants a) d' = Some g' \<longrightarrow> lg_user g = lg_user g' \<longrightarrow> d = d')"

lemma length_gm_put: "length (gm_put m k v) \<le> length m + 1"
  by (induction m) (auto simp: gm_put_def)

lemma length_gm_del: "length (gm_del m k) \<le> length m"
  by (simp add: gm_del_def AList.delete_eq)

lemma length_gm_prune: "length (gm_prune p m) \<le> length m"
  by (simp add: gm_prune_def)

lemma bounded_one: "auth_bounded a \<Longrightarrow> gm_get (au_grants a) d = Some g \<Longrightarrow> gm_get (au_grants a) d' = Some g' \<Longrightarrow>
    lg_user g = lg_user g' \<Longrightarrow> d = d'"
  by (simp add: auth_bounded_def)

lemma bounded_intro: "gm_ok (au_grants a) \<Longrightarrow> length (au_grants a) \<le> 1000 \<Longrightarrow> length (au_nonces a) \<le> 10000 \<Longrightarrow>
    (\<And>d g d' g'. gm_get (au_grants a) d = Some g \<Longrightarrow> gm_get (au_grants a) d' = Some g' \<Longrightarrow> lg_user g = lg_user g' \<Longrightarrow> d = d') \<Longrightarrow>
    auth_bounded a"
  unfolding auth_bounded_def by blast

lemma bounded_fewer:
  assumes "auth_bounded a" "gm_ok (au_grants a')" "length (au_grants a') \<le> length (au_grants a)" "length (au_nonces a') \<le> length (au_nonces a)"
    "\<And>d g. gm_get (au_grants a') d = Some g \<Longrightarrow> gm_get (au_grants a) d = Some g"
  shows "auth_bounded a'"
proof -
  have "d = d'" if "gm_get (au_grants a') d = Some g" "gm_get (au_grants a') d' = Some g'" "lg_user g = lg_user g'" for d g d' g'
    using assms(1) assms(5) [OF that(1)] assms(5) [OF that(2)] that(3) unfolding auth_bounded_def by blast
  moreover have "length (au_grants a') \<le> 1000" "length (au_nonces a') \<le> 10000" using assms(1,3,4) by (simp_all add: auth_bounded_def)
  ultimately show ?thesis using assms(2) unfolding auth_bounded_def by blast
qed

lemma bounded_prune: "auth_bounded a \<Longrightarrow> auth_bounded (prune now a)"
  by (rule bounded_fewer [of a]) (simp_all add: prune_def auth_bounded_def length_gm_prune gm_prune_get_Some)

lemma bounded_revoke: "auth_bounded a \<Longrightarrow> auth_bounded (revoke u a)"
  by (rule bounded_fewer [of a]) (simp_all add: revoke_def auth_bounded_def length_gm_prune gm_prune_get_Some)

lemma bounded_same: "auth_bounded a \<Longrightarrow> au_grants a' = au_grants a \<Longrightarrow> au_nonces a' = au_nonces a \<Longrightarrow> auth_bounded a'"
  by (simp add: auth_bounded_def)

lemma bounded_nonces: "auth_bounded a \<Longrightarrow> au_grants a' = au_grants a \<Longrightarrow> length (au_nonces a') \<le> 10000 \<Longrightarrow> auth_bounded a'"
  by (simp add: auth_bounded_def)

lemma bounded_issue:
  assumes "auth_bounded a" "issue digest now au token r a = (res, a')"
  shows "auth_bounded a'"
proof -
  define b where "b = prune now a"
  define others where "others = gm_prune (\<lambda>k v. lg_user v = gq_user r) (au_grants b)"
  have b: "auth_bounded b" using assms(1) bounded_prune b_def by simp
  have o: "gm_ok others" "length others \<le> length (au_grants b)" using b by (auto simp: others_def auth_bounded_def length_gm_prune)
  have og: "gm_get others d = Some g \<longleftrightarrow> gm_get (au_grants b) d = Some g \<and> lg_user g \<noteq> gq_user r" for d g
    using b by (simp add: others_def auth_bounded_def gm_prune_get_Some)
  consider "a' = a" | "a' = b"
    | "length (au_grants b) < 1000" "au_grants a' = gm_put others (digest token) \<lparr>lg_user = gq_user r, lg_expires = now + 2 * minute_ns\<rparr>"
      "au_nonces a' = au_nonces b"
    using assms(2) unfolding issue_def Let_def b_def [symmetric] others_def [symmetric] by (simp split: sum.splits if_splits) auto
  then show ?thesis
  proof cases
    case 3
    have n: "au_grants a' = gm_put others (digest token) \<lparr>lg_user = gq_user r, lg_expires = now + 2 * minute_ns\<rparr>" using 3(2) .
    have "length (au_grants a') \<le> 1000" using 3(1) o(2)
      length_gm_put [of others "digest token" "\<lparr>lg_user = gq_user r, lg_expires = now + 2 * minute_ns\<rparr>"] unfolding n by linarith
    moreover have "length (au_nonces a') \<le> 10000" using 3(3) b by (simp add: auth_bounded_def)
    moreover have "d = d'" if e: "gm_get (au_grants a') d = Some g" "gm_get (au_grants a') d' = Some g'" "lg_user g = lg_user g'" for d g d' g'
    proof -
      have new: "(x = digest token \<and> lg_user y = gq_user r) \<or> (x \<noteq> digest token \<and> gm_get others x = Some y)"
        if "gm_get (au_grants a') x = Some y" for x y using that unfolding n gm_get_put by (cases "x = digest token") auto
      consider "d = digest token" "d' = digest token" | "gm_get others d = Some g" "gm_get others d' = Some g'"
        using new [OF e(1)] new [OF e(2)] e(3) og by metis
      then show ?thesis
      proof cases
        case 2
        then have "gm_get (au_grants b) d = Some g" "gm_get (au_grants b) d' = Some g'" using og by simp_all
        then show ?thesis using bounded_one [OF b] e(3) by blast
      qed simp
    qed
    moreover have "gm_ok (au_grants a')" unfolding n using o(1) by (rule gm_ok_put)
    ultimately show ?thesis by (intro bounded_intro)
  qed (use assms(1) b in simp_all)
qed

lemma bounded_login:
  assumes "auth_bounded a" "exchange_finish digest now au raw csrf p a = (res, a')"
  shows "auth_bounded a'"
proof -
  have "a' = a \<or> a' = prune now a \<or> (au_grants a' = gm_del (au_grants (prune now a)) (pl_grant p) \<and>
      au_nonces a' = gm_del (au_nonces (prune now a)) (pl_nonce p))"
    using assms(2) by (auto simp: exchange_finish_def Let_def split: sum.splits if_splits)
  moreover have "auth_bounded (prune now a)" using assms(1) by (rule bounded_prune)
  moreover from this have "auth_bounded a'" if "au_grants a' = gm_del (au_grants (prune now a)) (pl_grant p)"
    "au_nonces a' = gm_del (au_nonces (prune now a)) (pl_nonce p)"
    using that length_gm_del [of "au_grants (prune now a)" "pl_grant p"] length_gm_del [of "au_nonces (prune now a)" "pl_nonce p"]
    by (intro bounded_fewer [of "prune now a" a']) (simp_all add: auth_bounded_def split: if_splits)
  ultimately show ?thesis using assms(1) by blast
qed

lemma bounded_landing:
  assumes "auth_bounded a" "landing digest now token a = (res, a')"
  shows "auth_bounded a'"
proof -
  have "a' = prune now a \<or> (au_grants a' = au_grants (prune now a) \<and> length (au_nonces (prune now a)) < 10000 \<and>
      au_nonces a' = gm_put (au_nonces (prune now a)) (digest token) (now + 5 * minute_ns))"
    using assms(2) by (auto simp: landing_def Let_def split: if_splits)
  moreover have b: "auth_bounded (prune now a)" using assms(1) by (rule bounded_prune)
  moreover have "auth_bounded a'" if "au_grants a' = au_grants (prune now a)" "length (au_nonces (prune now a)) < 10000"
      "au_nonces a' = gm_put (au_nonces (prune now a)) (digest token) (now + 5 * minute_ns)"
    using length_gm_put [of "au_nonces (prune now a)" "digest token" "now + 5 * minute_ns"] that by (intro bounded_nonces [OF b]) simp_all
  ultimately show ?thesis by blast
qed

lemma bounded_step:
  assumes "auth_bounded (wb_auth w)" "web_step cfg digest w w'"
  shows "auth_bounded (wb_auth w')"
  using assms(2,1)
proof (cases rule: web_step.cases)
  case (issued token answer r res a)
  then show ?thesis using bounded_issue [OF assms(1) issued(3)] by (simp add: at_work_def)
next
  case (landed token res a)
  then show ?thesis using bounded_landing [OF assms(1) landed(2)] by (simp add: at_work_def)
next
  case (login_begins token nonce res a)
  have "a = prune (wb_now w) (wb_auth w)" using login_begins(2) by (auto simp: exchange_begin_def Let_def split: option.splits if_splits)
  then show ?thesis using login_begins(1) bounded_prune [OF assms(1)] by (simp add: at_work_def)
next
  case (login_ends p raw answer csrf res a)
  then show ?thesis using bounded_login [OF assms(1) login_ends(4)] by (simp add: at_work_def)
next
  case (check_begins raw res a)
  have "a = prune (wb_now w) (wb_auth w)" using check_begins(2) by (auto simp: check_begin_def Let_def split: option.splits)
  then show ?thesis using check_begins(1) bounded_prune [OF assms(1)] by (simp add: at_work_def)
next
  case (check_asks k s checked answer res a)
  have "a = wb_auth w \<or> a = revoke (uid s) (wb_auth w)" using check_asks(5) by (auto simp: check_refresh_def split: sum.splits)
  then show ?thesis using check_asks(1) assms(1) bounded_revoke by (auto simp: at_work_def)
next
  case (check_ends k s touch res a)
  have "au_grants a = au_grants (prune (wb_now w) (wb_auth w)) \<and> au_nonces a = au_nonces (prune (wb_now w) (wb_auth w))"
    using check_ends(3) by (auto simp: check_finish_def Let_def split: option.splits if_splits)
  then show ?thesis using check_ends(1) bounded_same [OF bounded_prune [OF assms(1)]] by (simp add: at_work_def)
next
  case (revoked user)
  then show ?thesis using bounded_revoke [OF assms(1)] by (simp add: at_work_def)
next
  case (logged_out raw)
  then show ?thesis using bounded_same [OF assms(1)] by (simp add: at_work_def logout_def)
qed simp

interpretation web_bounds: step_system web_start "web_step cfg digest" "\<lambda>w. auth_bounded (wb_auth w)"
proof unfold_locales
  show "auth_bounded (wb_auth w)" if "web_start w" for w using that by (simp add: web_start_def auth_bounded_def newAuth_def)
  show "auth_bounded (wb_auth w')" if "auth_bounded (wb_auth w)" "web_step cfg digest w w'" for w w' using bounded_step that by blast
qed

section \<open>Theorems\<close>

text \<open>C4. In every interleaving of issuing, signing in, checking, revoking and logging out, a sign-in uses a link that was issued to
  that very user after his last revocation and that nobody has used before, and an accepted check belongs to a session that its
  user signed in to after his last revocation.\<close>

theorem sign_in_is_lawful:
  assumes "reachable_from web_start (web_step cfg digest) w"
  shows "lawful (wb_events w)"
  using web_system.inv_reachable [OF assms] by (simp add: web_inv_def events_ok_def)

text \<open>However often links and login pages are asked for, at most a thousand links wait, at most one for each user, and at most ten
  thousand login pages are open.\<close>

theorem pending_logins_are_bounded:
  assumes "reachable_from web_start (web_step cfg digest) w"
  shows "length (au_grants (wb_auth w)) \<le> 1000 \<and> length (au_nonces (wb_auth w)) \<le> 10000 \<and>
    (\<forall>d g d' g'. gm_get (au_grants (wb_auth w)) d = Some g \<longrightarrow> gm_get (au_grants (wb_auth w)) d' = Some g' \<longrightarrow>
       lg_user g = lg_user g' \<longrightarrow> d = d')"
  using web_bounds.inv_reachable [OF assms] unfolding auth_bounded_def by blast

lemma gm_get_pruned:
  "gm_ok m \<Longrightarrow> gm_get (gm_prune p m) k = (case gm_get m k of None \<Rightarrow> None | Some v \<Rightarrow> if p k v then None else Some v)"
  by (rule gm_get_prune)

lemma check_runs:
  assumes "gm_ok (au_sessions a)" "check digest t0 t1 t2 authorized touch raw a = (Inr s, a')"
  obtains s0 s1 where "gm_get (au_sessions a) (digest raw) = Some s0"
    "if needs_refresh t0 s0 then \<exists>actor. authorized (uid s0) = Inr actor \<and> s1 = s0\<lparr>ss_actor := actor, ss_checked := t1\<rparr> else s1 = s0"
    "check_finish t2 touch (digest raw) s1 (prune t0 a) = (Inr s, a')"
proof -
  obtain s0 where s0: "gm_get (au_sessions (prune t0 a)) (digest raw) = Some s0"
    using assms(2) by (auto simp: check_def check_begin_def Let_def split: option.splits)
  then have g: "gm_get (au_sessions a) (digest raw) = Some s0" using assms(1) by (simp add: prune_def gm_prune_get_Some)
  have b: "check_begin digest t0 raw a = (Inr (digest raw, s0), prune t0 a)" using s0 by (simp add: check_begin_def)
  show thesis
  proof (cases "needs_refresh t0 s0")
    case True
    then obtain actor where "authorized (uid s0) = Inr actor"
      "check_finish t2 touch (digest raw) (s0\<lparr>ss_actor := actor, ss_checked := t1\<rparr>) (prune t0 a) = (Inr s, a')"
      using assms(2) b by (auto simp: check_def check_refresh_def split: sum.splits)
    then show thesis using that [OF g, of "s0\<lparr>ss_actor := actor, ss_checked := t1\<rparr>"] True by simp
  next
    case False
    then have "check_finish t2 touch (digest raw) s0 (prune t0 a) = (Inr s, a')" using assms(2) b by (simp add: check_def)
    then show thesis using that [OF g, of s0] False by simp
  qed
qed

lemma check_finish_some: "check_finish now touch k s1 a = (Inr s, a') \<Longrightarrow> gm_get (au_sessions (prune now a)) k \<noteq> None"
  by (auto simp: check_finish_def Let_def split: option.splits)

lemma prune_twice_get: "gm_ok (au_sessions a) \<Longrightarrow> gm_get (au_sessions (prune t (prune t0 a))) k \<noteq> None \<Longrightarrow>
    gm_get (au_sessions (prune t0 a)) k = gm_get (au_sessions a) k"
  by (auto simp: prune_def gm_get_prune split: option.splits if_splits)

lemma check_finish_session:
  assumes "gm_ok (au_sessions a)" "gm_get (au_sessions a) k = Some s0" "ss_checked s0 \<le> ss_checked s1"
    "ss_actor s1 = ss_actor s0 \<or> ss_checked s0 < ss_checked s1" "check_finish now touch k s1 a = (Inr s, a')"
  shows "ss_actor s = ss_actor s1 \<and> ss_checked s = ss_checked s1 \<and> ss_created s = ss_created s0 \<and> ss_csrf s = ss_csrf s0 \<and>
    now - ss_created s < SessionLife \<and> now - ss_seen s < SessionIdle \<and> gm_get (au_sessions a') k = Some s"
proof -
  have "gm_get (au_sessions (prune now a)) k = Some s0 \<and> now - ss_created s0 < SessionLife \<and> now - ss_seen s0 < SessionIdle"
    using assms(5) assms(1,2) by (auto simp: check_finish_def Let_def prune_def gm_get_prune split: option.splits if_splits)
  then show ?thesis using assms(3,4,5) by (auto simp: check_finish_def Let_def SessionIdle_def split: if_splits)
qed

text \<open>C13. A protected handler runs only for a session that exists under the cookie, is younger than eight hours, was used within
  half an hour and was checked against the roles less than a minute before; an administrator handler only for an administrator,
  and a changing request only from the own origin and with the token of the session.\<close>

theorem handler_runs_only_for_a_valid_session:
  assumes "gm_ok (au_sessions a)" "t0 \<le> t1"
    and "check digest t0 t1 t2 (\<lambda>u. authorize cfg (answer u) u) (\<not> reads_only r) raw a = (checked, a')"
    and "protected digest origin admin r checked = Inr s"
  shows "wr_cookie r \<noteq> None \<and> (admin \<longrightarrow> ac_admin (ss_actor s)) \<and>
    (\<not> reads_only r \<longrightarrow> wr_origin r = origin \<and> digest (wr_csrf r) = digest (ss_csrf s)) \<and>
    t2 - ss_created s < SessionLife \<and> t2 - ss_seen s < SessionIdle \<and> t0 - ss_checked s < minute_ns \<and>
    gm_get (au_sessions a') (digest raw) = Some s \<and>
    (\<exists>s0. gm_get (au_sessions a) (digest raw) = Some s0 \<and> ss_csrf s = ss_csrf s0 \<and> ss_created s = ss_created s0 \<and>
       (ss_actor s = ss_actor s0 \<and> t0 - ss_checked s0 < minute_ns \<or> authorize cfg (answer (uid s0)) (uid s0) = Inr (ss_actor s)))"
proof -
  have p: "checked = Inr s" "wr_cookie r \<noteq> None" "admin \<longrightarrow> ac_admin (ss_actor s)"
    "\<not> reads_only r \<longrightarrow> wr_origin r = origin \<and> digest (wr_csrf r) = digest (ss_csrf s)"
    using assms(4) by (auto simp: protected_def sameOrigin_def split: option.splits sum.splits if_splits)
  obtain s0 s1 where g: "gm_get (au_sessions a) (digest raw) = Some s0"
    and s1: "if needs_refresh t0 s0 then \<exists>actor. authorize cfg (answer (uid s0)) (uid s0) = Inr actor \<and>
      s1 = s0\<lparr>ss_actor := actor, ss_checked := t1\<rparr> else s1 = s0"
    and f: "check_finish t2 (\<not> reads_only r) (digest raw) s1 (prune t0 a) = (Inr s, a')"
    by (rule check_runs [OF assms(1) assms(3) [unfolded p(1)]])
  have young: "ss_checked s0 \<le> ss_checked s1" "ss_actor s1 = ss_actor s0 \<or> ss_checked s0 < ss_checked s1" "t0 - ss_checked s1 < minute_ns"
    using s1 assms(2) by (auto simp: needs_refresh_def split: if_splits)
  have b: "gm_ok (au_sessions (prune t0 a))" "gm_get (au_sessions (prune t0 a)) (digest raw) = Some s0"
    using prune_twice_get [OF assms(1) check_finish_some [OF f]] assms(1) g by (simp_all add: prune_def)
  note done1 = check_finish_session [OF b young(1,2) f]
  have "ss_actor s = ss_actor s0 \<and> t0 - ss_checked s0 < minute_ns \<or> authorize cfg (answer (uid s0)) (uid s0) = Inr (ss_actor s)"
    using s1 done1 by (auto simp: needs_refresh_def split: if_splits)
  then show ?thesis using done1 young(3) p(2-4) g by auto
qed

text \<open>
  C27. A user who has lost his roles is refused at the first check of a live session of his that comes a minute or more after
  the last check of its roles, and then loses every session and every link at once.  (Within that minute the session is served
  without asking Discord again.)
\<close>

theorem lost_roles_end_every_session:
  assumes "gm_ok (au_sessions a)" "gm_ok (au_grants a)" "gm_get (au_sessions a) (digest raw) = Some s"
    and "t0 - ss_created s < SessionLife" "t0 - ss_seen s < SessionIdle" "minute_ns \<le> t0 - ss_checked s"
    and "authorized (uid s) = Inl e"
    and "check digest t0 t1 t2 authorized touch raw a = (res, a')"
  shows "res = Inl e \<and> (\<forall>k s'. gm_get (au_sessions a') k = Some s' \<longrightarrow> uid s' \<noteq> uid s) \<and>
    (\<forall>d g. gm_get (au_grants a') d = Some g \<longrightarrow> lg_user g \<noteq> uid s)"
proof -
  have "gm_get (au_sessions (prune t0 a)) (digest raw) = Some s" using assms(1,3,4,5) by (simp add: prune_def gm_get_prune)
  then have "res = Inl e \<and> a' = revoke (uid s) (prune t0 a)"
    using assms(6,7,8) by (simp add: check_def check_begin_def needs_refresh_def check_refresh_def)
  then show ?thesis using assms(1,2) by (auto simp: revoke_def prune_def gm_prune_get_Some)
qed

section \<open>Witnesses\<close>

definition demo_roles :: role_config where
  "demo_roles = \<lparr>rc_guild = ''g'', rc_admin_roles = [''adm''], rc_moderator_roles = [''mod'']\<rparr>"

definition demo_member :: authorization where
  "demo_member = \<lparr>az_user = ''7'', az_name = ''Ann'', az_guild = ''g'', az_roles = [''x'', ''mod'']\<rparr>"

definition demo_auth :: "string \<Rightarrow> string + actor" where "demo_auth = authorize demo_roles (Some demo_member)"

definition demo_issued :: auth where
  "demo_issued = snd (issue id 0 (demo_auth ''7'') ''tok'' \<lparr>gq_user = ''7'', gq_interaction = ''i''\<rparr> newAuth)"
definition demo_landed :: auth where "demo_landed = snd (landing id 0 ''page'' demo_issued)"
definition demo_begun :: auth where "demo_begun = snd (exchange_begin id 0 ''tok'' ''page'' demo_landed)"
definition demo_login :: pending_login where "demo_login = \<lparr>pl_grant = ''tok'', pl_nonce = ''page'', pl_user = ''7'', pl_epoch = 0\<rparr>"
definition demo_signed :: auth where "demo_signed = snd (exchange_finish id 0 (demo_auth ''7'') ''raw'' ''csrf'' demo_login demo_begun)"
definition demo_session :: session where
  "demo_session = \<lparr>ss_actor = \<lparr>ac_id = ''7'', ac_name = ''Ann'', ac_admin = False\<rparr>, ss_csrf = ''csrf'', ss_created = 0, ss_seen = 0, ss_checked = 0, ss_epoch = 0\<rparr>"
definition demo_checked :: auth where "demo_checked = snd (check_begin id 0 ''raw'' demo_signed)"
definition demo_accepted :: auth where "demo_accepted = snd (check_finish 0 True ''raw'' demo_session demo_checked)"

lemma demo_results:
  "issue id 0 (demo_auth ''7'') ''tok'' \<lparr>gq_user = ''7'', gq_interaction = ''i''\<rparr> newAuth = (Inr (''tok'', 2 * minute_ns), demo_issued)"
  "landing id 0 ''page'' demo_issued = (Inr ''page'', demo_landed)"
  "exchange_begin id 0 ''tok'' ''page'' demo_landed = (Inr demo_login, demo_begun)"
  "exchange_finish id 0 (demo_auth ''7'') ''raw'' ''csrf'' demo_login demo_begun = (Inr (''raw'', demo_session), demo_signed)"
  "check_begin id 0 ''raw'' demo_signed = (Inr (''raw'', demo_session), demo_checked)"
  "check_finish 0 True ''raw'' demo_session demo_checked = (Inr demo_session, demo_accepted)"
  by code_simp+

definition demo_world :: "auth \<Rightarrow> pending_login set \<Rightarrow> (string \<times> session) set \<Rightarrow> web_event list \<Rightarrow> web_service" where
  "demo_world a ls cs es = \<lparr>wb_now = 0, wb_auth = a, wb_logins = ls, wb_checks = cs, wb_events = es\<rparr>"

lemma demo_world_simps [simp]:
  "wb_now (demo_world a ls cs es) = 0" "wb_auth (demo_world a ls cs es) = a" "wb_logins (demo_world a ls cs es) = ls"
  "wb_checks (demo_world a ls cs es) = cs" "wb_events (demo_world a ls cs es) = es"
  "at_work (demo_world a ls cs es) a' es' = demo_world a' ls cs (es' @ es)"
  "(demo_world a ls cs es)\<lparr>wb_logins := ls'\<rparr> = demo_world a ls' cs es" "(demo_world a ls cs es)\<lparr>wb_checks := cs'\<rparr> = demo_world a ls cs' es"
  by (simp_all add: demo_world_def at_work_def)

lemma demo_reachable_world:
  "reachable_from web_start (web_step demo_roles id)
     (demo_world demo_accepted {demo_login} {(''raw'', demo_session)}
        [Accepted ''raw'' ''7'', SignedIn ''tok'' ''raw'' ''7'', Issued ''tok'' ''7''])"
proof -
  let ?R = "reachable_from web_start (web_step demo_roles id)"
  have "?R (demo_world newAuth {} {} [])" by (rule reach_start) (simp add: web_start_def)
  then have "?R (demo_world demo_issued {} {} [Issued ''tok'' ''7''])"
    using web_step.issued [of id "''tok''" "demo_world newAuth {} {} []" demo_roles "Some demo_member" "\<lparr>gq_user = ''7'', gq_interaction = ''i''\<rparr>"]
      demo_results(1) reach_step by (fastforce simp: fresh_digest_def demo_auth_def)
  then have "?R (demo_world demo_landed {} {} [Issued ''tok'' ''7''])"
    using web_step.landed [of id "demo_world demo_issued {} {} [Issued ''tok'' ''7'']" "''page''"] demo_results(2) reach_step by fastforce
  then have "?R (demo_world demo_begun {demo_login} {} [Issued ''tok'' ''7''])"
    using web_step.login_begins [of id "demo_world demo_landed {} {} [Issued ''tok'' ''7'']" "''tok''" "''page''"] demo_results(3) reach_step by fastforce
  then have "?R (demo_world demo_signed {demo_login} {} [SignedIn ''tok'' ''raw'' ''7'', Issued ''tok'' ''7''])"
    using web_step.login_ends [of demo_login "demo_world demo_begun {demo_login} {} [Issued ''tok'' ''7'']" id "''raw''" demo_roles "Some demo_member" "''csrf''"]
      demo_results(4) reach_step by (fastforce simp: fresh_digest_def demo_auth_def demo_login_def)
  then have "?R (demo_world demo_checked {demo_login} {(''raw'', demo_session)} [SignedIn ''tok'' ''raw'' ''7'', Issued ''tok'' ''7''])"
    using web_step.check_begins [of id "demo_world demo_signed {demo_login} {} [SignedIn ''tok'' ''raw'' ''7'', Issued ''tok'' ''7'']" "''raw''"]
      demo_results(5) reach_step by fastforce
  then show ?thesis
    using web_step.check_ends [of "''raw''" demo_session "demo_world demo_checked {demo_login} {(''raw'', demo_session)} [SignedIn ''tok'' ''raw'' ''7'', Issued ''tok'' ''7'']" True]
      demo_results(6) reach_step by (fastforce simp: demo_session_def)
qed

theorem sign_in_is_lawful_witness: "lawful [Accepted ''raw'' ''7'', SignedIn ''tok'' ''raw'' ''7'', Issued ''tok'' ''7'']"
  using sign_in_is_lawful [OF demo_reachable_world] by simp

theorem pending_logins_are_bounded_witness: "length (au_grants demo_accepted) \<le> 1000 \<and> length (au_nonces demo_accepted) \<le> 10000"
  using pending_logins_are_bounded [OF demo_reachable_world] by simp

definition demo_post :: web_request where
  "demo_post = \<lparr>wr_method = ''POST'', wr_cookie = Some ''raw'', wr_origin = ''https://cw'', wr_csrf = ''csrf''\<rparr>"

lemma demo_signed_ok: "gm_ok (au_sessions demo_signed)" "gm_ok (au_grants demo_signed)"
  "gm_get (au_sessions demo_signed) ''raw'' = Some demo_session"
  unfolding gm_ok_def gm_keys_def by code_simp+

theorem handler_runs_only_for_a_valid_session_witness:
  "minute_ns - ss_checked (demo_session\<lparr>ss_seen := minute_ns, ss_checked := minute_ns\<rparr>) < minute_ns \<and>
   authorize demo_roles (Some demo_member) ''7'' = Inr (ss_actor demo_session)"
proof -
  let ?s = "demo_session\<lparr>ss_seen := minute_ns, ss_checked := minute_ns\<rparr>"
  have c: "fst (check id minute_ns minute_ns minute_ns (\<lambda>u. authorize demo_roles (Some demo_member) u) True ''raw'' demo_signed) = Inr ?s"
    by code_simp
  have r: "\<not> reads_only demo_post" by code_simp
  have "check id minute_ns minute_ns minute_ns (\<lambda>u. authorize demo_roles (Some demo_member) u) (\<not> reads_only demo_post) ''raw'' demo_signed =
      (Inr ?s, snd (check id minute_ns minute_ns minute_ns (\<lambda>u. authorize demo_roles (Some demo_member) u) True ''raw'' demo_signed))"
    using c r by (simp add: prod_eq_iff)
  moreover have "protected id ''https://cw'' False demo_post (Inr ?s) = Inr ?s" by code_simp
  ultimately show ?thesis
    using handler_runs_only_for_a_valid_session [of demo_signed minute_ns minute_ns id minute_ns demo_roles "\<lambda>_. Some demo_member" demo_post "''raw''" "Inr ?s"]
      demo_signed_ok by (force simp: demo_session_def)
qed

theorem lost_roles_end_every_session_witness:
  "fst (check id minute_ns minute_ns minute_ns (authorize demo_roles None) True ''raw'' demo_signed) = Inl ''cannot verify Discord membership''"
  using lost_roles_end_every_session [of demo_signed id "''raw''" demo_session minute_ns "authorize demo_roles None"
      "''cannot verify Discord membership''" minute_ns minute_ns True] demo_signed_ok
  by (simp add: demo_session_def SessionLife_def SessionIdle_def authorize_def prod_eq_iff)

end
