(* ===== verification/Lifecycle_World.thy ===== *)
theory Lifecycle_World
  imports Lifecycle_Properties
begin

text \<open>
  The lifecycle manager next to the processes of the operating system.  Which processes really live is a component of its own,
  apart from what the manager believes: a process leaves it only by dying, and enters it only by a launch that succeeds.  What the
  manager is told is true: a probe finds the current process dead, and an exit is reported, only when the process is gone.
\<close>

section \<open>Processes and steps\<close>

record lc_world =
  lw_lm :: lifecycle
  lw_alive :: "uint64 set"

text \<open>During a step every report of a death concerns a process that is not among \<open>A\<close>, those that live to its end.\<close>

definition truthful :: "uint64 set \<Rightarrow> uint64 \<Rightarrow> poll list \<Rightarrow> bool" where
  "truthful A generation polls \<longleftrightarrow>
     (\<forall>p \<in> set polls. (\<not> poll_alive p \<longrightarrow> generation \<notin> A) \<and> (\<forall>gen err. poll_event p = WExit gen err \<longrightarrow> gen \<notin> A))"

text \<open>The processes that a step has started, if launches succeed: all launches it adds to the trace.\<close>

definition spawned :: "lc_env \<Rightarrow> lifecycle \<Rightarrow> lifecycle \<Rightarrow> uint64 set" where
  "spawned env lm lm' = (case e_launch env of Inl _ \<Rightarrow> {} | Inr _ \<Rightarrow>
     {g. \<exists>s. Launch g s \<in> set (drop (length (launches lm)) (launches lm'))})"

definition launch_env :: "lc_env \<Rightarrow> lc_env \<Rightarrow> request \<Rightarrow> lc_env" where
  "launch_env env after req = (if r_kind req = ActionStart then env else after)"

inductive world_step :: "lc_world \<Rightarrow> lc_world \<Rightarrow> bool" where
  process_dies: "world_step w (w\<lparr>lw_alive := lw_alive w - {g}\<rparr>)"
| world_exit: "g \<notin> lw_alive w \<Longrightarrow> world_step w (w\<lparr>lw_lm := handleExitEvent env g err (lw_lm w)\<rparr>)"
| world_ready: "world_step w (w\<lparr>lw_lm := handleReadyEvent env g (lw_lm w)\<rparr>)"
| world_progress: "world_step w (w\<lparr>lw_lm := handleProgressEvent env g kind detail at (lw_lm w)\<rparr>)"
| world_health: "(\<not> e_alive env \<longrightarrow> lm_generation (lw_lm w) \<notin> lw_alive w) \<Longrightarrow>
    world_step w (w\<lparr>lw_lm := handleHealthEvent env g kind msg (lw_lm w)\<rparr>)"
| world_softmod: "world_step w (w\<lparr>lw_lm := NotifySoftModDetected g (lw_lm w)\<rparr>)"
| world_reconcile: "(\<not> e_alive env \<longrightarrow> lm_generation (lw_lm w) \<notin> lw_alive w) \<Longrightarrow>
    world_step w (w\<lparr>lw_lm := snd (reconcileProcessHealth env (lw_lm w))\<rparr>)"
| world_timeout: "world_step w (w\<lparr>lw_lm := checkStartupTimeout env dur rid (lw_lm w)\<rparr>)"
| world_recovery: "world_step w (w\<lparr>lw_lm := checkSoftModAfterUpdate env (lw_lm w)\<rparr>)"
| world_submit: "world_step w (w\<lparr>lw_lm := snd (submitLifecycleRequest env req (lw_lm w))\<rparr>)"
| world_request: "nextRequest env (lw_lm w) = Some (req, lm1) \<Longrightarrow> execute env after polls req lm1 = Some lm' \<Longrightarrow>
    A \<subseteq> lw_alive w \<Longrightarrow> truthful A (lm_generation (lw_lm w)) polls \<Longrightarrow>
    world_step w \<lparr>lw_lm = lm', lw_alive = A \<union> spawned (launch_env env after req) (lw_lm w) lm'\<rparr>"
| world_auto: "shouldAutoStart env (lw_lm w) \<Longrightarrow> execute env after polls (auto_request rid) (lw_lm w) = Some lm' \<Longrightarrow>
    A \<subseteq> lw_alive w \<Longrightarrow> truthful A (lm_generation (lw_lm w)) polls \<Longrightarrow>
    world_step w \<lparr>lw_lm = lm', lw_alive = A \<union> spawned (launch_env env after (auto_request rid)) (lw_lm w) lm'\<rparr>"
| world_shutdown: "world_step w (w\<lparr>lw_lm := cancelPendingRequests ((lw_lm w)\<lparr>lm_shutdown := True\<rparr>)\<rparr>)"
| world_players: "world_step w (w\<lparr>lw_lm := (lw_lm w)\<lparr>g_players := n\<rparr>\<rparr>)"
| world_autolaunch: "world_step w (w\<lparr>lw_lm := SetAutolaunch b (lw_lm w)\<rparr>)"
| world_updated: "world_step w (w\<lparr>lw_lm := (lw_lm w)\<lparr>g_update_pending := True\<rparr>\<rparr>)"
| world_pipe: "world_step w (w\<lparr>lw_lm := (lw_lm w)\<lparr>g_pipe := b\<rparr>\<rparr>)"

definition world_start :: "lc_world \<Rightarrow> bool" where
  "world_start w \<longleftrightarrow> lc_start (lw_lm w) \<and> lw_alive w = {}"

section \<open>The manager knows which process lives\<close>

definition core :: "lifecycle \<Rightarrow> phase \<times> uint64" where
  "core lm = (lm_phase lm, lm_generation lm)"

text \<open>Of the processes in \<open>A\<close> the manager believes that they may live.\<close>

definition knows :: "uint64 set \<Rightarrow> lifecycle \<Rightarrow> bool" where
  "knows A lm \<longleftrightarrow> A \<subseteq> (if lm_phase lm = Stopped then {} else {lm_generation lm})"

lemma knows_cong: "core lm' = core lm \<Longrightarrow> knows A lm' = knows A lm"
  by (simp add: knows_def core_def)

lemma knows_mono: "knows A lm \<Longrightarrow> B \<subseteq> A \<Longrightarrow> knows B lm"
  by (auto simp: knows_def)

lemma core_fields [simp]:
  "core (emit e lm) = core lm" "core (syncCompatibilityLocked lm) = core lm" "core (clear_op lm) = core lm"
  "core (SetAutolaunch b lm) = core lm" "core (finishOperationError env err lm) = core lm"
  "core (updateOperationProgress env d lm) = core lm" "core (updateOperationProgressDelayedWithReminder env d r0 t lm) = core lm"
  "core (beginOperation env req lm) = core lm" "core (enqueue r lm) = core lm" "core (reply req er lm) = core lm"
  "core (handleProgressEvent env g k d t lm) = core lm" "core (NotifySoftModDetected g lm) = core lm"
  "core (checkSoftModAfterUpdate env lm) = core lm"
  by (simp_all add: core_def emit_def clear_op_def SetAutolaunch_def finishOperationError_def updateOperationProgress_def
      updateOperationProgressDelayedWithReminder_def beginOperation_def Let_def split_def enqueue_def reply_def
      handleProgressEvent_def NotifySoftModDetected_def checkSoftModAfterUpdate_def)

lemma core_count_crash [simp]: "core (count_crash env t lm) = core lm"
  by (simp add: count_crash_def Let_def core_def SetAutolaunch_def)

lemma core_finalize:
  "core (finalizeStopped env g err rep lm) =
     (if g \<noteq> lm_generation lm \<and> g \<noteq> 0 then core lm else (Stopped, lm_generation lm))"
proof -
  have m: "core (mark_stopped env c ee lm) = (Stopped, lm_generation lm)" for c ee
    by (simp add: mark_stopped_def core_def Let_def clear_op_def)
  have ops: "core (x\<lparr>lm_ops := y\<rparr>) = core x" for x y by (simp add: core_def)
  show ?thesis unfolding finalizeStopped_def Let_def
    by (simp add: ops m) (simp add: core_def)
qed

lemma knows_finalize:
  assumes "knows A lm" "g = lm_generation lm \<or> g = 0 \<longrightarrow> lm_generation lm \<notin> A"
  shows "knows A (finalizeStopped env g err rep lm)"
proof (cases "g \<noteq> lm_generation lm \<and> g \<noteq> 0")
  case True
  then show ?thesis using assms(1) knows_cong core_finalize by metis
next
  case False
  then have "A = {}" using assms by (auto simp: knows_def split: if_splits)
  then show ?thesis by (simp add: knows_def)
qed

lemma knows_exit: "knows A lm \<Longrightarrow> g \<notin> A \<Longrightarrow> knows A (handleExitEvent env g err lm)"
  by (auto simp: handleExitEvent_def intro: knows_finalize)

lemma core_ready: "core (handleReadyEvent env g lm) =
    (if g \<noteq> lm_generation lm \<or> lm_phase lm \<noteq> Starting then core lm else (Running, lm_generation lm))"
  by (auto simp: handleReadyEvent_def core_def Let_def clear_op_def split: option.split action_kind.split)

lemma knows_ready: "knows A lm \<Longrightarrow> knows A (handleReadyEvent env g lm)"
  using core_ready [of env g lm] by (auto simp: knows_def core_def split: if_splits)

lemma generation_kept:
  "lm_generation (finalizeStopped env g err rep lm) = lm_generation lm"
  "lm_generation (handleExitEvent env g err lm) = lm_generation lm"
  "lm_generation (handleReadyEvent env g lm) = lm_generation lm"
  "lm_generation (handleProgressEvent env g k d t lm) = lm_generation lm"
proof -
  show f: "lm_generation (finalizeStopped env g err rep lm) = lm_generation lm" for err rep
    using core_finalize [of env g err rep lm] by (auto simp: core_def split: if_splits)
  show "lm_generation (handleExitEvent env g err lm) = lm_generation lm" by (simp add: handleExitEvent_def f)
  show "lm_generation (handleReadyEvent env g lm) = lm_generation lm"
    using core_ready [of env g lm] by (auto simp: core_def split: if_splits)
  show "lm_generation (handleProgressEvent env g k d t lm) = lm_generation lm"
    using core_fields(11) [of env g k d t lm] by (simp add: core_def)
qed

lemma knows_wait:
  assumes "knows A lm" "truthful A g ps" "g = lm_generation lm" "waitForStop env g dl allow seen ps lm = Some (b, t, lm', rest)"
  shows "knows A lm' \<and> lm_generation lm' = lm_generation lm \<and> truthful A g rest"
  using assms
proof (induction env g dl allow seen ps lm rule: waitForStop.induct)
  case (2 env g dl allow seen p ps lm)
  have rest: "truthful A g ps" and dead: "\<not> poll_alive p \<Longrightarrow> g \<notin> A" and exit: "\<And>gen err. poll_event p = WExit gen err \<Longrightarrow> gen \<notin> A"
    using 2(7) by (auto simp: truthful_def)
  show ?case
  proof (cases "\<not> poll_alive p")
    case True
    then show ?thesis using 2(6,8,9) rest dead by (auto simp: Let_def generation_kept intro!: knows_finalize)
  next
    case False
    note alive = this
    show ?thesis
    proof (cases "extend_deadline lm dl < poll_now p")
      case True
      then show ?thesis using 2(6,8,9) rest alive by (auto simp: Let_def)
    next
      case False
      note go = 2(1-5) [OF refl refl _ False]
      show ?thesis
      proof (cases "poll_event p")
        case (WExit gen err)
        then show ?thesis using 2(1) 2(6,8,9) rest alive False knows_exit [OF 2(6) exit [OF WExit]]
          by (auto simp: Let_def generation_kept split: if_splits)
      next
        case (WGoodbye gen)
        then show ?thesis using 2(2) 2(6,8,9) rest alive False by (auto simp: Let_def)
      next
        case (WReady gen)
        then show ?thesis using 2(3) 2(6,8,9) rest alive False knows_ready [OF 2(6)]
          by (auto simp: Let_def generation_kept split: if_splits)
      next
        case (WProgress gen k d at)
        then show ?thesis using 2(4) 2(6,8,9) rest alive False knows_cong [OF core_fields(11)]
          by (auto simp: Let_def generation_kept split: if_splits)
      next
        case WTick
        then show ?thesis using 2(5) 2(6,8,9) rest alive False by (auto simp: Let_def)
      qed
    qed
  qed
qed simp

lemma core_begin_stop: "core (begin_stop env r lm) = (Stopping, lm_generation lm)"
proof -
  have w: "core (stop_warning r' x) = core x" for r' x by (simp add: stop_warning_def)
  show ?thesis by (auto simp: begin_stop_def Let_def w) (auto simp: core_def)
qed

lemma knows_stop:
  assumes "knows A lm" "truthful A (lm_generation lm) polls" "executeStop env r polls lm = Some (err, lm')"
  shows "knows A lm'"
proof (cases "lm_phase lm = Stopped")
  case True
  then show ?thesis using assms(1,3) by (auto simp: executeStop_def knows_def)
next
  case False
  define g where "g = lm_generation lm"
  define b where "b = begin_stop env r lm"
  have b: "knows A b" "lm_generation b = g"
    using assms(1) False core_begin_stop [of env r lm] by (auto simp: knows_def core_def b_def g_def)
  note wait = knows_wait [of A _ g]
  obtain ok t lm1 ps where 1: "waitForStop env g (e_now env + lifecycleStopGraceTimeout) False False polls b = Some (ok, t, lm1, ps)"
    using assms(3) False by (auto simp: executeStop_def Let_def b_def g_def split: option.splits)
  have k1: "knows A lm1" "lm_generation lm1 = g" "truthful A g ps"
    using knows_wait [OF b(1) _ _ 1] assms(2) b(2) by (simp_all add: g_def)
  show ?thesis
  proof (cases ok)
    case True
    then show ?thesis using assms(3) False 1 k1(1) by (simp add: executeStop_def Let_def b_def g_def)
  next
    case nok: False
    have i: "knows A (emit InterruptProcess lm1)" using k1(1) knows_cong [of "emit InterruptProcess lm1" lm1] by simp
    obtain ok2 t2 lm2 ps2 where 2: "waitForStop env g (t + lifecycleStopInterruptTimeout) True False ps (emit InterruptProcess lm1) = Some (ok2, t2, lm2, ps2)"
      using assms(3) False 1 nok by (auto simp: executeStop_def Let_def b_def g_def split: option.splits)
    have k2: "knows A lm2" "lm_generation lm2 = g" "truthful A g ps2" using knows_wait [OF i k1(3) _ 2] k1(2) by simp_all
    show ?thesis
    proof (cases ok2)
      case True
      then show ?thesis using assms(3) False 1 2 nok k2(1) by (simp add: executeStop_def Let_def b_def g_def)
    next
      case nok2: False
      have i2: "knows A (emit KillProcess lm2)" using k2(1) knows_cong [of "emit KillProcess lm2" lm2] by simp
      obtain ok3 t3 lm3 ps3 where 3: "waitForStop env g (t2 + lifecycleStopKillTimeout) True False ps2 (emit KillProcess lm2) = Some (ok3, t3, lm3, ps3)"
        using assms(3) False 1 2 nok nok2 by (auto simp: executeStop_def Let_def b_def g_def split: option.splits)
      have k3: "knows A lm3" using knows_wait [OF i2 k2(3) _ 3] k2(2) by simp
      have "lm' = lm3 \<or> lm' = lm3\<lparr>lm_last_error := ''Factorio stop timed out''\<rparr>"
        using assms(3) False 1 2 3 nok nok2 by (cases ok3) (simp_all add: executeStop_def Let_def b_def g_def)
      then show ?thesis using k3 by (auto simp: knows_def)
    qed
  qed
qed

section \<open>Starting and requests\<close>

text \<open>A start of the process, when the manager begins it, leaves at most the new one.\<close>

lemma knows_start:
  assumes "knows A lm" "executeStart env save lm = (err, lm')" "launches lm = launches lm0"
  shows "knows (A \<union> spawned env lm0 lm') lm'"
proof (cases "lm_phase lm = Stopped \<and> \<not> e_update env \<and> \<not> e_modop env \<and> e_within_hours env")
  case False
  have "core lm' = core lm \<and> launches lm' = launches lm"
    using assms(2) False by (cases "lm_phase lm") (auto simp: executeStart_def core_def launches_def split: if_splits)
  moreover from this have "spawned env lm0 lm' = {}" using assms(3) by (auto simp: spawned_def split: sum.splits)
  ultimately show ?thesis using assms(1) knows_cong [of lm' lm] by simp
next
  case True
  then have A: "A = {}" using assms(1) by (simp add: knows_def)
  show ?thesis
  proof (cases "e_launch env")
    case (Inl e)
    then show ?thesis using A by (simp add: knows_def spawned_def)
  next
    case (Inr pid)
    have "lm_phase lm' = Starting \<and> lm_generation lm' = lm_generation lm + 1 \<and> launches lm' = launches lm @ [Launch (lm_generation lm + 1) save]"
      using assms(2) True Inr by (auto simp: executeStart_def Let_def launches_def)
    then show ?thesis using A Inr assms(3) by (auto simp: knows_def spawned_def)
  qed
qed

lemma knows_same: "knows A lm' \<Longrightarrow> launches lm' = launches lm0 \<Longrightarrow> knows (A \<union> spawned env lm0 lm') lm'"
  by (auto simp: spawned_def split: sum.splits)

lemma core_doChange: "doChangeMapAfterStop env lm = (e, lm') \<Longrightarrow> core lm' = core lm"
  by (auto simp: doChangeMapAfterStop_def core_def split: option.splits)

lemma knows_run_action:
  assumes "knows A lm" "truthful A (lm_generation lm) polls" "run_action env after polls req lm = Some (err, lm')"
    "launches lm = launches lm0"
  shows "knows (A \<union> spawned (launch_env env after req) lm0 lm') lm'"
proof -
  have stop: "knows A lm2 \<and> launches lm2 = launches lm0"
    if "executeStop env (r_reason req) polls lm1 = Some (e, lm2)" "core lm1 = core lm" "launches lm1 = launches lm" for lm1 e lm2
    using knows_stop [OF _ _ that(1), of A] knows_cong [OF that(2)] assms(1,2,4) that(2,3) books_split [OF books_executeStop [OF that(1)]]
    by (simp add: core_def)
  have auto: "knows A (SetAutolaunch b x) = knows A x" "launches (SetAutolaunch b x) = launches x" for b x
    using knows_cong [of "SetAutolaunch b x" x] books_split [of "SetAutolaunch b x" x] by simp_all
  have start: "knows (A \<union> spawned after lm0 lm2) lm2" if "executeStart after save lm1 = (e, lm2)" "knows A lm1" "launches lm1 = launches lm0" for save lm1 e lm2
    using knows_start [OF that(2,1,3)] .
  show ?thesis
  proof (cases "r_kind req")
    case ActionStart
    then show ?thesis using assms knows_start [OF assms(1) _ assms(4)] by (auto simp: run_action_def launch_env_def)
  next
    case ActionStop
    then have "executeStop env (r_reason req) polls lm = Some (err, lm')" using assms(3) by (simp add: run_action_def)
    then show ?thesis using stop knows_same by blast
  next
    case ActionRestartFactorio
    then obtain e1 lm1 where 1: "executeStop env (r_reason req) polls lm = Some (e1, lm1)"
      using assms(3) by (auto simp: run_action_def split: option.splits)
    show ?thesis
      using ActionRestartFactorio assms(3) 1 stop [OF 1 refl refl] start knows_same
      by (cases e1) (auto simp: run_action_def launch_env_def)
  next
    case ActionRestartChatWire
    then obtain e1 lm1 where 1: "executeStop env (r_reason req) polls lm = Some (e1, lm1)"
      using assms(3) by (auto simp: run_action_def split: option.splits)
    have k: "knows A lm1" "launches lm1 = launches lm0" using stop [OF 1 refl refl] by simp_all
    have "core lm' = core lm1 \<and> launches lm' = launches lm1"
      using ActionRestartChatWire assms(3) 1
      by (cases e1) (auto simp: run_action_def launches_def split: if_splits option.splits)
    moreover from this have "knows A lm'" using k knows_cong [of lm' lm1] by simp
    ultimately show ?thesis using k(2) by (intro knows_same) simp_all
  next
    case ActionChangeMap
    then obtain e1 lm1 where 1: "executeStop env (r_reason req) polls (SetAutolaunch False lm) = Some (e1, lm1)"
      using assms(3) by (auto simp: run_action_def Let_def split: option.splits)
    have k: "knows A lm1" "launches lm1 = launches lm0" using stop [OF 1] auto by simp_all
    obtain e2 lm2 where 2: "doChangeMapAfterStop after lm1 = (e2, lm2)" by (cases "doChangeMapAfterStop after lm1")
    have k2: "knows A lm2" "launches lm2 = launches lm0"
      using k knows_cong [OF core_doChange [OF 2]] books_split [OF books_doChange [OF 2]] by simp_all
    show ?thesis
      using ActionChangeMap assms(3) 1 2 k k2 auto start knows_same
      by (cases e1; cases e2) (auto simp: run_action_def Let_def launch_env_def)
  next
    case ActionMapReset
    then obtain e1 lm1 where 1: "executeStop env (r_reason req) polls (SetAutolaunch False lm) = Some (e1, lm1)"
      using assms(3) by (auto simp: run_action_def Let_def split: option.splits)
    have k: "knows A lm1" "launches lm1 = launches lm0" using stop [OF 1] auto by simp_all
    show ?thesis
      using ActionMapReset assms(3) 1 k auto start knows_same
      by (cases e1; cases "e_reset after") (auto simp: run_action_def Let_def launch_env_def)
  next
    case (ActionUnknown x)
    then show ?thesis using assms by (auto simp: run_action_def intro: knows_same)
  qed
qed

lemma knows_spawned_cong:
  "knows (A \<union> spawned en lm0 x) x \<Longrightarrow> core y = core x \<Longrightarrow> launches y = launches x \<Longrightarrow> knows (A \<union> spawned en lm0 y) y"
  using knows_cong [of y x] by (simp add: spawned_def split: sum.splits)

lemma knows_execute:
  assumes "knows A lm" "truthful A (lm_generation lm) polls" "execute env after polls req lm = Some lm'" "launches lm = launches lm0"
  shows "knows (A \<union> spawned (launch_env env after req) lm0 lm') lm'"
proof (cases "if r_kind req = ActionChangeMap \<and> r_snapshot req = '''' then e_stage env else Inr (r_snapshot req)")
  case (Inl err)
  with assms(3) have lm': "lm' = reply req (Some err) (lm\<lparr>lm_action := '''', lm_last_error := err\<rparr>)" by (simp add: execute_def)
  have "core lm' = core lm" "launches lm' = launches lm" by (simp_all add: lm' books_reply core_def) (simp_all add: launches_def reply_def)
  then show ?thesis using assms(1,4) knows_cong [of lm' lm] by (intro knows_same) simp_all
next
  case (Inr snapshot)
  let ?lm1 = "if \<not> requestNoop lm req then beginOperation env req lm else lm"
  obtain err lm2 where run: "run_action env after polls req ?lm1 = Some (err, lm2)"
    using assms(3) Inr by (auto simp: execute_def Let_def split: option.splits)
  let ?lm3 = "syncCompatibilityLocked (lm2\<lparr>lm_action := '''', lm_last_error := (case err of Some e \<Rightarrow> e | None \<Rightarrow> lm_last_error lm2)\<rparr>)"
  let ?lm4 = "case err of Some e \<Rightarrow> if \<not> requestNoop lm req then finishOperationError after e ?lm3 else ?lm3 | None \<Rightarrow> ?lm3"
  have lm': "lm' = (if snapshot \<noteq> '''' then emit (RemoveSnapshot snapshot) (reply req err ?lm4) else reply req err ?lm4)"
    using assms(3) Inr run by (simp add: execute_def Let_def)
  have c1: "core ?lm1 = core lm" "launches ?lm1 = launches lm" using books_split [of "beginOperation env req lm" lm] by simp_all
  have "knows A ?lm1" "truthful A (lm_generation ?lm1) polls" "launches ?lm1 = launches lm0"
    using assms(1,2,4) c1 knows_cong [OF c1(1)] by (simp_all add: core_def)
  note k2 = knows_run_action [OF this(1,2) run this(3)]
  have c4: "core ?lm4 = core lm2" "launches ?lm4 = launches lm2"
  proof -
    have "core ?lm3 = core lm2" by (simp add: core_def)
    then show "core ?lm4 = core lm2" by (cases err) simp_all
    have "books ?lm4 = books lm2" by (cases err) simp_all
    then show "launches ?lm4 = launches lm2" using books_split by blast
  qed
  have "core lm' = core lm2" "launches lm' = launches lm2"
    using c4 by (simp_all add: lm' books_after_reply books_reply(1))
  then show ?thesis using knows_spawned_cong [OF k2] by blast
qed

section \<open>The invariant\<close>

definition world_inv :: "lc_world \<Rightarrow> bool" where
  "world_inv w \<longleftrightarrow> lc_inv (lw_lm w) \<and> knows (lw_alive w) (lw_lm w)"

lemma core_nextRequest: "nextRequest env lm = Some (req, lm1) \<Longrightarrow> core lm1 = core lm \<and> launches lm1 = launches lm"
  by (auto simp: nextRequest_def Let_def core_def launches_def split: option.splits)

lemma core_submit: "core (snd (submitLifecycleRequest env req lm)) = core lm"
  by (simp add: submitLifecycleRequest_def split: sum.split)

lemma core_cancel: "core (cancelPendingRequests lm) = core lm"
proof -
  have f: "core (fold (\<lambda>req lm. reply req (Some e) (if r_snapshot req \<noteq> '''' then emit (RemoveSnapshot (r_snapshot req)) lm else lm)) rs x) = core x"
    for e rs x by (induction rs arbitrary: x) simp_all
  show ?thesis unfolding cancelPendingRequests_def f by (simp add: core_def)
qed

lemma knows_health:
  assumes "knows A lm" "\<not> e_alive env \<longrightarrow> lm_generation lm \<notin> A"
  shows "knows A (handleHealthEvent env g k m lm)"
proof -
  have f: "knows A (finalizeStopped env g' e r x)" if "core x = core lm" "\<not> e_alive env" for x e r g'
    using knows_finalize [of A x g' env e r] assms knows_cong [OF that(1)] that by (simp add: core_def)
  have c: "core (x\<lparr>lm_health_queued := b\<rparr>) = core x" "core (x\<lparr>lm_last_error := y\<rparr>) = core x" for x b y by (simp_all add: core_def)
  have same: "knows A x" if "core x = core lm" for x using assms(1) knows_cong [OF that] by simp
  show ?thesis unfolding handleHealthEvent_def Let_def using assms(1) by (auto intro: f same simp: c)
qed

lemma knows_reconcile:
  assumes "knows A lm" "\<not> e_alive env \<longrightarrow> lm_generation lm \<notin> A"
  shows "knows A (snd (reconcileProcessHealth env lm))"
  using assms knows_finalize by (auto simp: reconcileProcessHealth_def)

lemma world_inv_step:
  assumes "world_inv w" "world_step w w'"
  shows "world_inv w'"
proof -
  have i: "lc_inv (lw_lm w)" and k: "knows (lw_alive w) (lw_lm w)" using assms(1) by (simp_all add: world_inv_def)
  have quiet: "knows (lw_alive w) x" if "core x = core (lw_lm w)" for x using k knows_cong [OF that] by simp
  have fields: "core ((lw_lm w)\<lparr>g_players := n\<rparr>) = core (lw_lm w)" "core ((lw_lm w)\<lparr>g_update_pending := b\<rparr>) = core (lw_lm w)"
    "core ((lw_lm w)\<lparr>g_pipe := b\<rparr>) = core (lw_lm w)" "core (cancelPendingRequests ((lw_lm w)\<lparr>lm_shutdown := b\<rparr>)) = core (lw_lm w)"
    "core (checkStartupTimeout env dur rid (lw_lm w)) = core (lw_lm w)" for n b env dur rid
    by (simp_all add: core_cancel core_submit checkStartupTimeout_def Let_def) (simp_all add: core_def)
  from assms(2) show ?thesis
  proof (cases rule: world_step.cases)
    case (world_request env req lm1 after polls lm' A)
    have c: "core lm1 = core (lw_lm w)" "launches lm1 = launches (lw_lm w)" using core_nextRequest [OF world_request(2)] by simp_all
    have "knows A lm1" using knows_mono [OF k world_request(4)] knows_cong [OF c(1)] by simp
    moreover have "truthful A (lm_generation lm1) polls" using world_request(5) c(1) by (simp add: core_def)
    ultimately have "knows (A \<union> spawned (launch_env env after req) (lw_lm w) lm') lm'" using knows_execute [OF _ _ world_request(3) c(2)] by blast
    moreover have "lc_inv lm'" using inv_execute [OF inv_nextRequest [OF i world_request(2)] world_request(3)] .
    ultimately show ?thesis using world_request(1) by (simp add: world_inv_def)
  next
    case (world_auto env after polls rid lm' A)
    have "knows (A \<union> spawned (launch_env env after (auto_request rid)) (lw_lm w) lm') lm'"
      using knows_execute [OF knows_mono [OF k world_auto(4)] world_auto(5,3) refl] .
    moreover have "lc_inv lm'" using inv_execute [OF i world_auto(3)] .
    ultimately show ?thesis using world_auto(1) by (simp add: world_inv_def)
  next
    case (process_dies g)
    then show ?thesis using i knows_mono [OF k] by (simp add: world_inv_def)
  qed (use i k quiet fields knows_exit knows_ready knows_health knows_reconcile core_submit in \<open>simp_all add: world_inv_def\<close>)
qed

interpretation processes: step_system world_start world_step world_inv
proof unfold_locales
  show "world_inv w" if "world_start w" for w
    using that manager.inv_start by (auto simp: world_start_def world_inv_def knows_def)
  show "world_inv w'" if "world_inv w" "world_step w w'" for w w' using world_inv_step that by blast
qed

section \<open>One process at a time\<close>

text \<open>
  C1. Two Factorio processes never live at the same time: of the processes that really run, whatever the manager believes, there is
  at most one, it is the one of the current generation, and none when the manager is stopped.  This holds provided the operating
  system tells the truth: a probe or an exit reports a process gone only when it is.  A booted server is running or stopping, and the
  flags the rest of the program reads agree with the phase and the queue.
\<close>

theorem never_two_processes:
  assumes "reachable_from world_start world_step w"
  shows "lw_alive w \<subseteq> (if lm_phase (lw_lm w) = Stopped then {} else {lm_generation (lw_lm w)}) \<and> card (lw_alive w) \<le> 1 \<and>
    (lm_booted (lw_lm w) \<longrightarrow> lm_phase (lw_lm w) \<in> {Running, Stopping}) \<and>
    (g_fact_running (lw_lm w) \<longleftrightarrow> lm_phase (lw_lm w) \<noteq> Stopped) \<and> (g_fact_booted (lw_lm w) \<longleftrightarrow> lm_booted (lw_lm w)) \<and>
    (g_do_reboot_cw (lw_lm w) \<longleftrightarrow> (\<exists>r \<in> set (lm_queue (lw_lm w)). r_kind r = ActionRestartChatWire))"
proof -
  have i: "lc_inv (lw_lm w)" and k: "lw_alive w \<subseteq> (if lm_phase (lw_lm w) = Stopped then {} else {lm_generation (lw_lm w)})"
    using processes.inv_reachable [OF assms] by (simp_all add: world_inv_def knows_def)
  have "card (lw_alive w) \<le> card (if lm_phase (lw_lm w) = Stopped then {} else {lm_generation (lw_lm w)})" by (rule card_mono) (use k in auto)
  then have "card (lw_alive w) \<le> 1" by (auto split: if_splits)
  with i k show ?thesis by (auto simp: lc_inv_def phase_ok_def sync_ok_def list_ex_iff)
qed

definition booted_world :: lc_world where "booted_world = \<lparr>lw_lm = first_boot, lw_alive = {1}\<rparr>"

lemma booted_world_reachable: "reachable_from world_start world_step booted_world"
proof -
  have "launches first_boot = [Launch 1 '''']"
    by (simp add: first_boot_def execute_def auto_request_def own_request_def run_action_def executeStart_def requestNoop_def
      beginOperation_def Let_def split_def idle_manager_def calm_env_def launches_def reply_def emit_def syncCompatibilityLocked_def)
  then have "spawned (launch_env calm_env calm_env (auto_request ''auto-1'')) idle_manager first_boot = {1}"
    by (simp add: spawned_def launch_env_def calm_env_def launches_def idle_manager_def)
  moreover have "execute calm_env calm_env [] (auto_request ''auto-1'') idle_manager = Some first_boot"
    unfolding first_boot_def by (simp add: execute_def auto_request_def own_request_def run_action_def Let_def split_def)
  ultimately have "world_step \<lparr>lw_lm = idle_manager, lw_alive = {}\<rparr> booted_world"
    using world_auto [of calm_env "\<lparr>lw_lm = idle_manager, lw_alive = {}\<rparr>" calm_env "[]" "''auto-1''" first_boot "{}"]
    by (simp add: booted_world_def truthful_def shouldAutoStart_def) (simp add: idle_manager_def calm_env_def)
  moreover have "reachable_from world_start world_step \<lparr>lw_lm = idle_manager, lw_alive = {}\<rparr>"
    by (rule reach_start) (simp add: world_start_def idle_start)
  ultimately show ?thesis by (rule reach_step [rotated])
qed

theorem never_two_processes_witness: "lw_alive booted_world = {1} \<and> card (lw_alive booted_world) \<le> 1 \<and> lm_phase first_boot \<noteq> Stopped"
  using never_two_processes [OF booted_world_reachable] by (auto simp: booted_world_def split: if_splits)

end
