(* ===== verification/Spec2Isabelle.thy ===== *)
theory Spec2Isabelle
  imports Player_Properties Vote_Map Map_Exchange_Properties Mod_Restart Reset_Properties Control_Actions_Properties Game_Output_Properties Console_Event_Properties Web_Auth_Properties Lifecycle_World
begin

text \<open>
  ChatWire manages a Factorio dedicated server: it starts, watches and restarts the game process,
  bridges the game's chat to Discord, keeps the database of players with their bans and levels, runs
  votes on the map, resets the map and updates the mods.  It is one Go program of cooperating
  goroutines over shared globals guarded by mutexes.  The theories model the parts that decide
  something; input and output (Discord, HTTP, the file system, the clock, the game) are arguments and
  outputs of the model.

  \<^bold>\<open>Parts of the program and theories.\<close>

  \<^item> \<open>CW_Prelude\<close>: strings as byte lists, Go maps as association lists (\<open>gomap\<close>, locale \<open>kv_store\<close>),
    times in nanoseconds, the string functions of the standard library, and step systems with
    reachability and invariants (locale \<open>step_system\<close>).  \<open>Go_Std\<close> and \<open>Go_Hash\<close>: CRC-32,
    variable-length integers, SHA-1 and hexadecimal text.  \<open>Go_Time\<close>, \<open>Go_Path\<close> and \<open>Go_Base64\<close>: the calendar
    arithmetic of times, clean paths and globs, and base64, as far as the modelled code uses them.
  \<^item> \<open>PlayerDB_Codec\<close>: the binary file of players (fact/playerdb_codec.go).  Its fields are prefix codecs
    (locale \<open>prefix_codec\<close>): what is written is read back whatever follows.
  \<^item> \<open>Player_DB\<close>, \<open>Player_Persistence\<close>: the players in memory, pending changes and bans
    (fact/playerDB.go, fact/util.go, fact/moderation.go), and loading and saving them; the state is
    the record \<open>player_state\<close>.  \<open>Player_Facts\<close> holds the invariant and \<open>Player_Properties\<close> the properties; every
    operation is a step of the interpretation \<open>player_db\<close>.
  \<^item> \<open>Operation_Status\<close>: the status messages of long operations (fact/operation_status.go); sleeping
    goroutines are timers that fire as steps.
  \<^item> \<open>Lifecycle\<close>: the controller of the game process (fact/lifecycle.go), which queues requests and
    reacts to the events of the process; it calls the operations of \<open>Operation_Status\<close>.
    \<open>Lifecycle_Facts\<close> is its interpretation \<open>manager\<close> as a step system, \<open>Lifecycle_Properties\<close> what it
    promises, with the interpretation \<open>shutdown\<close> for the callers that wait.  \<open>Lifecycle_World\<close> puts the
    manager next to the processes that really run, a component it knows only through probes and exit
    reports; the interpretation \<open>processes\<close> shows that it never loses one.
  \<^item> \<open>Vote_Map\<close>: votes on the map (fact/voteMap.go).
  \<^item> \<open>Map_Exchange\<close>: the parser of map exchange strings (fact/mapExchange.go) as computations of a state
    monad.  \<open>Map_Exchange_Format\<close> states the format as a grammar and relates every reader to its
    production; \<open>Map_Exchange_Properties\<close> draws the consequences through the locale \<open>exact_reader\<close>.
  \<^item> \<open>Mod_Versions\<close>, \<open>Mod_Update\<close>, \<open>Mod_Install\<close>, \<open>Mod_Builtin\<close>: versions and dependency strings,
    the resolution of dependencies and the check of a plan, archives and downloads, and the bundled
    mods (modupdate, modedit).  \<open>Mod_Properties\<close> and \<open>Mod_Install_Properties\<close> hold their properties;
    \<open>Mod_Restart\<close> joins the updater and the lifecycle manager.
  \<^item> \<open>Saves\<close>: checking and choosing saves, staging a selected one and installing it after the stop
    (fact/save_transition.go, support/launcher_saves.go).  The saves folder is a map from names to files.
  \<^item> \<open>Reset_Dates\<close>, \<open>Reset_Schedule\<close>: the interval and the date of map resets, their three writers, and the
    loop that warns, skips, retries and resets (fact/newCron.go); \<open>Map_Generator\<close>, \<open>Map_Reset\<close>: the files of map
    generators, and archiving, generating and installing a map (fact/mapReset.go, cfg/pathutil.go).
  \<^item> \<open>Text_Clean\<close>, \<open>Game_Output\<close>: the text filters of the package sclean, and everything that is
    written to the console of the game (fact/util.go, fact/softmod_protocol.go).
  \<^item> \<open>Banlist\<close>: the shared list of bans (banlist/banList.go).
  \<^item> \<open>Console\<close>, \<open>Console_Events\<close>: the lines of the game's log, from splitting them to the handlers of chat,
    registrations, joins, crashes, saves and the events of the game's script (support/pipeHandle*.go), with
    the spam guard and the leaked codes.  A mutex that a return leaves locked is a flag of the
    state: waiting for it is \<open>Blocked\<close>, an index out of range \<open>Panicked\<close>.
  \<^item> \<open>Control_Jobs\<close>, \<open>Control_Files\<close>, \<open>Control_Actions\<close>: the remote control of an instance (webcontrol/jobs.go,
    controlruntime): idempotency records over crashes and failing writes, uploads and their validation, and
    the actions with their previews.  The history of previews and accepted actions that
    \<open>Control_Actions_Properties\<close> keeps is not state of the code; it is what the property speaks about.
  \<^item> \<open>Web_Auth\<close>: sign-in links, sessions and roles of the web panel (webapi/auth.go, webapi/server.go), with
    every critical section a step of its own.

  \<^bold>\<open>How the parts correspond to the code.\<close>  A struct is a record with the fields the modelled code
  uses, a function or method a definition of the same name, with a suffix or prefix where HOL has the
  name already; loops and closures have definitions of their own next to the function they belong to.
  A function that changes globals takes and returns the record of these globals.  Errors are
  \<open>Inl\<close>, \<open>None\<close> or \<open>Some\<close> message as the code returns them; log lines and most texts for Discord are
  left out.  Integers that can overflow are words (\<open>uint64\<close>, \<open>uint32\<close>, \<open>byte\<close>), Go's \<open>int\<close> on 64 bits is
  \<open>int\<close> where the values are small.  Iteration over a Go map follows the association list; where the
  order could matter the properties hold for every order.  Goroutines interact at the granularity of
  critical sections: each is a step, and steps interleave freely.

  \<^bold>\<open>Simplifications.\<close>  \<open>to_lower\<close> and \<open>trim_space\<close> are Go's functions on ASCII: they leave other bytes alone and
  keep the length, so that statements about lengths and letters of names are about ASCII names.  Times are
  unbounded integers of nanoseconds.  \<open>executeStart\<close> is one step, where the code releases its mutex between
  preparing and starting the process: only the controller goroutine starts processes.  The event \<open>Exited\<close> in
  the trace of \<open>finalizeStopped\<close> is bookkeeping of the model; whether a process is really gone is the component
  \<open>lw_alive\<close> of \<open>Lifecycle_World\<close>.  \<open>GetModFiles\<close> keeps the order in which mods were found, where the code ranges
  over a map.  Random tokens are arguments, and a step of \<open>Web_Auth\<close> takes fresh ones.  SHA-256, JSON, zlib and
  Zstandard are arguments.  Symbolic links are not modelled: a path names one file.

  \<^bold>\<open>What the lemmas show.\<close>  For each component: the invariant of its state and that every operation
  keeps it (players, lifecycle manager and processes, vote box, jobs, staged uploads, sessions); the effect
  of each operation on every branch; round trips and exactness of the codecs, parsers and identifiers; the
  plans of the mod updater against what the portal offers and what the mods require; the calendar of
  resets; what a line of chat can and cannot do; and the errors the code makes, stated as theorems
  about the model.

  \<^bold>\<open>Bounds and fuel.\<close>  \<open>resolve n\<close> is the recursion of the mod updater at depth \<open>11 - n\<close>: the code
  itself cuts it off below depth ten.  The closure over bundled mods has one unit of fuel more than
  there are bundled mods, and \<open>builtin_change_returns\<close> shows that it always suffices.  The wait for a
  stopping process takes a list of polls; \<open>wait_for_stop_ends\<close> shows that it returns once the deadline
  has passed.  Map exchange payloads are limited to 4 GiB, as the parser's 32-bit arithmetic on sizes
  is only exact below.

  \<^bold>\<open>Not modelled.\<close>  Compression, zip archives and JSON decoding are third-party or library code:
  arguments.  The Discord session and the texts of its commands, HTTP routing and the forwarding between
  the web service and the instances, reading the configuration files, the start of the operating system
  process, the firewall, the updater of the game itself, logging and the remaining main loops are not
  modelled; they mostly call the modelled operations.
\<close>

end
